(* ===== verification/Prelude.thy ===== *)
theory Prelude
  imports Main "HOL-Library.Word" "HOL-Library.Multiset"
begin

text \<open>
  Shared vocabulary of the development: the exceptions the Python code raises, as values; the
  time and identifier types; the two selection loops the services use (\<open>max(xs, key=...)\<close> and
  the strict-improvement loop); and the list lemmas the component theories rely on.
\<close>

unbundle bit_operations_syntax

named_theorems axp_defs \<open>definitions of the model that proofs unfold together\<close>
named_theorems axp_inv \<open>preservation lemmas of the components' invariants\<close>

section \<open>Types shared by the components\<close>

text \<open>
  Naive UTC datetimes are kept at the resolution of the \<open>DATETIME(3)\<close> columns: an integer number
  of milliseconds since the Unix epoch. Snowflake keys are Python ints.
\<close>

type_synonym ts = int
type_synonym db_id = int

text \<open>Exceptions of \<open>server/exception.py\<close> and of the language that model functions return.\<close>

datatype py_error =
    ValueError string
  | TypeError string
  | KeyError string
  | AttributeError string
  | InvalidParameterException string
  | AuthenticationException string
  | TokenReuseException string
  | RowNotFoundException
  | NoPermissionException
  | AccountLockedException string
  | RedisError
  | OSError string
  | TimeoutExpired
  | RuntimeError string
  | ZeroDivisionError

section \<open>Code that mutates state and may raise\<close>

text \<open>
  A method that changes the state and may raise returns its value or the exception together with the
  state it leaves: what was committed before the raise stays.
\<close>

type_synonym ('s, 'a) act = "'s \<Rightarrow> (py_error + 'a) \<times> 's"

definition returnE :: "'a \<Rightarrow> ('s, 'a) act" where
  "returnE x s = (Inr x, s)"

definition raiseE :: "py_error \<Rightarrow> ('s, 'a) act" where
  "raiseE e s = (Inl e, s)"

definition bindE :: "('s, 'a) act \<Rightarrow> ('a \<Rightarrow> ('s, 'b) act) \<Rightarrow> ('s, 'b) act" where
  "bindE m f s = (case m s of (Inl e, s') \<Rightarrow> (Inl e, s') | (Inr x, s') \<Rightarrow> f x s')"

lemma act_simps [simp]:
  "returnE x s = (Inr x, s)"
  "raiseE e s = (Inl e, s)"
  "bindE m f s = (case m s of (Inl e, s') \<Rightarrow> (Inl e, s') | (Inr x, s') \<Rightarrow> f x s')"
  by (simp_all add: returnE_def raiseE_def bindE_def)

text \<open>A loop that raises at its first failing item.\<close>

fun mapE :: "('a \<Rightarrow> py_error + 'b) \<Rightarrow> 'a list \<Rightarrow> py_error + 'b list" where
  "mapE f [] = Inr []"
| "mapE f (x # xs) =
     (case f x of Inl e \<Rightarrow> Inl e | Inr y \<Rightarrow> (case mapE f xs of Inl e \<Rightarrow> Inl e | Inr ys \<Rightarrow> Inr (y # ys)))"

lemma mapE_InrD: "mapE f xs = Inr ys \<Longrightarrow> list_all2 (\<lambda>x y. f x = Inr y) xs ys"
  by (induction xs arbitrary: ys) (auto split: sum.splits)

text \<open>A loop over actions: the first one that raises ends it.\<close>

fun each :: "('a \<Rightarrow> ('s, unit) act) \<Rightarrow> 'a list \<Rightarrow> ('s, unit) act" where
  "each f [] s = (Inr (), s)"
| "each f (x # xs) s = (case f x s of (Inl e, s1) \<Rightarrow> (Inl e, s1) | (Inr _, s1) \<Rightarrow> each f xs s1)"

text \<open>
  Triples for such code: from a state with \<open>P\<close> it returns a value and a state with \<open>Q\<close>, or raises and
  leaves a state with \<open>R\<close>.
\<close>

definition triple :: "('s \<Rightarrow> bool) \<Rightarrow> ('s, 'a) act \<Rightarrow> ('a \<Rightarrow> 's \<Rightarrow> bool) \<Rightarrow> ('s \<Rightarrow> bool) \<Rightarrow> bool" where
  "triple P m Q R \<longleftrightarrow> (\<forall>s. P s \<longrightarrow> (case m s of (Inl e, s') \<Rightarrow> R s' | (Inr x, s') \<Rightarrow> Q x s'))"

lemma tripleI:
  assumes "\<And>s e s'. P s \<Longrightarrow> m s = (Inl e, s') \<Longrightarrow> R s'" and "\<And>s x s'. P s \<Longrightarrow> m s = (Inr x, s') \<Longrightarrow> Q x s'"
  shows "triple P m Q R"
  using assms by (auto simp: triple_def split: prod.split sum.split)

lemma triple_Inr: "triple P m Q R \<Longrightarrow> P s \<Longrightarrow> m s = (Inr x, s') \<Longrightarrow> Q x s'"
  by (auto simp: triple_def dest!: spec [of _ s])

lemma triple_Inl: "triple P m Q R \<Longrightarrow> P s \<Longrightarrow> m s = (Inl e, s') \<Longrightarrow> R s'"
  by (auto simp: triple_def dest!: spec [of _ s])

lemma triple_bind:
  assumes "triple P m Q R" and "\<And>x. triple (Q x) (f x) Q' R"
  shows "triple P (bindE m f) Q' R"
proof (rule tripleI)
  fix s e s' assume s: "P s" and b: "bindE m f s = (Inl e, s')"
  obtain r s1 where m: "m s = (r, s1)" by (rule prod.exhaust)
  show "R s'"
  proof (cases r)
    case (Inl a)
    then show ?thesis using b m triple_Inl [OF assms(1) s] by simp
  next
    case (Inr x)
    then show ?thesis using b m triple_Inl [OF assms(2) triple_Inr [OF assms(1) s]] by simp
  qed
next
  fix s y s' assume s: "P s" and b: "bindE m f s = (Inr y, s')"
  obtain r s1 where m: "m s = (r, s1)" by (rule prod.exhaust)
  show "Q' y s'"
  proof (cases r)
    case (Inl a)
    then show ?thesis using b m by simp
  next
    case (Inr x)
    then show ?thesis using b m triple_Inr [OF assms(2) triple_Inr [OF assms(1) s]] by simp
  qed
qed

lemma triple_conseq:
  assumes "triple P m Q R" and "\<And>s. P' s \<Longrightarrow> P s" and "\<And>x s. Q x s \<Longrightarrow> Q' x s" and "\<And>s. R s \<Longrightarrow> R' s"
  shows "triple P' m Q' R'"
  by (rule tripleI) (use assms triple_Inl [OF assms(1)] triple_Inr [OF assms(1)] in blast)+

section \<open>Decimal numerals\<close>

text \<open>Python's \<open>str\<close> of an int, as \<open>'%s' % n\<close> prints it.\<close>

fun str_of_nat :: "nat \<Rightarrow> string" where
  "str_of_nat n =
     (if n < 10 then [char_of (48 + n)] else str_of_nat (n div 10) @ [char_of (48 + n mod 10)])"

declare str_of_nat.simps [simp del]

definition str_of_int :: "int \<Rightarrow> string" where
  "str_of_int i = (if i < 0 then CHR ''-'' # str_of_nat (nat (- i)) else str_of_nat (nat i))"

text \<open>\<open>'%s' % v\<close> for a value that may be \<open>None\<close>.\<close>

definition str_of_opt :: "('a \<Rightarrow> string) \<Rightarrow> 'a option \<Rightarrow> string" where
  "str_of_opt f v = (case v of None \<Rightarrow> ''None'' | Some x \<Rightarrow> f x)"

section \<open>Queries\<close>

text \<open>A query's \<open>.first()\<close>.\<close>

definition first_row :: "'a list \<Rightarrow> 'a option" where
  "first_row xs = (case xs of [] \<Rightarrow> None | x # _ \<Rightarrow> Some x)"

lemma first_row_simps [simp]: "first_row [] = None" "first_row (x # xs) = Some x"
  by (simp_all add: first_row_def)

lemma first_row_SomeD: "first_row xs = Some x \<Longrightarrow> x \<in> set xs"
  by (cases xs) auto

lemma first_row_None [simp]: "first_row xs = None \<longleftrightarrow> xs = []"
  by (cases xs) auto

text \<open>Updating a row that the query does not look at leaves the query's choice.\<close>

lemma first_row_filter_upd:
  assumes "first_row (filter P xs) = Some p" and "\<And>q. P (f q) = P q"
  shows "first_row (filter P (map (\<lambda>q. if key q = key p then f q else q) xs)) = Some (f p)"
  using assms(1) by (induction xs) (auto simp: assms(2) split: if_splits)

text \<open>Writing a row back under its key: the query finds the new row if it still matches.\<close>

lemma first_row_filter_put:
  assumes "first_row (filter P xs) = Some p" and "P p'" and "key p' = key p"
  shows "first_row (filter P (map (\<lambda>q. if key q = key p' then p' else q) xs)) = Some p'"
  using assms(1) by (induction xs) (auto simp: assms(2,3) split: if_splits)

text \<open>Updating rows that a query excludes before and after does not change its answer.\<close>

lemma filter_upd_other:
  assumes "\<And>p. p \<in> set xs \<Longrightarrow> key p = k \<Longrightarrow> \<not> P p \<and> \<not> P (f p)"
  shows "filter P (map (\<lambda>p. if key p = k then f p else p) xs) = filter P xs"
  using assms by (induction xs) auto

lemma first_row_append: "first_row (xs @ ys) = (if xs = [] then first_row ys else first_row xs)"
  by (cases xs) auto

text \<open>An update that makes no row match leaves at most as many matching rows.\<close>

lemma filter_upd_le:
  assumes "\<And>x. P (f x) \<Longrightarrow> P x"
  shows "length (filter P (map (\<lambda>x. if c x then f x else x) xs)) \<le> length (filter P xs)"
  using assms by (induction xs) (auto simp: le_SucI)

text \<open>Python truth value of an optional number: \<open>None\<close> and \<open>0\<close> are false.\<close>

definition truthy :: "int option \<Rightarrow> bool" where
  "truthy v = (case v of None \<Rightarrow> False | Some n \<Rightarrow> n \<noteq> 0)"

lemma truthy_simps [simp]: "truthy None = False" "truthy (Some n) = (n \<noteq> 0)"
  by (simp_all add: truthy_def)

text \<open>A dict built by inserting pairs in order, for \<open>dict.setdefault(k, v)\<close> and \<open>dict.get\<close>.\<close>

definition setdefault :: "('k \<rightharpoonup> 'v) \<Rightarrow> 'k \<Rightarrow> 'v \<Rightarrow> ('k \<rightharpoonup> 'v)" where
  "setdefault m k v = (case m k of None \<Rightarrow> m(k \<mapsto> v) | Some _ \<Rightarrow> m)"

lemma setdefault_get:
  "setdefault m k v k' = (if k' = k then Some (case m k of None \<Rightarrow> v | Some w \<Rightarrow> w) else m k')"
  by (auto simp: setdefault_def split: option.splits)

section \<open>Selection loops\<close>

text \<open>
  Python's \<open>max(xs, key=f)\<close>: the first element whose key is maximal; \<open>None\<close> where Python would
  raise on an empty sequence (every caller tests for emptiness first).
\<close>

fun max_by :: "('a \<Rightarrow> 'b::linorder) \<Rightarrow> 'a list \<Rightarrow> 'a option" where
  "max_by f [] = None"
| "max_by f (x # xs) =
     (case max_by f xs of None \<Rightarrow> Some x | Some y \<Rightarrow> if f x < f y then Some y else Some x)"

text \<open>
  The loop \<open>best, best_rank = None, r0; for x in xs: if f(x) > best_rank: best, best_rank = x, f(x)\<close>.
\<close>

fun best_above :: "('a \<Rightarrow> int) \<Rightarrow> 'a list \<Rightarrow> 'a option \<Rightarrow> int \<Rightarrow> 'a option" where
  "best_above f [] best r = best"
| "best_above f (x # xs) best r =
     (if f x > r then best_above f xs (Some x) (f x) else best_above f xs best r)"

lemma max_by_None [simp]: "max_by f xs = None \<longleftrightarrow> xs = []"
  by (cases xs) (auto split: option.splits)

lemma max_by_ex [simp]: "(\<exists>y. max_by f xs = Some y) \<longleftrightarrow> xs \<noteq> []"
  using max_by_None [of f xs] by (metis not_None_eq)

lemma max_by_SomeD:
  assumes "max_by f xs = Some y"
  shows "y \<in> set xs" "\<And>x. x \<in> set xs \<Longrightarrow> f x \<le> f y"
proof -
  have "y \<in> set xs \<and> (\<forall>x \<in> set xs. f x \<le> f y)"
    using assms
    by (induction xs arbitrary: y) (fastforce split: option.splits if_splits)+
  then show "y \<in> set xs" "\<And>x. x \<in> set xs \<Longrightarrow> f x \<le> f y" by auto
qed

lemma best_above_cases:
  "(best_above f xs b r = b \<and> (\<forall>x \<in> set xs. f x \<le> r)) \<or>
   (\<exists>y \<in> set xs. best_above f xs b r = Some y \<and> f y > r \<and> (\<forall>x \<in> set xs. f x \<le> f y))"
proof (induction xs arbitrary: b r)
  case Nil
  then show ?case by simp
next
  case (Cons x xs)
  show ?case
  proof (cases "f x > r")
    case True
    then show ?thesis using Cons.IH [of "Some x" "f x"] by fastforce
  next
    case False
    then show ?thesis using Cons.IH [of b r] by fastforce
  qed
qed

lemma best_above_NoneD:
  assumes "best_above f xs None r = None" and "x \<in> set xs"
  shows "f x \<le> r"
  using best_above_cases [of f xs None r] assms by auto

lemma best_above_SomeD:
  assumes "best_above f xs None r = Some y"
  shows "y \<in> set xs" "f y > r" "\<And>x. x \<in> set xs \<Longrightarrow> f x \<le> f y"
  using best_above_cases [of f xs None r] assms by auto

section \<open>Lists\<close>

lemma sum_list_map_filter_le:
  fixes f :: "'a \<Rightarrow> int"
  assumes "\<And>x. x \<in> set xs \<Longrightarrow> 0 \<le> f x"
  shows "sum_list (map f (filter P xs)) \<le> sum_list (map f xs)"
  using assms by (induction xs) (auto intro: add_increasing)

lemma sum_list_map_nonneg:
  fixes f :: "'a \<Rightarrow> int"
  assumes "\<And>x. x \<in> set xs \<Longrightarrow> 0 \<le> f x"
  shows "0 \<le> sum_list (map f xs)"
  using assms by (induction xs) auto

lemma sorted_key_take: "sorted (map f xs) \<Longrightarrow> sorted (map f (take n xs))"
  by (simp add: sorted_wrt_take take_map [symmetric])

section \<open>Bit fields\<close>

text \<open>Or-ing a field into the low bits that a shift left free is an addition.\<close>

lemma push_bit_or_low:
  fixes a s :: int
  assumes "0 \<le> s" "s < 2 ^ n"
  shows "push_bit n a OR s = a * 2 ^ n + s"
proof -
  have s: "take_bit n s = s"
    using assms by (simp add: take_bit_int_eq_self)
  have "push_bit n a AND take_bit n s = 0"
    by (rule bit_eqI) (auto simp: bit_simps)
  then have "push_bit n a OR take_bit n s = push_bit n a + take_bit n s"
    by (simp add: disjunctive_add_eq_or)
  then show ?thesis by (simp add: s push_bit_eq_mult)
qed

lemma and_low_mask_bounds:
  fixes x :: int
  shows "0 \<le> x AND (2 ^ n - 1)" "x AND (2 ^ n - 1) < 2 ^ n"
proof -
  have "x AND (2 ^ n - 1) = take_bit n x"
    by (simp add: take_bit_eq_mask mask_eq_exp_minus_1)
  then show "0 \<le> x AND (2 ^ n - 1)" "x AND (2 ^ n - 1) < 2 ^ n"
    by (simp_all add: take_bit_int_less_exp)
qed

end
