(* ===== verification/Snowflake.thy ===== *)
theory Snowflake
  imports Prelude
begin

text \<open>
  The identifier generator of \<open>server/util/snowflake.py\<close>. Every row of the database gets its
  primary key here, so the other theories rely on what is shown: identifiers of one process
  increase strictly, and processes with different instance numbers never produce the same one.

  The wall clock is the environment: a call reads it any number of times, so a call takes the
  list of the readings that are still to come and returns the ones it has not used. Running out
  of readings (\<open>None\<close>) is a call that is still spinning in \<open>_wait_next_ms\<close>.
\<close>

definition AXP_EPOCH :: int where "AXP_EPOCH = 1704067200000"
definition INSTANCE_BITS :: nat where "INSTANCE_BITS = 10"
definition SEQUENCE_BITS :: nat where "SEQUENCE_BITS = 12"
definition MAX_INSTANCE :: int where "MAX_INSTANCE = push_bit INSTANCE_BITS 1 - 1"
definition MAX_SEQUENCE :: int where "MAX_SEQUENCE = push_bit SEQUENCE_BITS 1 - 1"
definition INSTANCE_SHIFT :: nat where "INSTANCE_SHIFT = SEQUENCE_BITS"
definition TIMESTAMP_SHIFT :: nat where "TIMESTAMP_SHIFT = SEQUENCE_BITS + INSTANCE_BITS"
definition SEED_ID_MAX :: int where "SEED_ID_MAX = 999"

lemmas snowflake_consts =
  AXP_EPOCH_def INSTANCE_BITS_def SEQUENCE_BITS_def MAX_INSTANCE_def MAX_SEQUENCE_def
  INSTANCE_SHIFT_def TIMESTAMP_SHIFT_def SEED_ID_MAX_def

record snow_gen =
  sg_instance :: int
  sg_last_ts :: int
  sg_sequence :: int

text \<open>\<open>SnowflakeGenerator.__init__\<close>.\<close>

definition init_gen :: "int \<Rightarrow> py_error + snow_gen" where
  "init_gen inst =
     (if inst < 0 \<or> inst > MAX_INSTANCE
      then Inl (ValueError ''SNOWFLAKE_INSTANCE must be in 0..1023'')
      else Inr \<lparr>sg_instance = inst, sg_last_ts = -1, sg_sequence = 0\<rparr>)"

text \<open>\<open>_wait_next_ms\<close>: spin until a reading passes the last timestamp.\<close>

fun wait_next_ms :: "int \<Rightarrow> int list \<Rightarrow> (int \<times> int list) option" where
  "wait_next_ms last_ts [] = None"
| "wait_next_ms last_ts (t # clk) =
     (if t \<le> last_ts then wait_next_ms last_ts clk else Some (t, clk))"

text \<open>The value \<open>next_id\<close> returns for a timestamp, an instance and a sequence number.\<close>

definition compose_id :: "int \<Rightarrow> int \<Rightarrow> int \<Rightarrow> int" where
  "compose_id t inst s =
     push_bit TIMESTAMP_SHIFT (t - AXP_EPOCH) OR push_bit INSTANCE_SHIFT inst OR s"

text \<open>\<open>SnowflakeGenerator.next_id\<close>, the body under the lock.\<close>

definition next_id :: "snow_gen \<Rightarrow> int list \<Rightarrow> (int \<times> snow_gen \<times> int list) option" where
  "next_id g clk =
     (case clk of [] \<Rightarrow> None | t0 # clk0 \<Rightarrow>
       (case (if t0 < sg_last_ts g then wait_next_ms (sg_last_ts g) clk0 else Some (t0, clk0)) of
          None \<Rightarrow> None
        | Some (t, clk1) \<Rightarrow>
            let advanced =
              (if t = sg_last_ts g
               then (let s = (sg_sequence g + 1) AND MAX_SEQUENCE
                     in if s = 0
                        then map_option (\<lambda>(t', clk'). (t', s, clk'))
                               (wait_next_ms (sg_last_ts g) clk1)
                        else Some (t, s, clk1))
               else Some (t, 0, clk1))
            in map_option
                 (\<lambda>(t', s, clk'). (compose_id t' (sg_instance g) s,
                                   g\<lparr>sg_last_ts := t', sg_sequence := s\<rparr>, clk'))
                 advanced))"

text \<open>\<open>generate_snowflake_id\<close> called \<open>n\<close> times on the process's generator.\<close>

fun generate_ids :: "nat \<Rightarrow> snow_gen \<Rightarrow> int list \<Rightarrow> (int list \<times> snow_gen \<times> int list) option" where
  "generate_ids 0 g clk = Some ([], g, clk)"
| "generate_ids (Suc n) g clk =
     (case next_id g clk of None \<Rightarrow> None
      | Some (i, g', clk') \<Rightarrow>
          map_option (\<lambda>(is, g'', clk''). (i # is, g'', clk'')) (generate_ids n g' clk'))"

section \<open>The generator's invariant\<close>

definition snow_inv :: "snow_gen \<Rightarrow> bool" where
  "snow_inv g \<longleftrightarrow> 0 \<le> sg_instance g \<and> sg_instance g < 1024
     \<and> 0 \<le> sg_sequence g \<and> sg_sequence g < 4096"

text \<open>The identifier as a sum: the three fields do not overlap.\<close>

lemma compose_id_sum:
  assumes "0 \<le> inst" "inst < 1024" "0 \<le> s" "s < 4096"
  shows "compose_id t inst s = (t - AXP_EPOCH) * 4194304 + (inst * 4096 + s)"
proof -
  have low: "push_bit 12 inst OR s = inst * 4096 + s"
    using push_bit_or_low [of s 12 inst] assms by simp
  have "push_bit 22 (t - AXP_EPOCH) OR (inst * 4096 + s)
        = (t - AXP_EPOCH) * 4194304 + (inst * 4096 + s)"
    using push_bit_or_low [of "inst * 4096 + s" 22 "t - AXP_EPOCH"] assms by simp
  then show ?thesis
    by (simp add: compose_id_def snowflake_consts or.assoc low)
qed

lemma fields_decode:
  fixes x a s :: int
  assumes "0 \<le> a" "a < 1024" "0 \<le> s" "s < 4096"
  shows "(x * 4194304 + (a * 4096 + s)) div 4194304 = x"
    and "(x * 4194304 + (a * 4096 + s)) div 4096 mod 1024 = a"
    and "(x * 4194304 + (a * 4096 + s)) mod 4096 = s"
proof -
  have split: "x * 4194304 + (a * 4096 + s) = s + (x * 1024 + a) * 4096" by simp
  show "(x * 4194304 + (a * 4096 + s)) mod 4096 = s"
    unfolding split using assms by (simp only: mod_mult_self1) simp
  have "(s + (x * 1024 + a) * 4096) div 4096 = x * 1024 + a"
    using assms by (subst div_mult_self1) simp_all
  then show "(x * 4194304 + (a * 4096 + s)) div 4096 mod 1024 = a"
    unfolding split using assms by simp
  show "(x * 4194304 + (a * 4096 + s)) div 4194304 = x" using assms by simp
qed

lemma wait_next_ms_SomeD: "wait_next_ms l clk = Some (t, clk') \<Longrightarrow> l < t"
  by (induction l clk rule: wait_next_ms.induct) (auto split: if_splits)

lemma wait_next_ms_total:
  "\<exists>t \<in> set clk. l < t \<Longrightarrow> \<exists>t clk'. wait_next_ms l clk = Some (t, clk')"
  by (induction l clk rule: wait_next_ms.induct) auto

lemma next_sequence_bounds:
  "0 \<le> (x AND MAX_SEQUENCE)" "(x AND MAX_SEQUENCE) < 4096"
  using and_low_mask_bounds [of x 12] by (simp_all add: snowflake_consts)

lemma next_sequence_Suc:
  assumes "0 \<le> s" "s < 4096" "(s + 1) AND MAX_SEQUENCE \<noteq> 0"
  shows "(s + 1) AND MAX_SEQUENCE = s + 1"
proof -
  have eq: "(s + 1) AND MAX_SEQUENCE = (s + 1) mod 4096"
    using take_bit_eq_mask [of 12 "s + 1"]
    by (simp add: snowflake_consts mask_eq_exp_minus_1 take_bit_eq_mod)
  with assms show ?thesis by (cases "s = 4095") auto
qed

text \<open>
  One call: the identifier is composed of the new state's fields, the instance is kept, and the
  pair of timestamp and sequence moves up.
\<close>

lemma next_id_SomeD:
  assumes "next_id g clk = Some (i, g', clk')" and "snow_inv g"
  shows "i = compose_id (sg_last_ts g') (sg_instance g') (sg_sequence g')"
    and "sg_instance g' = sg_instance g" and "snow_inv g'"
    and "sg_last_ts g < sg_last_ts g' \<or>
         sg_last_ts g = sg_last_ts g' \<and> sg_sequence g < sg_sequence g'"
  using assms next_sequence_bounds [of "sg_sequence g + 1"] next_sequence_Suc [of "sg_sequence g"]
  by (auto simp: next_id_def snow_inv_def Let_def split: list.splits option.splits if_splits
      dest!: wait_next_ms_SomeD)

lemma compose_id_less:
  assumes "snow_inv g" "snow_inv g'" "sg_instance g' = sg_instance g"
    and "sg_last_ts g < sg_last_ts g' \<or>
         sg_last_ts g = sg_last_ts g' \<and> sg_sequence g < sg_sequence g'"
  shows "compose_id (sg_last_ts g) (sg_instance g) (sg_sequence g)
         < compose_id (sg_last_ts g') (sg_instance g') (sg_sequence g')"
  using assms by (auto simp: snow_inv_def compose_id_sum)

lemma generate_ids_above:
  assumes "generate_ids n g clk = Some (is, g', clk')" and "snow_inv g"
  shows "sorted_wrt (<) (compose_id (sg_last_ts g) (sg_instance g) (sg_sequence g) # is)
         \<and> length is = n"
  using assms
proof (induction n arbitrary: g clk "is" g' clk')
  case 0
  then show ?case by simp
next
  case (Suc n)
  from Suc.prems(1) obtain i h clk1 is'
    where step: "next_id g clk = Some (i, h, clk1)"
      and rest: "generate_ids n h clk1 = Some (is', g', clk')" and "is": "is = i # is'"
    by (auto split: option.splits)
  note h = next_id_SomeD [OF step Suc.prems(2)]
  have "sorted_wrt (<) (i # is') \<and> length is' = n"
    using Suc.IH [OF rest h(3)] h(1) by simp
  moreover have "compose_id (sg_last_ts g) (sg_instance g) (sg_sequence g) < i"
    using compose_id_less [OF Suc.prems(2) h(3,2,4)] h(1) by simp
  ultimately show ?case using "is" by fastforce
qed

lemma generate_ids_instance:
  assumes "generate_ids n g clk = Some (is, g', clk')" and "snow_inv g" and "i \<in> set is"
  shows "i div 4096 mod 1024 = sg_instance g"
  using assms
proof (induction n arbitrary: g clk "is" g' clk')
  case 0
  then show ?case by simp
next
  case (Suc n)
  from Suc.prems(1) obtain j h clk1 is'
    where step: "next_id g clk = Some (j, h, clk1)"
      and rest: "generate_ids n h clk1 = Some (is', g', clk')" and "is": "is = j # is'"
    by (auto split: option.splits)
  note h = next_id_SomeD [OF step Suc.prems(2)]
  have "j div 4096 mod 1024 = sg_instance g"
    using h(1-3)
      fields_decode(2) [of "sg_instance h" "sg_sequence h" "sg_last_ts h - AXP_EPOCH"]
    by (simp add: snow_inv_def compose_id_sum)
  with Suc.IH [OF rest h(3)] h(2) Suc.prems(3) "is" show ?case by auto
qed

section \<open>Properties\<close>

text \<open>C11: the identifiers that one process draws from its generator, in any number and whatever
  the clock does (standing still, jumping back), are strictly increasing, hence distinct.\<close>

theorem generate_ids_increasing:
  assumes "init_gen inst = Inr g" and "generate_ids n g clk = Some (is, g', clk')"
  shows "sorted_wrt (<) is \<and> distinct is \<and> length is = n"
proof -
  have "snow_inv g"
    using assms(1) by (auto simp: init_gen_def snow_inv_def snowflake_consts split: if_splits)
  from generate_ids_above [OF assms(2) this]
  have inc: "sorted_wrt (<) is" and len: "length is = n" by simp_all
  with strict_sorted_iff [of "is"] show ?thesis by auto
qed

theorem generate_ids_increasing_witness:
  "init_gen 1 = Inr \<lparr>sg_instance = 1, sg_last_ts = -1, sg_sequence = 0\<rparr> \<and>
   generate_ids 3 \<lparr>sg_instance = 1, sg_last_ts = -1, sg_sequence = 0\<rparr>
     [1704067200001, 1704067200001, 1704067200000, 1704067200002] =
   Some ([4198400, 4198401, 8392704],
         \<lparr>sg_instance = 1, sg_last_ts = 1704067200002, sg_sequence = 0\<rparr>, []) \<and>
   sorted_wrt (<) [4198400, 4198401, 8392704 :: int]"
proof -
  have 1: "init_gen 1 = Inr \<lparr>sg_instance = 1, sg_last_ts = -1, sg_sequence = 0\<rparr>"
    by (simp add: init_gen_def snowflake_consts)
  have 2: "generate_ids 3 \<lparr>sg_instance = 1, sg_last_ts = -1, sg_sequence = 0\<rparr>
      [1704067200001, 1704067200001, 1704067200000, 1704067200002] =
    Some ([4198400, 4198401, 8392704],
         \<lparr>sg_instance = 1, sg_last_ts = 1704067200002, sg_sequence = 0\<rparr>, [])"
    by (simp add: numeral_3_eq_3 next_id_def compose_id_def snowflake_consts Let_def)
  from generate_ids_increasing [OF 1 2] 1 2 show ?thesis by simp
qed

text \<open>Two processes configured with different instance numbers never produce the same
  identifier.\<close>

theorem instances_never_collide:
  assumes "init_gen a = Inr g" and "init_gen b = Inr h" and "a \<noteq> b"
    and "generate_ids n g clk = Some (is, g', clk')"
    and "generate_ids m h clk2 = Some (js, h', clk2')"
  shows "set is \<inter> set js = {}"
proof -
  have g: "snow_inv g \<and> sg_instance g = a" and h: "snow_inv h \<and> sg_instance h = b"
    using assms(1,2)
    by (auto simp: init_gen_def snow_inv_def snowflake_consts split: if_splits)
  have "i div 4096 mod 1024 = a" if "i \<in> set is" for i
    using generate_ids_instance [OF assms(4)] g that by simp
  moreover have "i div 4096 mod 1024 = b" if "i \<in> set js" for i
    using generate_ids_instance [OF assms(5)] h that by simp
  ultimately show ?thesis using assms(3) by blast
qed

theorem instances_never_collide_witness:
  "init_gen 1 = Inr \<lparr>sg_instance = 1, sg_last_ts = -1, sg_sequence = 0\<rparr> \<and>
   init_gen 2 = Inr \<lparr>sg_instance = 2, sg_last_ts = -1, sg_sequence = 0\<rparr> \<and>
   set [4198400 :: int] \<inter> set [4202496] = {}"
proof -
  have 1: "init_gen 1 = Inr \<lparr>sg_instance = 1, sg_last_ts = -1, sg_sequence = 0\<rparr>"
    and 2: "init_gen 2 = Inr \<lparr>sg_instance = 2, sg_last_ts = -1, sg_sequence = 0\<rparr>"
    by (simp_all add: init_gen_def snowflake_consts)
  have 3: "generate_ids (Suc 0) \<lparr>sg_instance = 1, sg_last_ts = -1, sg_sequence = 0\<rparr>
      [1704067200001] = Some ([4198400],
        \<lparr>sg_instance = 1, sg_last_ts = 1704067200001, sg_sequence = 0\<rparr>, [])"
    and 4: "generate_ids (Suc 0) \<lparr>sg_instance = 2, sg_last_ts = -1, sg_sequence = 0\<rparr>
      [1704067200001] = Some ([4202496],
        \<lparr>sg_instance = 2, sg_last_ts = 1704067200001, sg_sequence = 0\<rparr>, [])"
    by (simp_all add: next_id_def compose_id_def snowflake_consts Let_def)
  have "(1 :: int) \<noteq> 2" by simp
  from instances_never_collide [OF 1 2 this 3 4] 1 2 show ?thesis by blast
qed

text \<open>An identifier decodes to what it was made of, stays above the range reserved for seed
  rows and fits 63 bits as long as the clock is within the 41 bits after the epoch.\<close>

theorem next_id_layout:
  assumes "next_id g clk = Some (i, g', clk')" and "snow_inv g"
    and "AXP_EPOCH < sg_last_ts g'" and "sg_last_ts g' < AXP_EPOCH + 2 ^ 41"
  shows "drop_bit TIMESTAMP_SHIFT i + AXP_EPOCH = sg_last_ts g'
       \<and> drop_bit INSTANCE_SHIFT i AND MAX_INSTANCE = sg_instance g
       \<and> i AND MAX_SEQUENCE = sg_sequence g'
       \<and> SEED_ID_MAX < i \<and> i < 2 ^ 63"
proof -
  note h = next_id_SomeD [OF assms(1,2)]
  from h(3) have b: "0 \<le> sg_instance g'" "sg_instance g' < 1024"
    "0 \<le> sg_sequence g'" "sg_sequence g' < 4096" by (simp_all add: snow_inv_def)
  have i: "i = (sg_last_ts g' - AXP_EPOCH) * 4194304 + (sg_instance g' * 4096 + sg_sequence g')"
    using h(1) b by (simp add: compose_id_sum)
  have masks: "drop_bit INSTANCE_SHIFT i AND MAX_INSTANCE = i div 4096 mod 1024"
    "i AND MAX_SEQUENCE = i mod 4096"
    using take_bit_eq_mask [of 10 "drop_bit 12 i"] take_bit_eq_mask [of 12 i]
    by (simp_all add: snowflake_consts mask_eq_exp_minus_1 take_bit_eq_mod drop_bit_eq_div)
  note dec = fields_decode [OF b, of "sg_last_ts g' - AXP_EPOCH", folded i]
  have "drop_bit TIMESTAMP_SHIFT i = i div 4194304"
    by (simp add: snowflake_consts drop_bit_eq_div)
  with dec masks h(2) have
    "drop_bit TIMESTAMP_SHIFT i + AXP_EPOCH = sg_last_ts g'"
    "drop_bit INSTANCE_SHIFT i AND MAX_INSTANCE = sg_instance g"
    "i AND MAX_SEQUENCE = sg_sequence g'" by simp_all
  moreover have "SEED_ID_MAX < i" "i < 2 ^ 63"
    using i b assms(3,4) by (simp_all add: snowflake_consts)
  ultimately show ?thesis by blast
qed

theorem next_id_layout_witness:
  "drop_bit TIMESTAMP_SHIFT 4198400 + AXP_EPOCH = 1704067200001 \<and> SEED_ID_MAX < 4198400"
proof -
  let ?g = "\<lparr>sg_instance = 1, sg_last_ts = -1, sg_sequence = 0\<rparr>"
  let ?g' = "\<lparr>sg_instance = 1, sg_last_ts = 1704067200001, sg_sequence = 0\<rparr>"
  have 1: "next_id ?g [1704067200001] = Some (4198400, ?g', [])"
    by (simp add: next_id_def compose_id_def snowflake_consts Let_def)
  have 2: "snow_inv ?g" by (simp add: snow_inv_def)
  have 3: "AXP_EPOCH < sg_last_ts ?g'" "sg_last_ts ?g' < AXP_EPOCH + 2 ^ 41"
    by (simp_all add: AXP_EPOCH_def)
  from next_id_layout [OF 1 2 3] show ?thesis by simp
qed

text \<open>A call returns as soon as the clock has moved past the last timestamp: after the
  first reading, one later reading is enough, whatever the generator's state.\<close>

theorem next_id_returns:
  assumes "\<exists>t \<in> set clk. sg_last_ts g < t"
  shows "\<exists>i g' clk'. next_id g (now # clk) = Some (i, g', clk')"
proof -
  obtain t clk1 where w: "wait_next_ms (sg_last_ts g) clk = Some (t, clk1)"
    using wait_next_ms_total [OF assms] by auto
  then have "sg_last_ts g < t" by (rule wait_next_ms_SomeD)
  with w show ?thesis
    by (auto simp: next_id_def Let_def split: option.splits)
qed

theorem next_id_returns_witness:
  "\<exists>i g' clk'. next_id \<lparr>sg_instance = 1, sg_last_ts = 9, sg_sequence = 4095\<rparr> [9, 9, 10]
     = Some (i, g', clk')"
  by (rule next_id_returns) simp

end
