(* ===== verification/PyVal.thy ===== *)
theory PyVal
  imports Complex_Main Prelude
begin

text \<open>
  The Python values that cross the program's JSON boundaries (request bodies, node payloads, flow
  graphs): truth value, \<open>dict.get\<close>, \<open>==\<close>, \<open>in\<close>, \<open>int()\<close> and \<open>float()\<close> as the language defines
  them, with the exceptions they raise as values.
\<close>

section \<open>Values\<close>

text \<open>A double is its value: every finite double is a rational. JSON bodies carry no NaN.\<close>

datatype pyval =
    PNone
  | PBool bool
  | PInt int
  | PFloat rat
  | PStr string
  | PList "pyval list"
  | PDict "(string \<times> pyval) list"

type_synonym pydict = "(string \<times> pyval) list"

fun py_truthy :: "pyval \<Rightarrow> bool" where
  "py_truthy PNone = False"
| "py_truthy (PBool b) = b"
| "py_truthy (PInt i) = (i \<noteq> 0)"
| "py_truthy (PFloat q) = (q \<noteq> 0)"
| "py_truthy (PStr s) = (s \<noteq> [])"
| "py_truthy (PList xs) = (xs \<noteq> [])"
| "py_truthy (PDict d) = (d \<noteq> [])"

text \<open>\<open>a or b\<close>.\<close>

definition py_or :: "pyval \<Rightarrow> pyval \<Rightarrow> pyval" where
  "py_or a b = (if py_truthy a then a else b)"

text \<open>\<open>d.get(k)\<close>, \<open>d.get(k, default)\<close> and \<open>k in d\<close>.\<close>

definition dget :: "pydict \<Rightarrow> string \<Rightarrow> pyval" where
  "dget d k = (case map_of d k of None \<Rightarrow> PNone | Some v \<Rightarrow> v)"

definition dget_or :: "pydict \<Rightarrow> string \<Rightarrow> pyval \<Rightarrow> pyval" where
  "dget_or d k v0 = (case map_of d k of None \<Rightarrow> v0 | Some v \<Rightarrow> v)"

definition dhas :: "pydict \<Rightarrow> string \<Rightarrow> bool" where
  "dhas d k = (map_of d k \<noteq> None)"

text \<open>\<open>d[k] = v\<close>: replaces in place, or appends.\<close>

fun dset :: "pydict \<Rightarrow> string \<Rightarrow> pyval \<Rightarrow> pydict" where
  "dset [] k v = [(k, v)]"
| "dset ((k', v') # d) k v = (if k' = k then (k, v) # d else (k', v') # dset d k v)"

lemma map_of_dset: "map_of (dset d k v) = (map_of d)(k \<mapsto> v)"
  by (induction d) auto

lemma dget_dset [simp]: "dget (dset d k v) k' = (if k' = k then v else dget d k')"
  by (simp add: dget_def map_of_dset)

section \<open>Numbers and equality\<close>

text \<open>\<open>bool\<close> is a subclass of \<open>int\<close>, and numbers of different types compare by value.\<close>

definition py_number :: "pyval \<Rightarrow> rat option" where
  "py_number v = (case v of
       PBool b \<Rightarrow> Some (if b then 1 else 0)
     | PInt i \<Rightarrow> Some (of_int i)
     | PFloat q \<Rightarrow> Some q
     | _ \<Rightarrow> None)"

text \<open>\<open>==\<close>: numbers by value, lists item by item, dicts by key and value; no other cross-type equality.\<close>

fun py_eq :: "pyval \<Rightarrow> pyval \<Rightarrow> bool"
and py_eqs :: "pyval list \<Rightarrow> pyval list \<Rightarrow> bool"
and py_sub :: "(string \<times> pyval) list \<Rightarrow> (string \<times> pyval) list \<Rightarrow> bool"
and py_find :: "string \<Rightarrow> pyval \<Rightarrow> (string \<times> pyval) list \<Rightarrow> bool" where
  "py_eq PNone PNone = True"
| "py_eq (PStr s) (PStr t) = (s = t)"
| "py_eq (PList xs) (PList ys) = py_eqs xs ys"
| "py_eq (PDict d) (PDict e) = (length d = length e \<and> py_sub d e)"
| "py_eq a b = (case (py_number a, py_number b) of (Some x, Some y) \<Rightarrow> x = y | _ \<Rightarrow> False)"
| "py_eqs [] [] = True"
| "py_eqs (x # xs) (y # ys) = (py_eq x y \<and> py_eqs xs ys)"
| "py_eqs _ _ = False"
| "py_sub [] e = True"
| "py_sub ((k, v) # d) e = (py_find k v e \<and> py_sub d e)"
| "py_find k v [] = False"
| "py_find k v ((k', w) # e) = (if k' = k then py_eq v w else py_find k v e)"

text \<open>\<open>a in xs\<close> for a list.\<close>

definition py_in :: "pyval \<Rightarrow> pyval list \<Rightarrow> bool" where
  "py_in a xs = (\<exists>x \<in> set xs. py_eq a x)"

section \<open>\<open>int()\<close>\<close>

definition is_space :: "char \<Rightarrow> bool" where
  "is_space c = (c \<in> {CHR 0x20, CHR 0x09, CHR 0x0A, CHR 0x0B, CHR 0x0C, CHR 0x0D,
     CHR 0x1C, CHR 0x1D, CHR 0x1E, CHR 0x1F, CHR 0x85, CHR 0xA0})"

definition is_digit :: "char \<Rightarrow> bool" where
  "is_digit c = (48 \<le> (of_char c :: nat) \<and> (of_char c :: nat) \<le> 57)"

definition py_strip :: "string \<Rightarrow> string" where
  "py_strip s = rev (dropWhile is_space (rev (dropWhile is_space s)))"

text \<open>
  Digits with single underscores between them, most significant first; the flag says whether the
  character before was a digit.
\<close>

fun digits_value :: "string \<Rightarrow> bool \<Rightarrow> int \<Rightarrow> int option" where
  "digits_value [] prev acc = (if prev then Some acc else None)"
| "digits_value (c # cs) prev acc =
     (if is_digit c then digits_value cs True (10 * acc + (of_char c - 48))
      else if c = CHR ''_'' \<and> prev then digits_value cs False acc
      else None)"

definition int_of_string :: "string \<Rightarrow> int option" where
  "int_of_string s = (case py_strip s of
       CHR ''-'' # ds \<Rightarrow> map_option uminus (digits_value ds False 0)
     | CHR ''+'' # ds \<Rightarrow> digits_value ds False 0
     | ds \<Rightarrow> digits_value ds False 0)"

text \<open>\<open>s.endswith(suf)\<close>.\<close>

definition ends_with :: "string \<Rightarrow> string \<Rightarrow> bool" where
  "ends_with s suf \<longleftrightarrow> length suf \<le> length s \<and> drop (length s - length suf) s = suf"

text \<open>Letters, and \<open>str.lower\<close> on ASCII.\<close>

definition is_alpha :: "char \<Rightarrow> bool" where
  "is_alpha c = (let n = (of_char c :: nat) in 65 \<le> n \<and> n \<le> 90 \<or> 97 \<le> n \<and> n \<le> 122)"

definition to_lower :: "char \<Rightarrow> char" where
  "to_lower c = (let n = (of_char c :: nat) in if 65 \<le> n \<and> n \<le> 90 then char_of (n + 32) else c)"

text \<open>\<open>int(x)\<close> of a float truncates towards zero.\<close>

definition trunc_rat :: "rat \<Rightarrow> int" where
  "trunc_rat q = (if 0 \<le> q then \<lfloor>q\<rfloor> else \<lceil>q\<rceil>)"

definition py_int :: "pyval \<Rightarrow> py_error + int" where
  "py_int v = (case v of
       PBool b \<Rightarrow> Inr (if b then 1 else 0)
     | PInt i \<Rightarrow> Inr i
     | PFloat q \<Rightarrow> Inr (trunc_rat q)
     | PStr s \<Rightarrow> (case int_of_string s of None \<Rightarrow> Inl (ValueError s) | Some i \<Rightarrow> Inr i)
     | _ \<Rightarrow> Inl (TypeError ''int''))"

text \<open>Printing and reading back.\<close>

lemma of_char_digit [simp]:
  fixes n :: nat
  assumes "n < 10"
  shows "(of_char (char_of (48 + n) :: char) :: nat) = 48 + n"
    and "(of_char (char_of (48 + n) :: char) :: int) = 48 + int n"
proof -
  show *: "(of_char (char_of (48 + n) :: char) :: nat) = 48 + n"
    using assms by (subst of_char_of) simp
  have "(of_char (char_of (48 + n) :: char) :: int) = of_nat (of_char (char_of (48 + n) :: char))"
    by (simp only: of_nat_of_char)
  then show "(of_char (char_of (48 + n) :: char) :: int) = 48 + int n"
    unfolding * by simp
qed

lemma is_digit_char [simp]: "(n :: nat) < 10 \<Longrightarrow> is_digit (char_of (48 + n))"
  by (simp add: is_digit_def)

lemma digits_value_str:
  "digits_value (str_of_nat n @ cs) prev 0 = digits_value cs True (int n)"
proof (induction n arbitrary: cs prev rule: str_of_nat.induct)
  case (1 n)
  show ?case
  proof (cases "n < 10")
    case True
    then show ?thesis by (simp add: str_of_nat.simps)
  next
    case False
    have "digits_value (str_of_nat n @ cs) prev 0
        = digits_value (str_of_nat (n div 10) @ char_of (48 + n mod 10) # cs) prev 0"
      using False by (subst str_of_nat.simps) simp
    also have "\<dots> = digits_value (char_of (48 + n mod 10) # cs) True (int (n div 10))"
      by (rule 1 [OF False])
    also have "\<dots> = digits_value cs True (10 * int (n div 10) + int (n mod 10))"
      by simp
    also have "10 * int (n div 10) + int (n mod 10) = int n"
      by (metis mult.commute div_mult_mod_eq of_nat_add of_nat_mult of_nat_numeral)
    finally show ?thesis .
  qed
qed

lemma str_of_nat_digits: "c \<in> set (str_of_nat n) \<Longrightarrow> is_digit c"
  by (induction n rule: str_of_nat.induct) (subst (asm) (2) str_of_nat.simps, auto split: if_splits)

lemma str_of_nat_ne [simp]: "str_of_nat n \<noteq> []"
  by (subst str_of_nat.simps) auto

lemma digit_not_space: "is_digit c \<Longrightarrow> \<not> is_space c \<and> c \<noteq> CHR ''-'' \<and> c \<noteq> CHR ''+''"
  by (auto simp: is_digit_def is_space_def)

lemma minus_not_space: "\<not> is_space (CHR ''-'')"
  by (simp add: is_space_def)

lemma py_strip_id: "(\<And>c. c \<in> set s \<Longrightarrow> \<not> is_space c) \<Longrightarrow> py_strip s = s"
proof -
  assume ns: "\<And>c. c \<in> set s \<Longrightarrow> \<not> is_space c"
  have "dropWhile is_space xs = xs" if "\<And>c. c \<in> set xs \<Longrightarrow> \<not> is_space c" for xs
    using that by (cases xs) auto
  from this [of s] this [of "rev s"] ns show ?thesis by (simp add: py_strip_def)
qed

lemma int_of_string_unsigned:
  assumes "py_strip s = c # cs" and "c \<noteq> CHR ''-''" and "c \<noteq> CHR ''+''"
  shows "int_of_string s = digits_value (c # cs) False 0"
proof -
  have "(case c # cs of CHR ''-'' # ds \<Rightarrow> f ds | CHR ''+'' # ds \<Rightarrow> g ds | ds \<Rightarrow> h ds) = h (c # cs)"
    for f g h :: "string \<Rightarrow> int option"
    using assms(2,3) by (cases c) (simp split: bool.split, blast)
  then show ?thesis by (simp only: int_of_string_def assms(1))
qed

lemma int_of_str_of_int [simp]: "int_of_string (str_of_int i) = Some i"
proof -
  have nat: "int_of_string (str_of_nat n) = Some (int n)" for n
  proof -
    obtain c cs where ds: "str_of_nat n = c # cs" by (cases "str_of_nat n") auto
    then have "c \<noteq> CHR ''-''" "c \<noteq> CHR ''+''"
      using str_of_nat_digits [of c n] digit_not_space by auto
    moreover have "py_strip (str_of_nat n) = c # cs"
      unfolding ds [symmetric] using str_of_nat_digits digit_not_space by (intro py_strip_id) blast
    ultimately have "int_of_string (str_of_nat n) = digits_value (str_of_nat n) False 0"
      using int_of_string_unsigned [of "str_of_nat n" c cs] by (simp add: ds)
    then show ?thesis using digits_value_str [of n "[]"] by simp
  qed
  have "py_strip (CHR ''-'' # str_of_nat n) = CHR ''-'' # str_of_nat n" for n
    using str_of_nat_digits digit_not_space minus_not_space by (intro py_strip_id) (metis set_ConsD)
  then have "int_of_string (CHR ''-'' # str_of_nat n) = Some (- int n)" for n
    using digits_value_str [of n "[]"] by (simp add: int_of_string_def)
  with nat show ?thesis by (auto simp: str_of_int_def)
qed

end
