(* ===== verification/Storage.thy ===== *)
theory Storage
  imports PyVal "HOL-Library.Char_ord" "HOL-Library.List_Lexorder" "HOL-Library.Product_Lexorder"
begin

text \<open>
  The storage tables of \<open>server/model\<close> (\<open>segment\<close>, \<open>recording\<close>, \<open>disk\<close>, \<open>storage_policy\<close>, the
  columns of \<open>camera\<close> the services read) with their queries and mutations, and the write-disk
  selection of \<open>server/service/storage_manager.py\<close>.

  A table is the list of its rows in insertion order, a query is a filter followed by the stable
  sort its \<open>order_by\<close> names, and \<open>.first()\<close> takes the head. The file system is part of the same
  state: the absolute paths that exist and those on which the system call fails.
\<close>

section \<open>Rows\<close>

definition TIER_CACHE :: string where "TIER_CACHE = ''cache''"
definition TIER_RECORD :: string where "TIER_RECORD = ''record''"
definition SEG_REASON_CONTINUOUS :: string where "SEG_REASON_CONTINUOUS = ''continuous''"
definition SEG_REASON_MANUAL :: string where "SEG_REASON_MANUAL = ''manual''"

record segment =
  seg_id :: db_id
  seg_camera :: db_id
  seg_disk :: db_id
  seg_rel_path :: string
  seg_start :: ts
  seg_end :: ts
  seg_duration_ms :: int
  seg_size :: int
  seg_container :: string
  seg_video_codec :: "string option"
  seg_has_audio :: bool
  seg_width :: "int option"
  seg_height :: "int option"
  seg_first_keyframe_ms :: int
  seg_reason :: string
  seg_tier :: string
  seg_role :: string
  seg_corrupt :: bool

definition REASON_MANUAL :: string where "REASON_MANUAL = ''manual''"
definition REASON_EVENT :: string where "REASON_EVENT = ''event''"
definition CLASS_DEFAULT :: string where "CLASS_DEFAULT = ''default''"
definition CLASS_PROTECTED :: string where "CLASS_PROTECTED = ''protected''"
definition CLASS_EVENT :: string where "CLASS_EVENT = ''event''"
definition PROTECTED_CLASSES :: "string list" where
  "PROTECTED_CLASSES = [CLASS_PROTECTED, CLASS_EVENT]"

record recording =
  rec_id :: db_id
  rec_camera :: db_id
  rec_reason :: string
  rec_class :: string
  rec_start :: ts
  rec_end :: "ts option"
  rec_planned_end :: "ts option"
  rec_created_by :: "db_id option"
  rec_note :: "string option"
  rec_deleted :: "ts option"

definition ROLE_CACHE :: string where "ROLE_CACHE = ''cache''"
definition ROLE_RECORD :: string where "ROLE_RECORD = ''record''"
definition DISK_ONLINE :: string where "DISK_ONLINE = ''online''"
definition DISK_OFFLINE :: string where "DISK_OFFLINE = ''offline''"

record disk =
  disk_id :: db_id
  disk_name :: string
  disk_mount_path :: string
  disk_role :: string
  disk_enabled :: bool
  disk_reserved :: int
  disk_total :: int
  disk_free :: int
  disk_weight :: int
  disk_status :: string
  disk_last_seen :: "ts option"
  disk_deleted :: "ts option"

definition RECORD_OFF :: string where "RECORD_OFF = ''off''"
definition RECORD_CONTINUOUS :: string where "RECORD_CONTINUOUS = ''continuous''"
definition STRATEGY_LEAST_USED :: string where "STRATEGY_LEAST_USED = ''least_used''"
definition STRATEGY_PER_CAMERA :: string where "STRATEGY_PER_CAMERA = ''per_camera''"
definition STRATEGY_ROUND_ROBIN :: string where "STRATEGY_ROUND_ROBIN = ''round_robin''"
definition OVER_DELETE_OLDEST :: string where "OVER_DELETE_OLDEST = ''delete_oldest''"
definition OVER_STOP :: string where "OVER_STOP = ''stop_recording''"
definition OVER_WARN :: string where "OVER_WARN = ''warn_only''"

record storage_policy =
  pol_id :: db_id
  pol_camera :: "db_id option"
  pol_segment_seconds :: int
  pol_container :: string
  pol_record_mode :: string
  pol_balance_strategy :: string
  pol_pinned_disk :: "db_id option"
  pol_retention_days :: "int option"
  pol_retention_max_bytes :: "int option"
  pol_over_capacity :: string
  pol_cache_buffer_seconds :: int
  pol_event_retention_days :: "int option"
  pol_deleted :: "ts option"

record camera =
  cam_id :: db_id
  cam_uuid :: string
  cam_name :: string
  cam_enabled :: bool
  cam_deleted :: "ts option"

lemmas storage_consts =
  TIER_CACHE_def TIER_RECORD_def SEG_REASON_CONTINUOUS_def SEG_REASON_MANUAL_def
  REASON_MANUAL_def REASON_EVENT_def CLASS_DEFAULT_def CLASS_PROTECTED_def CLASS_EVENT_def
  PROTECTED_CLASSES_def ROLE_CACHE_def ROLE_RECORD_def DISK_ONLINE_def DISK_OFFLINE_def
  RECORD_OFF_def RECORD_CONTINUOUS_def STRATEGY_LEAST_USED_def STRATEGY_PER_CAMERA_def
  STRATEGY_ROUND_ROBIN_def OVER_DELETE_OLDEST_def OVER_STOP_def OVER_WARN_def

text \<open>
  The database and the disks. \<open>n_next_key\<close> is the key the next created row gets; the keys a
  process draws increase strictly (theory \<open>Snowflake\<close>). \<open>n_signals\<close> are the messages handed to
  \<open>publish_reconcile\<close>, in order; \<open>n_audit\<close> is the audit log.
\<close>

record audit_row =
  au_action :: string
  au_target :: "string option"
  au_user :: "db_id option"
  au_detail :: pyval

record nvr =
  n_segments :: "segment list"
  n_recordings :: "recording list"
  n_disks :: "disk list"
  n_policies :: "storage_policy list"
  n_cameras :: "camera list"
  n_files :: "string list"
  n_locked :: "string list"
  n_next_key :: db_id
  n_signals :: "(db_id option \<times> string) list"
  n_audit :: "audit_row list"

definition publish_reconcile :: "'z nvr_scheme \<Rightarrow> db_id option \<Rightarrow> string \<Rightarrow> 'z nvr_scheme" where
  "publish_reconcile db cam action = db\<lparr>n_signals := n_signals db @ [(cam, action)]\<rparr>"

definition AuditLog_add ::
  "'z nvr_scheme \<Rightarrow> string \<Rightarrow> string option \<Rightarrow> db_id option \<Rightarrow> pyval \<Rightarrow> 'z nvr_scheme" where
  "AuditLog_add db action target user detail =
     db\<lparr>n_audit := n_audit db @ [\<lparr>au_action = action, au_target = target, au_user = user, au_detail = detail\<rparr>]\<rparr>"

section \<open>Segments\<close>

definition Segment_get_by_id :: "'z nvr_scheme \<Rightarrow> db_id \<Rightarrow> segment option" where
  "Segment_get_by_id db i = first_row (filter (\<lambda>g. seg_id g = i) (n_segments db))"

definition Segment_exists_rel_path :: "'z nvr_scheme \<Rightarrow> db_id \<Rightarrow> string \<Rightarrow> bool" where
  "Segment_exists_rel_path db cam path \<longleftrightarrow>
     list_ex (\<lambda>g. seg_camera g = cam \<and> seg_rel_path g = path) (n_segments db)"

definition Segment_get_range ::
  "'z nvr_scheme \<Rightarrow> db_id \<Rightarrow> ts \<Rightarrow> ts \<Rightarrow> string option \<Rightarrow> segment list" where
  "Segment_get_range db cam start stop role =
     sort_key seg_start
       (filter (\<lambda>g. seg_camera g = cam \<and> \<not> seg_corrupt g \<and> seg_start g < stop \<and> seg_end g > start
                  \<and> (case role of None \<Rightarrow> True | Some r \<Rightarrow> seg_role g = r))
         (n_segments db))"

definition Segment_get_at :: "'z nvr_scheme \<Rightarrow> db_id \<Rightarrow> ts \<Rightarrow> segment option" where
  "Segment_get_at db cam t =
     first_row (sort_key (\<lambda>g. - seg_start g)
       (filter (\<lambda>g. seg_camera g = cam \<and> seg_start g \<le> t \<and> seg_end g > t) (n_segments db)))"

definition Segment_oldest_for_camera :: "'z nvr_scheme \<Rightarrow> db_id \<Rightarrow> nat \<Rightarrow> segment list" where
  "Segment_oldest_for_camera db cam limit =
     take limit (sort_key seg_start (filter (\<lambda>g. seg_camera g = cam) (n_segments db)))"

definition Segment_older_than :: "'z nvr_scheme \<Rightarrow> db_id \<Rightarrow> ts \<Rightarrow> nat \<Rightarrow> segment list" where
  "Segment_older_than db cam cutoff limit =
     take limit (sort_key seg_start
       (filter (\<lambda>g. seg_camera g = cam \<and> seg_end g < cutoff) (n_segments db)))"

definition Segment_oldest_on_disk :: "'z nvr_scheme \<Rightarrow> db_id \<Rightarrow> nat \<Rightarrow> segment list" where
  "Segment_oldest_on_disk db d limit =
     take limit (sort_key seg_start (filter (\<lambda>g. seg_disk g = d) (n_segments db)))"

definition Segment_total_size_for_camera :: "'z nvr_scheme \<Rightarrow> db_id \<Rightarrow> int" where
  "Segment_total_size_for_camera db cam =
     sum_list (map seg_size (filter (\<lambda>g. seg_camera g = cam) (n_segments db)))"

definition Segment_cache_tier_older_than :: "'z nvr_scheme \<Rightarrow> ts \<Rightarrow> nat \<Rightarrow> segment list" where
  "Segment_cache_tier_older_than db cutoff limit =
     take limit (sort_key seg_start
       (filter (\<lambda>g. seg_tier g = TIER_CACHE \<and> seg_end g < cutoff) (n_segments db)))"

text \<open>\<open>Segment.create\<close>: the row gets the next key.\<close>

definition Segment_create :: "'z nvr_scheme \<Rightarrow> segment \<Rightarrow> 'z nvr_scheme" where
  "Segment_create db g =
     db\<lparr>n_segments := n_segments db @ [g\<lparr>seg_id := n_next_key db\<rparr>], n_next_key := n_next_key db + 1\<rparr>"

text \<open>An assignment to an attribute of a loaded row, flushed by the commit.\<close>

definition update_segment :: "'z nvr_scheme \<Rightarrow> db_id \<Rightarrow> (segment \<Rightarrow> segment) \<Rightarrow> 'z nvr_scheme" where
  "update_segment db i f =
     db\<lparr>n_segments := map (\<lambda>g. if seg_id g = i then f g else g) (n_segments db)\<rparr>"

definition Segment_mark_reason :: "'z nvr_scheme \<Rightarrow> db_id \<Rightarrow> string \<Rightarrow> 'z nvr_scheme" where
  "Segment_mark_reason db i reason = update_segment db i (\<lambda>g. g\<lparr>seg_reason := reason\<rparr>)"

definition Segment_delete_row :: "'z nvr_scheme \<Rightarrow> db_id \<Rightarrow> 'z nvr_scheme" where
  "Segment_delete_row db i = db\<lparr>n_segments := filter (\<lambda>g. seg_id g \<noteq> i) (n_segments db)\<rparr>"

section \<open>Recordings\<close>

definition Recording_get_by_id :: "'z nvr_scheme \<Rightarrow> db_id \<Rightarrow> recording option" where
  "Recording_get_by_id db i =
     first_row (filter (\<lambda>r. rec_id r = i \<and> rec_deleted r = None) (n_recordings db))"

definition Recording_get_active_manual :: "'z nvr_scheme \<Rightarrow> db_id \<Rightarrow> recording option" where
  "Recording_get_active_manual db cam =
     first_row (filter (\<lambda>r. rec_camera r = cam \<and> rec_reason r = REASON_MANUAL
                          \<and> rec_end r = None \<and> rec_deleted r = None) (n_recordings db))"

definition Recording_get_protected_intervals ::
  "'z nvr_scheme \<Rightarrow> ts \<Rightarrow> db_id \<Rightarrow> (ts \<times> ts) list" where
  "Recording_get_protected_intervals db now cam =
     map (\<lambda>r. (rec_start r, case rec_end r of None \<Rightarrow> now | Some e \<Rightarrow> e))
       (filter (\<lambda>r. rec_camera r = cam \<and> rec_class r \<in> set PROTECTED_CLASSES \<and> rec_deleted r = None)
         (n_recordings db))"

definition Recording_has_active_recording :: "'z nvr_scheme \<Rightarrow> db_id \<Rightarrow> bool" where
  "Recording_has_active_recording db cam \<longleftrightarrow>
     list_ex (\<lambda>r. rec_camera r = cam \<and> rec_end r = None \<and> rec_deleted r = None
                \<and> (rec_reason r = REASON_MANUAL \<or> rec_reason r = REASON_EVENT)) (n_recordings db)"

definition Recording_due_manual :: "'z nvr_scheme \<Rightarrow> ts \<Rightarrow> nat \<Rightarrow> recording list" where
  "Recording_due_manual db now limit =
     take limit (filter (\<lambda>r. rec_reason r = REASON_MANUAL \<and> rec_end r = None \<and> rec_deleted r = None
                           \<and> (case rec_planned_end r of None \<Rightarrow> False | Some p \<Rightarrow> p \<le> now))
                  (n_recordings db))"

definition Recording_find_overlapping ::
  "'z nvr_scheme \<Rightarrow> db_id \<Rightarrow> ts \<Rightarrow> ts \<Rightarrow> string \<Rightarrow> recording option" where
  "Recording_find_overlapping db cam start stop reason =
     first_row (sort_key rec_start
       (filter (\<lambda>r. rec_camera r = cam \<and> rec_reason r = reason \<and> rec_deleted r = None
                  \<and> rec_start r < stop \<and> (case rec_end r of None \<Rightarrow> True | Some e \<Rightarrow> e > start))
         (n_recordings db)))"

definition update_recording ::
  "'z nvr_scheme \<Rightarrow> db_id \<Rightarrow> (recording \<Rightarrow> recording) \<Rightarrow> 'z nvr_scheme" where
  "update_recording db i f =
     db\<lparr>n_recordings := map (\<lambda>r. if rec_id r = i then f r else r) (n_recordings db)\<rparr>"

definition Recording_set_protected :: "'z nvr_scheme \<Rightarrow> db_id \<Rightarrow> bool \<Rightarrow> 'z nvr_scheme" where
  "Recording_set_protected db i prot =
     update_recording db i (\<lambda>r. r\<lparr>rec_class := (if prot then CLASS_PROTECTED else CLASS_DEFAULT)\<rparr>)"

text \<open>\<open>Recording.extend\<close>: grow the interval, never shrink it.\<close>

definition extend_row :: "ts \<Rightarrow> ts \<Rightarrow> recording \<Rightarrow> recording" where
  "extend_row start stop r =
     (let r1 = (if start < rec_start r then r\<lparr>rec_start := start\<rparr> else r)
      in case rec_end r of
           None \<Rightarrow> r1\<lparr>rec_end := Some stop\<rparr>
         | Some e \<Rightarrow> if stop > e then r1\<lparr>rec_end := Some stop\<rparr> else r1)"

definition Recording_extend :: "'z nvr_scheme \<Rightarrow> db_id \<Rightarrow> ts \<Rightarrow> ts \<Rightarrow> 'z nvr_scheme" where
  "Recording_extend db i start stop = update_recording db i (extend_row start stop)"

definition Recording_create ::
  "'z nvr_scheme \<Rightarrow> db_id \<Rightarrow> string \<Rightarrow> string \<Rightarrow> ts \<Rightarrow> ts option \<Rightarrow> db_id option \<Rightarrow> string option
     \<Rightarrow> ts option \<Rightarrow> recording \<times> 'z nvr_scheme" where
  "Recording_create db cam reason cls start stop created_by note planned_end =
     (let r = \<lparr>rec_id = n_next_key db, rec_camera = cam, rec_reason = reason, rec_class = cls,
               rec_start = start, rec_end = stop, rec_planned_end = planned_end,
               rec_created_by = created_by, rec_note = note, rec_deleted = None\<rparr>
      in (r, db\<lparr>n_recordings := n_recordings db @ [r], n_next_key := n_next_key db + 1\<rparr>))"

definition Recording_close :: "'z nvr_scheme \<Rightarrow> db_id \<Rightarrow> ts \<Rightarrow> 'z nvr_scheme" where
  "Recording_close db i stop = update_recording db i (\<lambda>r. r\<lparr>rec_end := Some stop\<rparr>)"

section \<open>Disks\<close>

definition Disk_get_by_id :: "'z nvr_scheme \<Rightarrow> db_id \<Rightarrow> disk option" where
  "Disk_get_by_id db i = first_row (filter (\<lambda>d. disk_id d = i \<and> disk_deleted d = None) (n_disks db))"

definition Disk_get_all :: "'z nvr_scheme \<Rightarrow> disk list" where
  "Disk_get_all db =
     sort_key (\<lambda>d. (disk_role d, disk_name d)) (filter (\<lambda>d. disk_deleted d = None) (n_disks db))"

definition Disk_get_writable :: "'z nvr_scheme \<Rightarrow> string list \<Rightarrow> disk list" where
  "Disk_get_writable db roles =
     filter (\<lambda>d. disk_deleted d = None \<and> disk_enabled d \<and> disk_status d = DISK_ONLINE
               \<and> disk_role d \<in> set roles) (n_disks db)"

definition usable_free_bytes :: "disk \<Rightarrow> int" where
  "usable_free_bytes d = max 0 (disk_free d - disk_reserved d)"

definition update_disk :: "'z nvr_scheme \<Rightarrow> db_id \<Rightarrow> (disk \<Rightarrow> disk) \<Rightarrow> 'z nvr_scheme" where
  "update_disk db i f = db\<lparr>n_disks := map (\<lambda>d. if disk_id d = i then f d else d) (n_disks db)\<rparr>"

text \<open>
  What \<open>shutil.disk_usage\<close> answers for a mount path while the given files exist: total and free
  bytes, or \<open>None\<close> for the OSError branch. It is an argument of the definitions that call it.
\<close>

type_synonym usage = "string list \<Rightarrow> string \<Rightarrow> (int \<times> int) option"

definition Disk_refresh_usage :: "usage \<Rightarrow> ts \<Rightarrow> 'z nvr_scheme \<Rightarrow> db_id \<Rightarrow> 'z nvr_scheme" where
  "Disk_refresh_usage du now db i =
     update_disk db i (\<lambda>d. case du (n_files db) (disk_mount_path d) of
         Some (tot, fr) \<Rightarrow> d\<lparr>disk_total := tot, disk_free := fr,
                                 disk_status := DISK_ONLINE, disk_last_seen := Some now\<rparr>
       | None \<Rightarrow> d\<lparr>disk_status := DISK_OFFLINE\<rparr>)"

section \<open>Storage policies\<close>

definition StoragePolicy_get_global :: "'z nvr_scheme \<Rightarrow> storage_policy option" where
  "StoragePolicy_get_global db =
     first_row (filter (\<lambda>p. pol_camera p = None \<and> pol_deleted p = None) (n_policies db))"

definition StoragePolicy_get_raw_for_camera :: "'z nvr_scheme \<Rightarrow> db_id \<Rightarrow> storage_policy option" where
  "StoragePolicy_get_raw_for_camera db cam =
     first_row (filter (\<lambda>p. pol_camera p = Some cam \<and> pol_deleted p = None) (n_policies db))"

definition StoragePolicy_get_for_camera :: "'z nvr_scheme \<Rightarrow> db_id \<Rightarrow> storage_policy option" where
  "StoragePolicy_get_for_camera db cam =
     (case StoragePolicy_get_raw_for_camera db cam of
        Some p \<Rightarrow> Some p | None \<Rightarrow> StoragePolicy_get_global db)"

definition StoragePolicy_get_recording_camera_ids :: "'z nvr_scheme \<Rightarrow> db_id list" where
  "StoragePolicy_get_recording_camera_ids db =
     List.map_filter (\<lambda>p. if pol_record_mode p = RECORD_CONTINUOUS \<and> pol_deleted p = None
                          then pol_camera p else None) (n_policies db)"

definition update_policy ::
  "'z nvr_scheme \<Rightarrow> db_id \<Rightarrow> (storage_policy \<Rightarrow> storage_policy) \<Rightarrow> 'z nvr_scheme" where
  "update_policy db i f =
     db\<lparr>n_policies := map (\<lambda>p. if pol_id p = i then f p else p) (n_policies db)\<rparr>"

text \<open>The columns \<open>upsert_for_camera\<close> may be asked to set (entries that are not \<open>None\<close>).\<close>

datatype policy_field =
    FSegmentSeconds int
  | FContainer string
  | FRecordMode string
  | FBalanceStrategy string
  | FPinnedDiskId db_id
  | FRetentionDays int
  | FRetentionMaxBytes int
  | FOverCapacityPolicy string
  | FCacheBufferSeconds int
  | FEventRetentionDays int
  | FUnknownAttribute string

fun set_policy_field :: "policy_field \<Rightarrow> storage_policy \<Rightarrow> storage_policy" where
  "set_policy_field (FSegmentSeconds v) p = p\<lparr>pol_segment_seconds := v\<rparr>"
| "set_policy_field (FContainer v) p = p\<lparr>pol_container := v\<rparr>"
| "set_policy_field (FRecordMode v) p = p\<lparr>pol_record_mode := v\<rparr>"
| "set_policy_field (FBalanceStrategy v) p = p\<lparr>pol_balance_strategy := v\<rparr>"
| "set_policy_field (FPinnedDiskId v) p = p\<lparr>pol_pinned_disk := Some v\<rparr>"
| "set_policy_field (FRetentionDays v) p = p\<lparr>pol_retention_days := Some v\<rparr>"
| "set_policy_field (FRetentionMaxBytes v) p = p\<lparr>pol_retention_max_bytes := Some v\<rparr>"
| "set_policy_field (FOverCapacityPolicy v) p = p\<lparr>pol_over_capacity := v\<rparr>"
| "set_policy_field (FCacheBufferSeconds v) p = p\<lparr>pol_cache_buffer_seconds := v\<rparr>"
| "set_policy_field (FEventRetentionDays v) p = p\<lparr>pol_event_retention_days := Some v\<rparr>"
| "set_policy_field (FUnknownAttribute _) p = p"

text \<open>A row of \<open>StoragePolicy()\<close> with the column defaults.\<close>

definition default_policy :: "db_id \<Rightarrow> db_id option \<Rightarrow> storage_policy" where
  "default_policy i cam =
     \<lparr>pol_id = i, pol_camera = cam, pol_segment_seconds = 10, pol_container = ''mpegts'',
      pol_record_mode = RECORD_OFF, pol_balance_strategy = STRATEGY_LEAST_USED,
      pol_pinned_disk = None, pol_retention_days = None, pol_retention_max_bytes = None,
      pol_over_capacity = OVER_DELETE_OLDEST, pol_cache_buffer_seconds = 60,
      pol_event_retention_days = None, pol_deleted = None\<rparr>"

definition StoragePolicy_upsert_for_camera ::
  "'z nvr_scheme \<Rightarrow> db_id option \<Rightarrow> policy_field list \<Rightarrow> 'z nvr_scheme" where
  "StoragePolicy_upsert_for_camera db cam upd =
     (let existing = first_row (filter (\<lambda>p. (if truthy cam then pol_camera p = cam
                                               else pol_camera p = None)
                                           \<and> pol_deleted p = None) (n_policies db))
      in case existing of
           Some p \<Rightarrow> update_policy db (pol_id p) (fold set_policy_field upd)
         | None \<Rightarrow>
             db\<lparr>n_policies := n_policies db @
                  [fold set_policy_field upd (default_policy (n_next_key db) cam)],
                n_next_key := n_next_key db + 1\<rparr>)"

section \<open>Cameras\<close>

definition Camera_get_by_id :: "'z nvr_scheme \<Rightarrow> db_id \<Rightarrow> py_error + camera" where
  "Camera_get_by_id db i =
     (case first_row (filter (\<lambda>c. cam_id c = i \<and> cam_deleted c = None) (n_cameras db)) of
        None \<Rightarrow> Inl RowNotFoundException
      | Some c \<Rightarrow> Inr c)"

definition Camera_get_by_uuid :: "'z nvr_scheme \<Rightarrow> string \<Rightarrow> py_error + camera" where
  "Camera_get_by_uuid db u =
     (case first_row (filter (\<lambda>c. cam_uuid c = u \<and> cam_deleted c = None) (n_cameras db)) of
        None \<Rightarrow> Inl RowNotFoundException
      | Some c \<Rightarrow> Inr c)"

definition Camera_get_all_enabled :: "'z nvr_scheme \<Rightarrow> camera list" where
  "Camera_get_all_enabled db =
     filter (\<lambda>c. cam_deleted c = None \<and> cam_enabled c) (n_cameras db)"

section \<open>Write-disk selection\<close>

text \<open>\<open>os.path.join\<close> of two components.\<close>

definition path_join :: "string \<Rightarrow> string \<Rightarrow> string" where
  "path_join a b =
     (if b \<noteq> [] \<and> hd b = CHR ''/'' then b
      else if a = [] \<or> last a = CHR ''/'' then a @ b
      else a @ CHR ''/'' # b)"

definition abs_path :: "disk \<Rightarrow> string \<Rightarrow> string" where
  "abs_path d rel = path_join (disk_mount_path d) rel"

text \<open>\<open>md5_int s\<close> is the MD5 digest of \<open>s\<close> read as a number.\<close>

definition hash_index :: "(string \<Rightarrow> int) \<Rightarrow> db_id \<Rightarrow> int \<Rightarrow> nat" where
  "hash_index md5_int cam n = nat (md5_int (str_of_int cam) mod n)"

definition write_pool :: "'z nvr_scheme \<Rightarrow> int \<Rightarrow> disk list" where
  "write_pool db headroom =
     (let cache_pool = filter (\<lambda>d. usable_free_bytes d > headroom) (Disk_get_writable db [ROLE_CACHE]);
          pool = (if cache_pool \<noteq> [] then cache_pool
                  else filter (\<lambda>d. usable_free_bytes d > headroom) (Disk_get_writable db [ROLE_RECORD]))
      in sort_key disk_id pool)"

text \<open>
  \<open>pick_write_disk\<close>. \<open>rr\<close> is what the Redis counter answers, \<open>None\<close> when the call fails. The
  policy is the row the caller loaded; pinning writes to that row.
\<close>

definition pick_write_disk ::
  "(string \<Rightarrow> int) \<Rightarrow> int \<Rightarrow> int option \<Rightarrow> 'z nvr_scheme \<Rightarrow> db_id \<Rightarrow> storage_policy option
     \<Rightarrow> disk option \<times> 'z nvr_scheme" where
  "pick_write_disk md5_int headroom rr db cam policy =
     (let pool = write_pool db headroom in
      if pool = [] then (None, db)
      else
       let strategy = (case policy of None \<Rightarrow> STRATEGY_LEAST_USED | Some p \<Rightarrow> pol_balance_strategy p)
       in if strategy = STRATEGY_PER_CAMERA
          then (let pinned = (case policy of None \<Rightarrow> None
                              | Some p \<Rightarrow> if truthy (pol_pinned_disk p)
                                          then find (\<lambda>d. Some (disk_id d) = pol_pinned_disk p) pool
                                          else None)
                in case pinned of Some d \<Rightarrow> (Some d, db)
                   | None \<Rightarrow>
                      let chosen = pool ! hash_index md5_int cam (int (length pool))
                      in (Some chosen,
                          case policy of None \<Rightarrow> db
                          | Some p \<Rightarrow> if truthy (pol_pinned_disk p) then db
                                      else update_policy db (pol_id p)
                                             (\<lambda>q. q\<lparr>pol_pinned_disk := Some (disk_id chosen)\<rparr>)))
          else if strategy = STRATEGY_ROUND_ROBIN
          then (let n = (case rr of None \<Rightarrow> 0 | Some k \<Rightarrow> k)
                in (Some (pool ! nat (n mod int (length pool))), db))
          else (max_by (\<lambda>d. usable_free_bytes d * (if disk_weight d = 0 then 100 else disk_weight d)) pool,
                db))"

definition disks_needing_rotation :: "'z nvr_scheme \<Rightarrow> int \<Rightarrow> disk list" where
  "disks_needing_rotation db soft_margin =
     filter (\<lambda>d. disk_free d \<le> disk_reserved d + soft_margin)
       (Disk_get_writable db [ROLE_CACHE, ROLE_RECORD])"

text \<open>The disk warnings of \<open>pool_summary\<close>, in the order of \<open>Disk.get_all\<close>.\<close>

datatype pool_warning = DiskOffline string | DiskFull string | PoolOvercommit

record role_total =
  rt_count :: int
  rt_total :: int
  rt_free :: int
  rt_reserved :: int

definition add_role :: "disk \<Rightarrow> (string \<rightharpoonup> role_total) \<Rightarrow> (string \<rightharpoonup> role_total)" where
  "add_role d m =
     (let r = (case m (disk_role d) of
                 None \<Rightarrow> \<lparr>rt_count = 0, rt_total = 0, rt_free = 0, rt_reserved = 0\<rparr> | Some r \<Rightarrow> r)
      in m(disk_role d \<mapsto> \<lparr>rt_count = rt_count r + 1, rt_total = rt_total r + disk_total d,
                             rt_free = rt_free r + disk_free d,
                             rt_reserved = rt_reserved r + disk_reserved d\<rparr>))"

definition disk_warning :: "disk \<Rightarrow> pool_warning list" where
  "disk_warning d =
     (if disk_status d \<noteq> DISK_ONLINE then [DiskOffline (disk_name d)]
      else if disk_free d \<le> disk_reserved d then [DiskFull (disk_name d)]
      else [])"

definition role_total_bytes :: "(string \<rightharpoonup> role_total) \<Rightarrow> string \<Rightarrow> int" where
  "role_total_bytes m role = (case m role of None \<Rightarrow> 0 | Some r \<Rightarrow> rt_total r)"

definition pool_summary ::
  "'z nvr_scheme \<Rightarrow> (string \<rightharpoonup> role_total) \<times> int \<times> pool_warning list" where
  "pool_summary db =
     (let disks = Disk_get_all db; by_role = fold add_role disks Map.empty
      in (by_role,
          role_total_bytes by_role ROLE_RECORD + role_total_bytes by_role ROLE_CACHE,
          concat (map disk_warning disks)))"

section \<open>Lemmas on the queries\<close>

lemma set_sort_key_filter [simp]: "set (sort_key f (filter P xs)) = {x \<in> set xs. P x}"
  by simp

lemma Segment_delete_row_segments [simp]:
  "n_segments (Segment_delete_row db i) = filter (\<lambda>g. seg_id g \<noteq> i) (n_segments db)"
  by (simp add: Segment_delete_row_def)

lemma write_pool_set:
  "set (write_pool db h) =
     {d \<in> set (n_disks db). disk_deleted d = None \<and> disk_enabled d \<and> disk_status d = DISK_ONLINE
        \<and> h < usable_free_bytes d
        \<and> (disk_role d = ROLE_CACHE
           \<or> disk_role d = ROLE_RECORD
             \<and> \<not> (\<exists>c \<in> set (n_disks db). disk_deleted c = None \<and> disk_enabled c
                    \<and> disk_status c = DISK_ONLINE \<and> disk_role c = ROLE_CACHE
                    \<and> h < usable_free_bytes c))}"
  by (auto simp: write_pool_def Disk_get_writable_def Let_def filter_empty_conv)

lemma hash_index_less: "0 < n \<Longrightarrow> hash_index md5_int cam n < nat n"
  by (simp add: hash_index_def)

lemma find_SomeD: "find P xs = Some x \<Longrightarrow> x \<in> set xs \<and> P x"
  by (auto simp: find_Some_iff)

lemma pick_write_disk_in_pool:
  assumes "fst (pick_write_disk md5_int h rr db cam policy) = Some d"
  shows "d \<in> set (write_pool db h)"
proof -
  let ?pool = "write_pool db h"
  have hash: "?pool \<noteq> [] \<Longrightarrow> ?pool ! hash_index md5_int cam (int (length ?pool)) \<in> set ?pool"
    using hash_index_less [of "int (length ?pool)" md5_int cam] by simp
  have rr: "?pool \<noteq> [] \<Longrightarrow> ?pool ! nat (k mod int (length ?pool)) \<in> set ?pool" for k
    using nat_less_iff [of "k mod int (length ?pool)" "length ?pool"] by simp
  show ?thesis
    using assms hash rr
    by (auto simp: pick_write_disk_def Let_def split: if_splits option.splits
        dest: find_SomeD max_by_SomeD(1))
qed

lemma pick_write_disk_None:
  "fst (pick_write_disk md5_int h rr db cam policy) = None \<longleftrightarrow> write_pool db h = []"
  by (auto simp: pick_write_disk_def Let_def split: option.splits)

section \<open>Properties\<close>

text \<open>C10: \<open>pick_write_disk\<close> returns a disk exactly when a registered, enabled, online cache or
  record disk has more usable space than the headroom; the disk it returns is one of those, and
  it is a record disk only when no cache disk qualifies, whatever the balancing strategy, the
  pinned disk, the hash or the round-robin counter.\<close>

theorem pick_write_disk_sound:
  "(fst (pick_write_disk md5_int h rr db cam policy) = None \<longleftrightarrow>
      \<not> (\<exists>d \<in> set (n_disks db). disk_deleted d = None \<and> disk_enabled d \<and> disk_status d = DISK_ONLINE
           \<and> disk_role d \<in> {ROLE_CACHE, ROLE_RECORD} \<and> h < usable_free_bytes d)) \<and>
   (\<forall>d. fst (pick_write_disk md5_int h rr db cam policy) = Some d \<longrightarrow>
      d \<in> set (n_disks db) \<and> disk_deleted d = None \<and> disk_enabled d \<and> disk_status d = DISK_ONLINE
      \<and> h < usable_free_bytes d
      \<and> (disk_role d = ROLE_CACHE
         \<or> disk_role d = ROLE_RECORD
           \<and> \<not> (\<exists>c \<in> set (n_disks db). disk_deleted c = None \<and> disk_enabled c
                  \<and> disk_status c = DISK_ONLINE \<and> disk_role c = ROLE_CACHE
                  \<and> h < usable_free_bytes c)))"
proof (intro conjI allI impI)
  show "fst (pick_write_disk md5_int h rr db cam policy) = None \<longleftrightarrow>
      \<not> (\<exists>d \<in> set (n_disks db). disk_deleted d = None \<and> disk_enabled d \<and> disk_status d = DISK_ONLINE
           \<and> disk_role d \<in> {ROLE_CACHE, ROLE_RECORD} \<and> h < usable_free_bytes d)"
    unfolding pick_write_disk_None set_empty [symmetric] write_pool_set by blast
next
  fix d assume "fst (pick_write_disk md5_int h rr db cam policy) = Some d"
  then have "d \<in> set (write_pool db h)" by (rule pick_write_disk_in_pool)
  then show "d \<in> set (n_disks db)" "disk_deleted d = None" "disk_enabled d"
    "disk_status d = DISK_ONLINE" "h < usable_free_bytes d"
    "disk_role d = ROLE_CACHE \<or> disk_role d = ROLE_RECORD
      \<and> \<not> (\<exists>c \<in> set (n_disks db). disk_deleted c = None \<and> disk_enabled c
             \<and> disk_status c = DISK_ONLINE \<and> disk_role c = ROLE_CACHE \<and> h < usable_free_bytes c)"
    unfolding write_pool_set by auto
qed

definition sample_disk :: "db_id \<Rightarrow> string \<Rightarrow> int \<Rightarrow> disk" where
  "sample_disk i role fr =
     \<lparr>disk_id = i, disk_name = ''d'', disk_mount_path = ''/mnt'', disk_role = role,
      disk_enabled = True, disk_reserved = 10, disk_total = 1000, disk_free = fr,
      disk_weight = 100, disk_status = DISK_ONLINE, disk_last_seen = None, disk_deleted = None\<rparr>"

definition sample_db :: nvr where
  "sample_db =
     \<lparr>n_segments = [], n_recordings = [],
      n_disks = [sample_disk 5 ROLE_RECORD 900, sample_disk 6 ROLE_CACHE 200,
                 sample_disk 7 ROLE_CACHE 300],
      n_policies = [], n_cameras = [], n_files = [], n_locked = [], n_next_key = 100,
      n_signals = [], n_audit = []\<rparr>"

lemmas sample_defs = sample_db_def sample_disk_def

theorem pick_write_disk_sound_witness:
  "fst (pick_write_disk (\<lambda>_. 1) 50 None sample_db 3 None) = Some (sample_disk 7 ROLE_CACHE 300) \<and>
   50 < usable_free_bytes (sample_disk 7 ROLE_CACHE 300)"
proof -
  have "fst (pick_write_disk (\<lambda>_. 1) 50 None sample_db 3 None) = Some (sample_disk 7 ROLE_CACHE 300)"
    by (simp add: pick_write_disk_def write_pool_def Disk_get_writable_def usable_free_bytes_def
        sample_defs storage_consts Let_def)
  with pick_write_disk_sound [of "\<lambda>_. 1" 50 None sample_db 3 None] show ?thesis by blast
qed

text \<open>
  The shared policy: a camera without a policy row of its own is handed the global row, and
  \<open>pick_write_disk\<close> pins the disk in the row it was handed.
\<close>

lemma find_pinned:
  assumes "distinct (map disk_id xs)" and "d \<in> set xs"
  shows "find (\<lambda>e. Some (disk_id e) = Some (disk_id d)) xs = Some d"
  using assms by (induction xs) auto

lemma write_pool_update_policy [simp]: "write_pool (update_policy db i f) h = write_pool db h"
  by (simp add: write_pool_def Disk_get_writable_def update_policy_def Let_def)

lemma write_pool_distinct:
  assumes "distinct (map disk_id (n_disks db))"
  shows "distinct (map disk_id (write_pool db h))"
proof -
  have "distinct (map disk_id (filter P (filter Q (n_disks db))))" for P Q
    by (intro distinct_map_filter assms)
  then show ?thesis
    by (simp add: write_pool_def Disk_get_writable_def Let_def distinct_map inj_on_def)
qed

lemma get_global_update_policy:
  assumes "StoragePolicy_get_global db = Some p"
    and "\<And>q. pol_camera (f q) = pol_camera q" "\<And>q. pol_deleted (f q) = pol_deleted q"
  shows "StoragePolicy_get_global (update_policy db (pol_id p) f) = Some (f p)"
  using assms first_row_filter_upd [where xs = "n_policies db" and key = pol_id and f = f]
  by (simp add: StoragePolicy_get_global_def update_policy_def)

text \<open>Under a global \<open>per_camera\<close> policy with no pinned disk yet, the disk picked for the
  first camera that inherits the policy is pinned in the shared row, so every other camera that
  inherits it is sent to that same disk, whatever its own hash.\<close>

theorem per_camera_pin_is_shared:
  assumes glob: "StoragePolicy_get_global db = Some p"
    and strat: "pol_balance_strategy p = STRATEGY_PER_CAMERA" "pol_pinned_disk p = None"
    and keys: "distinct (map disk_id (n_disks db))"
    and pos: "\<forall>d \<in> set (n_disks db). disk_id d \<noteq> 0"
    and own: "StoragePolicy_get_raw_for_camera db a = None" "StoragePolicy_get_raw_for_camera db b = None"
    and pick: "pick_write_disk md5_int h rr db a (StoragePolicy_get_for_camera db a) = (Some d, db')"
  shows "fst (pick_write_disk md5_int h rr' db' b (StoragePolicy_get_for_camera db' b)) = Some d"
proof -
  have mem: "d \<in> set (write_pool db h)"
    using pick_write_disk_in_pool pick by (metis fst_conv)
  have db': "db' = update_policy db (pol_id p) (\<lambda>q. q\<lparr>pol_pinned_disk := Some (disk_id d)\<rparr>)"
    using pick glob own strat
    by (auto simp: pick_write_disk_def StoragePolicy_get_for_camera_def Let_def split: if_splits)
  have raw: "StoragePolicy_get_raw_for_camera db' b = None"
    using own(2) by (auto simp: db' StoragePolicy_get_raw_for_camera_def update_policy_def
        filter_empty_conv split: if_splits)
  have glob': "StoragePolicy_get_global db' = Some (p\<lparr>pol_pinned_disk := Some (disk_id d)\<rparr>)"
    unfolding db' by (rule get_global_update_policy [OF glob]) simp_all
  have nz: "disk_id d \<noteq> 0" using mem pos unfolding write_pool_set by blast
  have "find (\<lambda>e. Some (disk_id e) = Some (disk_id d)) (write_pool db h) = Some d"
    by (rule find_pinned [OF write_pool_distinct [OF keys] mem])
  with mem nz raw glob' strat show ?thesis
    by (auto simp: pick_write_disk_def StoragePolicy_get_for_camera_def Let_def db')
qed

definition sample_policy :: storage_policy where
  "sample_policy = (default_policy 9 None)\<lparr>pol_balance_strategy := STRATEGY_PER_CAMERA\<rparr>"

theorem per_camera_pin_is_shared_witness:
  "fst (pick_write_disk (\<lambda>s. int (length s)) 50 None
        (update_policy (sample_db\<lparr>n_policies := [sample_policy]\<rparr>) 9
           (\<lambda>q. q\<lparr>pol_pinned_disk := Some 7\<rparr>)) 22
        (StoragePolicy_get_for_camera
          (update_policy (sample_db\<lparr>n_policies := [sample_policy]\<rparr>) 9
             (\<lambda>q. q\<lparr>pol_pinned_disk := Some 7\<rparr>)) 22))
   = Some (sample_disk 7 ROLE_CACHE 300)"
proof -
  let ?db = "sample_db\<lparr>n_policies := [sample_policy]\<rparr>"
  let ?db' = "update_policy ?db 9 (\<lambda>q. q\<lparr>pol_pinned_disk := Some 7\<rparr>)"
  note evals = sample_defs sample_policy_def default_policy_def storage_consts Let_def
    StoragePolicy_get_global_def StoragePolicy_get_raw_for_camera_def
    StoragePolicy_get_for_camera_def
  have pick: "pick_write_disk (\<lambda>s. int (length s)) 50 None ?db 1 (StoragePolicy_get_for_camera ?db 1)
      = (Some (sample_disk 7 ROLE_CACHE 300), ?db')"
    by (simp add: pick_write_disk_def write_pool_def Disk_get_writable_def usable_free_bytes_def
        hash_index_def str_of_int_def str_of_nat.simps update_policy_def evals)
  have "StoragePolicy_get_global ?db = Some sample_policy"
    "pol_balance_strategy sample_policy = STRATEGY_PER_CAMERA" "pol_pinned_disk sample_policy = None"
    "distinct (map disk_id (n_disks ?db))" "\<forall>d \<in> set (n_disks ?db). disk_id d \<noteq> 0"
    "StoragePolicy_get_raw_for_camera ?db 1 = None" "StoragePolicy_get_raw_for_camera ?db 22 = None"
    by (simp_all add: evals)
  from per_camera_pin_is_shared [OF this pick] show ?thesis .
qed

end
