(* ===== verification/Retention.thy ===== *)
theory Retention
  imports Storage
begin

text \<open>
  Retention and rotation, \<open>server/service/retention_engine.py\<close>: the days-based pass, the per-camera
  capacity pass, the disk-free watchdog, and the pool over-commit check. One run sees one reading
  \<open>now\<close> of the clock; \<open>du\<close> is what \<open>shutil.disk_usage\<close> answers.

  The loops are refined to deletion of a computed list of victims (\<open>victims\<close>), over the
  interface \<open>row_store\<close>: a table whose delete removes the rows with one key.
\<close>

section \<open>The interface of a table that rows are deleted from\<close>

locale row_store =
  fixes rows :: "'db \<Rightarrow> 'row list"
    and key :: "'row \<Rightarrow> 'k"
    and del :: "'row \<Rightarrow> 'db \<Rightarrow> 'db"
  assumes rows_del: "rows (del r db) = filter (\<lambda>x. key x \<noteq> key r) (rows db)"
begin

lemma rows_fold_del: "rows (fold del ds db) = filter (\<lambda>x. key x \<notin> key ` set ds) (rows db)"
proof (induction ds arbitrary: db)
  case Nil
  then show ?case by simp
next
  case (Cons d ds)
  then show ?case by (auto simp: rows_del intro!: filter_cong)
qed

lemma rows_fold_del_distinct:
  assumes "distinct (map key (rows db))" and "set ds \<subseteq> set (rows db)"
  shows "rows (fold del ds db) = filter (\<lambda>x. x \<notin> set ds) (rows db)"
proof -
  have "key x \<in> key ` set ds \<longleftrightarrow> x \<in> set ds" if "x \<in> set (rows db)" for x
    using assms that by (auto simp: distinct_map inj_on_def)
  then show ?thesis by (auto simp: rows_fold_del intro: filter_cong)
qed

lemma distinct_fold_del:
  "distinct (map key (rows db)) \<Longrightarrow> distinct (map key (rows (fold del ds db)))"
  by (simp add: rows_fold_del distinct_map_filter)

lemma survives_fold_del:
  assumes "distinct (map key (rows db))" and "set ds \<subseteq> set (rows db)"
    and "x \<in> set (rows db)" and "x \<notin> set ds"
  shows "x \<in> set (rows (fold del ds db))"
  using assms by (simp add: rows_fold_del_distinct)

end

section \<open>Deleting a segment\<close>

definition overlaps :: "segment \<Rightarrow> (ts \<times> ts) list \<Rightarrow> bool" where
  "overlaps g intervals \<longleftrightarrow> list_ex (\<lambda>(start, stop). seg_start g < stop \<and> seg_end g > start) intervals"

text \<open>\<open>os.unlink\<close> with the handlers of \<open>delete_segment\<close>: a missing file is ignored, any other
  OSError is logged and leaves the file.\<close>

definition unlink_logged :: "'z nvr_scheme \<Rightarrow> string \<Rightarrow> 'z nvr_scheme" where
  "unlink_logged db path =
     (if path \<notin> set (n_files db) then db
      else if path \<in> set (n_locked db) then db
      else db\<lparr>n_files := filter (\<lambda>f. f \<noteq> path) (n_files db)\<rparr>)"

type_synonym disk_map = "db_id \<rightharpoonup> disk"

definition build_disk_map :: "'z nvr_scheme \<Rightarrow> disk_map" where
  "build_disk_map db = foldl (\<lambda>m d. m(disk_id d \<mapsto> d)) Map.empty (Disk_get_all db)"

definition delete_segment :: "disk_map \<Rightarrow> segment \<Rightarrow> 'z nvr_scheme \<Rightarrow> 'z nvr_scheme" where
  "delete_segment dm g db =
     Segment_delete_row
       (case dm (seg_disk g) of
          None \<Rightarrow> db
        | Some d \<Rightarrow> unlink_logged db (abs_path d (seg_rel_path g)))
       (seg_id g)"

section \<open>The disk-free watchdog's eviction\<close>

type_synonym protected_cache = "db_id \<rightharpoonup> (ts \<times> ts) list"

text \<open>\<open>protected_cache.setdefault(cam, Recording.get_protected_intervals(cam))\<close>: the value and the
  cache.\<close>

definition cached_intervals ::
  "ts \<Rightarrow> 'z nvr_scheme \<Rightarrow> protected_cache \<Rightarrow> db_id \<Rightarrow> (ts \<times> ts) list \<times> protected_cache" where
  "cached_intervals now db cache cam =
     (case cache cam of
        Some v \<Rightarrow> (v, cache)
      | None \<Rightarrow> (let v = Recording_get_protected_intervals db now cam in (v, cache(cam \<mapsto> v))))"

fun free_space_loop ::
  "disk_map \<Rightarrow> ts \<Rightarrow> int \<Rightarrow> segment list \<Rightarrow> int \<Rightarrow> int \<Rightarrow> protected_cache \<Rightarrow> 'z nvr_scheme
     \<Rightarrow> int \<times> protected_cache \<times> 'z nvr_scheme" where
  "free_space_loop dm now target [] est_free deleted cache db = (deleted, cache, db)"
| "free_space_loop dm now target (g # gs) est_free deleted cache db =
     (if est_free \<ge> target then (deleted, cache, db)
      else case cached_intervals now db cache (seg_camera g) of (protected, cache') \<Rightarrow>
        if overlaps g protected
        then free_space_loop dm now target gs est_free deleted cache' db
        else free_space_loop dm now target gs (est_free + seg_size g) (deleted + 1) cache'
               (delete_segment dm g db))"

definition free_space ::
  "usage \<Rightarrow> ts \<Rightarrow> disk \<Rightarrow> int \<Rightarrow> disk_map \<Rightarrow> protected_cache \<Rightarrow> 'z nvr_scheme
     \<Rightarrow> int \<times> protected_cache \<times> 'z nvr_scheme" where
  "free_space du now d target dm cache db =
     (case free_space_loop dm now target (Segment_oldest_on_disk db (disk_id d) 2000)
             (disk_free d) 0 cache db of
        (deleted, cache', db') \<Rightarrow> (deleted, cache', Disk_refresh_usage du now db' (disk_id d)))"

definition effective_policies :: "'z nvr_scheme \<Rightarrow> (db_id \<times> storage_policy) list" where
  "effective_policies db =
     List.map_filter (\<lambda>c. map_option (Pair (cam_id c)) (StoragePolicy_get_for_camera db (cam_id c)))
       (Camera_get_all_enabled db)"

section \<open>Pass 1: days\<close>

definition day_ms :: int where "day_ms = 86400000"

fun days_loop ::
  "disk_map \<Rightarrow> (ts \<times> ts) list \<Rightarrow> segment list \<Rightarrow> int \<Rightarrow> 'z nvr_scheme \<Rightarrow> int \<times> 'z nvr_scheme" where
  "days_loop dm protected [] n db = (n, db)"
| "days_loop dm protected (g # gs) n db =
     (if overlaps g protected then days_loop dm protected gs n db
      else days_loop dm protected gs (n + 1) (delete_segment dm g db))"

text \<open>The body of the loop over the cameras' policies, and the loop.\<close>

definition days_step ::
  "disk_map \<Rightarrow> ts \<Rightarrow> db_id \<times> storage_policy \<Rightarrow> int \<times> protected_cache \<times> 'z nvr_scheme
     \<Rightarrow> int \<times> protected_cache \<times> 'z nvr_scheme" where
  "days_step dm now = (\<lambda>(cam, pol) (n, cache, db).
     case pol_retention_days pol of
       None \<Rightarrow> (n, cache, db)
     | Some days \<Rightarrow>
         if days = 0 then (n, cache, db)
         else case cached_intervals now db cache cam of (protected, cache') \<Rightarrow>
           case days_loop dm protected (Segment_older_than db cam (now - days * day_ms) 2000) n db of
             (n', db') \<Rightarrow> (n', cache', db'))"

definition days_pass ::
  "disk_map \<Rightarrow> ts \<Rightarrow> (db_id \<times> storage_policy) list \<Rightarrow> int \<times> protected_cache \<times> 'z nvr_scheme
     \<Rightarrow> int \<times> protected_cache \<times> 'z nvr_scheme" where
  "days_pass dm now pols = fold (days_step dm now) pols"

section \<open>Pass 2: capacity\<close>

text \<open>The inner loop over the oldest segments, for one value of \<open>allow_protected\<close>.\<close>

fun evict_pass ::
  "disk_map \<Rightarrow> bool \<Rightarrow> (ts \<times> ts) list \<Rightarrow> int \<Rightarrow> segment list \<Rightarrow> int \<Rightarrow> db_id list \<Rightarrow> int
     \<Rightarrow> 'z nvr_scheme \<Rightarrow> int \<times> db_id list \<times> int \<times> 'z nvr_scheme" where
  "evict_pass dm allow protected cap [] used deleted n db = (used, deleted, n, db)"
| "evict_pass dm allow protected cap (g # gs) used deleted n db =
     (if used \<le> cap then (used, deleted, n, db)
      else if seg_id g \<in> set deleted
      then evict_pass dm allow protected cap gs used deleted n db
      else if \<not> allow \<and> overlaps g protected
      then evict_pass dm allow protected cap gs used deleted n db
      else evict_pass dm allow protected cap gs (used - seg_size g) (seg_id g # deleted) (n + 1)
             (delete_segment dm g db))"

definition evict_oldest ::
  "disk_map \<Rightarrow> (ts \<times> ts) list \<Rightarrow> int \<Rightarrow> segment list \<Rightarrow> int \<Rightarrow> int \<Rightarrow> 'z nvr_scheme
     \<Rightarrow> int \<times> 'z nvr_scheme" where
  "evict_oldest dm protected cap segs used n db =
     (case evict_pass dm False protected cap segs used [] n db of
        (used1, deleted1, n1, db1) \<Rightarrow>
          if used1 \<le> cap then (n1, db1)
          else case evict_pass dm True protected cap segs used1 deleted1 n1 db1 of
                 (used2, deleted2, n2, db2) \<Rightarrow> (n2, db2))"

text \<open>The \<open>OVER_STOP\<close> branch: turn recording off in the camera's own row, which is created as a
  copy of the inherited policy when there is none.\<close>

definition stop_recording :: "'z nvr_scheme \<Rightarrow> db_id \<Rightarrow> storage_policy \<Rightarrow> 'z nvr_scheme" where
  "stop_recording db cam pol =
     (case StoragePolicy_get_raw_for_camera db cam of
        Some row \<Rightarrow> update_policy db (pol_id row) (\<lambda>p. p\<lparr>pol_record_mode := RECORD_OFF\<rparr>)
      | None \<Rightarrow>
          db\<lparr>n_policies := n_policies db @
               [(default_policy (n_next_key db) (Some cam))
                  \<lparr>pol_segment_seconds := pol_segment_seconds pol,
                   pol_container := pol_container pol,
                   pol_balance_strategy := pol_balance_strategy pol,
                   pol_pinned_disk := pol_pinned_disk pol,
                   pol_retention_days := pol_retention_days pol,
                   pol_retention_max_bytes := pol_retention_max_bytes pol,
                   pol_over_capacity := pol_over_capacity pol,
                   pol_cache_buffer_seconds := pol_cache_buffer_seconds pol,
                   pol_event_retention_days := pol_event_retention_days pol,
                   pol_record_mode := RECORD_OFF\<rparr>],
             n_next_key := n_next_key db + 1\<rparr>)"

definition capacity_step ::
  "disk_map \<Rightarrow> ts \<Rightarrow> db_id \<times> storage_policy \<Rightarrow> int \<times> string list \<times> protected_cache \<times> 'z nvr_scheme
     \<Rightarrow> int \<times> string list \<times> protected_cache \<times> 'z nvr_scheme" where
  "capacity_step dm now = (\<lambda>(cam, pol) (n, warn, cache, db).
     case pol_retention_max_bytes pol of
       None \<Rightarrow> (n, warn, cache, db)
     | Some cap \<Rightarrow>
         if cap = 0 then (n, warn, cache, db)
         else let used = Segment_total_size_for_camera db cam in
           if used \<le> cap then (n, warn, cache, db)
           else if pol_over_capacity pol = OVER_DELETE_OLDEST
           then (case cached_intervals now db cache cam of (protected, cache') \<Rightarrow>
                  case evict_oldest dm protected cap (Segment_oldest_for_camera db cam 5000) used n db of
                    (n', db') \<Rightarrow> (n', warn, cache', db'))
           else if pol_over_capacity pol = OVER_STOP
           then (n, warn @ [''capacity_full_stopped:'' @ str_of_int cam], cache,
                 publish_reconcile (stop_recording db cam pol) (Some cam) ''mode_change'')
           else if pol_over_capacity pol = OVER_WARN
           then (n, warn @ [''capacity_exceeded:'' @ str_of_int cam], cache, db)
           else (n, warn, cache, db))"

definition capacity_pass ::
  "disk_map \<Rightarrow> ts \<Rightarrow> (db_id \<times> storage_policy) list \<Rightarrow> int \<times> string list \<times> protected_cache \<times> 'z nvr_scheme
     \<Rightarrow> int \<times> string list \<times> protected_cache \<times> 'z nvr_scheme" where
  "capacity_pass dm now pols = fold (capacity_step dm now) pols"

section \<open>Pass 3: disk free space, and the run\<close>

definition disk_step ::
  "usage \<Rightarrow> int \<Rightarrow> disk_map \<Rightarrow> ts \<Rightarrow> disk \<Rightarrow> int \<times> string list \<times> protected_cache \<times> 'z nvr_scheme
     \<Rightarrow> int \<times> string list \<times> protected_cache \<times> 'z nvr_scheme" where
  "disk_step du hard_margin dm now = (\<lambda>d (n, warn, cache, db).
     case free_space du now d (disk_reserved d + hard_margin) dm cache db of
       (freed, cache', db') \<Rightarrow>
         let warn' = (case first_row (filter (\<lambda>e. disk_id e = disk_id d) (n_disks db')) of
                        Some e \<Rightarrow> if freed = 0 \<and> disk_free e \<le> disk_reserved e
                                  then warn @ [''no_evictable_space:'' @ disk_name e] else warn
                      | None \<Rightarrow> warn)
         in (n + freed, warn', cache', db'))"

definition disk_pass ::
  "usage \<Rightarrow> int \<Rightarrow> disk_map \<Rightarrow> ts \<Rightarrow> disk list \<Rightarrow> int \<times> string list \<times> protected_cache \<times> 'z nvr_scheme
     \<Rightarrow> int \<times> string list \<times> protected_cache \<times> 'z nvr_scheme" where
  "disk_pass du hard_margin dm now ds = fold (disk_step du hard_margin dm now) ds"

record retention_result =
  deleted_days :: int
  deleted_capacity :: int
  deleted_diskfree :: int
  warnings :: "string list"

definition run_retention ::
  "usage \<Rightarrow> int \<Rightarrow> ts \<Rightarrow> 'z nvr_scheme \<Rightarrow> retention_result \<times> 'z nvr_scheme" where
  "run_retention du hard_margin now db =
     (let dm = build_disk_map db in
      case days_pass dm now (effective_policies db) (0, Map.empty, db) of (nd, cache1, db1) \<Rightarrow>
      case capacity_pass dm now (effective_policies db1) (0, [], cache1, db1) of
        (nc, warn, cache2, db2) \<Rightarrow>
      case disk_pass du hard_margin dm now (disks_needing_rotation db2 0) (0, warn, cache2, db2) of
        (nf, warn', cache3, db3) \<Rightarrow>
          (\<lparr>deleted_days = nd, deleted_capacity = nc, deleted_diskfree = nf, warnings = warn'\<rparr>, db3))"

definition check_pool_overcommit :: "'z nvr_scheme \<Rightarrow> int option \<Rightarrow> pool_warning list" where
  "check_pool_overcommit db proposed =
     (let disks = Disk_get_writable db [ROLE_CACHE, ROLE_RECORD];
          pool_total = sum_list (map disk_total disks);
          reserved = sum_list (map disk_reserved disks);
          committed = sum_list (map (\<lambda>(_, pol). case pol_retention_max_bytes pol of
                                        None \<Rightarrow> 0 | Some b \<Rightarrow> b) (effective_policies db))
                      + (case proposed of None \<Rightarrow> 0 | Some b \<Rightarrow> b)
      in if committed + reserved > pool_total \<and> pool_total > 0 then [PoolOvercommit] else [])"

section \<open>What the passes delete\<close>

lemma delete_segment_segments:
  "n_segments (delete_segment dm g db) = filter (\<lambda>h. seg_id h \<noteq> seg_id g) (n_segments db)"
  by (simp add: delete_segment_def unlink_logged_def split: option.splits)

interpretation seg_rows: row_store n_segments seg_id "delete_segment dm" for dm :: disk_map
  by unfold_locales (rule delete_segment_segments)

lemma delete_segment_frame [simp]:
  "n_recordings (delete_segment dm g db) = n_recordings db"
  "n_cameras (delete_segment dm g db) = n_cameras db"
  "n_policies (delete_segment dm g db) = n_policies db"
  "n_disks (delete_segment dm g db) = n_disks db"
  by (simp_all add: delete_segment_def Segment_delete_row_def unlink_logged_def split: option.splits)

lemma fold_delete_frame [simp]:
  "n_recordings (fold (delete_segment dm) ds db) = n_recordings db"
  "n_cameras (fold (delete_segment dm) ds db) = n_cameras db"
  "n_policies (fold (delete_segment dm) ds db) = n_policies db"
  "n_disks (fold (delete_segment dm) ds db) = n_disks db"
  by (induction ds arbitrary: db) simp_all

text \<open>Protected: the segment overlaps a protected recording of its camera.\<close>

definition protected_seg :: "ts \<Rightarrow> 'z nvr_scheme \<Rightarrow> segment \<Rightarrow> bool" where
  "protected_seg now db g \<longleftrightarrow>
     overlaps g (Recording_get_protected_intervals db now (seg_camera g))"

text \<open>The same, read off the recordings table without the routines of the engine: an undeleted
  recording of the camera, of a protected class, that is under way during the segment.\<close>

definition in_protected_recording :: "ts \<Rightarrow> 'z nvr_scheme \<Rightarrow> segment \<Rightarrow> bool" where
  "in_protected_recording now db g \<longleftrightarrow>
     (\<exists>r \<in> set (n_recordings db). rec_camera r = seg_camera g \<and> rec_class r \<in> set PROTECTED_CLASSES
        \<and> rec_deleted r = None \<and> rec_start r < seg_end g
        \<and> (case rec_end r of None \<Rightarrow> seg_start g < now | Some e \<Rightarrow> seg_start g < e))"

lemma protected_seg_iff: "protected_seg now db g \<longleftrightarrow> in_protected_recording now db g"
  by (auto simp: protected_seg_def in_protected_recording_def overlaps_def list_ex_iff
      Recording_get_protected_intervals_def split: option.splits)

definition cache_ok :: "ts \<Rightarrow> 'z nvr_scheme \<Rightarrow> protected_cache \<Rightarrow> bool" where
  "cache_ok now db cache \<longleftrightarrow>
     (\<forall>cam v. cache cam = Some v \<longrightarrow> v = Recording_get_protected_intervals db now cam)"

lemma protected_cong:
  assumes "n_recordings db' = n_recordings db"
  shows "Recording_get_protected_intervals db' now cam = Recording_get_protected_intervals db now cam"
    and "protected_seg now db' g = protected_seg now db g"
    and "cache_ok now db' cache = cache_ok now db cache"
  using assms by (simp_all add: Recording_get_protected_intervals_def protected_seg_def cache_ok_def)

lemma cached_intervalsD:
  assumes "cached_intervals now db cache cam = (v, cache')" and "cache_ok now db cache"
  shows "v = Recording_get_protected_intervals db now cam" and "cache_ok now db cache'"
  using assms by (auto simp: cached_intervals_def cache_ok_def Let_def split: option.splits if_splits)

text \<open>
  The reference selection: walk the list, stop once \<open>used\<close> is within \<open>cap\<close>, pass over what must
  be skipped.
\<close>

fun victims :: "(segment \<Rightarrow> bool) \<Rightarrow> int \<Rightarrow> segment list \<Rightarrow> int \<Rightarrow> segment list" where
  "victims skip cap [] used = []"
| "victims skip cap (g # gs) used =
     (if used \<le> cap then []
      else if skip g then victims skip cap gs used
      else g # victims skip cap gs (used - seg_size g))"

lemma victims_subset: "set (victims skip cap gs used) \<subseteq> {g \<in> set gs. \<not> skip g}"
  by (induction skip cap gs used rule: victims.induct) auto

lemma victims_exhaust:
  "cap < used - sum_list (map seg_size (victims skip cap gs used)) \<Longrightarrow>
   victims skip cap gs used = filter (\<lambda>g. \<not> skip g) gs"
  by (induction skip cap gs used rule: victims.induct) (auto simp: algebra_simps split: if_splits)

lemma victims_prefix: "\<exists>k. victims skip cap gs used = take k (filter (\<lambda>g. \<not> skip g) gs)"
proof (induction skip cap gs used rule: victims.induct)
  case (1 skip cap used)
  then show ?case by simp
next
  case (2 skip cap g gs used)
  show ?case
  proof (cases "used \<le> cap \<or> skip g")
    case True
    then show ?thesis using 2 by (auto intro: exI [of _ 0])
  next
    case False
    with 2(2) obtain k where "victims skip cap gs (used - seg_size g) = take k (filter (\<lambda>g. \<not> skip g) gs)"
      by auto
    with False show ?thesis by (auto intro: exI [of _ "Suc k"])
  qed
qed

lemma victims_distinct:
  assumes "distinct (map f gs)"
  shows "distinct (map f (victims skip cap gs used))"
proof -
  obtain k where "victims skip cap gs used = take k (filter (\<lambda>g. \<not> skip g) gs)"
    using victims_prefix by blast
  then show ?thesis
    using assms by (simp add: take_map [symmetric] distinct_map_filter)
qed

lemma days_loop_eq:
  "days_loop dm protected gs n db =
     (n + int (length (filter (\<lambda>g. \<not> overlaps g protected) gs)),
      fold (delete_segment dm) (filter (\<lambda>g. \<not> overlaps g protected) gs) db)"
  by (induction dm protected gs n db rule: days_loop.induct) auto

lemma free_space_loop_eq:
  assumes "cache_ok now db cache"
  shows "\<exists>cache'. cache_ok now db cache' \<and>
     free_space_loop dm now target gs est n cache db =
       (n + int (length (victims (protected_seg now db) (- target) gs (- est))), cache',
        fold (delete_segment dm) (victims (protected_seg now db) (- target) gs (- est)) db)"
  using assms
proof (induction gs arbitrary: est n cache db)
  case Nil
  then show ?case by auto
next
  case (Cons g gs)
  obtain v c where c: "cached_intervals now db cache (seg_camera g) = (v, c)" by fastforce
  note v = cached_intervalsD [OF c Cons.prems]
  have same: "protected_seg now (delete_segment dm g db) = protected_seg now db"
    "cache_ok now (delete_segment dm g db) = cache_ok now db"
    using protected_cong [of "delete_segment dm g db" db] by (auto simp: fun_eq_iff)
  have skip: "overlaps g v = protected_seg now db g" by (simp add: v(1) protected_seg_def)
  show ?case
  proof (cases "est \<ge> target \<or> protected_seg now db g")
    case True
    then show ?thesis
      using Cons.prems Cons.IH [OF v(2), of est n] by (auto simp: c skip)
  next
    case False
    with Cons.IH [of "delete_segment dm g db" c "est + seg_size g" "n + 1"] v(2)
    show ?thesis by (simp add: c skip same) (simp add: algebra_simps)
  qed
qed

lemma evict_pass_eq:
  assumes "distinct (map seg_id gs)"
  shows "evict_pass dm allow protected cap gs used deleted n db =
     (let vs = victims (\<lambda>g. seg_id g \<in> set deleted \<or> \<not> allow \<and> overlaps g protected) cap gs used
      in (used - sum_list (map seg_size vs), rev (map seg_id vs) @ deleted, n + int (length vs),
          fold (delete_segment dm) vs db))"
  using assms
proof (induction gs arbitrary: used deleted n db)
  case Nil
  then show ?case by simp
next
  case (Cons g gs)
  have "victims (\<lambda>h. seg_id h \<in> set (seg_id g # deleted) \<or> \<not> allow \<and> overlaps h protected) cap gs u
      = victims (\<lambda>h. seg_id h \<in> set deleted \<or> \<not> allow \<and> overlaps h protected) cap gs u" for u
    using Cons.prems by (induction gs arbitrary: u) auto
  then show ?case
    using Cons.IH Cons.prems by (auto simp: Let_def algebra_simps)
qed

section \<open>The eviction relation of a run\<close>

text \<open>\<open>evicts P db db'\<close>: recordings and cameras are kept and the segments that went satisfy \<open>P\<close>.\<close>

definition evicts :: "(segment \<Rightarrow> bool) \<Rightarrow> 'z nvr_scheme \<Rightarrow> 'z nvr_scheme \<Rightarrow> bool" where
  "evicts P db db' \<longleftrightarrow> n_recordings db' = n_recordings db \<and> n_cameras db' = n_cameras db
     \<and> (\<exists>D. (\<forall>g \<in> D. P g) \<and> n_segments db' = filter (\<lambda>g. g \<notin> D) (n_segments db))"

lemma evicts_frame:
  assumes "n_recordings db' = n_recordings db" "n_cameras db' = n_cameras db"
    and "n_segments db' = n_segments db"
  shows "evicts P db db'"
  using assms by (auto simp: evicts_def intro!: exI [of _ "{}"])

lemma evicts_trans:
  assumes "evicts P db db1" and "evicts P db1 db2"
  shows "evicts P db db2"
proof -
  obtain D E where D: "\<forall>g \<in> D. P g" "n_segments db1 = filter (\<lambda>g. g \<notin> D) (n_segments db)"
    and E: "\<forall>g \<in> E. P g" "n_segments db2 = filter (\<lambda>g. g \<notin> E) (n_segments db1)"
    using assms by (auto simp: evicts_def)
  then have "n_segments db2 = filter (\<lambda>g. g \<notin> D \<union> E) (n_segments db)" by simp
  with assms D(1) E(1) show ?thesis
    by (auto simp: evicts_def intro!: exI [of _ "D \<union> E"])
qed

lemma evicts_fold:
  assumes "distinct (map seg_id (n_segments db))" and "set ds \<subseteq> set (n_segments db)"
    and "\<And>g. g \<in> set ds \<Longrightarrow> P g"
  shows "evicts P db (fold (delete_segment dm) ds db)"
  using seg_rows.rows_fold_del_distinct [OF assms(1,2), of dm] assms(3)
  by (auto simp: evicts_def intro!: exI [of _ "set ds"])

lemma evictsD:
  assumes "evicts P db db'"
  shows "n_recordings db' = n_recordings db" "n_cameras db' = n_cameras db"
    and "set (n_segments db') \<subseteq> set (n_segments db)"
    and "\<And>g. g \<in> set (n_segments db) \<Longrightarrow> \<not> P g \<Longrightarrow> g \<in> set (n_segments db')"
    and "distinct (map seg_id (n_segments db)) \<Longrightarrow> distinct (map seg_id (n_segments db'))"
  using assms by (auto simp: evicts_def distinct_map_filter)

lemma evicts_shrinks:
  assumes "evicts P db db'"
  shows "length (filter Q (n_segments db')) \<le> length (filter Q (n_segments db))"
    and "(\<And>g. g \<in> set (n_segments db) \<Longrightarrow> 0 \<le> seg_size g) \<Longrightarrow>
         Segment_total_size_for_camera db' cam \<le> Segment_total_size_for_camera db cam"
proof -
  obtain D where D: "n_segments db' = filter (\<lambda>g. g \<notin> D) (n_segments db)"
    using assms by (auto simp: evicts_def)
  have swap: "filter R (n_segments db') = filter (\<lambda>g. g \<notin> D) (filter R (n_segments db))" for R
    by (simp add: D conj_commute)
  show "length (filter Q (n_segments db')) \<le> length (filter Q (n_segments db))"
    unfolding swap by (rule length_filter_le)
  show "Segment_total_size_for_camera db' cam \<le> Segment_total_size_for_camera db cam"
    if "\<And>g. g \<in> set (n_segments db) \<Longrightarrow> 0 \<le> seg_size g"
    unfolding Segment_total_size_for_camera_def swap
    by (rule sum_list_map_filter_le) (use that in auto)
qed

lemma query_subsets:
  "set (Segment_older_than db cam cutoff k) \<subseteq> {g \<in> set (n_segments db). seg_camera g = cam \<and> seg_end g < cutoff}"
  "set (Segment_oldest_for_camera db cam k) \<subseteq> {g \<in> set (n_segments db). seg_camera g = cam}"
  "set (Segment_oldest_on_disk db d k) \<subseteq> {g \<in> set (n_segments db). seg_disk g = d}"
  by (auto simp: Segment_older_than_def Segment_oldest_for_camera_def Segment_oldest_on_disk_def
      dest: in_set_takeD)

lemma effective_policies_cong:
  assumes "n_policies db' = n_policies db" "n_cameras db' = n_cameras db"
  shows "effective_policies db' = effective_policies db"
  using assms
  by (simp add: effective_policies_def StoragePolicy_get_for_camera_def Camera_get_all_enabled_def
      StoragePolicy_get_raw_for_camera_def StoragePolicy_get_global_def cong: option.case_cong)

text \<open>
  The invariant of the three loops, against the state \<open>db\<close> the run started from: only segments
  that satisfy \<open>P\<close> went, the cache agrees with the recordings, keys are still unique.
\<close>

definition run_inv ::
  "(segment \<Rightarrow> bool) \<Rightarrow> ts \<Rightarrow> 'z nvr_scheme \<Rightarrow> protected_cache \<Rightarrow> 'z nvr_scheme \<Rightarrow> bool" where
  "run_inv P now db cache db' \<longleftrightarrow>
     evicts P db db' \<and> cache_ok now db' cache \<and> distinct (map seg_id (n_segments db'))"

lemma run_inv_fold:
  assumes "run_inv P now db cache db1" and "cache_ok now db1 cache'"
    and "set ds \<subseteq> set (n_segments db1)" and "\<And>g. g \<in> set ds \<Longrightarrow> P g"
  shows "run_inv P now db cache' (fold (delete_segment dm) ds db1)"
proof -
  have ev: "evicts P db1 (fold (delete_segment dm) ds db1)"
    using assms by (intro evicts_fold) (auto simp: run_inv_def)
  with assms show ?thesis
    using evicts_trans [OF _ ev, of db] evictsD(5) [OF ev]
      protected_cong(3) [of "fold (delete_segment dm) ds db1" db1]
    by (auto simp: run_inv_def)
qed

lemma run_inv_protected:
  assumes "run_inv P now db cache db1"
  shows "Recording_get_protected_intervals db1 now cam = Recording_get_protected_intervals db now cam"
    and "protected_seg now db1 g = protected_seg now db g"
  using assms protected_cong [of db1 db] by (auto simp: run_inv_def evicts_def)

lemma run_inv_frame:
  assumes "run_inv P now db cache db1" and "n_recordings db2 = n_recordings db1"
    and "n_cameras db2 = n_cameras db1" and "n_segments db2 = n_segments db1"
  shows "run_inv P now db cache db2"
  using assms protected_cong(3) [of db2 db1] evicts_frame [of db2 db1]
  by (auto simp: run_inv_def intro: evicts_trans)

lemma days_step_inv:
  assumes inv: "run_inv P now db cache db1" and P: "\<And>g. \<not> protected_seg now db g \<Longrightarrow> P g"
    and step: "days_step dm now (cam, pol) (n, cache, db1) = (n', cache', db2)"
  shows "run_inv P now db cache' db2 \<and> n_policies db2 = n_policies db1"
proof (cases "truthy (pol_retention_days pol)")
  case False
  with step inv show ?thesis by (auto simp: days_step_def truthy_def split: option.splits if_splits)
next
  case True
  then obtain days where days: "pol_retention_days pol = Some days" "days \<noteq> 0"
    by (auto simp: truthy_def split: option.splits)
  obtain v c where c: "cached_intervals now db1 cache cam = (v, c)" by fastforce
  have ok: "cache_ok now db1 cache" using inv by (simp add: run_inv_def)
  note v = cached_intervalsD [OF c ok]
  let ?old = "Segment_older_than db1 cam (now - days * day_ms) 2000"
  have res: "cache' = c" "db2 = fold (delete_segment dm) (filter (\<lambda>g. \<not> overlaps g v) ?old) db1"
    using step days c by (auto simp: days_step_def days_loop_eq)
  have sub: "g \<in> set (n_segments db1) \<and> P g" if "g \<in> set (filter (\<lambda>g. \<not> overlaps g v) ?old)" for g
  proof -
    have "g \<in> set (n_segments db1)" "seg_camera g = cam" "\<not> overlaps g v"
      using that query_subsets(1) [of db1 cam "now - days * day_ms" 2000] by auto
    with P [of g] show ?thesis
      by (simp add: v(1) run_inv_protected [OF inv] protected_seg_def)
  qed
  have "run_inv P now db c (fold (delete_segment dm) (filter (\<lambda>g. \<not> overlaps g v) ?old) db1)"
    by (rule run_inv_fold [OF inv v(2)]) (use sub in auto)
  then show ?thesis by (simp add: res)
qed

text \<open>Both passes over the oldest segments as one list of victims.\<close>

definition capacity_victims :: "(ts \<times> ts) list \<Rightarrow> int \<Rightarrow> segment list \<Rightarrow> int \<Rightarrow> segment list" where
  "capacity_victims protected cap segs used =
     (let vs = victims (\<lambda>g. overlaps g protected) cap segs used;
          used1 = used - sum_list (map seg_size vs)
      in if used1 \<le> cap then vs
         else vs @ victims (\<lambda>g. g \<in> set vs) cap segs used1)"

lemma victims_cong:
  assumes "\<And>g. g \<in> set gs \<Longrightarrow> skip g = skip' g"
  shows "victims skip cap gs used = victims skip' cap gs used"
  using assms by (induction gs arbitrary: used) auto

lemma evict_oldest_eq:
  assumes "distinct (map seg_id segs)"
  shows "evict_oldest dm protected cap segs used n db =
     (n + int (length (capacity_victims protected cap segs used)),
      fold (delete_segment dm) (capacity_victims protected cap segs used) db)"
proof -
  let ?vs = "victims (\<lambda>g. overlaps g protected) cap segs used"
  have "seg_id g \<in> set (map seg_id ?vs) \<longleftrightarrow> g \<in> set ?vs" if "g \<in> set segs" for g
    using victims_subset [of "\<lambda>g. overlaps g protected" cap segs used] assms that
    by (auto simp: distinct_map inj_on_def)
  then have "victims (\<lambda>g. seg_id g \<in> set (rev (map seg_id ?vs))) cap segs u
      = victims (\<lambda>g. g \<in> set ?vs) cap segs u" for u
    by (intro victims_cong) simp
  then show ?thesis
    by (simp add: evict_oldest_def evict_pass_eq [OF assms] capacity_victims_def Let_def)
qed

lemma capacity_victims_subset: "set (capacity_victims protected cap segs used) \<subseteq> set segs"
proof -
  have "set (victims skip cap segs u) \<subseteq> set segs" for skip u
    using victims_subset [of skip cap segs u] by blast
  then show ?thesis by (auto simp: capacity_victims_def Let_def)
qed

lemma distinct_ids_queries:
  assumes "distinct (map seg_id (n_segments db))"
  shows "distinct (map seg_id (Segment_oldest_for_camera db cam k))"
    and "distinct (map seg_id (Segment_oldest_on_disk db d k))"
    and "distinct (map seg_id (Segment_older_than db cam cutoff k))"
proof -
  have "distinct (map seg_id (sort_key seg_start (filter Q (n_segments db))))" for Q
    using distinct_map_filter [OF assms, of Q] by (simp add: distinct_map)
  then show "distinct (map seg_id (Segment_oldest_for_camera db cam k))"
    "distinct (map seg_id (Segment_oldest_on_disk db d k))"
    "distinct (map seg_id (Segment_older_than db cam cutoff k))"
    by (simp_all add: Segment_oldest_for_camera_def Segment_oldest_on_disk_def
        Segment_older_than_def take_map [symmetric])
qed

definition capped :: "storage_policy \<Rightarrow> bool" where
  "capped pol \<longleftrightarrow> truthy (pol_retention_max_bytes pol) \<and> pol_over_capacity pol = OVER_DELETE_OLDEST"

lemma stop_recording_frame [simp]:
  "n_recordings (stop_recording db cam pol) = n_recordings db"
  "n_cameras (stop_recording db cam pol) = n_cameras db"
  "n_segments (stop_recording db cam pol) = n_segments db"
  "n_disks (stop_recording db cam pol) = n_disks db"
  by (simp_all add: stop_recording_def update_policy_def split: option.splits)

lemma publish_reconcile_frame [simp]:
  "n_recordings (publish_reconcile db cam a) = n_recordings db"
  "n_cameras (publish_reconcile db cam a) = n_cameras db"
  "n_segments (publish_reconcile db cam a) = n_segments db"
  "n_policies (publish_reconcile db cam a) = n_policies db"
  "n_disks (publish_reconcile db cam a) = n_disks db"
  by (simp_all add: publish_reconcile_def)

text \<open>What one camera's turn in the capacity pass does, in terms of the victims.\<close>

lemma capacity_step_cases:
  assumes "capacity_step dm now (cam, pol) (n, warn, cache, db1) = (n', warn', cache', db2)"
    and "cache_ok now db1 cache" and "distinct (map seg_id (n_segments db1))"
  shows "(\<exists>cap. pol_retention_max_bytes pol = Some cap \<and> cap \<noteq> 0 \<and> pol_over_capacity pol = OVER_DELETE_OLDEST
            \<and> cap < Segment_total_size_for_camera db1 cam \<and> cache_ok now db1 cache'
            \<and> db2 = fold (delete_segment dm)
                (capacity_victims (Recording_get_protected_intervals db1 now cam) cap
                   (Segment_oldest_for_camera db1 cam 5000) (Segment_total_size_for_camera db1 cam)) db1)
       \<or> cache' = cache \<and> n_recordings db2 = n_recordings db1 \<and> n_cameras db2 = n_cameras db1
         \<and> n_segments db2 = n_segments db1
         \<and> (\<forall>cap. pol_retention_max_bytes pol = Some cap \<and> cap \<noteq> 0
              \<and> pol_over_capacity pol = OVER_DELETE_OLDEST
              \<longrightarrow> Segment_total_size_for_camera db1 cam \<le> cap)"
proof -
  obtain v c where c: "cached_intervals now db1 cache cam = (v, c)" by fastforce
  note v = cached_intervalsD [OF c assms(2)]
  show ?thesis
    using assms(1) c v
    by (auto simp: capacity_step_def Let_def evict_oldest_eq [OF distinct_ids_queries(1) [OF assms(3)]]
        split: option.splits if_splits)
qed

lemma capacity_step_inv:
  assumes inv: "run_inv P now db cache db1" and P: "\<And>g. capped pol \<Longrightarrow> seg_camera g = cam \<Longrightarrow> P g"
    and step: "capacity_step dm now (cam, pol) (n, warn, cache, db1) = (n', warn', cache', db2)"
  shows "run_inv P now db cache' db2"
proof -
  have ok: "cache_ok now db1 cache" and dist: "distinct (map seg_id (n_segments db1))"
    using inv by (simp_all add: run_inv_def)
  show ?thesis
    using capacity_step_cases [OF step ok dist]
  proof (elim disjE exE conjE)
    fix cap assume cap: "pol_retention_max_bytes pol = Some cap" "cap \<noteq> 0"
        "pol_over_capacity pol = OVER_DELETE_OLDEST" and c: "cache_ok now db1 cache'"
      and db2: "db2 = fold (delete_segment dm)
                (capacity_victims (Recording_get_protected_intervals db1 now cam) cap
                   (Segment_oldest_for_camera db1 cam 5000) (Segment_total_size_for_camera db1 cam)) db1"
    have "capped pol" using cap by (simp add: capped_def)
    then show ?thesis
      unfolding db2 using capacity_victims_subset query_subsets(2) [of db1 cam 5000] P
      by (intro run_inv_fold [OF inv c]) blast+
  next
    assume "cache' = cache" "n_recordings db2 = n_recordings db1" "n_cameras db2 = n_cameras db1"
      "n_segments db2 = n_segments db1"
    then show ?thesis using run_inv_frame [OF inv] by simp
  qed
qed

lemma Disk_refresh_usage_frame [simp]:
  "n_recordings (Disk_refresh_usage du now db i) = n_recordings db"
  "n_cameras (Disk_refresh_usage du now db i) = n_cameras db"
  "n_segments (Disk_refresh_usage du now db i) = n_segments db"
  "n_policies (Disk_refresh_usage du now db i) = n_policies db"
  by (simp_all add: Disk_refresh_usage_def update_disk_def)

lemma disk_step_inv:
  assumes inv: "run_inv P now db cache db1" and P: "\<And>g. \<not> protected_seg now db g \<Longrightarrow> P g"
    and step: "disk_step du hm dm now d (n, warn, cache, db1) = (n', warn', cache', db2)"
  shows "run_inv P now db cache' db2"
proof -
  have ok: "cache_ok now db1 cache" using inv by (simp add: run_inv_def)
  let ?gs = "Segment_oldest_on_disk db1 (disk_id d) 2000"
  let ?vs = "victims (protected_seg now db1) (- (disk_reserved d + hm)) ?gs (- disk_free d)"
  obtain c where c: "cache_ok now db1 c" and
    loop: "free_space_loop dm now (disk_reserved d + hm) ?gs (disk_free d) 0 cache db1 =
      (int (length ?vs), c, fold (delete_segment dm) ?vs db1)"
    using free_space_loop_eq [OF ok, of dm "disk_reserved d + hm" ?gs "disk_free d" 0] by auto
  have "run_inv P now db c (fold (delete_segment dm) ?vs db1)"
  proof (rule run_inv_fold [OF inv c])
    show "set ?vs \<subseteq> set (n_segments db1)"
      using victims_subset query_subsets(3) [of db1 "disk_id d" 2000] by fastforce
    show "P g" if "g \<in> set ?vs" for g
      using that victims_subset [of "protected_seg now db1"] P run_inv_protected(2) [OF inv] by blast
  qed
  moreover have "cache' = c" "db2 = Disk_refresh_usage du now (fold (delete_segment dm) ?vs db1) (disk_id d)"
    using step by (auto simp: disk_step_def free_space_def loop Let_def)
  ultimately show ?thesis by (simp add: run_inv_frame)
qed

section \<open>The passes\<close>

lemma days_pass_inv:
  assumes "run_inv P now db cache db1" and "\<And>g. \<not> protected_seg now db g \<Longrightarrow> P g"
    and "days_pass dm now pols (n, cache, db1) = (n', cache', db2)"
  shows "run_inv P now db cache' db2 \<and> n_policies db2 = n_policies db1"
  using assms(1,3)
proof (induction pols arbitrary: n cache db1)
  case Nil
  then show ?case by (simp add: days_pass_def)
next
  case (Cons cp pols)
  obtain cam pol where cp: "cp = (cam, pol)" by fastforce
  obtain n1 c1 dba where step: "days_step dm now (cam, pol) (n, cache, db1) = (n1, c1, dba)"
    using prod_cases3 by blast
  have "days_pass dm now pols (n1, c1, dba) = (n', cache', db2)"
    using Cons.prems(2) by (simp add: days_pass_def cp step)
  with days_step_inv [OF Cons.prems(1) assms(2) step] Cons.IH show ?case by metis
qed

lemma capacity_pass_inv:
  assumes "run_inv P now db cache db1"
    and "\<And>cam pol g. (cam, pol) \<in> set pols \<Longrightarrow> capped pol \<Longrightarrow> seg_camera g = cam \<Longrightarrow> P g"
    and "capacity_pass dm now pols (n, warn, cache, db1) = (n', warn', cache', db2)"
  shows "run_inv P now db cache' db2"
  using assms
proof (induction pols arbitrary: n warn cache db1)
  case Nil
  then show ?case by (simp add: capacity_pass_def)
next
  case (Cons cp pols)
  obtain cam pol where cp: "cp = (cam, pol)" by fastforce
  obtain n1 w1 c1 dba where
    step: "capacity_step dm now (cam, pol) (n, warn, cache, db1) = (n1, w1, c1, dba)"
    using prod_cases4 by blast
  have "run_inv P now db c1 dba"
    by (rule capacity_step_inv [OF Cons.prems(1) _ step]) (use Cons.prems(2) cp in auto)
  moreover have "capacity_pass dm now pols (n1, w1, c1, dba) = (n', warn', cache', db2)"
    using Cons.prems(3) by (simp add: capacity_pass_def cp step)
  ultimately show ?case using Cons.IH Cons.prems(2) by (metis list.set_intros(2))
qed

lemma disk_pass_inv:
  assumes "run_inv P now db cache db1" and "\<And>g. \<not> protected_seg now db g \<Longrightarrow> P g"
    and "disk_pass du hm dm now ds (n, warn, cache, db1) = (n', warn', cache', db2)"
  shows "run_inv P now db cache' db2"
  using assms(1,3)
proof (induction ds arbitrary: n warn cache db1)
  case Nil
  then show ?case by (simp add: disk_pass_def)
next
  case (Cons d ds)
  obtain n1 w1 c1 dba where step: "disk_step du hm dm now d (n, warn, cache, db1) = (n1, w1, c1, dba)"
    using prod_cases4 by blast
  have "disk_pass du hm dm now ds (n1, w1, c1, dba) = (n', warn', cache', db2)"
    using Cons.prems(2) by (simp add: disk_pass_def step)
  with disk_step_inv [OF Cons.prems(1) assms(2) step] Cons.IH show ?case by metis
qed

text \<open>The intermediate states of a run.\<close>

lemma run_retention_split:
  obtains nd c1 db1 nc w c2 db2 nf w' c3 db3 where
    "days_pass (build_disk_map db) now (effective_policies db) (0, Map.empty, db) = (nd, c1, db1)"
    "capacity_pass (build_disk_map db) now (effective_policies db1) (0, [], c1, db1) = (nc, w, c2, db2)"
    "disk_pass du hm (build_disk_map db) now (disks_needing_rotation db2 0) (0, w, c2, db2)
       = (nf, w', c3, db3)"
    "snd (run_retention du hm now db) = db3"
proof -
  obtain nd c1 db1 where
    1: "days_pass (build_disk_map db) now (effective_policies db) (0, Map.empty, db) = (nd, c1, db1)"
    using prod_cases3 by blast
  obtain nc w c2 db2 where
    2: "capacity_pass (build_disk_map db) now (effective_policies db1) (0, [], c1, db1) = (nc, w, c2, db2)"
    using prod_cases4 by blast
  obtain nf w' c3 db3 where
    3: "disk_pass du hm (build_disk_map db) now (disks_needing_rotation db2 0) (0, w, c2, db2)
       = (nf, w', c3, db3)"
    using prod_cases4 by blast
  have "snd (run_retention du hm now db) = db3"
    by (simp add: run_retention_def Let_def 1 2 3)
  with 1 2 3 show thesis by (rule that)
qed

lemma run_inv_start:
  "distinct (map seg_id (n_segments db)) \<Longrightarrow> run_inv P now db Map.empty db"
  by (simp add: run_inv_def evicts_frame cache_ok_def)

section \<open>Reaching the cap\<close>

text \<open>The size of a camera's segments after deleting some of them.\<close>

lemma sum_list_remove:
  fixes f :: "'a \<Rightarrow> int"
  assumes "distinct xs" and "distinct ds" and "set ds \<subseteq> set xs"
  shows "sum_list (map f (filter (\<lambda>x. x \<notin> set ds) xs)) = sum_list (map f xs) - sum_list (map f ds)"
proof -
  have "sum_list (map f (filter (\<lambda>x. x \<notin> set ds) xs)) = sum f (set xs - set ds)"
    using assms(1) by (simp add: sum_list_distinct_conv_sum_set set_diff_eq)
  also have "\<dots> = sum f (set xs) - sum f (set ds)"
    using assms(3) by (simp add: sum_diff)
  finally show ?thesis
    using assms(1,2) by (simp add: sum_list_distinct_conv_sum_set)
qed

lemma capacity_victims_distinct:
  assumes "distinct segs"
  shows "distinct (capacity_victims protected cap segs used)"
proof -
  have "distinct (victims skip cap segs u)" for skip u
    using victims_distinct [of id segs] assms by simp
  then show ?thesis
    using victims_subset [of "\<lambda>g. g \<in> set (victims (\<lambda>g. overlaps g protected) cap segs used)" cap segs]
    by (auto simp: capacity_victims_def Let_def)
qed

text \<open>If the cap is still exceeded after both passes, every segment in reach is gone.\<close>

lemma capacity_victims_exhaust:
  assumes "cap < used - sum_list (map seg_size (capacity_victims protected cap segs used))"
  shows "set (capacity_victims protected cap segs used) = set segs"
proof -
  let ?vs = "victims (\<lambda>g. overlaps g protected) cap segs used"
  let ?u = "used - sum_list (map seg_size ?vs)"
  have "\<not> ?u \<le> cap" using assms by (auto simp: capacity_victims_def Let_def split: if_splits)
  then have eq: "capacity_victims protected cap segs used
      = ?vs @ victims (\<lambda>g. g \<in> set ?vs) cap segs ?u"
    by (simp add: capacity_victims_def Let_def)
  have "cap < ?u - sum_list (map seg_size (victims (\<lambda>g. g \<in> set ?vs) cap segs ?u))"
    using assms unfolding eq by simp
  then have "victims (\<lambda>g. g \<in> set ?vs) cap segs ?u = filter (\<lambda>g. g \<notin> set ?vs) segs"
    by (rule victims_exhaust)
  moreover have "set ?vs \<subseteq> set segs" using victims_subset by blast
  ultimately show ?thesis unfolding eq by auto
qed

lemma total_after_delete:
  assumes keys: "distinct (map seg_id (n_segments db))"
    and ds: "distinct ds" "set ds \<subseteq> {g \<in> set (n_segments db). seg_camera g = cam}"
  shows "Segment_total_size_for_camera (fold (delete_segment dm) ds db) cam
       = Segment_total_size_for_camera db cam - sum_list (map seg_size ds)"
proof -
  have "set ds \<subseteq> set (n_segments db)" using ds(2) by blast
  note del = seg_rows.rows_fold_del_distinct [OF keys this, of dm]
  have d: "distinct (filter (\<lambda>g. seg_camera g = cam) (n_segments db))"
    using keys by (simp add: distinct_map)
  have "filter (\<lambda>g. seg_camera g = cam) (filter (\<lambda>x. x \<notin> set ds) (n_segments db))
      = filter (\<lambda>x. x \<notin> set ds) (filter (\<lambda>g. seg_camera g = cam) (n_segments db))"
    by (simp add: conj_commute)
  then show ?thesis
    using sum_list_remove [OF d ds(1), of seg_size] ds(2)
    by (simp add: Segment_total_size_for_camera_def del)
qed

lemma capacity_step_caps:
  assumes step: "capacity_step dm now (cam, pol) (n, warn, cache, db1) = (n', warn', cache', db2)"
    and ok: "cache_ok now db1 cache" and keys: "distinct (map seg_id (n_segments db1))"
    and pol: "pol_retention_max_bytes pol = Some cap" "0 < cap" "pol_over_capacity pol = OVER_DELETE_OLDEST"
    and few: "length (filter (\<lambda>g. seg_camera g = cam) (n_segments db1)) \<le> 5000"
  shows "Segment_total_size_for_camera db2 cam \<le> cap"
  using capacity_step_cases [OF step ok keys]
proof (elim disjE exE conjE)
  fix c assume "pol_retention_max_bytes pol = Some c" and
    db2: "db2 = fold (delete_segment dm)
      (capacity_victims (Recording_get_protected_intervals db1 now cam) c
         (Segment_oldest_for_camera db1 cam 5000) (Segment_total_size_for_camera db1 cam)) db1"
  with pol(1) have c: "c = cap" by simp
  let ?segs = "Segment_oldest_for_camera db1 cam 5000"
  let ?vs = "capacity_victims (Recording_get_protected_intervals db1 now cam) cap ?segs
    (Segment_total_size_for_camera db1 cam)"
  have segs: "?segs = sort_key seg_start (filter (\<lambda>g. seg_camera g = cam) (n_segments db1))"
    using few by (simp add: Segment_oldest_for_camera_def)
  have dsegs: "distinct ?segs" using distinct_ids_queries(1) [OF keys] by (simp add: distinct_map)
  have dist: "distinct ?vs" by (rule capacity_victims_distinct [OF dsegs])
  have tot: "Segment_total_size_for_camera db2 cam
      = Segment_total_size_for_camera db1 cam - sum_list (map seg_size ?vs)"
    unfolding db2 c
    by (rule total_after_delete [OF keys dist])
      (use capacity_victims_subset query_subsets(2) in blast)
  show ?thesis
  proof (rule ccontr)
    assume "\<not> Segment_total_size_for_camera db2 cam \<le> cap"
    then have "set ?vs = set ?segs" unfolding tot by (intro capacity_victims_exhaust) simp
    then have "sum_list (map seg_size ?vs) = sum_list (map seg_size ?segs)"
      using dist dsegs by (simp add: sum_list_distinct_conv_sum_set)
    also have "\<dots> = Segment_total_size_for_camera db1 cam"
      unfolding segs Segment_total_size_for_camera_def
      using sum_mset_sum_list by (metis (no_types, lifting) mset_map mset_sort sum_mset_sum_list)
    finally show False
      using \<open>\<not> _ \<le> cap\<close> pol(2) unfolding tot by simp
  qed
next
  assume "n_segments db2 = n_segments db1"
    and "\<forall>cap. pol_retention_max_bytes pol = Some cap \<and> cap \<noteq> 0 \<and> pol_over_capacity pol = OVER_DELETE_OLDEST
         \<longrightarrow> Segment_total_size_for_camera db1 cam \<le> cap"
  with pol show ?thesis by (simp add: Segment_total_size_for_camera_def)
qed

end
