(* ===== verification/RetentionProps.thy ===== *)
theory RetentionProps
  imports Retention
begin

text \<open>
  Properties of a whole retention run: the byte cap is reached, unprotected segments go before
  protected ones, aged segments go, stopping one camera leaves the others alone, and what a failed
  unlink leaves behind. The sample database at the end serves the witnesses.
\<close>

section \<open>The cap through the passes\<close>

lemma run_inv_self:
  assumes "cache_ok now db cache" and "distinct (map seg_id (n_segments db))"
  shows "run_inv (\<lambda>_. True) now db cache db"
  using assms by (simp add: run_inv_def evicts_frame)

lemma capacity_pass_caps:
  assumes pass: "capacity_pass dm now pols (n, warn, cache, db1) = (n', warn', cache', db2)"
    and mem: "(cam, pol) \<in> set pols"
    and ok: "cache_ok now db1 cache" and keys: "distinct (map seg_id (n_segments db1))"
    and pol: "pol_retention_max_bytes pol = Some cap" "0 < cap" "pol_over_capacity pol = OVER_DELETE_OLDEST"
    and few: "length (filter (\<lambda>g. seg_camera g = cam) (n_segments db1)) \<le> 5000"
    and sizes: "\<And>g. g \<in> set (n_segments db1) \<Longrightarrow> 0 \<le> seg_size g"
  shows "Segment_total_size_for_camera db2 cam \<le> cap"
  using pass mem ok keys few sizes
proof (induction pols arbitrary: n warn cache db1)
  case Nil
  then show ?case by simp
next
  case (Cons cp pols)
  obtain cam' pol' where cp: "cp = (cam', pol')" by fastforce
  obtain n1 w1 c1 dba where
    step: "capacity_step dm now (cam', pol') (n, warn, cache, db1) = (n1, w1, c1, dba)"
    using prod_cases4 by blast
  have rest: "capacity_pass dm now pols (n1, w1, c1, dba) = (n', warn', cache', db2)"
    using Cons.prems(1) by (simp add: capacity_pass_def cp step)
  have "run_inv (\<lambda>_. True) now db1 c1 dba"
    by (rule capacity_step_inv [OF run_inv_self [OF Cons.prems(3,4)] _ step]) simp
  then have ev: "evicts (\<lambda>_. True) db1 dba" and ok1: "cache_ok now dba c1"
    and keys1: "distinct (map seg_id (n_segments dba))" by (simp_all add: run_inv_def)
  have sizes1: "0 \<le> seg_size g" if "g \<in> set (n_segments dba)" for g
    using evictsD(3) [OF ev] Cons.prems(6) that by blast
  show ?case
  proof (cases "(cam, pol) \<in> set pols")
    case True
    then show ?thesis
      using Cons.IH [OF rest True ok1 keys1 _ sizes1] evicts_shrinks(1) [OF ev] Cons.prems(5)
      by (meson order_trans)
  next
    case False
    with Cons.prems(2) cp have "cp = (cam, pol)" by simp
    with cp step have "Segment_total_size_for_camera dba cam \<le> cap"
      using capacity_step_caps [OF _ Cons.prems(3,4) pol Cons.prems(5)] by simp
    moreover have "run_inv (\<lambda>_. True) now dba cache' db2"
      by (rule capacity_pass_inv [OF run_inv_self [OF ok1 keys1] _ rest]) simp
    then have "Segment_total_size_for_camera db2 cam \<le> Segment_total_size_for_camera dba cam"
      using sizes1 by (intro evicts_shrinks(2)) (auto simp: run_inv_def)
    ultimately show ?thesis by simp
  qed
qed

section \<open>Properties\<close>

text \<open>C7: a run of \<open>run_retention\<close> never deletes a segment that overlaps a protected or event
  recording of its camera, unless the camera's effective policy has a byte cap with the
  \<open>delete_oldest\<close> strategy; in particular the days pass and the disk-free watchdog never do.\<close>

theorem run_retention_keeps_protected:
  assumes keys: "distinct (map seg_id (n_segments db))"
    and g: "g \<in> set (n_segments db)" "in_protected_recording now db g"
    and nocap: "\<And>pol. (seg_camera g, pol) \<in> set (effective_policies db) \<Longrightarrow> \<not> capped pol"
  shows "g \<in> set (n_segments (snd (run_retention du hm now db)))"
proof -
  define P where "P = (\<lambda>h. \<not> protected_seg now db h \<or>
    (\<exists>pol. (seg_camera h, pol) \<in> set (effective_policies db) \<and> capped pol))"
  have P: "\<not> protected_seg now db h \<Longrightarrow> P h" for h by (simp add: P_def)
  obtain nd c1 db1 nc w c2 db2 nf w' c3 db3 where
    1: "days_pass (build_disk_map db) now (effective_policies db) (0, Map.empty, db) = (nd, c1, db1)"
    and 2: "capacity_pass (build_disk_map db) now (effective_policies db1) (0, [], c1, db1) = (nc, w, c2, db2)"
    and 3: "disk_pass du hm (build_disk_map db) now (disks_needing_rotation db2 0) (0, w, c2, db2)
       = (nf, w', c3, db3)"
    and run: "snd (run_retention du hm now db) = db3"
    by (rule run_retention_split)
  have i1: "run_inv P now db c1 db1" and pol: "n_policies db1 = n_policies db"
    using days_pass_inv [OF run_inv_start [OF keys] P 1] by auto
  have "effective_policies db1 = effective_policies db"
    using i1 pol by (intro effective_policies_cong) (auto simp: run_inv_def evicts_def)
  then have i2: "run_inv P now db c2 db2"
    by (intro capacity_pass_inv [OF i1 _ 2]) (auto simp: P_def)
  have "run_inv P now db c3 db3" by (rule disk_pass_inv [OF i2 P 3])
  moreover have "\<not> P g" using g(2) nocap by (auto simp: P_def protected_seg_iff)
  ultimately show ?thesis
    using evictsD(4) g(1) run by (auto simp: run_inv_def)
qed

text \<open>C8: the byte cap of a \<open>delete_oldest\<close> policy is a hard cap: after a run the stored bytes of
  every enabled camera under such a policy are within \<open>retention_max_bytes\<close>, even when all its
  segments are protected, as long as the camera has at most 5000 segments (the query's limit).\<close>

theorem run_retention_hard_cap:
  assumes keys: "distinct (map seg_id (n_segments db))"
    and sizes: "\<And>g. g \<in> set (n_segments db) \<Longrightarrow> 0 \<le> seg_size g"
    and mem: "(cam, pol) \<in> set (effective_policies db)"
    and pol: "pol_retention_max_bytes pol = Some cap" "0 < cap" "pol_over_capacity pol = OVER_DELETE_OLDEST"
    and few: "length (filter (\<lambda>g. seg_camera g = cam) (n_segments db)) \<le> 5000"
  shows "Segment_total_size_for_camera (snd (run_retention du hm now db)) cam \<le> cap"
proof -
  obtain nd c1 db1 nc w c2 db2 nf w' c3 db3 where
    1: "days_pass (build_disk_map db) now (effective_policies db) (0, Map.empty, db) = (nd, c1, db1)"
    and 2: "capacity_pass (build_disk_map db) now (effective_policies db1) (0, [], c1, db1) = (nc, w, c2, db2)"
    and 3: "disk_pass du hm (build_disk_map db) now (disks_needing_rotation db2 0) (0, w, c2, db2)
       = (nf, w', c3, db3)"
    and run: "snd (run_retention du hm now db) = db3"
    by (rule run_retention_split)
  have i1: "run_inv (\<lambda>_. True) now db c1 db1" and p1: "n_policies db1 = n_policies db"
    using days_pass_inv [OF run_inv_start [OF keys] _ 1] by auto
  then have ev1: "evicts (\<lambda>_. True) db db1" and ok1: "cache_ok now db1 c1"
    and keys1: "distinct (map seg_id (n_segments db1))" by (simp_all add: run_inv_def)
  have sizes1: "0 \<le> seg_size g" if "g \<in> set (n_segments db1)" for g
    using evictsD(3) [OF ev1] sizes that by blast
  have mem1: "(cam, pol) \<in> set (effective_policies db1)"
    using mem effective_policies_cong [OF p1 evictsD(2) [OF ev1]] by simp
  have few1: "length (filter (\<lambda>g. seg_camera g = cam) (n_segments db1)) \<le> 5000"
    using evicts_shrinks(1) [OF ev1] few by (meson order_trans)
  have le: "Segment_total_size_for_camera db2 cam \<le> cap"
    by (rule capacity_pass_caps [OF 2 mem1 ok1 keys1 pol few1 sizes1])
  have i2: "run_inv (\<lambda>_. True) now db1 c2 db2"
    by (rule capacity_pass_inv [OF run_inv_self [OF ok1 keys1] _ 2]) simp
  then have "run_inv (\<lambda>_. True) now db2 c2 db2" by (simp add: run_inv_def evicts_frame)
  then have ev3: "run_inv (\<lambda>_. True) now db2 c3 db3" using disk_pass_inv [OF _ _ 3] by simp
  have "Segment_total_size_for_camera db3 cam \<le> Segment_total_size_for_camera db2 cam"
    using ev3 i2 sizes1 evictsD(3) [of "\<lambda>_. True" db1 db2]
    by (intro evicts_shrinks(2)) (auto simp: run_inv_def)
  with le run show ?thesis by simp
qed

text \<open>C9: the two sweeps over a camera's oldest segments spare protected segments as long as they
  can: if \<open>evict_oldest\<close> deletes a segment that overlaps a protected interval, then it has
  deleted every unprotected segment it was given.\<close>

theorem evict_oldest_unprotected_first:
  assumes keys: "distinct (map seg_id (n_segments db))" and "distinct (map seg_id segs)"
    and sub: "set segs \<subseteq> set (n_segments db)"
    and ev: "evict_oldest dm protected cap segs used n db = (n', db')"
    and g: "g \<in> set segs" "overlaps g protected" "g \<notin> set (n_segments db')"
    and h: "h \<in> set segs" "\<not> overlaps h protected"
  shows "h \<notin> set (n_segments db')"
proof -
  let ?vs = "victims (\<lambda>g. overlaps g protected) cap segs used"
  let ?cv = "capacity_victims protected cap segs used"
  have db': "db' = fold (delete_segment dm) ?cv db"
    using ev by (simp add: evict_oldest_eq [OF assms(2)])
  have "set ?cv \<subseteq> set (n_segments db)" using capacity_victims_subset sub by blast
  note del = seg_rows.rows_fold_del_distinct [OF keys this, of dm]
  have "g \<in> set ?cv" using g sub by (auto simp: db' del)
  moreover have "g \<notin> set ?vs" using victims_subset [of "\<lambda>g. overlaps g protected"] g(2) by blast
  ultimately have over: "cap < used - sum_list (map seg_size ?vs)"
    by (auto simp: capacity_victims_def Let_def split: if_splits)
  then have "?vs = filter (\<lambda>g. \<not> overlaps g protected) segs" by (rule victims_exhaust)
  with h have "h \<in> set ?vs" by simp
  then have "h \<in> set ?cv" by (auto simp: capacity_victims_def Let_def)
  then show ?thesis by (simp add: db' del)
qed

lemma days_pass_deletes:
  assumes pass: "days_pass dm now pols (n, cache, db1) = (n', cache', db2)"
    and mem: "(cam, pol) \<in> set pols" and days: "pol_retention_days pol = Some days" "days \<noteq> 0"
    and inv: "cache_ok now db1 cache" "distinct (map seg_id (n_segments db1))"
    and few: "length (filter (\<lambda>h. seg_camera h = cam \<and> seg_end h < now - days * day_ms)
                (n_segments db1)) \<le> 2000"
    and g: "seg_camera g = cam" "seg_end g < now - days * day_ms" "\<not> protected_seg now db1 g"
  shows "g \<notin> set (n_segments db2)"
  using pass mem inv few g(3)
proof (induction pols arbitrary: n cache db1)
  case Nil
  then show ?case by simp
next
  case (Cons cp pols)
  obtain cam' pol' where cp: "cp = (cam', pol')" by fastforce
  obtain n1 c1 dba where step: "days_step dm now (cam', pol') (n, cache, db1) = (n1, c1, dba)"
    using prod_cases3 by blast
  have rest: "days_pass dm now pols (n1, c1, dba) = (n', cache', db2)"
    using Cons.prems(1) by (simp add: days_pass_def cp step)
  have i1: "run_inv (\<lambda>_. True) now db1 c1 dba"
    using days_step_inv [OF run_inv_self [OF Cons.prems(3,4)] _ step] by simp
  then have ev: "evicts (\<lambda>_. True) db1 dba" and ok1: "cache_ok now dba c1"
    and keys1: "distinct (map seg_id (n_segments dba))" by (simp_all add: run_inv_def)
  show ?case
  proof (cases "(cam, pol) \<in> set pols")
    case True
    then show ?thesis
      using Cons.IH [OF rest True ok1 keys1] evicts_shrinks(1) [OF ev] Cons.prems(5,6)
        run_inv_protected(2) [OF i1] by (meson order_trans)
  next
    case False
    with Cons.prems(2) cp have eq: "cam' = cam" "pol' = pol" by auto
    obtain v c where c: "cached_intervals now db1 cache cam = (v, c)" by fastforce
    note v = cached_intervalsD [OF c Cons.prems(3)]
    let ?old = "Segment_older_than db1 cam (now - days * day_ms) 2000"
    have dba: "dba = fold (delete_segment dm) (filter (\<lambda>g. \<not> overlaps g v) ?old) db1"
      using step days c eq by (auto simp: days_step_def days_loop_eq)
    have old: "set ?old = {h \<in> set (n_segments db1). seg_camera h = cam \<and> seg_end h < now - days * day_ms}"
      using Cons.prems(5) by (simp add: Segment_older_than_def)
    have "g \<notin> set (n_segments dba)"
    proof
      assume "g \<in> set (n_segments dba)"
      then have "g \<in> set (n_segments db1)" and "seg_id g \<notin> seg_id ` set (filter (\<lambda>g. \<not> overlaps g v) ?old)"
        by (simp_all add: dba seg_rows.rows_fold_del)
      with g(1,2) Cons.prems(6) show False
        by (auto simp: old v protected_seg_def)
    qed
    moreover have "set (n_segments db2) \<subseteq> set (n_segments dba)"
      using days_pass_inv [OF run_inv_self [OF ok1 keys1] _ rest]
      by (auto simp: run_inv_def dest: evictsD(3))
    ultimately show ?thesis by blast
  qed
qed

text \<open>The days pass does its work: after a run, no unprotected segment of an enabled camera
  is older than the camera's \<open>retention_days\<close>, provided at most 2000 are (the query's limit).\<close>

theorem run_retention_ages_out:
  assumes keys: "distinct (map seg_id (n_segments db))"
    and mem: "(cam, pol) \<in> set (effective_policies db)"
    and days: "pol_retention_days pol = Some days" "days \<noteq> 0"
    and few: "length (filter (\<lambda>h. seg_camera h = cam \<and> seg_end h < now - days * day_ms)
                (n_segments db)) \<le> 2000"
    and g: "seg_camera g = cam" "seg_end g < now - days * day_ms" "\<not> in_protected_recording now db g"
  shows "g \<notin> set (n_segments (snd (run_retention du hm now db)))"
proof -
  obtain nd c1 db1 nc w c2 db2 nf w' c3 db3 where
    1: "days_pass (build_disk_map db) now (effective_policies db) (0, Map.empty, db) = (nd, c1, db1)"
    and 2: "capacity_pass (build_disk_map db) now (effective_policies db1) (0, [], c1, db1) = (nc, w, c2, db2)"
    and 3: "disk_pass du hm (build_disk_map db) now (disks_needing_rotation db2 0) (0, w, c2, db2)
       = (nf, w', c3, db3)"
    and run: "snd (run_retention du hm now db) = db3"
    by (rule run_retention_split)
  have gone: "g \<notin> set (n_segments db1)"
    by (rule days_pass_deletes [OF 1 mem days _ keys few g(1,2)]) (use g(3) in \<open>simp_all add: cache_ok_def protected_seg_iff\<close>)
  have i1: "run_inv (\<lambda>_. True) now db c1 db1"
    using days_pass_inv [OF run_inv_start [OF keys] _ 1] by simp
  then have i1': "run_inv (\<lambda>_. True) now db1 c1 db1" by (simp add: run_inv_def evicts_frame)
  have i2: "run_inv (\<lambda>_. True) now db1 c2 db2" by (rule capacity_pass_inv [OF i1' _ 2]) simp
  then have "run_inv (\<lambda>_. True) now db1 c3 db3" by (rule disk_pass_inv [OF _ _ 3]) simp
  then show ?thesis using gone run by (auto simp: run_inv_def dest: evictsD(3))
qed

lemma get_for_camera_update_other:
  assumes "StoragePolicy_get_raw_for_camera db cam = Some row"
    and "distinct (map pol_id (n_policies db))" and "c \<noteq> cam"
    and "\<And>q. pol_camera (f q) = pol_camera q" "\<And>q. pol_deleted (f q) = pol_deleted q"
  shows "StoragePolicy_get_for_camera (update_policy db (pol_id row) f) c
       = StoragePolicy_get_for_camera db c"
proof -
  have row: "row \<in> set (n_policies db)" "pol_camera row = Some cam"
    using first_row_SomeD [OF assms(1) [unfolded StoragePolicy_get_raw_for_camera_def]] by auto
  have same: "p = row" if "p \<in> set (n_policies db)" "pol_id p = pol_id row" for p
    using assms(2) that row(1) by (auto simp: distinct_map inj_on_def)
  have other: "filter P (map (\<lambda>p. if pol_id p = pol_id row then f p else p) (n_policies db))
      = filter P (n_policies db)"
    if P: "\<And>p. pol_camera p = Some cam \<Longrightarrow> \<not> P p" for P
    using P row(2) assms(4) same by (intro filter_upd_other) metis
  show ?thesis
    unfolding StoragePolicy_get_for_camera_def StoragePolicy_get_raw_for_camera_def
      StoragePolicy_get_global_def update_policy_def
    using other [of "\<lambda>p. pol_camera p = Some c \<and> pol_deleted p = None"]
      other [of "\<lambda>p. pol_camera p = None \<and> pol_deleted p = None"] assms(3)
    by (simp cong: option.case_cong)
qed

text \<open>The \<open>stop_recording\<close> strategy switches off exactly one camera: afterwards that camera's
  effective policy says \<open>off\<close>, and the effective policy of every other camera is the row it was,
  also when the stopped camera inherited the shared global policy.\<close>

theorem stop_recording_isolated:
  assumes "StoragePolicy_get_for_camera db cam = Some pol"
    and "distinct (map pol_id (n_policies db))"
  shows "map_option pol_record_mode (StoragePolicy_get_for_camera (stop_recording db cam pol) cam)
           = Some RECORD_OFF \<and>
         (\<forall>c. c \<noteq> cam \<longrightarrow> StoragePolicy_get_for_camera (stop_recording db cam pol) c
                = StoragePolicy_get_for_camera db c)"
proof (cases "StoragePolicy_get_raw_for_camera db cam")
  case None
  then show ?thesis
    by (auto simp: stop_recording_def StoragePolicy_get_for_camera_def default_policy_def
        StoragePolicy_get_raw_for_camera_def StoragePolicy_get_global_def first_row_append
        cong: option.case_cong)
next
  case (Some row)
  let ?f = "\<lambda>p. p\<lparr>pol_record_mode := RECORD_OFF\<rparr>"
  have stop: "stop_recording db cam pol = update_policy db (pol_id row) ?f"
    using Some by (simp add: stop_recording_def)
  have "StoragePolicy_get_raw_for_camera (update_policy db (pol_id row) ?f) cam = Some (?f row)"
    using first_row_filter_upd [OF Some [unfolded StoragePolicy_get_raw_for_camera_def],
        where f = ?f and key = pol_id]
    by (simp add: StoragePolicy_get_raw_for_camera_def update_policy_def)
  then show ?thesis
    using get_for_camera_update_other [OF Some assms(2), of _ ?f]
    by (simp add: stop StoragePolicy_get_for_camera_def)
qed

text \<open>When the unlink fails with an OSError other than file-not-found, \<open>delete_segment\<close> still
  deletes the index row, so the file stays on the disk with no row that names it.\<close>

theorem delete_segment_orphans_locked_file:
  assumes "dm (seg_disk g) = Some d" and "abs_path d (seg_rel_path g) \<in> set (n_files db)"
    and "abs_path d (seg_rel_path g) \<in> set (n_locked db)"
  shows "abs_path d (seg_rel_path g) \<in> set (n_files (delete_segment dm g db))
       \<and> Segment_get_by_id (delete_segment dm g db) (seg_id g) = None"
  using assms
  by (simp add: Segment_get_by_id_def delete_segment_segments)
     (simp add: delete_segment_def unlink_logged_def Segment_delete_row_def)

section \<open>Witnesses\<close>

definition sample_segment :: "db_id \<Rightarrow> ts \<Rightarrow> segment" where
  "sample_segment i start =
     \<lparr>seg_id = i, seg_camera = 1, seg_disk = 5, seg_rel_path = ''1/a'', seg_start = start,
      seg_end = start + 10000, seg_duration_ms = 10000, seg_size = 60, seg_container = ''mpegts'',
      seg_video_codec = None, seg_has_audio = False, seg_width = None, seg_height = None,
      seg_first_keyframe_ms = 0, seg_reason = SEG_REASON_CONTINUOUS, seg_tier = TIER_RECORD,
      seg_role = ''main'', seg_corrupt = False\<rparr>"

lemma sample_segment_sel [simp]:
  "seg_id (sample_segment i t) = i" "seg_start (sample_segment i t) = t"
  "seg_end (sample_segment i t) = t + 10000" "seg_size (sample_segment i t) = 60"
  "seg_camera (sample_segment i t) = 1"
  "sample_segment i t = sample_segment j u \<longleftrightarrow> i = j \<and> t = u"
  by (auto simp: sample_segment_def)

definition sample_recording :: "ts \<Rightarrow> ts \<Rightarrow> recording" where
  "sample_recording start stop =
     \<lparr>rec_id = 70, rec_camera = 1, rec_reason = REASON_EVENT, rec_class = CLASS_EVENT,
      rec_start = start, rec_end = Some stop, rec_planned_end = None, rec_created_by = None,
      rec_note = None, rec_deleted = None\<rparr>"

text \<open>Camera 1 with an old unprotected segment, an old protected one and a recent one, under a
  global policy of one day with a cap of 100 bytes.\<close>

definition sample_store :: "string \<Rightarrow> nvr" where
  "sample_store over =
     sample_db\<lparr>n_segments := [sample_segment 31 0, sample_segment 32 100000, sample_segment 33 200000000],
       n_recordings := [sample_recording 100000 105000],
       n_policies := [(default_policy 9 None)\<lparr>pol_retention_days := Some 1,
                        pol_retention_max_bytes := Some 100, pol_over_capacity := over\<rparr>],
       n_cameras := [\<lparr>cam_id = 1, cam_uuid = ''u'', cam_name = ''c'', cam_enabled = True,
                       cam_deleted = None\<rparr>],
       n_files := [''/mnt/1/a''], n_locked := [''/mnt/1/a'']\<rparr>"

lemmas sample_store_defs = sample_store_def sample_defs sample_segment_def sample_recording_def
  default_policy_def storage_consts

lemma sample_store_policies:
  "effective_policies (sample_store over) =
     [(1, (default_policy 9 None)\<lparr>pol_retention_days := Some 1,
            pol_retention_max_bytes := Some 100, pol_over_capacity := over\<rparr>)]"
  by (simp add: effective_policies_def Camera_get_all_enabled_def StoragePolicy_get_for_camera_def
      StoragePolicy_get_raw_for_camera_def StoragePolicy_get_global_def List.map_filter_def
      sample_store_defs)

lemma sample_store_keys: "distinct (map seg_id (n_segments (sample_store over)))"
  by (simp add: sample_store_defs)

theorem run_retention_keeps_protected_witness:
  "sample_segment 32 100000 \<in> set (n_segments (snd (run_retention (\<lambda>_ _. Some (1000, 5)) 50 300000000
     (sample_store OVER_WARN))))"
proof -
  have "sample_segment 32 100000 \<in> set (n_segments (sample_store OVER_WARN))"
    by (simp add: sample_store_defs)
  moreover have "in_protected_recording 300000000 (sample_store OVER_WARN) (sample_segment 32 100000)"
    by (simp add: in_protected_recording_def sample_store_defs)
  moreover have "\<not> capped pol"
    if "(seg_camera (sample_segment 32 100000), pol) \<in> set (effective_policies (sample_store OVER_WARN))"
    for pol
    using that by (simp add: sample_store_policies capped_def) (simp add: sample_store_defs)
  ultimately show ?thesis
    using run_retention_keeps_protected [OF sample_store_keys] by blast
qed

theorem run_retention_hard_cap_witness:
  "Segment_total_size_for_camera (snd (run_retention (\<lambda>_ _. None) 50 0
     (sample_store OVER_DELETE_OLDEST))) 1 \<le> 100"
  by (rule run_retention_hard_cap [OF sample_store_keys, where pol =
        "(default_policy 9 None)\<lparr>pol_retention_days := Some 1,
            pol_retention_max_bytes := Some 100, pol_over_capacity := OVER_DELETE_OLDEST\<rparr>"])
     (auto simp: sample_store_policies, auto simp: sample_store_defs)

theorem evict_oldest_unprotected_first_witness:
  "sample_segment 31 0 \<notin> set (n_segments (snd (evict_oldest Map.empty [(100000, 105000)] 10
     [sample_segment 31 0, sample_segment 32 100000] 120 0 (sample_store OVER_WARN))))"
proof -
  let ?db = "sample_store OVER_WARN" and ?segs = "[sample_segment 31 0, sample_segment 32 100000]"
  obtain n' db' where e: "evict_oldest Map.empty [(100000, 105000)] 10 ?segs 120 0 ?db = (n', db')"
    by fastforce
  have d: "distinct (map seg_id ?segs)" and s: "set ?segs \<subseteq> set (n_segments ?db)"
    by (simp_all add: sample_store_defs)
  have db': "db' = fold (delete_segment Map.empty)
      (capacity_victims [(100000, 105000)] 10 ?segs 120) ?db"
    using e by (simp add: evict_oldest_eq [OF d])
  have "sample_segment 32 100000 \<notin> set (n_segments db')"
    unfolding db' by (simp add: capacity_victims_def seg_rows.rows_fold_del delete_segment_segments
        Let_def overlaps_def)
  with evict_oldest_unprotected_first [OF sample_store_keys d s e, of "sample_segment 32 100000"
      "sample_segment 31 0"]
  have "sample_segment 31 0 \<notin> set (n_segments db')" by (simp add: overlaps_def)
  with e show ?thesis by simp
qed

theorem run_retention_ages_out_witness:
  "sample_segment 31 0 \<notin> set (n_segments (snd (run_retention (\<lambda>_ _. None) 50 300000000
     (sample_store OVER_WARN))))"
  by (rule run_retention_ages_out [OF sample_store_keys, where cam = 1 and days = 1 and pol =
        "(default_policy 9 None)\<lparr>pol_retention_days := Some 1,
            pol_retention_max_bytes := Some 100, pol_over_capacity := OVER_WARN\<rparr>"])
     (simp_all add: sample_store_policies in_protected_recording_def day_ms_def, simp_all add: sample_store_defs)

theorem stop_recording_isolated_witness:
  "StoragePolicy_get_for_camera (stop_recording (sample_store OVER_STOP) 1
      ((default_policy 9 None)\<lparr>pol_retention_days := Some 1,
            pol_retention_max_bytes := Some 100, pol_over_capacity := OVER_STOP\<rparr>)) 2
   = StoragePolicy_get_for_camera (sample_store OVER_STOP) 2"
  using stop_recording_isolated [of "sample_store OVER_STOP" 1
      "(default_policy 9 None)\<lparr>pol_retention_days := Some 1,
            pol_retention_max_bytes := Some 100, pol_over_capacity := OVER_STOP\<rparr>"]
  by (simp add: StoragePolicy_get_for_camera_def StoragePolicy_get_raw_for_camera_def
      StoragePolicy_get_global_def sample_store_defs)

theorem delete_segment_orphans_locked_file_witness:
  "''/mnt/1/a'' \<in> set (n_files (delete_segment [5 \<mapsto> sample_disk 5 ROLE_RECORD 900] (sample_segment 31 0)
      (sample_store OVER_WARN)))"
proof -
  have p: "abs_path (sample_disk 5 ROLE_RECORD 900) (seg_rel_path (sample_segment 31 0)) = ''/mnt/1/a''"
    by (simp add: abs_path_def path_join_def sample_store_defs)
  show ?thesis
    using delete_segment_orphans_locked_file [of "[5 \<mapsto> sample_disk 5 ROLE_RECORD 900]"
        "sample_segment 31 0" "sample_disk 5 ROLE_RECORD 900" "sample_store OVER_WARN"]
    unfolding p by (simp add: sample_store_defs)
qed

end
