(* ===== verification/Redis.thy ===== *)
theory Redis
  imports PyVal
begin

text \<open>
  The Redis server the services talk to is a parameter: a record of the commands they use over an
  arbitrary server state. A command that raises (connection lost, server down) is \<open>None\<close>. What the
  callers rely on is the documented behaviour of the commands, \<open>redis_laws\<close>; keys expire between
  commands, which is a change of the state that no command makes.
\<close>

record 'r redis =
  rd_get :: "string \<Rightarrow> 'r \<Rightarrow> string option option"
  rd_exists :: "string \<Rightarrow> 'r \<Rightarrow> nat option"
  rd_setex :: "string \<Rightarrow> int \<Rightarrow> string \<Rightarrow> 'r \<Rightarrow> 'r option"
  rd_set_nx :: "string \<Rightarrow> string \<Rightarrow> int \<Rightarrow> 'r \<Rightarrow> (bool \<times> 'r) option"
  rd_incr :: "string \<Rightarrow> 'r \<Rightarrow> (int \<times> 'r) option"
  rd_expire :: "string \<Rightarrow> int \<Rightarrow> 'r \<Rightarrow> 'r option"
  rd_delete :: "string \<Rightarrow> 'r \<Rightarrow> 'r option"

text \<open>
  The named hypothesis on the server: \<open>view s k\<close> is the string stored under \<open>k\<close>. Every clause
  speaks only of commands that succeed.
\<close>

definition redis_laws :: "'r redis \<Rightarrow> ('r \<Rightarrow> string \<Rightarrow> string option) \<Rightarrow> bool" where
  "redis_laws R view \<longleftrightarrow>
     (\<forall>k s x. rd_get R k s = Some x \<longrightarrow> x = view s k)
   \<and> (\<forall>k s n. rd_exists R k s = Some n \<longrightarrow> n = (if view s k = None then 0 else 1))
   \<and> (\<forall>k t v s s'. rd_setex R k t v s = Some s' \<longrightarrow> 0 < t \<and> view s' = (view s)(k \<mapsto> v))
   \<and> (\<forall>k v t s b s'. rd_set_nx R k v t s = Some (b, s') \<longrightarrow>
        b = (view s k = None) \<and> view s' = (if b then (view s)(k \<mapsto> v) else view s))
   \<and> (\<forall>k s n s'. rd_incr R k s = Some (n, s') \<longrightarrow>
        (\<exists>m. (case view s k of None \<Rightarrow> m = 0 | Some v \<Rightarrow> int_of_string v = Some m)
             \<and> n = m + 1 \<and> view s' = (view s)(k \<mapsto> str_of_int n)))
   \<and> (\<forall>k t s s'. rd_expire R k t s = Some s' \<longrightarrow> view s' = view s)
   \<and> (\<forall>k s s'. rd_delete R k s = Some s' \<longrightarrow> view s' = (view s)(k := None))"

lemma redis_lawsD:
  assumes "redis_laws R view"
  shows "rd_get R k s = Some x \<Longrightarrow> x = view s k"
    and "rd_exists R k s = Some c \<Longrightarrow> c = (if view s k = None then 0 else 1)"
    and "rd_setex R k t v s = Some s' \<Longrightarrow> view s' = (view s)(k \<mapsto> v)"
    and "rd_set_nx R k v t s = Some (b, s') \<Longrightarrow>
           b = (view s k = None) \<and> view s' = (if b then (view s)(k \<mapsto> v) else view s)"
    and "rd_incr R k s = Some (n, s') \<Longrightarrow>
           \<exists>m. (case view s k of None \<Rightarrow> m = 0 | Some v \<Rightarrow> int_of_string v = Some m)
               \<and> n = m + 1 \<and> view s' = (view s)(k \<mapsto> str_of_int n)"
    and "rd_expire R k t s = Some s' \<Longrightarrow> view s' = view s"
    and "rd_delete R k s = Some s' \<Longrightarrow> view s' = (view s)(k := None)"
  using assms by (simp_all add: redis_laws_def)

section \<open>An in-memory server\<close>

text \<open>A server that is up and holds its keys in a list, to show that the laws can hold.\<close>

type_synonym mem = "(string \<times> string) list"

definition mem_put :: "string \<Rightarrow> string \<Rightarrow> mem \<Rightarrow> mem" where
  "mem_put k v m = (k, v) # m"

definition mem_redis :: "mem redis" where
  "mem_redis = \<lparr>
     rd_get = (\<lambda>k m. Some (map_of m k)),
     rd_exists = (\<lambda>k m. Some (if map_of m k = None then 0 else 1)),
     rd_setex = (\<lambda>k t v m. if 0 < t then Some (mem_put k v m) else None),
     rd_set_nx = (\<lambda>k v t m. if map_of m k = None then Some (True, mem_put k v m) else Some (False, m)),
     rd_incr = (\<lambda>k m. case map_of m k of
         None \<Rightarrow> Some (1, mem_put k (str_of_int 1) m)
       | Some v \<Rightarrow> (case int_of_string v of
             None \<Rightarrow> None | Some i \<Rightarrow> Some (i + 1, mem_put k (str_of_int (i + 1)) m))),
     rd_expire = (\<lambda>k t m. Some m),
     rd_delete = (\<lambda>k m. Some (filter (\<lambda>kv. fst kv \<noteq> k) m)) \<rparr>"

lemma map_of_filter_ne: "map_of (filter (\<lambda>kv. fst kv \<noteq> k) m) = (map_of m)(k := None)"
  by (induction m) auto

lemma mem_redis_laws: "redis_laws mem_redis map_of"
  unfolding redis_laws_def
  by (auto simp: mem_redis_def mem_put_def map_of_filter_ne split: option.splits if_splits)

section \<open>Fixed-window rate limiting\<close>

text \<open>
  The counter of \<open>share_link.rate_limit_ok\<close>, \<open>pairing_code.rate_limit_ok\<close> and
  \<open>api_token.check_rate_limit\<close>: increment, set the expiry on the first hit, compare. An exception of
  either command lets the attempt pass.
\<close>

definition fixed_window :: "'r redis \<Rightarrow> string \<Rightarrow> int \<Rightarrow> int \<Rightarrow> 'r \<Rightarrow> bool \<times> 'r" where
  "fixed_window R key limit ttl r =
     (case rd_incr R key r of
        None \<Rightarrow> (True, r)
      | Some (n, r1) \<Rightarrow>
          if n = 1 then (case rd_expire R key ttl r1 of None \<Rightarrow> (True, r1) | Some r2 \<Rightarrow> (n \<le> limit, r2))
          else (n \<le> limit, r1))"

text \<open>What the window has counted, and a server that is up for this key.\<close>

definition window_hits :: "('r \<Rightarrow> string \<Rightarrow> string option) \<Rightarrow> string \<Rightarrow> 'r \<Rightarrow> int" where
  "window_hits view key r = (case view r key of None \<Rightarrow> 0 | Some v \<Rightarrow> (case int_of_string v of None \<Rightarrow> 0 | Some n \<Rightarrow> n))"

definition window_up :: "'r redis \<Rightarrow> ('r \<Rightarrow> string \<Rightarrow> string option) \<Rightarrow> string \<Rightarrow> 'r \<Rightarrow> bool" where
  "window_up R view key r \<longleftrightarrow>
     redis_laws R view
   \<and> (\<forall>r'. (case view r' key of None \<Rightarrow> True | Some v \<Rightarrow> int_of_string v \<noteq> None) \<longrightarrow> rd_incr R key r' \<noteq> None)
   \<and> (\<forall>r' t. rd_expire R key t r' \<noteq> None)
   \<and> (case view r key of None \<Rightarrow> True | Some v \<Rightarrow> int_of_string v \<noteq> None)"

lemma fixed_window_counted:
  assumes "window_up R view key r" and "fixed_window R key limit ttl r = (ok, r')"
  shows "window_up R view key r' \<and> window_hits view key r' = window_hits view key r + 1
       \<and> ok = (window_hits view key r + 1 \<le> limit)"
proof -
  note laws = assms(1) [unfolded window_up_def, THEN conjunct1]
  obtain n r1 where inc: "rd_incr R key r = Some (n, r1)"
    using assms(1) unfolding window_up_def by fastforce
  obtain m where m: "case view r key of None \<Rightarrow> m = 0 | Some v \<Rightarrow> int_of_string v = Some m"
    and n: "n = m + 1" and v1: "view r1 = (view r)(key \<mapsto> str_of_int n)"
    using redis_lawsD(5) [OF laws inc] by blast
  have hits: "window_hits view key r = m" using m by (auto simp: window_hits_def split: option.splits)
  have vw: "view r' = view r1" and ok: "ok = (n \<le> limit)"
  proof -
    obtain r2 where ex: "rd_expire R key ttl r1 = Some r2" using assms(1) unfolding window_up_def by fastforce
    then show "view r' = view r1" "ok = (n \<le> limit)"
      using assms(2) inc redis_lawsD(6) [OF laws ex] by (auto simp: fixed_window_def split: if_splits)
  qed
  have "window_hits view key r' = n" by (simp add: window_hits_def vw v1)
  moreover have "window_up R view key r'"
    using assms(1) unfolding window_up_def by (simp add: vw v1)
  ultimately show ?thesis using hits n ok by simp
qed

lemma mem_window_up: "window_up mem_redis map_of key []"
  unfolding window_up_def
  by (intro conjI mem_redis_laws) (simp_all add: mem_redis_def split: option.splits)

text \<open>
  The interface shared by the limiters of \<open>api_token\<close>, \<open>pairing_code\<close> and \<open>share_link\<close>: an attempt
  is counted under a key, and it passes while the count is within the limit. \<open>hits\<close> is what the
  window has counted so far.
\<close>

locale fixed_window_limiter =
  fixes attempt :: "'s \<Rightarrow> bool \<times> 's"
    and hits :: "'s \<Rightarrow> int"
    and limit :: int
    and counting :: "'s \<Rightarrow> bool"
  assumes counted: "counting s \<Longrightarrow> attempt s = (ok, s') \<Longrightarrow>
                      counting s' \<and> hits s' = hits s + 1 \<and> ok = (hits s + 1 \<le> limit)"
begin

primrec attempts :: "nat \<Rightarrow> 's \<Rightarrow> bool list" where
  "attempts 0 s = []"
| "attempts (Suc n) s = (case attempt s of (ok, s') \<Rightarrow> ok # attempts n s')"

lemma attempts_nth:
  assumes "counting s" and "i < n"
  shows "attempts n s ! i = (hits s + int i < limit)"
  using assms
proof (induction n arbitrary: s i)
  case 0
  then show ?case by simp
next
  case (Suc n)
  obtain ok s' where a: "attempt s = (ok, s')" by fastforce
  from counted [OF Suc.prems(1) a] Suc.IH [of s'] Suc.prems(2) show ?case
    by (cases i) (auto simp: a)
qed

text \<open>In one window at most \<open>limit\<close> attempts pass: exactly the first ones.\<close>

lemma passed_bound:
  assumes "counting s" and "hits s = 0"
  shows "length (filter id (attempts n s)) \<le> nat (max 0 limit)"
proof -
  have len: "length (attempts m t) = m" for m t
    by (induction m arbitrary: t) (auto split: prod.splits)
  have "filter id (attempts n s) = filter id (take (nat (max 0 limit)) (attempts n s))"
  proof -
    have "filter id (drop (nat (max 0 limit)) (attempts n s)) = []"
      using assms by (auto simp: filter_empty_conv in_set_conv_nth len attempts_nth)
    then show ?thesis
      by (metis append.right_neutral append_take_drop_id filter_append)
  qed
  also have "length \<dots> \<le> nat (max 0 limit)"
    by (metis length_filter_le length_take min.bounded_iff order_trans)
  finally show ?thesis .
qed

end

end
