(* ===== verification/Users.thy ===== *)
theory Users
  imports PyVal "HOL-Library.Char_ord" "HOL-Library.List_Lexorder"
begin

text \<open>
  Users, roles and the RBAC resolution: \<open>server/model/user.py\<close> (lockout and token version) and
  \<open>server/service/permission.py\<close>.

  A permission map is a JSON object. Its values are read in two ways only: a list of action names
  (\<open>Actions\<close>), a per-object scope map (\<open>Scope\<close>, for \<open>camera_scope\<close> and \<open>dashboard_scope\<close>); any other
  JSON value is ignored by the code and is \<open>Other\<close>.
\<close>

section \<open>Users and roles\<close>

datatype perm_value = Actions "string list" | Scope "(string \<times> string list) list" | Other

type_synonym perm_map = "(string \<times> perm_value) list"

record role =
  role_name :: string
  role_permissions :: perm_map

record user =
  u_id :: db_id
  u_uuid :: string
  u_login_id :: string
  u_password :: string
  u_role :: "role option"
  u_permissions :: perm_map
  u_is_active :: bool
  u_failed_login_count :: int
  u_locked_until :: "ts option"
  u_last_login_at :: "ts option"
  u_token_version :: int
  u_deleted_at :: "ts option"

definition is_locked :: "ts \<Rightarrow> user \<Rightarrow> bool" where
  "is_locked now u = (case u_locked_until u of None \<Rightarrow> False | Some t \<Rightarrow> t > now)"

text \<open>\<open>register_failed_login\<close>: the new row, and whether the account is now locked.\<close>

definition register_failed_login :: "ts \<Rightarrow> int \<Rightarrow> int \<Rightarrow> user \<Rightarrow> bool \<times> user" where
  "register_failed_login now max_failed lock_minutes u =
     (let n = u_failed_login_count u + 1 in
      if n \<ge> max_failed
      then (True, u\<lparr>u_failed_login_count := 0, u_locked_until := Some (now + lock_minutes * 60000)\<rparr>)
      else (False, u\<lparr>u_failed_login_count := n\<rparr>))"

definition register_successful_login :: "ts \<Rightarrow> user \<Rightarrow> user" where
  "register_successful_login now u =
     u\<lparr>u_failed_login_count := 0, u_locked_until := None, u_last_login_at := Some now\<rparr>"

definition unlock :: "user \<Rightarrow> user" where
  "unlock u = u\<lparr>u_locked_until := None, u_failed_login_count := 0\<rparr>"

definition bump_token_version :: "user \<Rightarrow> user" where
  "bump_token_version u = u\<lparr>u_token_version := u_token_version u + 1\<rparr>"

section \<open>Effective permissions\<close>

text \<open>\<open>merged.setdefault(resource, set()).update(actions)\<close> on an insertion-ordered dict of sets.\<close>

fun merge_actions :: "(string \<times> string list) list \<Rightarrow> string \<Rightarrow> string list \<Rightarrow> (string \<times> string list) list" where
  "merge_actions [] r as = [(r, remdups as)]"
| "merge_actions ((r', bs) # m) r as =
     (if r' = r then (r', remdups (bs @ as)) # m else (r', bs) # merge_actions m r as)"

fun merge_source :: "perm_map \<Rightarrow> (string \<times> string list) list \<Rightarrow> (string \<times> string list) list" where
  "merge_source [] m = m"
| "merge_source ((r, Actions as) # src) m = merge_source src (merge_actions m r as)"
| "merge_source ((r, v) # src) m = merge_source src m"

definition permission_sources :: "user \<Rightarrow> perm_map list" where
  "permission_sources u =
     [case u_role u of None \<Rightarrow> [] | Some r \<Rightarrow> role_permissions r, u_permissions u]"

definition effective_permissions :: "user \<Rightarrow> (string \<times> string list) list" where
  "effective_permissions u =
     map (\<lambda>(r, as). (r, sort as)) (fold merge_source (permission_sources u) [])"

definition allows :: "string \<Rightarrow> string list option \<Rightarrow> bool" where
  "allows action acts = (case acts of None \<Rightarrow> False | Some as \<Rightarrow> ''*'' \<in> set as \<or> action \<in> set as)"

text \<open>\<open>PermissionService.has\<close>; a missing user is \<open>None\<close>.\<close>

definition has :: "user option \<Rightarrow> string \<Rightarrow> string \<Rightarrow> bool" where
  "has uo resource action = (case uo of
       None \<Rightarrow> False
     | Some u \<Rightarrow> (let perms = effective_permissions u in
         if allows action (map_of perms ''*'') then True
         else allows action (map_of perms resource)))"

definition is_superuser :: "user option \<Rightarrow> bool" where
  "is_superuser uo = (case uo of
       None \<Rightarrow> False
     | Some u \<Rightarrow> (case map_of (effective_permissions u) ''*'' of
           None \<Rightarrow> False | Some as \<Rightarrow> ''*'' \<in> set as))"

section \<open>Scopes\<close>

text \<open>\<open>merged.update(source[key])\<close> over the role's map and then the user's.\<close>

definition update_scope ::
  "string \<Rightarrow> perm_map \<Rightarrow> (string \<rightharpoonup> string list) \<Rightarrow> (string \<rightharpoonup> string list)" where
  "update_scope key src m = (case map_of src key of
       Some (Scope sc) \<Rightarrow> m ++ map_of sc
     | _ \<Rightarrow> m)"

definition merged_scope :: "user \<Rightarrow> string \<Rightarrow> (string \<rightharpoonup> string list)" where
  "merged_scope u key = fold (update_scope key) (permission_sources u) Map.empty"

definition has_camera_scope :: "user option \<Rightarrow> string \<Rightarrow> string \<Rightarrow> bool" where
  "has_camera_scope uo camera_uuid action = (case uo of
       None \<Rightarrow> False
     | Some u \<Rightarrow>
         if is_superuser uo then True
         else let scope = merged_scope u ''camera_scope'';
                  allowed = (case scope camera_uuid of None \<Rightarrow> scope ''*'' | Some as \<Rightarrow> Some as)
              in (case allowed of
                    None \<Rightarrow> False
                  | Some [] \<Rightarrow> False
                  | Some as \<Rightarrow> action \<in> set as \<or> ''*'' \<in> set as))"

definition can_ptz :: "user option \<Rightarrow> string \<Rightarrow> bool" where
  "can_ptz uo camera_uuid =
     (if is_superuser uo then True
      else has uo ''ptz'' ''control'' \<and> has_camera_scope uo camera_uuid ''ptz'')"

section \<open>What resolution means\<close>

text \<open>A source grants an action on a resource when one of its action lists names it.\<close>

definition grants :: "perm_map \<Rightarrow> string \<Rightarrow> string \<Rightarrow> bool" where
  "grants src r a \<longleftrightarrow> (\<exists>as. (r, Actions as) \<in> set src \<and> a \<in> set as)"

definition merged_has :: "(string \<times> string list) list \<Rightarrow> string \<Rightarrow> string \<Rightarrow> bool" where
  "merged_has m r a \<longleftrightarrow> (case map_of m r of None \<Rightarrow> False | Some as \<Rightarrow> a \<in> set as)"

lemma merged_has_simps [simp]:
  "\<not> merged_has [] r a"
  "merged_has ((r', bs) # m) r a = (if r' = r then a \<in> set bs else merged_has m r a)"
  by (simp_all add: merged_has_def)

lemma merge_actions_has:
  "merged_has (merge_actions m r as) r' a \<longleftrightarrow> merged_has m r' a \<or> (r' = r \<and> a \<in> set as)"
  by (induction m r as rule: merge_actions.induct) auto

lemma merge_source_has:
  "merged_has (merge_source src m) r a \<longleftrightarrow> merged_has m r a \<or> grants src r a"
  by (induction src m rule: merge_source.induct) (auto simp: grants_def merge_actions_has)

lemma merged_has_sort: "merged_has (map (\<lambda>(r, as). (r, sort as)) m) r a = merged_has m r a"
  by (induction m) (auto split: if_splits)

lemma effective_permissions_iff:
  "merged_has (effective_permissions u) r a \<longleftrightarrow> (\<exists>src \<in> set (permission_sources u). grants src r a)"
proof -
  have "merged_has (fold merge_source srcs m) r a \<longleftrightarrow> merged_has m r a \<or> (\<exists>src \<in> set srcs. grants src r a)" for srcs m
    by (induction srcs arbitrary: m) (auto simp: merge_source_has)
  then show ?thesis
    unfolding effective_permissions_def merged_has_sort by (simp add: merged_has_def)
qed

lemma allows_iff: "allows a (map_of m r) \<longleftrightarrow> merged_has m r ''*'' \<or> merged_has m r a"
  by (auto simp: allows_def merged_has_def split: option.splits)

lemma is_superuser_iff:
  "is_superuser (Some u) \<longleftrightarrow> (\<exists>src \<in> set (permission_sources u). grants src ''*'' ''*'')"
  unfolding effective_permissions_iff [symmetric]
  by (auto simp: is_superuser_def merged_has_def split: option.splits)

text \<open>C14: \<open>PermissionService.has\<close> decides exactly the union of the role's and the user's grants: an
  action on a resource is allowed if and only if one of the two permission maps lists that action or
  \<open>*\<close> under that resource or under \<open>*\<close>. The user's own map can only add to the role's, and values
  that are not action lists (scope maps) grant nothing.\<close>

theorem has_iff_granted:
  "has (Some u) resource action \<longleftrightarrow>
     (\<exists>src \<in> set (permission_sources u). \<exists>r \<in> {''*'', resource}. \<exists>a \<in> {''*'', action}. grants src r a)"
proof -
  have "has (Some u) resource action \<longleftrightarrow>
      (\<exists>r \<in> {''*'', resource}. \<exists>a \<in> {''*'', action}. merged_has (effective_permissions u) r a)"
    by (auto simp: has_def Let_def allows_iff)
  then show ?thesis unfolding effective_permissions_iff by blast
qed

text \<open>The scope map a source carries.\<close>

definition scope_entries :: "perm_map \<Rightarrow> (string \<rightharpoonup> string list)" where
  "scope_entries src = (case map_of src ''camera_scope'' of Some (Scope sc) \<Rightarrow> map_of sc | _ \<Rightarrow> Map.empty)"

text \<open>The entry that decides: the user's for the camera, the role's for it, the user's \<open>*\<close>, the role's.\<close>

definition deciding_entry :: "perm_map \<Rightarrow> perm_map \<Rightarrow> string \<Rightarrow> string list" where
  "deciding_entry role_src user_src c =
     (case scope_entries user_src c of Some as \<Rightarrow> as
      | None \<Rightarrow> (case scope_entries role_src c of Some as \<Rightarrow> as
      | None \<Rightarrow> (case scope_entries user_src ''*'' of Some as \<Rightarrow> as
      | None \<Rightarrow> (case scope_entries role_src ''*'' of Some as \<Rightarrow> as | None \<Rightarrow> []))))"

lemma update_scope_entries: "update_scope ''camera_scope'' src m = m ++ scope_entries src"
  by (auto simp: update_scope_def scope_entries_def split: option.splits perm_value.splits)

lemma merged_scope_entries:
  assumes "permission_sources u = [rs, us]"
  shows "merged_scope u ''camera_scope'' = scope_entries rs ++ scope_entries us"
  by (simp add: merged_scope_def assms update_scope_entries)

text \<open>Camera access of a user who is not a superuser is decided by one scope entry: the user's own
  entry for the camera if there is one, else the role's entry for it, else the user's \<open>*\<close> entry, else
  the role's; with no entry, or an empty one, access is denied. So a user's entry replaces the role's
  (it can narrow it), unlike \<open>has\<close>.\<close>

theorem camera_scope_decided_by_entry:
  assumes "\<not> is_superuser (Some u)" and "permission_sources u = [rs, us]"
  shows "has_camera_scope (Some u) c action \<longleftrightarrow>
           action \<in> set (deciding_entry rs us c) \<or> ''*'' \<in> set (deciding_entry rs us c)"
proof -
  have nil: "(case x of None \<Rightarrow> False | Some [] \<Rightarrow> False | Some as \<Rightarrow> action \<in> set as \<or> ''*'' \<in> set as) \<longleftrightarrow>
      (case x of None \<Rightarrow> False | Some as \<Rightarrow> action \<in> set as \<or> ''*'' \<in> set as)" for x
    by (auto split: option.splits list.splits)
  have "has_camera_scope (Some u) c action \<longleftrightarrow>
      (case (case merged_scope u ''camera_scope'' c of
               None \<Rightarrow> merged_scope u ''camera_scope'' ''*'' | Some as \<Rightarrow> Some as) of
         None \<Rightarrow> False | Some as \<Rightarrow> action \<in> set as \<or> ''*'' \<in> set as)"
    using assms(1) by (simp only: has_camera_scope_def option.case Let_def if_False nil)
  then show ?thesis
    unfolding merged_scope_entries [OF assms(2)] deciding_entry_def map_add_def
    by (simp split: option.splits)
qed

definition sample_user :: user where
  "sample_user = \<lparr>u_id = 1, u_uuid = ''u1'', u_login_id = ''kim'', u_password = ''hash'',
     u_role = Some \<lparr>role_name = ''viewer'',
        role_permissions = [(''live'', Actions [''read'']), (''camera_scope'', Scope [(''*'', [''view''])])]\<rparr>,
     u_permissions = [(''camera_scope'', Scope [(''cam7'', [])])],
     u_is_active = True, u_failed_login_count = 0, u_locked_until = None, u_last_login_at = None,
     u_token_version = 0, u_deleted_at = None\<rparr>"

theorem camera_scope_decided_by_entry_witness:
  "has_camera_scope (Some sample_user) ''cam8'' ''view'' \<and> \<not> has_camera_scope (Some sample_user) ''cam7'' ''view''"
proof -
  have 1: "\<not> is_superuser (Some sample_user)" by code_simp
  have 2: "permission_sources sample_user =
      [[(''live'', Actions [''read'']), (''camera_scope'', Scope [(''*'', [''view''])])],
       [(''camera_scope'', Scope [(''cam7'', [])])]]"
    by (simp add: permission_sources_def sample_user_def)
  show ?thesis
    unfolding camera_scope_decided_by_entry [OF 1 2]
    by (simp add: deciding_entry_def scope_entries_def)
qed

end
