(* ===== verification/Tokens.thy ===== *)
theory Tokens
  imports Redis Users
begin

text \<open>
  \<open>server/service/token.py\<close> with \<open>server/model/refresh_token.py\<close>: issue, verification, refresh
  rotation with reuse detection, the Redis denylist, scoped node, join and monitor tokens, and the
  guards of \<open>server/decorator.py\<close> that use them.

  PyJWT is a parameter (\<open>env_encode\<close>, \<open>env_decode\<close>, \<open>env_peek\<close>): decoding at a time yields the
  claims, or one of the two error classes the code distinguishes. The claims are a record: every
  token is signed by this program, and PyJWT enforces the required ones (\<open>exp\<close>, \<open>iat\<close>, \<open>jti\<close>, \<open>sub\<close>).
  \<open>uuid4\<close> is a parameter indexed by the number of draws made so far.
\<close>

section \<open>State\<close>

record claims =
  c_sub :: string
  c_uuid :: "string option"
  c_role :: "string option"
  c_aud :: "string option"
  c_typ :: "string option"
  c_iss :: string
  c_iat :: int
  c_exp :: int
  c_jti :: string
  c_tv :: "int option"
  c_mv :: "int option"
  c_fid :: "string option"
  c_scope :: "(string \<times> string list \<times> string list) option"

datatype jwt_result = JwtExpired | JwtInvalid | JwtOk claims

record refresh_token =
  rt_user :: db_id
  rt_jti :: string
  rt_family :: string
  rt_issued_at :: ts
  rt_expires_at :: ts
  rt_rotated_to_jti :: "string option"
  rt_revoked_at :: "ts option"
  rt_user_agent :: "string option"
  rt_ip :: "string option"

record monitor =
  mon_id :: db_id
  mon_uuid :: string
  mon_dashboard :: db_id
  mon_status :: string
  mon_token_version :: int
  mon_enabled :: bool
  mon_paired_at :: "ts option"
  mon_last_seen_at :: "ts option"
  mon_last_ip :: "string option"
  mon_user_agent :: "string option"
  mon_deleted_at :: "ts option"

record dashboard =
  dash_id :: db_id
  dash_uuid :: string
  dash_deleted_at :: "ts option"

record token_cfg =
  cfg_access_ttl :: int
  cfg_refresh_ttl :: int
  cfg_issuer :: string
  cfg_node_ttl_days :: int
  cfg_join_ttl_minutes :: int
  cfg_monitor_refresh_ttl :: int
  cfg_redis_prefix :: string

record 'r token_env =
  env_redis :: "'r redis"
  env_encode :: "claims \<Rightarrow> string"
  env_decode :: "ts \<Rightarrow> string \<Rightarrow> jwt_result"
  env_peek :: "string \<Rightarrow> claims option"
  env_uuid4 :: "nat \<Rightarrow> string"
  env_cfg :: token_cfg

record audit_entry =
  ae_action :: string
  ae_target :: "string option"
  ae_user :: "db_id option"
  ae_reason :: "string option"

record 'r token_db =
  td_users :: "user list"
  td_refresh :: "refresh_token list"
  td_monitors :: "monitor list"
  td_dashboards :: "dashboard list"
  td_redis :: 'r
  td_uuids :: nat
  td_audit :: "audit_entry list"

record token_pair =
  tp_access :: string
  tp_refresh :: string
  tp_access_jti :: string
  tp_refresh_jti :: string
  tp_family :: string
  tp_expires_in :: int

text \<open>\<open>_epoch\<close>: whole seconds of a naive UTC datetime.\<close>

definition epoch :: "ts \<Rightarrow> int" where
  "epoch t = t div 1000"

definition uuid4 :: "'r token_env \<Rightarrow> ('r token_db, string) act" where
  "uuid4 E db = (Inr (env_uuid4 E (td_uuids db)), db\<lparr>td_uuids := td_uuids db + 1\<rparr>)"

section \<open>Users and refresh-token rows\<close>

definition User_get_by_id :: "'r token_db \<Rightarrow> db_id \<Rightarrow> py_error + user" where
  "User_get_by_id db i =
     (case first_row (filter (\<lambda>u. u_id u = i \<and> u_deleted_at u = None) (td_users db)) of
        None \<Rightarrow> Inl RowNotFoundException | Some u \<Rightarrow> Inr u)"

definition User_get_by_login_id :: "'r token_db \<Rightarrow> string \<Rightarrow> user option" where
  "User_get_by_login_id db l =
     first_row (filter (\<lambda>u. u_login_id u = l \<and> u_deleted_at u = None) (td_users db))"

definition put_user :: "user \<Rightarrow> 'r token_db \<Rightarrow> 'r token_db" where
  "put_user u db = db\<lparr>td_users := map (\<lambda>v. if u_id v = u_id u then u else v) (td_users db)\<rparr>"

definition RefreshToken_create ::
  "db_id \<Rightarrow> string \<Rightarrow> string \<Rightarrow> ts \<Rightarrow> ts \<Rightarrow> string option \<Rightarrow> string option \<Rightarrow> 'r token_db \<Rightarrow> 'r token_db" where
  "RefreshToken_create user jti fid issued expires ua ip db =
     db\<lparr>td_refresh := td_refresh db @
        [\<lparr>rt_user = user, rt_jti = jti, rt_family = fid, rt_issued_at = issued, rt_expires_at = expires,
          rt_rotated_to_jti = None, rt_revoked_at = None, rt_user_agent = ua, rt_ip = ip\<rparr>]\<rparr>"

definition RefreshToken_get_by_jti :: "'r token_db \<Rightarrow> string \<Rightarrow> refresh_token option" where
  "RefreshToken_get_by_jti db jti = first_row (filter (\<lambda>t. rt_jti t = jti) (td_refresh db))"

definition update_refresh ::
  "(refresh_token \<Rightarrow> bool) \<Rightarrow> (refresh_token \<Rightarrow> refresh_token) \<Rightarrow> 'r token_db \<Rightarrow> 'r token_db" where
  "update_refresh P f db = db\<lparr>td_refresh := map (\<lambda>t. if P t then f t else t) (td_refresh db)\<rparr>"

text \<open>\<open>jti\<close> is unique, so the row is the one with that \<open>jti\<close>.\<close>

definition mark_rotated :: "ts \<Rightarrow> string \<Rightarrow> string \<Rightarrow> 'r token_db \<Rightarrow> 'r token_db" where
  "mark_rotated now jti next_jti =
     update_refresh (\<lambda>t. rt_jti t = jti) (\<lambda>t. t\<lparr>rt_rotated_to_jti := Some next_jti, rt_revoked_at := Some now\<rparr>)"

definition revoke_family :: "ts \<Rightarrow> string \<Rightarrow> 'r token_db \<Rightarrow> 'r token_db" where
  "revoke_family now fid =
     update_refresh (\<lambda>t. rt_family t = fid \<and> rt_revoked_at t = None) (\<lambda>t. t\<lparr>rt_revoked_at := Some now\<rparr>)"

definition revoke_all_for_user :: "ts \<Rightarrow> db_id \<Rightarrow> 'r token_db \<Rightarrow> 'r token_db" where
  "revoke_all_for_user now user =
     update_refresh (\<lambda>t. rt_user t = user \<and> rt_revoked_at t = None) (\<lambda>t. t\<lparr>rt_revoked_at := Some now\<rparr>)"

definition delete_expired :: "ts \<Rightarrow> 'r token_db \<Rightarrow> nat \<times> 'r token_db" where
  "delete_expired before db =
     (length (filter (\<lambda>t. rt_expires_at t < before) (td_refresh db)),
      db\<lparr>td_refresh := filter (\<lambda>t. \<not> rt_expires_at t < before) (td_refresh db)\<rparr>)"

definition refresh_is_active :: "ts \<Rightarrow> refresh_token \<Rightarrow> bool" where
  "refresh_is_active now t \<longleftrightarrow>
     rt_revoked_at t = None \<and> rt_rotated_to_jti t = None \<and> rt_expires_at t > now"

section \<open>Denylist\<close>

definition DENYLIST_PREFIX :: "'r token_env \<Rightarrow> string" where
  "DENYLIST_PREFIX E = cfg_redis_prefix (env_cfg E) @ '':denylist:''"

definition revoke :: "'r token_env \<Rightarrow> string \<Rightarrow> int \<Rightarrow> ('r token_db, unit) act" where
  "revoke E jti ttl db =
     (let ttl' = (if ttl \<le> 0 then 1 else ttl) in
      case rd_setex (env_redis E) (DENYLIST_PREFIX E @ jti) ttl' ''1'' (td_redis db) of
        None \<Rightarrow> (Inl RedisError, db)
      | Some r \<Rightarrow> (Inr (), db\<lparr>td_redis := r\<rparr>))"

definition is_denylisted :: "'r token_env \<Rightarrow> string \<Rightarrow> 'r token_db \<Rightarrow> py_error + bool" where
  "is_denylisted E jti db =
     (case rd_exists (env_redis E) (DENYLIST_PREFIX E @ jti) (td_redis db) of
        None \<Rightarrow> Inl RedisError | Some n \<Rightarrow> Inr (n = 1))"

definition remaining_ttl :: "ts \<Rightarrow> claims \<Rightarrow> int" where
  "remaining_ttl now c = max 1 (c_exp c - epoch now)"

section \<open>Issue\<close>

definition access_claims :: "'r token_env \<Rightarrow> ts \<Rightarrow> user \<Rightarrow> string option \<Rightarrow> string \<Rightarrow> claims" where
  "access_claims E now u aud jti =
     \<lparr>c_sub = str_of_int (u_id u), c_uuid = Some (u_uuid u), c_role = map_option role_name (u_role u),
      c_aud = aud, c_typ = Some ''access'', c_iss = cfg_issuer (env_cfg E),
      c_iat = epoch now, c_exp = epoch (now + cfg_access_ttl (env_cfg E) * 1000), c_jti = jti,
      c_tv = Some (u_token_version u), c_mv = None, c_fid = None, c_scope = None\<rparr>"

definition refresh_claims :: "'r token_env \<Rightarrow> ts \<Rightarrow> user \<Rightarrow> string option \<Rightarrow> string \<Rightarrow> string \<Rightarrow> claims" where
  "refresh_claims E now u aud jti fid =
     \<lparr>c_sub = str_of_int (u_id u), c_uuid = None, c_role = None, c_aud = aud, c_typ = Some ''refresh'', c_iss = cfg_issuer (env_cfg E),
      c_iat = epoch now, c_exp = epoch (now + cfg_refresh_ttl (env_cfg E) * 1000), c_jti = jti,
      c_tv = None, c_mv = None, c_fid = Some fid, c_scope = None\<rparr>"

text \<open>\<open>issue_pair\<close>; \<open>family_id or uuid4()\<close> draws a fresh family when none (or the empty one) is given.\<close>

definition issue_pair ::
  "'r token_env \<Rightarrow> ts \<Rightarrow> user \<Rightarrow> string option \<Rightarrow> string option \<Rightarrow> string option \<Rightarrow> string option
   \<Rightarrow> ('r token_db, token_pair) act" where
  "issue_pair E now u aud ua ip family =
     bindE (uuid4 E) (\<lambda>access_jti.
     bindE (uuid4 E) (\<lambda>refresh_jti.
     bindE (case family of
              Some f \<Rightarrow> if f \<noteq> [] then returnE f else uuid4 E
            | None \<Rightarrow> uuid4 E) (\<lambda>fid db.
       (Inr \<lparr>tp_access = env_encode E (access_claims E now u aud access_jti),
             tp_refresh = env_encode E (refresh_claims E now u aud refresh_jti fid),
             tp_access_jti = access_jti, tp_refresh_jti = refresh_jti, tp_family = fid,
             tp_expires_in = cfg_access_ttl (env_cfg E)\<rparr>,
        RefreshToken_create (u_id u) refresh_jti fid now (now + cfg_refresh_ttl (env_cfg E) * 1000) ua ip db))))"

definition issue_node_token ::
  "'r token_env \<Rightarrow> ts \<Rightarrow> string \<Rightarrow> int option \<Rightarrow> ('r token_db, string \<times> string) act" where
  "issue_node_token E now node_uuid ttl_days =
     (let days = (case ttl_days of None \<Rightarrow> cfg_node_ttl_days (env_cfg E) | Some d \<Rightarrow> d) in
      bindE (uuid4 E) (\<lambda>jti.
        returnE (env_encode E
          \<lparr>c_sub = node_uuid, c_uuid = None, c_role = None, c_aud = Some ''node'', c_typ = Some ''node'', c_iss = cfg_issuer (env_cfg E),
           c_iat = epoch now, c_exp = epoch (now + days * 86400000), c_jti = jti,
           c_tv = None, c_mv = None, c_fid = None, c_scope = None\<rparr>, jti)))"

definition join_key :: "'r token_env \<Rightarrow> string \<Rightarrow> string" where
  "join_key E jti = cfg_redis_prefix (env_cfg E) @ '':nodejoin:'' @ jti"

definition issue_join_token ::
  "'r token_env \<Rightarrow> ts \<Rightarrow> db_id \<Rightarrow> int option \<Rightarrow> ('r token_db, string) act" where
  "issue_join_token E now node_id ttl_minutes =
     (let minutes = (case ttl_minutes of None \<Rightarrow> cfg_join_ttl_minutes (env_cfg E) | Some m \<Rightarrow> m) in
      bindE (uuid4 E) (\<lambda>jti db.
        case rd_setex (env_redis E) (join_key E jti) (max 1 (minutes * 60)) (str_of_int node_id) (td_redis db) of
          None \<Rightarrow> (Inl RedisError, db)
        | Some r \<Rightarrow>
            (Inr (env_encode E
               \<lparr>c_sub = str_of_int node_id, c_uuid = None, c_role = None, c_aud = Some ''node-join'', c_typ = Some ''node_join'',
                c_iss = cfg_issuer (env_cfg E), c_iat = epoch now, c_exp = epoch (now + minutes * 60000),
                c_jti = jti, c_tv = None, c_mv = None, c_fid = None, c_scope = None\<rparr>),
             db\<lparr>td_redis := r\<rparr>)))"

section \<open>Decode and verify\<close>

definition decode :: "'r token_env \<Rightarrow> ts \<Rightarrow> string \<Rightarrow> string \<Rightarrow> py_error + claims" where
  "decode E now token expected_typ =
     (case env_decode E now token of
        JwtExpired \<Rightarrow> Inl (AuthenticationException ''token_expired'')
      | JwtInvalid \<Rightarrow> Inl (AuthenticationException ''invalid_token'')
      | JwtOk c \<Rightarrow> if c_typ c \<noteq> Some expected_typ then Inl (AuthenticationException ''wrong_token_type'')
                   else Inr c)"

definition verify_node_token :: "'r token_env \<Rightarrow> ts \<Rightarrow> string \<Rightarrow> 'r token_db \<Rightarrow> py_error + claims" where
  "verify_node_token E now token db =
     (case decode E now token ''node'' of
        Inl e \<Rightarrow> Inl e
      | Inr c \<Rightarrow>
          if c_aud c \<noteq> Some ''node'' then Inl (AuthenticationException ''wrong_audience'')
          else case is_denylisted E (c_jti c) db of
                 Inl e \<Rightarrow> Inl e
               | Inr True \<Rightarrow> Inl (AuthenticationException ''revoked'')
               | Inr False \<Rightarrow> Inr c)"

text \<open>
  \<open>consume_join_token\<close> reads the key and then deletes it, in two commands; the halves are named so
  that their interleavings can be stated.
\<close>

definition join_check :: "'r token_env \<Rightarrow> ts \<Rightarrow> string \<Rightarrow> 'r token_db \<Rightarrow> py_error + claims" where
  "join_check E now token db =
     (case decode E now token ''node_join'' of
        Inl e \<Rightarrow> Inl e
      | Inr c \<Rightarrow>
          if c_aud c \<noteq> Some ''node-join'' then Inl (AuthenticationException ''wrong_audience'')
          else case rd_get (env_redis E) (join_key E (c_jti c)) (td_redis db) of
                 None \<Rightarrow> Inl RedisError
               | Some None \<Rightarrow> Inl (AuthenticationException ''join_token_used_or_expired'')
               | Some (Some _) \<Rightarrow> Inr c)"

definition join_burn :: "'r token_env \<Rightarrow> claims \<Rightarrow> ('r token_db, db_id) act" where
  "join_burn E c db =
     (case rd_delete (env_redis E) (join_key E (c_jti c)) (td_redis db) of
        None \<Rightarrow> (Inl RedisError, db)
      | Some r \<Rightarrow>
          (case int_of_string (c_sub c) of
             None \<Rightarrow> (Inl (ValueError (c_sub c)), db\<lparr>td_redis := r\<rparr>)
           | Some i \<Rightarrow> (Inr i, db\<lparr>td_redis := r\<rparr>)))"

definition consume_join_token :: "'r token_env \<Rightarrow> ts \<Rightarrow> string \<Rightarrow> ('r token_db, db_id) act" where
  "consume_join_token E now token db =
     (case join_check E now token db of Inl e \<Rightarrow> (Inl e, db) | Inr c \<Rightarrow> join_burn E c db)"

text \<open>\<open>verify_access\<close>: any failure to resolve the user, a malformed \<open>sub\<close> included, is \<open>unknown_user\<close>.\<close>

definition verify_access :: "'r token_env \<Rightarrow> ts \<Rightarrow> string \<Rightarrow> 'r token_db \<Rightarrow> py_error + (user \<times> claims)" where
  "verify_access E now token db =
     (case decode E now token ''access'' of
        Inl e \<Rightarrow> Inl e
      | Inr c \<Rightarrow>
          (case is_denylisted E (c_jti c) db of
             Inl e \<Rightarrow> Inl e
           | Inr True \<Rightarrow> Inl (AuthenticationException ''revoked'')
           | Inr False \<Rightarrow>
               (case Option.bind (int_of_string (c_sub c))
                       (\<lambda>i. case User_get_by_id db i of Inl _ \<Rightarrow> None | Inr u \<Rightarrow> Some u) of
                  None \<Rightarrow> Inl (AuthenticationException ''unknown_user'')
                | Some u \<Rightarrow>
                    if \<not> u_is_active u \<or> u_deleted_at u \<noteq> None then Inl (AuthenticationException ''inactive_user'')
                    else if Some (u_token_version u) \<noteq> c_tv c then Inl (AuthenticationException ''stale_token'')
                    else Inr (u, c))))"

definition resolve_access_token ::
  "'r token_env \<Rightarrow> ts \<Rightarrow> string \<Rightarrow> 'r token_db \<Rightarrow> (user \<times> claims) option" where
  "resolve_access_token E now token db =
     (case verify_access E now token db of Inl _ \<Rightarrow> None | Inr uc \<Rightarrow> Some uc)"

section \<open>Refresh rotation\<close>

definition rotate_refresh ::
  "'r token_env \<Rightarrow> ts \<Rightarrow> string \<Rightarrow> string option \<Rightarrow> string option \<Rightarrow> ('r token_db, token_pair \<times> user) act" where
  "rotate_refresh E now token ua ip db =
     (case decode E now token ''refresh'' of
        Inl e \<Rightarrow> (Inl e, db)
      | Inr c \<Rightarrow>
          (case RefreshToken_get_by_jti db (c_jti c) of
             None \<Rightarrow> (Inl (AuthenticationException ''unknown_refresh''), db)
           | Some row \<Rightarrow>
               if rt_rotated_to_jti row \<noteq> None \<or> rt_revoked_at row \<noteq> None then
                 bindE (revoke E (c_jti c) (remaining_ttl now c))
                   (\<lambda>_. raiseE (TokenReuseException ''refresh_reuse_detected''))
                   (revoke_family now (rt_family row) db)
               else if rt_expires_at row \<le> now then (Inl (AuthenticationException ''refresh_expired''), db)
               else
                 (case Option.bind (int_of_string (c_sub c))
                         (\<lambda>i. case User_get_by_id db i of Inl _ \<Rightarrow> None | Inr u \<Rightarrow> Some u) of
                    None \<Rightarrow> (Inl (AuthenticationException ''unknown_user''), db)
                  | Some u \<Rightarrow>
                      if \<not> u_is_active u \<or> u_deleted_at u \<noteq> None
                      then (Inl (AuthenticationException ''inactive_user''), db)
                      else
                        bindE (issue_pair E now u (case c_aud c of None \<Rightarrow> Some ''web'' | Some a \<Rightarrow> Some a) ua ip (c_fid c))
                          (\<lambda>pair db1.
                             bindE (revoke E (c_jti c) (remaining_ttl now c)) (\<lambda>_. returnE (pair, u))
                               (mark_rotated now (c_jti c) (tp_refresh_jti pair) db1)) db)))"

section \<open>Revocation\<close>

definition revoke_pair ::
  "'r token_env \<Rightarrow> ts \<Rightarrow> claims option \<Rightarrow> string option \<Rightarrow> ('r token_db, unit) act" where
  "revoke_pair E now access refresh_jti =
     bindE (case access of
              Some c \<Rightarrow> if c_jti c \<noteq> [] then revoke E (c_jti c) (remaining_ttl now c) else returnE ()
            | None \<Rightarrow> returnE ())
       (\<lambda>_ db. case refresh_jti of
                 Some j \<Rightarrow> if j = [] then (Inr (), db)
                           else (case RefreshToken_get_by_jti db j of
                                   None \<Rightarrow> (Inr (), db)
                                 | Some row \<Rightarrow> (Inr (), revoke_family now (rt_family row) db))
               | None \<Rightarrow> (Inr (), db))"

definition revoke_all :: "ts \<Rightarrow> user \<Rightarrow> 'r token_db \<Rightarrow> 'r token_db" where
  "revoke_all now u db = revoke_all_for_user now (u_id u) (put_user (bump_token_version u) db)"

definition decode_unverified_access :: "'r token_env \<Rightarrow> string \<Rightarrow> claims option" where
  "decode_unverified_access E token = env_peek E token"

section \<open>Monitor tokens\<close>

definition Monitor_get_by_uuid :: "'r token_db \<Rightarrow> string \<Rightarrow> monitor option" where
  "Monitor_get_by_uuid db u =
     first_row (filter (\<lambda>m. mon_uuid m = u \<and> mon_deleted_at m = None) (td_monitors db))"

definition Dashboard_get_by_id :: "'r token_db \<Rightarrow> db_id \<Rightarrow> dashboard option" where
  "Dashboard_get_by_id db i =
     first_row (filter (\<lambda>d. dash_id d = i \<and> dash_deleted_at d = None) (td_dashboards db))"

definition monitor_claims ::
  "'r token_env \<Rightarrow> ts \<Rightarrow> monitor \<Rightarrow> string \<Rightarrow> int \<Rightarrow> string \<Rightarrow> string option
   \<Rightarrow> (string \<times> string list \<times> string list) option \<Rightarrow> claims" where
  "monitor_claims E now m typ ttl jti fid scope =
     \<lparr>c_sub = mon_uuid m, c_uuid = None, c_role = None, c_aud = Some ''monitor'', c_typ = Some typ,
      c_iss = cfg_issuer (env_cfg E), c_iat = epoch now, c_exp = epoch (now + ttl * 1000), c_jti = jti,
      c_tv = None, c_mv = Some (mon_token_version m), c_fid = fid, c_scope = scope\<rparr>"

definition issue_monitor_pair ::
  "'r token_env \<Rightarrow> ts \<Rightarrow> monitor \<Rightarrow> string \<Rightarrow> string option \<Rightarrow> ('r token_db, token_pair) act" where
  "issue_monitor_pair E now m dashboard_uuid family =
     bindE (uuid4 E) (\<lambda>access_jti.
     bindE (uuid4 E) (\<lambda>refresh_jti.
     bindE (case family of
              Some f \<Rightarrow> if f \<noteq> [] then returnE f else uuid4 E
            | None \<Rightarrow> uuid4 E) (\<lambda>fid.
       returnE
         \<lparr>tp_access = env_encode E (monitor_claims E now m ''access'' (cfg_access_ttl (env_cfg E)) access_jti None
                        (Some (mon_uuid m, [dashboard_uuid], [''read'']))),
          tp_refresh = env_encode E (monitor_claims E now m ''refresh'' (cfg_monitor_refresh_ttl (env_cfg E))
                         refresh_jti (Some fid) None),
          tp_access_jti = access_jti, tp_refresh_jti = refresh_jti, tp_family = fid,
          tp_expires_in = cfg_access_ttl (env_cfg E)\<rparr>)))"

definition live_monitor :: "'r token_db \<Rightarrow> claims \<Rightarrow> py_error + monitor" where
  "live_monitor db c =
     (case Monitor_get_by_uuid db (c_sub c) of
        None \<Rightarrow> Inl (AuthenticationException ''monitor_invalid'')
      | Some m \<Rightarrow>
          if \<not> mon_enabled m \<or> mon_deleted_at m \<noteq> None then Inl (AuthenticationException ''monitor_invalid'')
          else if Some (mon_token_version m) \<noteq> c_mv c then Inl (AuthenticationException ''stale_monitor_token'')
          else Inr m)"

text \<open>What access and refresh verification of a monitor token share.\<close>

definition monitor_token ::
  "'r token_env \<Rightarrow> ts \<Rightarrow> string \<Rightarrow> string \<Rightarrow> 'r token_db \<Rightarrow> py_error + (monitor \<times> claims)" where
  "monitor_token E now token typ db =
     (case decode E now token typ of
        Inl e \<Rightarrow> Inl e
      | Inr c \<Rightarrow>
          if c_aud c \<noteq> Some ''monitor'' then Inl (AuthenticationException ''wrong_audience'')
          else case is_denylisted E (c_jti c) db of
                 Inl e \<Rightarrow> Inl e
               | Inr True \<Rightarrow> Inl (AuthenticationException ''revoked'')
               | Inr False \<Rightarrow> (case live_monitor db c of Inl e \<Rightarrow> Inl e | Inr m \<Rightarrow> Inr (m, c)))"

definition verify_monitor_access ::
  "'r token_env \<Rightarrow> ts \<Rightarrow> string \<Rightarrow> 'r token_db \<Rightarrow> py_error + (monitor \<times> claims)" where
  "verify_monitor_access E now token db = monitor_token E now token ''access'' db"

definition rotate_monitor_refresh ::
  "'r token_env \<Rightarrow> ts \<Rightarrow> string \<Rightarrow> ('r token_db, token_pair \<times> monitor) act" where
  "rotate_monitor_refresh E now token db =
     (case monitor_token E now token ''refresh'' db of
        Inl e \<Rightarrow> (Inl e, db)
      | Inr (m, c) \<Rightarrow>
          bindE (revoke E (c_jti c) (remaining_ttl now c)) (\<lambda>_ db1.
            bindE (issue_monitor_pair E now m
                     (case Dashboard_get_by_id db (mon_dashboard m) of None \<Rightarrow> [] | Some d \<Rightarrow> dash_uuid d)
                     (c_fid c)) (\<lambda>pair. returnE (pair, m)) db1) db)"

end
