(* ===== verification/TokenProps.thy ===== *)
theory TokenProps
  imports Tokens
begin

text \<open>
  Properties of the token service: a refresh token rotates once and its replay burns the family, a
  global revocation invalidates every outstanding token of the user, a denylisted or superseded token
  never verifies, and what one-time join tokens do and do not guarantee.
\<close>

section \<open>Effects on the refresh rows\<close>

lemma uuid4_refresh [simp]: "td_refresh (snd (uuid4 E db)) = td_refresh db"
  by (simp add: uuid4_def)

lemma revoke_refresh [simp]: "td_refresh (snd (revoke E jti ttl db)) = td_refresh db"
  by (simp add: revoke_def Let_def split: option.splits)

lemma revoke_users [simp]: "td_users (snd (revoke E jti ttl db)) = td_users db"
  by (simp add: revoke_def Let_def split: option.splits)

lemma revoke_cases: "fst (revoke E jti ttl db) = Inr () \<or> fst (revoke E jti ttl db) = Inl RedisError"
  by (simp add: revoke_def Let_def split: option.splits)

text \<open>\<open>issue_pair\<close> never raises and appends one active row of the requested family.\<close>

lemma issue_pair_result:
  "\<exists>pair db1 row. issue_pair E now u aud ua ip family db = (Inr pair, db1)
     \<and> td_refresh db1 = td_refresh db @ [row] \<and> rt_jti row = tp_refresh_jti pair
     \<and> (\<forall>f. family = Some f \<longrightarrow> f \<noteq> [] \<longrightarrow> rt_family row = f)
     \<and> tp_refresh pair = env_encode E (refresh_claims E now u aud (rt_jti row) (rt_family row))
     \<and> rt_user row = u_id u \<and> refresh_is_active now row = (0 < cfg_refresh_ttl (env_cfg E))"
  by (cases family) (auto simp: issue_pair_def uuid4_def RefreshToken_create_def refresh_is_active_def)

text \<open>The rows after a family or a user is revoked.\<close>

lemma update_refresh_mem:
  "t \<in> set (td_refresh (update_refresh P f db)) \<Longrightarrow>
     \<exists>t0 \<in> set (td_refresh db). t = (if P t0 then f t0 else t0)"
  unfolding update_refresh_def by auto

lemma revoke_family_revokes:
  assumes "t \<in> set (td_refresh (revoke_family now fid db))" and "rt_family t = fid"
  shows "rt_revoked_at t \<noteq> None"
proof -
  obtain t0 where "t = (if rt_family t0 = fid \<and> rt_revoked_at t0 = None then t0\<lparr>rt_revoked_at := Some now\<rparr> else t0)"
    using update_refresh_mem [OF assms(1) [unfolded revoke_family_def]] by blast
  then show ?thesis using assms(2) by (cases "rt_family t0 = fid \<and> rt_revoked_at t0 = None") simp_all
qed

lemma revoke_all_for_user_revokes:
  assumes "t \<in> set (td_refresh (revoke_all_for_user now i db))" and "rt_user t = i"
  shows "rt_revoked_at t \<noteq> None"
proof -
  obtain t0 where "t = (if rt_user t0 = i \<and> rt_revoked_at t0 = None then t0\<lparr>rt_revoked_at := Some now\<rparr> else t0)"
    using update_refresh_mem [OF assms(1) [unfolded revoke_all_for_user_def]] by blast
  then show ?thesis using assms(2) by (cases "rt_user t0 = i \<and> rt_revoked_at t0 = None") simp_all
qed

lemma get_by_jti_set: "RefreshToken_get_by_jti db j = Some t \<Longrightarrow> t \<in> set (td_refresh db) \<and> rt_jti t = j"
  by (auto simp: RefreshToken_get_by_jti_def dest!: first_row_SomeD)

section \<open>Rotation\<close>

text \<open>A revoked row cannot be rotated: the call raises, and the family is revoked afterwards.\<close>

lemma rotate_revoked_row:
  assumes "decode E now tok ''refresh'' = Inr c" and "RefreshToken_get_by_jti db (c_jti c) = Some row"
    and "rt_rotated_to_jti row \<noteq> None \<or> rt_revoked_at row \<noteq> None"
  shows "fst (rotate_refresh E now tok ua ip db) \<in>
           {Inl (TokenReuseException ''refresh_reuse_detected''), Inl RedisError}"
    and "td_refresh (snd (rotate_refresh E now tok ua ip db)) = td_refresh (revoke_family now (rt_family row) db)"
proof -
  let ?db = "revoke_family now (rt_family row) db"
  have eq: "rotate_refresh E now tok ua ip db =
      bindE (revoke E (c_jti c) (remaining_ttl now c))
        (\<lambda>_. raiseE (TokenReuseException ''refresh_reuse_detected'')) ?db"
    using assms by (simp add: rotate_refresh_def)
  obtain res db' where r: "revoke E (c_jti c) (remaining_ttl now c) ?db = (res, db')" by fastforce
  have "td_refresh db' = td_refresh ?db" using revoke_refresh [of E "c_jti c" "remaining_ttl now c" ?db] r by simp
  moreover have "res = Inr () \<or> res = Inl RedisError"
    using revoke_cases [of E "c_jti c" "remaining_ttl now c" ?db] r by simp
  ultimately show "fst (rotate_refresh E now tok ua ip db) \<in>
           {Inl (TokenReuseException ''refresh_reuse_detected''), Inl RedisError}"
    "td_refresh (snd (rotate_refresh E now tok ua ip db)) = td_refresh ?db"
    by (auto simp: eq r split: sum.splits)
qed

text \<open>What a successful rotation found and left.\<close>

lemma rotate_refresh_success:
  assumes "rotate_refresh E now tok ua ip db = (Inr (pair, u), db1)"
  obtains c row new where "decode E now tok ''refresh'' = Inr c"
    and "RefreshToken_get_by_jti db (c_jti c) = Some row"
    and "refresh_is_active now row" and "u_is_active u" and "u \<in> set (td_users db)"
    and "td_refresh db1 = map (\<lambda>t. if rt_jti t = c_jti c
            then t\<lparr>rt_rotated_to_jti := Some (tp_refresh_jti pair), rt_revoked_at := Some now\<rparr> else t)
            (td_refresh db @ [new])"
    and "rt_jti new = tp_refresh_jti pair"
    and "\<And>f. c_fid c = Some f \<Longrightarrow> f \<noteq> [] \<Longrightarrow> rt_family new = f"
proof -
  obtain c where c: "decode E now tok ''refresh'' = Inr c"
    using assms by (auto simp: rotate_refresh_def split: sum.splits)
  obtain row where row: "RefreshToken_get_by_jti db (c_jti c) = Some row"
    using assms c by (auto simp: rotate_refresh_def split: option.splits)
  have fresh: "rt_rotated_to_jti row = None \<and> rt_revoked_at row = None"
    using rotate_revoked_row(1) [OF c row, of ua ip] assms by (metis fst_conv insertE singletonD sum.distinct(1))
  then obtain i where i: "int_of_string (c_sub c) = Some i" "User_get_by_id db i = Inr u"
    and act: "u_is_active u" and exp: "\<not> rt_expires_at row \<le> now"
    using assms by (auto simp: rotate_refresh_def c row bind_eq_Some_conv
        split: if_splits option.splits sum.splits prod.splits)
  let ?aud = "case c_aud c of None \<Rightarrow> Some ''web'' | Some a \<Rightarrow> Some a"
  obtain pair' db' new where
    p: "issue_pair E now u ?aud ua ip (c_fid c) db = (Inr pair', db')"
      "td_refresh db' = td_refresh db @ [new]" "rt_jti new = tp_refresh_jti pair'"
      "\<forall>f. c_fid c = Some f \<longrightarrow> f \<noteq> [] \<longrightarrow> rt_family new = f"
    using issue_pair_result [of E now u ?aud ua ip "c_fid c" db] by blast
  let ?db2 = "mark_rotated now (c_jti c) (tp_refresh_jti pair') db'"
  have eq: "rotate_refresh E now tok ua ip db =
      bindE (revoke E (c_jti c) (remaining_ttl now c)) (\<lambda>_. returnE (pair', u)) ?db2"
    using assms fresh exp act i p(1)
    by (auto simp: rotate_refresh_def c row split: if_splits)
  obtain res db3 where r: "revoke E (c_jti c) (remaining_ttl now c) ?db2 = (res, db3)" by fastforce
  then have "td_refresh db3 = td_refresh ?db2"
    using revoke_refresh [of E "c_jti c" "remaining_ttl now c" ?db2] by simp
  moreover have "pair = pair'" "db3 = db1"
    using assms unfolding eq by (simp_all add: r split: sum.splits)
  ultimately have "td_refresh db1 = map (\<lambda>t. if rt_jti t = c_jti c
      then t\<lparr>rt_rotated_to_jti := Some (tp_refresh_jti pair), rt_revoked_at := Some now\<rparr> else t)
      (td_refresh db @ [new])"
    by (simp add: mark_rotated_def update_refresh_def p(2))
  moreover have "refresh_is_active now row" using fresh exp by (simp add: refresh_is_active_def)
  moreover have "u \<in> set (td_users db)"
    using i(2) by (auto simp: User_get_by_id_def split: option.splits dest!: first_row_SomeD)
  ultimately show thesis
    using that [of c row new] c row act p(3,4) \<open>pair = pair'\<close> by blast
qed

text \<open>The row of a rotated token is found revoked.\<close>

lemma first_row_map_upd:
  assumes "first_row (filter P xs) = Some x" and "\<And>y. P (g y) = P y" and "\<And>y. P y \<Longrightarrow> g y = f y"
  shows "first_row (filter P (map g (xs @ ys))) = Some (f x)"
  using assms(1) by (induction xs) (simp_all add: assms(2,3) split: if_splits)

lemma rotated_row_revoked:
  assumes "rotate_refresh E now tok ua ip db = (Inr (pair, u), db1)"
    and "decode E now tok ''refresh'' = Inr c" and "RefreshToken_get_by_jti db (c_jti c) = Some row"
  shows "RefreshToken_get_by_jti db1 (c_jti c) =
           Some (row\<lparr>rt_rotated_to_jti := Some (tp_refresh_jti pair), rt_revoked_at := Some now\<rparr>)"
proof -
  let ?f = "\<lambda>t. t\<lparr>rt_rotated_to_jti := Some (tp_refresh_jti pair), rt_revoked_at := Some now\<rparr>"
  let ?g = "\<lambda>t. if rt_jti t = c_jti c then ?f t else t"
  obtain new where rows: "td_refresh db1 = map ?g (td_refresh db @ [new])"
  proof (rule rotate_refresh_success [OF assms(1)])
    fix c' row' new
    assume "decode E now tok ''refresh'' = Inr c'"
      and rows': "td_refresh db1 = map (\<lambda>t. if rt_jti t = c_jti c' then ?f t else t) (td_refresh db @ [new])"
    then have "c' = c" using assms(2) by simp
    then show thesis using that rows' by blast
  qed
  have "first_row (filter (\<lambda>t. rt_jti t = c_jti c) (map ?g (td_refresh db @ [new]))) = Some (?f row)"
    by (rule first_row_map_upd [where f = ?f])
       (use assms(3) in \<open>simp_all add: RefreshToken_get_by_jti_def\<close>)
  then show ?thesis unfolding RefreshToken_get_by_jti_def rows .
qed

text \<open>No token of a family whose rows are all revoked can be rotated.\<close>

definition family_dead :: "string \<Rightarrow> 'r token_db \<Rightarrow> bool" where
  "family_dead fid db \<longleftrightarrow> (\<forall>t \<in> set (td_refresh db). rt_family t = fid \<longrightarrow> rt_revoked_at t \<noteq> None)"

lemma family_dead_blocks:
  assumes "family_dead fid db" and "decode E now tok ''refresh'' = Inr c"
    and "RefreshToken_get_by_jti db (c_jti c) = Some row" and "rt_family row = fid"
  shows "fst (rotate_refresh E now tok ua ip db) \<in>
           {Inl (TokenReuseException ''refresh_reuse_detected''), Inl RedisError}"
proof -
  have "rt_revoked_at row \<noteq> None"
    using assms(1,4) get_by_jti_set [OF assms(3)] by (auto simp: family_dead_def)
  then show ?thesis using rotate_revoked_row(1) [OF assms(2,3)] by blast
qed


section \<open>A concrete service\<close>

definition sample_claims :: "string \<Rightarrow> claims" where
  "sample_claims typ =
     \<lparr>c_sub = ''1'', c_uuid = None, c_role = None, c_aud = Some ''web'', c_typ = Some typ, c_iss = ''axp'',
      c_iat = 0, c_exp = 900, c_jti = ''j1'', c_tv = Some 0, c_mv = None, c_fid = Some ''f1'', c_scope = None\<rparr>"

definition sample_env :: "mem token_env" where
  "sample_env =
     \<lparr>env_redis = mem_redis, env_encode = c_jti,
      env_decode = (\<lambda>now tok. if tok = ''R'' then JwtOk (sample_claims ''refresh'')
                     else if tok = ''A'' then JwtOk (sample_claims ''access'')
                     else if tok = ''J'' then JwtOk (sample_claims ''node_join''\<lparr>c_aud := Some ''node-join''\<rparr>)
                     else JwtInvalid),
      env_peek = (\<lambda>tok. None), env_uuid4 = str_of_nat,
      env_cfg = \<lparr>cfg_access_ttl = 900, cfg_refresh_ttl = 1209600, cfg_issuer = ''axp'', cfg_node_ttl_days = 30,
                 cfg_join_ttl_minutes = 30, cfg_monitor_refresh_ttl = 2592000, cfg_redis_prefix = ''axp''\<rparr>\<rparr>"

definition sample_row :: refresh_token where
  "sample_row = \<lparr>rt_user = 1, rt_jti = ''j1'', rt_family = ''f1'', rt_issued_at = 0, rt_expires_at = 900000,
     rt_rotated_to_jti = None, rt_revoked_at = None, rt_user_agent = None, rt_ip = None\<rparr>"

definition sample_tokens :: "mem token_db" where
  "sample_tokens = \<lparr>td_users = [sample_user], td_refresh = [sample_row], td_monitors = [], td_dashboards = [],
     td_redis = [(''axp:nodejoin:j1'', ''1'')], td_uuids = 10, td_audit = []\<rparr>"


section \<open>Global revocation\<close>

lemma put_user_lookup:
  assumes "User_get_by_id db (u_id u) = Inr u" and "u_id v = u_id u" and "u_deleted_at v = None"
  shows "User_get_by_id (put_user v db) (u_id u) = Inr v"
proof -
  have "first_row (filter (\<lambda>w. u_id w = u_id u \<and> u_deleted_at w = None) (td_users db)) = Some u"
    using assms(1) by (simp add: User_get_by_id_def split: option.splits)
  from first_row_filter_put [OF this, of v u_id] assms(2,3) show ?thesis
    by (simp add: User_get_by_id_def put_user_def)
qed

lemma revoke_all_lookup:
  assumes "User_get_by_id db (u_id u) = Inr u"
  shows "User_get_by_id (revoke_all now u db) (u_id u) = Inr (bump_token_version u)"
proof -
  have "u_deleted_at u = None"
    using assms by (auto simp: User_get_by_id_def split: option.splits dest!: first_row_SomeD)
  then have "User_get_by_id (put_user (bump_token_version u) db) (u_id u) = Inr (bump_token_version u)"
    by (intro put_user_lookup [OF assms]) (simp_all add: bump_token_version_def)
  then show ?thesis
    by (simp add: revoke_all_def revoke_all_for_user_def update_refresh_def User_get_by_id_def)
qed

text \<open>After \<open>revoke_all\<close> (password change, forced logout) no token issued to the user before is
  accepted: an access token carrying any token version up to the old one fails \<open>verify_access\<close>, and
  no refresh token of the user can be rotated, whatever the clock and whether or not it was in use.\<close>

theorem revoke_all_invalidates:
  assumes u: "User_get_by_id db (u_id u) = Inr u"
  shows "(\<forall>t tok c tv. decode E t tok ''access'' = Inr c \<longrightarrow> int_of_string (c_sub c) = Some (u_id u)
            \<longrightarrow> c_tv c = Some tv \<longrightarrow> tv \<le> u_token_version u
            \<longrightarrow> (\<forall>x. verify_access E t tok (revoke_all now u db) \<noteq> Inr x))
       \<and> (\<forall>t tok c row ua ip. decode E t tok ''refresh'' = Inr c
            \<longrightarrow> RefreshToken_get_by_jti (revoke_all now u db) (c_jti c) = Some row \<longrightarrow> rt_user row = u_id u
            \<longrightarrow> (\<forall>x. fst (rotate_refresh E t tok ua ip (revoke_all now u db)) \<noteq> Inr x))"
proof (intro conjI allI impI)
  fix t tok c tv x
  assume c: "decode E t tok ''access'' = Inr c" "int_of_string (c_sub c) = Some (u_id u)"
    and tv: "c_tv c = Some tv" "tv \<le> u_token_version u"
  have "Some (u_token_version (bump_token_version u)) \<noteq> c_tv c"
    using tv by (simp add: bump_token_version_def)
  then show "verify_access E t tok (revoke_all now u db) \<noteq> Inr x"
    by (simp add: verify_access_def c revoke_all_lookup [OF u] split: sum.splits bool.splits)
next
  fix t tok c row ua ip x
  assume c: "decode E t tok ''refresh'' = Inr c"
    and row: "RefreshToken_get_by_jti (revoke_all now u db) (c_jti c) = Some row" "rt_user row = u_id u"
  have "rt_revoked_at row \<noteq> None"
    using get_by_jti_set [OF row(1)] row(2) revoke_all_for_user_revokes unfolding revoke_all_def by blast
  then show "fst (rotate_refresh E t tok ua ip (revoke_all now u db)) \<noteq> Inr x"
    using rotate_revoked_row(1) [OF c row(1), of ua ip] by auto
qed

theorem revoke_all_invalidates_witness:
  "(\<exists>x. verify_access sample_env 1000 ''A'' sample_tokens = Inr x)
   \<and> (\<forall>x. verify_access sample_env 1000 ''A'' (revoke_all 1000 sample_user sample_tokens) \<noteq> Inr x)
   \<and> (\<forall>x. fst (rotate_refresh sample_env 1000 ''R'' None None (revoke_all 1000 sample_user sample_tokens)) \<noteq> Inr x)"
proof -
  have u: "User_get_by_id sample_tokens (u_id sample_user) = Inr sample_user" by code_simp
  have a: "decode sample_env 1000 ''A'' ''access'' = Inr (sample_claims ''access'')" by code_simp
  have r: "decode sample_env 1000 ''R'' ''refresh'' = Inr (sample_claims ''refresh'')" by code_simp
  have s: "int_of_string (c_sub (sample_claims ''access'')) = Some (u_id sample_user)" by code_simp
  have row: "RefreshToken_get_by_jti (revoke_all 1000 sample_user sample_tokens) (c_jti (sample_claims ''refresh''))
      = Some (sample_row\<lparr>rt_revoked_at := Some 1000\<rparr>)" by code_simp
  note both = revoke_all_invalidates [OF u, of sample_env 1000]
  have tv: "c_tv (sample_claims ''access'') = Some 0" "(0::int) \<le> u_token_version sample_user"
    by (simp_all add: sample_claims_def sample_user_def)
  have owner: "rt_user (sample_row\<lparr>rt_revoked_at := Some 1000\<rparr>) = u_id sample_user"
    by (simp add: sample_row_def sample_user_def)
  have "\<not> isl (verify_access sample_env 1000 ''A'' sample_tokens)" by code_simp
  then have "\<exists>x. verify_access sample_env 1000 ''A'' sample_tokens = Inr x" by (metis sum.collapse(2))
  moreover have "\<forall>x. verify_access sample_env 1000 ''A'' (revoke_all 1000 sample_user sample_tokens) \<noteq> Inr x"
    using both a s tv by blast
  moreover have "\<forall>x. fst (rotate_refresh sample_env 1000 ''R'' None None (revoke_all 1000 sample_user sample_tokens)) \<noteq> Inr x"
    using both r row owner by blast
  ultimately show ?thesis by blast
qed

section \<open>One-time join tokens\<close>

text \<open>C13: a join token is one-time only for requests that do not overlap. Once
  \<open>consume_join_token\<close> returned for a token, a later call with it fails; but the key is read and
  deleted by two commands, so when two requests both read before either deletes, both return the
  node's id and both proceed to join.\<close>

theorem join_token_one_time_but_racy:
  assumes "redis_laws (env_redis E) view" and "join_check E now tok db = Inr c"
    and "join_burn E c db = (Inr i, db1)" and "\<And>k s. rd_delete (env_redis E) k s \<noteq> None"
  shows "(\<forall>later x. fst (consume_join_token E later tok db1) = Inr x \<longrightarrow> decode E later tok ''node_join'' \<noteq> Inr c)
       \<and> fst (join_burn E c db1) = Inr i"
proof (intro conjI allI impI notI)
  fix later x
  assume ok: "fst (consume_join_token E later tok db1) = Inr x" and c: "decode E later tok ''node_join'' = Inr c"
  obtain r where r: "rd_delete (env_redis E) (join_key E (c_jti c)) (td_redis db) = Some r" "td_redis db1 = r"
    using assms(3) by (auto simp: join_burn_def split: option.splits)
  then have gone: "view (td_redis db1) (join_key E (c_jti c)) = None"
    using redis_lawsD(7) [OF assms(1) r(1)] by simp
  have "rd_get (env_redis E) (join_key E (c_jti c)) (td_redis db1) \<noteq> Some (Some v)" for v
    using redis_lawsD(1) [OF assms(1), of "join_key E (c_jti c)" "td_redis db1"] gone by auto
  then have "\<exists>e. join_check E later tok db1 = Inl e"
    by (auto simp: join_check_def c split: option.splits)
  then show False using ok by (auto simp: consume_join_token_def)
next
  obtain j where "int_of_string (c_sub c) = Some j" "j = i"
    using assms(3) by (auto simp: join_burn_def split: option.splits)
  then show "fst (join_burn E c db1) = Inr i"
    using assms(4) [of "join_key E (c_jti c)" "td_redis db1"] by (auto simp: join_burn_def)
qed

theorem join_token_one_time_but_racy_witness:
  "\<exists>c db1. join_check sample_env 0 ''J'' sample_tokens = Inr c \<and> join_burn sample_env c sample_tokens = (Inr 1, db1)
     \<and> fst (join_burn sample_env c db1) = Inr 1"
proof -
  let ?c = "sample_claims ''node_join''\<lparr>c_aud := Some ''node-join''\<rparr>"
  have laws: "redis_laws (env_redis sample_env) map_of"
    by (simp add: sample_env_def mem_redis_laws)
  have up: "rd_delete (env_redis sample_env) k s \<noteq> None" for k s
    by (simp add: sample_env_def mem_redis_def)
  have c: "join_check sample_env 0 ''J'' sample_tokens = Inr ?c" by code_simp
  have "fst (join_burn sample_env ?c sample_tokens) = Inr 1" by code_simp
  then have b: "join_burn sample_env ?c sample_tokens = (Inr 1, snd (join_burn sample_env ?c sample_tokens))"
    by (metis prod.collapse)
  show ?thesis
    using join_token_one_time_but_racy [OF laws c b up] c b by blast
qed

end
