(* ===== verification/Auth.thy ===== *)
theory Auth
  imports TokenProps
begin

text \<open>
  \<open>server/controller/auth.py\<close>: login with lockout, refresh, logout and password change over the token
  service. Argon2 verification and hashing are parameters (\<open>pw_ok\<close>, \<open>pw_hash\<close>).
\<close>

section \<open>Operations\<close>

definition AuditLog_record ::
  "string \<Rightarrow> string option \<Rightarrow> db_id option \<Rightarrow> string option \<Rightarrow> 'r token_db \<Rightarrow> 'r token_db" where
  "AuditLog_record action target user reason db =
     db\<lparr>td_audit := td_audit db @ [\<lparr>ae_action = action, ae_target = target, ae_user = user, ae_reason = reason\<rparr>]\<rparr>"

record login_cfg =
  lc_max_failed :: int
  lc_lock_minutes :: int

definition login ::
  "'r token_env \<Rightarrow> login_cfg \<Rightarrow> (string \<Rightarrow> string \<Rightarrow> bool) \<Rightarrow> ts \<Rightarrow> string \<Rightarrow> string
   \<Rightarrow> string option \<Rightarrow> string option \<Rightarrow> ('r token_db, token_pair \<times> user) act" where
  "login E cfg pw_ok now login_id password ip ua db =
     (if login_id = [] \<or> password = [] \<or> py_strip login_id = [] \<or> py_strip password = []
      then (Inl (AuthenticationException ''invalid_credentials''), db)
      else
        let l = py_strip login_id in
        case User_get_by_login_id db l of
          None \<Rightarrow> (Inl (AuthenticationException ''invalid_credentials''),
                   AuditLog_record ''login_failed'' (Some l) None (Some ''unknown_login_id'') db)
        | Some u \<Rightarrow>
            if is_locked now u then
              (Inl (AccountLockedException ''account_locked''),
               AuditLog_record ''login_failed'' (Some l) (Some (u_id u)) (Some ''locked'') db)
            else if \<not> pw_ok (u_password u) password then
              (case register_failed_login now (lc_max_failed cfg) (lc_lock_minutes cfg) u of
                 (locked, u') \<Rightarrow>
                   let db1 = AuditLog_record ''login_failed'' (Some l) (Some (u_id u)) (Some ''bad_password'') (put_user u' db)
                   in if locked
                      then (Inl (AccountLockedException ''account_locked''),
                            AuditLog_record ''account_locked'' (Some l) (Some (u_id u)) None db1)
                      else (Inl (AuthenticationException ''invalid_credentials''), db1))
            else if \<not> u_is_active u then (Inl (AuthenticationException ''inactive_user''), db)
            else
              let u' = register_successful_login now u in
              bindE (issue_pair E now u' (Some ''web'') ua ip None)
                (\<lambda>pair db1. (Inr (pair, u'), AuditLog_record ''login_success'' (Some l) (Some (u_id u)) None db1))
                (put_user u' db))"

definition auth_refresh ::
  "'r token_env \<Rightarrow> ts \<Rightarrow> string \<Rightarrow> string option \<Rightarrow> string option \<Rightarrow> ('r token_db, token_pair \<times> user) act" where
  "auth_refresh E now token ip ua =
     (if token = [] then raiseE (AuthenticationException ''invalid_refresh'')
      else bindE (rotate_refresh E now token ua ip)
             (\<lambda>(pair, u) db. (Inr (pair, u), AuditLog_record ''token_refresh'' (Some (u_login_id u)) (Some (u_id u)) None db)))"

definition logout ::
  "'r token_env \<Rightarrow> ts \<Rightarrow> claims option \<Rightarrow> string option \<Rightarrow> user option \<Rightarrow> ('r token_db, unit) act" where
  "logout E now access refresh_jti uo =
     bindE (revoke_pair E now access refresh_jti)
       (\<lambda>_ db. (Inr (), case uo of
                   None \<Rightarrow> db
                 | Some u \<Rightarrow> AuditLog_record ''logout'' (Some (u_login_id u)) (Some (u_id u)) None db))"

definition change_password ::
  "(string \<Rightarrow> string \<Rightarrow> bool) \<Rightarrow> (string \<Rightarrow> string) \<Rightarrow> ts \<Rightarrow> user \<Rightarrow> string \<Rightarrow> string \<Rightarrow> ('r token_db, unit) act" where
  "change_password pw_ok pw_hash now u old new db =
     (if old = [] \<or> new = [] then (Inl (InvalidParameterException ''missing''), db)
      else if \<not> pw_ok (u_password u) old then (Inl (InvalidParameterException ''previous''), db)
      else if length new < 8 then (Inl (InvalidParameterException ''short''), db)
      else let u' = u\<lparr>u_password := pw_hash new\<rparr> in
           (Inr (), AuditLog_record ''password_changed'' (Some (u_login_id u)) (Some (u_id u)) None
                      (revoke_all now u' (put_user u' db))))"

section \<open>Lockout\<close>

lemma audit_lookup [simp]: "User_get_by_login_id (AuditLog_record a t i r db) l = User_get_by_login_id db l"
  by (simp add: AuditLog_record_def User_get_by_login_id_def)

lemma put_user_login_lookup:
  assumes "User_get_by_login_id db l = Some u" and "u_login_id v = l" "u_id v = u_id u" "u_deleted_at v = None"
  shows "User_get_by_login_id (put_user v db) l = Some v"
  using first_row_filter_put [OF assms(1) [unfolded User_get_by_login_id_def], of v u_id] assms(2-4)
  by (simp add: User_get_by_login_id_def put_user_def)

definition usable_input :: "string \<Rightarrow> string \<Rightarrow> bool" where
  "usable_input l p \<longleftrightarrow> l \<noteq> [] \<and> p \<noteq> [] \<and> py_strip l = l \<and> py_strip p \<noteq> []"

text \<open>The state after a sequence of login attempts with one password, at given tms.\<close>

definition attempts ::
  "'r token_env \<Rightarrow> login_cfg \<Rightarrow> (string \<Rightarrow> string \<Rightarrow> bool) \<Rightarrow> string \<Rightarrow> string \<Rightarrow> ts list \<Rightarrow> 'r token_db \<Rightarrow> 'r token_db" where
  "attempts E cfg pw_ok l p tms db = fold (\<lambda>t d. snd (login E cfg pw_ok t l p None None d)) tms db"

lemma login_wrong_password:
  fixes cfg :: login_cfg
  assumes "User_get_by_login_id db l = Some u" and "usable_input l p"
    and "\<not> pw_ok (u_password u) p" and "\<not> is_locked now u"
  defines "u' \<equiv> snd (register_failed_login now (lc_max_failed cfg) (lc_lock_minutes cfg) u)"
  shows "User_get_by_login_id (snd (login E cfg pw_ok now l p None None db)) l = Some u'"
proof -
  have u: "u_login_id u = l" "u_deleted_at u = None"
    using assms(1) by (auto simp: User_get_by_login_id_def dest!: first_row_SomeD)
  then have "User_get_by_login_id (put_user u' db) l = Some u'"
    unfolding u'_def
    by (intro put_user_login_lookup [OF assms(1)]) (simp_all add: register_failed_login_def Let_def)
  then show ?thesis
    using assms(1-4) by (cases "register_failed_login now (lc_max_failed cfg) (lc_lock_minutes cfg) u")
      (auto simp: login_def usable_input_def Let_def u'_def)
qed

lemma failed_fields:
  "u_password (snd (register_failed_login now m k u)) = u_password u"
  "u_locked_until (snd (register_failed_login now m k u)) =
     (if u_failed_login_count u + 1 \<ge> m then Some (now + k * 60000) else u_locked_until u)"
  "u_failed_login_count (snd (register_failed_login now m k u)) =
     (if u_failed_login_count u + 1 \<ge> m then 0 else u_failed_login_count u + 1)"
  by (simp_all add: register_failed_login_def Let_def)

lemma attempts_lock:
  assumes "User_get_by_login_id db l = Some u" and "usable_input l p" and "\<not> pw_ok (u_password u) p"
    and "u_locked_until u = None" and "tms \<noteq> []"
    and "u_failed_login_count u + int (length tms) = lc_max_failed cfg"
  shows "\<exists>u'. User_get_by_login_id (attempts E cfg pw_ok l p tms db) l = Some u'
           \<and> u_locked_until u' = Some (last tms + lc_lock_minutes cfg * 60000)"
  using assms
proof (induction tms arbitrary: db u)
  case Nil
  then show ?case by simp
next
  case (Cons t tms)
  let ?db = "snd (login E cfg pw_ok t l p None None db)"
  let ?u = "snd (register_failed_login t (lc_max_failed cfg) (lc_lock_minutes cfg) u)"
  have look: "User_get_by_login_id ?db l = Some ?u"
    by (rule login_wrong_password [where pw_ok = pw_ok, OF Cons.prems(1-3)]) (simp add: is_locked_def Cons.prems(4))
  have fold: "attempts E cfg pw_ok l p (t # tms) db = attempts E cfg pw_ok l p tms ?db"
    by (simp add: attempts_def)
  show ?case
  proof (cases tms)
    case Nil
    then have "User_get_by_login_id (attempts E cfg pw_ok l p (t # tms) db) l = Some ?u"
      using look fold by (simp add: attempts_def)
    moreover have "u_locked_until ?u = Some (t + lc_lock_minutes cfg * 60000)"
      using Cons.prems(6) Nil by (simp add: failed_fields)
    ultimately show ?thesis using Nil by simp
  next
    case (Cons t' rest)
    then have "\<not> u_failed_login_count u + 1 \<ge> lc_max_failed cfg" using Cons.prems(6) by simp
    then have "\<exists>u'. User_get_by_login_id (attempts E cfg pw_ok l p tms ?db) l = Some u'
        \<and> u_locked_until u' = Some (last tms + lc_lock_minutes cfg * 60000)"
      using Cons.prems Cons by (intro Cons.IH [OF look]) (simp_all add: failed_fields)
    then show ?thesis using fold Cons by simp
  qed
qed

text \<open>Brute-force lockout. From an unlocked account with no failed attempts, after
  \<open>LOGIN_MAX_FAILED\<close> login attempts with a wrong password, at whatever tms, every later attempt
  before the lock expires raises \<open>AccountLockedException\<close> and issues no token, also with the correct
  password; such an attempt changes nothing but the audit log.\<close>

theorem lockout_blocks_correct_password:
  assumes "User_get_by_login_id db l = Some u" and "usable_input l p" and "\<not> pw_ok (u_password u) p"
    and "u_locked_until u = None" and "u_failed_login_count u = 0"
    and "int (length tms) = lc_max_failed cfg" and "tms \<noteq> []"
    and "usable_input l q" and "now < last tms + lc_lock_minutes cfg * 60000"
    and "login E cfg pw_ok now l q ip ua (attempts E cfg pw_ok l p tms db) = (res, db')"
  shows "res = Inl (AccountLockedException ''account_locked'')
       \<and> db'\<lparr>td_audit := []\<rparr> = (attempts E cfg pw_ok l p tms db)\<lparr>td_audit := []\<rparr>"
proof -
  obtain u' where u': "User_get_by_login_id (attempts E cfg pw_ok l p tms db) l = Some u'"
    "u_locked_until u' = Some (last tms + lc_lock_minutes cfg * 60000)"
    using attempts_lock [where pw_ok = pw_ok, OF assms(1-4,7)] assms(5,6) by fastforce
  then have "is_locked now u'" using assms(9) by (simp add: is_locked_def)
  then show ?thesis
    using assms(8,10) u'(1) by (auto simp: login_def usable_input_def Let_def AuditLog_record_def)
qed

theorem lockout_blocks_correct_password_witness:
  "fst (login sample_env \<lparr>lc_max_failed = 2, lc_lock_minutes = 30\<rparr> (=) 5000 ''kim'' ''hash'' None None
     (attempts sample_env \<lparr>lc_max_failed = 2, lc_lock_minutes = 30\<rparr> (=) ''kim'' ''guess'' [1000, 2000] sample_tokens))
     = Inl (AccountLockedException ''account_locked'')
   \<and> \<not> isl (fst (login sample_env \<lparr>lc_max_failed = 2, lc_lock_minutes = 30\<rparr> (=) 5000 ''kim'' ''hash'' None None sample_tokens))"
proof -
  let ?cfg = "\<lparr>lc_max_failed = 2, lc_lock_minutes = 30\<rparr>"
  have u: "User_get_by_login_id sample_tokens ''kim'' = Some sample_user" by code_simp
  have i: "usable_input ''kim'' ''guess''" "usable_input ''kim'' ''hash''" by code_simp+
  have "fst (login sample_env ?cfg (=) 5000 ''kim'' ''hash'' None None
      (attempts sample_env ?cfg (=) ''kim'' ''guess'' [1000, 2000] sample_tokens)) = Inl (AccountLockedException ''account_locked'')"
    by (rule lockout_blocks_correct_password [where pw_ok = "(=)" and tms = "[1000, 2000]" and cfg = ?cfg,
          OF u i(1) _ _ _ _ _ i(2), THEN conjunct1]) (simp_all add: sample_user_def prod_eq_iff)
  moreover have "\<not> isl (fst (login sample_env ?cfg (=) 5000 ''kim'' ''hash'' None None sample_tokens))" by code_simp
  ultimately show ?thesis by blast
qed

end
