(* ===== verification/FeatureFlags.thy ===== *)
theory FeatureFlags
  imports PyVal "HOL-Library.Char_ord" "HOL-Library.List_Lexorder"
begin

text \<open>
  \<open>server/model/feature_flag.py\<close> and the per-process cache of \<open>server/service/feature_flag.py\<close>. The
  monotonic clock is a parameter, in milliseconds.
\<close>

section \<open>Rows\<close>

record feature_flag =
  ff_key :: string
  ff_enabled :: bool
  ff_scope :: string
  ff_camera :: "db_id option"
  ff_value :: pyval
  ff_deleted :: bool

record flag_state =
  fl_rows :: "feature_flag list"
  fl_cache :: "(string \<times> bool) list"
  fl_cache_at :: int

text \<open>\<open>FeatureFlag.get\<close>: \<open>if camera_id\<close> also treats the id 0 as global.\<close>

definition FeatureFlag_get :: "feature_flag list \<Rightarrow> string \<Rightarrow> db_id option \<Rightarrow> feature_flag option" where
  "FeatureFlag_get rows key cam =
     first_row (filter (\<lambda>f. ff_key f = key \<and> \<not> ff_deleted f
        \<and> (if truthy cam then ff_camera f = cam else ff_camera f = None)) rows)"

definition FeatureFlag_list_all :: "feature_flag list \<Rightarrow> feature_flag list" where
  "FeatureFlag_list_all rows = sort_key ff_key (filter (\<lambda>f. \<not> ff_deleted f) rows)"

definition set_row :: "bool \<Rightarrow> pyval \<Rightarrow> feature_flag \<Rightarrow> feature_flag" where
  "set_row enabled value f =
     (let f1 = f\<lparr>ff_enabled := enabled\<rparr> in if value \<noteq> PNone then f1\<lparr>ff_value := value\<rparr> else f1)"

text \<open>The row written back is the global one of the key: \<open>(key, camera_id)\<close> is unique.\<close>

definition FeatureFlag_set_enabled :: "string \<Rightarrow> bool \<Rightarrow> pyval \<Rightarrow> feature_flag list \<Rightarrow> feature_flag list" where
  "FeatureFlag_set_enabled key enabled value rows =
     (case FeatureFlag_get rows key None of
        None \<Rightarrow> rows @ [set_row enabled value
                  \<lparr>ff_key = key, ff_enabled = False, ff_scope = ''global'', ff_camera = None, ff_value = PNone, ff_deleted = False\<rparr>]
      | Some _ \<Rightarrow> map (\<lambda>f. if ff_key f = key \<and> \<not> ff_deleted f \<and> ff_camera f = None then set_row enabled value f else f) rows)"

section \<open>The cache\<close>

definition CACHE_TTL :: int where "CACHE_TTL = 15000"

text \<open>A dict comprehension: for a repeated key the last row wins.\<close>

definition refresh :: "int \<Rightarrow> flag_state \<Rightarrow> (string \<times> bool) list \<times> flag_state" where
  "refresh now st =
     (let c = rev (map (\<lambda>f. (ff_key f, ff_enabled f)) (FeatureFlag_list_all (fl_rows st)))
      in (c, st\<lparr>fl_cache := c, fl_cache_at := now\<rparr>))"

definition invalidate :: "flag_state \<Rightarrow> flag_state" where
  "invalidate st = st\<lparr>fl_cache_at := 0\<rparr>"

definition flag_map :: "int \<Rightarrow> flag_state \<Rightarrow> (string \<times> bool) list \<times> flag_state" where
  "flag_map now st = (if now - fl_cache_at st > CACHE_TTL then refresh now st else (fl_cache st, st))"

definition is_enabled :: "int \<Rightarrow> string \<Rightarrow> bool \<Rightarrow> flag_state \<Rightarrow> bool \<times> flag_state" where
  "is_enabled now key dflt st =
     (case flag_map now st of (m, st') \<Rightarrow> (case map_of m key of None \<Rightarrow> dflt | Some b \<Rightarrow> b, st'))"

definition set_flag :: "string \<Rightarrow> bool \<Rightarrow> pyval \<Rightarrow> flag_state \<Rightarrow> flag_state" where
  "set_flag key enabled value st = invalidate (st\<lparr>fl_rows := FeatureFlag_set_enabled key enabled value (fl_rows st)\<rparr>)"

section \<open>What a reader sees\<close>

lemma set_row_fields [simp]:
  "ff_key (set_row e v f) = ff_key f" "ff_enabled (set_row e v f) = e" "ff_camera (set_row e v f) = ff_camera f"
  "ff_deleted (set_row e v f) = ff_deleted f"
  by (simp_all add: set_row_def Let_def)

lemma set_enabled_rows:
  assumes "\<And>f. f \<in> set rows \<Longrightarrow> ff_camera f = None"
  shows "\<exists>f \<in> set (FeatureFlag_set_enabled key e v rows). ff_key f = key \<and> \<not> ff_deleted f"
    and "\<forall>f \<in> set (FeatureFlag_set_enabled key e v rows). ff_key f = key \<longrightarrow> \<not> ff_deleted f \<longrightarrow> ff_enabled f = e"
proof -
  let ?u = "\<lambda>f. if ff_key f = key \<and> \<not> ff_deleted f \<and> ff_camera f = None then set_row e v f else f"
  have "(\<exists>f \<in> set (FeatureFlag_set_enabled key e v rows). ff_key f = key \<and> \<not> ff_deleted f)
      \<and> (\<forall>f \<in> set (FeatureFlag_set_enabled key e v rows). ff_key f = key \<longrightarrow> \<not> ff_deleted f \<longrightarrow> ff_enabled f = e)"
  proof (cases "FeatureFlag_get rows key None")
    case None
    then have "\<forall>f \<in> set rows. ff_key f = key \<longrightarrow> ff_deleted f"
      using assms by (simp add: FeatureFlag_get_def filter_empty_conv)
    moreover have "set (FeatureFlag_set_enabled key e v rows) = insert (set_row e v
        \<lparr>ff_key = key, ff_enabled = False, ff_scope = ''global'', ff_camera = None, ff_value = PNone, ff_deleted = False\<rparr>) (set rows)"
      using None by (simp add: FeatureFlag_set_enabled_def)
    ultimately show ?thesis by simp
  next
    case (Some g)
    then have g: "g \<in> set rows" "ff_key g = key" "\<not> ff_deleted g" "ff_camera g = None"
      using first_row_SomeD [OF Some [unfolded FeatureFlag_get_def]] by simp_all
    have rows: "set (FeatureFlag_set_enabled key e v rows) = ?u ` set rows"
      using Some by (simp add: FeatureFlag_set_enabled_def)
    have "ff_enabled (?u f) = e" if "f \<in> set rows" "ff_key (?u f) = key" "\<not> ff_deleted (?u f)" for f
    proof (cases "ff_key f = key \<and> \<not> ff_deleted f")
      case True
      then show ?thesis using assms [OF that(1)] by simp
    next
      case False
      then show ?thesis using that(2,3) by auto
    qed
    then have "\<forall>f \<in> set (FeatureFlag_set_enabled key e v rows). ff_key f = key \<longrightarrow> \<not> ff_deleted f \<longrightarrow> ff_enabled f = e"
      unfolding rows ball_simps by blast
    moreover have "?u g \<in> set (FeatureFlag_set_enabled key e v rows)" unfolding rows using g(1) by (rule imageI)
    then have "\<exists>f \<in> set (FeatureFlag_set_enabled key e v rows). ff_key f = key \<and> \<not> ff_deleted f"
      by (rule bexI [rotated]) (simp add: g)
    ultimately show ?thesis by (intro conjI)
  qed
  then show "\<exists>f \<in> set (FeatureFlag_set_enabled key e v rows). ff_key f = key \<and> \<not> ff_deleted f"
    "\<forall>f \<in> set (FeatureFlag_set_enabled key e v rows). ff_key f = key \<longrightarrow> \<not> ff_deleted f \<longrightarrow> ff_enabled f = e"
    by blast+
qed

lemma map_of_all:
  assumes "\<exists>x \<in> set xs. f x = k" and "\<And>x. x \<in> set xs \<Longrightarrow> f x = k \<Longrightarrow> g x = v"
  shows "map_of (map (\<lambda>x. (f x, g x)) xs) k = Some v"
  using assms by (induction xs) auto

text \<open>After \<open>set_flag\<close> the process reads the new value back, but only when its monotonic clock is past
  the cache's 15 seconds: \<open>invalidate\<close> marks the cache as filled at time 0, so while the clock is
  itself at most 15 seconds (shortly after boot) the gate keeps answering from the old cache. In
  particular a process that starts then answers \<open>default\<close> for every flag, whatever the rows say.\<close>

theorem set_flag_read_back:
  assumes "\<And>f. f \<in> set (fl_rows st) \<Longrightarrow> ff_camera f = None"
  shows "(now > CACHE_TTL \<longrightarrow> fst (is_enabled now key d (set_flag key e v st)) = e)
       \<and> (now \<le> CACHE_TTL \<longrightarrow> fst (is_enabled now key d (set_flag key e v st))
            = (case map_of (fl_cache st) key of None \<Rightarrow> d | Some b \<Rightarrow> b))"
proof (intro conjI impI)
  let ?rows = "FeatureFlag_set_enabled key e v (fl_rows st)"
  assume "now > CACHE_TTL"
  moreover have "map_of (map (\<lambda>f. (ff_key f, ff_enabled f)) (rev (FeatureFlag_list_all ?rows))) key = Some e"
    by (rule map_of_all)
       (use set_enabled_rows [of "fl_rows st" key e v] assms in \<open>auto simp: FeatureFlag_list_all_def\<close>)
  ultimately show "fst (is_enabled now key d (set_flag key e v st)) = e"
    by (simp add: is_enabled_def flag_map_def set_flag_def invalidate_def refresh_def Let_def rev_map)
next
  assume "now \<le> CACHE_TTL"
  then show "fst (is_enabled now key d (set_flag key e v st)) = (case map_of (fl_cache st) key of None \<Rightarrow> d | Some b \<Rightarrow> b)"
    by (simp add: is_enabled_def flag_map_def set_flag_def invalidate_def)
qed

theorem set_flag_read_back_witness:
  "let st = \<lparr>fl_rows = [], fl_cache = [], fl_cache_at = 0\<rparr> in
     fst (is_enabled 20000 ''lpr'' False (set_flag ''lpr'' True PNone st)) = True
   \<and> fst (is_enabled 9000 ''lpr'' False (set_flag ''lpr'' True PNone st)) = False"
  using set_flag_read_back [of "\<lparr>fl_rows = [], fl_cache = [], fl_cache_at = 0\<rparr>" 20000 "''lpr''" False True PNone]
    set_flag_read_back [of "\<lparr>fl_rows = [], fl_cache = [], fl_cache_at = 0\<rparr>" 9000 "''lpr''" False True PNone]
  by (simp add: CACHE_TTL_def)

end
