(* ===== verification/NodePlan.thy ===== *)
theory NodePlan
  imports Prelude
begin

text \<open>
  The greedy distribution of cameras over worker nodes that \<open>ai_scheduler.rebalance\<close> and
  \<open>encode_scheduler.rebalance\<close> share line by line: keep a current assignment while its node has
  room, then place the rest on the node with the most remaining capacity; what does not fit is
  pending. The two scheduler theories instantiate it with their own nodes and tables.

  A node is its id; \<open>cap\<close> is the dict of the schedulable nodes' capacities, \<open>load\<close> the dict of the
  cameras placed so far, \<open>existing\<close> the node of each camera's current row.
\<close>

section \<open>The plan\<close>

type_synonym plan = "db_id \<rightharpoonup> db_id"
type_synonym load = "db_id \<Rightarrow> int"

text \<open>\<open>_pick\<close>: the first node with the largest positive remainder.\<close>

definition pick_node :: "db_id list \<Rightarrow> load \<Rightarrow> (db_id \<rightharpoonup> int) \<Rightarrow> db_id option" where
  "pick_node nodes load cap =
     best_above (\<lambda>n. (case cap n of Some c \<Rightarrow> c | None \<Rightarrow> 0) - load n) nodes None 0"

text \<open>Step 1: keep the current assignment if its node is schedulable with spare capacity.\<close>

definition keep_step :: "(db_id \<rightharpoonup> int) \<Rightarrow> plan \<Rightarrow> db_id \<Rightarrow> plan \<times> load \<Rightarrow> plan \<times> load" where
  "keep_step cap existing cam = (\<lambda>(plan, load).
     case existing cam of
       None \<Rightarrow> (plan, load)
     | Some n \<Rightarrow>
         (case cap n of
            None \<Rightarrow> (plan, load)
          | Some c \<Rightarrow> if load n < c then (plan(cam \<mapsto> n), load(n := load n + 1)) else (plan, load)))"

text \<open>Step 2: place the rest on the node with the most remaining capacity.\<close>

definition place_step ::
  "db_id list \<Rightarrow> (db_id \<rightharpoonup> int) \<Rightarrow> db_id \<Rightarrow> plan \<times> load \<times> db_id list \<Rightarrow> plan \<times> load \<times> db_id list" where
  "place_step nodes cap cam = (\<lambda>(plan, load, pending).
     if plan cam \<noteq> None then (plan, load, pending)
     else case pick_node nodes load cap of
            None \<Rightarrow> (plan, load, pending @ [cam])
          | Some n \<Rightarrow> (plan(cam \<mapsto> n), load(n := load n + 1), pending))"

definition make_plan ::
  "db_id list \<Rightarrow> (db_id \<rightharpoonup> int) \<Rightarrow> plan \<Rightarrow> db_id list \<Rightarrow> plan \<times> load \<times> db_id list" where
  "make_plan nodes cap existing cams =
     (case fold (keep_step cap existing) cams (Map.empty, \<lambda>_. 0) of
        (plan, load) \<Rightarrow> fold (place_step nodes cap) cams (plan, load, []))"

section \<open>The plan's invariant\<close>

definition cams_on :: "db_id list \<Rightarrow> plan \<Rightarrow> db_id \<Rightarrow> nat" where
  "cams_on cams plan n = length (filter (\<lambda>c. plan c = Some n) cams)"

definition plan_ok :: "(db_id \<rightharpoonup> int) \<Rightarrow> db_id list \<Rightarrow> plan \<Rightarrow> load \<Rightarrow> bool" where
  "plan_ok cap cams plan load \<longleftrightarrow>
     dom plan \<subseteq> set cams \<and> ran plan \<subseteq> dom cap
     \<and> (\<forall>n. load n = int (cams_on cams plan n))
     \<and> (\<forall>n c. cap n = Some c \<longrightarrow> load n \<le> max 0 c)"

lemma cams_on_simps [simp]:
  "cams_on [] plan m = 0"
  "cams_on (x # xs) plan m = (if plan x = Some m then 1 else 0) + cams_on xs plan m"
  by (simp_all add: cams_on_def)

lemma cams_on_upd:
  assumes "distinct cams" and "c \<in> set cams" and "plan c = None"
  shows "cams_on cams (plan(c \<mapsto> n)) m = cams_on cams plan m + (if m = n then 1 else 0)"
proof -
  have "cams_on xs (plan(c \<mapsto> n)) m = cams_on xs plan m + (if m = n \<and> c \<in> set xs then 1 else 0)"
    if "distinct xs" for xs
    using that assms(3) by (induction xs) auto
  then show ?thesis using assms by auto
qed

lemma plan_ok_upd:
  assumes ok: "plan_ok cap cams plan load" and "distinct cams" "c \<in> set cams" "plan c = None"
    and n: "cap n = Some k" "load n < k"
  shows "plan_ok cap cams (plan(c \<mapsto> n)) (load(n := load n + 1))"
proof -
  have "ran (plan(c \<mapsto> n)) \<subseteq> dom cap"
    using ok n(1) assms(4) by (auto simp: plan_ok_def)
  moreover have "cams_on cams (plan(c \<mapsto> n)) m = cams_on cams plan m + (if m = n then 1 else 0)" for m
    by (rule cams_on_upd [where plan = plan, OF assms(2-4)])
  ultimately show ?thesis
    using ok n assms(3) by (auto simp: plan_ok_def)
qed

lemma cams_on_empty [simp]: "cams_on cams Map.empty n = 0"
  by (induction cams) auto

lemma plan_ok_empty: "plan_ok cap cams Map.empty (\<lambda>_. 0)"
  by (simp add: plan_ok_def)

lemma pick_node_SomeD:
  assumes "pick_node nodes load cap = Some n" and "\<And>m. m \<in> set nodes \<Longrightarrow> m \<in> dom cap"
  obtains c where "n \<in> set nodes" "cap n = Some c" "load n < c"
proof -
  note best = best_above_SomeD [OF assms(1) [unfolded pick_node_def]]
  from best(1) assms(2) obtain c where "cap n = Some c" by blast
  with best(1,2) that show thesis by auto
qed

lemma pick_node_NoneD:
  assumes "pick_node nodes load cap = None" and "n \<in> set nodes" and "cap n = Some c"
  shows "c \<le> load n"
  using best_above_NoneD [OF assms(1) [unfolded pick_node_def] assms(2)] assms(3) by simp

text \<open>
  The keep loop: it stays within the invariant, plans only what it has seen, and plans a camera
  exactly on its current node. What it leaves unplanned had no room.
\<close>

definition keep_inv :: "(db_id \<rightharpoonup> int) \<Rightarrow> plan \<Rightarrow> db_id list \<Rightarrow> db_id list \<Rightarrow> plan \<Rightarrow> load \<Rightarrow> bool" where
  "keep_inv cap existing cams seen plan load \<longleftrightarrow>
     plan_ok cap cams plan load \<and> dom plan \<subseteq> set seen \<and> plan \<subseteq>\<^sub>m existing
     \<and> (\<forall>c \<in> set seen. \<forall>n k. existing c = Some n \<longrightarrow> cap n = Some k \<longrightarrow> plan c = None \<longrightarrow> k \<le> load n)"

lemma keep_step_inv:
  assumes inv: "keep_inv cap existing cams seen plan load" and "distinct cams" "c \<in> set cams"
    and "c \<notin> set seen" and step: "keep_step cap existing c (plan, load) = (plan', load')"
  shows "keep_inv cap existing cams (seen @ [c]) plan' load'"
proof -
  have ok: "plan_ok cap cams plan load" and fresh: "plan c = None" and sub: "plan \<subseteq>\<^sub>m existing"
    using inv assms(4) by (auto simp: keep_inv_def)
  show ?thesis
  proof (cases "\<exists>n k. existing c = Some n \<and> cap n = Some k \<and> load n < k")
    case True
    then obtain n k where nk: "existing c = Some n" "cap n = Some k" "load n < k" by blast
    then have eq: "plan' = plan(c \<mapsto> n)" "load' = load(n := load n + 1)"
      using step by (simp_all add: keep_step_def)
    have "plan_ok cap cams plan' load'"
      unfolding eq by (rule plan_ok_upd [OF ok assms(2,3) fresh nk(2,3)])
    moreover have "plan' \<subseteq>\<^sub>m existing"
      using sub nk(1) by (auto simp: eq map_le_def)
    ultimately show ?thesis using inv eq nk by (fastforce simp: keep_inv_def)
  next
    case False
    then have "plan' = plan" "load' = load"
      using step by (auto simp: keep_step_def split: option.splits if_splits)
    with False inv show ?thesis by (force simp: keep_inv_def)
  qed
qed

lemma keep_loop_inv:
  assumes "distinct cams" and "seen @ rest = cams" and "keep_inv cap existing cams seen plan load"
    and "fold (keep_step cap existing) rest (plan, load) = (plan', load')"
  shows "keep_inv cap existing cams cams plan' load'"
  using assms(2-4)
proof (induction rest arbitrary: seen plan load)
  case Nil
  then show ?case by simp
next
  case (Cons c rest)
  obtain p l where step: "keep_step cap existing c (plan, load) = (p, l)" by fastforce
  have "c \<in> set cams" "c \<notin> set seen" using Cons.prems(1) assms(1) by auto
  from keep_step_inv [OF Cons.prems(2) assms(1) this step]
  have "keep_inv cap existing cams (seen @ [c]) p l" .
  with Cons.IH [of "seen @ [c]" p l] Cons.prems(1,3) step show ?case by simp
qed

text \<open>
  The place loop: kept cameras stay, everything seen is planned or pending, and once a camera is
  pending every node is full (loads only grow).
\<close>

definition place_inv ::
  "db_id list \<Rightarrow> (db_id \<rightharpoonup> int) \<Rightarrow> plan \<Rightarrow> db_id list \<Rightarrow> db_id list \<Rightarrow> plan \<times> load \<times> db_id list \<Rightarrow> bool" where
  "place_inv nodes cap kept cams seen = (\<lambda>(plan, load, pending).
     plan_ok cap cams plan load \<and> kept \<subseteq>\<^sub>m plan \<and> dom plan \<subseteq> dom kept \<union> set seen
     \<and> pending = filter (\<lambda>c. plan c = None) seen
     \<and> (pending \<noteq> [] \<longrightarrow> (\<forall>n \<in> set nodes. \<forall>k. cap n = Some k \<longrightarrow> k \<le> load n)))"

lemma place_step_inv:
  assumes inv: "place_inv nodes cap kept cams seen st" and "distinct cams" "c \<in> set cams"
    and "c \<notin> set seen" and nodes: "set nodes \<subseteq> dom cap"
  shows "place_inv nodes cap kept cams (seen @ [c]) (place_step nodes cap c st)"
proof -
  obtain plan load pending where st: "st = (plan, load, pending)" by (cases st) auto
  show ?thesis
  proof (cases "plan c")
    case (Some n)
    then show ?thesis using inv by (auto simp: st place_step_def place_inv_def)
  next
    case None
    show ?thesis
    proof (cases "pick_node nodes load cap")
      case None2: None
      have "k \<le> load n" if "n \<in> set nodes" "cap n = Some k" for n k
        using pick_node_NoneD [OF None2 that] .
      with inv None None2 show ?thesis
        by (auto simp: st place_step_def place_inv_def)
    next
      case (Some n)
      with nodes obtain k where k: "n \<in> set nodes" "cap n = Some k" "load n < k"
        by (auto elim!: pick_node_SomeD)
      have "plan_ok cap cams (plan(c \<mapsto> n)) (load(n := load n + 1))"
        using inv k None assms(2,3) by (intro plan_ok_upd) (auto simp: st place_inv_def)
      moreover have "kept \<subseteq>\<^sub>m plan(c \<mapsto> n)"
        using inv None by (auto simp: st place_inv_def map_le_def dom_def)
      moreover have "pending = []"
        using inv k by (force simp: st place_inv_def)
      moreover have "filter (\<lambda>x. (plan(c \<mapsto> n)) x = None) seen = []"
        using inv \<open>pending = []\<close> filter_empty_conv [of "\<lambda>c. plan c = None" seen]
        by (auto simp: st place_inv_def filter_empty_conv)
      ultimately show ?thesis
        using inv None Some by (auto simp: st place_step_def place_inv_def)
    qed
  qed
qed

lemma place_loop_inv:
  assumes "distinct cams" and "seen @ rest = cams" and "place_inv nodes cap kept cams seen st"
    and "set nodes \<subseteq> dom cap"
  shows "place_inv nodes cap kept cams cams (fold (place_step nodes cap) rest st)"
  using assms(2,3)
proof (induction rest arbitrary: seen st)
  case Nil
  then show ?case by simp
next
  case (Cons c rest)
  have "c \<in> set cams" "c \<notin> set seen" using Cons.prems(1) assms(1) by auto
  from place_step_inv [OF Cons.prems(2) assms(1) this assms(4)]
  have "place_inv nodes cap kept cams (seen @ [c]) (place_step nodes cap c st)" .
  with Cons.IH [of "seen @ [c]"] Cons.prems(1) show ?case by simp
qed

section \<open>What a plan guarantees\<close>

lemma make_plan_inv:
  assumes "distinct cams" and "set nodes \<subseteq> dom cap"
    and plan: "make_plan nodes cap existing cams = (plan, load, pending)"
  obtains kept kload where "keep_inv cap existing cams cams kept kload"
    and "place_inv nodes cap kept cams cams (plan, load, pending)"
proof -
  obtain kept kload where keep: "fold (keep_step cap existing) cams (Map.empty, \<lambda>_. 0) = (kept, kload)"
    by fastforce
  have kinv: "keep_inv cap existing cams cams kept kload"
    by (rule keep_loop_inv [where seen = "[]", OF assms(1) _ _ keep])
       (auto simp: keep_inv_def plan_ok_empty)
  have "place_inv nodes cap kept cams [] (kept, kload, [])"
    using kinv by (simp add: place_inv_def keep_inv_def)
  from place_loop_inv [OF assms(1) _ this assms(2), of cams] plan
  have "place_inv nodes cap kept cams cams (plan, load, pending)"
    by (simp add: make_plan_def keep)
  with kinv show thesis by (rule that)
qed

text \<open>A plan respects every capacity, counts its loads, and leaves a camera pending only when every
  node is full.\<close>

lemma make_plan_ok:
  assumes "distinct cams" and "set nodes \<subseteq> dom cap"
    and "make_plan nodes cap existing cams = (plan, load, pending)"
  shows "plan_ok cap cams plan load"
    and "pending = filter (\<lambda>c. plan c = None) cams"
    and "\<And>c n k. c \<in> set pending \<Longrightarrow> n \<in> set nodes \<Longrightarrow> cap n = Some k \<Longrightarrow> k \<le> load n"
proof -
  obtain kept kload where "place_inv nodes cap kept cams cams (plan, load, pending)"
    using make_plan_inv [OF assms] by blast
  then have inv: "plan_ok cap cams plan load" "pending = filter (\<lambda>c. plan c = None) cams"
    "pending \<noteq> [] \<longrightarrow> (\<forall>n \<in> set nodes. \<forall>k. cap n = Some k \<longrightarrow> k \<le> load n)"
    by (simp_all add: place_inv_def)
  show "plan_ok cap cams plan load" "pending = filter (\<lambda>c. plan c = None) cams"
    by (fact inv)+
  show "k \<le> load n" if "c \<in> set pending" "n \<in> set nodes" "cap n = Some k" for c n k
  proof -
    have "pending \<noteq> []" using that(1) by auto
    with inv(3) that(2,3) show ?thesis by blast
  qed
qed

lemma cams_on_less:
  assumes "distinct cams" and "\<And>x. p x = Some n \<Longrightarrow> q x = Some n"
    and "c \<in> set cams" "p c \<noteq> Some n" "q c = Some n"
  shows "cams_on cams p n < cams_on cams q n"
proof -
  have "set (filter (\<lambda>x. p x = Some n) cams) \<subset> set (filter (\<lambda>x. q x = Some n) cams)"
    using assms by auto
  then have "card (set (filter (\<lambda>x. p x = Some n) cams)) < card (set (filter (\<lambda>x. q x = Some n) cams))"
    by (intro psubset_card_mono) auto
  then show ?thesis
    using assms(1) by (simp add: cams_on_def distinct_card [symmetric] del: set_filter)
qed

text \<open>Stability: a camera moves only if its node left the pool or ended up full.\<close>

lemma make_plan_stable:
  assumes "distinct cams" and "set nodes \<subseteq> dom cap"
    and plan: "make_plan nodes cap existing cams = (plan, load, pending)"
    and c: "c \<in> set cams" "existing c = Some n" "cap n = Some k" and fits: "int (cams_on cams existing n) \<le> k"
  shows "plan c = Some n"
proof -
  from make_plan_inv [OF assms(1-3)] obtain kept kload where
    keep: "keep_inv cap existing cams cams kept kload"
    and place: "place_inv nodes cap kept cams cams (plan, load, pending)" by blast
  have "kept c = Some n"
  proof (rule ccontr)
    assume "kept c \<noteq> Some n"
    with keep c have none: "kept c = None"
      by (auto simp: keep_inv_def map_le_def dom_def)
    have full: "k \<le> kload n" using keep c none by (auto simp: keep_inv_def)
    have kload: "kload n = int (cams_on cams kept n)"
      using keep by (simp add: keep_inv_def plan_ok_def)
    have "cams_on cams kept n < cams_on cams existing n"
      by (rule cams_on_less [OF assms(1) _ c(1)])
         (use keep c none in \<open>auto simp: keep_inv_def map_le_def dom_def\<close>)
    with full fits kload show False by linarith
  qed
  with place show ?thesis by (auto simp: place_inv_def map_le_def dom_def)
qed

text \<open>Re-planning a plan changes nothing.\<close>

lemma make_plan_idem:
  assumes dist: "distinct cams" and nodes: "set nodes = dom cap"
    and nonneg: "\<And>n k. cap n = Some k \<Longrightarrow> 0 \<le> k"
    and plan: "make_plan nodes cap existing cams = (plan, load, pending)"
    and again: "make_plan nodes cap plan cams = (plan', load', pending')"
  shows "plan' = plan \<and> load' = load \<and> pending' = pending"
proof -
  note ok = make_plan_ok [OF dist nodes [THEN equalityD1] plan]
    and ok' = make_plan_ok [OF dist nodes [THEN equalityD1] again]
  have le: "int (cams_on cams plan n) \<le> k" if "cap n = Some k" for n k
    using ok(1) that nonneg [OF that] by (fastforce simp: plan_ok_def)
  have stay: "plan' c = Some n" if cn: "plan c = Some n" for c n
  proof -
    have "c \<in> set cams" using ok(1) cn by (auto simp: plan_ok_def)
    moreover obtain k where k: "cap n = Some k" using ok(1) cn by (auto simp: plan_ok_def ran_def)
    ultimately show ?thesis
      using make_plan_stable [OF dist nodes [THEN equalityD1] again _ cn k le [OF k]] by blast
  qed
  have none: "plan' c = None" if c: "plan c = None" for c
  proof (rule ccontr)
    assume "plan' c \<noteq> None"
    then obtain n where n: "plan' c = Some n" by blast
    then have cc: "c \<in> set cams" and "n \<in> dom cap" using ok'(1) by (auto simp: plan_ok_def ran_def)
    then obtain k where k: "cap n = Some k" "n \<in> set nodes" using nodes by blast
    have "k \<le> load n" using ok(2,3) cc c k by auto
    moreover have "load n = int (cams_on cams plan n)" using ok(1) by (simp add: plan_ok_def)
    moreover have "cams_on cams plan n < cams_on cams plan' n"
      by (rule cams_on_less [where c = c]) (use dist stay cc n c in auto)
    moreover have "int (cams_on cams plan' n) \<le> k"
      using ok'(1) k nonneg [OF k(1)] by (fastforce simp: plan_ok_def)
    ultimately show False by linarith
  qed
  have "plan' = plan"
  proof
    show "plan' c = plan c" for c using stay none by (cases "plan c") auto
  qed
  then show ?thesis using ok(1,2) ok'(1,2) by (auto simp: plan_ok_def)
qed

end
