(* ===== verification/AiScheduler.thy ===== *)
theory AiScheduler
  imports NodePlan Storage Tokens
begin

text \<open>
  The inference cluster: \<open>server/model/ai_node.py\<close>, \<open>detection_assignment.py\<close>, \<open>ai_settings.py\<close> (the
  columns scheduling reads) and \<open>server/service/ai_scheduler.py\<close>.

  The state extends the recorder's tables with the node, assignment and settings tables and the token
  service's state (which holds the Redis server). An assignment row is identified by its camera
  (\<open>uq_assign_cam\<close>), a node by its id.
\<close>

section \<open>State\<close>

definition STATE_PENDING :: string where "STATE_PENDING = ''pending''"
definition STATE_ACTIVE :: string where "STATE_ACTIVE = ''active''"
definition STATE_REASSIGNING :: string where "STATE_REASSIGNING = ''reassigning''"
definition STATUS_ONLINE :: string where "STATUS_ONLINE = ''online''"
definition STATUS_DEGRADED :: string where "STATUS_DEGRADED = ''degraded''"
definition STATUS_OFFLINE :: string where "STATUS_OFFLINE = ''offline''"
definition STATUS_DRAINING :: string where "STATUS_DRAINING = ''draining''"
definition STATUS_DISABLED :: string where "STATUS_DISABLED = ''disabled''"

lemmas node_consts = STATE_PENDING_def STATE_ACTIVE_def STATE_REASSIGNING_def STATUS_ONLINE_def
  STATUS_DEGRADED_def STATUS_OFFLINE_def STATUS_DRAINING_def STATUS_DISABLED_def

record ai_node =
  an_id :: db_id
  an_uuid :: string
  an_name :: pyval
  an_kind :: string
  an_status :: string
  an_enabled :: bool
  an_gpu :: bool
  an_gpu_name :: pyval
  an_capacity :: int
  an_capabilities :: pyval
  an_bench :: pyval
  an_version :: pyval
  an_assigned_count :: int
  an_last_heartbeat_ts :: "ts option"
  an_token_jti :: "string option"
  an_last_seen_ip :: "string option"
  an_last_error :: "string option"
  an_created_at :: ts
  an_deleted_at :: "ts option"

record detection_assignment =
  da_camera :: db_id
  da_node :: db_id
  da_state :: string
  da_model :: "string option"
  da_target_fps :: "int option"
  da_claimed_at :: "ts option"
  da_last_report_ts :: "ts option"
  da_epoch :: int

record ai_settings =
  st_camera :: "db_id option"
  st_detection_enabled :: bool
  st_gpu_enabled :: bool
  st_model :: string
  st_target_fps :: int
  st_imgsz :: int
  st_min_confidence :: int

record 'r ai_state = nvr +
  ai_nodes :: "ai_node list"
  ai_rows :: "detection_assignment list"
  ai_settings_rows :: "ai_settings list"
  ai_tok :: "'r token_db"

section \<open>Nodes\<close>

definition AiNode_get_by_id :: "'r ai_state \<Rightarrow> db_id \<Rightarrow> ai_node option" where
  "AiNode_get_by_id s i = first_row (filter (\<lambda>n. an_id n = i \<and> an_deleted_at n = None) (ai_nodes s))"

definition AiNode_get_by_uuid :: "'r ai_state \<Rightarrow> string \<Rightarrow> ai_node option" where
  "AiNode_get_by_uuid s u = first_row (filter (\<lambda>n. an_uuid n = u \<and> an_deleted_at n = None) (ai_nodes s))"

definition AiNode_get_builtin :: "'r ai_state \<Rightarrow> ai_node option" where
  "AiNode_get_builtin s = first_row (filter (\<lambda>n. an_kind n = ''builtin'' \<and> an_deleted_at n = None) (ai_nodes s))"

definition AiNode_list_all :: "'r ai_state \<Rightarrow> ai_node list" where
  "AiNode_list_all s = sort_key an_created_at (filter (\<lambda>n. an_deleted_at n = None) (ai_nodes s))"

text \<open>\<open>order_by(gpu.desc(), capacity.desc())\<close>; rows equal in both keep the table's order.\<close>

definition AiNode_schedulable :: "'r ai_state \<Rightarrow> ai_node list" where
  "AiNode_schedulable s =
     sort_key (\<lambda>n. if an_gpu n then 0 else 1 :: int) (sort_key (\<lambda>n. - an_capacity n)
       (filter (\<lambda>n. an_deleted_at n = None \<and> an_enabled n \<and> an_status n = STATUS_ONLINE) (ai_nodes s)))"

definition AiNode_stale :: "'r ai_state \<Rightarrow> ts \<Rightarrow> ai_node list" where
  "AiNode_stale s cutoff =
     filter (\<lambda>n. an_deleted_at n = None \<and> (an_status n = STATUS_ONLINE \<or> an_status n = STATUS_DEGRADED)
               \<and> (case an_last_heartbeat_ts n of None \<Rightarrow> False | Some t \<Rightarrow> t < cutoff)) (ai_nodes s)"

definition AiNode_create :: "db_id \<Rightarrow> ts \<Rightarrow> string \<Rightarrow> pyval \<Rightarrow> string \<Rightarrow> 'r ai_state \<Rightarrow> ai_node \<times> 'r ai_state" where
  "AiNode_create i now uuid name kind s =
     (let n = \<lparr>an_id = i, an_uuid = uuid, an_name = name, an_kind = kind, an_status = STATUS_OFFLINE,
               an_enabled = True, an_gpu = False, an_gpu_name = PNone, an_capacity = 0, an_capabilities = PNone,
               an_bench = PNone, an_version = PNone, an_assigned_count = 0, an_last_heartbeat_ts = None,
               an_token_jti = None, an_last_seen_ip = None, an_last_error = None, an_created_at = now,
               an_deleted_at = None\<rparr>
      in (n, s\<lparr>ai_nodes := ai_nodes s @ [n]\<rparr>))"

definition AiNode_update :: "db_id \<Rightarrow> (ai_node \<Rightarrow> ai_node) \<Rightarrow> 'r ai_state \<Rightarrow> 'r ai_state" where
  "AiNode_update i f s = s\<lparr>ai_nodes := map (\<lambda>n. if an_id n = i then f n else n) (ai_nodes s)\<rparr>"

definition AiNode_soft_delete :: "ts \<Rightarrow> db_id \<Rightarrow> 'r ai_state \<Rightarrow> 'r ai_state" where
  "AiNode_soft_delete now i = AiNode_update i (\<lambda>n. n\<lparr>an_deleted_at := Some now, an_status := STATUS_DISABLED\<rparr>)"

section \<open>Assignments\<close>

definition get_for_camera :: "detection_assignment list \<Rightarrow> db_id \<Rightarrow> detection_assignment option" where
  "get_for_camera rows c = first_row (filter (\<lambda>a. da_camera a = c) rows)"

definition for_node :: "detection_assignment list \<Rightarrow> db_id \<Rightarrow> detection_assignment list" where
  "for_node rows n = filter (\<lambda>a. da_node a = n) rows"

definition all_rows :: "detection_assignment list \<Rightarrow> detection_assignment list" where
  "all_rows rows = sort_key da_camera rows"

definition by_state :: "detection_assignment list \<Rightarrow> string \<Rightarrow> detection_assignment list" where
  "by_state rows st = filter (\<lambda>a. da_state a = st) rows"

definition repoint :: "db_id \<Rightarrow> string \<Rightarrow> detection_assignment \<Rightarrow> detection_assignment" where
  "repoint n st a =
     (let a1 = (if da_node a \<noteq> n then a\<lparr>da_epoch := da_epoch a + 1, da_claimed_at := None\<rparr> else a)
      in a1\<lparr>da_node := n, da_state := st\<rparr>)"

definition assign :: "db_id \<Rightarrow> db_id \<Rightarrow> string \<Rightarrow> detection_assignment list \<Rightarrow> detection_assignment list" where
  "assign c n st rows =
     (case get_for_camera rows c of
        None \<Rightarrow> rows @ [\<lparr>da_camera = c, da_node = n, da_state = st, da_model = None, da_target_fps = None,
                         da_claimed_at = None, da_last_report_ts = None, da_epoch = 1\<rparr>]
      | Some _ \<Rightarrow> map (\<lambda>a. if da_camera a = c then repoint n st a else a) rows)"

definition set_state :: "db_id \<Rightarrow> string \<Rightarrow> detection_assignment list \<Rightarrow> detection_assignment list" where
  "set_state c st rows = map (\<lambda>a. if da_camera a = c then a\<lparr>da_state := st\<rparr> else a) rows"

definition mark_report :: "ts \<Rightarrow> db_id \<Rightarrow> detection_assignment list \<Rightarrow> detection_assignment list" where
  "mark_report now c rows =
     map (\<lambda>a. if da_camera a = c
              then (let a1 = a\<lparr>da_last_report_ts := Some now\<rparr>
                    in if da_state a = STATE_PENDING then a1\<lparr>da_state := STATE_ACTIVE, da_claimed_at := Some now\<rparr> else a1)
              else a) rows"

definition remove_for_camera :: "db_id \<Rightarrow> detection_assignment list \<Rightarrow> detection_assignment list" where
  "remove_for_camera c rows = filter (\<lambda>a. da_camera a \<noteq> c) rows"

section \<open>Enabled cameras\<close>

definition AiSettings_get_global :: "'r ai_state \<Rightarrow> ai_settings option" where
  "AiSettings_get_global s = first_row (filter (\<lambda>r. st_camera r = None) (ai_settings_rows s))"

definition AiSettings_get_for_camera :: "'r ai_state \<Rightarrow> db_id \<Rightarrow> ai_settings option" where
  "AiSettings_get_for_camera s c = first_row (filter (\<lambda>r. st_camera r = Some c) (ai_settings_rows s))"

definition AiSettings_ensure_global :: "'r ai_state \<Rightarrow> ai_settings \<times> 'r ai_state" where
  "AiSettings_ensure_global s =
     (case AiSettings_get_global s of
        Some g \<Rightarrow> (g, s)
      | None \<Rightarrow>
          (let g = \<lparr>st_camera = None, st_detection_enabled = True, st_gpu_enabled = False, st_model = ''yolo11n'',
                    st_target_fps = 5, st_imgsz = 640, st_min_confidence = 35\<rparr>
           in (g, s\<lparr>ai_settings_rows := ai_settings_rows s @ [g]\<rparr>)))"

text \<open>The override row replaces the global one as a whole; the GPU toggle is always the global one.\<close>

definition effective_settings :: "db_id \<Rightarrow> 'r ai_state \<Rightarrow> ai_settings \<times> 'r ai_state" where
  "effective_settings c s =
     (case AiSettings_ensure_global s of
        (g, s1) \<Rightarrow> ((case AiSettings_get_for_camera s1 c of None \<Rightarrow> g | Some r \<Rightarrow> r)\<lparr>st_gpu_enabled := st_gpu_enabled g\<rparr>, s1))"

fun enabled_loop :: "camera list \<Rightarrow> 'r ai_state \<Rightarrow> db_id list \<times> 'r ai_state" where
  "enabled_loop [] s = ([], s)"
| "enabled_loop (c # cs) s =
     (case effective_settings (cam_id c) s of
        (eff, s1) \<Rightarrow> (case enabled_loop cs s1 of
           (out, s2) \<Rightarrow> (if st_detection_enabled eff then cam_id c # out else out, s2)))"

definition enabled_camera_ids :: "'r ai_state \<Rightarrow> db_id list \<times> 'r ai_state" where
  "enabled_camera_ids s = enabled_loop (Camera_get_all_enabled s) s"

section \<open>Rebalance\<close>

definition ETAG_KEY :: "'r token_env \<Rightarrow> string" where
  "ETAG_KEY E = cfg_redis_prefix (env_cfg E) @ '':ai:assign:etag''"

definition current_etag :: "'r token_env \<Rightarrow> 'r ai_state \<Rightarrow> string" where
  "current_etag E s =
     (case rd_get (env_redis E) (ETAG_KEY E) (td_redis (ai_tok s)) of
        Some (Some v) \<Rightarrow> if v \<noteq> [] then v else ''0''
      | _ \<Rightarrow> ''0'')"

definition bump_etag :: "'r token_env \<Rightarrow> 'r ai_state \<Rightarrow> 'r ai_state" where
  "bump_etag E s =
     (case rd_incr (env_redis E) (ETAG_KEY E) (td_redis (ai_tok s)) of
        None \<Rightarrow> s
      | Some (_, r) \<Rightarrow> s\<lparr>ai_tok := (ai_tok s)\<lparr>td_redis := r\<rparr>\<rparr>)"

record rebalance_result =
  rb_assigned :: int
  rb_pending :: "string list"
  rb_pending_count :: int
  rb_changed :: int
  rb_etag :: string

definition node_cap :: "ai_node list \<Rightarrow> db_id \<rightharpoonup> int" where
  "node_cap nodes = map_of (map (\<lambda>n. (an_id n, max 0 (an_capacity n))) nodes)"

definition row_node :: "detection_assignment list \<Rightarrow> db_id \<rightharpoonup> db_id" where
  "row_node rows c = map_option da_node (get_for_camera rows c)"

text \<open>Write one camera's place: \<open>ex\<close> is the snapshot of the rows taken before the loops.\<close>

definition write_step ::
  "plan \<Rightarrow> plan \<Rightarrow> db_id \<Rightarrow> detection_assignment list \<times> int \<Rightarrow> detection_assignment list \<times> int" where
  "write_step plan ex c = (\<lambda>(rows, changed).
     case plan c of
       None \<Rightarrow> if ex c \<noteq> None then (remove_for_camera c rows, changed + 1) else (rows, changed)
     | Some n \<Rightarrow> if ex c = Some n then (rows, changed)
                 else (assign c n STATE_PENDING rows, changed + 1))"

definition drop_step ::
  "db_id list \<Rightarrow> db_id \<Rightarrow> detection_assignment list \<times> int \<Rightarrow> detection_assignment list \<times> int" where
  "drop_step cams c = (\<lambda>(rows, changed).
     if c \<notin> set cams then (remove_for_camera c rows, changed + 1) else (rows, changed))"

definition count_step :: "load \<Rightarrow> ai_node \<Rightarrow> 'r ai_state \<Rightarrow> 'r ai_state" where
  "count_step load n s =
     (if an_assigned_count n \<noteq> load (an_id n)
      then AiNode_update (an_id n) (\<lambda>m. m\<lparr>an_assigned_count := load (an_id n)\<rparr>) s else s)"

definition rebalance :: "'r token_env \<Rightarrow> 'r ai_state \<Rightarrow> rebalance_result \<times> 'r ai_state" where
  "rebalance E s0 =
     (case enabled_camera_ids s0 of (cams, s) \<Rightarrow>
      let nodes = AiNode_schedulable s;
          ex = row_node (ai_rows s);
          existing = map da_camera (all_rows (ai_rows s))
      in case make_plan (map an_id nodes) (node_cap nodes) ex cams of (plan, load, pending) \<Rightarrow>
         case fold (drop_step cams) existing (fold (write_step plan ex) cams (ai_rows s, 0)) of
           (rows, changed) \<Rightarrow>
             let s1 = fold (count_step load) nodes (s\<lparr>ai_rows := rows\<rparr>);
                 s2 = (if changed \<noteq> 0 then bump_etag E s1 else s1)
             in (\<lparr>rb_assigned = int (length cams) - int (length pending), rb_pending = map str_of_int pending,
                  rb_pending_count = int (length pending), rb_changed = changed, rb_etag = current_etag E s2\<rparr>, s2))"

definition reassign :: "'r token_env \<Rightarrow> db_id \<Rightarrow> 'r ai_state \<Rightarrow> rebalance_result \<times> 'r ai_state" where
  "reassign E n s =
     rebalance E (s\<lparr>ai_rows := fold (\<lambda>a. set_state (da_camera a) STATE_REASSIGNING) (for_node (ai_rows s) n) (ai_rows s)\<rparr>)"

text \<open>\<open>AiAssignmentController.pin\<close>.\<close>

definition pin :: "'r token_env \<Rightarrow> db_id \<Rightarrow> db_id \<Rightarrow> ('r ai_state, detection_assignment option) act" where
  "pin E c n s =
     (case Camera_get_by_id s c of
        Inl e \<Rightarrow> (Inl e, s)
      | Inr _ \<Rightarrow>
          (case AiNode_get_by_id s n of
             None \<Rightarrow> (Inl (InvalidParameterException ''unknown node''), s)
           | Some _ \<Rightarrow>
               let s1 = bump_etag E (s\<lparr>ai_rows := assign c n STATE_PENDING (ai_rows s)\<rparr>)
               in (Inr (get_for_camera (ai_rows s1) c), s1)))"

section \<open>The assignment table as an interface\<close>

text \<open>
  What a rebalance needs of an assignment table: which node a camera is on, pointing a camera at a
  node, removing a camera. The loops that write a plan are proved once over it.
\<close>

locale assignment_table =
  fixes node_of :: "'t \<Rightarrow> db_id \<rightharpoonup> db_id"
    and put :: "db_id \<Rightarrow> db_id \<Rightarrow> 't \<Rightarrow> 't"
    and remove :: "db_id \<Rightarrow> 't \<Rightarrow> 't"
  assumes node_of_put: "node_of (put c n t) = (node_of t)(c \<mapsto> n)"
    and node_of_remove: "node_of (remove c t) = (node_of t)(c := None)"
begin

lemma write_loop:
  assumes "distinct cams"
    and "\<And>c t. c \<in> set cams \<Longrightarrow> node_of t c = node_of t0 c \<Longrightarrow> node_of (step c t) = (node_of t)(c := plan c)"
  shows "node_of (fold step cams t0) c = (if c \<in> set cams then plan c else node_of t0 c)"
proof -
  have "node_of (fold step cs t) c = (if c \<in> set cs then plan c else node_of t c)"
    if "distinct cs" "set cs \<subseteq> set cams" "\<And>d. d \<in> set cs \<Longrightarrow> node_of t d = node_of t0 d" for cs t
    using that
  proof (induction cs arbitrary: t)
    case Nil
    then show ?case by simp
  next
    case (Cons d cs)
    then have step: "node_of (step d t) = (node_of t)(d := plan d)" by (intro assms(2)) auto
    have "node_of (fold step cs (step d t)) c = (if c \<in> set cs then plan c else node_of (step d t) c)"
      using Cons.prems step by (intro Cons.IH) auto
    then show ?case using Cons.prems(1) step by auto
  qed
  then show ?thesis using assms(1) by blast
qed

lemma remove_loop: "node_of (fold remove cs t) c = (if c \<in> set cs then None else node_of t c)"
  by (induction cs arbitrary: t) (auto simp: node_of_remove)

end

lemma row_node_assign: "row_node (assign c n st rows) = (row_node rows)(c \<mapsto> n)"
proof
  fix d
  have cam: "da_camera (repoint n st a) = da_camera a" for a by (simp add: repoint_def Let_def)
  have upd: "get_for_camera (map (\<lambda>a. if da_camera a = c then repoint n st a else a) rs) d
      = (if d = c then map_option (repoint n st) (get_for_camera rs c) else get_for_camera rs d)" for rs
    by (induction rs) (auto simp: get_for_camera_def cam)
  have node: "da_node (repoint n st a) = n" for a by (simp add: repoint_def Let_def)
  show "row_node (assign c n st rows) d = ((row_node rows)(c \<mapsto> n)) d"
  proof (cases "get_for_camera rows c")
    case None
    then show ?thesis
      by (auto simp: row_node_def assign_def get_for_camera_def first_row_append filter_empty_conv)
  next
    case (Some a)
    then show ?thesis
      by (simp add: row_node_def assign_def upd node)
  qed
qed

lemma row_node_remove: "row_node (remove_for_camera c rows) = (row_node rows)(c := None)"
proof
  fix d
  have "get_for_camera (remove_for_camera c rs) d = (if d = c then None else get_for_camera rs d)" for rs
    by (induction rs) (auto simp: get_for_camera_def remove_for_camera_def)
  then show "row_node (remove_for_camera c rows) d = ((row_node rows)(c := None)) d"
    by (simp add: row_node_def)
qed

text \<open>The loops carry the rows and the number of changes.\<close>

interpretation ai_table: assignment_table
  "\<lambda>t. row_node (fst t)"
  "\<lambda>c n t. (assign c n STATE_PENDING (fst t), snd t + 1 :: int)"
  "\<lambda>c t. (remove_for_camera c (fst t), snd t + 1 :: int)"
  by unfold_locales (simp_all add: row_node_assign row_node_remove)

end
