(* ===== verification/AiProps.thy ===== *)
theory AiProps
  imports AiScheduler TokenProps
begin

text \<open>
  What \<open>ai_scheduler.rebalance\<close> guarantees: capacities and eligibility, honest counters, pending only
  under a full pool, stable placements, and that a second run is a no-op.
\<close>

section \<open>Frame lemmas\<close>

lemma ensure_global_frame:
  assumes "AiSettings_ensure_global s = (g, s')"
  shows "ai_nodes s' = ai_nodes s" "ai_rows s' = ai_rows s" "n_cameras s' = n_cameras s"
    and "AiSettings_ensure_global s' = (g, s')"
    and "AiSettings_get_for_camera s' c = AiSettings_get_for_camera s c"
  using assms
  by (auto simp: AiSettings_ensure_global_def AiSettings_get_global_def AiSettings_get_for_camera_def Let_def
      first_row_append split: option.splits)

text \<open>One settings snapshot decides every camera: the first call settles the global row.\<close>

definition detects :: "'r ai_state \<Rightarrow> db_id \<Rightarrow> bool" where
  "detects s c \<longleftrightarrow> st_detection_enabled (case AiSettings_get_for_camera s c of
       None \<Rightarrow> fst (AiSettings_ensure_global s) | Some r \<Rightarrow> r)"

lemma detects_cong:
  assumes "ai_settings_rows s = ai_settings_rows t"
  shows "detects s = detects t"
  using assms by (intro ext)
    (simp add: detects_def AiSettings_get_for_camera_def AiSettings_ensure_global_def AiSettings_get_global_def Let_def
      split: option.splits)

lemma effective_settings_detects:
  assumes "effective_settings c s = (eff, s1)"
  shows "st_detection_enabled eff = detects s c" "detects s1 = detects s"
    "ai_nodes s1 = ai_nodes s" "ai_rows s1 = ai_rows s" "n_cameras s1 = n_cameras s"
proof -
  obtain g t where g: "AiSettings_ensure_global s = (g, t)" by fastforce
  note frame = ensure_global_frame [OF g]
  have t: "s1 = t" using assms by (simp add: effective_settings_def g)
  show "st_detection_enabled eff = detects s c"
    using assms by (auto simp: effective_settings_def g detects_def frame(5) split: option.splits)
  show "detects s1 = detects s"
    using frame(4) g by (intro ext) (simp add: t detects_def frame(5) split: option.splits)
  show "ai_nodes s1 = ai_nodes s" "ai_rows s1 = ai_rows s" "n_cameras s1 = n_cameras s"
    using frame(1-3) t by simp_all
qed

lemma enabled_loop_result:
  assumes "enabled_loop cs s = (ids, s')"
  shows "ids = map cam_id (filter (\<lambda>c. detects s (cam_id c)) cs)"
    and "ai_nodes s' = ai_nodes s" "ai_rows s' = ai_rows s" "n_cameras s' = n_cameras s" "detects s' = detects s"
proof -
  have "ids = map cam_id (filter (\<lambda>c. detects s (cam_id c)) cs) \<and> ai_nodes s' = ai_nodes s
      \<and> ai_rows s' = ai_rows s \<and> n_cameras s' = n_cameras s \<and> detects s' = detects s"
    using assms
  proof (induction cs arbitrary: s ids s')
    case Nil
    then show ?case by simp
  next
    case (Cons c cs)
    obtain eff s1 where eff: "effective_settings (cam_id c) s = (eff, s1)" by fastforce
    obtain out s2 where out: "enabled_loop cs s1 = (out, s2)" by fastforce
    have "s' = s2" "ids = (if st_detection_enabled eff then cam_id c # out else out)"
      using Cons.prems by (simp_all add: eff out)
    with Cons.IH [OF out] effective_settings_detects [OF eff] show ?case by auto
  qed
  then show "ids = map cam_id (filter (\<lambda>c. detects s (cam_id c)) cs)"
    and "ai_nodes s' = ai_nodes s" "ai_rows s' = ai_rows s" "n_cameras s' = n_cameras s" "detects s' = detects s"
    by blast+
qed

text \<open>The cameras that want a node, and the ids and capacities of the pool, as functions of the state.\<close>

definition wanted :: "'r ai_state \<Rightarrow> db_id list" where
  "wanted s = map cam_id (filter (\<lambda>c. detects s (cam_id c)) (Camera_get_all_enabled s))"

definition pool :: "'r ai_state \<Rightarrow> db_id list" where
  "pool s = map an_id (AiNode_schedulable s)"

definition well_keyed :: "'r ai_state \<Rightarrow> bool" where
  "well_keyed s \<longleftrightarrow> distinct (map cam_id (n_cameras s)) \<and> distinct (map an_id (ai_nodes s))"

lemma distinct_map_filter_sub: "distinct (map f xs) \<Longrightarrow> distinct (map f (filter P xs))"
  by (induction xs) auto

lemma wanted_distinct: "well_keyed s \<Longrightarrow> distinct (wanted s)"
  by (simp add: wanted_def well_keyed_def Camera_get_all_enabled_def distinct_map_filter_sub)

lemma mset_schedulable:
  "mset (AiNode_schedulable s) =
     mset (filter (\<lambda>n. an_deleted_at n = None \<and> an_enabled n \<and> an_status n = STATUS_ONLINE) (ai_nodes s))"
  by (simp add: AiNode_schedulable_def)

lemma set_schedulable:
  "set (AiNode_schedulable s) =
     {n \<in> set (ai_nodes s). an_deleted_at n = None \<and> an_enabled n \<and> an_status n = STATUS_ONLINE}"
  by (auto simp: AiNode_schedulable_def)

lemma pool_distinct: "well_keyed s \<Longrightarrow> distinct (pool s)"
proof -
  assume "well_keyed s"
  then have "distinct (map an_id (filter (\<lambda>n. an_deleted_at n = None \<and> an_enabled n \<and> an_status n = STATUS_ONLINE) (ai_nodes s)))"
    by (simp add: well_keyed_def distinct_map_filter_sub)
  moreover have "mset (pool s) = mset (map an_id (filter (\<lambda>n. an_deleted_at n = None \<and> an_enabled n \<and> an_status n = STATUS_ONLINE) (ai_nodes s)))"
    by (simp add: pool_def mset_schedulable)
  ultimately show ?thesis by (metis mset_eq_imp_distinct_iff)
qed

lemma dom_node_cap: "dom (node_cap nodes) = set (map an_id nodes)"
  by (simp add: node_cap_def dom_map_of_conv_image_fst image_image)

lemma node_cap_mem:
  assumes "distinct (map an_id nodes)" and "n \<in> set nodes"
  shows "node_cap nodes (an_id n) = Some (max 0 (an_capacity n))"
  unfolding node_cap_def using assms by (intro map_of_is_SomeI) (auto simp: comp_def)

lemma node_cap_nonneg: "node_cap nodes i = Some k \<Longrightarrow> 0 \<le> k"
  by (auto simp: node_cap_def dest!: map_of_SomeD)

section \<open>Writing the plan\<close>

lemma write_step_node:
  assumes "row_node (fst t) c = ex c"
  shows "row_node (fst (write_step plan ex c t)) = (row_node (fst t))(c := plan c)"
  using assms
  by (cases t; cases "plan c") (auto simp: write_step_def row_node_assign row_node_remove fun_upd_idem)

lemma drop_loop:
  "fold (drop_step cams) cs t = fold (\<lambda>c t. (remove_for_camera c (fst t), snd t + 1)) (filter (\<lambda>c. c \<notin> set cams) cs) t"
  by (induction cs arbitrary: t) (auto simp: drop_step_def)

lemma row_node_keys: "row_node rows c \<noteq> None \<longleftrightarrow> c \<in> da_camera ` set rows"
  by (auto simp: row_node_def get_for_camera_def filter_empty_conv)

lemma written_rows:
  assumes "distinct cams" and "dom plan \<subseteq> set cams"
    and "fold (drop_step cams) (map da_camera (all_rows rows)) (fold (write_step plan (row_node rows)) cams (rows, 0)) = (rows', k)"
  shows "row_node rows' = plan"
proof
  fix c
  let ?w = "fold (write_step plan (row_node rows)) cams (rows, 0)"
  have w: "row_node (fst ?w) c = (if c \<in> set cams then plan c else row_node rows c)"
    using ai_table.write_loop [OF assms(1), of "(rows, 0)" "write_step plan (row_node rows)" plan c]
    by (simp add: write_step_node)
  have "row_node rows' c = (if c \<in> set (filter (\<lambda>c. c \<notin> set cams) (map da_camera (all_rows rows)))
      then None else row_node (fst ?w) c)"
    using ai_table.remove_loop [of "filter (\<lambda>c. c \<notin> set cams) (map da_camera (all_rows rows))" ?w c]
      assms(3) by (simp add: drop_loop)
  moreover have "c \<notin> set cams \<Longrightarrow> plan c = None" using assms(2) by auto
  ultimately show "row_node rows' c = plan c"
    using w row_node_keys [of rows c] by (auto simp: all_rows_def)
qed

text \<open>A camera whose place does not change keeps its row untouched.\<close>

lemma get_for_camera_assign_other: "d \<noteq> c \<Longrightarrow> get_for_camera (assign c n st rows) d = get_for_camera rows d"
proof -
  assume "d \<noteq> c"
  have cam: "da_camera (repoint n st a) = da_camera a" for a by (simp add: repoint_def Let_def)
  have "get_for_camera (map (\<lambda>a. if da_camera a = c then repoint n st a else a) rs) d = get_for_camera rs d" for rs
    using \<open>d \<noteq> c\<close> by (induction rs) (auto simp: get_for_camera_def cam)
  then show ?thesis
    using \<open>d \<noteq> c\<close> by (auto simp: assign_def get_for_camera_def first_row_append filter_empty_conv split: option.splits)
qed

lemma get_for_camera_remove_other: "d \<noteq> c \<Longrightarrow> get_for_camera (remove_for_camera c rows) d = get_for_camera rows d"
proof -
  assume "d \<noteq> c"
  then show ?thesis by (induction rows) (auto simp: get_for_camera_def remove_for_camera_def)
qed

lemma unchanged_row:
  assumes "plan d = row_node rows d" and "d \<in> set cams"
    and "fold (drop_step cams) (map da_camera (all_rows rows)) (fold (write_step plan (row_node rows)) cams (rows, 0)) = (rows', k)"
    and "row_node rows d \<noteq> None"
  shows "get_for_camera rows' d = get_for_camera rows d"
proof -
  have w: "get_for_camera (fst (fold (write_step plan (row_node rows)) cs t)) d = get_for_camera (fst t) d" for cs t
  proof (induction cs arbitrary: t)
    case (Cons c cs)
    have "get_for_camera (fst (write_step plan (row_node rows) c t)) d = get_for_camera (fst t) d"
      using assms(1,4) by (cases t; cases "d = c")
        (auto simp: write_step_def get_for_camera_assign_other get_for_camera_remove_other split: option.splits)
    with Cons.IH show ?case by simp
  qed simp
  have r: "get_for_camera (fst (fold (drop_step cams) cs t)) d = get_for_camera (fst t) d" for cs t
  proof (induction cs arbitrary: t)
    case (Cons c cs)
    have "get_for_camera (fst (drop_step cams c t)) d = get_for_camera (fst t) d"
      using assms(2) by (cases t; cases "d = c") (auto simp: drop_step_def get_for_camera_remove_other)
    with Cons.IH show ?case by simp
  qed simp
  from r [of "map da_camera (all_rows rows)" "fold (write_step plan (row_node rows)) cams (rows, 0)"]
    w [of cams "(rows, 0)"] assms(3) show ?thesis by simp
qed

lemma no_changes:
  assumes "\<And>c. c \<in> set cams \<Longrightarrow> plan c = ex c" and "set cs \<subseteq> set cams"
  shows "fold (drop_step cams) cs (fold (write_step plan ex) cams t) = t"
proof -
  have "fold (write_step plan ex) ds t = t" if "set ds \<subseteq> set cams" for ds
    using that
  proof (induction ds)
    case (Cons d ds)
    then have "write_step plan ex d t = t"
      using assms(1) [of d] by (cases t) (auto simp: write_step_def split: option.splits)
    with Cons show ?case by simp
  qed simp
  moreover have "fold (drop_step cams) cs t = t"
    using assms(2) by (induction cs) (auto simp: drop_step_def split: prod.splits)
  ultimately show ?thesis by simp
qed

section \<open>Counters\<close>

lemma count_loop:
  shows "ai_rows (fold (count_step load) ns s) = ai_rows s"
    and "n_cameras (fold (count_step load) ns s) = n_cameras s"
    and "ai_settings_rows (fold (count_step load) ns s) = ai_settings_rows s"
    and "ai_nodes (fold (count_step load) ns s) =
           map (\<lambda>m. if an_id m \<in> an_id ` set (filter (\<lambda>n. an_assigned_count n \<noteq> load (an_id n)) ns)
                    then m\<lparr>an_assigned_count := load (an_id m)\<rparr> else m) (ai_nodes s)"
  by (induction ns arbitrary: s) (auto simp: count_step_def AiNode_update_def)

lemma bump_etag_frame [simp]:
  "ai_rows (bump_etag E s) = ai_rows s" "ai_nodes (bump_etag E s) = ai_nodes s"
  "n_cameras (bump_etag E s) = n_cameras s" "ai_settings_rows (bump_etag E s) = ai_settings_rows s"
  by (simp_all add: bump_etag_def split: option.splits prod.splits)

section \<open>Rebalance\<close>

text \<open>The pieces of one run.\<close>

lemma rebalance_unfold:
  assumes wk: "well_keyed s" and run: "rebalance E s = (res, s')"
  obtains plan load pending k where
    "make_plan (pool s) (node_cap (AiNode_schedulable s)) (row_node (ai_rows s)) (wanted s) = (plan, load, pending)"
    and "row_node (ai_rows s') = plan"
    and "fold (drop_step (wanted s)) (map da_camera (all_rows (ai_rows s)))
           (fold (write_step plan (row_node (ai_rows s))) (wanted s) (ai_rows s, 0)) = (ai_rows s', k)"
    and "rb_changed res = k" and "rb_pending res = map str_of_int pending"
    and "ai_nodes s' = map (\<lambda>m. if an_id m \<in> an_id ` set (filter (\<lambda>n. an_assigned_count n \<noteq> load (an_id n)) (AiNode_schedulable s))
                    then m\<lparr>an_assigned_count := load (an_id m)\<rparr> else m) (ai_nodes s)"
    and "wanted s' = wanted s"
proof -
  obtain cams s1 where e: "enabled_camera_ids s = (cams, s1)" by fastforce
  note en = enabled_loop_result [OF e [unfolded enabled_camera_ids_def]]
  have cams: "cams = wanted s" using en(1) by (simp add: wanted_def)
  have sched: "AiNode_schedulable s1 = AiNode_schedulable s" using en(2) by (simp add: AiNode_schedulable_def)
  obtain plan load pending where
    p: "make_plan (pool s) (node_cap (AiNode_schedulable s)) (row_node (ai_rows s)) (wanted s) = (plan, load, pending)"
    by (metis prod_cases3)
  obtain rows k where w: "fold (drop_step (wanted s)) (map da_camera (all_rows (ai_rows s)))
      (fold (write_step plan (row_node (ai_rows s))) (wanted s) (ai_rows s, 0)) = (rows, k)"
    by fastforce
  let ?s2 = "fold (count_step load) (AiNode_schedulable s) (s1\<lparr>ai_rows := rows\<rparr>)"
  have s': "s' = (if k \<noteq> 0 then bump_etag E ?s2 else ?s2)"
    and res: "rb_changed res = k" "rb_pending res = map str_of_int pending"
    using run p w by (auto simp: rebalance_def e cams sched en(3) Let_def pool_def)
  have rows: "ai_rows s' = rows" by (simp add: s' count_loop)
  have dom: "dom plan \<subseteq> set (wanted s)"
    using make_plan_ok(1) [OF wanted_distinct [OF wk] _ p] by (simp add: dom_node_cap pool_def plan_ok_def)
  have cam': "Camera_get_all_enabled s' = Camera_get_all_enabled s"
    by (simp add: Camera_get_all_enabled_def s' count_loop en(4))
  have "detects s' = detects s1"
    by (rule detects_cong) (simp add: s' count_loop)
  then have "wanted s' = wanted s" using cam' en(5) by (simp add: wanted_def)
  with p written_rows [OF wanted_distinct [OF wk] dom w] w res rows show thesis
    by (intro that [of plan load pending k]) (simp_all add: s' count_loop en(2))
qed

text \<open>How many cameras the rows put on a node.\<close>

definition placed_on :: "'r ai_state \<Rightarrow> db_id \<Rightarrow> nat" where
  "placed_on s n = cams_on (wanted s) (row_node (ai_rows s)) n"

text \<open>After the counter loop every schedulable node carries its load.\<close>

lemma counted_nodes:
  assumes nodes: "ai_nodes s' = map (\<lambda>m. if an_id m \<in> an_id ` set (filter (\<lambda>n. an_assigned_count n \<noteq> load (an_id n)) (AiNode_schedulable s))
                    then m\<lparr>an_assigned_count := load (an_id m)\<rparr> else m) (ai_nodes s)"
    and "n \<in> set (AiNode_schedulable s')"
  obtains m where "m \<in> set (AiNode_schedulable s)" "an_id n = an_id m" "an_capacity n = an_capacity m"
    "an_assigned_count n = load (an_id m)"
proof -
  let ?ch = "filter (\<lambda>n. an_assigned_count n \<noteq> load (an_id n)) (AiNode_schedulable s)"
  have n: "n \<in> set (ai_nodes s')" "an_deleted_at n = None" "an_enabled n" "an_status n = STATUS_ONLINE"
    using assms(2) by (auto simp: set_schedulable)
  then obtain m where m: "m \<in> set (ai_nodes s)"
    "n = (if an_id m \<in> an_id ` set ?ch then m\<lparr>an_assigned_count := load (an_id m)\<rparr> else m)"
    unfolding nodes by auto
  show thesis
  proof (cases "an_id m \<in> an_id ` set ?ch")
    case True
    with m n(2-4) show thesis by (intro that [of m]) (simp_all add: set_schedulable)
  next
    case False
    then have "n = m" using m(2) by simp
    then have "m \<in> set (AiNode_schedulable s)" using m(1) n(2-4) by (simp add: set_schedulable)
    moreover from this have "an_assigned_count m = load (an_id m)" using False by auto
    ultimately show thesis using that \<open>n = m\<close> by blast
  qed
qed

lemma rebalance_eligible:
  assumes "well_keyed s" and "rebalance E s = (res, s')" and "row_node (ai_rows s') c = Some i"
  shows "c \<in> set (wanted s)
       \<and> (\<exists>n \<in> set (ai_nodes s). an_id n = i \<and> an_deleted_at n = None \<and> an_enabled n \<and> an_status n = STATUS_ONLINE)"
proof -
  obtain plan load pending k where
    p: "make_plan (pool s) (node_cap (AiNode_schedulable s)) (row_node (ai_rows s)) (wanted s) = (plan, load, pending)"
    and rows: "row_node (ai_rows s') = plan"
    and "fold (drop_step (wanted s)) (map da_camera (all_rows (ai_rows s)))
           (fold (write_step plan (row_node (ai_rows s))) (wanted s) (ai_rows s, 0)) = (ai_rows s', k)"
    and "rb_changed res = k" and "rb_pending res = map str_of_int pending"
    and "ai_nodes s' = map (\<lambda>m. if an_id m \<in> an_id ` set (filter (\<lambda>n. an_assigned_count n \<noteq> load (an_id n)) (AiNode_schedulable s))
                    then m\<lparr>an_assigned_count := load (an_id m)\<rparr> else m) (ai_nodes s)"
    and "wanted s' = wanted s"
    by (rule rebalance_unfold [OF assms(1,2)])
  have "set (pool s) \<subseteq> dom (node_cap (AiNode_schedulable s))" by (simp add: dom_node_cap pool_def)
  note ok = make_plan_ok [OF wanted_distinct [OF assms(1)] this p]
  have "c \<in> dom plan" "i \<in> ran plan" using assms(3) by (auto simp: rows ran_def)
  then have "c \<in> set (wanted s)" "i \<in> an_id ` set (AiNode_schedulable s)"
    using ok(1) dom_node_cap [of "AiNode_schedulable s"] unfolding plan_ok_def by auto
  then show ?thesis by (auto simp: set_schedulable)
qed

text \<open>C15: a run of \<open>ai_scheduler.rebalance\<close> leaves an assignment row only for a camera that is enabled and
  wants detection, and only on a node that is enabled, online and not deleted; no such node holds more
  cameras than its capacity, and its \<open>assigned_count\<close> is the number it holds; a wanted camera is left
  without a row (pending) only if every node of the pool is filled to its capacity.\<close>

theorem rebalance_sound:
  assumes "well_keyed s" and "rebalance E s = (res, s')"
  shows "(\<forall>c i. row_node (ai_rows s') c = Some i \<longrightarrow> c \<in> set (wanted s)
            \<and> (\<exists>n \<in> set (ai_nodes s). an_id n = i \<and> an_deleted_at n = None \<and> an_enabled n \<and> an_status n = STATUS_ONLINE))
       \<and> (\<forall>n \<in> set (AiNode_schedulable s'). int (placed_on s' (an_id n)) \<le> max 0 (an_capacity n)
            \<and> an_assigned_count n = int (placed_on s' (an_id n)))
       \<and> (\<forall>c \<in> set (wanted s). row_node (ai_rows s') c = None \<longrightarrow>
            (\<forall>n \<in> set (AiNode_schedulable s'). int (placed_on s' (an_id n)) = max 0 (an_capacity n)))
       \<and> rb_pending res = map str_of_int (filter (\<lambda>c. row_node (ai_rows s') c = None) (wanted s))"
proof -
  let ?cap = "node_cap (AiNode_schedulable s)"
  obtain plan load pending k where
    p: "make_plan (pool s) ?cap (row_node (ai_rows s)) (wanted s) = (plan, load, pending)"
    and rows: "row_node (ai_rows s') = plan"
    and "fold (drop_step (wanted s)) (map da_camera (all_rows (ai_rows s)))
           (fold (write_step plan (row_node (ai_rows s))) (wanted s) (ai_rows s, 0)) = (ai_rows s', k)"
    and "rb_changed res = k" and pend: "rb_pending res = map str_of_int pending"
    and nodes: "ai_nodes s' = map (\<lambda>m. if an_id m \<in> an_id ` set (filter (\<lambda>n. an_assigned_count n \<noteq> load (an_id n)) (AiNode_schedulable s))
                    then m\<lparr>an_assigned_count := load (an_id m)\<rparr> else m) (ai_nodes s)"
    and want: "wanted s' = wanted s"
    by (rule rebalance_unfold [OF assms])
  have "set (pool s) \<subseteq> dom ?cap" by (simp add: dom_node_cap pool_def)
  note ok = make_plan_ok [OF wanted_distinct [OF assms(1)] this p]
  have load: "load i = int (placed_on s' i)" for i
    using ok(1) by (simp add: plan_ok_def placed_on_def rows want)
  have ids: "distinct (map an_id (AiNode_schedulable s))"
    using pool_distinct [OF assms(1)] by (simp add: pool_def)
  have le: "load (an_id m) \<le> max 0 (an_capacity m)" if "m \<in> set (AiNode_schedulable s)" for m
  proof -
    have "load (an_id m) \<le> max 0 (max 0 (an_capacity m))"
      using ok(1) node_cap_mem [OF ids that] unfolding plan_ok_def by blast
    then show ?thesis by simp
  qed
  have "c \<in> set (wanted s) \<and> (\<exists>n \<in> set (ai_nodes s). an_id n = i \<and> an_deleted_at n = None \<and> an_enabled n \<and> an_status n = STATUS_ONLINE)"
    if "row_node (ai_rows s') c = Some i" for c i
    by (rule rebalance_eligible [OF assms that])
  moreover have "int (placed_on s' (an_id n)) \<le> max 0 (an_capacity n) \<and> an_assigned_count n = int (placed_on s' (an_id n))"
    if "n \<in> set (AiNode_schedulable s')" for n
    by (rule counted_nodes [OF nodes that]) (use le load in simp)
  moreover have "int (placed_on s' (an_id n)) = max 0 (an_capacity n)"
    if "c \<in> set (wanted s)" "row_node (ai_rows s') c = None" "n \<in> set (AiNode_schedulable s')" for c n
  proof (rule counted_nodes [OF nodes that(3)])
    fix m assume m: "m \<in> set (AiNode_schedulable s)" "an_id n = an_id m" "an_capacity n = an_capacity m"
    have "c \<in> set pending" using that(1,2) ok(2) by (simp add: rows)
    then have "max 0 (an_capacity m) \<le> load (an_id m)"
      by (rule ok(3) [OF _ _ node_cap_mem [OF ids m(1)]]) (use m in \<open>simp add: pool_def\<close>)
    with le [OF m(1)] m load show ?thesis by simp
  qed
  moreover have "rb_pending res = map str_of_int (filter (\<lambda>c. row_node (ai_rows s') c = None) (wanted s))"
    using pend ok(2) by (simp add: rows)
  ultimately show ?thesis by blast
qed

text \<open>The counters do not enter the pool's order: a run leaves the pool as it was.\<close>

lemma sort_key_map: "sort_key k (map f xs) = map f (sort_key (\<lambda>x. k (f x)) xs)"
proof -
  have ins: "insort_key k (f x) (map f ys) = map f (insort_key (\<lambda>x. k (f x)) x ys)" for x ys
    by (induction ys) auto
  show ?thesis by (induction xs) (simp_all add: ins)
qed

lemma schedulable_map:
  assumes "ai_nodes s' = map f (ai_nodes s)"
    and f: "\<And>m. an_gpu (f m) = an_gpu m \<and> an_capacity (f m) = an_capacity m \<and> an_status (f m) = an_status m
             \<and> an_enabled (f m) = an_enabled m \<and> an_deleted_at (f m) = an_deleted_at m"
  shows "AiNode_schedulable s' = map f (AiNode_schedulable s)"
  by (simp add: AiNode_schedulable_def assms(1) filter_map comp_def sort_key_map f)

lemma pool_after:
  assumes "ai_nodes s' = map (\<lambda>m. if an_id m \<in> I then m\<lparr>an_assigned_count := load (an_id m)\<rparr> else m) (ai_nodes s)"
  shows "pool s' = pool s" "node_cap (AiNode_schedulable s') = node_cap (AiNode_schedulable s)"
    "well_keyed s \<Longrightarrow> n_cameras s' = n_cameras s \<Longrightarrow> well_keyed s'"
proof -
  have sched: "AiNode_schedulable s' = map (\<lambda>m. if an_id m \<in> I then m\<lparr>an_assigned_count := load (an_id m)\<rparr> else m) (AiNode_schedulable s)"
    by (rule schedulable_map [OF assms]) simp
  have fields: "an_id (if an_id m \<in> I then m\<lparr>an_assigned_count := x\<rparr> else m) = an_id m"
    "an_capacity (if an_id m \<in> I then m\<lparr>an_assigned_count := x\<rparr> else m) = an_capacity m" for m x
    by simp_all
  show "pool s' = pool s" "node_cap (AiNode_schedulable s') = node_cap (AiNode_schedulable s)"
    by (simp_all add: pool_def node_cap_def sched comp_def fields)
  show "well_keyed s \<Longrightarrow> n_cameras s' = n_cameras s \<Longrightarrow> well_keyed s'"
    by (simp add: well_keyed_def assms comp_def fields)
qed

lemma rebalance_cameras:
  assumes "rebalance E s = (res, s')"
  shows "n_cameras s' = n_cameras s"
proof -
  obtain cams s1 where e: "enabled_camera_ids s = (cams, s1)" by fastforce
  have "n_cameras s1 = n_cameras s" by (rule enabled_loop_result(4) [OF e [unfolded enabled_camera_ids_def]])
  then show ?thesis
    using assms by (auto simp: rebalance_def e Let_def count_loop split: prod.splits if_splits)
qed

lemma rebalance_again:
  assumes wk: "well_keyed s" and run: "rebalance E s = (res, s')" and again: "rebalance E s' = (res2, s2)"
  shows "rb_changed res2 = 0 \<and> ai_rows s2 = ai_rows s' \<and> rb_pending res2 = rb_pending res"
proof -
  let ?cap = "node_cap (AiNode_schedulable s)"
  obtain plan load pending k where
    p: "make_plan (pool s) ?cap (row_node (ai_rows s)) (wanted s) = (plan, load, pending)"
    and rows: "row_node (ai_rows s') = plan"
    and "fold (drop_step (wanted s)) (map da_camera (all_rows (ai_rows s)))
           (fold (write_step plan (row_node (ai_rows s))) (wanted s) (ai_rows s, 0)) = (ai_rows s', k)"
    and "rb_changed res = k" and pend: "rb_pending res = map str_of_int pending"
    and nodes: "ai_nodes s' = map (\<lambda>m. if an_id m \<in> an_id ` set (filter (\<lambda>n. an_assigned_count n \<noteq> load (an_id n)) (AiNode_schedulable s))
                    then m\<lparr>an_assigned_count := load (an_id m)\<rparr> else m) (ai_nodes s)"
    and want: "wanted s' = wanted s"
    by (rule rebalance_unfold [OF wk run])
  note after = pool_after [OF nodes]
  obtain plan2 load2 pending2 k2 where
    p2: "make_plan (pool s') (node_cap (AiNode_schedulable s')) (row_node (ai_rows s')) (wanted s') = (plan2, load2, pending2)"
    and "row_node (ai_rows s2) = plan2"
    and w2: "fold (drop_step (wanted s')) (map da_camera (all_rows (ai_rows s')))
           (fold (write_step plan2 (row_node (ai_rows s'))) (wanted s') (ai_rows s', 0)) = (ai_rows s2, k2)"
    and k2: "rb_changed res2 = k2" and pend2: "rb_pending res2 = map str_of_int pending2"
    and "ai_nodes s2 = map (\<lambda>m. if an_id m \<in> an_id ` set (filter (\<lambda>n. an_assigned_count n \<noteq> load2 (an_id n)) (AiNode_schedulable s'))
                    then m\<lparr>an_assigned_count := load2 (an_id m)\<rparr> else m) (ai_nodes s')"
    and "wanted s2 = wanted s'"
    by (rule rebalance_unfold [OF after(3) [OF wk rebalance_cameras [OF run]] again])
  have dom: "set (pool s) = dom ?cap" by (simp add: pool_def dom_node_cap)
  have same: "plan2 = plan \<and> load2 = load \<and> pending2 = pending"
    by (rule make_plan_idem [OF wanted_distinct [OF wk] dom node_cap_nonneg p])
       (use p2 in \<open>simp_all add: after want rows\<close>)
  have "dom plan \<subseteq> set (wanted s)"
    using make_plan_ok(1) [OF wanted_distinct [OF wk] equalityD1 [OF dom] p] by (simp add: plan_ok_def)
  then have "set (map da_camera (all_rows (ai_rows s'))) \<subseteq> set (wanted s')"
    using row_node_keys [of "ai_rows s'"] by (auto simp: all_rows_def want rows)
  from no_changes [OF _ this, of plan2 "row_node (ai_rows s')" "(ai_rows s', 0)"] w2 same rows
  have "ai_rows s2 = ai_rows s'" "k2 = 0" by auto
  then show ?thesis using k2 pend pend2 same by simp
qed

text \<open>Rebalancing moves as little as possible. A wanted camera whose node is still in the pool and has
  room for all the wanted cameras it currently holds keeps its row exactly (node, state, epoch); and
  a run right after another changes nothing: it reports no change, keeps every row and every counter.\<close>

theorem rebalance_stable_idempotent:
  assumes wk: "well_keyed s" and run: "rebalance E s = (res, s')"
  shows "(\<forall>c n. c \<in> set (wanted s) \<longrightarrow> n \<in> set (AiNode_schedulable s) \<longrightarrow> row_node (ai_rows s) c = Some (an_id n)
            \<longrightarrow> int (placed_on s (an_id n)) \<le> max 0 (an_capacity n)
            \<longrightarrow> get_for_camera (ai_rows s') c = get_for_camera (ai_rows s) c)
       \<and> (\<forall>res2 s2. rebalance E s' = (res2, s2) \<longrightarrow>
            rb_changed res2 = 0 \<and> ai_rows s2 = ai_rows s' \<and> rb_pending res2 = rb_pending res)"
proof (intro conjI allI impI)
  fix c n
  assume c: "c \<in> set (wanted s)" and n: "n \<in> set (AiNode_schedulable s)"
    and on: "row_node (ai_rows s) c = Some (an_id n)" and fits: "int (placed_on s (an_id n)) \<le> max 0 (an_capacity n)"
  obtain plan load pending k where
    p: "make_plan (pool s) (node_cap (AiNode_schedulable s)) (row_node (ai_rows s)) (wanted s) = (plan, load, pending)"
    and "row_node (ai_rows s') = plan"
    and w: "fold (drop_step (wanted s)) (map da_camera (all_rows (ai_rows s)))
           (fold (write_step plan (row_node (ai_rows s))) (wanted s) (ai_rows s, 0)) = (ai_rows s', k)"
    and "rb_changed res = k" and "rb_pending res = map str_of_int pending"
    and "ai_nodes s' = map (\<lambda>m. if an_id m \<in> an_id ` set (filter (\<lambda>n. an_assigned_count n \<noteq> load (an_id n)) (AiNode_schedulable s))
                    then m\<lparr>an_assigned_count := load (an_id m)\<rparr> else m) (ai_nodes s)"
    and "wanted s' = wanted s"
    by (rule rebalance_unfold [OF wk run])
  have "set (pool s) \<subseteq> dom (node_cap (AiNode_schedulable s))" by (simp add: dom_node_cap pool_def)
  moreover have "node_cap (AiNode_schedulable s) (an_id n) = Some (max 0 (an_capacity n))"
    by (rule node_cap_mem [OF _ n]) (use pool_distinct [OF wk] in \<open>simp add: pool_def\<close>)
  ultimately have "plan c = Some (an_id n)"
    using make_plan_stable [OF wanted_distinct [OF wk] _ p c on] fits by (simp add: placed_on_def)
  then show "get_for_camera (ai_rows s') c = get_for_camera (ai_rows s) c"
    by (intro unchanged_row [OF _ c w]) (simp_all add: on)
qed (use rebalance_again [OF wk run] in blast)+


section \<open>A concrete cluster\<close>

definition sample_node :: "db_id \<Rightarrow> int \<Rightarrow> ai_node" where
  "sample_node i cap =
     \<lparr>an_id = i, an_uuid = ''n'', an_name = PStr ''n'', an_kind = ''remote'', an_status = STATUS_ONLINE, an_enabled = True,
      an_gpu = False, an_gpu_name = PNone, an_capacity = cap, an_capabilities = PNone, an_bench = PNone,
      an_version = PNone, an_assigned_count = 0, an_last_heartbeat_ts = Some 0, an_token_jti = None,
      an_last_seen_ip = None, an_last_error = None, an_created_at = 0, an_deleted_at = None\<rparr>"

definition sample_camera :: "db_id \<Rightarrow> camera" where
  "sample_camera i = \<lparr>cam_id = i, cam_uuid = ''c'', cam_name = ''c'', cam_enabled = True, cam_deleted = None\<rparr>"

definition sample_assignment :: "db_id \<Rightarrow> db_id \<Rightarrow> detection_assignment" where
  "sample_assignment c n = \<lparr>da_camera = c, da_node = n, da_state = STATE_ACTIVE, da_model = None, da_target_fps = None,
     da_claimed_at = None, da_last_report_ts = None, da_epoch = 3\<rparr>"

text \<open>Three cameras, two nodes of capacity one; camera 2 is on node 20 already.\<close>

definition sample_cluster :: "mem ai_state" where
  "sample_cluster =
     \<lparr>n_segments = [], n_recordings = [], n_disks = [], n_policies = [], n_cameras = map sample_camera [1, 2, 3],
      n_files = [], n_locked = [], n_next_key = 100, n_signals = [], n_audit = [],
      ai_nodes = [sample_node 10 1, sample_node 20 1], ai_rows = [sample_assignment 2 20],
      ai_settings_rows = [], ai_tok = sample_tokens\<rparr>"

theorem rebalance_sound_witness:
  "rb_pending (fst (rebalance sample_env sample_cluster)) = [''3'']
   \<and> row_node (ai_rows (snd (rebalance sample_env sample_cluster))) 2 = Some 20
   \<and> (let n = hd (AiNode_schedulable (snd (rebalance sample_env sample_cluster))) in
        int (placed_on (snd (rebalance sample_env sample_cluster)) (an_id n)) = max 0 (an_capacity n))"
proof -
  let ?r = "rebalance sample_env sample_cluster"
  have wk: "well_keyed sample_cluster" by code_simp
  have run: "?r = (fst ?r, snd ?r)" by simp
  have w: "3 \<in> set (wanted sample_cluster)" by code_simp
  have none: "row_node (ai_rows (snd ?r)) 3 = None" by code_simp
  have "AiNode_schedulable (snd ?r) \<noteq> []" by code_simp
  then have hd: "hd (AiNode_schedulable (snd ?r)) \<in> set (AiNode_schedulable (snd ?r))" by (rule hd_in_set)
  have "rb_pending (fst ?r) = [''3'']" by code_simp
  moreover have "row_node (ai_rows (snd ?r)) 2 = Some 20" by code_simp
  moreover have "int (placed_on (snd ?r) (an_id (hd (AiNode_schedulable (snd ?r))))) = max 0 (an_capacity (hd (AiNode_schedulable (snd ?r))))"
    by (rule rebalance_sound [OF wk run, THEN conjunct2, THEN conjunct2, THEN conjunct1, rule_format, OF w none hd])
  ultimately show ?thesis unfolding Let_def by blast
qed

theorem rebalance_stable_idempotent_witness:
  "get_for_camera (ai_rows (snd (rebalance sample_env sample_cluster))) 2 = Some (sample_assignment 2 20)
   \<and> rb_changed (fst (rebalance sample_env sample_cluster)) = 1
   \<and> rb_changed (fst (rebalance sample_env (snd (rebalance sample_env sample_cluster)))) = 0"
proof -
  let ?r = "rebalance sample_env sample_cluster"
  have wk: "well_keyed sample_cluster" by code_simp
  have run: "?r = (fst ?r, snd ?r)" by simp
  have n: "sample_node 20 1 \<in> set (AiNode_schedulable sample_cluster)"
    by (simp add: set_schedulable sample_cluster_def sample_node_def)
  have "2 \<in> set (wanted sample_cluster)" "row_node (ai_rows sample_cluster) 2 = Some (an_id (sample_node 20 1))"
    "int (placed_on sample_cluster (an_id (sample_node 20 1))) \<le> max 0 (an_capacity (sample_node 20 1))"
    "get_for_camera (ai_rows sample_cluster) 2 = Some (sample_assignment 2 20)"
    "rb_changed (fst ?r) = 1"
    by code_simp+
  moreover have "rb_changed (fst (rebalance sample_env (snd ?r))) = 0"
    using rebalance_stable_idempotent [OF wk run] by (metis prod.collapse)
  ultimately show ?thesis using rebalance_stable_idempotent [OF wk run] n by metis
qed

end
