(* ===== verification/AiRegistry.thy ===== *)
theory AiRegistry
  imports AiProps
begin

text \<open>
  \<open>server/service/ai_node_registry.py\<close>, \<open>server/controller/ai_node.py\<close>, the beat task
  \<open>server/task/list/ai_supervise.py\<close> and the node guard of \<open>server/decorator.py\<close>: the life of a node
  (registered, joined, heartbeating, stale, drained, deleted) and who may report for it.
\<close>

section \<open>Join and heartbeat\<close>

definition with_tok :: "('r token_db, 'a) act \<Rightarrow> ('r ai_state, 'a) act" where
  "with_tok m s = (case m (ai_tok s) of (res, t) \<Rightarrow> (res, s\<lparr>ai_tok := t\<rparr>))"

text \<open>A nested \<open>payload.get('bench') or {}\<close> followed by \<open>.get(...)\<close>: a truthy non-dict has no \<open>get\<close>.\<close>

definition bench_get :: "pydict \<Rightarrow> string \<Rightarrow> py_error + pyval" where
  "bench_get payload key =
     (case py_or (dget payload ''bench'') (PDict []) of
        PDict d \<Rightarrow> Inr (dget d key)
      | _ \<Rightarrow> Inl (AttributeError ''get''))"

definition capacity_of :: "pydict \<Rightarrow> py_error + int" where
  "capacity_of payload =
     (if py_truthy (dget payload ''capacity'') then py_int (dget payload ''capacity'')
      else case bench_get payload ''capacity'' of
             Inl e \<Rightarrow> Inl e
           | Inr v \<Rightarrow> if py_truthy v then py_int v
                      else Inr (if py_truthy (dget payload ''gpu'') then 6 else 2))"

text \<open>A failing denylist write is swallowed by \<open>join\<close>.\<close>

definition revoke_quietly :: "'r token_env \<Rightarrow> string option \<Rightarrow> 'r ai_state \<Rightarrow> 'r ai_state" where
  "revoke_quietly E jti s =
     (case jti of
        None \<Rightarrow> s
      | Some j \<Rightarrow> if j = [] then s else snd (with_tok (revoke E j 60) s))"

definition joined :: "ts \<Rightarrow> pydict \<Rightarrow> string option \<Rightarrow> int \<Rightarrow> string \<Rightarrow> ai_node \<Rightarrow> ai_node" where
  "joined now payload ip cap jti n =
     n\<lparr>an_name := py_or (dget payload ''name'') (an_name n),
       an_gpu := py_truthy (dget_or payload ''gpu'' (PBool (an_gpu n))),
       an_gpu_name := dget payload ''gpu_name'', an_capabilities := dget payload ''capabilities'',
       an_bench := dget payload ''bench'', an_version := dget payload ''version'', an_capacity := cap,
       an_status := STATUS_ONLINE, an_last_heartbeat_ts := Some now, an_last_seen_ip := ip,
       an_last_error := None, an_token_jti := Some jti\<rparr>"

text \<open>\<open>join\<close>: \<open>None\<close> for an unknown node; the keyword arguments are evaluated before the update, so a
  malformed capacity raises after the new token was issued and before the row changes.\<close>

definition join :: "'r token_env \<Rightarrow> ts \<Rightarrow> db_id \<Rightarrow> pydict \<Rightarrow> string option \<Rightarrow> ('r ai_state, (string \<times> string) option) act" where
  "join E now node_id payload ip s =
     (case AiNode_get_by_id s node_id of
        None \<Rightarrow> (Inr None, s)
      | Some n \<Rightarrow>
          (case with_tok (issue_node_token E now (an_uuid n) None) (revoke_quietly E (an_token_jti n) s) of
             (Inl e, s1) \<Rightarrow> (Inl e, s1)
           | (Inr (token, jti), s1) \<Rightarrow>
               (case capacity_of payload of
                  Inl e \<Rightarrow> (Inl e, s1)
                | Inr cap \<Rightarrow>
                    let s2 = AiNode_update node_id (joined now payload ip cap jti) s1;
                        s3 = snd (rebalance E s2)
                    in (Inr (Some (token, current_etag E s3)), s3))))"

text \<open>The status a heartbeat leaves: \<open>draining\<close> is sticky.\<close>

definition heartbeat_status :: "pydict \<Rightarrow> string \<Rightarrow> string" where
  "heartbeat_status payload status =
     (if status = STATUS_DRAINING then status
      else case py_or (dget payload ''status'') (PStr STATUS_ONLINE) of
             PStr st \<Rightarrow> if st \<in> {STATUS_ONLINE, STATUS_DEGRADED} then st else STATUS_ONLINE
           | _ \<Rightarrow> STATUS_ONLINE)"

definition heartbeat ::
  "'r token_env \<Rightarrow> ts \<Rightarrow> ai_node \<Rightarrow> pydict \<Rightarrow> string option \<Rightarrow> 'r ai_state \<Rightarrow> (string \<times> bool) \<times> 'r ai_state" where
  "heartbeat E now n payload ip s =
     (let st = heartbeat_status payload (an_status n);
          s1 = AiNode_update (an_id n)
                 (\<lambda>m. m\<lparr>an_status := st, an_last_heartbeat_ts := Some now, an_last_seen_ip := ip\<rparr>) s
      in ((current_etag E s1, st = STATUS_DRAINING), s1))"

definition mark_offline :: "ai_node \<Rightarrow> 'r ai_state \<Rightarrow> 'r ai_state" where
  "mark_offline n = AiNode_update (an_id n) (\<lambda>m. m\<lparr>an_status := STATUS_OFFLINE\<rparr>)"

definition HEARTBEAT_INTERVAL_S :: int where "HEARTBEAT_INTERVAL_S = 5"
definition NODE_STALE_S :: int where "NODE_STALE_S = 3 * HEARTBEAT_INTERVAL_S"

definition supervise_nodes :: "'r token_env \<Rightarrow> ts \<Rightarrow> 'r ai_state \<Rightarrow> (int \<times> rebalance_result) \<times> 'r ai_state" where
  "supervise_nodes E now s =
     (let stale = AiNode_stale s (now - NODE_STALE_S * 1000)
      in case rebalance E (fold mark_offline stale s) of
           (res, s') \<Rightarrow> ((int (length stale), res), s'))"

section \<open>Administration\<close>

definition create_node :: "'r token_env \<Rightarrow> ts \<Rightarrow> db_id \<Rightarrow> pydict \<Rightarrow> ('r ai_state, ai_node \<times> string) act" where
  "create_node E now new_id data s =
     (if \<not> py_truthy (dget data ''name'') then (Inl (InvalidParameterException ''name required''), s)
      else case with_tok (uuid4 E) s of
             (Inl e, s1) \<Rightarrow> (Inl e, s1)
           | (Inr uuid, s1) \<Rightarrow>
               (case AiNode_create new_id now uuid (dget data ''name'') ''remote'' s1 of
                  (n, s2) \<Rightarrow> bindE (with_tok (issue_join_token E now (an_id n) None)) (\<lambda>tok. returnE (n, tok)) s2))"

definition revoke_token :: "'r token_env \<Rightarrow> string option \<Rightarrow> ('r ai_state, unit) act" where
  "revoke_token E jti =
     (case jti of None \<Rightarrow> returnE () | Some j \<Rightarrow> if j = [] then returnE () else with_tok (revoke E j 60))"

text \<open>\<open>issue_token\<close>; \<open>ttl_days\<close> is the value \<open>safe_int\<close> makes of the request's field.\<close>

definition issue_token :: "'r token_env \<Rightarrow> ts \<Rightarrow> db_id \<Rightarrow> int option \<Rightarrow> ('r ai_state, string) act" where
  "issue_token E now node_id ttl_days s =
     (case AiNode_get_by_id s node_id of
        None \<Rightarrow> (Inl RowNotFoundException, s)
      | Some n \<Rightarrow>
          bindE (revoke_token E (an_token_jti n)) (\<lambda>_.
          bindE (with_tok (issue_node_token E now (an_uuid n) ttl_days)) (\<lambda>(token, jti) s2.
            (Inr token, AiNode_update node_id (\<lambda>m. m\<lparr>an_token_jti := Some jti\<rparr>) s2))) s)"

definition update_fields :: "pydict \<Rightarrow> ai_node \<Rightarrow> ai_node" where
  "update_fields data n =
     (let n1 = (if dhas data ''name'' then n\<lparr>an_name := dget data ''name''\<rparr> else n)
      in if dhas data ''enabled'' then
           (if py_truthy (dget data ''enabled'') then n1\<lparr>an_enabled := True\<rparr>
            else n1\<lparr>an_enabled := False, an_status := STATUS_DRAINING\<rparr>)
         else n1)"

definition update_node :: "'r token_env \<Rightarrow> db_id \<Rightarrow> pydict \<Rightarrow> ('r ai_state, unit) act" where
  "update_node E node_id data s =
     (case AiNode_get_by_id s node_id of
        None \<Rightarrow> (Inl RowNotFoundException, s)
      | Some n \<Rightarrow>
          let s1 = AiNode_update node_id (update_fields data) s
          in (Inr (), if dhas data ''enabled'' \<and> \<not> py_truthy (dget data ''enabled'') then snd (reassign E node_id s1) else s1))"

definition drain :: "'r token_env \<Rightarrow> db_id \<Rightarrow> ('r ai_state, unit) act" where
  "drain E node_id s =
     (case AiNode_get_by_id s node_id of
        None \<Rightarrow> (Inl RowNotFoundException, s)
      | Some n \<Rightarrow> (Inr (), snd (reassign E node_id (AiNode_update node_id (\<lambda>m. m\<lparr>an_status := STATUS_DRAINING\<rparr>) s))))"

definition delete_node :: "'r token_env \<Rightarrow> ts \<Rightarrow> db_id \<Rightarrow> ('r ai_state, unit) act" where
  "delete_node E now node_id s =
     (case AiNode_get_by_id s node_id of
        None \<Rightarrow> (Inl RowNotFoundException, s)
      | Some n \<Rightarrow>
          bindE (revoke_token E (an_token_jti n))
            (\<lambda>_ s1. (Inr (), snd (reassign E node_id (AiNode_soft_delete now node_id s1)))) s)"

section \<open>The node guard\<close>

datatype 'n guard = NoPermission string | Forbidden string | Pass 'n

text \<open>\<open>node_token_required\<close>; the header is absent as the empty string.\<close>

definition bearer :: "string \<Rightarrow> string option" where
  "bearer header = (if take 7 header = ''Bearer '' then Some (py_strip (drop 7 header)) else None)"

definition node_token_required :: "'r token_env \<Rightarrow> ts \<Rightarrow> string \<Rightarrow> 'r ai_state \<Rightarrow> ai_node guard" where
  "node_token_required E now header s =
     (case bearer header of
        None \<Rightarrow> NoPermission ''node_auth_required''
      | Some token \<Rightarrow>
          (case verify_node_token E now token (ai_tok s) of
             Inl _ \<Rightarrow> NoPermission ''invalid_node_token''
           | Inr c \<Rightarrow>
               (case AiNode_get_by_uuid s (c_sub c) of
                  None \<Rightarrow> Forbidden ''node_disabled''
                | Some n \<Rightarrow>
                    if \<not> an_enabled n \<or> an_deleted_at n \<noteq> None then Forbidden ''node_disabled''
                    else case an_token_jti n of
                           Some j \<Rightarrow> if j \<noteq> [] \<and> c_jti c \<noteq> j then Forbidden ''node_token_superseded'' else Pass n
                         | None \<Rightarrow> Pass n)))"

section \<open>Failover\<close>

lemma mark_offline_loop:
  "ai_nodes (fold mark_offline ns s) = map (\<lambda>m. if an_id m \<in> an_id ` set ns then m\<lparr>an_status := STATUS_OFFLINE\<rparr> else m) (ai_nodes s)"
  "n_cameras (fold mark_offline ns s) = n_cameras s"
  by (induction ns arbitrary: s) (auto simp: mark_offline_def AiNode_update_def)

text \<open>Node failover. After a run of the supervise beat no assignment points at a node whose last
  heartbeat is older than three heartbeat intervals: every row's node is live, enabled and has been
  heard from within 15 seconds (or has no heartbeat on record), so the cameras of a node that went
  silent are moved or left pending in the same run.\<close>

theorem supervise_moves_off_stale_nodes:
  assumes "well_keyed s" and "supervise_nodes E now s = (r, s')"
    and "row_node (ai_rows s') c = Some i"
  shows "\<exists>n \<in> set (ai_nodes s). an_id n = i \<and> an_enabled n \<and> an_deleted_at n = None
           \<and> (\<forall>t. an_last_heartbeat_ts n = Some t \<longrightarrow> now - 15000 \<le> t)"
proof -
  let ?stale = "AiNode_stale s (now - NODE_STALE_S * 1000)"
  let ?s = "fold mark_offline ?stale s"
  have wk: "well_keyed ?s"
    using assms(1) by (simp add: well_keyed_def mark_offline_loop comp_def if_distrib [of an_id] cong: if_cong)
  obtain res where run: "rebalance E ?s = (res, s')"
    using assms(2) by (cases "rebalance E ?s") (auto simp: supervise_nodes_def Let_def)
  obtain m where m: "m \<in> set (ai_nodes ?s)" "an_id m = i" "an_deleted_at m = None" "an_enabled m" "an_status m = STATUS_ONLINE"
    using rebalance_eligible [OF wk run assms(3)] by blast
  obtain n where n: "n \<in> set (ai_nodes s)" "m = (if an_id n \<in> an_id ` set ?stale then n\<lparr>an_status := STATUS_OFFLINE\<rparr> else n)"
    using m(1) unfolding mark_offline_loop by auto
  have "an_id n \<notin> an_id ` set ?stale"
    using m(5) n(2) by (cases "an_id n \<in> an_id ` set ?stale") (simp_all add: node_consts)
  then have "m = n" "n \<notin> set ?stale" using n(2) by auto
  then have "\<forall>t. an_last_heartbeat_ts n = Some t \<longrightarrow> now - 15000 \<le> t"
    using n(1) m(3,5) by (auto simp: AiNode_stale_def NODE_STALE_S_def HEARTBEAT_INTERVAL_S_def)
  then show ?thesis using n(1) m \<open>m = n\<close> by blast
qed

theorem supervise_moves_off_stale_nodes_witness:
  "row_node (ai_rows (snd (supervise_nodes sample_env 15000 sample_cluster))) 2 = Some 20
   \<and> (\<exists>n. n \<in> set (ai_nodes sample_cluster) \<and> an_id n = 20 \<and> an_enabled n \<and> an_deleted_at n = None)
   \<and> row_node (ai_rows (snd (supervise_nodes sample_env 15001 sample_cluster))) 2 = None"
proof -
  have wk: "well_keyed sample_cluster" by code_simp
  have on: "row_node (ai_rows (snd (supervise_nodes sample_env 15000 sample_cluster))) 2 = Some 20" by code_simp
  have off: "row_node (ai_rows (snd (supervise_nodes sample_env 15001 sample_cluster))) 2 = None" by code_simp
  from supervise_moves_off_stale_nodes [OF wk _ on] on off show ?thesis by (metis prod.collapse)
qed

section \<open>A drained node stays drained\<close>

text \<open>
  The administrator and node actions short of a new join: heartbeats of the node, edits of its row
  (re-enabling included), supervision. \<open>node_life\<close> is the relation they generate.
\<close>

inductive node_life :: "'r token_env \<Rightarrow> db_id \<Rightarrow> 'r ai_state \<Rightarrow> 'r ai_state \<Rightarrow> bool" for E i where
  nl_heartbeat: "AiNode_get_by_id s i = Some n \<Longrightarrow> node_life E i s (snd (heartbeat E now n payload ip s))"
| nl_update: "node_life E i s (snd (update_node E i data s))"
| nl_supervise: "node_life E i s (snd (supervise_nodes E now s))"

definition draining :: "db_id \<Rightarrow> 'r ai_state \<Rightarrow> bool" where
  "draining i s \<longleftrightarrow> (\<forall>n \<in> set (ai_nodes s). an_id n = i \<longrightarrow> an_status n = STATUS_DRAINING)"

lemma draining_update:
  assumes "draining i s" and "\<And>n. an_id (f n) = an_id n"
    and "\<And>n. an_status n = STATUS_DRAINING \<Longrightarrow> an_status (f n) = STATUS_DRAINING"
  shows "draining i (AiNode_update j f s)"
  using assms by (auto simp: draining_def AiNode_update_def)

lemma draining_rebalance:
  fixes s :: "'r ai_state"
  assumes "draining i s"
  shows "draining i (snd (rebalance E s))"
proof -
  obtain cams s1 where e: "enabled_camera_ids s = (cams, s1)" by fastforce
  have "ai_nodes s1 = ai_nodes s" by (rule enabled_loop_result(2) [OF e [unfolded enabled_camera_ids_def]])
  with assms have "draining i s1" by (simp add: draining_def)
  moreover have "draining i (fold (count_step load) ns t)" if "draining i t" for load ns and t :: "'r ai_state"
    using that unfolding draining_def count_loop by auto
  moreover have "draining i (bump_etag E t) = draining i t" "draining i (t\<lparr>ai_rows := r\<rparr>) = draining i t" for t :: "'r ai_state" and r
    by (simp_all add: draining_def)
  ultimately show ?thesis
    by (simp add: rebalance_def e Let_def split: prod.splits)
qed

lemma draining_step:
  assumes "node_life E i s s'" and "draining i s"
  shows "draining i s'"
  using assms
proof cases
  case (nl_heartbeat n now payload ip)
  have "an_status n = STATUS_DRAINING"
    using nl_heartbeat(2) assms(2) by (auto simp: AiNode_get_by_id_def draining_def dest!: first_row_SomeD)
  then show ?thesis
    unfolding nl_heartbeat(1) using assms(2)
    by (simp add: heartbeat_def Let_def heartbeat_status_def draining_update)
next
  case (nl_update data)
  have "draining i (AiNode_update i (update_fields data) s)"
    by (rule draining_update [OF assms(2)]) (auto simp: update_fields_def Let_def)
  moreover have "draining i (t\<lparr>ai_rows := r\<rparr>) = draining i t" for t :: "'a ai_state" and r
    by (simp add: draining_def)
  ultimately show ?thesis
    unfolding nl_update using assms(2)
    by (auto simp: update_node_def Let_def reassign_def draining_rebalance split: option.splits)
next
  case (nl_supervise now)
  have "draining i (fold mark_offline (AiNode_stale s cut) s)" for cut
    using assms(2) by (auto simp: draining_def mark_offline_loop AiNode_stale_def node_consts)
  then show ?thesis
    unfolding nl_supervise
    using draining_rebalance [of i "fold mark_offline (AiNode_stale s (now - NODE_STALE_S * 1000)) s" E]
    by (auto simp: supervise_nodes_def Let_def split: prod.splits)
qed

text \<open>Disabling a node and enabling it again does not bring it back. Once a node's status is
  \<open>draining\<close> (the drain button, or an edit with \<open>enabled = false\<close>), no sequence of heartbeats,
  edits (\<open>enabled = true\<close> included) and supervision runs makes it schedulable again: \<open>update\<close> never
  resets the status and \<open>heartbeat\<close> preserves \<open>draining\<close>. Only a new join does.\<close>

theorem reenabled_node_stays_draining:
  assumes "draining i s" and "(node_life E i)\<^sup>*\<^sup>* s s'"
  shows "\<forall>n \<in> set (AiNode_schedulable s'). an_id n \<noteq> i"
proof -
  have "draining i s'"
    using assms(2,1) by (induction rule: rtranclp_induct) (auto intro: draining_step)
  then show ?thesis by (auto simp: draining_def set_schedulable node_consts)
qed

theorem reenabled_node_stays_draining_witness:
  "AiNode_schedulable sample_cluster \<noteq> []
   \<and> filter (\<lambda>n. an_id n = 10) (AiNode_schedulable (snd (update_node sample_env 10 [(''enabled'', PBool True)]
        (snd (update_node sample_env 10 [(''enabled'', PBool False)] sample_cluster))))) = []"
proof -
  let ?s = "snd (update_node sample_env 10 [(''enabled'', PBool False)] sample_cluster)"
  have "draining 10 ?s" by code_simp
  moreover have "(node_life sample_env 10)\<^sup>*\<^sup>* ?s (snd (update_node sample_env 10 [(''enabled'', PBool True)] ?s))"
    by (intro r_into_rtranclp nl_update)
  moreover have "AiNode_schedulable sample_cluster \<noteq> []" by code_simp
  ultimately show ?thesis using reenabled_node_stays_draining by (fastforce simp: filter_empty_conv)
qed

end
