(* ===== verification/EncodeScheduler.thy ===== *)
theory EncodeScheduler
  imports AiScheduler FeatureFlags
begin

text \<open>
  The encoder cluster: \<open>server/model/encoding_node.py\<close>, \<open>encode_assignment.py\<close>,
  \<open>server/service/encode_scheduler.py\<close>, \<open>encode_node_registry.py\<close>, \<open>live_activity.py\<close> and the stream
  selection of \<open>encode_config_resolver.py\<close> and \<open>go2rtc_sync.live_transcode_enabled\<close>.

  The status and state names are those of theory \<open>AiScheduler\<close> (the two models define the same
  strings). \<open>ec_synced\<close> is the sequence of cameras handed to \<open>go2rtc_sync.sync_camera\<close>, whose effect
  on the go2rtc service is outside the model.
\<close>

section \<open>State\<close>

record encoding_node =
  en_id :: db_id
  en_uuid :: string
  en_name :: pyval
  en_kind :: string
  en_endpoint :: "string option"
  en_status :: string
  en_enabled :: bool
  en_hwaccel :: pyval
  en_max_sessions :: int
  en_capabilities :: pyval
  en_bench :: pyval
  en_version :: pyval
  en_assigned_count :: int
  en_last_heartbeat_ts :: "ts option"
  en_token_jti :: "string option"
  en_last_seen_ip :: "string option"
  en_last_error :: "string option"
  en_created_at :: ts
  en_deleted_at :: "ts option"

record encode_assignment =
  ea_camera :: db_id
  ea_node :: db_id
  ea_state :: string
  ea_claimed_at :: "ts option"
  ea_last_report_ts :: "ts option"
  ea_epoch :: int

record stream =
  sm_camera :: db_id
  sm_role :: string
  sm_codec :: "string option"
  sm_go2rtc_name :: string
  sm_is_default_live :: bool
  sm_enabled :: bool
  sm_deleted :: "ts option"

record 'r enc_state = nvr +
  ec_nodes :: "encoding_node list"
  ec_rows :: "encode_assignment list"
  ec_streams :: "stream list"
  ec_live_transcode :: "db_id list"
  ec_settings :: "(string \<times> pyval) list"
  ec_flags :: flag_state
  ec_synced :: "db_id list"
  ec_tok :: "'r token_db"

section \<open>Nodes\<close>

definition EncodingNode_get_by_id :: "'r enc_state \<Rightarrow> db_id \<Rightarrow> encoding_node option" where
  "EncodingNode_get_by_id s i = first_row (filter (\<lambda>n. en_id n = i \<and> en_deleted_at n = None) (ec_nodes s))"

definition EncodingNode_get_by_uuid :: "'r enc_state \<Rightarrow> string \<Rightarrow> encoding_node option" where
  "EncodingNode_get_by_uuid s u = first_row (filter (\<lambda>n. en_uuid n = u \<and> en_deleted_at n = None) (ec_nodes s))"

definition EncodingNode_list_all :: "'r enc_state \<Rightarrow> encoding_node list" where
  "EncodingNode_list_all s = sort_key en_created_at (filter (\<lambda>n. en_deleted_at n = None) (ec_nodes s))"

definition EncodingNode_schedulable :: "'r enc_state \<Rightarrow> encoding_node list" where
  "EncodingNode_schedulable s =
     sort_key (\<lambda>n. - en_max_sessions n)
       (filter (\<lambda>n. en_deleted_at n = None \<and> en_enabled n \<and> en_status n = STATUS_ONLINE) (ec_nodes s))"

definition EncodingNode_stale :: "'r enc_state \<Rightarrow> ts \<Rightarrow> encoding_node list" where
  "EncodingNode_stale s cutoff =
     filter (\<lambda>n. en_deleted_at n = None \<and> (en_status n = STATUS_ONLINE \<or> en_status n = STATUS_DEGRADED)
               \<and> (case en_last_heartbeat_ts n of None \<Rightarrow> False | Some t \<Rightarrow> t < cutoff)) (ec_nodes s)"

definition EncodingNode_update :: "db_id \<Rightarrow> (encoding_node \<Rightarrow> encoding_node) \<Rightarrow> 'r enc_state \<Rightarrow> 'r enc_state" where
  "EncodingNode_update i f s = s\<lparr>ec_nodes := map (\<lambda>n. if en_id n = i then f n else n) (ec_nodes s)\<rparr>"

definition EncodingNode_soft_delete :: "ts \<Rightarrow> db_id \<Rightarrow> 'r enc_state \<Rightarrow> 'r enc_state" where
  "EncodingNode_soft_delete now i =
     EncodingNode_update i (\<lambda>n. n\<lparr>en_deleted_at := Some now, en_status := STATUS_DISABLED\<rparr>)"

section \<open>Assignments\<close>

definition enc_get_for_camera :: "encode_assignment list \<Rightarrow> db_id \<Rightarrow> encode_assignment option" where
  "enc_get_for_camera rows c = first_row (filter (\<lambda>a. ea_camera a = c) rows)"

definition enc_for_node :: "encode_assignment list \<Rightarrow> db_id \<Rightarrow> encode_assignment list" where
  "enc_for_node rows n = filter (\<lambda>a. ea_node a = n) rows"

definition enc_all_rows :: "encode_assignment list \<Rightarrow> encode_assignment list" where
  "enc_all_rows rows = sort_key ea_camera rows"

definition enc_repoint :: "db_id \<Rightarrow> string \<Rightarrow> encode_assignment \<Rightarrow> encode_assignment" where
  "enc_repoint n st a =
     (let a1 = (if ea_node a \<noteq> n then a\<lparr>ea_epoch := ea_epoch a + 1, ea_claimed_at := None\<rparr> else a)
      in a1\<lparr>ea_node := n, ea_state := st\<rparr>)"

definition enc_assign :: "db_id \<Rightarrow> db_id \<Rightarrow> string \<Rightarrow> encode_assignment list \<Rightarrow> encode_assignment list" where
  "enc_assign c n st rows =
     (case enc_get_for_camera rows c of
        None \<Rightarrow> rows @ [\<lparr>ea_camera = c, ea_node = n, ea_state = st, ea_claimed_at = None,
                         ea_last_report_ts = None, ea_epoch = 1\<rparr>]
      | Some _ \<Rightarrow> map (\<lambda>a. if ea_camera a = c then enc_repoint n st a else a) rows)"

definition enc_set_state :: "db_id \<Rightarrow> string \<Rightarrow> encode_assignment list \<Rightarrow> encode_assignment list" where
  "enc_set_state c st rows = map (\<lambda>a. if ea_camera a = c then a\<lparr>ea_state := st\<rparr> else a) rows"

definition enc_mark_report :: "ts \<Rightarrow> db_id \<Rightarrow> encode_assignment list \<Rightarrow> encode_assignment list" where
  "enc_mark_report now c rows =
     map (\<lambda>a. if ea_camera a = c
              then (let a1 = a\<lparr>ea_last_report_ts := Some now\<rparr>
                    in if ea_state a = STATE_PENDING then a1\<lparr>ea_state := STATE_ACTIVE, ea_claimed_at := Some now\<rparr> else a1)
              else a) rows"

definition enc_remove_for_camera :: "db_id \<Rightarrow> encode_assignment list \<Rightarrow> encode_assignment list" where
  "enc_remove_for_camera c rows = filter (\<lambda>a. ea_camera a \<noteq> c) rows"

section \<open>Which cameras need an encoder\<close>

definition DEFAULT_IDLE_S :: int where "DEFAULT_IDLE_S = 300"

text \<open>\<open>int(Setting.get_value(key, 300) or 0)\<close>, any exception giving the default.\<close>

definition idle_window :: "(string \<times> pyval) list \<Rightarrow> int" where
  "idle_window settings =
     (case py_int (py_or (dget_or settings ''live_transcode_idle_s'' (PInt DEFAULT_IDLE_S)) (PInt 0)) of
        Inl _ \<Rightarrow> DEFAULT_IDLE_S | Inr w \<Rightarrow> w)"

definition activity_key :: "'r token_env \<Rightarrow> string \<Rightarrow> string" where
  "activity_key E name = cfg_redis_prefix (env_cfg E) @ '':live:act:'' @ name"

definition mark_activity :: "'r token_env \<Rightarrow> ts \<Rightarrow> string \<Rightarrow> int \<Rightarrow> 'r \<Rightarrow> 'r" where
  "mark_activity E now name window r =
     (if window \<le> 0 then r
      else case rd_setex (env_redis E) (activity_key E name) (max 15 window) (str_of_int (epoch now)) r of
             None \<Rightarrow> r | Some r' \<Rightarrow> r')"

definition is_active :: "'r token_env \<Rightarrow> string \<Rightarrow> int \<Rightarrow> 'r \<Rightarrow> bool" where
  "is_active E name window r =
     (if window \<le> 0 then True
      else case rd_exists (env_redis E) (activity_key E name) r of None \<Rightarrow> True | Some n \<Rightarrow> n = 1)"

text \<open>The camera's streams (the relationship excludes deleted rows).\<close>

definition default_live_stream :: "stream list \<Rightarrow> db_id \<Rightarrow> stream option" where
  "default_live_stream streams c =
     first_row (filter (\<lambda>s. sm_camera s = c \<and> sm_deleted s = None \<and> sm_is_default_live s \<and> sm_enabled s) streams)"

definition live_transcode_enabled :: "bool \<Rightarrow> stream \<Rightarrow> bool" where
  "live_transcode_enabled forced st =
     (if \<not> sm_is_default_live st then False else forced \<or> sm_codec st = Some ''h265'')"

definition cameras_needing_encode :: "'r token_env \<Rightarrow> 'r enc_state \<Rightarrow> db_id list" where
  "cameras_needing_encode E s =
     (let window = idle_window (ec_settings s) in
      map cam_id (filter (\<lambda>c.
        case default_live_stream (ec_streams s) (cam_id c) of
          None \<Rightarrow> False
        | Some st \<Rightarrow> live_transcode_enabled (cam_id c \<in> set (ec_live_transcode s)) st
                    \<and> is_active E (sm_go2rtc_name st) window (td_redis (ec_tok s)))
        (Camera_get_all_enabled s)))"

section \<open>Rebalance\<close>

definition FLAG_KEY :: string where "FLAG_KEY = ''encoding_nodes''"

definition enc_ETAG_KEY :: "'r token_env \<Rightarrow> string" where
  "enc_ETAG_KEY E = cfg_redis_prefix (env_cfg E) @ '':encode:assign:etag''"

definition enc_current_etag :: "'r token_env \<Rightarrow> 'r enc_state \<Rightarrow> string" where
  "enc_current_etag E s =
     (case rd_get (env_redis E) (enc_ETAG_KEY E) (td_redis (ec_tok s)) of
        Some (Some v) \<Rightarrow> if v \<noteq> [] then v else ''0''
      | _ \<Rightarrow> ''0'')"

definition enc_bump_etag :: "'r token_env \<Rightarrow> 'r enc_state \<Rightarrow> 'r enc_state" where
  "enc_bump_etag E s =
     (case rd_incr (env_redis E) (enc_ETAG_KEY E) (td_redis (ec_tok s)) of
        None \<Rightarrow> s
      | Some (_, r) \<Rightarrow> s\<lparr>ec_tok := (ec_tok s)\<lparr>td_redis := r\<rparr>\<rparr>)"

text \<open>\<open>_flag_on\<close>; \<open>mclk\<close> is the monotonic clock of the flag cache.\<close>

definition flag_on :: "int \<Rightarrow> 'r enc_state \<Rightarrow> bool \<times> 'r enc_state" where
  "flag_on mclk s = (case is_enabled mclk FLAG_KEY False (ec_flags s) of (b, fl) \<Rightarrow> (b, s\<lparr>ec_flags := fl\<rparr>))"

text \<open>\<open>resync_camera\<close> swallows the exception of an unknown camera.\<close>

definition resync_camera :: "db_id \<Rightarrow> 'r enc_state \<Rightarrow> 'r enc_state" where
  "resync_camera c s =
     (case Camera_get_by_id s c of Inl _ \<Rightarrow> s | Inr _ \<Rightarrow> s\<lparr>ec_synced := ec_synced s @ [c]\<rparr>)"

definition enc_node_cap :: "encoding_node list \<Rightarrow> db_id \<rightharpoonup> int" where
  "enc_node_cap nodes = map_of (map (\<lambda>n. (en_id n, max 0 (en_max_sessions n))) nodes)"

definition enc_row_node :: "encode_assignment list \<Rightarrow> db_id \<rightharpoonup> db_id" where
  "enc_row_node rows c = map_option ea_node (enc_get_for_camera rows c)"

definition enc_write_step ::
  "plan \<Rightarrow> encode_assignment list \<Rightarrow> db_id \<Rightarrow> encode_assignment list \<times> db_id list \<Rightarrow> encode_assignment list \<times> db_id list" where
  "enc_write_step plan ex c = (\<lambda>(rows, changed).
     case plan c of
       None \<Rightarrow> (case enc_get_for_camera ex c of
                  None \<Rightarrow> (rows, changed)
                | Some _ \<Rightarrow> (enc_remove_for_camera c rows, changed @ [c]))
     | Some n \<Rightarrow>
         (case enc_get_for_camera ex c of
            None \<Rightarrow> (enc_assign c n STATE_PENDING rows, changed @ [c])
          | Some a \<Rightarrow> if ea_node a = n \<and> ea_state a \<noteq> STATE_REASSIGNING then (rows, changed)
                      else (enc_assign c n STATE_PENDING rows, changed @ [c])))"

definition enc_drop_step ::
  "db_id list \<Rightarrow> db_id \<Rightarrow> encode_assignment list \<times> db_id list \<Rightarrow> encode_assignment list \<times> db_id list" where
  "enc_drop_step cams c = (\<lambda>(rows, changed).
     if c \<notin> set cams then (enc_remove_for_camera c rows, changed @ [c]) else (rows, changed))"

definition enc_count_step :: "load \<Rightarrow> encoding_node \<Rightarrow> 'r enc_state \<Rightarrow> 'r enc_state" where
  "enc_count_step load n s =
     (if en_assigned_count n \<noteq> load (en_id n)
      then EncodingNode_update (en_id n) (\<lambda>m. m\<lparr>en_assigned_count := load (en_id n)\<rparr>) s else s)"

text \<open>The branch with the flag off: every row is removed and its camera resynced, one by one.\<close>

definition clear_step :: "encode_assignment \<Rightarrow> 'r enc_state \<Rightarrow> 'r enc_state" where
  "clear_step a s = resync_camera (ea_camera a) (s\<lparr>ec_rows := enc_remove_for_camera (ea_camera a) (ec_rows s)\<rparr>)"

definition enc_clear :: "'r token_env \<Rightarrow> 'r enc_state \<Rightarrow> rebalance_result \<times> 'r enc_state" where
  "enc_clear E s =
     (let rows = enc_all_rows (ec_rows s);
          s1 = fold clear_step rows s;
          s2 = (if rows \<noteq> [] then enc_bump_etag E s1 else s1)
      in (\<lparr>rb_assigned = 0, rb_pending = [], rb_pending_count = 0, rb_changed = int (length rows),
           rb_etag = enc_current_etag E s2\<rparr>, s2))"

definition enc_rebalance_on :: "'r token_env \<Rightarrow> 'r enc_state \<Rightarrow> rebalance_result \<times> 'r enc_state" where
  "enc_rebalance_on E s =
     (let cams = cameras_needing_encode E s;
          nodes = EncodingNode_schedulable s;
          existing = map ea_camera (enc_all_rows (ec_rows s))
      in case make_plan (map en_id nodes) (enc_node_cap nodes) (enc_row_node (ec_rows s)) cams of (plan, load, pending) \<Rightarrow>
         case fold (enc_drop_step cams) existing (fold (enc_write_step plan (ec_rows s)) cams (ec_rows s, [])) of
           (rows, changed) \<Rightarrow>
             let s1 = fold (enc_count_step load) nodes (s\<lparr>ec_rows := rows\<rparr>);
                 s2 = (if changed \<noteq> [] then fold resync_camera changed (enc_bump_etag E s1) else s1)
             in (\<lparr>rb_assigned = int (length cams) - int (length pending), rb_pending = map str_of_int pending,
                  rb_pending_count = int (length pending), rb_changed = int (length changed),
                  rb_etag = enc_current_etag E s2\<rparr>, s2))"

definition enc_rebalance :: "'r token_env \<Rightarrow> int \<Rightarrow> 'r enc_state \<Rightarrow> rebalance_result \<times> 'r enc_state" where
  "enc_rebalance E mclk s0 =
     (case flag_on mclk s0 of (on, s) \<Rightarrow> if on then enc_rebalance_on E s else enc_clear E s)"

definition enc_reassign :: "'r token_env \<Rightarrow> int \<Rightarrow> db_id \<Rightarrow> 'r enc_state \<Rightarrow> rebalance_result \<times> 'r enc_state" where
  "enc_reassign E mclk n s =
     enc_rebalance E mclk
       (s\<lparr>ec_rows := fold (\<lambda>a. enc_set_state (ea_camera a) STATE_REASSIGNING) (enc_for_node (ec_rows s) n) (ec_rows s)\<rparr>)"

definition kick :: "'r token_env \<Rightarrow> int \<Rightarrow> db_id option \<Rightarrow> 'r enc_state \<Rightarrow> 'r enc_state" where
  "kick E mclk camera s0 =
     (case camera of
        None \<Rightarrow> s0
      | Some c \<Rightarrow>
          if c = 0 then s0
          else case flag_on mclk s0 of
                 (on, s) \<Rightarrow>
                   if \<not> on then s
                   else case enc_get_for_camera (ec_rows s) c of
                          Some _ \<Rightarrow> s
                        | None \<Rightarrow> snd (enc_rebalance E mclk s))"

section \<open>Registry\<close>

definition DEFAULT_MAX_SESSIONS :: int where "DEFAULT_MAX_SESSIONS = 4"

text \<open>One confirmed session of a heartbeat: ids that do not convert are skipped; only rows of the
  reporting node are marked; a row that was not active is flipped.\<close>

definition session_step ::
  "ts \<Rightarrow> db_id \<Rightarrow> pyval \<Rightarrow> encode_assignment list \<times> db_id list \<Rightarrow> encode_assignment list \<times> db_id list" where
  "session_step now node v = (\<lambda>(rows, flipped).
     case py_int v of
       Inl _ \<Rightarrow> (rows, flipped)
     | Inr c \<Rightarrow>
         (case enc_get_for_camera rows c of
            None \<Rightarrow> (rows, flipped)
          | Some a \<Rightarrow>
              if ea_node a = node
              then (enc_mark_report now c rows, if ea_state a \<noteq> STATE_ACTIVE then flipped @ [c] else flipped)
              else (rows, flipped)))"

definition enc_heartbeat_status :: "pydict \<Rightarrow> string \<Rightarrow> string" where
  "enc_heartbeat_status payload status =
     (if status = STATUS_DRAINING then status
      else case py_or (dget payload ''status'') (PStr STATUS_ONLINE) of
             PStr st \<Rightarrow> if st \<in> {STATUS_ONLINE, STATUS_DEGRADED} then st else STATUS_ONLINE
           | _ \<Rightarrow> STATUS_ONLINE)"

text \<open>\<open>heartbeat\<close>; the node agent sends \<open>endpoint\<close> as a string and \<open>active_sessions\<close> as a list.\<close>

definition enc_heartbeat ::
  "'r token_env \<Rightarrow> ts \<Rightarrow> encoding_node \<Rightarrow> pydict \<Rightarrow> string option \<Rightarrow> 'r enc_state \<Rightarrow> (string \<times> bool) \<times> 'r enc_state" where
  "enc_heartbeat E now n payload ip s =
     (let st = enc_heartbeat_status payload (en_status n);
          s1 = EncodingNode_update (en_id n) (\<lambda>m.
                 let m1 = m\<lparr>en_status := st, en_last_heartbeat_ts := Some now, en_last_seen_ip := ip\<rparr>
                 in case dget payload ''endpoint'' of
                      PStr ep \<Rightarrow> if ep \<noteq> [] then m1\<lparr>en_endpoint := Some ep\<rparr> else m1
                    | _ \<Rightarrow> m1) s;
          sessions = (case dget payload ''active_sessions'' of PList vs \<Rightarrow> vs | _ \<Rightarrow> [])
      in case fold (session_step now (en_id n)) sessions (ec_rows s1, []) of
           (rows, flipped) \<Rightarrow>
             let s2 = fold resync_camera flipped (s1\<lparr>ec_rows := rows\<rparr>)
             in ((enc_current_etag E s2, st = STATUS_DRAINING), s2))"

definition enc_mark_offline :: "encoding_node \<Rightarrow> 'r enc_state \<Rightarrow> 'r enc_state" where
  "enc_mark_offline n = EncodingNode_update (en_id n) (\<lambda>m. m\<lparr>en_status := STATUS_OFFLINE\<rparr>)"

definition supervise_encode_nodes ::
  "'r token_env \<Rightarrow> ts \<Rightarrow> int \<Rightarrow> 'r enc_state \<Rightarrow> (int \<times> rebalance_result) \<times> 'r enc_state" where
  "supervise_encode_nodes E now mclk s =
     (let stale = EncodingNode_stale s (now - 15000)
      in case enc_rebalance E mclk (fold enc_mark_offline stale s) of
           (res, s') \<Rightarrow> ((int (length stale), res), s'))"

section \<open>The table\<close>

lemma enc_repoint_fields [simp]: "ea_camera (enc_repoint n st a) = ea_camera a" "ea_node (enc_repoint n st a) = n"
  by (simp_all add: enc_repoint_def Let_def)

lemma enc_get_map:
  assumes "\<And>a. ea_camera (f a) = ea_camera a"
  shows "enc_get_for_camera (map (\<lambda>a. if ea_camera a = c then f a else a) rows) d
      = (if d = c then map_option f (enc_get_for_camera rows c) else enc_get_for_camera rows d)"
  by (induction rows) (auto simp: enc_get_for_camera_def assms)

lemma enc_row_node_assign: "enc_row_node (enc_assign c n st rows) = (enc_row_node rows)(c \<mapsto> n)"
proof
  fix d
  show "enc_row_node (enc_assign c n st rows) d = ((enc_row_node rows)(c \<mapsto> n)) d"
  proof (cases "enc_get_for_camera rows c")
    case None
    then show ?thesis
      by (auto simp: enc_row_node_def enc_assign_def enc_get_for_camera_def first_row_append filter_empty_conv)
  next
    case (Some a)
    then show ?thesis by (simp add: enc_row_node_def enc_assign_def enc_get_map)
  qed
qed

lemma enc_get_remove: "enc_get_for_camera (enc_remove_for_camera c rows) d = (if d = c then None else enc_get_for_camera rows d)"
  by (induction rows) (auto simp: enc_get_for_camera_def enc_remove_for_camera_def)

lemma enc_row_node_remove: "enc_row_node (enc_remove_for_camera c rows) = (enc_row_node rows)(c := None)"
  by (auto simp: enc_row_node_def enc_get_remove)

interpretation enc_table: assignment_table
  "\<lambda>t. enc_row_node (fst t)"
  "\<lambda>c n t. (enc_assign c n STATE_PENDING (fst t), snd t @ [c])"
  "\<lambda>c t. (enc_remove_for_camera c (fst t), snd t @ [c])"
  by unfold_locales (simp_all add: enc_row_node_assign enc_row_node_remove)

end
