(* ===== verification/EncodeProps.thy ===== *)
theory EncodeProps
  imports EncodeScheduler AiProps
begin

text \<open>
  Properties of the encoder cluster: what a rebalance leaves with the feature on and off, that every
  change of an assignment re-syncs the camera's source, and that a node's heartbeat only confirms its
  own sessions.
\<close>

section \<open>Writing the plan\<close>

lemma enc_write_step_node:
  assumes "enc_row_node (fst t) c = enc_row_node ex c"
  shows "enc_row_node (fst (enc_write_step plan ex c t)) = (enc_row_node (fst t))(c := plan c)"
proof (cases "plan c")
  case None
  then show ?thesis using assms
    by (cases t) (auto simp: enc_write_step_def enc_row_node_remove enc_row_node_def fun_upd_idem split: option.splits)
next
  case (Some n)
  then show ?thesis using assms
    by (cases t; cases "enc_get_for_camera ex c")
       (auto simp: enc_write_step_def enc_row_node_assign, auto simp: enc_row_node_def)
qed

lemma enc_drop_loop:
  "fold (enc_drop_step cams) cs t =
     fold (\<lambda>c t. (enc_remove_for_camera c (fst t), snd t @ [c])) (filter (\<lambda>c. c \<notin> set cams) cs) t"
  by (induction cs arbitrary: t) (auto simp: enc_drop_step_def)

lemma enc_row_node_keys: "enc_row_node rows c \<noteq> None \<longleftrightarrow> c \<in> ea_camera ` set rows"
  by (auto simp: enc_row_node_def enc_get_for_camera_def filter_empty_conv)

lemma enc_written_rows:
  assumes "distinct cams" and "dom plan \<subseteq> set cams"
    and "fold (enc_drop_step cams) (map ea_camera (enc_all_rows rows)) (fold (enc_write_step plan rows) cams (rows, [])) = (rows', k)"
  shows "enc_row_node rows' = plan"
proof
  fix c
  let ?w = "fold (enc_write_step plan rows) cams (rows, [])"
  have w: "enc_row_node (fst ?w) c = (if c \<in> set cams then plan c else enc_row_node rows c)"
    using enc_table.write_loop [OF assms(1), of "(rows, [])" "enc_write_step plan rows" plan c]
    by (simp add: enc_write_step_node)
  have "enc_row_node rows' c = (if c \<in> set (filter (\<lambda>c. c \<notin> set cams) (map ea_camera (enc_all_rows rows)))
      then None else enc_row_node (fst ?w) c)"
    using enc_table.remove_loop [of "filter (\<lambda>c. c \<notin> set cams) (map ea_camera (enc_all_rows rows))" ?w c]
      assms(3) by (simp add: enc_drop_loop)
  moreover have "c \<notin> set cams \<Longrightarrow> plan c = None" using assms(2) by auto
  ultimately show "enc_row_node rows' c = plan c"
    using w enc_row_node_keys [of rows c] by (auto simp: enc_all_rows_def)
qed

text \<open>Every camera whose row differs after the loops is in the list of changed cameras.\<close>

lemma enc_changed_covers:
  assumes "enc_get_for_camera (fst t) d = enc_get_for_camera rows d \<or> d \<in> set (snd t)"
  shows "enc_get_for_camera (fst (fold (enc_drop_step cams) cs t)) d = enc_get_for_camera rows d
         \<or> d \<in> set (snd (fold (enc_drop_step cams) cs t))"
    and "enc_get_for_camera (fst (fold (enc_write_step plan ex) ws t)) d = enc_get_for_camera rows d
         \<or> d \<in> set (snd (fold (enc_write_step plan ex) ws t))"
proof -
  have drop: "enc_get_for_camera (fst (enc_drop_step cams c t)) d = enc_get_for_camera rows d
      \<or> d \<in> set (snd (enc_drop_step cams c t))"
    if "enc_get_for_camera (fst t) d = enc_get_for_camera rows d \<or> d \<in> set (snd t)" for c t
    using that by (cases t) (auto simp: enc_drop_step_def enc_get_remove)
  have other: "d \<noteq> c \<Longrightarrow> enc_get_for_camera (enc_assign c n st rs) d = enc_get_for_camera rs d" for c n st rs
    by (auto simp: enc_assign_def enc_get_map enc_get_for_camera_def first_row_append filter_empty_conv split: option.splits)
       (simp_all flip: enc_get_for_camera_def add: enc_get_map)
  have wr: "enc_get_for_camera (fst (enc_write_step plan ex c t)) d = enc_get_for_camera rows d
      \<or> d \<in> set (snd (enc_write_step plan ex c t))"
    if "enc_get_for_camera (fst t) d = enc_get_for_camera rows d \<or> d \<in> set (snd t)" for c t
    using that other [of c]
    by (cases t; cases "d = c") (auto simp: enc_write_step_def enc_get_remove split: option.splits)
  show "enc_get_for_camera (fst (fold (enc_drop_step cams) cs t)) d = enc_get_for_camera rows d
         \<or> d \<in> set (snd (fold (enc_drop_step cams) cs t))"
    using assms by (induction cs arbitrary: t) (auto simp: drop)
  show "enc_get_for_camera (fst (fold (enc_write_step plan ex) ws t)) d = enc_get_for_camera rows d
         \<or> d \<in> set (snd (fold (enc_write_step plan ex) ws t))"
    using assms by (induction ws arbitrary: t) (auto simp: wr)
qed

section \<open>Frame lemmas\<close>

lemma enc_bump_etag_frame [simp]:
  "ec_rows (enc_bump_etag E s) = ec_rows s" "ec_nodes (enc_bump_etag E s) = ec_nodes s"
  "n_cameras (enc_bump_etag E s) = n_cameras s" "ec_synced (enc_bump_etag E s) = ec_synced s"
  by (simp_all add: enc_bump_etag_def split: option.splits prod.splits)

lemma resync_frame [simp]:
  "ec_rows (resync_camera c s) = ec_rows s" "ec_nodes (resync_camera c s) = ec_nodes s"
  "n_cameras (resync_camera c s) = n_cameras s"
  by (simp_all add: resync_camera_def split: sum.splits)

lemma resync_loop [simp]:
  "ec_rows (fold resync_camera cs s) = ec_rows s" "ec_nodes (fold resync_camera cs s) = ec_nodes s"
  "n_cameras (fold resync_camera cs s) = n_cameras s"
  by (induction cs arbitrary: s) simp_all

text \<open>A camera that exists.\<close>

definition known_camera :: "'z nvr_scheme \<Rightarrow> db_id \<Rightarrow> bool" where
  "known_camera s c \<longleftrightarrow> \<not> isl (Camera_get_by_id s c)"

lemma known_camera_cong: "n_cameras s = n_cameras t \<Longrightarrow> known_camera s = known_camera t"
  by (intro ext) (simp add: known_camera_def Camera_get_by_id_def)

lemma resync_synced:
  "known_camera s c \<Longrightarrow> c \<in> set (ec_synced (resync_camera c s))"
  "d \<in> set (ec_synced s) \<Longrightarrow> d \<in> set (ec_synced (resync_camera c s))"
  by (auto simp: resync_camera_def known_camera_def split: sum.splits)

lemma resync_loop_keeps: "d \<in> set (ec_synced s) \<Longrightarrow> d \<in> set (ec_synced (fold resync_camera cs s))"
  by (induction cs arbitrary: s) (auto simp: resync_synced)

lemma resync_loop_synced:
  "c \<in> set cs \<Longrightarrow> known_camera s c \<Longrightarrow> c \<in> set (ec_synced (fold resync_camera cs s))"
proof (induction cs arbitrary: s)
  case (Cons d cs)
  have known: "known_camera (resync_camera d s) = known_camera s" by (rule known_camera_cong) simp
  show ?case
  proof (cases "c = d")
    case True
    then show ?thesis using Cons.prems(2) by (simp add: resync_loop_keeps resync_synced)
  next
    case False
    then show ?thesis using Cons.IH [of "resync_camera d s"] Cons.prems known by simp
  qed
qed simp

lemma enc_count_loop:
  "ec_rows (fold (enc_count_step load) ns s) = ec_rows s"
  "n_cameras (fold (enc_count_step load) ns s) = n_cameras s"
  by (induction ns arbitrary: s) (simp_all add: enc_count_step_def EncodingNode_update_def)

lemma sort_key_nil [simp]: "sort_key f xs = [] \<longleftrightarrow> xs = []"
  by (metis length_0_conv length_sort)

lemma clear_step_frame:
  "ec_rows (clear_step a s) = filter (\<lambda>b. ea_camera b \<noteq> ea_camera a) (ec_rows s)"
  "n_cameras (clear_step a s) = n_cameras s"
  by (simp_all add: clear_step_def enc_remove_for_camera_def)

lemma clear_loop:
  shows "ec_rows (fold clear_step as s) = filter (\<lambda>a. ea_camera a \<notin> ea_camera ` set as) (ec_rows s)"
    and "n_cameras (fold clear_step as s) = n_cameras s"
proof -
  show "ec_rows (fold clear_step as s) = filter (\<lambda>a. ea_camera a \<notin> ea_camera ` set as) (ec_rows s)"
    by (induction as arbitrary: s) (auto simp: clear_step_frame intro: filter_cong)
  show "n_cameras (fold clear_step as s) = n_cameras s"
    by (induction as arbitrary: s) (simp_all add: clear_step_frame)
qed

lemma clear_synced:
  "a \<in> set as \<Longrightarrow> known_camera s (ea_camera a) \<Longrightarrow> ea_camera a \<in> set (ec_synced (fold clear_step as s))"
proof -
  have keep: "d \<in> set (ec_synced s) \<Longrightarrow> d \<in> set (ec_synced (fold clear_step as s))" for d as and s :: "'a enc_state"
    by (induction as arbitrary: s) (auto simp: clear_step_def resync_synced)
  show "a \<in> set as \<Longrightarrow> known_camera s (ea_camera a) \<Longrightarrow> ea_camera a \<in> set (ec_synced (fold clear_step as s))"
    for s :: "'a enc_state"
  proof (induction as arbitrary: s)
    case (Cons b as)
    have known: "known_camera (clear_step b s) = known_camera s"
      by (rule known_camera_cong) (simp add: clear_step_def)
    have known': "known_camera (s\<lparr>ec_rows := r\<rparr>) = known_camera s" for r by (rule known_camera_cong) simp
    show ?case
    proof (cases "a = b")
      case True
      then have "ea_camera a \<in> set (ec_synced (clear_step b s))"
        using Cons.prems(2) known' by (simp add: clear_step_def resync_synced)
      then show ?thesis by (simp add: keep)
    next
      case False
      then show ?thesis using Cons.IH [of "clear_step b s"] Cons.prems known by simp
    qed
  qed simp
qed

section \<open>Rebalance\<close>

definition enc_well_keyed :: "'r enc_state \<Rightarrow> bool" where
  "enc_well_keyed s \<longleftrightarrow> distinct (map cam_id (n_cameras s)) \<and> distinct (map en_id (ec_nodes s))"

lemma needing_distinct: "enc_well_keyed s \<Longrightarrow> distinct (cameras_needing_encode E s)"
  by (simp add: cameras_needing_encode_def Let_def enc_well_keyed_def Camera_get_all_enabled_def distinct_map_filter_sub)

lemma enc_set_schedulable:
  "set (EncodingNode_schedulable s) =
     {n \<in> set (ec_nodes s). en_deleted_at n = None \<and> en_enabled n \<and> en_status n = STATUS_ONLINE}"
  by (auto simp: EncodingNode_schedulable_def)

lemma dom_enc_node_cap: "dom (enc_node_cap nodes) = set (map en_id nodes)"
  by (simp add: enc_node_cap_def dom_map_of_conv_image_fst image_image)

lemma enc_node_cap_mem:
  assumes "enc_well_keyed s" and "n \<in> set (EncodingNode_schedulable s)"
  shows "enc_node_cap (EncodingNode_schedulable s) (en_id n) = Some (max 0 (en_max_sessions n))"
proof -
  have "distinct (map en_id (filter P (ec_nodes s)))" for P
    using assms(1) by (simp add: enc_well_keyed_def distinct_map_filter_sub)
  moreover have "mset (map en_id (EncodingNode_schedulable s)) =
      mset (map en_id (filter (\<lambda>n. en_deleted_at n = None \<and> en_enabled n \<and> en_status n = STATUS_ONLINE) (ec_nodes s)))"
    by (simp add: EncodingNode_schedulable_def)
  ultimately have "distinct (map en_id (EncodingNode_schedulable s))"
    using mset_eq_imp_distinct_iff by blast
  then show ?thesis
    unfolding enc_node_cap_def using assms(2) by (intro map_of_is_SomeI) (auto simp: comp_def)
qed

lemma enc_rebalance_on_unfold:
  assumes wk: "enc_well_keyed s" and run: "enc_rebalance_on E s = (res, s')"
  obtains plan load pending where
    "make_plan (map en_id (EncodingNode_schedulable s)) (enc_node_cap (EncodingNode_schedulable s))
       (enc_row_node (ec_rows s)) (cameras_needing_encode E s) = (plan, load, pending)"
    and "enc_row_node (ec_rows s') = plan"
    and "\<And>c. known_camera s c \<Longrightarrow> enc_get_for_camera (ec_rows s') c \<noteq> enc_get_for_camera (ec_rows s) c
            \<Longrightarrow> c \<in> set (ec_synced s')"
proof -
  let ?cams = "cameras_needing_encode E s"
  let ?ex = "map ea_camera (enc_all_rows (ec_rows s))"
  obtain plan load pending where p: "make_plan (map en_id (EncodingNode_schedulable s))
      (enc_node_cap (EncodingNode_schedulable s)) (enc_row_node (ec_rows s)) ?cams = (plan, load, pending)"
    by (metis prod_cases3)
  obtain rows ch where w: "fold (enc_drop_step ?cams) ?ex (fold (enc_write_step plan (ec_rows s)) ?cams (ec_rows s, [])) = (rows, ch)"
    by fastforce
  let ?s1 = "fold (enc_count_step load) (EncodingNode_schedulable s) (s\<lparr>ec_rows := rows\<rparr>)"
  have s': "s' = (if ch \<noteq> [] then fold resync_camera ch (enc_bump_etag E ?s1) else ?s1)"
    using run p w by (auto simp: enc_rebalance_on_def Let_def)
  then have rows: "ec_rows s' = rows" by (simp add: enc_count_loop)
  have "dom plan \<subseteq> set ?cams"
    using make_plan_ok(1) [OF needing_distinct [OF wk] _ p] by (simp add: dom_enc_node_cap plan_ok_def)
  then have "enc_row_node (ec_rows s') = plan"
    using enc_written_rows [OF needing_distinct [OF wk] _ w] rows by simp
  moreover have "c \<in> set (ec_synced s')"
    if "known_camera s c" "enc_get_for_camera (ec_rows s') c \<noteq> enc_get_for_camera (ec_rows s) c" for c
  proof -
    have "c \<in> set ch"
    proof -
      have "enc_get_for_camera (fst (fold (enc_write_step plan (ec_rows s)) ?cams (ec_rows s, []))) c = enc_get_for_camera (ec_rows s) c
          \<or> c \<in> set (snd (fold (enc_write_step plan (ec_rows s)) ?cams (ec_rows s, [])))"
        by (rule enc_changed_covers(2)) simp
      from enc_changed_covers(1) [OF this, of ?cams ?ex] w that(2) rows show ?thesis by simp
    qed
    moreover have "known_camera (enc_bump_etag E ?s1) = known_camera s"
      by (rule known_camera_cong) (simp add: enc_count_loop)
    ultimately show ?thesis using that(1) s' by (auto simp: resync_loop_synced)
  qed
  ultimately show thesis using that [OF p] by blast
qed

text \<open>A run of \<open>encode_scheduler.rebalance\<close>. With the feature flag off no assignment survives and every
  known camera that had one is re-synced (it falls back to local transcoding). With the flag on, a row
  exists only for a camera that needs an encoder now, on an enabled, online node, no node carries more
  cameras than its \<open>max_sessions\<close>, a camera is left without a node only when all are full, and every
  known camera whose row changed in any way is re-synced.\<close>

theorem enc_rebalance_sound:
  assumes "enc_well_keyed s" and "flag_on mclk s = (on, s1)" and "enc_rebalance E mclk s = (res, s')"
  shows "(\<not> on \<longrightarrow> ec_rows s' = []
            \<and> (\<forall>a \<in> set (ec_rows s). known_camera s (ea_camera a) \<longrightarrow> ea_camera a \<in> set (ec_synced s')))
       \<and> (on \<longrightarrow>
            (\<forall>c i. enc_row_node (ec_rows s') c = Some i \<longrightarrow> c \<in> set (cameras_needing_encode E s1)
               \<and> (\<exists>n \<in> set (ec_nodes s). en_id n = i \<and> en_enabled n \<and> en_status n = STATUS_ONLINE))
          \<and> (\<forall>n \<in> set (EncodingNode_schedulable s).
               int (cams_on (cameras_needing_encode E s1) (enc_row_node (ec_rows s')) (en_id n)) \<le> max 0 (en_max_sessions n))
          \<and> (\<forall>c \<in> set (cameras_needing_encode E s1). enc_row_node (ec_rows s') c = None \<longrightarrow>
               (\<forall>n \<in> set (EncodingNode_schedulable s).
                  max 0 (en_max_sessions n) \<le> int (cams_on (cameras_needing_encode E s1) (enc_row_node (ec_rows s')) (en_id n))))
          \<and> (\<forall>c. known_camera s c \<longrightarrow> enc_get_for_camera (ec_rows s') c \<noteq> enc_get_for_camera (ec_rows s) c
               \<longrightarrow> c \<in> set (ec_synced s')))"
proof -
  have s1: "ec_rows s1 = ec_rows s" "ec_nodes s1 = ec_nodes s" "n_cameras s1 = n_cameras s"
    using assms(2) by (auto simp: flag_on_def split: prod.splits)
  have wk: "enc_well_keyed s1" using assms(1) s1 by (simp add: enc_well_keyed_def)
  have sched: "EncodingNode_schedulable s1 = EncodingNode_schedulable s"
    using s1 by (simp add: EncodingNode_schedulable_def)
  have known: "known_camera s1 = known_camera s" by (rule known_camera_cong) (rule s1)
  show ?thesis
  proof (cases on)
    case False
    then have "enc_clear E s1 = (res, s')" using assms(2,3) by (simp add: enc_rebalance_def)
    then have s': "s' = (if enc_all_rows (ec_rows s1) \<noteq> [] then enc_bump_etag E (fold clear_step (enc_all_rows (ec_rows s1)) s1)
        else fold clear_step (enc_all_rows (ec_rows s1)) s1)"
      by (auto simp: enc_clear_def Let_def)
    have "ec_rows s' = []"
      by (cases "enc_all_rows (ec_rows s1) = []") (simp_all add: s' clear_loop enc_all_rows_def filter_empty_conv)
    moreover have "ea_camera a \<in> set (ec_synced s')" if "a \<in> set (ec_rows s)" "known_camera s (ea_camera a)" for a
      using clear_synced [of a "enc_all_rows (ec_rows s1)" s1] that s1(1) known by (auto simp: s' enc_all_rows_def)
    ultimately show ?thesis using False by simp
  next
    case True
    then have run: "enc_rebalance_on E s1 = (res, s')" using assms(2,3) by (simp add: enc_rebalance_def)
    obtain plan load pending where
      p: "make_plan (map en_id (EncodingNode_schedulable s1)) (enc_node_cap (EncodingNode_schedulable s1))
            (enc_row_node (ec_rows s1)) (cameras_needing_encode E s1) = (plan, load, pending)"
      and rows: "enc_row_node (ec_rows s') = plan"
      and sync: "\<And>c. known_camera s1 c \<Longrightarrow> enc_get_for_camera (ec_rows s') c \<noteq> enc_get_for_camera (ec_rows s1) c
            \<Longrightarrow> c \<in> set (ec_synced s')"
      by (rule enc_rebalance_on_unfold [OF wk run]) blast
    have "set (map en_id (EncodingNode_schedulable s1)) \<subseteq> dom (enc_node_cap (EncodingNode_schedulable s1))"
      by (simp add: dom_enc_node_cap)
    note ok = make_plan_ok [OF needing_distinct [OF wk] this p]
    have load: "load i = int (cams_on (cameras_needing_encode E s1) (enc_row_node (ec_rows s')) i)" for i
      using ok(1) by (simp add: plan_ok_def rows)
    have "c \<in> set (cameras_needing_encode E s1) \<and> (\<exists>n \<in> set (ec_nodes s). en_id n = i \<and> en_enabled n \<and> en_status n = STATUS_ONLINE)"
      if "enc_row_node (ec_rows s') c = Some i" for c i
    proof -
      have "c \<in> dom plan" "i \<in> ran plan" using that by (auto simp: rows ran_def)
      then have "c \<in> set (cameras_needing_encode E s1)" "i \<in> en_id ` set (EncodingNode_schedulable s1)"
        using ok(1) dom_enc_node_cap [of "EncodingNode_schedulable s1"] unfolding plan_ok_def by auto
      then show ?thesis by (auto simp: enc_set_schedulable s1)
    qed
    moreover have "load (en_id n) \<le> max 0 (en_max_sessions n)" if "n \<in> set (EncodingNode_schedulable s)" for n
      using ok(1) enc_node_cap_mem [OF wk, of n] that sched unfolding plan_ok_def by fastforce
    moreover have "max 0 (en_max_sessions n) \<le> load (en_id n)"
      if "c \<in> set (cameras_needing_encode E s1)" "enc_row_node (ec_rows s') c = None" "n \<in> set (EncodingNode_schedulable s)" for c n
      using ok(2) ok(3) [of c "en_id n" "max 0 (en_max_sessions n)"] enc_node_cap_mem [OF wk, of n] that sched rows by auto
    ultimately show ?thesis using True sync known s1(1) unfolding load by simp
  qed
qed

section \<open>Heartbeats\<close>

lemma session_step_row:
  assumes "enc_get_for_camera (fst t) d = Some a"
  shows "\<exists>a'. enc_get_for_camera (fst (session_step now i v t)) d = Some a' \<and> ea_node a' = ea_node a \<and> ea_epoch a' = ea_epoch a
           \<and> (a' \<noteq> a \<longrightarrow> ea_node a = i \<and> py_int v = Inr d)"
proof -
  have "enc_get_for_camera (enc_mark_report now c rows) d =
      (if d = c then map_option (\<lambda>a. let a1 = a\<lparr>ea_last_report_ts := Some now\<rparr>
          in if ea_state a = STATE_PENDING then a1\<lparr>ea_state := STATE_ACTIVE, ea_claimed_at := Some now\<rparr> else a1)
        (enc_get_for_camera rows c) else enc_get_for_camera rows d)" for c rows
    unfolding enc_mark_report_def by (rule enc_get_map) (simp add: Let_def)
  then show ?thesis
    using assms by (cases t) (auto simp: session_step_def Let_def split: sum.splits option.splits)
qed

lemma session_loop_row:
  assumes "enc_get_for_camera (fst t) d = Some a"
  shows "\<exists>a'. enc_get_for_camera (fst (fold (session_step now i) vs t)) d = Some a' \<and> ea_node a' = ea_node a \<and> ea_epoch a' = ea_epoch a
           \<and> (a' \<noteq> a \<longrightarrow> ea_node a = i \<and> Inr d \<in> py_int ` set vs)"
  using assms
proof (induction vs arbitrary: t a)
  case Nil
  then show ?case by simp
next
  case (Cons v vs)
  obtain b where b: "enc_get_for_camera (fst (session_step now i v t)) d = Some b" "ea_node b = ea_node a"
    "ea_epoch b = ea_epoch a" "b \<noteq> a \<longrightarrow> ea_node a = i \<and> py_int v = Inr d"
    using session_step_row [OF Cons.prems] by blast
  obtain a' where a': "enc_get_for_camera (fst (fold (session_step now i) (v # vs) t)) d = Some a'" "ea_node a' = ea_node b"
    "ea_epoch a' = ea_epoch b" "a' \<noteq> b \<longrightarrow> ea_node b = i \<and> Inr d \<in> py_int ` set vs"
    using Cons.IH [OF b(1)] by auto
  then show ?case using b by (intro exI [of _ a']) (auto simp: image_iff)
qed

text \<open>A heartbeat confirms only the reporting node's own sessions. Whatever a node puts into
  \<open>active_sessions\<close>, no assignment moves or changes epoch, and a row can only change (be stamped, or
  flip from pending to active, which switches the camera's live source to the node's stream) if it
  belongs to that node and its camera is in the report.\<close>

theorem heartbeat_confirms_own_sessions:
  assumes "enc_heartbeat E now n payload ip s = (r, s')" and "enc_get_for_camera (ec_rows s) c = Some a"
  shows "\<exists>a'. enc_get_for_camera (ec_rows s') c = Some a' \<and> ea_node a' = ea_node a \<and> ea_epoch a' = ea_epoch a
           \<and> (a' \<noteq> a \<longrightarrow> ea_node a = en_id n
                \<and> (\<exists>vs. dget payload ''active_sessions'' = PList vs \<and> Inr c \<in> py_int ` set vs))"
proof -
  define vs where "vs = (case dget payload ''active_sessions'' of PList vs \<Rightarrow> vs | _ \<Rightarrow> [])"
  have rows: "ec_rows s' = fst (fold (session_step now (en_id n)) vs (ec_rows s, []))"
    using assms(1)
    by (cases "fold (session_step now (en_id n)) vs (ec_rows s, [])")
       (auto simp: enc_heartbeat_def Let_def EncodingNode_update_def vs_def [symmetric])
  obtain a' where "enc_get_for_camera (ec_rows s') c = Some a'" "ea_node a' = ea_node a" "ea_epoch a' = ea_epoch a"
    "a' \<noteq> a \<longrightarrow> ea_node a = en_id n \<and> Inr c \<in> py_int ` set vs"
    using session_loop_row [of "(ec_rows s, [])" c a now "en_id n" vs] assms(2) rows by auto
  moreover have "Inr c \<in> py_int ` set vs \<Longrightarrow> dget payload ''active_sessions'' = PList vs"
    by (auto simp: vs_def split: pyval.splits)
  ultimately show ?thesis by blast
qed

section \<open>A concrete cluster\<close>

definition sample_encoder :: encoding_node where
  "sample_encoder =
     \<lparr>en_id = 10, en_uuid = ''e'', en_name = PStr ''e'', en_kind = ''remote'', en_endpoint = None, en_status = STATUS_ONLINE,
      en_enabled = True, en_hwaccel = PNone, en_max_sessions = 1, en_capabilities = PNone, en_bench = PNone,
      en_version = PNone, en_assigned_count = 0, en_last_heartbeat_ts = Some 0, en_token_jti = None,
      en_last_seen_ip = None, en_last_error = None, en_created_at = 0, en_deleted_at = None\<rparr>"

definition sample_stream :: "db_id \<Rightarrow> stream" where
  "sample_stream c = \<lparr>sm_camera = c, sm_role = ''sub'', sm_codec = Some ''h265'', sm_go2rtc_name = ''cam'',
     sm_is_default_live = True, sm_enabled = True, sm_deleted = None\<rparr>"

text \<open>Two H.265 cameras, one encoder with one session; camera 2 has a row on it, idle-stop is off.\<close>

definition sample_encoders :: "bool \<Rightarrow> mem enc_state" where
  "sample_encoders on =
     \<lparr>n_segments = [], n_recordings = [], n_disks = [], n_policies = [], n_cameras = map sample_camera [1, 2],
      n_files = [], n_locked = [], n_next_key = 100, n_signals = [], n_audit = [],
      ec_nodes = [sample_encoder],
      ec_rows = [\<lparr>ea_camera = 2, ea_node = 10, ea_state = STATE_PENDING, ea_claimed_at = None, ea_last_report_ts = None, ea_epoch = 1\<rparr>],
      ec_streams = [sample_stream 1, sample_stream 2], ec_live_transcode = [],
      ec_settings = [(''live_transcode_idle_s'', PInt 0)],
      ec_flags = \<lparr>fl_rows = [], fl_cache = [(FLAG_KEY, on)], fl_cache_at = 1000\<rparr>, ec_synced = [],
      ec_tok = sample_tokens\<rparr>"

theorem enc_rebalance_sound_witness:
  "ec_rows (snd (enc_rebalance sample_env 2000 (sample_encoders False))) = []
   \<and> 2 \<in> set (ec_synced (snd (enc_rebalance sample_env 2000 (sample_encoders False))))
   \<and> enc_row_node (ec_rows (snd (enc_rebalance sample_env 2000 (sample_encoders True)))) 2 = Some 10
   \<and> max 0 (en_max_sessions sample_encoder) \<le> int (cams_on
        (cameras_needing_encode sample_env (snd (flag_on 2000 (sample_encoders True))))
        (enc_row_node (ec_rows (snd (enc_rebalance sample_env 2000 (sample_encoders True))))) 10)"
proof -
  have off: "enc_well_keyed (sample_encoders False)" "flag_on 2000 (sample_encoders False) = (False, sample_encoders False)"
    by code_simp+
  have on: "enc_well_keyed (sample_encoders True)" "flag_on 2000 (sample_encoders True) = (True, sample_encoders True)"
    by code_simp+
  have "ec_rows (snd (enc_rebalance sample_env 2000 (sample_encoders False))) = []"
    using enc_rebalance_sound [OF off] by (metis prod.collapse)
  moreover have "2 \<in> set (ec_synced (snd (enc_rebalance sample_env 2000 (sample_encoders False))))" by code_simp
  moreover have 2: "enc_row_node (ec_rows (snd (enc_rebalance sample_env 2000 (sample_encoders True)))) 2 = Some 10" by code_simp
  moreover have "sample_encoder \<in> set (EncodingNode_schedulable (sample_encoders True))"
    by (simp add: enc_set_schedulable sample_encoders_def sample_encoder_def)
  moreover have "1 \<in> set (cameras_needing_encode sample_env (sample_encoders True))"
    "enc_row_node (ec_rows (snd (enc_rebalance sample_env 2000 (sample_encoders True)))) 1 = None" by code_simp+
  moreover have "en_id sample_encoder = 10" by (simp add: sample_encoder_def)
  ultimately show ?thesis
    using enc_rebalance_sound [OF on, of sample_env "fst (enc_rebalance sample_env 2000 (sample_encoders True))"
      "snd (enc_rebalance sample_env 2000 (sample_encoders True))"] on(2) by (metis prod.collapse snd_conv)
qed

theorem heartbeat_confirms_own_sessions_witness:
  "\<exists>a'. enc_get_for_camera (ec_rows (snd (enc_heartbeat sample_env 7 sample_encoder
            [(''active_sessions'', PList [PStr ''2''])] None (sample_encoders True)))) 2 = Some a'
      \<and> ea_state a' = STATE_ACTIVE \<and> ea_node a' = 10 \<and> ea_epoch a' = 1"
proof -
  let ?h = "enc_heartbeat sample_env 7 sample_encoder [(''active_sessions'', PList [PStr ''2''])] None (sample_encoders True)"
  let ?a = "\<lparr>ea_camera = 2, ea_node = 10, ea_state = STATE_PENDING, ea_claimed_at = None, ea_last_report_ts = None, ea_epoch = 1\<rparr>"
  have a: "enc_get_for_camera (ec_rows (sample_encoders True)) 2 = Some ?a" by code_simp
  have "map_option ea_state (enc_get_for_camera (ec_rows (snd ?h)) 2) = Some STATE_ACTIVE" by code_simp
  with heartbeat_confirms_own_sessions [of sample_env 7 sample_encoder _ None "sample_encoders True" "fst ?h" "snd ?h", OF _ a]
  show ?thesis by fastforce
qed

end
