(* ===== verification/Events.thy ===== *)
theory Events
  imports Retention Redis
begin

text \<open>
  The event path: \<open>server/service/event_pipeline.py\<close> with its tables (\<open>model/event.py\<close>,
  \<open>event_policy.py\<close>, \<open>event_outbox.py\<close>, \<open>schedule.py\<close>), the policy and schedule resolvers, clip
  materialisation (\<open>event_clip.py\<close>, \<open>cache_buffer.py\<close>) and the maintenance beats
  (\<open>task/list/event_maintenance.py\<close>).

  The state extends the recorder's tables, so clips are rows of the same recordings table retention
  reads. Vendor normalisation happens before this model: \<open>process\<close> starts from a normalised event. The
  site-local weekday and minute of a UTC time are a parameter (\<open>ee_local\<close>).
\<close>

section \<open>State\<close>

definition EV_ACTIVE :: int where "EV_ACTIVE = 0"
definition EV_ENDED :: int where "EV_ENDED = 1"
definition EV_PULSE :: int where "EV_PULSE = 2"
definition TYPE_MOTION :: string where "TYPE_MOTION = ''motion''"
definition ACTION_RECORD :: string where "ACTION_RECORD = ''record''"
definition ACTION_DISCARD :: string where "ACTION_DISCARD = ''discard''"
definition ACTION_TIMELAPSE :: string where "ACTION_TIMELAPSE = ''timelapse''"
definition ACTION_NOTIFY_ONLY :: string where "ACTION_NOTIFY_ONLY = ''notify_only''"
definition MODE_CONTINUOUS :: string where "MODE_CONTINUOUS = ''continuous''"
definition MODE_MOTION_ONLY :: string where "MODE_MOTION_ONLY = ''motion_only''"
definition MODE_OFF :: string where "MODE_OFF = ''off''"

lemmas event_consts = EV_ACTIVE_def EV_ENDED_def EV_PULSE_def TYPE_MOTION_def ACTION_RECORD_def ACTION_DISCARD_def
  ACTION_TIMELAPSE_def ACTION_NOTIFY_ONLY_def MODE_CONTINUOUS_def MODE_MOTION_ONLY_def MODE_OFF_def

record event =
  ev_id :: db_id
  ev_camera :: db_id
  ev_type :: string
  ev_subtype :: "string option"
  ev_state :: int
  ev_start :: ts
  ev_end :: "ts option"
  ev_duration_ms :: "int option"
  ev_score :: "int option"
  ev_source :: string
  ev_channel :: "int option"
  ev_region :: pyval
  ev_recording_id :: "db_id option"
  ev_policy_action :: "string option"
  ev_dedup_key :: string
  ev_vendor_event_id :: "string option"
  ev_raw :: pyval
  ev_deleted :: "ts option"

record event_policy =
  ep_id :: db_id
  ep_camera :: "db_id option"
  ep_event_type :: string
  ep_subtype :: "string option"
  ep_action :: string
  ep_pre_buffer_s :: int
  ep_post_buffer_s :: int
  ep_cooldown_s :: int
  ep_min_score :: "int option"
  ep_retention_class :: "string option"
  ep_notify :: bool
  ep_enabled :: bool
  ep_deleted :: "ts option"

record outbox_row =
  ob_id :: db_id
  ob_event :: db_id
  ob_camera :: db_id
  ob_event_type :: string
  ob_payload :: event
  ob_status :: string
  ob_attempts :: int
  ob_created_at :: ts
  ob_consumed_at :: "ts option"

record schedule =
  sc_camera :: db_id
  sc_day_of_week :: int
  sc_start_min :: int
  sc_end_min :: int
  sc_mode :: string
  sc_priority :: int
  sc_enabled :: bool
  sc_deleted :: "ts option"

record normalized =
  ne_type :: string
  ne_state :: string
  ne_subtype :: "string option"
  ne_score :: "int option"
  ne_channel :: "int option"
  ne_region :: pyval
  ne_vendor_event_id :: "string option"
  ne_dedup_extra :: "string option"

record 'r ev_state = nvr +
  es_events :: "event list"
  es_policies :: "event_policy list"
  es_outbox :: "outbox_row list"
  es_schedules :: "schedule list"
  es_redis :: 'r

record 'r ev_env =
  ee_redis :: "'r redis"
  ee_prefix :: string
  ee_local :: "ts \<Rightarrow> int \<times> int"

section \<open>Event rows\<close>

definition Event_get_by_id :: "('r, 'z) ev_state_scheme \<Rightarrow> db_id \<Rightarrow> event option" where
  "Event_get_by_id s i = first_row (filter (\<lambda>e. ev_id e = i \<and> ev_deleted e = None) (es_events s))"

definition exists_vendor :: "'r ev_state \<Rightarrow> db_id \<Rightarrow> string \<Rightarrow> bool" where
  "exists_vendor s cam v = list_ex (\<lambda>e. ev_camera e = cam \<and> ev_vendor_event_id e = Some v) (es_events s)"

definition is_active_for :: "string \<Rightarrow> event \<Rightarrow> bool" where
  "is_active_for dedup e \<longleftrightarrow> ev_dedup_key e = dedup \<and> ev_state e = EV_ACTIVE \<and> ev_deleted e = None"

definition get_active_by_dedup :: "'r ev_state \<Rightarrow> string \<Rightarrow> event option" where
  "get_active_by_dedup s dedup = first_row (sort_key (\<lambda>e. - ev_start e) (filter (is_active_for dedup) (es_events s)))"

definition get_stale_active :: "'r ev_state \<Rightarrow> ts \<Rightarrow> nat \<Rightarrow> event list" where
  "get_stale_active s cutoff limit =
     take limit (filter (\<lambda>e. ev_state e = EV_ACTIVE \<and> ev_start e < cutoff \<and> ev_deleted e = None) (es_events s))"

definition Event_create ::
  "db_id \<Rightarrow> normalized \<Rightarrow> string \<Rightarrow> string \<Rightarrow> ts \<Rightarrow> int \<Rightarrow> pyval \<Rightarrow> 'r ev_state \<Rightarrow> event \<times> 'r ev_state" where
  "Event_create cam n source dedup now st raw s =
     (let e = \<lparr>ev_id = n_next_key s, ev_camera = cam, ev_type = ne_type n, ev_subtype = ne_subtype n, ev_state = st,
               ev_start = now, ev_end = None, ev_duration_ms = None, ev_score = ne_score n, ev_source = source,
               ev_channel = ne_channel n, ev_region = ne_region n, ev_recording_id = None, ev_policy_action = None,
               ev_dedup_key = dedup, ev_vendor_event_id = ne_vendor_event_id n, ev_raw = raw, ev_deleted = None\<rparr>
      in (e, s\<lparr>es_events := es_events s @ [e], n_next_key := n_next_key s + 1\<rparr>))"

definition update_event :: "db_id \<Rightarrow> (event \<Rightarrow> event) \<Rightarrow> 'r ev_state \<Rightarrow> 'r ev_state" where
  "update_event i f s = s\<lparr>es_events := map (\<lambda>e. if ev_id e = i then f e else e) (es_events s)\<rparr>"

definition close_row :: "ts \<Rightarrow> event \<Rightarrow> event" where
  "close_row end_ts e = e\<lparr>ev_end := Some end_ts, ev_state := EV_ENDED, ev_duration_ms := Some (max 0 (end_ts - ev_start e))\<rparr>"

definition Event_close :: "ts \<Rightarrow> db_id \<Rightarrow> 'r ev_state \<Rightarrow> 'r ev_state" where
  "Event_close end_ts i = update_event i (close_row end_ts)"

definition Event_soft_delete :: "ts \<Rightarrow> db_id \<Rightarrow> 'r ev_state \<Rightarrow> 'r ev_state" where
  "Event_soft_delete now i = update_event i (\<lambda>e. e\<lparr>ev_deleted := Some now\<rparr>)"

definition set_action :: "db_id \<Rightarrow> string \<Rightarrow> 'r ev_state \<Rightarrow> 'r ev_state" where
  "set_action i action = update_event i (\<lambda>e. e\<lparr>ev_policy_action := Some action\<rparr>)"

section \<open>Policy and schedule\<close>

definition get_candidates :: "'r ev_state \<Rightarrow> db_id \<Rightarrow> string \<Rightarrow> event_policy list" where
  "get_candidates s cam typ =
     filter (\<lambda>p. ep_deleted p = None \<and> ep_enabled p \<and> (ep_camera p = Some cam \<or> ep_camera p = None)
               \<and> (ep_event_type p = typ \<or> ep_event_type p = ''*'')) (es_policies s)"

text \<open>A missing or empty subtype is false.\<close>

definition given :: "string option \<Rightarrow> bool" where
  "given v = (case v of None \<Rightarrow> False | Some t \<Rightarrow> t \<noteq> [])"

definition rank :: "db_id \<Rightarrow> string \<Rightarrow> string option \<Rightarrow> event_policy \<Rightarrow> int" where
  "rank cam typ subtype p =
     (if ep_camera p = Some cam then 1000 else 0)
   + (if ep_event_type p = typ then 100 else if ep_event_type p = ''*'' then 10 else 0)
   + (if given (ep_subtype p) \<and> given subtype \<and> ep_subtype p = subtype then 5 else 0)"

text \<open>The loop's \<open>continue\<close>: a policy for another subtype is skipped.\<close>

definition other_subtype :: "string option \<Rightarrow> event_policy \<Rightarrow> bool" where
  "other_subtype subtype p \<longleftrightarrow>
     given (ep_subtype p) \<and> ep_subtype p \<noteq> Some (case subtype of None \<Rightarrow> [] | Some t \<Rightarrow> t)"

definition resolve :: "'r ev_state \<Rightarrow> db_id \<Rightarrow> string \<Rightarrow> string option \<Rightarrow> event_policy option" where
  "resolve s cam typ subtype =
     best_above (rank cam typ subtype) (filter (\<lambda>p. \<not> other_subtype subtype p) (get_candidates s cam typ)) None (- 1)"

definition get_for_camera_dow :: "('r, 'z) ev_state_scheme \<Rightarrow> db_id \<Rightarrow> int \<Rightarrow> schedule list" where
  "get_for_camera_dow s cam dow =
     filter (\<lambda>r. sc_camera r = cam \<and> sc_day_of_week r = dow \<and> sc_deleted r = None \<and> sc_enabled r) (es_schedules s)"

definition schedule_mode :: "'r ev_env \<Rightarrow> ('r, 'z) ev_state_scheme \<Rightarrow> db_id \<Rightarrow> ts \<Rightarrow> string" where
  "schedule_mode E s cam t =
     (case ee_local E t of (dow, minute) \<Rightarrow>
        (case max_by sc_priority (filter (\<lambda>r. sc_start_min r \<le> minute \<and> minute < sc_end_min r) (get_for_camera_dow s cam dow)) of
           None \<Rightarrow> MODE_CONTINUOUS
         | Some r \<Rightarrow> sc_mode r))"

definition combine :: "string \<Rightarrow> string \<Rightarrow> string \<Rightarrow> string" where
  "combine action mode typ =
     (if action = ACTION_DISCARD then ''discard''
      else if action = ACTION_NOTIFY_ONLY then
        (if mode = MODE_MOTION_ONLY \<and> typ \<noteq> TYPE_MOTION then ''discard'' else ''notify_only'')
      else if action = ACTION_TIMELAPSE then
        (if mode = MODE_OFF then ''discard''
         else if mode = MODE_MOTION_ONLY \<and> typ \<noteq> TYPE_MOTION then ''discard'' else ''timelapse'')
      else if action = ACTION_RECORD then
        (if mode = MODE_OFF then ''discard''
         else if mode = MODE_MOTION_ONLY \<and> typ \<noteq> TYPE_MOTION then ''discard'' else ''record'')
      else ''discard'')"

section \<open>Cooldown\<close>

definition cooldown_key :: "'r ev_env \<Rightarrow> string \<Rightarrow> string" where
  "cooldown_key E dedup = ee_prefix E @ '':event:cooldown:'' @ dedup"

definition within_cooldown :: "'r ev_env \<Rightarrow> string \<Rightarrow> 'r \<Rightarrow> bool" where
  "within_cooldown E dedup r =
     (case rd_exists (ee_redis E) (cooldown_key E dedup) r of None \<Rightarrow> False | Some n \<Rightarrow> n = 1)"

definition mark_trigger :: "'r ev_env \<Rightarrow> string \<Rightarrow> int \<Rightarrow> 'r \<Rightarrow> 'r" where
  "mark_trigger E dedup cooldown_s r =
     (case rd_setex (ee_redis E) (cooldown_key E dedup) (max 1 cooldown_s) ''1'' r of None \<Rightarrow> r | Some r' \<Rightarrow> r')"

section \<open>Clips\<close>

text \<open>The window of \<open>event_clip.materialize\<close>: the pre-buffer is clamped to the cache retention.\<close>

definition clip_start :: "'r ev_state \<Rightarrow> event \<Rightarrow> int \<Rightarrow> ts" where
  "clip_start s ev pre_s =
     (let c = (case StoragePolicy_get_for_camera s (ev_camera ev) of None \<Rightarrow> 60 | Some p \<Rightarrow> pol_cache_buffer_seconds p);
          cache_seconds = (if c = 0 then 60 else c)
      in ev_start ev - min pre_s cache_seconds * 1000)"

definition clip_stop :: "ts \<Rightarrow> event \<Rightarrow> int \<Rightarrow> ts" where
  "clip_stop now ev post_s = (case ev_end ev of None \<Rightarrow> now | Some e \<Rightarrow> e) + post_s * 1000"

text \<open>Extend the event recording that overlaps the window, or create one.\<close>

definition clip_recording :: "event \<Rightarrow> ts \<Rightarrow> ts \<Rightarrow> 'r ev_state \<Rightarrow> db_id \<times> 'r ev_state" where
  "clip_recording ev start stop s =
     (case Recording_find_overlapping s (ev_camera ev) start stop REASON_EVENT of
        Some r \<Rightarrow> (rec_id r, Recording_extend s (rec_id r) start stop)
      | None \<Rightarrow> (case Recording_create s (ev_camera ev) REASON_EVENT CLASS_EVENT start (Some stop) None
                       (Some (''event:'' @ ev_type ev)) None of (r, s') \<Rightarrow> (rec_id r, s')))"

text \<open>\<open>event_clip.materialize\<close>; its \<open>retention_class\<close> argument is not used.\<close>

definition materialize :: "ts \<Rightarrow> db_id \<Rightarrow> int \<Rightarrow> int \<Rightarrow> 'r ev_state \<Rightarrow> db_id option \<times> 'r ev_state" where
  "materialize now event_id pre_s post_s s =
     (case Event_get_by_id s event_id of
        None \<Rightarrow> (None, s)
      | Some ev \<Rightarrow>
          (case clip_recording ev (clip_start s ev pre_s) (clip_stop now ev post_s) s of
             (rid, s1) \<Rightarrow> (Some rid, update_event event_id (\<lambda>e. e\<lparr>ev_recording_id := Some rid\<rparr>) s1)))"

text \<open>\<open>cache_buffer.retain\<close>: a protected recording over the window, and its segments marked.\<close>

definition protect_segments :: "db_id \<Rightarrow> ts \<Rightarrow> ts \<Rightarrow> 'r ev_state \<Rightarrow> 'r ev_state" where
  "protect_segments cam start stop s =
     fold (\<lambda>g s. Segment_mark_reason s (seg_id g) SEG_REASON_MANUAL) (Segment_get_range s cam start stop (Some ''main'')) s"

definition retain :: "db_id \<Rightarrow> ts \<Rightarrow> int \<Rightarrow> int \<Rightarrow> string \<Rightarrow> db_id option \<Rightarrow> string option \<Rightarrow> 'r ev_state \<Rightarrow> recording \<times> 'r ev_state" where
  "retain cam event_ts pre_s post_s reason created_by note s =
     (let start = event_ts - pre_s * 1000;
          stop = event_ts + post_s * 1000;
          cls = (if reason = REASON_EVENT then CLASS_EVENT else CLASS_PROTECTED)
      in case Recording_create s cam reason cls start (Some stop) created_by note None of
           (r, s1) \<Rightarrow> (r, protect_segments cam start stop s1))"

section \<open>The pipeline\<close>

definition publish :: "ts \<Rightarrow> event \<Rightarrow> 'r ev_state \<Rightarrow> 'r ev_state" where
  "publish now e s =
     s\<lparr>es_outbox := es_outbox s @
        [\<lparr>ob_id = n_next_key s, ob_event = ev_id e, ob_camera = ev_camera e, ob_event_type = ev_type e, ob_payload = e,
          ob_status = ''pending'', ob_attempts = 0, ob_created_at = now, ob_consumed_at = None\<rparr>],
        n_next_key := n_next_key s + 1\<rparr>"

definition dedup_key :: "db_id \<Rightarrow> normalized \<Rightarrow> string" where
  "dedup_key cam n =
     str_of_int cam @ '':'' @ ne_type n @ '':'' @ str_of_opt id (ne_subtype n) @ '':'' @ str_of_opt str_of_int (ne_channel n)
     @ (case ne_dedup_extra n of None \<Rightarrow> [] | Some x \<Rightarrow> if x = [] then [] else '':'' @ x)"

text \<open>The state machine: \<open>Inl\<close> is an early return, \<open>Inr\<close> the event to judge.\<close>

definition event_of :: "ts \<Rightarrow> db_id \<Rightarrow> normalized \<Rightarrow> string \<Rightarrow> string \<Rightarrow> pyval \<Rightarrow> 'r ev_state
    \<Rightarrow> (db_id option + event) \<times> 'r ev_state" where
  "event_of now cam n source dedup raw s =
     (if ne_state n = ''start'' then
        (case get_active_by_dedup s dedup of
           Some a \<Rightarrow> (Inl (Some (ev_id a)), s)
         | None \<Rightarrow> (case Event_create cam n source dedup now EV_ACTIVE raw s of (e, s1) \<Rightarrow> (Inr e, s1)))
      else if ne_state n = ''end'' then
        (case get_active_by_dedup s dedup of
           None \<Rightarrow> (Inl None, s)
         | Some a \<Rightarrow> (Inr (close_row now a), Event_close now (ev_id a) s))
      else (case Event_create cam n source dedup now EV_PULSE raw s of (e, s1) \<Rightarrow> (Inr e, s1)))"

text \<open>Policy, cooldown, schedule and effects for one event.\<close>

definition apply_policy :: "'r ev_env \<Rightarrow> ts \<Rightarrow> db_id \<Rightarrow> normalized \<Rightarrow> string \<Rightarrow> event \<Rightarrow> event_policy \<Rightarrow> 'r ev_state \<Rightarrow> 'r ev_state" where
  "apply_policy E now cam n dedup e p s =
     (let action = combine (ep_action p) (schedule_mode E s cam (ev_start e)) (ne_type n);
          s1 = set_action (ev_id e) action s;
          s2 = (if action = ''record''
                then (let s' = snd (materialize now (ev_id e) (ep_pre_buffer_s p) (ep_post_buffer_s p) s1)
                      in s'\<lparr>es_redis := mark_trigger E dedup (ep_cooldown_s p) (es_redis s')\<rparr>)
                else s1)
      in if action \<noteq> ''discard'' \<and> (ep_notify p \<or> action = ''notify_only'')
         then (case Event_get_by_id s2 (ev_id e) of None \<Rightarrow> s2 | Some row \<Rightarrow> publish now row s2)
         else s2)"

definition judge :: "'r ev_env \<Rightarrow> ts \<Rightarrow> db_id \<Rightarrow> normalized \<Rightarrow> string \<Rightarrow> event \<Rightarrow> 'r ev_state \<Rightarrow> 'r ev_state" where
  "judge E now cam n dedup e s =
     (case resolve s cam (ne_type n) (ne_subtype n) of
        None \<Rightarrow> s
      | Some p \<Rightarrow>
          if \<not> ep_enabled p then s
          else if (case ep_min_score p of None \<Rightarrow> False | Some m \<Rightarrow> (case ne_score n of None \<Rightarrow> 0 | Some x \<Rightarrow> x) < m)
          then set_action (ev_id e) ''discard:score'' s
          else if within_cooldown E dedup (es_redis s) then set_action (ev_id e) ''discard:cooldown'' s
          else apply_policy E now cam n dedup e p s)"

definition process ::
  "'r ev_env \<Rightarrow> ts \<Rightarrow> db_id \<Rightarrow> normalized \<Rightarrow> string \<Rightarrow> pyval \<Rightarrow> 'r ev_state \<Rightarrow> db_id option \<times> 'r ev_state" where
  "process E now cam n source raw s =
     (if (case ne_vendor_event_id n of None \<Rightarrow> False | Some v \<Rightarrow> v \<noteq> [] \<and> exists_vendor s cam v) then (None, s)
      else case event_of now cam n source (dedup_key cam n) raw s of
             (Inl r, s1) \<Rightarrow> (r, s1)
           | (Inr e, s1) \<Rightarrow> (Some (ev_id e), judge E now cam n (dedup_key cam n) e s1))"

text \<open>\<open>ingest_object\<close>: an unknown camera raises in \<open>Camera.get_by_id\<close>.\<close>

definition ingest_object ::
  "'r ev_env \<Rightarrow> ts \<Rightarrow> db_id \<Rightarrow> normalized \<Rightarrow> string \<Rightarrow> pyval \<Rightarrow> ('r ev_state, db_id option) act" where
  "ingest_object E now cam n source raw s =
     (case Camera_get_by_id s cam of
        Inl e \<Rightarrow> (Inl e, s)
      | Inr c \<Rightarrow> (case process E now (cam_id c) n source raw s of (r, s1) \<Rightarrow> (Inr r, s1)))"

section \<open>Maintenance\<close>

definition MAX_ACTIVE_AGE_S :: int where "MAX_ACTIVE_AGE_S = 120"
definition EVENT_RETENTION_DAYS :: int where "EVENT_RETENTION_DAYS = 90"

definition active_event_sweeper :: "ts \<Rightarrow> 'r ev_state \<Rightarrow> nat \<times> 'r ev_state" where
  "active_event_sweeper now s =
     (let stale = get_stale_active s (now - MAX_ACTIVE_AGE_S * 1000) 1000
      in (length stale, fold (\<lambda>e. Event_close now (ev_id e)) stale s))"

definition cleanup_events :: "ts \<Rightarrow> 'r ev_state \<Rightarrow> nat \<times> 'r ev_state" where
  "cleanup_events now s =
     (let old = (\<lambda>e. ev_start e < now - EVENT_RETENTION_DAYS * 86400000 \<and> ev_deleted e = None)
      in (length (filter old (es_events s)),
          s\<lparr>es_events := map (\<lambda>e. if old e then e\<lparr>ev_deleted := Some now\<rparr> else e) (es_events s)\<rparr>))"

section \<open>Outbox\<close>

definition MAX_ATTEMPTS :: int where "MAX_ATTEMPTS = 5"

definition get_pending :: "outbox_row list \<Rightarrow> nat \<Rightarrow> outbox_row list" where
  "get_pending rows limit = take limit (sort_key ob_created_at (filter (\<lambda>r. ob_status r = ''pending'') rows))"

definition mark_consumed :: "ts \<Rightarrow> outbox_row \<Rightarrow> outbox_row" where
  "mark_consumed now r = r\<lparr>ob_status := ''consumed'', ob_consumed_at := Some now\<rparr>"

text \<open>One delivery attempt of the consumer; \<open>ok\<close> says whether the handlers returned.\<close>

definition consume_row :: "ts \<Rightarrow> bool \<Rightarrow> outbox_row \<Rightarrow> outbox_row" where
  "consume_row now ok r =
     (if ok then mark_consumed now r
      else let n = ob_attempts r + 1
           in if n \<ge> MAX_ATTEMPTS then r\<lparr>ob_attempts := n, ob_status := ''failed''\<rparr> else r\<lparr>ob_attempts := n\<rparr>)"

end
