(* ===== verification/EventProps.thy ===== *)
theory EventProps
  imports Events
begin

text \<open>
  Properties of the event path: one active event per key, which policy decides, what recording an
  event protects, that discarded events leave no trace, and where clips come out too short.
\<close>

section \<open>One active event per key\<close>

definition one_active :: "'r ev_state \<Rightarrow> bool" where
  "one_active s \<longleftrightarrow> (\<forall>k. length (filter (is_active_for k) (es_events s)) \<le> 1)"

lemma one_active_upd:
  assumes "one_active s" and "es_events s' = map (\<lambda>e. if c e then f e else e) (es_events s)"
    and "\<And>k e. is_active_for k (f e) \<Longrightarrow> is_active_for k e"
  shows "one_active s'"
  unfolding one_active_def assms(2)
proof
  fix k
  have "length (filter (is_active_for k) (map (\<lambda>e. if c e then f e else e) (es_events s)))
      \<le> length (filter (is_active_for k) (es_events s))"
    by (rule filter_upd_le) (rule assms(3))
  also have "\<dots> \<le> 1" using assms(1) by (simp add: one_active_def)
  finally show "length (filter (is_active_for k) (map (\<lambda>e. if c e then f e else e) (es_events s))) \<le> 1" .
qed

lemma one_active_cong: "es_events s' = es_events s \<Longrightarrow> one_active s' = one_active s"
  by (simp add: one_active_def)

lemma get_active_None: "get_active_by_dedup s k = None \<longleftrightarrow> filter (is_active_for k) (es_events s) = []"
proof -
  have "sort_key f xs = [] \<longleftrightarrow> xs = []" for f :: "event \<Rightarrow> int" and xs
    by (metis length_0_conv length_sort)
  then show ?thesis by (simp add: get_active_by_dedup_def)
qed

lemma get_active_SomeD:
  assumes "get_active_by_dedup s k = Some a"
  shows "a \<in> set (es_events s)" "is_active_for k a"
  using first_row_SomeD [OF assms [unfolded get_active_by_dedup_def]] by auto

lemma create_one_active:
  assumes "one_active s" and "st = EV_ACTIVE \<Longrightarrow> get_active_by_dedup s dedup = None"
    and "Event_create cam n source dedup now st raw s = (e, s')"
  shows "one_active s'"
  unfolding one_active_def
proof
  fix k
  have ev: "es_events s' = es_events s @ [e]" "ev_state e = st" "ev_dedup_key e = dedup"
    using assms(3) by (auto simp: Event_create_def Let_def)
  show "length (filter (is_active_for k) (es_events s')) \<le> 1"
  proof (cases "is_active_for k e")
    case True
    then have "st = EV_ACTIVE" "k = dedup" using ev by (auto simp: is_active_for_def)
    then show ?thesis using assms(2) True ev by (simp add: get_active_None)
  next
    case False
    then show ?thesis using assms(1) ev by (simp add: one_active_def)
  qed
qed

lemma event_of_one_active:
  assumes "one_active s" and "event_of now cam n source dedup raw s = (r, s')"
  shows "one_active s'"
proof -
  have close: "one_active (Event_close now i s)" for i
    by (rule one_active_upd [OF assms(1), where c = "\<lambda>e. ev_id e = i" and f = "close_row now"])
       (simp_all add: Event_close_def update_event_def is_active_for_def close_row_def event_consts)
  have pulse: "EV_PULSE \<noteq> EV_ACTIVE" by (simp add: event_consts)
  show ?thesis
  proof (cases "ne_state n = ''start'' \<or> ne_state n = ''end''")
    case True
    then show ?thesis
      using assms close create_one_active [OF assms(1), of EV_ACTIVE dedup cam n source now raw]
      by (auto simp: event_of_def split: if_splits option.splits prod.splits)
  next
    case False
    then obtain e where "Event_create cam n source dedup now EV_PULSE raw s = (e, s')"
      using assms(2) by (auto simp: event_of_def split: prod.splits)
    then show ?thesis by (rule create_one_active [OF assms(1), rotated]) (simp add: pulse)
  qed
qed

text \<open>The rest of the pipeline rewrites columns that do not make an event active.\<close>

lemma set_action_events: "es_events (set_action i a s) = map (\<lambda>e. if ev_id e = i then e\<lparr>ev_policy_action := Some a\<rparr> else e) (es_events s)"
  by (simp add: set_action_def update_event_def)

lemma set_action_one_active: "one_active s \<Longrightarrow> one_active (set_action i a s)"
  by (erule one_active_upd [where c = "\<lambda>e. ev_id e = i" and f = "\<lambda>e. e\<lparr>ev_policy_action := Some a\<rparr>"])
     (simp_all add: set_action_events is_active_for_def)

lemma clip_recording_frame:
  assumes "clip_recording ev start stop s = (rid, s1)"
  shows "es_events s1 = es_events s" "es_outbox s1 = es_outbox s" "es_redis s1 = es_redis s" "es_policies s1 = es_policies s"
  using assms
  by (auto simp: clip_recording_def Recording_extend_def update_recording_def Recording_create_def Let_def split: option.splits)

lemma materialize_shape:
  assumes "materialize now i pre post s = (r, s')" and "Event_get_by_id s i = Some ev"
  obtains rid s1 where "s' = update_event i (\<lambda>e. e\<lparr>ev_recording_id := Some rid\<rparr>) s1"
    "clip_recording ev (clip_start s ev pre) (clip_stop now ev post) s = (rid, s1)"
  using assms by (auto simp: materialize_def split: prod.splits)

lemma materialize_frame:
  assumes "materialize now i pre post s = (r, s')"
  shows "es_outbox s' = es_outbox s" "es_redis s' = es_redis s" "es_policies s' = es_policies s"
    and "\<exists>rid. es_events s' = map (\<lambda>e. if ev_id e = i then e\<lparr>ev_recording_id := rid e\<rparr> else e) (es_events s)"
proof -
  have "es_outbox s' = es_outbox s \<and> es_redis s' = es_redis s \<and> es_policies s' = es_policies s \<and>
    (\<exists>rid. es_events s' = map (\<lambda>e. if ev_id e = i then e\<lparr>ev_recording_id := rid e\<rparr> else e) (es_events s))"
  proof (cases "Event_get_by_id s i")
    case None
    then have "s' = s" using assms by (simp add: materialize_def)
    then show ?thesis by (auto intro!: exI [of _ ev_recording_id] simp: map_idI)
  next
    case (Some ev)
    obtain rid s1 where s1: "s' = update_event i (\<lambda>e. e\<lparr>ev_recording_id := Some rid\<rparr>) s1"
      "clip_recording ev (clip_start s ev pre) (clip_stop now ev post) s = (rid, s1)"
      by (rule materialize_shape [OF assms Some])
    note frame = clip_recording_frame [OF s1(2)]
    show ?thesis
      unfolding s1(1) by (intro conjI exI [of _ "\<lambda>_. Some rid"]) (simp_all add: update_event_def frame)
  qed
  then show "es_outbox s' = es_outbox s" "es_redis s' = es_redis s" "es_policies s' = es_policies s"
    "\<exists>rid. es_events s' = map (\<lambda>e. if ev_id e = i then e\<lparr>ev_recording_id := rid e\<rparr> else e) (es_events s)"
    by blast+
qed

lemma materialize_one_active:
  assumes "one_active s"
  shows "one_active (snd (materialize now i pre post s))"
proof -
  obtain rid where "es_events (snd (materialize now i pre post s)) =
      map (\<lambda>e. if ev_id e = i then e\<lparr>ev_recording_id := rid e\<rparr> else e) (es_events s)"
    using materialize_frame(4) [OF prod.collapse [symmetric]] by blast
  then show ?thesis by (rule one_active_upd [OF assms]) (simp add: is_active_for_def)
qed

lemma judge_one_active:
  assumes "one_active s"
  shows "one_active (judge E now cam n dedup e s)"
proof -
  have pub: "one_active (publish t r u) = one_active u" for t r and u :: "'a ev_state"
    by (rule one_active_cong) (simp add: publish_def)
  have red: "one_active (u\<lparr>es_redis := r\<rparr>) = one_active u" for u :: "'a ev_state" and r
    by (rule one_active_cong) simp
  have "one_active (apply_policy E now cam n dedup e p u)" if "one_active u" for p and u :: "'a ev_state"
  proof -
    define act where "act = combine (ep_action p) (schedule_mode E u cam (ev_start e)) (ne_type n)"
    define u1 where "u1 = set_action (ev_id e) act u"
    define m where "m = snd (materialize now (ev_id e) (ep_pre_buffer_s p) (ep_post_buffer_s p) u1)"
    define u2 where "u2 = (if act = ''record'' then m\<lparr>es_redis := mark_trigger E dedup (ep_cooldown_s p) (es_redis m)\<rparr> else u1)"
    have "one_active u1" unfolding u1_def by (rule set_action_one_active [OF that])
    moreover from this have "one_active m" unfolding m_def by (rule materialize_one_active)
    ultimately have "one_active u2" by (simp add: u2_def red)
    moreover have "apply_policy E now cam n dedup e p u =
        (if act \<noteq> ''discard'' \<and> (ep_notify p \<or> act = ''notify_only'')
         then (case Event_get_by_id u2 (ev_id e) of None \<Rightarrow> u2 | Some row \<Rightarrow> publish now row u2) else u2)"
      unfolding apply_policy_def Let_def act_def [symmetric] u1_def [symmetric] m_def [symmetric] u2_def [symmetric] ..
    ultimately show ?thesis by (simp add: pub split: option.splits)
  qed
  then show ?thesis
    using assms set_action_one_active [OF assms] by (simp add: judge_def split: option.splits)
qed

text \<open>The steps that change the events table.\<close>

inductive event_step :: "'r ev_env \<Rightarrow> 'r ev_state \<Rightarrow> 'r ev_state \<Rightarrow> bool" for E where
  es_process: "event_step E s (snd (process E now cam n source raw s))"
| es_sweep: "event_step E s (snd (active_event_sweeper now s))"
| es_cleanup: "event_step E s (snd (cleanup_events now s))"
| es_delete: "event_step E s (Event_soft_delete now i s)"

lemma event_step_one_active:
  assumes "event_step E s s'" and "one_active s"
  shows "one_active s'"
  using assms(1)
proof cases
  case (es_process now cam n source raw)
  show ?thesis
  proof (cases "event_of now cam n source (dedup_key cam n) raw s")
    case (Pair r s1)
    note one = event_of_one_active [OF assms(2) Pair]
    show ?thesis using es_process Pair assms(2) one judge_one_active [OF one]
      by (cases r) (auto simp: process_def split: if_splits)
  qed
next
  case (es_sweep now)
  have "one_active (fold (\<lambda>e. Event_close now (ev_id e)) es t)" if "one_active t" for es and t :: "'a ev_state"
    using that
  proof (induction es arbitrary: t)
    case (Cons e es)
    have "one_active (Event_close now (ev_id e) t)"
      by (rule one_active_upd [OF Cons.prems, where c = "\<lambda>x. ev_id x = ev_id e" and f = "close_row now"])
         (simp_all add: Event_close_def update_event_def is_active_for_def close_row_def event_consts)
    then show ?case using Cons.IH by simp
  qed simp
  then show ?thesis using es_sweep assms(2) by (simp add: active_event_sweeper_def Let_def)
next
  case (es_cleanup now)
  have "one_active (snd (cleanup_events now s))"
    by (rule one_active_upd [OF assms(2), where f = "\<lambda>e. e\<lparr>ev_deleted := Some now\<rparr>"
          and c = "\<lambda>e. ev_start e < now - EVENT_RETENTION_DAYS * 86400000 \<and> ev_deleted e = None"])
       (simp_all add: cleanup_events_def Let_def is_active_for_def)
  then show ?thesis using es_cleanup by simp
next
  case (es_delete now i)
  have "one_active (Event_soft_delete now i s)"
    by (rule one_active_upd [OF assms(2), where f = "\<lambda>e. e\<lparr>ev_deleted := Some now\<rparr>" and c = "\<lambda>e. ev_id e = i"])
       (simp_all add: Event_soft_delete_def update_event_def is_active_for_def)
  then show ?thesis using es_delete by simp
qed

text \<open>C17: at most one active event per dedup key. Starting from an empty events table, after any sequence of
  processed events (starts, ends, pulses, in any order and with duplicates), sweeps, cleanups and
  deletions, no two live events with the same key are active; so an end always closes the only
  candidate, and a repeated start is absorbed by it.\<close>

theorem at_most_one_active_event:
  assumes "es_events s = []" and "(event_step E)\<^sup>*\<^sup>* s s'"
  shows "length (filter (is_active_for k) (es_events s')) \<le> 1"
proof -
  have "one_active s'"
    using assms(2)
  proof (induction rule: rtranclp_induct)
    case base
    then show ?case using assms(1) by (simp add: one_active_def)
  next
    case (step t u)
    then show ?case by (blast intro: event_step_one_active)
  qed
  then show ?thesis by (simp add: one_active_def)
qed

section \<open>Which policy decides\<close>

definition applicable :: "'r ev_state \<Rightarrow> db_id \<Rightarrow> string \<Rightarrow> string option \<Rightarrow> event_policy set" where
  "applicable s cam typ sub = {p \<in> set (get_candidates s cam typ). \<not> other_subtype sub p}"

text \<open>How specific a policy is, most significant first: camera, type, subtype.\<close>

definition specificity :: "db_id \<Rightarrow> string \<Rightarrow> event_policy \<Rightarrow> bool \<times> bool \<times> bool" where
  "specificity cam typ p = (ep_camera p = Some cam, ep_event_type p = typ, given (ep_subtype p))"

definition at_most :: "bool \<times> bool \<times> bool \<Rightarrow> bool \<times> bool \<times> bool \<Rightarrow> bool" where
  "at_most a b = (case (a, b) of ((a1, a2, a3), (b1, b2, b3)) \<Rightarrow>
     (\<not> a1 \<and> b1) \<or> (a1 = b1 \<and> ((\<not> a2 \<and> b2) \<or> (a2 = b2 \<and> (a3 \<longrightarrow> b3)))))"

lemma rank_specificity:
  assumes "p \<in> applicable s cam typ sub" and "q \<in> applicable s cam typ sub"
    and "rank cam typ sub q \<le> rank cam typ sub p"
  shows "at_most (specificity cam typ q) (specificity cam typ p)"
proof -
  have rank: "rank cam typ sub x = (if ep_camera x = Some cam then 1000 else 0)
      + (if ep_event_type x = typ then 100 else 10) + (if given (ep_subtype x) then 5 else 0)"
    if "x \<in> applicable s cam typ sub" for x
  proof -
    have "ep_event_type x = typ \<or> ep_event_type x = ''*''" "\<not> other_subtype sub x"
      using that by (auto simp: applicable_def get_candidates_def)
    then show ?thesis
      by (auto simp: rank_def other_subtype_def given_def split: option.splits if_splits)
  qed
  show ?thesis
    using assms(3) unfolding rank [OF assms(1)] rank [OF assms(2)] at_most_def specificity_def
    by (auto split: if_splits)
qed

text \<open>\<open>resolve\<close> picks a policy exactly when one applies (live, enabled, for this camera or global, for
  this type or \<open>*\<close>, not for another subtype), and the one it picks is most specific in the documented
  order: a policy of the camera beats every global one, then an exact type beats \<open>*\<close>, then a matching
  subtype beats none.\<close>

theorem resolve_most_specific:
  "case resolve s cam typ sub of
     None \<Rightarrow> applicable s cam typ sub = {}
   | Some p \<Rightarrow> p \<in> applicable s cam typ sub
       \<and> (\<forall>q. q \<in> applicable s cam typ sub \<longrightarrow> at_most (specificity cam typ q) (specificity cam typ p))"
proof (cases "resolve s cam typ sub")
  case None
  have "0 \<le> rank cam typ sub q" for q by (simp add: rank_def)
  then have "q \<notin> set (filter (\<lambda>p. \<not> other_subtype sub p) (get_candidates s cam typ))" for q
    using best_above_NoneD [OF None [unfolded resolve_def], of q] by (smt (verit))
  then have "filter (\<lambda>p. \<not> other_subtype sub p) (get_candidates s cam typ) = []"
    by (metis list.set_intros(1) neq_Nil_conv)
  then show ?thesis using None by (auto simp: applicable_def filter_empty_conv)
next
  case (Some p)
  note best = best_above_SomeD [OF Some [unfolded resolve_def]]
  have "p \<in> applicable s cam typ sub" using best(1) by (simp add: applicable_def)
  moreover have "at_most (specificity cam typ q) (specificity cam typ p)" if "q \<in> applicable s cam typ sub" for q
    by (rule rank_specificity [OF \<open>p \<in> applicable s cam typ sub\<close> that]) (use best(3) that in \<open>simp add: applicable_def\<close>)
  ultimately show ?thesis using Some by simp
qed

section \<open>Recording an event protects its footage\<close>

definition event_clips_protected :: "'z nvr_scheme \<Rightarrow> bool" where
  "event_clips_protected s \<longleftrightarrow>
     (\<forall>r \<in> set (n_recordings s). rec_reason r = REASON_EVENT \<longrightarrow> rec_class r \<in> set PROTECTED_CLASSES)"

text \<open>A protected interval of the camera that covers the window.\<close>

definition window_protected :: "'z nvr_scheme \<Rightarrow> db_id \<Rightarrow> ts \<Rightarrow> ts \<Rightarrow> bool" where
  "window_protected s cam start stop \<longleftrightarrow>
     (\<exists>r \<in> set (n_recordings s). rec_camera r = cam \<and> rec_class r \<in> set PROTECTED_CLASSES \<and> rec_deleted r = None
        \<and> rec_start r \<le> start \<and> (\<exists>e. rec_end r = Some e \<and> stop \<le> e))"

lemma window_protected_seg:
  assumes "window_protected s (seg_camera g) start stop" and "seg_start g < stop" and "start < seg_end g"
  shows "in_protected_recording t s g"
proof -
  obtain r e where "r \<in> set (n_recordings s)" "rec_camera r = seg_camera g" "rec_class r \<in> set PROTECTED_CLASSES"
    "rec_deleted r = None" "rec_start r \<le> start" "rec_end r = Some e" "stop \<le> e"
    using assms(1) by (auto simp: window_protected_def)
  with assms(2,3) show ?thesis
    unfolding in_protected_recording_def by (intro bexI [of _ r]) simp_all
qed

lemma extend_row_covers:
  shows "rec_start (extend_row start stop r) \<le> start"
    and "\<exists>e. rec_end (extend_row start stop r) = Some e \<and> stop \<le> e"
    and "rec_camera (extend_row start stop r) = rec_camera r" "rec_class (extend_row start stop r) = rec_class r"
      "rec_deleted (extend_row start stop r) = rec_deleted r"
  by (auto simp: extend_row_def Let_def split: option.splits)

lemma clip_recording_protects:
  assumes "event_clips_protected s" and "clip_recording ev start stop s = (rid, s1)"
  shows "window_protected s1 (ev_camera ev) start stop"
proof (cases "Recording_find_overlapping s (ev_camera ev) start stop REASON_EVENT")
  case None
  let ?r = "fst (Recording_create s (ev_camera ev) REASON_EVENT CLASS_EVENT start (Some stop) None (Some (''event:'' @ ev_type ev)) None)"
  have "?r \<in> set (n_recordings s1)" "rec_camera ?r = ev_camera ev" "rec_class ?r = CLASS_EVENT" "rec_deleted ?r = None"
    "rec_start ?r = start" "rec_end ?r = Some stop"
    using assms(2) None by (auto simp: clip_recording_def Recording_create_def Let_def)
  moreover have "CLASS_EVENT \<in> set PROTECTED_CLASSES" by (simp add: storage_consts)
  ultimately show ?thesis unfolding window_protected_def by (intro bexI [of _ ?r]) auto
next
  case (Some r)
  have "r \<in> {r \<in> set (n_recordings s). rec_camera r = ev_camera ev \<and> rec_reason r = REASON_EVENT \<and> rec_deleted r = None}"
    using first_row_SomeD [OF Some [unfolded Recording_find_overlapping_def]] by auto
  then have r: "r \<in> set (n_recordings s)" "rec_camera r = ev_camera ev" "rec_reason r = REASON_EVENT" "rec_deleted r = None"
    by auto
  have "n_recordings s1 = map (\<lambda>x. if rec_id x = rec_id r then extend_row start stop x else x) (n_recordings s)"
    using assms(2) Some by (auto simp: clip_recording_def Recording_extend_def update_recording_def)
  then have "extend_row start stop r \<in> set (n_recordings s1)" using r(1) by (auto intro: rev_image_eqI)
  moreover have "rec_class r \<in> set PROTECTED_CLASSES" using assms(1) r by (simp add: event_clips_protected_def)
  ultimately show ?thesis
    unfolding window_protected_def
    by (intro bexI [of _ "extend_row start stop r"]) (simp_all add: extend_row_covers r)
qed

lemma update_event_frame [simp]:
  "n_recordings (update_event i f s) = n_recordings s" "n_recordings (set_action i a s) = n_recordings s"
  "n_recordings (publish t r s) = n_recordings s" "n_policies (set_action i a s) = n_policies s"
  by (simp_all add: update_event_def set_action_def publish_def)

lemma set_action_get:
  "Event_get_by_id (set_action i a s) i = map_option (\<lambda>e. e\<lparr>ev_policy_action := Some a\<rparr>) (Event_get_by_id s i)"
proof -
  have "first_row (filter (\<lambda>e. ev_id e = i \<and> ev_deleted e = None) (map (\<lambda>e. if ev_id e = i then e\<lparr>ev_policy_action := Some a\<rparr> else e) es))
      = map_option (\<lambda>e. e\<lparr>ev_policy_action := Some a\<rparr>) (first_row (filter (\<lambda>e. ev_id e = i \<and> ev_deleted e = None) es))" for es
    by (induction es) simp_all
  then show ?thesis by (simp add: Event_get_by_id_def set_action_events)
qed

text \<open>The clip that a recorded event leaves covers its whole window.\<close>

lemma recorded_event_window:
  assumes "event_clips_protected s" and "Event_get_by_id s (ev_id e) = Some e"
    and "resolve s cam (ne_type n) (ne_subtype n) = Some p" and "ep_enabled p"
    and "case ep_min_score p of None \<Rightarrow> True | Some m \<Rightarrow> m \<le> (case ne_score n of None \<Rightarrow> 0 | Some x \<Rightarrow> x)"
    and "\<not> within_cooldown E dedup (es_redis s)"
    and "combine (ep_action p) (schedule_mode E s cam (ev_start e)) (ne_type n) = ''record''"
  shows "window_protected (judge E now cam n dedup e s) (ev_camera e) (clip_start s e (ep_pre_buffer_s p)) (clip_stop now e (ep_post_buffer_s p))"
proof -
  let ?e = "e\<lparr>ev_policy_action := Some ''record''\<rparr>"
  let ?s1 = "set_action (ev_id e) ''record'' s"
  let ?m = "materialize now (ev_id e) (ep_pre_buffer_s p) (ep_post_buffer_s p) ?s1"
  have get: "Event_get_by_id ?s1 (ev_id e) = Some ?e" using assms(2) by (simp add: set_action_get)
  have "StoragePolicy_get_for_camera ?s1 c = StoragePolicy_get_for_camera s c" for c
    by (simp add: StoragePolicy_get_for_camera_def StoragePolicy_get_raw_for_camera_def StoragePolicy_get_global_def
        split: option.splits)
  then have win: "clip_start ?s1 ?e pre = clip_start s e pre" "clip_stop now ?e post = clip_stop now e post" for pre post
    by (simp_all add: clip_start_def clip_stop_def)
  obtain rid s1 where s1: "snd ?m = update_event (ev_id e) (\<lambda>x. x\<lparr>ev_recording_id := Some rid\<rparr>) s1"
    "clip_recording ?e (clip_start ?s1 ?e (ep_pre_buffer_s p)) (clip_stop now ?e (ep_post_buffer_s p)) ?s1 = (rid, s1)"
    by (rule materialize_shape [OF prod.collapse [symmetric] get])
  have "event_clips_protected ?s1" using assms(1) by (simp add: event_clips_protected_def)
  from clip_recording_protects [OF this s1(2)]
  have "window_protected (snd ?m) (ev_camera e) (clip_start s e (ep_pre_buffer_s p)) (clip_stop now e (ep_post_buffer_s p))"
    unfolding s1(1) window_protected_def win by simp
  moreover have "n_recordings (judge E now cam n dedup e s) = n_recordings (snd ?m)"
    using assms(3-7) by (simp add: judge_def apply_policy_def Let_def split: option.splits)
  ultimately show ?thesis by (simp add: window_protected_def)
qed


section \<open>Discarded events leave no trace\<close>

text \<open>What judging does to the row, the outbox, the recordings and the cooldown.\<close>

lemma materialize_action:
  "map_option ev_policy_action (Event_get_by_id (snd (materialize now i pre post s)) j) = map_option ev_policy_action (Event_get_by_id s j)"
proof -
  obtain rid where "es_events (snd (materialize now i pre post s)) =
      map (\<lambda>e. if ev_id e = i then e\<lparr>ev_recording_id := rid e\<rparr> else e) (es_events s)"
    using materialize_frame(4) [OF prod.collapse [symmetric]] by blast
  moreover have "map_option ev_policy_action (first_row (filter (\<lambda>e. ev_id e = j \<and> ev_deleted e = None)
      (map (\<lambda>e. if ev_id e = i then e\<lparr>ev_recording_id := rid e\<rparr> else e) es)))
    = map_option ev_policy_action (first_row (filter (\<lambda>e. ev_id e = j \<and> ev_deleted e = None) es))" for es
    by (induction es) simp_all
  ultimately show ?thesis by (simp add: Event_get_by_id_def)
qed

definition is_discard :: "string option \<Rightarrow> bool" where
  "is_discard a \<longleftrightarrow> a \<in> {Some ''discard'', Some ''discard:score'', Some ''discard:cooldown''}"

lemma apply_policy_discard:
  assumes "Event_get_by_id (apply_policy E now cam n dedup e p s) (ev_id e) = Some row" and "is_discard (ev_policy_action row)"
  shows "es_outbox (apply_policy E now cam n dedup e p s) = es_outbox s
       \<and> n_recordings (apply_policy E now cam n dedup e p s) = n_recordings s
       \<and> es_redis (apply_policy E now cam n dedup e p s) = es_redis s"
proof -
  define act where "act = combine (ep_action p) (schedule_mode E s cam (ev_start e)) (ne_type n)"
  define s1 where "s1 = set_action (ev_id e) act s"
  define m where "m = snd (materialize now (ev_id e) (ep_pre_buffer_s p) (ep_post_buffer_s p) s1)"
  define s2 where "s2 = (if act = ''record'' then m\<lparr>es_redis := mark_trigger E dedup (ep_cooldown_s p) (es_redis m)\<rparr> else s1)"
  have eq: "apply_policy E now cam n dedup e p s =
      (if act \<noteq> ''discard'' \<and> (ep_notify p \<or> act = ''notify_only'')
       then (case Event_get_by_id s2 (ev_id e) of None \<Rightarrow> s2 | Some row \<Rightarrow> publish now row s2) else s2)"
    unfolding apply_policy_def Let_def act_def [symmetric] s1_def [symmetric] m_def [symmetric] s2_def [symmetric] ..
  have pub: "Event_get_by_id (publish t r u) i = Event_get_by_id u i" for t r i and u :: "'a ev_state"
    by (simp add: publish_def Event_get_by_id_def)
  have s2': "map_option ev_policy_action (Event_get_by_id s2 (ev_id e)) = map_option ev_policy_action (Event_get_by_id s1 (ev_id e))"
    using materialize_action [of now "ev_id e" "ep_pre_buffer_s p" "ep_post_buffer_s p" s1 "ev_id e"]
    by (simp add: s2_def m_def Event_get_by_id_def)
  have "Event_get_by_id s2 (ev_id e) = Some row"
    using assms(1) unfolding eq by (auto simp: pub split: if_splits option.splits)
  then have "map_option ev_policy_action (Event_get_by_id s1 (ev_id e)) = Some (ev_policy_action row)"
    using s2' by simp
  then have row: "ev_policy_action row = Some act"
    by (auto simp: s1_def set_action_get)
  have "act \<in> {''discard'', ''notify_only'', ''timelapse'', ''record''}"
    by (simp add: act_def combine_def)
  with assms(2) row have "act = ''discard''" by (auto simp: is_discard_def)
  then show ?thesis unfolding eq by (simp add: s2_def s1_def set_action_def update_event_def)
qed

text \<open>An event whose decision is a discard (by policy or schedule, by score, or by cooldown) causes
  nothing outside its own row: no outbox row (so no rule, notification or webhook sees it), no
  recording created or extended, no cooldown armed.\<close>

theorem discarded_event_is_silent:
  assumes "judge E now cam n dedup e s = s'" and "Event_get_by_id s' (ev_id e) = Some row" and "is_discard (ev_policy_action row)"
  shows "es_outbox s' = es_outbox s \<and> n_recordings s' = n_recordings s \<and> es_redis s' = es_redis s"
proof (cases "\<exists>p. resolve s cam (ne_type n) (ne_subtype n) = Some p \<and> ep_enabled p
    \<and> \<not> (case ep_min_score p of None \<Rightarrow> False | Some m \<Rightarrow> (case ne_score n of None \<Rightarrow> 0 | Some x \<Rightarrow> x) < m)
    \<and> \<not> within_cooldown E dedup (es_redis s)")
  case True
  then obtain p where "s' = apply_policy E now cam n dedup e p s"
    using assms(1) by (auto simp: judge_def)
  then show ?thesis using apply_policy_discard assms(2,3) by blast
next
  case False
  then have "s' = s \<or> (\<exists>a. s' = set_action (ev_id e) a s)"
    using assms(1) by (auto simp: judge_def split: option.splits if_splits)
  then show ?thesis by (auto simp: set_action_def update_event_def)
qed

section \<open>Clips that come out short\<close>

lemma length_le_1_eq: "length xs \<le> 1 \<Longrightarrow> x \<in> set xs \<Longrightarrow> y \<in> set xs \<Longrightarrow> x = y"
  by (cases xs) auto

lemma close_loop:
  "es_events (fold (\<lambda>e. Event_close now (ev_id e)) es s) =
     map (\<lambda>x. if ev_id x \<in> ev_id ` set es then close_row now x else x) (es_events s)"
  "n_recordings (fold (\<lambda>e. Event_close now (ev_id e)) es s) = n_recordings s"
proof -
  have idem: "close_row now (close_row now x) = close_row now x" "ev_id (close_row now x) = ev_id x" for x
    by (simp_all add: close_row_def)
  show "es_events (fold (\<lambda>e. Event_close now (ev_id e)) es s) =
     map (\<lambda>x. if ev_id x \<in> ev_id ` set es then close_row now x else x) (es_events s)"
  proof (induction es arbitrary: s)
    case (Cons e es)
    show ?case
      unfolding fold_simps comp_def Cons.IH
      by (simp add: Event_close_def update_event_def comp_def idem)
  qed simp
  show "n_recordings (fold (\<lambda>e. Event_close now (ev_id e)) es s) = n_recordings s"
    by (induction es arbitrary: s) (simp_all add: Event_close_def)
qed

lemma sweep_closes:
  assumes "a \<in> set (es_events s)" "is_active_for k a" and "ev_start a < now - MAX_ACTIVE_AGE_S * 1000"
    and "one_active s" and "length (filter (\<lambda>e. ev_state e = EV_ACTIVE) (es_events s)) \<le> 1000"
  shows "get_active_by_dedup (snd (active_event_sweeper now s)) k = None"
    and "n_recordings (snd (active_event_sweeper now s)) = n_recordings s"
proof -
  define stale where "stale = get_stale_active s (now - MAX_ACTIVE_AGE_S * 1000) 1000"
  let ?old = "\<lambda>e. ev_state e = EV_ACTIVE \<and> ev_start e < now - MAX_ACTIVE_AGE_S * 1000 \<and> ev_deleted e = None"
  have "length (filter ?old es) \<le> length (filter (\<lambda>e. ev_state e = EV_ACTIVE) es)" for es
    by (induction es) simp_all
  from order_trans [OF this assms(5)] have "stale = filter ?old (es_events s)"
    by (simp add: stale_def get_stale_active_def)
  then have stale: "a \<in> set stale" using assms(1-3) by (simp add: is_active_for_def)
  have sweep: "snd (active_event_sweeper now s) = fold (\<lambda>e. Event_close now (ev_id e)) stale s"
    by (simp add: active_event_sweeper_def stale_def Let_def)
  show "n_recordings (snd (active_event_sweeper now s)) = n_recordings s" by (simp add: sweep close_loop)
  have only: "x = a" if "x \<in> set (es_events s)" "is_active_for k x" for x
  proof -
    have "length (filter (is_active_for k) (es_events s)) \<le> 1" using assms(4) by (simp add: one_active_def)
    moreover have "x \<in> set (filter (is_active_for k) (es_events s))" "a \<in> set (filter (is_active_for k) (es_events s))"
      using that assms(1,2) by simp_all
    ultimately show ?thesis by (rule length_le_1_eq)
  qed
  have "\<not> is_active_for k (if ev_id x \<in> ev_id ` set stale then close_row now x else x)" if "x \<in> set (es_events s)" for x
  proof (cases "is_active_for k x")
    case True
    then have "x = a" using only that by blast
    then have "ev_id x \<in> ev_id ` set stale" using stale by blast
    then show ?thesis by (simp add: is_active_for_def close_row_def event_consts)
  next
    case False
    then show ?thesis by (simp add: is_active_for_def close_row_def event_consts)
  qed
  then show "get_active_by_dedup (snd (active_event_sweeper now s)) k = None"
    unfolding get_active_None sweep close_loop filter_empty_conv set_map ball_simps by blast
qed

text \<open>A clip does not follow its event to the end in two cases. An event still active after 120 seconds
  is closed by the sweeper without extending its clip, and when the camera's end message arrives later
  it is ignored: the recordings are the same as before the sweep. And an end that arrives while the
  cooldown armed by the event's own recording is running changes no recording either, and overwrites
  the event's \<open>record\<close> action with \<open>discard:cooldown\<close>. In both cases the footage after the start plus the
  post-buffer is not protected.\<close>

theorem end_does_not_extend_clip:
  assumes "ne_state n = ''end''" and "ne_vendor_event_id n = None" and "one_active s"
    and "get_active_by_dedup s (dedup_key cam n) = Some a"
  shows "(ev_start a < now - MAX_ACTIVE_AGE_S * 1000
            \<longrightarrow> length (filter (\<lambda>e. ev_state e = EV_ACTIVE) (es_events s)) \<le> 1000
            \<longrightarrow> (let s1 = snd (active_event_sweeper now s) in
                   process E later cam n source raw s1 = (None, s1) \<and> n_recordings s1 = n_recordings s))
       \<and> (within_cooldown E (dedup_key cam n) (es_redis s)
            \<longrightarrow> resolve s cam (ne_type n) (ne_subtype n) = Some p \<longrightarrow> ep_enabled p \<longrightarrow> ep_min_score p = None
            \<longrightarrow> (let s1 = snd (process E now cam n source raw s) in
                   n_recordings s1 = n_recordings s
                   \<and> map_option ev_policy_action (Event_get_by_id s1 (ev_id a)) \<in> {None, Some (Some ''discard:cooldown'')}))"
proof (intro conjI impI)
  note a = get_active_SomeD [OF assms(4)]
  assume "ev_start a < now - MAX_ACTIVE_AGE_S * 1000" "length (filter (\<lambda>e. ev_state e = EV_ACTIVE) (es_events s)) \<le> 1000"
  note swept = sweep_closes [OF a this(1) assms(3) this(2)]
  show "let s1 = snd (active_event_sweeper now s) in process E later cam n source raw s1 = (None, s1) \<and> n_recordings s1 = n_recordings s"
    unfolding Let_def using swept assms(1,2) by (simp add: process_def event_of_def)
next
  let ?s = "Event_close now (ev_id a) s"
  assume cd: "within_cooldown E (dedup_key cam n) (es_redis s)" and p: "resolve s cam (ne_type n) (ne_subtype n) = Some p"
    "ep_enabled p" "ep_min_score p = None"
  have red: "es_redis ?s = es_redis s" and rec: "n_recordings ?s = n_recordings s"
    and res: "resolve ?s cam (ne_type n) (ne_subtype n) = resolve s cam (ne_type n) (ne_subtype n)"
    by (simp_all add: Event_close_def update_event_def resolve_def get_candidates_def)
  have proc: "snd (process E now cam n source raw s) = set_action (ev_id a) ''discard:cooldown'' ?s"
    using assms(1,2,4) cd p by (simp add: process_def event_of_def judge_def red res close_row_def)
  show "let s1 = snd (process E now cam n source raw s) in n_recordings s1 = n_recordings s
      \<and> map_option ev_policy_action (Event_get_by_id s1 (ev_id a)) \<in> {None, Some (Some ''discard:cooldown'')}"
    unfolding Let_def proc by (cases "Event_get_by_id ?s (ev_id a)") (simp_all add: rec set_action_get)
qed

section \<open>A concrete site\<close>

definition sample_ev_env :: "mem ev_env" where
  "sample_ev_env = \<lparr>ee_redis = mem_redis, ee_prefix = ''axp'', ee_local = (\<lambda>_. (0, 600))\<rparr>"

definition sample_event_policy :: "string \<Rightarrow> event_policy" where
  "sample_event_policy action = \<lparr>ep_id = 1, ep_camera = None, ep_event_type = ''*'', ep_subtype = None, ep_action = action,
     ep_pre_buffer_s = 5, ep_post_buffer_s = 10, ep_cooldown_s = 10, ep_min_score = None, ep_retention_class = None,
     ep_notify = True, ep_enabled = True, ep_deleted = None\<rparr>"

definition sample_site :: "string \<Rightarrow> mem ev_state" where
  "sample_site action =
     \<lparr>n_segments = [], n_recordings = [], n_disks = [], n_policies = [], n_cameras = [], n_files = [], n_locked = [],
      n_next_key = 100, n_signals = [], n_audit = [],
      es_events = [], es_policies = [sample_event_policy action], es_outbox = [], es_schedules = [], es_redis = []\<rparr>"

definition sample_motion :: "string \<Rightarrow> normalized" where
  "sample_motion st = \<lparr>ne_type = ''motion'', ne_state = st, ne_subtype = None, ne_score = None, ne_channel = None,
     ne_region = PNone, ne_vendor_event_id = None, ne_dedup_extra = None\<rparr>"

text \<open>After a recorded motion start of camera 7 at time 1000000.\<close>

definition sample_started :: "mem ev_state" where
  "sample_started = snd (process sample_ev_env 1000000 7 (sample_motion ''start'') ''isapi'' PNone (sample_site ''record''))"

theorem at_most_one_active_event_witness:
  "length (filter (is_active_for (dedup_key 7 (sample_motion ''start''))) (es_events
      (snd (process sample_ev_env 1000500 7 (sample_motion ''start'') ''isapi'' PNone sample_started)))) \<le> 1"
proof -
  let ?s = "snd (process sample_ev_env 1000500 7 (sample_motion ''start'') ''isapi'' PNone sample_started)"
  have empty: "es_events (sample_site ''record'') = []" by (simp add: sample_site_def)
  have "event_step sample_ev_env (sample_site ''record'') sample_started" unfolding sample_started_def by (rule es_process)
  moreover have "event_step sample_ev_env sample_started ?s" by (rule es_process)
  ultimately have "(event_step sample_ev_env)\<^sup>*\<^sup>* (sample_site ''record'') ?s" by (meson r_into_rtranclp rtranclp.rtrancl_into_rtrancl)
  from at_most_one_active_event [OF empty this] show ?thesis .
qed

definition sample_active :: event where
  "sample_active = hd (es_events sample_started)"

theorem end_does_not_extend_clip_witness:
  "(let s1 = snd (active_event_sweeper 1200000 sample_started) in
      process sample_ev_env 1300000 7 (sample_motion ''end'') ''isapi'' PNone s1 = (None, s1) \<and> n_recordings s1 = n_recordings sample_started)
   \<and> n_recordings (snd (process sample_ev_env 1005000 7 (sample_motion ''end'') ''isapi'' PNone sample_started)) = n_recordings sample_started"
proof -
  have n: "ne_state (sample_motion ''end'') = ''end''" "ne_vendor_event_id (sample_motion ''end'') = None"
    by (simp_all add: sample_motion_def)
  have "event_step sample_ev_env (sample_site ''record'') sample_started" unfolding sample_started_def by (rule es_process)
  moreover have "one_active (sample_site ''record'')" by (simp add: one_active_def sample_site_def)
  ultimately have one: "one_active sample_started" by (rule event_step_one_active)
  have a: "get_active_by_dedup sample_started (dedup_key 7 (sample_motion ''end'')) = Some sample_active" by code_simp
  have old: "ev_start sample_active < 1200000 - MAX_ACTIVE_AGE_S * 1000"
    "length (filter (\<lambda>e. ev_state e = EV_ACTIVE) (es_events sample_started)) \<le> 1000" by code_simp+
  have cd: "within_cooldown sample_ev_env (dedup_key 7 (sample_motion ''end'')) (es_redis sample_started)" by code_simp
  have pol: "resolve sample_started 7 (ne_type (sample_motion ''end'')) (ne_subtype (sample_motion ''end'')) = Some (sample_event_policy ''record'')"
    by code_simp
  have flags: "ep_enabled (sample_event_policy ''record'')" "ep_min_score (sample_event_policy ''record'') = None"
    by (simp_all add: sample_event_policy_def)
  note both = end_does_not_extend_clip [OF n one a]
  from both [THEN conjunct1, rule_format, OF old] both [THEN conjunct2, rule_format, OF cd pol flags]
  show ?thesis unfolding Let_def by blast
qed

definition sample_footage :: segment where
  "sample_footage = \<lparr>seg_id = 1, seg_camera = 7, seg_disk = 1, seg_rel_path = ''a.mp4'', seg_start = 996000, seg_end = 999000,
     seg_duration_ms = 3000, seg_size = 1, seg_container = ''mp4'', seg_video_codec = None, seg_has_audio = False,
     seg_width = None, seg_height = None, seg_first_keyframe_ms = 0, seg_reason = SEG_REASON_CONTINUOUS, seg_tier = TIER_RECORD,
     seg_role = ''main'', seg_corrupt = False\<rparr>"

text \<open>The motion event at time 1000000 as a fresh row, before the policy is applied.\<close>

definition sample_fresh :: "string \<Rightarrow> event \<times> mem ev_state" where
  "sample_fresh action = Event_create 7 (sample_motion ''pulse'') ''isapi'' ''k'' 1000000 EV_PULSE PNone (sample_site action)"

theorem resolve_most_specific_witness:
  "resolve (sample_site ''record'') 7 ''motion'' None = Some (sample_event_policy ''record'')
   \<and> sample_event_policy ''record'' \<in> applicable (sample_site ''record'') 7 ''motion'' None"
proof -
  have "resolve (sample_site ''record'') 7 ''motion'' None = Some (sample_event_policy ''record'')" by code_simp
  then show ?thesis using resolve_most_specific [of "sample_site ''record''" 7 "''motion''" None] by simp
qed


theorem discarded_event_is_silent_witness:
  "es_outbox (judge sample_ev_env 1000000 7 (sample_motion ''pulse'') ''k'' (fst (sample_fresh ''discard'')) (snd (sample_fresh ''discard'')))
     = es_outbox (snd (sample_fresh ''discard''))"
proof -
  let ?e = "fst (sample_fresh ''discard'')"
  let ?s = "judge sample_ev_env 1000000 7 (sample_motion ''pulse'') ''k'' ?e (snd (sample_fresh ''discard''))"
  have "Event_get_by_id ?s (ev_id ?e) = Some (?e\<lparr>ev_policy_action := Some ''discard''\<rparr>)" by code_simp
  from discarded_event_is_silent [OF refl this] show ?thesis by (simp add: is_discard_def)
qed

end
