(* ===== verification/Playback.thy ===== *)
theory Playback
  imports Storage
begin

text \<open>
  Playback planning, \<open>server/service/playback_planner.py\<close>: the scrub-bar timeline (recorded ranges and
  gaps) and the HLS playlist of a camera's window. Times are epoch milliseconds, the resolution of the
  columns; the comparisons of seconds in the source are the same comparisons of milliseconds. The
  ISO rendering of a time (\<open>strftime\<close>) and the \<open>%.3f\<close> rendering of a duration are parameters.
\<close>

section \<open>Timeline\<close>

type_synonym span = "ts \<times> ts"

definition GAP_MERGE_FACTOR :: int where "GAP_MERGE_FACTOR = 2"

text \<open>\<open>duration_ms or 10000\<close>.\<close>

definition duration_of :: "segment \<Rightarrow> int" where
  "duration_of g = (if seg_duration_ms g = 0 then 10000 else seg_duration_ms g)"

definition gap_limit :: "segment \<Rightarrow> int" where
  "gap_limit g = GAP_MERGE_FACTOR * max 1000 (duration_of g)"

text \<open>The loop over the segments with its current range.\<close>

fun merge_ranges :: "segment list \<Rightarrow> span option \<Rightarrow> span list" where
  "merge_ranges [] cur = (case cur of None \<Rightarrow> [] | Some r \<Rightarrow> [r])"
| "merge_ranges (g # gs) cur =
     (case cur of
        None \<Rightarrow> merge_ranges gs (Some (seg_start g, seg_end g))
      | Some (a, b) \<Rightarrow>
          if seg_start g - b \<le> gap_limit g then merge_ranges gs (Some (a, max b (seg_end g)))
          else (a, b) # merge_ranges gs (Some (seg_start g, seg_end g)))"

text \<open>The loop over the ranges with its cursor.\<close>

fun find_gaps :: "span list \<Rightarrow> ts \<Rightarrow> ts \<Rightarrow> span list" where
  "find_gaps [] cursor stop = (if cursor < stop then [(cursor, stop)] else [])"
| "find_gaps ((a, b) # rs) cursor stop =
     (if a > cursor then [(cursor, a)] else []) @ find_gaps rs (max cursor b) stop"

record timeline =
  tl_ranges :: "span list"
  tl_gaps :: "span list"

definition build_timeline :: "'z nvr_scheme \<Rightarrow> db_id \<Rightarrow> ts \<Rightarrow> ts \<Rightarrow> timeline" where
  "build_timeline db cam start stop =
     (let ranges = merge_ranges (Segment_get_range db cam start stop (Some ''main'')) None
      in \<lparr>tl_ranges = ranges, tl_gaps = find_gaps ranges start stop\<rparr>)"

definition get_segments :: "'z nvr_scheme \<Rightarrow> db_id \<Rightarrow> ts \<Rightarrow> ts \<Rightarrow> segment list" where
  "get_segments db cam start stop = Segment_get_range db cam start stop (Some ''main'')"

section \<open>Playlist\<close>

definition ceil_seconds :: "int \<Rightarrow> int" where
  "ceil_seconds ms = - ((- ms) div 1000)"

definition target_duration :: "segment list \<Rightarrow> int" where
  "target_duration gs = (case map (\<lambda>g. ceil_seconds (duration_of g)) gs of [] \<Rightarrow> 10 | d # ds \<Rightarrow> fold max ds d)"

fun playlist_lines :: "(ts \<Rightarrow> string) \<Rightarrow> (int \<Rightarrow> string) \<Rightarrow> string \<Rightarrow> segment list \<Rightarrow> ts option \<Rightarrow> string list" where
  "playlist_lines fmt f3 q [] prev = []"
| "playlist_lines fmt f3 q (g # gs) prev =
     (case prev of None \<Rightarrow> [] | Some e \<Rightarrow> if seg_start g - e > 1000 then [''#EXT-X-DISCONTINUITY''] else [])
     @ [''#EXT-X-PROGRAM-DATE-TIME:'' @ fmt (seg_start g),
        ''#EXTINF:'' @ f3 (duration_of g) @ '','',
        ''/api/v1/playback/segments/'' @ str_of_int (seg_id g) @ ''/hls'' @ q]
     @ playlist_lines fmt f3 q gs (Some (seg_end g))"

definition build_m3u8 ::
  "(ts \<Rightarrow> string) \<Rightarrow> (int \<Rightarrow> string) \<Rightarrow> 'z nvr_scheme \<Rightarrow> db_id \<Rightarrow> ts \<Rightarrow> ts \<Rightarrow> string \<Rightarrow> bool \<Rightarrow> string" where
  "build_m3u8 fmt f3 db cam start stop token transcode =
     (let gs = Segment_get_range db cam start stop (Some ''main'');
          q = ''?access_token='' @ token @ (if transcode then ''&transcode=h264'' else []);
          lines = [''#EXTM3U'', ''#EXT-X-VERSION:3'', ''#EXT-X-PLAYLIST-TYPE:VOD'',
                   ''#EXT-X-TARGETDURATION:'' @ str_of_int (target_duration gs), ''#EXT-X-MEDIA-SEQUENCE:0'']
                  @ playlist_lines fmt f3 q gs None @ [''#EXT-X-ENDLIST'']
      in concat (map (\<lambda>l. l @ [CHR 0x0A]) lines))"

section \<open>The timeline is a faithful picture\<close>

definition in_span :: "ts \<Rightarrow> span \<Rightarrow> bool" where
  "in_span t r \<longleftrightarrow> fst r \<le> t \<and> t < snd r"

text \<open>Every segment lies in a range, and ranges begin at a segment.\<close>

lemma merge_ranges_cover:
  assumes "(case cur of None \<Rightarrow> True | Some (a, b) \<Rightarrow> \<forall>g \<in> set gs. a \<le> seg_start g)"
    and "sorted (map seg_start gs)"
  shows "(\<forall>g \<in> set gs. \<exists>r \<in> set (merge_ranges gs cur). fst r \<le> seg_start g \<and> seg_end g \<le> snd r)
       \<and> (case cur of None \<Rightarrow> True | Some (a, b) \<Rightarrow> \<exists>r \<in> set (merge_ranges gs cur). fst r = a \<and> b \<le> snd r)"
  using assms
proof (induction gs cur rule: merge_ranges.induct)
  case (1 cur)
  then show ?case by (auto split: option.splits)
next
  case (2 g gs cur)
  show ?case
  proof (cases cur)
    case None
    have IH: "\<forall>h \<in> set gs. \<exists>r \<in> set (merge_ranges gs (Some (seg_start g, seg_end g))). fst r \<le> seg_start h \<and> seg_end h \<le> snd r"
      "\<exists>r \<in> set (merge_ranges gs (Some (seg_start g, seg_end g))). fst r = seg_start g \<and> seg_end g \<le> snd r"
      using "2.IH"(1) [OF None] "2.prems" by simp_all
    from IH(2) have "\<exists>r \<in> set (merge_ranges gs (Some (seg_start g, seg_end g))). fst r \<le> seg_start g \<and> seg_end g \<le> snd r"
      by (metis order_refl)
    then show ?thesis using IH(1) None by simp
  next
    case (Some ab)
    obtain a b where ab: "ab = (a, b)" by (cases ab)
    have pre: "\<forall>h \<in> set gs. a \<le> seg_start h" "a \<le> seg_start g" "sorted (map seg_start gs)"
      "\<forall>h \<in> set gs. seg_start g \<le> seg_start h" using 2 Some ab by auto
    show ?thesis
    proof (cases "seg_start g - b \<le> gap_limit g")
      case True
      have IH: "\<forall>h \<in> set gs. \<exists>r \<in> set (merge_ranges gs (Some (a, max b (seg_end g)))). fst r \<le> seg_start h \<and> seg_end h \<le> snd r"
        "\<exists>r \<in> set (merge_ranges gs (Some (a, max b (seg_end g)))). fst r = a \<and> max b (seg_end g) \<le> snd r"
        using "2.IH"(2) [OF Some ab [symmetric] True] pre by auto
      then obtain r where r: "r \<in> set (merge_ranges gs (Some (a, max b (seg_end g))))" "fst r = a" "b \<le> snd r" "seg_end g \<le> snd r" by auto
      have eq: "merge_ranges (g # gs) cur = merge_ranges gs (Some (a, max b (seg_end g)))" using Some ab True by simp
      have "\<exists>r \<in> set (merge_ranges gs (Some (a, max b (seg_end g)))). fst r \<le> seg_start g \<and> seg_end g \<le> snd r"
        using r pre(2) by auto
      moreover have "\<exists>r \<in> set (merge_ranges gs (Some (a, max b (seg_end g)))). fst r = a \<and> b \<le> snd r" using r by auto
      ultimately show ?thesis unfolding eq using IH(1) Some ab by simp
    next
      case False
      have IH: "\<forall>h \<in> set gs. \<exists>r \<in> set (merge_ranges gs (Some (seg_start g, seg_end g))). fst r \<le> seg_start h \<and> seg_end h \<le> snd r"
        "\<exists>r \<in> set (merge_ranges gs (Some (seg_start g, seg_end g))). fst r = seg_start g \<and> seg_end g \<le> snd r"
        using "2.IH"(3) [OF Some ab [symmetric] False] pre by auto
      have eq: "merge_ranges (g # gs) cur = (a, b) # merge_ranges gs (Some (seg_start g, seg_end g))" using Some ab False by simp
      have "\<exists>r \<in> set (merge_ranges gs (Some (seg_start g, seg_end g))). fst r \<le> seg_start g \<and> seg_end g \<le> snd r"
        using IH(2) by (metis order_refl)
      then show ?thesis unfolding eq using IH(1) Some ab by simp
    qed
  qed
qed

text \<open>A gap meets no range when the ranges come in order of their starts.\<close>

lemma find_gaps_sound:
  assumes "in_span t g" and "g \<in> set (find_gaps rs cursor stop)" and "sorted (map fst rs)"
  shows "cursor \<le> t \<and> (\<forall>r \<in> set rs. \<not> in_span t r)"
  using assms(2,3)
proof (induction rs cursor stop rule: find_gaps.induct)
  case (1 cursor stop)
  then show ?case using assms(1) by (auto simp: in_span_def split: if_splits)
next
  case (2 a b rs cursor stop)
  show ?case
  proof (cases "g = (cursor, a) \<and> cursor < a")
    case True
    then show ?thesis using assms(1) 2(3) by (fastforce simp: in_span_def)
  next
    case False
    then have "g \<in> set (find_gaps rs (max cursor b) stop)" using 2(2) by (auto split: if_splits)
    from "2.IH" [OF this] 2(3) show ?thesis by (auto simp: in_span_def)
  qed
qed

lemma find_gaps_complete:
  assumes "cursor \<le> t" and "t < stop"
  shows "(\<exists>g \<in> set (find_gaps rs cursor stop). in_span t g) \<or> (\<exists>r \<in> set rs. in_span t r)"
  using assms
proof (induction rs cursor stop rule: find_gaps.induct)
  case (1 cursor stop)
  then show ?case by (auto simp: in_span_def)
next
  case (2 a b rs cursor stop)
  show ?case
  proof (cases "t < a")
    case True
    then show ?thesis using 2(2) by (auto simp: in_span_def)
  next
    case a: False
    show ?thesis
    proof (cases "t < b")
      case True
      then show ?thesis using a by (auto simp: in_span_def)
    next
      case False
      with 2 show ?thesis by auto
    qed
  qed
qed

lemma merge_ranges_starts:
  assumes "sorted (map seg_start gs)" and "\<forall>g \<in> set gs. lo \<le> seg_start g"
    and "case cur of None \<Rightarrow> True | Some (a, b) \<Rightarrow> lo \<le> a \<and> (\<forall>g \<in> set gs. a \<le> seg_start g)"
  shows "sorted (map fst (merge_ranges gs cur)) \<and> (\<forall>r \<in> set (merge_ranges gs cur). lo \<le> fst r)"
  using assms
proof (induction gs cur arbitrary: lo rule: merge_ranges.induct)
  case (1 cur)
  then show ?case by (auto split: option.splits)
next
  case (2 g gs cur)
  have srt: "sorted (map seg_start gs)" "\<forall>h \<in> set gs. seg_start g \<le> seg_start h" "\<forall>h \<in> set gs. lo \<le> seg_start h" "lo \<le> seg_start g"
    using "2.prems" by auto
  show ?case
  proof (cases cur)
    case None
    with "2.IH"(1) [OF None srt(1,3)] srt show ?thesis by simp
  next
    case (Some ab)
    obtain a b where ab: "ab = (a, b)" by (cases ab)
    have a: "lo \<le> a" "a \<le> seg_start g" "\<forall>h \<in> set gs. a \<le> seg_start h" using "2.prems"(3) Some ab by auto
    show ?thesis
    proof (cases "seg_start g - b \<le> gap_limit g")
      case True
      with "2.IH"(2) [OF Some ab [symmetric] True srt(1,3)] a Some ab show ?thesis by simp
    next
      case False
      from "2.IH"(3) [OF Some ab [symmetric] False srt(1) a(3)] a srt
      have "sorted (map fst (merge_ranges gs (Some (seg_start g, seg_end g))))"
        "\<forall>r \<in> set (merge_ranges gs (Some (seg_start g, seg_end g))). a \<le> fst r" by simp_all
      then show ?thesis using Some ab False a(1) by (auto intro: order_trans)
    qed
  qed
qed

lemma Segment_get_range_sorted: "sorted (map seg_start (Segment_get_range db cam start stop role))"
  by (simp add: Segment_get_range_def)

text \<open>The timeline of a window is a faithful picture of the index. Every instant of the window is in a
  reported range or in a reported gap; no gap contains footage: an instant of a gap lies inside no
  indexed (uncorrupted, main-stream) segment of the camera that meets the window; and every such segment
  lies inside one reported range.\<close>

theorem timeline_partitions_window:
  assumes "start \<le> t" and "t < stop"
    and "g \<in> set (Segment_get_range db cam start stop (Some ''main''))"
  shows "((\<exists>r \<in> set (tl_ranges (build_timeline db cam start stop)). in_span t r)
          \<or> (\<exists>r \<in> set (tl_gaps (build_timeline db cam start stop)). in_span t r))
       \<and> (in_span t (seg_start g, seg_end g) \<longrightarrow> \<not> (\<exists>r \<in> set (tl_gaps (build_timeline db cam start stop)). in_span t r))
       \<and> (\<exists>r \<in> set (tl_ranges (build_timeline db cam start stop)). fst r \<le> seg_start g \<and> seg_end g \<le> snd r)"
proof -
  let ?gs = "Segment_get_range db cam start stop (Some ''main'')"
  let ?rs = "merge_ranges ?gs None"
  have tl: "tl_ranges (build_timeline db cam start stop) = ?rs" "tl_gaps (build_timeline db cam start stop) = find_gaps ?rs start stop"
    by (simp_all add: build_timeline_def Let_def)
  have inside: "\<exists>r \<in> set ?rs. fst r \<le> seg_start g \<and> seg_end g \<le> snd r"
    using merge_ranges_cover [of ?gs None, OF _ Segment_get_range_sorted] assms(3) by simp
  have "sorted (map fst ?rs)"
  proof (cases ?gs)
    case (Cons h hs)
    then have "\<forall>x \<in> set ?gs. seg_start h \<le> seg_start x" using Segment_get_range_sorted [of db cam start stop "Some ''main''"] by auto
    with merge_ranges_starts [OF Segment_get_range_sorted this, where cur = None] show ?thesis by simp
  qed simp
  then have "\<not> (\<exists>r \<in> set (find_gaps ?rs start stop). in_span t r)" if "in_span t (seg_start g, seg_end g)"
    using find_gaps_sound [where rs = ?rs and t = t] inside that by (fastforce simp: in_span_def)
  with find_gaps_complete [OF assms(1,2), of ?rs] inside show ?thesis unfolding tl by blast
qed

section \<open>A concrete window\<close>

definition sample_clip :: "db_id \<Rightarrow> ts \<Rightarrow> segment" where
  "sample_clip i t = \<lparr>seg_id = i, seg_camera = 7, seg_disk = 1, seg_rel_path = ''a.ts'', seg_start = t, seg_end = t + 10000,
     seg_duration_ms = 10000, seg_size = 1, seg_container = ''ts'', seg_video_codec = None, seg_has_audio = False,
     seg_width = None, seg_height = None, seg_first_keyframe_ms = 0, seg_reason = SEG_REASON_CONTINUOUS, seg_tier = TIER_RECORD,
     seg_role = ''main'', seg_corrupt = False\<rparr>"

definition sample_index :: nvr where
  "sample_index = \<lparr>n_segments = [sample_clip 1 100000, sample_clip 2 110000, sample_clip 3 200000], n_recordings = [], n_disks = [],
     n_policies = [], n_cameras = [], n_files = [], n_locked = [], n_next_key = 10, n_signals = [], n_audit = []\<rparr>"

theorem timeline_partitions_window_witness:
  "tl_ranges (build_timeline sample_index 7 90000 300000) = [(100000, 120000), (200000, 210000)]
   \<and> (\<exists>r \<in> set (tl_ranges (build_timeline sample_index 7 90000 300000)). fst r \<le> 110000 \<and> 120000 \<le> snd r)"
proof -
  have "sample_clip 2 110000 \<in> set (Segment_get_range sample_index 7 90000 300000 (Some ''main''))"
    by (simp add: Segment_get_range_def sample_index_def sample_clip_def)
  from timeline_partitions_window [OF _ _ this, of 115000]
  have "\<exists>r \<in> set (tl_ranges (build_timeline sample_index 7 90000 300000)). fst r \<le> 110000 \<and> 120000 \<le> snd r"
    by (simp add: sample_clip_def)
  moreover have "tl_ranges (build_timeline sample_index 7 90000 300000) = [(100000, 120000), (200000, 210000)]" by code_simp
  ultimately show ?thesis by blast
qed

end
