(* ===== verification/ShareLink.thy ===== *)
theory ShareLink
  imports Events Playback Users FeatureFlags
begin

text \<open>
  Public share links: \<open>server/model/share_link.py\<close>, \<open>server/service/share_link.py\<close> and
  \<open>server/controller/share_link.py\<close>.

  SHA-256 of a token and the peppered hash of a password are parameters (\<open>se_hash_token\<close>,
  \<open>se_hash_password\<close>), as is the token that \<open>secrets\<close> draws (an argument of the operations that create a
  link). The payload of the public viewer is a record with the status.
\<close>

section \<open>Rows\<close>

definition KIND_CLIP :: string where "KIND_CLIP = ''clip''"
definition KIND_EVENT :: string where "KIND_EVENT = ''event''"

record share_link =
  sl_id :: db_id
  sl_token_hash :: string
  sl_kind :: string
  sl_camera :: db_id
  sl_target_ref :: "string option"
  sl_range_start :: "ts option"
  sl_range_end :: "ts option"
  sl_label :: pyval
  sl_password_hash :: "string option"
  sl_watermark :: bool
  sl_max_views :: "int option"
  sl_view_count :: int
  sl_expires_at :: "ts option"
  sl_revoked_at :: "ts option"
  sl_created_by :: db_id
  sl_created_at :: ts
  sl_deleted :: "ts option"

record 'r share_state = "'r ev_state" +
  ss_links :: "share_link list"
  ss_flags :: flag_state

record 'r share_env =
  se_redis :: "'r redis"
  se_prefix :: string
  se_hash_token :: "string \<Rightarrow> string"
  se_hash_password :: "pyval \<Rightarrow> string"

definition ShareLink_get_by_hash :: "'r share_state \<Rightarrow> string \<Rightarrow> share_link option" where
  "ShareLink_get_by_hash s h = first_row (filter (\<lambda>l. sl_token_hash l = h \<and> sl_deleted l = None) (ss_links s))"

definition ShareLink_get_by_id :: "'r share_state \<Rightarrow> db_id \<Rightarrow> share_link option" where
  "ShareLink_get_by_id s i = first_row (filter (\<lambda>l. sl_id l = i \<and> sl_deleted l = None) (ss_links s))"

definition list_for_user :: "'r share_state \<Rightarrow> db_id option \<Rightarrow> share_link list" where
  "list_for_user s uid =
     sort_key (\<lambda>l. - sl_created_at l)
       (filter (\<lambda>l. sl_deleted l = None \<and> (case uid of None \<Rightarrow> True | Some u \<Rightarrow> sl_created_by l = u)) (ss_links s))"

definition is_live :: "ts \<Rightarrow> share_link \<Rightarrow> bool" where
  "is_live now l =
     (if sl_revoked_at l \<noteq> None then False
      else if (case sl_expires_at l of None \<Rightarrow> False | Some e \<Rightarrow> e \<le> now) then False
      else if (case sl_max_views l of None \<Rightarrow> False | Some m \<Rightarrow> sl_view_count l \<ge> m) then False
      else True)"

definition status_reason :: "ts \<Rightarrow> share_link \<Rightarrow> string option" where
  "status_reason now l =
     (if sl_revoked_at l \<noteq> None then Some ''revoked''
      else if (case sl_expires_at l of None \<Rightarrow> False | Some e \<Rightarrow> e \<le> now) then Some ''expired''
      else if (case sl_max_views l of None \<Rightarrow> False | Some m \<Rightarrow> sl_view_count l \<ge> m) then Some ''exhausted''
      else None)"

definition update_link :: "db_id \<Rightarrow> (share_link \<Rightarrow> share_link) \<Rightarrow> 'r share_state \<Rightarrow> 'r share_state" where
  "update_link i f s = s\<lparr>ss_links := map (\<lambda>l. if sl_id l = i then f l else l) (ss_links s)\<rparr>"

definition register_view :: "db_id \<Rightarrow> 'r share_state \<Rightarrow> 'r share_state" where
  "register_view i = update_link i (\<lambda>l. l\<lparr>sl_view_count := sl_view_count l + 1\<rparr>)"

definition ShareLink_revoke :: "ts \<Rightarrow> db_id \<Rightarrow> 'r share_state \<Rightarrow> 'r share_state" where
  "ShareLink_revoke now i = update_link i (\<lambda>l. l\<lparr>sl_revoked_at := Some now\<rparr>)"

section \<open>The service\<close>

definition DEFAULT_EXPIRY_S :: int where "DEFAULT_EXPIRY_S = 7 * 24 * 3600"
definition MAX_EXPIRY_S :: int where "MAX_EXPIRY_S = 30 * 24 * 3600"
definition PW_ATTEMPT_LIMIT :: int where "PW_ATTEMPT_LIMIT = 10"
definition PW_WINDOW_S :: int where "PW_WINDOW_S = 300"

text \<open>\<open>DEFAULT_EXPIRY_S if not expires_in_s else min(int(expires_in_s), MAX_EXPIRY_S)\<close>.\<close>

definition share_ttl :: "pyval \<Rightarrow> py_error + int" where
  "share_ttl v = (if \<not> py_truthy v then Inr DEFAULT_EXPIRY_S
                  else case py_int v of Inl e \<Rightarrow> Inl e | Inr n \<Rightarrow> Inr (min n MAX_EXPIRY_S))"

definition share_max_views :: "pyval \<Rightarrow> py_error + int option" where
  "share_max_views v = (if \<not> py_truthy v then Inr None else case py_int v of Inl e \<Rightarrow> Inl e | Inr n \<Rightarrow> Inr (Some n))"

record link_request =
  lr_kind :: string
  lr_camera :: db_id
  lr_target_ref :: "string option"
  lr_start :: "ts option"
  lr_end :: "ts option"
  lr_label :: pyval
  lr_password :: pyval
  lr_max_views :: pyval
  lr_watermark :: bool
  lr_expires_in_s :: pyval
  lr_actor :: db_id

definition share_create ::
  "'r share_env \<Rightarrow> ts \<Rightarrow> string \<Rightarrow> link_request \<Rightarrow> ('r share_state, share_link) act" where
  "share_create E now token q s =
     (if lr_kind q \<notin> {KIND_CLIP, KIND_EVENT} then (Inl (ValueError ''invalid kind''), s)
      else case share_ttl (lr_expires_in_s q) of
        Inl e \<Rightarrow> (Inl e, s)
      | Inr ttl \<Rightarrow> (case share_max_views (lr_max_views q) of
          Inl e \<Rightarrow> (Inl e, s)
        | Inr mv \<Rightarrow>
            (let l = \<lparr>sl_id = n_next_key s, sl_token_hash = se_hash_token E token, sl_kind = lr_kind q, sl_camera = lr_camera q,
                      sl_target_ref = lr_target_ref q, sl_range_start = lr_start q, sl_range_end = lr_end q, sl_label = lr_label q,
                      sl_password_hash = (if py_truthy (lr_password q) then Some (se_hash_password E (lr_password q)) else None),
                      sl_watermark = lr_watermark q, sl_max_views = mv, sl_view_count = 0,
                      sl_expires_at = Some (now + ttl * 1000), sl_revoked_at = None, sl_created_by = lr_actor q, sl_created_at = now, sl_deleted = None\<rparr>
             in (Inr l, s\<lparr>ss_links := ss_links s @ [l], n_next_key := n_next_key s + 1\<rparr>))))"

definition share_resolve :: "'r share_env \<Rightarrow> string \<Rightarrow> 'r share_state \<Rightarrow> share_link option" where
  "share_resolve E token s = (if token = [] then None else ShareLink_get_by_hash s (se_hash_token E token))"

definition verify_password :: "'r share_env \<Rightarrow> share_link \<Rightarrow> pyval \<Rightarrow> bool" where
  "verify_password E l pw =
     (case sl_password_hash l of
        None \<Rightarrow> True
      | Some h \<Rightarrow> if \<not> py_truthy pw then False else se_hash_password E pw = h)"

definition share_pw_key :: "'r share_env \<Rightarrow> string \<Rightarrow> string option \<Rightarrow> string" where
  "share_pw_key E token ip =
     se_prefix E @ '':share_pw:'' @ take 16 (se_hash_token E token) @ '':'' @ (case ip of None \<Rightarrow> ''-'' | Some a \<Rightarrow> if a = [] then ''-'' else a)"

definition share_rate_limit_ok :: "'r share_env \<Rightarrow> string \<Rightarrow> string option \<Rightarrow> 'r \<Rightarrow> bool \<times> 'r" where
  "share_rate_limit_ok E token ip r = fixed_window (se_redis E) (share_pw_key E token ip) PW_ATTEMPT_LIMIT PW_WINDOW_S r"

definition segments_for :: "'r share_state \<Rightarrow> share_link \<Rightarrow> segment list" where
  "segments_for s l =
     (case (sl_range_start l, sl_range_end l) of
        (Some a, Some b) \<Rightarrow> get_segments s (sl_camera l) a b
      | _ \<Rightarrow> [])"

definition authorize_segment :: "share_link \<Rightarrow> segment option \<Rightarrow> bool" where
  "authorize_segment l go =
     (case go of
        None \<Rightarrow> False
      | Some g \<Rightarrow>
          if seg_camera g \<noteq> sl_camera l then False
          else case (sl_range_start l, sl_range_end l) of
                 (Some a, Some b) \<Rightarrow> seg_start g \<le> b \<and> seg_end g \<ge> a
               | _ \<Rightarrow> False)"

section \<open>The controller\<close>

definition EVENT_PRE_MS :: int where "EVENT_PRE_MS = 15000"
definition EVENT_POST_MS :: int where "EVENT_POST_MS = 30000"

text \<open>The request body of \<open>create\<close>; the event id and the range bounds are already converted numbers
  (\<open>_parse_ms\<close> gives \<open>None\<close> for a missing or malformed one).\<close>

record share_body =
  sb_kind :: string
  sb_event_id :: db_id
  sb_camera_uuid :: string
  sb_range_start :: "ts option"
  sb_range_end :: "ts option"
  sb_label :: pyval
  sb_password :: pyval
  sb_max_views :: pyval
  sb_watermark :: bool
  sb_expires_in_s :: pyval

definition guard_flag :: "int \<Rightarrow> ('r share_state, unit) act" where
  "guard_flag mono_now s =
     (case is_enabled mono_now ''share_links'' False (ss_flags s) of
        (ok, fl) \<Rightarrow> (if ok then Inr () else Inl NoPermissionException, s\<lparr>ss_flags := fl\<rparr>))"

definition scoped_camera :: "user \<Rightarrow> string \<Rightarrow> 'r share_state \<Rightarrow> py_error + camera" where
  "scoped_camera u camera_uuid s =
     (if camera_uuid = [] then Inl (InvalidParameterException ''camera_uuid required'')
      else case Camera_get_by_uuid s camera_uuid of
             Inl e \<Rightarrow> Inl e
           | Inr c \<Rightarrow> if has_camera_scope (Some u) (cam_uuid c) ''view'' then Inr c else Inl NoPermissionException)"

definition event_link :: "user \<Rightarrow> share_body \<Rightarrow> 'r share_state \<Rightarrow> py_error + link_request" where
  "event_link u b s =
     (case Event_get_by_id s (sb_event_id b) of
        None \<Rightarrow> Inl RowNotFoundException
      | Some ev \<Rightarrow> (case Camera_get_by_id s (ev_camera ev) of
          Inl e \<Rightarrow> Inl e
        | Inr c \<Rightarrow>
            if \<not> has_camera_scope (Some u) (cam_uuid c) ''view'' then Inl NoPermissionException
            else Inr \<lparr>lr_kind = KIND_EVENT, lr_camera = cam_id c, lr_target_ref = Some (str_of_int (ev_id ev)),
                      lr_start = Some (ev_start ev - EVENT_PRE_MS),
                      lr_end = Some ((case ev_end ev of None \<Rightarrow> ev_start ev | Some e \<Rightarrow> e) + EVENT_POST_MS),
                      lr_label = (if py_truthy (sb_label b) then sb_label b else PStr (cam_name c @ [CHR '' '', CHR 0xB7, CHR '' ''] @ ev_type ev)),
                      lr_password = sb_password b, lr_max_views = sb_max_views b, lr_watermark = sb_watermark b,
                      lr_expires_in_s = sb_expires_in_s b, lr_actor = u_id u\<rparr>))"

definition clip_link :: "user \<Rightarrow> share_body \<Rightarrow> 'r share_state \<Rightarrow> py_error + link_request" where
  "clip_link u b s =
     (case scoped_camera u (sb_camera_uuid b) s of
        Inl e \<Rightarrow> Inl e
      | Inr c \<Rightarrow>
          (case (sb_range_start b, sb_range_end b) of
             (Some a, Some z) \<Rightarrow>
               if z \<le> a then Inl (InvalidParameterException ''valid range_start/range_end required'')
               else if z - a > 6 * 3600000 then Inl (InvalidParameterException ''clip range too long (max 6h)'')
               else Inr \<lparr>lr_kind = KIND_CLIP, lr_camera = cam_id c, lr_target_ref = None, lr_start = Some a, lr_end = Some z,
                         lr_label = sb_label b, lr_password = sb_password b, lr_max_views = sb_max_views b,
                         lr_watermark = sb_watermark b, lr_expires_in_s = sb_expires_in_s b, lr_actor = u_id u\<rparr>
           | _ \<Rightarrow> Inl (InvalidParameterException ''valid range_start/range_end required'')))"

definition create_link ::
  "'r share_env \<Rightarrow> ts \<Rightarrow> int \<Rightarrow> string \<Rightarrow> user \<Rightarrow> share_body \<Rightarrow> ('r share_state, share_link) act" where
  "create_link E now mono_now token u b =
     bindE (guard_flag mono_now) (\<lambda>_ s.
       let kind = (if sb_kind b = [] then KIND_CLIP else sb_kind b)
       in case (if kind = KIND_EVENT then event_link u b s
                else if kind = KIND_CLIP then clip_link u b s
                else Inl (InvalidParameterException ''invalid kind'')) of
            Inl e \<Rightarrow> (Inl e, s)
          | Inr q \<Rightarrow> share_create E now token q s)"

definition list_links :: "int \<Rightarrow> user \<Rightarrow> ('r share_state, share_link list) act" where
  "list_links mono_now u =
     bindE (guard_flag mono_now) (\<lambda>_ s. (Inr (list_for_user s (if is_superuser (Some u) then None else Some (u_id u))), s))"

definition revoke_link :: "ts \<Rightarrow> int \<Rightarrow> user \<Rightarrow> db_id \<Rightarrow> ('r share_state, unit) act" where
  "revoke_link now mono_now u share_id =
     bindE (guard_flag mono_now) (\<lambda>_ s.
       case ShareLink_get_by_id s share_id of
         None \<Rightarrow> (Inl RowNotFoundException, s)
       | Some l \<Rightarrow>
           if sl_created_by l \<noteq> u_id u \<and> \<not> is_superuser (Some u) then (Inl NoPermissionException, s)
           else (Inr (), ShareLink_revoke now (sl_id l) s))"

text \<open>\<open>public_payload\<close>: the metadata shown, without token or hash.\<close>

record link_info =
  li_kind :: string
  li_label :: pyval
  li_camera_name :: string
  li_range_start :: "ts option"
  li_range_end :: "ts option"
  li_watermark :: bool
  li_is_event :: bool
  li_target_ref :: "string option"

definition public_payload :: "share_link \<Rightarrow> camera \<Rightarrow> link_info" where
  "public_payload l c =
     \<lparr>li_kind = sl_kind l, li_label = sl_label l, li_camera_name = cam_name c, li_range_start = sl_range_start l,
      li_range_end = sl_range_end l, li_watermark = sl_watermark l, li_is_event = (sl_kind l = KIND_EVENT),
      li_target_ref = sl_target_ref l\<rparr>"

text \<open>What the viewer gets: a bare status, or the clip with its segments (status \<open>ok\<close>).\<close>

datatype view_result = Status string | Opened link_info "segment list"

text \<open>The tail of \<open>public_view\<close>: the view is counted before the camera is looked up.\<close>

definition open_link :: "share_link \<Rightarrow> ('r share_state, view_result) act" where
  "open_link l s =
     (let s1 = register_view (sl_id l) s
      in case Camera_get_by_id s1 (sl_camera l) of
           Inl e \<Rightarrow> (Inl e, s1)
         | Inr c \<Rightarrow> (Inr (Opened (public_payload l c) (segments_for s1 l)), s1))"

definition public_view :: "'r share_env \<Rightarrow> ts \<Rightarrow> string \<Rightarrow> pyval \<Rightarrow> string option \<Rightarrow> ('r share_state, view_result) act" where
  "public_view E now token pw ip s =
     (case share_resolve E token s of
        None \<Rightarrow> (Inl RowNotFoundException, s)
      | Some l \<Rightarrow>
          (case status_reason now l of
             Some reason \<Rightarrow> (Inr (Status reason), s)
           | None \<Rightarrow>
               if sl_password_hash l = None then open_link l s
               else (case share_rate_limit_ok E token ip (es_redis s) of
                       (ok, r) \<Rightarrow>
                         (let s1 = s\<lparr>es_redis := r\<rparr>
                          in if \<not> ok then (Inl NoPermissionException, s1)
                             else if \<not> verify_password E l pw then (Inr (Status ''password_required''), s1)
                             else open_link l s1))))"

definition public_segment_path :: "'r share_env \<Rightarrow> ts \<Rightarrow> string \<Rightarrow> db_id \<Rightarrow> 'r share_state \<Rightarrow> py_error + segment" where
  "public_segment_path E now token segment_id s =
     (case share_resolve E token s of
        None \<Rightarrow> Inl NoPermissionException
      | Some l \<Rightarrow>
          if \<not> is_live now l then Inl NoPermissionException
          else (case Segment_get_by_id s segment_id of
                  None \<Rightarrow> Inl NoPermissionException
                | Some g \<Rightarrow> if authorize_segment l (Some g) then Inr g else Inl NoPermissionException))"

end
