(* ===== verification/ShareProps.thy ===== *)
theory ShareProps
  imports ShareLink
begin

text \<open>
  Properties of the share links: what a link can reach at most, that the password of a link does not
  protect its media, that the last allowed view cannot be played, and the bound on password attempts.
\<close>

section \<open>Reachable states\<close>

text \<open>Requests in any order: a user creates or revokes links, the public opens them. \<open>users\<close> gives the
  user an id belongs to.\<close>

inductive share_step :: "'r share_env \<Rightarrow> (db_id \<Rightarrow> user) \<Rightarrow> 'r share_state \<Rightarrow> 'r share_state \<Rightarrow> bool"
  for E :: "'r share_env" and users :: "db_id \<Rightarrow> user" where
  st_create: "u = users (u_id u) \<Longrightarrow> share_step E users s (snd (create_link E now mono_now token u b s))"
| st_revoke: "share_step E users s (snd (revoke_link now mono_now u i s))"
| st_view: "share_step E users s (snd (public_view E now token pw ip s))"

text \<open>What every link carries: a window, an expiry of at most thirty days, and an owner who could view the
  camera.\<close>

definition link_ok :: "(db_id \<Rightarrow> user) \<Rightarrow> camera list \<Rightarrow> share_link \<Rightarrow> bool" where
  "link_ok users cams l \<longleftrightarrow>
     (\<exists>a b. sl_range_start l = Some a \<and> sl_range_end l = Some b \<and> (sl_kind l = KIND_CLIP \<longrightarrow> b - a \<le> 6 * 3600000))
   \<and> (\<exists>e. sl_expires_at l = Some e \<and> e \<le> sl_created_at l + MAX_EXPIRY_S * 1000)
   \<and> (\<exists>c. c \<in> set cams \<and> cam_id c = sl_camera l \<and> has_camera_scope (Some (users (sl_created_by l))) (cam_uuid c) ''view'')"

definition links_ok :: "(db_id \<Rightarrow> user) \<Rightarrow> camera list \<Rightarrow> 'r share_state \<Rightarrow> bool" where
  "links_ok users cams s \<longleftrightarrow> n_cameras s = cams \<and> (\<forall>l. l \<in> set (ss_links s) \<longrightarrow> link_ok users cams l)"

lemma links_ok_update:
  assumes "links_ok users cams s"
    and "\<And>l. sl_range_start (f l) = sl_range_start l \<and> sl_range_end (f l) = sl_range_end l \<and> sl_kind (f l) = sl_kind l
            \<and> sl_expires_at (f l) = sl_expires_at l \<and> sl_created_at (f l) = sl_created_at l
            \<and> sl_camera (f l) = sl_camera l \<and> sl_created_by (f l) = sl_created_by l"
  shows "links_ok users cams (update_link i f s)"
proof -
  have "link_ok users cams (f l) = link_ok users cams l" for l using assms(2) [of l] by (simp add: link_ok_def)
  then show ?thesis using assms(1) by (auto simp: links_ok_def update_link_def)
qed

lemma links_ok_cong:
  "n_cameras s' = n_cameras s \<Longrightarrow> ss_links s' = ss_links s \<Longrightarrow> links_ok users cams s' = links_ok users cams s"
  by (simp add: links_ok_def)

lemma guard_flag_frame:
  assumes "guard_flag m s = (x, s')"
  shows "n_cameras s' = n_cameras s" and "ss_links s' = ss_links s"
  using assms by (auto simp: guard_flag_def split: prod.splits)

lemma Camera_get_SomeD:
  "Camera_get_by_id s i = Inr c \<Longrightarrow> c \<in> set (n_cameras s) \<and> cam_id c = i"
  "Camera_get_by_uuid s u = Inr c \<Longrightarrow> c \<in> set (n_cameras s)"
  by (auto simp: Camera_get_by_id_def Camera_get_by_uuid_def dest!: first_row_SomeD split: option.splits)

text \<open>A link request that passed the checks.\<close>

definition request_ok :: "(db_id \<Rightarrow> user) \<Rightarrow> camera list \<Rightarrow> link_request \<Rightarrow> bool" where
  "request_ok users cams q \<longleftrightarrow>
     (\<exists>a b. lr_start q = Some a \<and> lr_end q = Some b \<and> (lr_kind q = KIND_CLIP \<longrightarrow> b - a \<le> 6 * 3600000))
   \<and> (\<exists>c. c \<in> set cams \<and> cam_id c = lr_camera q \<and> has_camera_scope (Some (users (lr_actor q))) (cam_uuid c) ''view'')"

lemma event_link_ok:
  assumes "event_link u b s = Inr q" and "u = users (u_id u)"
  shows "request_ok users (n_cameras s) q"
proof (cases "Event_get_by_id s (sb_event_id b)")
  case None
  then show ?thesis using assms(1) by (simp add: event_link_def)
next
  case (Some ev)
  show ?thesis
  proof (cases "Camera_get_by_id s (ev_camera ev)")
    case (Inl e)
    then show ?thesis using assms(1) Some by (simp add: event_link_def)
  next
    case (Inr c)
    have sc: "has_camera_scope (Some u) (cam_uuid c) ''view''"
      using assms(1) Some Inr by (simp add: event_link_def split: if_splits)
    then have "lr_kind q = KIND_EVENT" "lr_camera q = cam_id c" "lr_actor q = u_id u" "\<exists>a. lr_start q = Some a" "\<exists>a. lr_end q = Some a"
      using assms(1) Some Inr by (simp_all add: event_link_def) (auto)
    then show ?thesis unfolding request_ok_def
      using sc Camera_get_SomeD(1) [OF Inr] assms(2) by (simp add: KIND_EVENT_def KIND_CLIP_def) blast
  qed
qed

lemma clip_link_ok:
  assumes "clip_link u b s = Inr q" and "u = users (u_id u)"
  shows "request_ok users (n_cameras s) q"
proof -
  obtain c where c: "scoped_camera u (sb_camera_uuid b) s = Inr c"
    and q: "lr_camera q = cam_id c" "lr_actor q = u_id u" "\<exists>a z. lr_start q = Some a \<and> lr_end q = Some z \<and> z - a \<le> 6 * 3600000"
    using assms(1) by (auto simp: clip_link_def split: option.splits sum.splits if_splits)
  have "has_camera_scope (Some u) (cam_uuid c) ''view''" "Camera_get_by_uuid s (sb_camera_uuid b) = Inr c"
    using c by (auto simp: scoped_camera_def split: sum.splits if_splits)
  then show ?thesis unfolding request_ok_def
    using q Camera_get_SomeD(2) assms(2) by fastforce
qed

lemma share_create_ok:
  assumes "request_ok users cams q" and "links_ok users cams s"
  shows "links_ok users cams (snd (share_create E now token q s))"
proof -
  have ttl: "ttl \<le> MAX_EXPIRY_S" if "share_ttl v = Inr ttl" for v ttl
    using that by (auto simp: share_ttl_def DEFAULT_EXPIRY_S_def MAX_EXPIRY_S_def split: if_splits sum.splits)
  show ?thesis
  proof (cases "\<exists>l. share_create E now token q s = (Inr l, s\<lparr>ss_links := ss_links s @ [l], n_next_key := n_next_key s + 1\<rparr>)
      \<and> sl_range_start l = lr_start q \<and> sl_range_end l = lr_end q \<and> sl_kind l = lr_kind q \<and> sl_camera l = lr_camera q
      \<and> sl_created_by l = lr_actor q \<and> (\<exists>t. share_ttl (lr_expires_in_s q) = Inr t \<and> sl_expires_at l = Some (sl_created_at l + t * 1000))")
    case True
    then obtain l t where l: "snd (share_create E now token q s) = s\<lparr>ss_links := ss_links s @ [l], n_next_key := n_next_key s + 1\<rparr>"
      "sl_range_start l = lr_start q" "sl_range_end l = lr_end q" "sl_kind l = lr_kind q" "sl_camera l = lr_camera q"
      "sl_created_by l = lr_actor q" "share_ttl (lr_expires_in_s q) = Inr t" "sl_expires_at l = Some (sl_created_at l + t * 1000)"
      by auto
    have "link_ok users cams l"
      using assms(1) ttl [OF l(7)] unfolding link_ok_def request_ok_def l(2-6,8) by simp
    then show ?thesis using assms(2) unfolding l(1) links_ok_def by auto
  next
    case False
    then have "snd (share_create E now token q s) = s"
      by (auto simp: share_create_def Let_def split: sum.splits if_splits)
    then show ?thesis using assms(2) by simp
  qed
qed

lemma create_link_ok:
  assumes "links_ok users cams s" and "u = users (u_id u)"
  shows "links_ok users cams (snd (create_link E now m token u b s))"
proof -
  obtain x s1 where g: "guard_flag m s = (x, s1)" by fastforce
  have s1: "links_ok users cams s1" using assms(1) links_ok_cong [OF guard_flag_frame [OF g]] by blast
  then have cams: "n_cameras s1 = cams" by (simp add: links_ok_def)
  have req: "request_ok users cams q" if "event_link u b s1 = Inr q \<or> clip_link u b s1 = Inr q" for q
    using that event_link_ok [where users = users, OF _ assms(2)] clip_link_ok [where users = users, OF _ assms(2)] cams by blast
  show ?thesis
    using s1 req share_create_ok [OF _ s1] g
    by (auto simp: create_link_def Let_def split: sum.splits if_splits)
qed

lemma revoke_link_ok:
  assumes "links_ok users cams s"
  shows "links_ok users cams (snd (revoke_link now m u i s))"
proof -
  obtain x s1 where g: "guard_flag m s = (x, s1)" by fastforce
  have s1: "links_ok users cams s1" using assms(1) links_ok_cong [OF guard_flag_frame [OF g]] by blast
  then have "links_ok users cams (ShareLink_revoke now j s1)" for j
    unfolding ShareLink_revoke_def by (rule links_ok_update) simp
  then show ?thesis using s1 g by (auto simp: revoke_link_def split: sum.splits option.splits if_splits)
qed

lemma public_view_ok:
  assumes "links_ok users cams s"
  shows "links_ok users cams (snd (public_view E now token pw ip s))"
proof -
  have reg: "links_ok users cams (snd (open_link l t))" if "links_ok users cams t" for l and t :: "'a share_state"
  proof -
    have "links_ok users cams (register_view (sl_id l) t)"
      unfolding register_view_def using that by (rule links_ok_update) simp
    then show ?thesis by (simp add: open_link_def Let_def split: sum.splits)
  qed
  have red: "links_ok users cams (s\<lparr>es_redis := r\<rparr>)" for r using assms by (simp add: links_ok_def)
  show ?thesis
    using assms reg [OF assms] reg [OF red] red
    by (auto simp: public_view_def Let_def split: option.splits prod.splits if_splits)
qed

lemma share_steps_ok:
  assumes "(share_step E users)\<^sup>*\<^sup>* s0 s" and "ss_links s0 = []"
  shows "links_ok users (n_cameras s0) s"
  using assms(1)
proof induction
  case base
  then show ?case using assms(2) by (simp add: links_ok_def)
next
  case (step s t)
  from step.hyps(2) step.IH show ?case
    by cases (use create_link_ok revoke_link_ok public_view_ok in \<open>metis\<close>)+
qed


section \<open>Passwords\<close>

lemma status_is_live: "status_reason now l = None \<longleftrightarrow> is_live now l"
  by (simp add: status_reason_def is_live_def)

lemma wrong_password_protected: "\<not> verify_password E l pw \<Longrightarrow> sl_password_hash l \<noteq> None"
  by (cases "sl_password_hash l") (simp_all add: verify_password_def)

text \<open>C23: the password of a link does not protect its footage. While a live link has a password and the
  viewer does not know it, so that the viewer page refuses, the media endpoint still serves every
  segment of the link's window to whoever holds the token.\<close>

theorem share_media_ignores_password:
  assumes "share_resolve E token s = Some l" and "is_live now l" and "\<not> verify_password E l pw"
    and "Segment_get_by_id s i = Some g" and "authorize_segment l (Some g)"
  shows "(fst (public_view E now token pw ip s) = Inr (Status ''password_required'')
          \<or> fst (public_view E now token pw ip s) = Inl NoPermissionException)
       \<and> public_segment_path E now token i s = Inr g"
proof -
  obtain h where "sl_password_hash l = Some h" using wrong_password_protected [OF assms(3)] by blast
  with assms show ?thesis
    by (simp add: public_view_def public_segment_path_def Let_def status_is_live [THEN iffD2] split: prod.splits)
qed

lemma first_row_map:
  assumes "\<And>x. P (f x) = P x"
  shows "first_row (filter P (map f xs)) = map_option f (first_row (filter P xs))"
  by (induction xs) (simp_all add: assms)

lemma open_link_counts: "open_link l t = (Inr x, t') \<Longrightarrow> t' = register_view (sl_id l) t"
  by (simp add: open_link_def Let_def split: sum.splits)

lemma public_view_opened:
  assumes "share_resolve E token s = Some l" and "public_view E now token pw ip s = (Inr (Opened info gs), s')"
  shows "\<exists>r. s' = register_view (sl_id l) (s\<lparr>es_redis := r\<rparr>)"
proof (cases "sl_password_hash l")
  case None
  then have "open_link l s = (Inr (Opened info gs), s')"
    using assms by (simp add: public_view_def split: option.splits)
  from open_link_counts [OF this] show ?thesis by (intro exI [of _ "es_redis s"]) simp
next
  case (Some h)
  obtain ok r where lim: "share_rate_limit_ok E token ip (es_redis s) = (ok, r)" by fastforce
  have "open_link l (s\<lparr>es_redis := r\<rparr>) = (Inr (Opened info gs), s')"
    using assms Some lim by (simp add: public_view_def Let_def split: option.splits if_splits)
  from open_link_counts [OF this] show ?thesis by blast
qed

text \<open>The last view a link allows cannot be watched. Opening the page counts the view before any footage
  is fetched, and the media endpoint refuses a link whose views are used up; so once the page has been
  opened for the last allowed time every segment request is denied. A link with \<open>max_views = 1\<close> never
  plays.\<close>

theorem share_last_view_unplayable:
  assumes "share_resolve E token s = Some l" and "sl_max_views l = Some m" and "m \<le> sl_view_count l + 1"
    and "public_view E now token pw ip s = (Inr (Opened info gs), s')"
  shows "public_segment_path E later token i s' = Inl NoPermissionException"
proof -
  obtain r where s': "s' = register_view (sl_id l) (s\<lparr>es_redis := r\<rparr>)"
    using public_view_opened [OF assms(1,4)] by blast
  have tok: "token \<noteq> []" and l: "first_row (filter (\<lambda>x. sl_token_hash x = se_hash_token E token \<and> sl_deleted x = None) (ss_links s)) = Some l"
    using assms(1) by (auto simp: share_resolve_def ShareLink_get_by_hash_def split: if_splits)
  have "share_resolve E token s' = Some (l\<lparr>sl_view_count := sl_view_count l + 1\<rparr>)"
  proof -
    from s' have "ss_links s' = map (\<lambda>x. if sl_id x = sl_id l then x\<lparr>sl_view_count := sl_view_count x + 1\<rparr> else x) (ss_links s)"
      by (simp add: register_view_def update_link_def)
    then show ?thesis using tok l by (simp add: share_resolve_def ShareLink_get_by_hash_def first_row_map)
  qed
  then show ?thesis using assms(2,3) by (simp add: public_segment_path_def is_live_def)
qed

section \<open>Guessing a password\<close>

interpretation share_pw: fixed_window_limiter "share_rate_limit_ok E token ip" "window_hits view (share_pw_key E token ip)"
  PW_ATTEMPT_LIMIT "window_up (se_redis E) view (share_pw_key E token ip)" for E token ip view
  by unfold_locales (auto simp: share_rate_limit_ok_def dest: fixed_window_counted)

text \<open>The outcomes of consecutive openings of a link from one address.\<close>

primrec guesses :: "'r share_env \<Rightarrow> ts \<Rightarrow> string \<Rightarrow> string option \<Rightarrow> pyval list \<Rightarrow> 'r share_state \<Rightarrow> (py_error + view_result) list" where
  "guesses E now token ip [] s = []"
| "guesses E now token ip (pw # pws) s =
     (case public_view E now token pw ip s of (x, s') \<Rightarrow> x # guesses E now token ip pws s')"

lemma guesses_attempts:
  assumes "share_resolve E token s = Some l" and "status_reason now l = None" and "list_all (\<lambda>pw. \<not> verify_password E l pw) pws"
  shows "guesses E now token ip pws s =
    map (\<lambda>ok. if ok then Inr (Status ''password_required'') else Inl NoPermissionException)
        (share_pw.attempts E token ip (length pws) (es_redis s))"
  using assms
proof (induction pws arbitrary: s)
  case Nil
  then show ?case by simp
next
  case (Cons pw pws)
  obtain ok r where a: "share_rate_limit_ok E token ip (es_redis s) = (ok, r)" by fastforce
  obtain h where "sl_password_hash l = Some h" using Cons.prems(3) wrong_password_protected by fastforce
  then have step: "public_view E now token pw ip s = (if ok then Inr (Status ''password_required'') else Inl NoPermissionException, s\<lparr>es_redis := r\<rparr>)"
    using Cons.prems a by (simp add: public_view_def Let_def)
  have "share_resolve E token (s\<lparr>es_redis := r\<rparr>) = Some l"
    using Cons.prems(1) by (cases token) (simp_all add: share_resolve_def ShareLink_get_by_hash_def)
  from Cons.IH [OF this Cons.prems(2)] Cons.prems(3) show ?case by (simp add: step a)
qed

text \<open>A password can be guessed at most ten times per window. While Redis answers and keeps the counter,
  however many wrong passwords one address sends for a link, at most ten of them are compared with the
  link's password; all others are refused as rate-limited.\<close>

theorem share_password_guesses_bounded:
  assumes "share_resolve E token s = Some l" and "status_reason now l = None" and "list_all (\<lambda>pw. \<not> verify_password E l pw) pws"
    and "window_up (se_redis E) view (share_pw_key E token ip) (es_redis s)"
    and "window_hits view (share_pw_key E token ip) (es_redis s) = 0"
  shows "length (filter (\<lambda>x. x \<noteq> Inl NoPermissionException) (guesses E now token ip pws s)) \<le> 10"
proof -
  have "length (filter (\<lambda>x. x \<noteq> Inl NoPermissionException) (guesses E now token ip pws s))
      = length (filter id (share_pw.attempts E token ip (length pws) (es_redis s)))"
    unfolding guesses_attempts [OF assms(1-3)] filter_map by (simp add: comp_def id_def)
  also have "\<dots> \<le> nat (max 0 PW_ATTEMPT_LIMIT)" by (rule share_pw.passed_bound [OF assms(4,5)])
  finally show ?thesis by (simp add: PW_ATTEMPT_LIMIT_def)
qed

section \<open>A concrete link\<close>

definition sample_share_env :: "mem share_env" where
  "sample_share_env = \<lparr>se_redis = mem_redis, se_prefix = ''axp'', se_hash_token = (\<lambda>t. ''h'' @ t),
     se_hash_password = (\<lambda>p. case p of PStr t \<Rightarrow> ''p'' @ t | _ \<Rightarrow> ''x'')\<rparr>"

definition sample_owner :: user where
  "sample_owner = \<lparr>u_id = 5, u_uuid = ''u5'', u_login_id = ''kim'', u_password = [], u_role = None,
     u_permissions = [(''camera_scope'', Scope [(''cam7'', [''view''])])], u_is_active = True, u_failed_login_count = 0,
     u_locked_until = None, u_last_login_at = None, u_token_version = 0, u_deleted_at = None\<rparr>"

definition sample_share_db :: "mem share_state" where
  "sample_share_db =
     \<lparr>n_segments = [sample_clip 1 100000], n_recordings = [], n_disks = [], n_policies = [],
      n_cameras = [\<lparr>cam_id = 7, cam_uuid = ''cam7'', cam_name = ''Gate'', cam_enabled = True, cam_deleted = None\<rparr>],
      n_files = [], n_locked = [], n_next_key = 100, n_signals = [], n_audit = [],
      es_events = [], es_policies = [], es_outbox = [], es_schedules = [], es_redis = [], ss_links = [],
      ss_flags = \<lparr>fl_rows = [], fl_cache = [(''share_links'', True)], fl_cache_at = 0\<rparr>\<rparr>"

definition sample_share_body :: "pyval \<Rightarrow> pyval \<Rightarrow> share_body" where
  "sample_share_body pw views = \<lparr>sb_kind = ''clip'', sb_event_id = 0, sb_camera_uuid = ''cam7'', sb_range_start = Some 90000,
     sb_range_end = Some 120000, sb_label = PNone, sb_password = pw, sb_max_views = views, sb_watermark = False, sb_expires_in_s = PNone\<rparr>"

definition sample_shared :: "pyval \<Rightarrow> pyval \<Rightarrow> mem share_state" where
  "sample_shared pw views = snd (create_link sample_share_env 200000 0 ''tok'' sample_owner (sample_share_body pw views) sample_share_db)"

definition sample_link :: "pyval \<Rightarrow> pyval \<Rightarrow> share_link" where
  "sample_link pw views = hd (ss_links (sample_shared pw views))"


theorem share_media_ignores_password_witness:
  "public_segment_path sample_share_env 300000 ''tok'' 1 (sample_shared (PStr ''secret'') PNone) = Inr (sample_clip 1 100000)"
proof -
  have "share_resolve sample_share_env ''tok'' (sample_shared (PStr ''secret'') PNone) = Some (sample_link (PStr ''secret'') PNone)"
    "is_live 300000 (sample_link (PStr ''secret'') PNone)" "\<not> verify_password sample_share_env (sample_link (PStr ''secret'') PNone) PNone"
    "Segment_get_by_id (sample_shared (PStr ''secret'') PNone) 1 = Some (sample_clip 1 100000)"
    "authorize_segment (sample_link (PStr ''secret'') PNone) (Some (sample_clip 1 100000))" by code_simp+
  from share_media_ignores_password [OF this, of None] show ?thesis by blast
qed

theorem share_last_view_unplayable_witness:
  "public_segment_path sample_share_env 300000 ''tok'' 1
     (snd (public_view sample_share_env 250000 ''tok'' PNone None (sample_shared PNone (PInt 1)))) = Inl NoPermissionException"
proof -
  let ?s = "sample_shared PNone (PInt 1)"
  have l: "share_resolve sample_share_env ''tok'' ?s = Some (sample_link PNone (PInt 1))"
    "sl_max_views (sample_link PNone (PInt 1)) = Some 1" "1 \<le> sl_view_count (sample_link PNone (PInt 1)) + 1" by code_simp+
  have "public_view sample_share_env 250000 ''tok'' PNone None ?s
      = (Inr (Opened \<lparr>li_kind = ''clip'', li_label = PNone, li_camera_name = ''Gate'', li_range_start = Some 90000, li_range_end = Some 120000,
               li_watermark = False, li_is_event = False, li_target_ref = None\<rparr> [sample_clip 1 100000]),
         snd (public_view sample_share_env 250000 ''tok'' PNone None ?s))" by code_simp
  from share_last_view_unplayable [OF l this] show ?thesis .
qed

theorem share_password_guesses_bounded_witness:
  "length (filter (\<lambda>x. x \<noteq> Inl NoPermissionException)
     (guesses sample_share_env 300000 ''tok'' None (replicate 15 (PStr ''no'')) (sample_shared (PStr ''secret'') PNone))) \<le> 10"
proof -
  let ?s = "sample_shared (PStr ''secret'') PNone" and ?l = "sample_link (PStr ''secret'') PNone"
  have l: "share_resolve sample_share_env ''tok'' ?s = Some ?l" "status_reason 300000 ?l = None"
    "list_all (\<lambda>pw. \<not> verify_password sample_share_env ?l pw) (replicate 15 (PStr ''no''))" by code_simp+
  have empty: "es_redis ?s = []" by code_simp
  have up: "window_up (se_redis sample_share_env) map_of (share_pw_key sample_share_env ''tok'' None) (es_redis ?s)"
    unfolding empty using mem_window_up by (simp add: sample_share_env_def)
  have "window_hits map_of (share_pw_key sample_share_env ''tok'' None) (es_redis ?s) = 0"
    by (simp add: empty window_hits_def)
  from share_password_guesses_bounded [OF l up this] show ?thesis .
qed

end
