(* ===== verification/Recordings.thy ===== *)
theory Recordings
  imports Storage Users
begin

text \<open>
  The recording controller, \<open>server/controller/recording.py\<close>: recording mode, manual recordings with an
  optional fixed duration, their automatic close, and the protection toggle. The audit log and the
  reconcile messages are part of the state. The recorder's health row is not: it is written by another
  process.
\<close>

section \<open>Operations\<close>

definition set_mode :: "camera \<Rightarrow> string \<Rightarrow> db_id option \<Rightarrow> ('z nvr_scheme, unit) act" where
  "set_mode cam mode actor s =
     (if mode \<notin> {RECORD_OFF, RECORD_CONTINUOUS} then (Inl (InvalidParameterException ''mode must be off or continuous''), s)
      else (let s1 = StoragePolicy_upsert_for_camera s (Some (cam_id cam)) [FRecordMode mode];
                s2 = publish_reconcile s1 (Some (cam_id cam)) ''mode_change''
            in (Inr (), AuditLog_add s2 ''recording_mode'' (Some (cam_uuid cam)) actor (PDict [(''mode'', PStr mode)]))))"

text \<open>The planned end of a recording with a duration: \<open>None\<close> without one.\<close>

definition planned_end :: "ts \<Rightarrow> pyval \<Rightarrow> py_error + (int \<times> ts) option" where
  "planned_end now duration_s =
     (if duration_s = PNone then Inr None
      else case py_int duration_s of
             Inl e \<Rightarrow> Inl e
           | Inr d \<Rightarrow>
               if d < 5 \<or> d > 24 * 3600 then Inl (InvalidParameterException ''duration must be 5s-24h'')
               else Inr (Some (d, now + d * 1000)))"

definition manual_start ::
  "ts \<Rightarrow> camera \<Rightarrow> string option \<Rightarrow> db_id option \<Rightarrow> pyval \<Rightarrow> ('z nvr_scheme, recording) act" where
  "manual_start now cam note actor duration_s s =
     (if Recording_get_active_manual s (cam_id cam) \<noteq> None
      then (Inl (InvalidParameterException ''manual recording already active''), s)
      else case planned_end now duration_s of
        Inl e \<Rightarrow> (Inl e, s)
      | Inr pe \<Rightarrow>
          (case Recording_create s (cam_id cam) REASON_MANUAL CLASS_PROTECTED now None actor note (map_option snd pe) of
             (r, s1) \<Rightarrow>
               (Inr r, AuditLog_add (publish_reconcile s1 (Some (cam_id cam)) ''manual_start'')
                  ''recording_manual_start'' (Some (cam_uuid cam)) actor
                  (case pe of None \<Rightarrow> PNone | Some (d, _) \<Rightarrow> PDict [(''duration_s'', PInt d)]))))"

definition close_manual :: "ts \<Rightarrow> recording \<Rightarrow> 'z nvr_scheme \<Rightarrow> 'z nvr_scheme" where
  "close_manual now r s =
     (let s1 = Recording_close s (rec_id r) now
      in fold (\<lambda>g s. Segment_mark_reason s (seg_id g) SEG_REASON_MANUAL)
           (Segment_get_range s1 (rec_camera r) (rec_start r) now None) s1)"

text \<open>\<open>Recording.get_by_id(int(recording_id)) if recording_id else Recording.get_active_manual(camera.id)\<close>.\<close>

definition manual_of :: "camera \<Rightarrow> pyval \<Rightarrow> 'z nvr_scheme \<Rightarrow> py_error + recording option" where
  "manual_of cam rid s =
     (if py_truthy rid
      then (case py_int rid of Inl e \<Rightarrow> Inl e | Inr i \<Rightarrow> Inr (Recording_get_by_id s i))
      else Inr (Recording_get_active_manual s (cam_id cam)))"

definition manual_stop :: "ts \<Rightarrow> camera \<Rightarrow> pyval \<Rightarrow> db_id option \<Rightarrow> ('z nvr_scheme, db_id) act" where
  "manual_stop now cam rid actor s =
     (case manual_of cam rid s of
        Inl e \<Rightarrow> (Inl e, s)
      | Inr None \<Rightarrow> (Inl RowNotFoundException, s)
      | Inr (Some r) \<Rightarrow>
          if rec_camera r \<noteq> cam_id cam \<or> rec_reason r \<noteq> REASON_MANUAL \<or> rec_end r \<noteq> None
          then (Inl RowNotFoundException, s)
          else (Inr (rec_id r),
                AuditLog_add (publish_reconcile (close_manual now r s) (Some (cam_id cam)) ''manual_stop'')
                  ''recording_manual_stop'' (Some (cam_uuid cam)) actor PNone))"

definition autoclose_due :: "ts \<Rightarrow> 'z nvr_scheme \<Rightarrow> nat \<times> 'z nvr_scheme" where
  "autoclose_due now s =
     (let due = Recording_due_manual s now 200
      in (length due,
          fold (\<lambda>r s. publish_reconcile (close_manual now r s) (Some (rec_camera r)) ''manual_autostop'') due s))"

text \<open>\<open>u\<close> is the requesting user; a recording of a camera that no longer exists raises in \<open>Camera.get_by_id\<close>.\<close>

definition protect :: "user \<Rightarrow> pyval \<Rightarrow> bool \<Rightarrow> ('z nvr_scheme, db_id) act" where
  "protect u rid prot s =
     (case py_int rid of
        Inl e \<Rightarrow> (Inl e, s)
      | Inr i \<Rightarrow> (case Recording_get_by_id s i of
          None \<Rightarrow> (Inl RowNotFoundException, s)
        | Some r \<Rightarrow> (case Camera_get_by_id s (rec_camera r) of
            Inl e \<Rightarrow> (Inl e, s)
          | Inr c \<Rightarrow>
              if \<not> has_camera_scope (Some u) (cam_uuid c) ''view'' then (Inl NoPermissionException, s)
              else (Inr (rec_id r),
                    AuditLog_add (Recording_set_protected s (rec_id r) prot) ''recording_protect''
                      (Some (str_of_int (rec_id r))) (Some (u_id u)) (PDict [(''protected'', PBool prot)])))))"

section \<open>One open manual recording per camera\<close>

definition open_manual :: "db_id \<Rightarrow> recording \<Rightarrow> bool" where
  "open_manual cam r \<longleftrightarrow> rec_camera r = cam \<and> rec_reason r = REASON_MANUAL \<and> rec_end r = None \<and> rec_deleted r = None"

definition one_manual :: "'z nvr_scheme \<Rightarrow> bool" where
  "one_manual s \<longleftrightarrow> (\<forall>cam. length (filter (open_manual cam) (n_recordings s)) \<le> 1)"

lemma get_active_manual_None:
  "Recording_get_active_manual s cam = None \<longleftrightarrow> filter (open_manual cam) (n_recordings s) = []"
  unfolding Recording_get_active_manual_def open_manual_def first_row_None ..

lemma one_manual_update:
  assumes "one_manual s" and "\<And>cam r. open_manual cam (f r) \<Longrightarrow> open_manual cam r"
  shows "one_manual (update_recording s i f)"
  unfolding one_manual_def
proof
  fix cam
  have "length (filter (open_manual cam) (n_recordings (update_recording s i f))) \<le> length (filter (open_manual cam) (n_recordings s))"
    using filter_upd_le [of "open_manual cam" f "\<lambda>r. rec_id r = i", OF assms(2)] by (simp add: update_recording_def)
  also have "\<dots> \<le> 1" using assms(1) by (simp add: one_manual_def)
  finally show "length (filter (open_manual cam) (n_recordings (update_recording s i f))) \<le> 1" .
qed

lemma one_manual_cong: "n_recordings s' = n_recordings s \<Longrightarrow> one_manual s' = one_manual s"
  by (simp add: one_manual_def)

lemma mark_reason_recordings [simp]:
  "n_recordings (fold (\<lambda>g s. Segment_mark_reason s (seg_id g) reason) gs s) = n_recordings s"
  by (induction gs arbitrary: s) (simp_all add: Segment_mark_reason_def update_segment_def)

lemma close_manual_recordings:
  "n_recordings (close_manual now r s) = n_recordings (Recording_close s (rec_id r) now)"
  by (simp add: close_manual_def Let_def)

lemma effect_frames [simp]:
  "n_recordings (AuditLog_add s a t u d) = n_recordings s"
  "n_recordings (publish_reconcile s c m) = n_recordings s"
  by (simp_all add: AuditLog_add_def publish_reconcile_def)

lemma close_manual_one: "one_manual s \<Longrightarrow> one_manual (close_manual now r s)"
  unfolding one_manual_cong [OF close_manual_recordings] Recording_close_def
  by (rule one_manual_update) (simp_all add: open_manual_def)

lemma manual_start_one:
  assumes "one_manual s"
  shows "one_manual (snd (manual_start now cam note actor d s))"
proof (cases "Recording_get_active_manual s (cam_id cam) \<noteq> None \<or> (\<exists>e. planned_end now d = Inl e)")
  case True
  then show ?thesis using assms by (auto simp: manual_start_def)
next
  case False
  then obtain pe where pe: "planned_end now d = Inr pe" by (cases "planned_end now d") auto
  have none: "filter (open_manual (cam_id cam)) (n_recordings s) = []" using False get_active_manual_None by blast
  obtain r where "n_recordings (snd (manual_start now cam note actor d s)) = n_recordings s @ [r]" and r: "rec_camera r = cam_id cam"
    using False pe by (simp add: manual_start_def Recording_create_def Let_def)
  then have "length (filter (open_manual c) (n_recordings (snd (manual_start now cam note actor d s)))) \<le> 1" for c
    using assms none r by (cases "c = cam_id cam") (simp_all add: one_manual_def open_manual_def)
  then show ?thesis by (simp add: one_manual_def)
qed

lemma autoclose_one: "one_manual s \<Longrightarrow> one_manual (snd (autoclose_due now s))"
proof -
  have "one_manual (fold (\<lambda>r s. publish_reconcile (close_manual now r s) (Some (rec_camera r)) ''manual_autostop'') rs t)"
    if "one_manual t" for rs and t :: "'a nvr_scheme"
    using that
  proof (induction rs arbitrary: t)
    case (Cons r rs)
    have "one_manual (publish_reconcile (close_manual now r t) (Some (rec_camera r)) ''manual_autostop'')"
      using close_manual_one [OF Cons.prems] by (simp add: one_manual_def)
    then show ?case using Cons.IH by simp
  qed simp
  then show "one_manual s \<Longrightarrow> one_manual (snd (autoclose_due now s))" by (simp add: autoclose_due_def Let_def)
qed

inductive recording_step :: "nvr \<Rightarrow> nvr \<Rightarrow> bool" where
  rs_mode: "recording_step s (snd (set_mode cam mode actor s))"
| rs_start: "recording_step s (snd (manual_start now cam note actor d s))"
| rs_stop: "recording_step s (snd (manual_stop now cam rid actor s))"
| rs_autoclose: "recording_step s (snd (autoclose_due now s))"
| rs_protect: "recording_step s (snd (protect u rid prot s))"

lemma recording_step_one:
  assumes "recording_step s s'" and "one_manual s"
  shows "one_manual s'"
  using assms(1)
proof cases
  case (rs_mode cam mode actor)
  have "n_recordings (StoragePolicy_upsert_for_camera s c u) = n_recordings s" for c u
    by (simp add: StoragePolicy_upsert_for_camera_def update_policy_def Let_def split: option.splits)
  then have "n_recordings s' = n_recordings s" using rs_mode by (simp add: set_mode_def Let_def)
  then show ?thesis using assms(2) one_manual_cong by blast
next
  case (rs_start now cam memo actor d)
  then show ?thesis using manual_start_one [OF assms(2)] by simp
next
  case (rs_stop now cam rid actor)
  have "one_manual (AuditLog_add (publish_reconcile (close_manual now r s) c m) a t u d)" for r c m a t u d
    using close_manual_one [OF assms(2)] by (simp add: one_manual_def)
  then show ?thesis using rs_stop assms(2) by (auto simp: manual_stop_def split: sum.splits option.splits if_splits)
next
  case (rs_autoclose now)
  then show ?thesis using autoclose_one [OF assms(2)] by simp
next
  case (rs_protect u rid prot)
  have "one_manual (AuditLog_add (Recording_set_protected s i prot) a t w d)" for i a t w d
  proof -
    have "one_manual (Recording_set_protected s i prot)"
      unfolding Recording_set_protected_def using assms(2) by (rule one_manual_update) (simp add: open_manual_def)
    then show ?thesis by (simp add: one_manual_def)
  qed
  then show ?thesis using rs_protect assms(2) by (auto simp: protect_def split: sum.splits option.splits if_splits)
qed

lemma autoclose_recordings:
  "n_recordings (snd (autoclose_due now s)) =
     map (\<lambda>r. if rec_id r \<in> rec_id ` set (Recording_due_manual s now 200) then r\<lparr>rec_end := Some now\<rparr> else r) (n_recordings s)"
proof -
  have "n_recordings (fold (\<lambda>r s. publish_reconcile (close_manual now r s) (Some (rec_camera r)) ''manual_autostop'') rs t)
      = map (\<lambda>r. if rec_id r \<in> rec_id ` set rs then r\<lparr>rec_end := Some now\<rparr> else r) (n_recordings t)" for rs and t :: "'a nvr_scheme"
  proof (induction rs arbitrary: t)
    case (Cons r rs)
    show ?case
      unfolding fold_simps comp_apply Cons.IH effect_frames close_manual_recordings
      by (auto simp: Recording_close_def update_recording_def)
  qed simp
  then show ?thesis by (simp add: autoclose_due_def Let_def)
qed

text \<open>A manual recording whose fixed duration has elapsed.\<close>

definition overdue :: "ts \<Rightarrow> recording \<Rightarrow> bool" where
  "overdue now r \<longleftrightarrow> rec_reason r = REASON_MANUAL \<and> rec_end r = None \<and> rec_deleted r = None
     \<and> (case rec_planned_end r of None \<Rightarrow> False | Some p \<Rightarrow> p \<le> now)"


section \<open>A concrete run\<close>

definition sample_gate :: camera where
  "sample_gate = \<lparr>cam_id = 7, cam_uuid = ''cam7'', cam_name = ''Gate'', cam_enabled = True, cam_deleted = None\<rparr>"

definition sample_room :: nvr where
  "sample_room = \<lparr>n_segments = [], n_recordings = [], n_disks = [], n_policies = [], n_cameras = [sample_gate],
     n_files = [], n_locked = [], n_next_key = 10, n_signals = [], n_audit = []\<rparr>"

definition sample_manual :: nvr where
  "sample_manual = snd (manual_start 1000 sample_gate None (Some 5) (PInt 60) sample_room)"


end
