(* ===== verification/EventAdmin.thy ===== *)
theory EventAdmin
  imports Events Playback Users
begin

text \<open>
  Administration of events: the schedule, policy and event controllers (\<open>server/controller/schedule.py\<close>,
  \<open>event_policy.py\<close>, \<open>event.py\<close>) with the table operations they use. Request bodies are Python values;
  a policy body is the list of the columns it sets, since a column that is absent or \<open>None\<close> is left
  alone.
\<close>

section \<open>Schedule rules\<close>

definition MODE_EVENT :: string where "MODE_EVENT = ''event''"
definition MODES :: "string list" where "MODES = [MODE_CONTINUOUS, MODE_EVENT, MODE_MOTION_ONLY, MODE_OFF]"

text \<open>\<open>int(r[key])\<close> with the exceptions the loop catches as \<open>None\<close>: a missing key, a value of another type, a
  malformed number.\<close>

definition rule_int :: "pydict \<Rightarrow> string \<Rightarrow> int option" where
  "rule_int r k = (case map_of r k of None \<Rightarrow> None | Some v \<Rightarrow> (case py_int v of Inl _ \<Rightarrow> None | Inr i \<Rightarrow> Some i))"

definition split_rule :: "pydict \<Rightarrow> int \<Rightarrow> int \<Rightarrow> int \<Rightarrow> pydict list" where
  "split_rule r dow start stop =
     (if start < stop then [r]
      else [dset (dset r ''start_min'' (PInt start)) ''end_min'' (PInt 1440),
            dset (dset (dset r ''day_of_week'' (PInt ((dow + 1) mod 7))) ''start_min'' (PInt 0)) ''end_min'' (PInt stop)])"

definition validate_rule :: "pyval \<Rightarrow> py_error + pydict list" where
  "validate_rule v =
     (case v of
        PDict r \<Rightarrow>
          (case (rule_int r ''day_of_week'', rule_int r ''start_min'', rule_int r ''end_min'') of
             (Some dow, Some start, Some stop) \<Rightarrow>
               if \<not> (0 \<le> dow \<and> dow \<le> 6) then Inl (InvalidParameterException ''day_of_week must be 0..6'')
               else if \<not> (0 \<le> start \<and> start \<le> 1440 \<and> 0 \<le> stop \<and> stop \<le> 1440 \<and> start \<noteq> stop)
               then Inl (InvalidParameterException ''require start_min/end_min in 0..1440 and start != end'')
               else if \<not> py_in (dget r ''mode'') (map PStr MODES) then Inl (InvalidParameterException ''mode must be one of MODES'')
               else Inr (split_rule r dow start stop)
           | _ \<Rightarrow> Inl (InvalidParameterException ''each rule needs integer day_of_week/start_min/end_min''))
      | _ \<Rightarrow> Inl (InvalidParameterException ''each rule needs integer day_of_week/start_min/end_min''))"

definition validate_rules :: "pyval \<Rightarrow> py_error + pydict list" where
  "validate_rules v =
     (case v of
        PList rs \<Rightarrow> (case mapE validate_rule rs of Inl e \<Rightarrow> Inl e | Inr cs \<Rightarrow> Inr (concat cs))
      | _ \<Rightarrow> Inl (InvalidParameterException ''rules must be a list''))"

text \<open>The row a cleaned rule becomes; \<open>int(rule.get('priority', 0))\<close> may raise.\<close>

definition schedule_row :: "db_id \<Rightarrow> pydict \<Rightarrow> py_error + schedule" where
  "schedule_row cam r =
     (case py_int (dget_or r ''priority'' (PInt 0)) of
        Inl e \<Rightarrow> Inl e
      | Inr prio \<Rightarrow>
          Inr \<lparr>sc_camera = cam,
               sc_day_of_week = (case rule_int r ''day_of_week'' of None \<Rightarrow> 0 | Some i \<Rightarrow> i),
               sc_start_min = (case rule_int r ''start_min'' of None \<Rightarrow> 0 | Some i \<Rightarrow> i),
               sc_end_min = (case rule_int r ''end_min'' of None \<Rightarrow> 0 | Some i \<Rightarrow> i),
               sc_mode = (case dget r ''mode'' of PStr m \<Rightarrow> m | _ \<Rightarrow> []),
               sc_priority = prio, sc_enabled = True, sc_deleted = None\<rparr>)"

text \<open>\<open>Schedule.replace_for_camera\<close>: one transaction, so a failing rule leaves the old rows.\<close>

definition replace_for_camera :: "ts \<Rightarrow> db_id \<Rightarrow> pydict list \<Rightarrow> ('r ev_state, schedule list) act" where
  "replace_for_camera now cam rules s =
     (case mapE (schedule_row cam) rules of
        Inl e \<Rightarrow> (Inl e, s)
      | Inr rows \<Rightarrow>
          (Inr rows,
           s\<lparr>es_schedules := map (\<lambda>r. if sc_camera r = cam \<and> sc_deleted r = None then r\<lparr>sc_deleted := Some now\<rparr> else r) (es_schedules s)
               @ rows\<rparr>))"

definition get_for_camera_all :: "'r ev_state \<Rightarrow> db_id \<Rightarrow> schedule list" where
  "get_for_camera_all s cam = filter (\<lambda>r. sc_camera r = cam \<and> sc_deleted r = None \<and> sc_enabled r) (es_schedules s)"

definition get_schedule :: "string \<Rightarrow> 'r ev_state \<Rightarrow> py_error + schedule list" where
  "get_schedule uuid s = (case Camera_get_by_uuid s uuid of Inl e \<Rightarrow> Inl e | Inr c \<Rightarrow> Inr (get_for_camera_all s (cam_id c)))"

definition replace_schedule :: "ts \<Rightarrow> string \<Rightarrow> pyval \<Rightarrow> ('r ev_state, schedule list) act" where
  "replace_schedule now uuid rules s =
     (case Camera_get_by_uuid s uuid of
        Inl e \<Rightarrow> (Inl e, s)
      | Inr c \<Rightarrow> (case validate_rules rules of
          Inl e \<Rightarrow> (Inl e, s)
        | Inr clean \<Rightarrow> replace_for_camera now (cam_id c) clean s))"

text \<open>\<open>apply_group\<close>: cameras that do not exist or are out of the user's scope are skipped; a rule that raises
  stops the loop with the cameras before it already replaced.\<close>

fun apply_cameras :: "ts \<Rightarrow> user \<Rightarrow> pydict list \<Rightarrow> string list \<Rightarrow> nat \<Rightarrow> ('r ev_state, nat) act" where
  "apply_cameras now u clean [] applied s = (Inr applied, s)"
| "apply_cameras now u clean (cu # cus) applied s =
     (case Camera_get_by_uuid s cu of
        Inl _ \<Rightarrow> apply_cameras now u clean cus applied s
      | Inr c \<Rightarrow>
          if \<not> has_camera_scope (Some u) cu ''view'' then apply_cameras now u clean cus applied s
          else (case replace_for_camera now (cam_id c) clean s of
                  (Inl e, s1) \<Rightarrow> (Inl e, s1)
                | (Inr _, s1) \<Rightarrow> apply_cameras now u clean cus (applied + 1) s1))"

definition apply_group :: "ts \<Rightarrow> string \<Rightarrow> user \<Rightarrow> pyval \<Rightarrow> string list \<Rightarrow> ('r ev_state, nat) act" where
  "apply_group now grp u rules uuids s =
     (case validate_rules rules of
        Inl e \<Rightarrow> (Inl e, s)
      | Inr clean \<Rightarrow> apply_cameras now u (map (\<lambda>r. dset r ''group_uuid'' (PStr grp)) clean) uuids 0 s)"

section \<open>Policies\<close>

definition ACTIONS :: "string list" where "ACTIONS = [ACTION_RECORD, ACTION_DISCARD, ACTION_TIMELAPSE, ACTION_NOTIFY_ONLY]"

datatype ep_field =
    EpCameraUuid string
  | EpCameraId db_id
  | EpEventType string
  | EpSubtype string
  | EpAction string
  | EpPreBuffer int
  | EpPostBuffer int
  | EpCooldown int
  | EpMinScore int
  | EpRetentionClass string
  | EpNotify bool
  | EpEnabled bool

fun set_ep_field :: "ep_field \<Rightarrow> event_policy \<Rightarrow> event_policy" where
  "set_ep_field (EpCameraUuid u) p = p"
| "set_ep_field (EpCameraId c) p = p\<lparr>ep_camera := Some c\<rparr>"
| "set_ep_field (EpEventType t) p = p\<lparr>ep_event_type := t\<rparr>"
| "set_ep_field (EpSubtype t) p = p\<lparr>ep_subtype := Some t\<rparr>"
| "set_ep_field (EpAction a) p = p\<lparr>ep_action := a\<rparr>"
| "set_ep_field (EpPreBuffer n) p = p\<lparr>ep_pre_buffer_s := n\<rparr>"
| "set_ep_field (EpPostBuffer n) p = p\<lparr>ep_post_buffer_s := n\<rparr>"
| "set_ep_field (EpCooldown n) p = p\<lparr>ep_cooldown_s := n\<rparr>"
| "set_ep_field (EpMinScore n) p = p\<lparr>ep_min_score := Some n\<rparr>"
| "set_ep_field (EpRetentionClass c) p = p\<lparr>ep_retention_class := Some c\<rparr>"
| "set_ep_field (EpNotify b) p = p\<lparr>ep_notify := b\<rparr>"
| "set_ep_field (EpEnabled b) p = p\<lparr>ep_enabled := b\<rparr>"

definition body_action :: "ep_field list \<Rightarrow> string option" where
  "body_action d = first_row (List.map_filter (\<lambda>f. case f of EpAction a \<Rightarrow> Some a | _ \<Rightarrow> None) d)"

definition body_event_type :: "ep_field list \<Rightarrow> string option" where
  "body_event_type d = first_row (List.map_filter (\<lambda>f. case f of EpEventType a \<Rightarrow> Some a | _ \<Rightarrow> None) d)"

definition body_camera_uuid :: "ep_field list \<Rightarrow> string option" where
  "body_camera_uuid d = first_row (List.map_filter (\<lambda>f. case f of EpCameraUuid a \<Rightarrow> Some a | _ \<Rightarrow> None) d)"

definition validate_policy :: "ep_field list \<Rightarrow> py_error + unit" where
  "validate_policy d =
     (if \<not> (case body_action d of None \<Rightarrow> False | Some a \<Rightarrow> a \<in> set ACTIONS)
      then Inl (InvalidParameterException ''action must be one of ACTIONS'')
      else if \<not> given (body_event_type d) then Inl (InvalidParameterException ''event_type required'')
      else Inr ())"

definition EventPolicy_get_by_id :: "'r ev_state \<Rightarrow> db_id \<Rightarrow> event_policy option" where
  "EventPolicy_get_by_id s i = first_row (filter (\<lambda>p. ep_id p = i \<and> ep_deleted p = None) (es_policies s))"

text \<open>\<open>list_for\<close>: the global policies first, then by event type.\<close>

definition list_for :: "'r ev_state \<Rightarrow> db_id option \<Rightarrow> event_policy list" where
  "list_for s cam =
     (let rows = filter (\<lambda>p. ep_deleted p = None
                   \<and> (case cam of None \<Rightarrow> True | Some c \<Rightarrow> ep_camera p = Some c \<or> ep_camera p = None)) (es_policies s)
      in sort_key ep_event_type (filter (\<lambda>p. ep_camera p = None) rows)
         @ sort_key ep_event_type (filter (\<lambda>p. ep_camera p \<noteq> None) rows))"

definition new_policy :: "db_id \<Rightarrow> event_policy" where
  "new_policy i = \<lparr>ep_id = i, ep_camera = None, ep_event_type = [], ep_subtype = None, ep_action = [], ep_pre_buffer_s = 5,
     ep_post_buffer_s = 10, ep_cooldown_s = 10, ep_min_score = None, ep_retention_class = None, ep_notify = True,
     ep_enabled = True, ep_deleted = None\<rparr>"

definition EventPolicy_create :: "ep_field list \<Rightarrow> 'r ev_state \<Rightarrow> event_policy \<times> 'r ev_state" where
  "EventPolicy_create d s =
     (let p = fold set_ep_field d (new_policy (n_next_key s))
      in (p, s\<lparr>es_policies := es_policies s @ [p], n_next_key := n_next_key s + 1\<rparr>))"

definition update_ep :: "db_id \<Rightarrow> (event_policy \<Rightarrow> event_policy) \<Rightarrow> 'r ev_state \<Rightarrow> 'r ev_state" where
  "update_ep i f s = s\<lparr>es_policies := map (\<lambda>p. if ep_id p = i then f p else p) (es_policies s)\<rparr>"

definition create_policy :: "ep_field list \<Rightarrow> ('r ev_state, event_policy) act" where
  "create_policy d s =
     (case validate_policy d of
        Inl e \<Rightarrow> (Inl e, s)
      | Inr () \<Rightarrow>
          (case body_camera_uuid d of
             None \<Rightarrow> (case EventPolicy_create d s of (p, s1) \<Rightarrow> (Inr p, s1))
           | Some u \<Rightarrow>
               if u = [] then (case EventPolicy_create d s of (p, s1) \<Rightarrow> (Inr p, s1))
               else (case Camera_get_by_uuid s u of
                       Inl e \<Rightarrow> (Inl e, s)
                     | Inr c \<Rightarrow> (case EventPolicy_create (d @ [EpCameraId (cam_id c)]) s of (p, s1) \<Rightarrow> (Inr p, s1)))))"

definition update_policy_row :: "db_id \<Rightarrow> ep_field list \<Rightarrow> ('r ev_state, unit) act" where
  "update_policy_row i d s =
     (case EventPolicy_get_by_id s i of
        None \<Rightarrow> (Inl RowNotFoundException, s)
      | Some p \<Rightarrow>
          (case (if given (body_action d) then validate_policy d else Inr ()) of
             Inl e \<Rightarrow> (Inl e, s)
           | Inr () \<Rightarrow> (Inr (), update_ep i (fold set_ep_field d) s)))"

definition delete_policy :: "ts \<Rightarrow> db_id \<Rightarrow> ('r ev_state, unit) act" where
  "delete_policy now i s =
     (case EventPolicy_get_by_id s i of
        None \<Rightarrow> (Inl RowNotFoundException, s)
      | Some p \<Rightarrow> (Inr (), update_ep i (\<lambda>p. p\<lparr>ep_deleted := Some now\<rparr>) s))"

record preview =
  pv_action :: string
  pv_buffers :: "(int \<times> int) option"
  pv_schedule_mode :: string
  pv_source :: "string option"

definition resolve_preview :: "'r ev_env \<Rightarrow> db_id \<Rightarrow> string \<Rightarrow> string option \<Rightarrow> ts \<Rightarrow> 'r ev_state \<Rightarrow> preview" where
  "resolve_preview E cam typ subtype at_ts s =
     (let m = schedule_mode E s cam at_ts
      in case resolve s cam typ subtype of
           None \<Rightarrow> \<lparr>pv_action = ''discard'', pv_buffers = None, pv_schedule_mode = m, pv_source = None\<rparr>
         | Some p \<Rightarrow> \<lparr>pv_action = combine (ep_action p) m typ, pv_buffers = Some (ep_pre_buffer_s p, ep_post_buffer_s p),
                      pv_schedule_mode = m, pv_source = Some (if truthy (ep_camera p) then ''camera'' else ''global'')\<rparr>)"

section \<open>Events\<close>

text \<open>The keys of the merged scope map, and the cameras \<open>list_events\<close> may show (\<open>None\<close> for all).\<close>

definition scope_keys :: "user \<Rightarrow> string \<Rightarrow> string list" where
  "scope_keys u key =
     remdups (concat (map (\<lambda>src. case map_of src key of Some (Scope sc) \<Rightarrow> map fst sc | _ \<Rightarrow> []) (permission_sources u)))"

definition may_view :: "string list option \<Rightarrow> bool" where
  "may_view acts = (case acts of None \<Rightarrow> False | Some as \<Rightarrow> ''view'' \<in> set as \<or> ''*'' \<in> set as)"

definition allowed_camera_ids :: "user \<Rightarrow> 'z nvr_scheme \<Rightarrow> db_id list option" where
  "allowed_camera_ids u db =
     (if is_superuser (Some u) then None
      else let scope = merged_scope u ''camera_scope''
           in if may_view (scope ''*'') then None
              else Some (remdups (List.map_filter
                     (\<lambda>k. if k = ''*'' \<or> \<not> may_view (scope k) then None
                          else case Camera_get_by_uuid db k of Inl _ \<Rightarrow> None | Inr c \<Rightarrow> Some (cam_id c))
                     (scope_keys u ''camera_scope''))))"

record event_query =
  eq_cameras :: "db_id list"
  eq_types :: "string list"
  eq_subtype :: "string option"
  eq_start :: "ts option"
  eq_end :: "ts option"
  eq_min_score :: "int option"
  eq_has_recording :: "bool option"
  eq_state :: "int option"
  eq_page :: int
  eq_items :: int
  eq_asc :: bool

text \<open>A row passes an optional condition when it is not asked for; a missing score fails every bound.\<close>

definition event_matches :: "event_query \<Rightarrow> event \<Rightarrow> bool" where
  "event_matches q e \<longleftrightarrow>
     ev_deleted e = None
   \<and> (eq_cameras q = [] \<or> ev_camera e \<in> set (eq_cameras q))
   \<and> (eq_types q = [] \<or> ev_type e \<in> set (eq_types q))
   \<and> (\<not> given (eq_subtype q) \<or> ev_subtype e = eq_subtype q)
   \<and> (case eq_start q of None \<Rightarrow> True | Some t \<Rightarrow> t \<le> ev_start e)
   \<and> (case eq_end q of None \<Rightarrow> True | Some t \<Rightarrow> ev_start e \<le> t)
   \<and> (case eq_min_score q of None \<Rightarrow> True | Some m \<Rightarrow> (case ev_score e of None \<Rightarrow> False | Some x \<Rightarrow> m \<le> x))
   \<and> (case eq_has_recording q of None \<Rightarrow> True | Some b \<Rightarrow> b = (ev_recording_id e \<noteq> None))
   \<and> (case eq_state q of None \<Rightarrow> True | Some x \<Rightarrow> ev_state e = x)"

definition Event_get_list :: "event_query \<Rightarrow> 'r ev_state \<Rightarrow> nat \<times> event list" where
  "Event_get_list q s =
     (let rows = filter (event_matches q) (es_events s);
          sorted_rows = (if eq_asc q then sort_key ev_start rows else sort_key (\<lambda>e. - ev_start e) rows)
      in (length rows, take (nat (eq_items q)) (drop (nat ((eq_page q - 1) * eq_items q)) sorted_rows)))"

definition get_markers :: "'r ev_state \<Rightarrow> db_id \<Rightarrow> ts \<Rightarrow> ts \<Rightarrow> string list \<Rightarrow> event list" where
  "get_markers s cam start stop types =
     sort_key ev_start (filter (\<lambda>e. ev_camera e = cam \<and> ev_deleted e = None \<and> start \<le> ev_start e \<and> ev_start e \<le> stop
       \<and> (types = [] \<or> ev_type e \<in> set types)) (es_events s))"

text \<open>\<open>list_events\<close>; the page size is clamped to 1..200 and the page to at least 1.\<close>

definition list_events :: "user \<Rightarrow> event_query \<Rightarrow> 'r ev_state \<Rightarrow> nat \<times> event list" where
  "list_events u q s =
     (let q1 = q\<lparr>eq_page := max 1 (eq_page q), eq_items := min 200 (max 1 (eq_items q))\<rparr>
      in case allowed_camera_ids u s of
           None \<Rightarrow> Event_get_list q1 s
         | Some allowed \<Rightarrow>
             (let cams = (if eq_cameras q = [] then allowed else filter (\<lambda>c. c \<in> set allowed) (remdups (eq_cameras q)))
              in if cams = [] then (0, []) else Event_get_list (q1\<lparr>eq_cameras := cams\<rparr>) s))"

definition scoped_event :: "user \<Rightarrow> db_id \<Rightarrow> 'r ev_state \<Rightarrow> py_error + event" where
  "scoped_event u i s =
     (case Event_get_by_id s i of
        None \<Rightarrow> Inl RowNotFoundException
      | Some e \<Rightarrow> (case Camera_get_by_id s (ev_camera e) of
          Inl err \<Rightarrow> Inl err
        | Inr c \<Rightarrow> if has_camera_scope (Some u) (cam_uuid c) ''view'' then Inr e else Inl NoPermissionException))"

definition event_timeline :: "user \<Rightarrow> string \<Rightarrow> ts \<Rightarrow> ts \<Rightarrow> string list \<Rightarrow> 'r ev_state \<Rightarrow> py_error + (event list \<times> span list)" where
  "event_timeline u uuid start stop types s =
     (case Camera_get_by_uuid s uuid of
        Inl e \<Rightarrow> Inl e
      | Inr c \<Rightarrow>
          if \<not> has_camera_scope (Some u) (cam_uuid c) ''view'' then Inl NoPermissionException
          else Inr (get_markers s (cam_id c) start stop types, tl_ranges (build_timeline s (cam_id c) start stop)))"

definition save_event :: "user \<Rightarrow> db_id \<Rightarrow> string option \<Rightarrow> ('r ev_state, event) act" where
  "save_event u i cls s =
     (case scoped_event u i s of
        Inl e \<Rightarrow> (Inl e, s)
      | Inr ev \<Rightarrow>
          (Inr ev,
           case ev_recording_id ev of
             None \<Rightarrow> s
           | Some rid \<Rightarrow>
               if rid = 0 then s
               else (case Recording_get_by_id s rid of
                       None \<Rightarrow> s
                     | Some r \<Rightarrow> update_recording s rid
                         (\<lambda>r. r\<lparr>rec_class := (if given cls then the cls else CLASS_PROTECTED)\<rparr>))))"

definition delete_event :: "ts \<Rightarrow> user \<Rightarrow> db_id \<Rightarrow> ('r ev_state, unit) act" where
  "delete_event now u i s =
     (case scoped_event u i s of
        Inl e \<Rightarrow> (Inl e, s)
      | Inr ev \<Rightarrow> (Inr (), Event_soft_delete now (ev_id ev) s))"

text \<open>\<open>simulate\<close>, from the normalised event on: \<open>None\<close> is an event the normaliser does not know.\<close>

definition simulate :: "'r ev_env \<Rightarrow> ts \<Rightarrow> user \<Rightarrow> string \<Rightarrow> string \<Rightarrow> normalized option \<Rightarrow> pyval \<Rightarrow> ('r ev_state, event option) act" where
  "simulate E now u uuid typ no raw s =
     (case Camera_get_by_uuid s uuid of
        Inl e \<Rightarrow> (Inl e, s)
      | Inr c \<Rightarrow>
          if \<not> has_camera_scope (Some u) (cam_uuid c) ''view'' then (Inl NoPermissionException, s)
          else if typ = [] then (Inl (InvalidParameterException ''type required''), s)
          else (case no of
                  None \<Rightarrow> (Inl (InvalidParameterException ''event ignored (unknown type)''), s)
                | Some n \<Rightarrow> (case process E now (cam_id c) n ''manual'' raw s of
                    (None, s1) \<Rightarrow> (Inl (InvalidParameterException ''event ignored (unknown type)''), s1)
                  | (Some i, s1) \<Rightarrow> (Inr (Event_get_by_id s1 i), s1))))"

end
