(* ===== verification/EventAdminProps.thy ===== *)
theory EventAdminProps
  imports EventAdmin
begin

text \<open>
  Properties of event administration: the stored schedule rows mean the weekly windows the user entered,
  and the event list shows events of cameras that the user's own scope denies.
\<close>

section \<open>Weekly windows\<close>

text \<open>The reference: a rule covers a minute of its day, and past midnight a minute of the next day.\<close>

definition rule_covers :: "pydict \<Rightarrow> int \<Rightarrow> int \<Rightarrow> bool" where
  "rule_covers r d m =
     (case (rule_int r ''day_of_week'', rule_int r ''start_min'', rule_int r ''end_min'') of
        (Some dow, Some start, Some stop) \<Rightarrow>
          if start < stop then d = dow \<and> start \<le> m \<and> m < stop
          else (d = dow \<and> start \<le> m) \<or> (d = (dow + 1) mod 7 \<and> m < stop)
      | _ \<Rightarrow> False)"

text \<open>What a rule asks for, and what a row says: mode and priority.\<close>

definition rule_says :: "pydict \<Rightarrow> string \<times> int" where
  "rule_says r = (case dget r ''mode'' of PStr m \<Rightarrow> m | _ \<Rightarrow> [],
                  case py_int (dget_or r ''priority'' (PInt 0)) of Inl _ \<Rightarrow> 0 | Inr p \<Rightarrow> p)"

definition row_says :: "schedule \<Rightarrow> string \<times> int" where
  "row_says r = (sc_mode r, sc_priority r)"

definition row_at :: "int \<Rightarrow> int \<Rightarrow> schedule \<Rightarrow> bool" where
  "row_at d m r \<longleftrightarrow> sc_day_of_week r = d \<and> sc_start_min r \<le> m \<and> m < sc_end_min r"

definition said_by :: "int \<Rightarrow> int \<Rightarrow> pyval \<Rightarrow> (string \<times> int) set" where
  "said_by d m v = (case v of PDict r \<Rightarrow> if rule_covers r d m then {rule_says r} else {} | _ \<Rightarrow> {})"

lemma rule_int_dset [simp]: "rule_int (dset r k (PInt i)) k' = (if k' = k then Some i else rule_int r k')"
  by (simp add: rule_int_def map_of_dset py_int_def)

lemma dget_or_dset [simp]: "dget_or (dset r k v) k' w = (if k' = k then v else dget_or r k' w)"
  by (simp add: dget_or_def map_of_dset)

lemma schedule_row_says:
  assumes "schedule_row cam c = Inr row"
  shows "row_says row = rule_says c" and "sc_camera row = cam" and "sc_enabled row" and "sc_deleted row = None"
    and "rule_int c ''day_of_week'' = Some i \<Longrightarrow> sc_day_of_week row = i"
    and "rule_int c ''start_min'' = Some i \<Longrightarrow> sc_start_min row = i"
    and "rule_int c ''end_min'' = Some i \<Longrightarrow> sc_end_min row = i"
  using assms by (auto simp: schedule_row_def row_says_def rule_says_def split: sum.splits)

lemma validate_ruleD:
  assumes "validate_rule v = Inr cs"
  obtains r dow start stop where "v = PDict r" "cs = split_rule r dow start stop"
    "rule_int r ''day_of_week'' = Some dow" "rule_int r ''start_min'' = Some start" "rule_int r ''end_min'' = Some stop"
    "0 \<le> start" "stop \<le> 1440" "start \<le> 1440"
  using assms by (auto simp: validate_rule_def split: pyval.splits option.splits if_splits)

lemma rule_rows:
  assumes "validate_rule v = Inr cs" and "mapE (schedule_row cam) cs = Inr rows" and "0 \<le> m" "m < 1440"
  shows "row_says ` {row \<in> set rows. row_at d m row} = said_by d m v"
proof -
  obtain r dow start stop where v: "v = PDict r" and cs: "cs = split_rule r dow start stop"
    and ints: "rule_int r ''day_of_week'' = Some dow" "rule_int r ''start_min'' = Some start" "rule_int r ''end_min'' = Some stop"
    using validate_ruleD [OF assms(1)] by metis
  show ?thesis
  proof (cases "start < stop")
    case True
    then obtain row where row: "schedule_row cam r = Inr row" "rows = [row]"
      using assms(2) by (auto simp: cs split_rule_def split: sum.splits)
    note f = schedule_row_says [OF row(1)]
    have "row_at d m row \<longleftrightarrow> rule_covers r d m"
      using True f(5-7) ints by (auto simp: row_at_def rule_covers_def)
    then show ?thesis using row(2) f(1) by (auto simp: said_by_def v)
  next
    case False
    define a where "a = dset (dset r ''start_min'' (PInt start)) ''end_min'' (PInt 1440)"
    define b where "b = dset (dset (dset r ''day_of_week'' (PInt ((dow + 1) mod 7))) ''start_min'' (PInt 0)) ''end_min'' (PInt stop)"
    obtain ra rb where rows: "schedule_row cam a = Inr ra" "schedule_row cam b = Inr rb" "rows = [ra, rb]"
      using assms(2) False by (auto simp: cs split_rule_def a_def b_def split: sum.splits)
    note fa = schedule_row_says [OF rows(1)] and fb = schedule_row_says [OF rows(2)]
    have says: "rule_says a = rule_says r" "rule_says b = rule_says r" by (simp_all add: a_def b_def rule_says_def)
    have "row_at d m ra \<longleftrightarrow> d = dow \<and> start \<le> m"
      using fa(5-7) ints assms(4) by (auto simp: row_at_def a_def)
    moreover have "row_at d m rb \<longleftrightarrow> d = (dow + 1) mod 7 \<and> m < stop"
      using fb(5-7) assms(3) by (auto simp: row_at_def b_def)
    ultimately have "rule_covers r d m \<longleftrightarrow> row_at d m ra \<or> row_at d m rb"
      using False ints by (simp add: rule_covers_def)
    moreover have "row_says ` {row \<in> set [ra, rb]. row_at d m row}
        = (if row_at d m ra then {row_says ra} else {}) \<union> (if row_at d m rb then {row_says rb} else {})" by auto
    ultimately show ?thesis using rows(3) fa(1) fb(1) says by (simp add: said_by_def v)
  qed
qed

lemma mapE_append:
  assumes "mapE f (xs @ ys) = Inr zs"
  obtains as bs where "zs = as @ bs" "mapE f xs = Inr as" "mapE f ys = Inr bs"
proof -
  have "\<exists>as bs. zs = as @ bs \<and> mapE f xs = Inr as \<and> mapE f ys = Inr bs"
    using assms
  proof (induction xs arbitrary: zs)
    case (Cons x xs)
    then obtain y zs' where y: "f x = Inr y" "mapE f (xs @ ys) = Inr zs'" "zs = y # zs'" by (auto split: sum.splits)
    from Cons.IH [OF y(2)] obtain as bs where "zs' = as @ bs" "mapE f xs = Inr as" "mapE f ys = Inr bs" by blast
    then show ?case using y by (intro exI [of _ "y # as"] exI [of _ bs]) simp
  qed simp
  then show ?thesis using that by blast
qed

lemma rules_rows:
  assumes "mapE validate_rule vs = Inr css" and "mapE (schedule_row cam) (concat css) = Inr rows" and "0 \<le> m" "m < 1440"
  shows "row_says ` {row \<in> set rows. row_at d m row} = (\<Union>v \<in> set vs. said_by d m v)"
  using assms(1,2)
proof (induction vs arbitrary: css rows)
  case Nil
  then show ?case by simp
next
  case (Cons v vs)
  then obtain cs css' where cs: "validate_rule v = Inr cs" "mapE validate_rule vs = Inr css'" "css = cs # css'"
    by (auto split: sum.splits)
  have "mapE (schedule_row cam) (cs @ concat css') = Inr rows" using Cons.prems(2) cs(3) by simp
  then obtain as bs where split: "rows = as @ bs" "mapE (schedule_row cam) cs = Inr as" "mapE (schedule_row cam) (concat css') = Inr bs"
    by (rule mapE_append)
  have "{row \<in> set rows. row_at d m row} = {row \<in> set as. row_at d m row} \<union> {row \<in> set bs. row_at d m row}"
    using split(1) by auto
  then show ?case using rule_rows [OF cs(1) split(2) assms(3,4)] Cons.IH [OF cs(2) split(3)] by (simp add: image_Un)
qed

text \<open>C20: the stored rows implement the weekly windows the user entered. After a successful replacement of a
  camera's schedule by a list of rules, at every minute of every day the rows the resolver considers say
  exactly the modes and priorities of the rules whose window covers that minute, where a window whose end
  is not after its start runs past midnight into the next day, Sunday into Monday included. No older rule
  of the camera speaks any more.\<close>

theorem schedule_rows_refine_windows:
  assumes "Camera_get_by_uuid s uuid = Inr c" and "replace_schedule now uuid (PList rules) s = (Inr rows, s')"
    and "0 \<le> m" and "m < 1440"
  shows "row_says ` {r \<in> set (get_for_camera_dow s' (cam_id c) d). sc_start_min r \<le> m \<and> m < sc_end_min r}
       = (\<Union>v \<in> set rules. said_by d m v)"
proof -
  obtain css where css: "mapE validate_rule rules = Inr css"
    and rep: "replace_for_camera now (cam_id c) (concat css) s = (Inr rows, s')"
    using assms(1,2) by (auto simp: replace_schedule_def validate_rules_def split: sum.splits)
  have rows: "mapE (schedule_row (cam_id c)) (concat css) = Inr rows"
    and s': "es_schedules s' = map (\<lambda>r. if sc_camera r = cam_id c \<and> sc_deleted r = None then r\<lparr>sc_deleted := Some now\<rparr> else r) (es_schedules s) @ rows"
    using rep by (auto simp: replace_for_camera_def split: sum.splits)
  have new: "sc_camera r = cam_id c \<and> sc_enabled r \<and> sc_deleted r = None" if "r \<in> set rows" for r
    using mapE_InrD [OF rows] that schedule_row_says(2-4) by (fastforce simp: list_all2_conv_all_nth in_set_conv_nth)
  have "r \<in> set rows" if "r \<in> set (es_schedules s')" "sc_camera r = cam_id c" "sc_deleted r = None" for r
    using that by (auto simp: s' split: if_splits)
  moreover have "r \<in> set (es_schedules s')" if "r \<in> set rows" for r using that by (simp add: s')
  ultimately have "{r \<in> set (get_for_camera_dow s' (cam_id c) d). sc_start_min r \<le> m \<and> m < sc_end_min r} = {r \<in> set rows. row_at d m r}"
    using new by (auto simp: get_for_camera_dow_def row_at_def)
  then show ?thesis using rules_rows [OF css rows assms(3,4)] by simp
qed

section \<open>Who sees which events\<close>

text \<open>The event list ignores a per-camera denial. For a user with a \<open>*\<close> scope that allows viewing and an
  entry that denies one camera, opening an event of that camera is refused, but the event list asks the
  database without a camera filter and returns the events of the denied camera.\<close>

theorem event_list_shows_denied_camera:
  assumes "\<not> is_superuser (Some u)" and "may_view (merged_scope u ''camera_scope'' ''*'')"
    and "merged_scope u ''camera_scope'' (cam_uuid c) = Some as" and "\<not> may_view (Some as)"
    and "Camera_get_by_id s (ev_camera e) = Inr c" and "Event_get_by_id s (ev_id e) = Some e"
    and "event_matches q e" and "eq_page q = 1" and "eq_items q = 200" and "length (es_events s) \<le> 200"
  shows "scoped_event u (ev_id e) s = Inl NoPermissionException \<and> e \<in> set (snd (list_events u q s))"
proof
  have "\<not> has_camera_scope (Some u) (cam_uuid c) ''view''"
    using assms(1,3,4) by (auto simp: has_camera_scope_def may_view_def Let_def split: list.splits)
  then show "scoped_event u (ev_id e) s = Inl NoPermissionException" by (simp add: scoped_event_def assms(5,6))
next
  have mem: "e \<in> set (es_events s)" using assms(6) by (auto simp: Event_get_by_id_def dest!: first_row_SomeD)
  have "allowed_camera_ids u s = None" using assms(1,2) by (simp add: allowed_camera_ids_def)
  moreover have "q\<lparr>eq_page := max 1 (eq_page q), eq_items := min 200 (max 1 (eq_items q))\<rparr> = q" using assms(8,9) by simp
  ultimately have "list_events u q s = Event_get_list q s" by (simp add: list_events_def Let_def)
  moreover have "length (filter (event_matches q) (es_events s)) \<le> 200"
    using assms(10) length_filter_le order_trans by blast
  ultimately show "e \<in> set (snd (list_events u q s))"
    using mem assms(7-9) by (simp add: Event_get_list_def Let_def)
qed

section \<open>Concrete instances\<close>

definition sample_admin_site :: "mem ev_state" where
  "sample_admin_site =
     \<lparr>n_segments = [], n_recordings = [], n_disks = [], n_policies = [],
      n_cameras = [\<lparr>cam_id = 7, cam_uuid = ''cam7'', cam_name = ''Gate'', cam_enabled = True, cam_deleted = None\<rparr>],
      n_files = [], n_locked = [], n_next_key = 100, n_signals = [], n_audit = [],
      es_events = [\<lparr>ev_id = 1, ev_camera = 7, ev_type = ''motion'', ev_subtype = None, ev_state = EV_PULSE, ev_start = 1000, ev_end = None,
         ev_duration_ms = None, ev_score = None, ev_source = ''isapi'', ev_channel = None, ev_region = PNone, ev_recording_id = None,
         ev_policy_action = None, ev_dedup_key = ''k'', ev_vendor_event_id = None, ev_raw = PNone, ev_deleted = None\<rparr>],
      es_policies = [], es_outbox = [], es_schedules = [], es_redis = []\<rparr>"

definition sample_night_rule :: pyval where
  "sample_night_rule = PDict [(''day_of_week'', PInt 6), (''start_min'', PInt 1320), (''end_min'', PInt 360), (''mode'', PStr ''off'')]"

definition sample_replaced :: "mem ev_state" where
  "sample_replaced = snd (replace_schedule 5000 ''cam7'' (PList [sample_night_rule]) sample_admin_site)"

text \<open>Sunday 22:00 to 06:00 still applies on Monday at 01:00.\<close>

theorem schedule_rows_refine_windows_witness:
  "row_says ` {r \<in> set (get_for_camera_dow sample_replaced 7 0). sc_start_min r \<le> 60 \<and> 60 < sc_end_min r} = {(''off'', 0)}"
proof -
  let ?c = "\<lparr>cam_id = 7, cam_uuid = ''cam7'', cam_name = ''Gate'', cam_enabled = True, cam_deleted = None\<rparr>"
  have c: "Camera_get_by_uuid sample_admin_site ''cam7'' = Inr ?c" by code_simp
  have "fst (replace_schedule 5000 ''cam7'' (PList [sample_night_rule]) sample_admin_site)
      = Inr [\<lparr>sc_camera = 7, sc_day_of_week = 6, sc_start_min = 1320, sc_end_min = 1440, sc_mode = ''off'', sc_priority = 0, sc_enabled = True, sc_deleted = None\<rparr>,
             \<lparr>sc_camera = 7, sc_day_of_week = 0, sc_start_min = 0, sc_end_min = 360, sc_mode = ''off'', sc_priority = 0, sc_enabled = True, sc_deleted = None\<rparr>]"
    by code_simp
  then have rep: "replace_schedule 5000 ''cam7'' (PList [sample_night_rule]) sample_admin_site
      = (Inr [\<lparr>sc_camera = 7, sc_day_of_week = 6, sc_start_min = 1320, sc_end_min = 1440, sc_mode = ''off'', sc_priority = 0, sc_enabled = True, sc_deleted = None\<rparr>,
             \<lparr>sc_camera = 7, sc_day_of_week = 0, sc_start_min = 0, sc_end_min = 360, sc_mode = ''off'', sc_priority = 0, sc_enabled = True, sc_deleted = None\<rparr>],
         sample_replaced)" unfolding sample_replaced_def by (metis prod.collapse)
  have "rule_covers [(''day_of_week'', PInt 6), (''start_min'', PInt 1320), (''end_min'', PInt 360), (''mode'', PStr ''off'')] 0 60" by code_simp
  moreover have "rule_says [(''day_of_week'', PInt 6), (''start_min'', PInt 1320), (''end_min'', PInt 360), (''mode'', PStr ''off'')] = (''off'', 0)" by code_simp
  ultimately show ?thesis
    using schedule_rows_refine_windows [OF c rep, of 60 0] by (simp add: said_by_def sample_night_rule_def)
qed

definition sample_denied_user :: user where
  "sample_denied_user = \<lparr>u_id = 5, u_uuid = ''u5'', u_login_id = ''kim'', u_password = [], u_role = None,
     u_permissions = [(''camera_scope'', Scope [(''*'', [''view'']), (''cam7'', [])])], u_is_active = True, u_failed_login_count = 0,
     u_locked_until = None, u_last_login_at = None, u_token_version = 0, u_deleted_at = None\<rparr>"

definition sample_all_events :: event_query where
  "sample_all_events = \<lparr>eq_cameras = [], eq_types = [], eq_subtype = None, eq_start = None, eq_end = None, eq_min_score = None,
     eq_has_recording = None, eq_state = None, eq_page = 1, eq_items = 200, eq_asc = False\<rparr>"

theorem event_list_shows_denied_camera_witness:
  "scoped_event sample_denied_user 1 sample_admin_site = Inl NoPermissionException
   \<and> hd (es_events sample_admin_site) \<in> set (snd (list_events sample_denied_user sample_all_events sample_admin_site))"
proof -
  let ?e = "hd (es_events sample_admin_site)"
  let ?c = "\<lparr>cam_id = 7, cam_uuid = ''cam7'', cam_name = ''Gate'', cam_enabled = True, cam_deleted = None\<rparr>"
  have id: "ev_id ?e = 1" by code_simp
  have "\<not> is_superuser (Some sample_denied_user)" "may_view (merged_scope sample_denied_user ''camera_scope'' ''*'')"
    "merged_scope sample_denied_user ''camera_scope'' (cam_uuid ?c) = Some []" "\<not> may_view (Some [])"
    "Camera_get_by_id sample_admin_site (ev_camera ?e) = Inr ?c" "Event_get_by_id sample_admin_site (ev_id ?e) = Some ?e"
    "event_matches sample_all_events ?e" "eq_page sample_all_events = 1" "eq_items sample_all_events = 200"
    "length (es_events sample_admin_site) \<le> 200" by code_simp+
  from event_list_shows_denied_camera [OF this] show ?thesis unfolding id .
qed

end
