(* ===== verification/Cron.thy ===== *)
theory Cron
  imports PyVal
begin

text \<open>
  The five-field cron matcher, \<open>server/util/cron.py\<close>. A field that does not parse raises \<open>ValueError\<close>
  and the expression matches nothing.
\<close>

section \<open>Splitting\<close>

text \<open>\<open>s.split(c)\<close> for one separator character, and \<open>s.split(c, 1)\<close> once the separator is known to occur.\<close>

fun split_char :: "char \<Rightarrow> string \<Rightarrow> string list" where
  "split_char c [] = [[]]"
| "split_char c (x # xs) =
     (if x = c then [] # split_char c xs
      else case split_char c xs of [] \<Rightarrow> [[x]] | p # ps \<Rightarrow> (x # p) # ps)"

definition split_once :: "char \<Rightarrow> string \<Rightarrow> string \<times> string" where
  "split_once c s = (takeWhile (\<lambda>x. x \<noteq> c) s, tl (dropWhile (\<lambda>x. x \<noteq> c) s))"

text \<open>\<open>s.split()\<close>: runs of white space separate, and no word is empty.\<close>

definition split_words :: "string \<Rightarrow> string list" where
  "split_words s = filter (\<lambda>w. w \<noteq> []) (split_char CHR '' '' (map (\<lambda>c. if is_space c then CHR '' '' else c) s))"

section \<open>Fields\<close>

text \<open>\<open>range(start, stop, step)\<close>; a zero step raises.\<close>

definition py_range :: "int \<Rightarrow> int \<Rightarrow> int \<Rightarrow> int list" where
  "py_range start stop step =
     (if step > 0 then map (\<lambda>i. start + int i * step) [0..<nat ((stop - start + step - 1) div step)]
      else if step < 0 then map (\<lambda>i. start + int i * step) [0..<nat ((start - stop - step - 1) div (- step))]
      else [])"

definition field_part :: "int \<Rightarrow> int \<Rightarrow> string \<Rightarrow> int list option" where
  "field_part lo hi part =
     (let (part, step) = (if CHR ''/'' \<in> set part
                          then (case split_once CHR ''/'' part of (p, st) \<Rightarrow> (p, int_of_string st))
                          else (part, Some 1));
          bounds = (if part = ''*'' then Some (lo, hi)
                    else if CHR ''-'' \<in> set part
                    then (case split_once CHR ''-'' part of (a, b) \<Rightarrow>
                            (case (int_of_string a, int_of_string b) of (Some x, Some y) \<Rightarrow> Some (x, y) | _ \<Rightarrow> None))
                    else (case int_of_string part of None \<Rightarrow> None | Some x \<Rightarrow> Some (x, x)))
      in case (step, bounds) of
           (Some k, Some (a, b)) \<Rightarrow> if k = 0 then None else Some (py_range a (b + 1) k)
         | _ \<Rightarrow> None)"

fun field_parts :: "int \<Rightarrow> int \<Rightarrow> string list \<Rightarrow> int list option" where
  "field_parts lo hi [] = Some []"
| "field_parts lo hi (p # ps) =
     (case field_part lo hi p of
        None \<Rightarrow> None
      | Some xs \<Rightarrow> (case field_parts lo hi ps of None \<Rightarrow> None | Some ys \<Rightarrow> Some (xs @ ys)))"

definition field_set :: "string \<Rightarrow> int \<Rightarrow> int \<Rightarrow> int list option" where
  "field_set field lo hi = field_parts lo hi (split_char CHR '','' field)"

section \<open>Matching\<close>

record datetime =
  dt_minute :: int
  dt_hour :: int
  dt_day :: int
  dt_month :: int
  dt_isoweekday :: int

definition RANGES :: "(int \<times> int) list" where
  "RANGES = [(0, 59), (0, 23), (1, 31), (1, 12), (0, 7)]"

text \<open>The loop over the fields; the last one is the day of the week, where 7 is Sunday too.\<close>

fun match_fields :: "string list \<Rightarrow> (int \<times> int) list \<Rightarrow> int list \<Rightarrow> bool option" where
  "match_fields (f # fs) ((lo, hi) # rs) (v # vs) =
     (case field_set f lo hi of
        None \<Rightarrow> None
      | Some allowed \<Rightarrow>
          (let allowed = (if rs = [] \<and> 7 \<in> set allowed then 0 # allowed else allowed)
           in if v \<in> set allowed then match_fields fs rs vs else Some False))"
| "match_fields _ _ _ = Some True"

definition cron_match :: "string \<Rightarrow> datetime \<Rightarrow> bool" where
  "cron_match expr dt =
     (let fields = split_words expr
      in if length fields \<noteq> 5 then False
         else match_fields fields RANGES [dt_minute dt, dt_hour dt, dt_day dt, dt_month dt, dt_isoweekday dt mod 7] = Some True)"

section \<open>Facts\<close>

lemma py_range_one: "set (py_range a (b + 1) 1) = {a..b}"
proof -
  have "py_range a (b + 1) 1 = map (\<lambda>i. a + int i) [0..<nat (b + 1 - a)]" by (simp add: py_range_def algebra_simps)
  then have eq: "set (py_range a (b + 1) 1) = (\<lambda>i. a + int i) ` {0..<nat (b + 1 - a)}" by simp
  show ?thesis
  proof
    show "set (py_range a (b + 1) 1) \<subseteq> {a..b}" unfolding eq by auto
    show "{a..b} \<subseteq> set (py_range a (b + 1) 1)"
    proof
      fix x assume "x \<in> {a..b}"
      then have "x = a + int (nat (x - a))" "nat (x - a) \<in> {0..<nat (b + 1 - a)}" by auto
      then show "x \<in> set (py_range a (b + 1) 1)" unfolding eq by blast
    qed
  qed
qed

text \<open>A star field allows every value of its range.\<close>

lemma star_field: "\<exists>xs. field_set ''*'' lo hi = Some xs \<and> set xs = {lo..hi}"
  using py_range_one [of lo hi] by (simp add: field_set_def field_part_def Let_def)

end
