(* ===== verification/FlowEngine.thy ===== *)
theory FlowEngine
  imports Recordings Events FeatureFlags Cron
begin

text \<open>
  The automation flows: \<open>server/model/flow.py\<close> and \<open>flow_run.py\<close>, \<open>server/service/flow_engine.py\<close>,
  \<open>clause.py\<close>, \<open>trigger_router.py\<close> and \<open>action_runner.py\<close>, \<open>server/controller/flow.py\<close> and the outbox
  consumer.

  A graph is the JSON value of the editor. The drivers the actions call (webhook, mail, SMS, speaker, IO,
  push) are outside the model: a call is recorded in the state and its answer is given by the parameter
  \<open>fe_driver\<close>. Doubles are exact rationals; \<open>float()\<close> of a string, \<open>repr\<close> of a float and \<open>json.dumps\<close>
  are parameters. A run reads the clock once, so durations are not part of the result rows.
\<close>

section \<open>State\<close>

definition NODE_TRIGGER :: string where "NODE_TRIGGER = ''trigger''"
definition NODE_CONDITION :: string where "NODE_CONDITION = ''condition''"
definition NODE_DELAY :: string where "NODE_DELAY = ''delay''"
definition ACTION_NODE_TYPES :: "string list" where
  "ACTION_NODE_TYPES = [''webhook'', ''push'', ''email'', ''sms'', ''record'', ''camera_enable'', ''camera_disable'', ''speaker'', ''io'']"
definition NODE_TYPES :: "string list" where
  "NODE_TYPES = [NODE_TRIGGER, NODE_CONDITION, NODE_DELAY] @ ACTION_NODE_TYPES"

definition NODE_HANDLES :: "string \<Rightarrow> string list" where
  "NODE_HANDLES t = (if t = NODE_TRIGGER then [''out''] else if t = NODE_CONDITION then [''true'', ''false''] else [''ok'', ''err''])"

definition MAX_NODES :: nat where "MAX_NODES = 100"
definition MAX_EDGES :: nat where "MAX_EDGES = 300"
definition MAX_STEPS :: nat where "MAX_STEPS = 100"
definition MAX_DELAY_S :: rat where "MAX_DELAY_S = 60"
definition MAX_TOTAL_DELAY_S :: rat where "MAX_TOTAL_DELAY_S = 120"

record flow =
  fw_id :: db_id
  fw_uuid :: string
  fw_name :: string
  fw_enabled :: bool
  fw_graph :: pyval
  fw_cooldown_s :: int
  fw_incoming_token :: string
  fw_last_run_ts :: "ts option"
  fw_deleted :: "ts option"

record trigger_event =
  tr_trigger_type :: string
  tr_camera_id :: "db_id option"
  tr_type :: "string option"
  tr_subtype :: "string option"
  tr_score :: "int option"
  tr_classes :: "string list"
  tr_zone :: "int option"
  tr_ts :: "ts option"
  tr_event_id :: "db_id option"
  tr_snapshot_path :: "string option"
  tr_region :: pyval
  tr_identity_id :: "int option"
  tr_identity_name :: pyval
  tr_device_id :: pyval
  tr_context :: pyval

record node_result =
  nr_node :: string
  nr_type :: string
  nr_status :: string
  nr_input :: pyval
  nr_output :: pyval
  nr_error :: pyval

record flow_run =
  fr_id :: db_id
  fr_flow :: db_id
  fr_trigger_type :: string
  fr_event :: "db_id option"
  fr_camera :: "db_id option"
  fr_status :: string
  fr_skip_reason :: "string option"
  fr_results :: "node_result list"
  fr_started :: "ts option"
  fr_finished :: "ts option"
  fr_created_at :: ts

record endpoint =
  en_id :: db_id
  en_enabled :: bool
  en_deleted :: "ts option"

record 'r flow_state = "'r ev_state" +
  fs_flows :: "flow list"
  fs_runs :: "flow_run list"
  fs_flags :: flag_state
  fs_webhooks :: "endpoint list"
  fs_targets :: "endpoint list"
  fs_calls :: "(string \<times> pyval) list"
  fs_slept :: rat

record 'r flow_env =
  fe_redis :: "'r redis"
  fe_prefix :: string
  fe_float :: "string \<Rightarrow> rat option"
  fe_repr :: "rat \<Rightarrow> string"
  fe_dumps :: "pyval \<Rightarrow> string"
  fe_driver :: "string \<Rightarrow> pyval \<Rightarrow> nat \<Rightarrow> py_error + pydict"

section \<open>Templates\<close>

text \<open>The regular expression \<open>{{ path }}\<close> at the head of a string: the path and the rest. White space and path
  characters do not overlap, so the greedy match is the only one.\<close>

definition is_path_char :: "char \<Rightarrow> bool" where
  "is_path_char c = (let n = (of_char c :: nat) in
     (48 \<le> n \<and> n \<le> 57) \<or> (65 \<le> n \<and> n \<le> 90) \<or> (97 \<le> n \<and> n \<le> 122) \<or> c \<in> {CHR ''_'', CHR ''.'', CHR ''-''})"

definition tpl_at :: "string \<Rightarrow> (string \<times> string) option" where
  "tpl_at s =
     (if take 2 s \<noteq> ''{{'' then None
      else let s1 = dropWhile is_space (drop 2 s);
               path = takeWhile is_path_char s1;
               s2 = dropWhile is_space (dropWhile is_path_char s1)
           in if path = [] \<or> take 2 s2 \<noteq> ''}}'' then None else Some (path, drop 2 s2))"

lemma length_dropWhile_le': "length (dropWhile P xs) \<le> length xs"
  by (induction xs) auto

lemma tpl_at_shorter: "tpl_at s = Some (p, rest) \<Longrightarrow> length rest < length s"
proof -
  assume a: "tpl_at s = Some (p, rest)"
  define s1 where "s1 = dropWhile is_space (drop 2 s)"
  define s2 where "s2 = dropWhile is_space (dropWhile is_path_char s1)"
  from a have ne: "s \<noteq> []" and r: "rest = drop 2 s2"
    by (auto simp: tpl_at_def Let_def s1_def s2_def split: if_splits)
  have "length s2 \<le> length s1" unfolding s2_def using length_dropWhile_le' order_trans by blast
  also have "length s1 \<le> length (drop 2 s)" unfolding s1_def by (rule length_dropWhile_le')
  finally show "length rest < length s" using ne r by (cases s) auto
qed

text \<open>\<open>_lookup\<close>: follow the dotted path through dicts.\<close>

fun lookup_path :: "string list \<Rightarrow> pyval \<Rightarrow> pyval" where
  "lookup_path [] cur = cur"
| "lookup_path (p # ps) cur = (case cur of PDict d \<Rightarrow> lookup_path ps (dget d p) | _ \<Rightarrow> PNone)"

definition lookup :: "string \<Rightarrow> pydict \<Rightarrow> pyval" where
  "lookup path ctx = lookup_path (split_char CHR ''.'' path) (PDict ctx)"

definition fmt :: "'r flow_env \<Rightarrow> pyval \<Rightarrow> string" where
  "fmt E v = (case v of
       PNone \<Rightarrow> []
     | PBool b \<Rightarrow> (if b then ''True'' else ''False'')
     | PInt i \<Rightarrow> str_of_int i
     | PFloat q \<Rightarrow> fe_repr E q
     | PStr t \<Rightarrow> t
     | _ \<Rightarrow> fe_dumps E v)"

text \<open>\<open>_TPL.sub\<close>: replace every match, left to right.\<close>

function subst_tpl :: "'r flow_env \<Rightarrow> pydict \<Rightarrow> string \<Rightarrow> string" where
  "subst_tpl E ctx s =
     (case s of
        [] \<Rightarrow> []
      | c # cs \<Rightarrow> (case tpl_at s of
          Some (path, rest) \<Rightarrow> fmt E (lookup path ctx) @ subst_tpl E ctx rest
        | None \<Rightarrow> c # subst_tpl E ctx cs))"
  by pat_completeness auto
termination
  by (relation "measure (\<lambda>(E, ctx, s). length s)") (auto dest: tpl_at_shorter)

definition render_str :: "'r flow_env \<Rightarrow> pydict \<Rightarrow> string \<Rightarrow> pyval" where
  "render_str E ctx s =
     (case tpl_at (py_strip s) of
        Some (path, []) \<Rightarrow> lookup path ctx
      | _ \<Rightarrow> PStr (subst_tpl E ctx s))"

fun render :: "'r flow_env \<Rightarrow> pydict \<Rightarrow> pyval \<Rightarrow> pyval"
and render_list :: "'r flow_env \<Rightarrow> pydict \<Rightarrow> pyval list \<Rightarrow> pyval list"
and render_dict :: "'r flow_env \<Rightarrow> pydict \<Rightarrow> (string \<times> pyval) list \<Rightarrow> (string \<times> pyval) list" where
  "render E ctx (PStr s) = render_str E ctx s"
| "render E ctx (PDict d) = PDict (render_dict E ctx d)"
| "render E ctx (PList xs) = PList (render_list E ctx xs)"
| "render E ctx v = v"
| "render_list E ctx [] = []"
| "render_list E ctx (x # xs) = render E ctx x # render_list E ctx xs"
| "render_dict E ctx [] = []"
| "render_dict E ctx ((k, v) # d) = (k, render E ctx v) # render_dict E ctx d"

section \<open>Conditions\<close>

text \<open>\<open>clause._num\<close>: \<open>None\<close> is 0, and \<open>float()\<close> raises on anything that is not a number.\<close>

definition clause_num :: "'r flow_env \<Rightarrow> pyval \<Rightarrow> py_error + rat" where
  "clause_num E v = (case v of
       PNone \<Rightarrow> Inr 0
     | PStr s \<Rightarrow> (case fe_float E s of None \<Rightarrow> Inl (ValueError s) | Some q \<Rightarrow> Inr q)
     | _ \<Rightarrow> (case py_number v of None \<Rightarrow> Inl (TypeError ''float'') | Some q \<Rightarrow> Inr q))"

fun is_substring :: "string \<Rightarrow> string \<Rightarrow> bool" where
  "is_substring p [] = (p = [])"
| "is_substring p (c # cs) = (take (length p) (c # cs) = p \<or> is_substring p cs)"

definition hashable :: "pyval \<Rightarrow> bool" where
  "hashable v = (case v of PList _ \<Rightarrow> False | PDict _ \<Rightarrow> False | _ \<Rightarrow> True)"

text \<open>\<open>a in (b or [])\<close>.\<close>

definition clause_in :: "pyval \<Rightarrow> pyval \<Rightarrow> py_error + bool" where
  "clause_in a b =
     (if \<not> py_truthy b then Inr False
      else case b of
        PList xs \<Rightarrow> Inr (py_in a xs)
      | PStr s \<Rightarrow> (case a of PStr t \<Rightarrow> Inr (is_substring t s) | _ \<Rightarrow> Inl (TypeError ''in''))
      | PDict d \<Rightarrow> if hashable a then Inr (\<exists>k \<in> set (map fst d). a = PStr k) else Inl (TypeError ''unhashable'')
      | _ \<Rightarrow> Inl (TypeError ''in''))"

definition OP_NAMES :: "string list" where
  "OP_NAMES = [''eq'', ''ne'', ''gt'', ''gte'', ''lt'', ''lte'', ''in'', ''not_in'']"

definition compare_num :: "'r flow_env \<Rightarrow> (rat \<Rightarrow> rat \<Rightarrow> bool) \<Rightarrow> pyval \<Rightarrow> pyval \<Rightarrow> py_error + bool" where
  "compare_num E rel a b =
     (case clause_num E a of Inl e \<Rightarrow> Inl e | Inr x \<Rightarrow> (case clause_num E b of Inl e \<Rightarrow> Inl e | Inr y \<Rightarrow> Inr (rel x y)))"

definition apply_op :: "'r flow_env \<Rightarrow> string \<Rightarrow> pyval \<Rightarrow> pyval \<Rightarrow> py_error + bool" where
  "apply_op E op a b =
     (if op = ''eq'' then Inr (py_eq a b)
      else if op = ''ne'' then Inr (\<not> py_eq a b)
      else if op = ''gt'' then compare_num E (\<lambda>x y. x > y) a b
      else if op = ''gte'' then compare_num E (\<lambda>x y. x \<ge> y) a b
      else if op = ''lt'' then compare_num E (\<lambda>x y. x < y) a b
      else if op = ''lte'' then compare_num E (\<lambda>x y. x \<le> y) a b
      else if op = ''in'' then clause_in a b
      else (case clause_in a b of Inl e \<Rightarrow> Inl e | Inr r \<Rightarrow> Inr (\<not> r)))"

text \<open>\<open>OPS.get(clause.get('op'))\<close>: an unhashable operator raises.\<close>

definition op_of :: "pydict \<Rightarrow> py_error + string option" where
  "op_of cl = (case dget cl ''op'' of
       PStr s \<Rightarrow> Inr (if s \<in> set OP_NAMES then Some s else None)
     | v \<Rightarrow> if hashable v then Inr None else Inl (TypeError ''unhashable''))"

definition opt_str :: "string option \<Rightarrow> pyval" where
  "opt_str v = (case v of None \<Rightarrow> PNone | Some s \<Rightarrow> PStr s)"

definition opt_int :: "int option \<Rightarrow> pyval" where
  "opt_int v = (case v of None \<Rightarrow> PNone | Some i \<Rightarrow> PInt i)"

definition clause_field :: "trigger_event \<Rightarrow> string \<Rightarrow> pyval" where
  "clause_field t f =
     (if f = ''score'' then opt_int (tr_score t)
      else if f = ''camera_id'' then opt_int (tr_camera_id t)
      else if f = ''type'' then opt_str (tr_type t)
      else if f = ''subtype'' then opt_str (tr_subtype t)
      else if f = ''object_class'' then (case tr_classes t of [] \<Rightarrow> PNone | c # _ \<Rightarrow> PStr c)
      else if f = ''identity_id'' then opt_int (tr_identity_id t)
      else if f = ''identity'' then tr_identity_name t
      else if f = ''device_id'' then tr_device_id t
      else PNone)"

text \<open>\<open>set(trig.classes or []) & set(value or [])\<close>.\<close>

definition classes_hit :: "string list \<Rightarrow> pyval \<Rightarrow> py_error + bool" where
  "classes_hit classes v =
     (if \<not> py_truthy v then Inr False
      else case v of
        PList xs \<Rightarrow> if list_all hashable xs then Inr (\<exists>c \<in> set classes. PStr c \<in> set xs) else Inl (TypeError ''unhashable'')
      | PStr s \<Rightarrow> Inr (\<exists>c \<in> set classes. c \<in> set (map (\<lambda>x. [x]) s))
      | PDict d \<Rightarrow> Inr (\<exists>c \<in> set classes. c \<in> set (map fst d))
      | _ \<Rightarrow> Inl (TypeError ''set''))"

definition caught :: "py_error + bool \<Rightarrow> py_error + bool" where
  "caught r = (case r of Inl (TypeError _) \<Rightarrow> Inr False | Inl (ValueError _) \<Rightarrow> Inr False | _ \<Rightarrow> r)"

definition match_clause :: "'r flow_env \<Rightarrow> pydict \<Rightarrow> trigger_event \<Rightarrow> py_error + bool" where
  "match_clause E cl t =
     (case op_of cl of
        Inl e \<Rightarrow> Inl e
      | Inr None \<Rightarrow> Inr False
      | Inr (Some op) \<Rightarrow>
          (let field = dget cl ''field''; value = dget cl ''value''
           in if \<not> hashable field then Inl (TypeError ''unhashable'')
              else if field = PStr ''object_class'' \<and> op \<in> {''in'', ''not_in''}
              then (case classes_hit (tr_classes t) value of Inl e \<Rightarrow> Inl e | Inr hit \<Rightarrow> Inr (if op = ''in'' then hit else \<not> hit))
              else caught (apply_op E op (case field of PStr f \<Rightarrow> clause_field t f | _ \<Rightarrow> PNone) value)))"

definition eval_clause :: "'r flow_env \<Rightarrow> trigger_event \<Rightarrow> pyval \<Rightarrow> py_error + bool" where
  "eval_clause E t v =
     (case v of
        PDict cl \<Rightarrow>
          if dhas cl ''left'' \<and> dget cl ''field'' \<in> {PNone, PStr [], PStr ''custom''}
          then (case op_of cl of
                  Inl e \<Rightarrow> Inl e
                | Inr None \<Rightarrow> Inr False
                | Inr (Some op) \<Rightarrow> caught (apply_op E op (dget cl ''left'') (dget cl ''value'')))
          else match_clause E cl t
      | _ \<Rightarrow> Inl (AttributeError ''get''))"

fun any_clause :: "'r flow_env \<Rightarrow> trigger_event \<Rightarrow> pyval list \<Rightarrow> py_error + bool" where
  "any_clause E t [] = Inr False"
| "any_clause E t (c # cs) = (case eval_clause E t c of Inl e \<Rightarrow> Inl e | Inr True \<Rightarrow> Inr True | Inr False \<Rightarrow> any_clause E t cs)"

fun all_clauses :: "'r flow_env \<Rightarrow> trigger_event \<Rightarrow> pyval list \<Rightarrow> py_error + bool" where
  "all_clauses E t [] = Inr True"
| "all_clauses E t (c # cs) = (case eval_clause E t c of Inl e \<Rightarrow> Inl e | Inr False \<Rightarrow> Inr False | Inr True \<Rightarrow> all_clauses E t cs)"

definition eval_condition :: "'r flow_env \<Rightarrow> pydict \<Rightarrow> trigger_event \<Rightarrow> py_error + bool" where
  "eval_condition E cond t =
     (if \<not> py_truthy (dget cond ''clauses'') then Inr True
      else case dget cond ''clauses'' of
        PList cs \<Rightarrow> if dget cond ''mode'' = PStr ''any'' then any_clause E t cs else all_clauses E t cs
      | _ \<Rightarrow> Inl (TypeError ''clauses''))"

end
