(* ===== verification/FlowRuns.thy ===== *)
theory FlowRuns
  imports FlowEngine
begin

text \<open>
  Execution of flows: \<open>action_runner.run\<close>, the node execution and the graph walk of
  \<open>flow_engine.run_flow\<close>, matching and dispatch of triggers, graph validation, the flow controller and the
  outbox consumer.
\<close>

section \<open>Triggers\<close>

definition blank_trigger :: "string \<Rightarrow> trigger_event" where
  "blank_trigger tt = \<lparr>tr_trigger_type = tt, tr_camera_id = None, tr_type = None, tr_subtype = None, tr_score = None, tr_classes = [],
     tr_zone = None, tr_ts = None, tr_event_id = None, tr_snapshot_path = None, tr_region = PNone, tr_identity_id = None,
     tr_identity_name = PNone, tr_device_id = PNone, tr_context = PDict []\<rparr>"

text \<open>\<open>int(identity_id) if str(identity_id or '').isdigit() else None\<close>, for the JSON values \<open>raw\<close> can hold.\<close>

definition identity_of :: "pyval \<Rightarrow> int option" where
  "identity_of v = (case v of
       PInt i \<Rightarrow> if i > 0 then Some i else None
     | PStr s \<Rightarrow> if s \<noteq> [] \<and> list_all is_digit s then int_of_string s else None
     | _ \<Rightarrow> None)"

definition from_outbox :: "outbox_row \<Rightarrow> trigger_event" where
  "from_outbox row =
     (let p = ob_payload row;
          is_object = (ev_type p = ''object'');
          raw = (case ev_raw p of PDict d \<Rightarrow> d | _ \<Rightarrow> [])
      in (blank_trigger (if is_object then ''object'' else ''event''))
           \<lparr>tr_camera_id := (if ob_camera row = 0 then None else Some (ob_camera row)),
            tr_type := Some (ev_type p), tr_subtype := ev_subtype p, tr_score := ev_score p,
            tr_classes := (if is_object \<and> given (ev_subtype p) then [the (ev_subtype p)] else []),
            tr_ts := Some (ev_start p),
            tr_event_id := (if ob_event row = 0 then None else Some (ob_event row)),
            tr_region := ev_region p,
            tr_identity_id := identity_of (dget raw ''identity_id''),
            tr_identity_name := dget raw ''identity''\<rparr>)"

definition from_system_event :: "ts \<Rightarrow> string \<Rightarrow> db_id option \<Rightarrow> pydict \<Rightarrow> trigger_event" where
  "from_system_event now typ cam attrs =
     (blank_trigger ''system_event'')\<lparr>tr_type := Some typ, tr_camera_id := cam, tr_ts := Some now,
        tr_device_id := dget attrs ''device_id'', tr_context := PDict attrs\<rparr>"

definition from_incoming :: "ts \<Rightarrow> pyval \<Rightarrow> pyval \<Rightarrow> trigger_event" where
  "from_incoming now body query =
     (blank_trigger ''incoming_webhook'')\<lparr>tr_type := Some ''incoming_webhook'', tr_ts := Some now,
        tr_context := PDict [(''body'', py_or body (PDict [])), (''query'', py_or query (PDict []))]\<rparr>"

definition from_manual :: "ts \<Rightarrow> db_id option \<Rightarrow> pyval \<Rightarrow> trigger_event" where
  "from_manual now cam context =
     (blank_trigger ''manual'')\<lparr>tr_camera_id := cam, tr_ts := Some now, tr_context := py_or context (PDict [])\<rparr>"

definition from_schedule :: "ts \<Rightarrow> trigger_event" where
  "from_schedule now = (blank_trigger ''schedule'')\<lparr>tr_ts := Some now\<rparr>"

definition id_str :: "int option \<Rightarrow> pyval" where
  "id_str v = (if truthy v then PStr (str_of_int (the v)) else PNone)"

definition event_payload :: "trigger_event \<Rightarrow> pydict" where
  "event_payload t =
     [(''type'', if given (tr_type t) then opt_str (tr_type t) else PStr (tr_trigger_type t)),
      (''trigger_type'', PStr (tr_trigger_type t)),
      (''camera_id'', id_str (tr_camera_id t)),
      (''event_id'', id_str (tr_event_id t)),
      (''subtype'', opt_str (tr_subtype t)), (''score'', opt_int (tr_score t)), (''ts'', opt_int (tr_ts t)),
      (''classes'', PList (map PStr (tr_classes t))), (''region'', tr_region t)]
     @ (if truthy (tr_identity_id t) \<or> py_truthy (tr_identity_name t)
        then [(''identity_id'', id_str (tr_identity_id t)), (''identity'', tr_identity_name t)] else [])
     @ (if py_truthy (tr_context t) then [(''context'', tr_context t)] else [])"

definition trigger_vars :: "trigger_event \<Rightarrow> 'r flow_state \<Rightarrow> pydict" where
  "trigger_vars t s =
     event_payload t
     @ [(''zone'', opt_int (tr_zone t)), (''snapshot_path'', opt_str (tr_snapshot_path t)),
        (''camera_name'',
          if truthy (tr_camera_id t)
          then (case Camera_get_by_id s (the (tr_camera_id t)) of Inl _ \<Rightarrow> PNone | Inr c \<Rightarrow> PStr (cam_name c))
          else PNone)]"

section \<open>Actions\<close>

definition failed :: "string \<Rightarrow> pydict" where
  "failed err = [(''status'', PStr ''failed''), (''error'', PStr err)]"

text \<open>A driver call: recorded, and answered by the parameter.\<close>

definition call_driver :: "'r flow_env \<Rightarrow> string \<Rightarrow> pyval \<Rightarrow> ('r flow_state, pydict) act" where
  "call_driver E name args s =
     (fe_driver E name args (length (fs_calls s)), s\<lparr>fs_calls := fs_calls s @ [(name, args)]\<rparr>)"

text \<open>\<open>Model.get_by_id(target_id)\<close> for an id that the editor sends as a number or as its decimal string.\<close>

definition endpoint_by_id :: "endpoint list \<Rightarrow> pyval \<Rightarrow> endpoint option" where
  "endpoint_by_id es v =
     (if \<not> py_truthy v then None
      else first_row (filter (\<lambda>e. (v = PInt (en_id e) \<or> v = PStr (str_of_int (en_id e))) \<and> en_deleted e = None) es))"

definition usable :: "endpoint option \<Rightarrow> bool" where
  "usable e = (case e of None \<Rightarrow> False | Some x \<Rightarrow> en_enabled x)"

text \<open>\<open>params.get('camera_id') or trig.camera_id\<close>.\<close>

definition camera_param :: "pydict \<Rightarrow> trigger_event \<Rightarrow> pyval" where
  "camera_param params t = py_or (dget params ''camera_id'') (opt_int (tr_camera_id t))"

definition set_camera_enabled :: "pydict \<Rightarrow> trigger_event \<Rightarrow> bool \<Rightarrow> ('r flow_state, pydict) act" where
  "set_camera_enabled params t enable s =
     (let v = camera_param params t
      in if \<not> py_truthy v then (Inr (failed ''no_camera''), s)
         else case py_int v of
           Inl e \<Rightarrow> (Inl e, s)
         | Inr i \<Rightarrow> (case Camera_get_by_id s i of
             Inl e \<Rightarrow> (Inl e, s)
           | Inr c \<Rightarrow>
               (Inr [(''status'', PStr ''success''), (''camera_id'', PStr (str_of_int (cam_id c))), (''enabled'', PBool enable)],
                publish_reconcile (s\<lparr>n_cameras := map (\<lambda>x. if cam_id x = cam_id c then x\<lparr>cam_enabled := enable\<rparr> else x) (n_cameras s)\<rparr>)
                  (Some (cam_id c)) ''enable_change'')))"

definition action_run :: "'r flow_env \<Rightarrow> ts \<Rightarrow> string \<Rightarrow> pydict \<Rightarrow> trigger_event \<Rightarrow> ('r flow_state, pydict) act" where
  "action_run E now atype params t s =
     (let payload = PDict (event_payload t); target = dget params ''target_id'' in
      if atype = ''webhook'' then
        (if py_truthy (dget params ''url'') then call_driver E ''webhook_inline'' (PList [PDict params, payload]) s
         else if \<not> usable (endpoint_by_id (fs_webhooks s) target) then (Inr (failed ''no_webhook''), s)
         else call_driver E ''webhook'' (PList [target, payload]) s)
      else if atype = ''camera_enable'' then set_camera_enabled params t True s
      else if atype = ''camera_disable'' then set_camera_enabled params t False s
      else if atype = ''sms'' then
        (case is_enabled now ''sms_notifications'' False (fs_flags s) of
           (on, fl) \<Rightarrow>
             (let s1 = s\<lparr>fs_flags := fl\<rparr>
              in if \<not> on then (Inr [(''status'', PStr ''skipped''), (''error'', PStr ''sms_disabled'')], s1)
                 else if \<not> py_truthy (dget params ''to'') then (Inr (failed ''no_recipient''), s1)
                 else call_driver E ''sms'' (PList [dget params ''to'', payload]) s1))
      else if atype = ''email'' then
        (if py_truthy (dget params ''to'') then call_driver E ''email_to'' (PList [dget params ''to'', payload]) s
         else if \<not> usable (endpoint_by_id (fs_targets s) target) then (Inr (failed ''no_recipient''), s)
         else call_driver E ''email'' (PList [target, payload]) s)
      else if atype = ''speaker'' \<or> atype = ''io'' then
        (if \<not> usable (endpoint_by_id (fs_targets s) target) then (Inr (failed ''no_target''), s)
         else call_driver E atype (PList [target, PDict params]) s)
      else if atype = ''push'' then call_driver E ''push'' (PList [payload, PDict params]) s
      else (Inr (failed ''unknown_action_type''), s))"

definition error_text :: "py_error \<Rightarrow> string" where
  "error_text e = (case e of
       ValueError m \<Rightarrow> m | TypeError m \<Rightarrow> m | KeyError m \<Rightarrow> m | AttributeError m \<Rightarrow> m
     | InvalidParameterException m \<Rightarrow> m | AuthenticationException m \<Rightarrow> m | TokenReuseException m \<Rightarrow> m
     | AccountLockedException m \<Rightarrow> m | OSError m \<Rightarrow> m | _ \<Rightarrow> [])"

definition record_node :: "ts \<Rightarrow> pydict \<Rightarrow> trigger_event \<Rightarrow> ('r flow_state, pydict) act" where
  "record_node now params t s =
     (let v = camera_param params t
      in if \<not> py_truthy v then (Inr (failed ''no_camera''), s)
         else case py_int v of
           Inl e \<Rightarrow> (Inl e, s)
         | Inr i \<Rightarrow> (case Camera_get_by_id s i of
             Inl e \<Rightarrow> (Inl e, s)
           | Inr c \<Rightarrow> (case py_int (py_or (dget params ''duration_s'') (PInt 60)) of
               Inl e \<Rightarrow> (Inl e, s)
             | Inr d \<Rightarrow> (case manual_start now c (Some ''flow'') None (PInt d) s of
                 (Inl (InvalidParameterException m), s1) \<Rightarrow> (Inr (failed (take 200 m)), s1)
               | (Inl e, s1) \<Rightarrow> (Inl e, s1)
               | (Inr r, s1) \<Rightarrow>
                   (Inr [(''status'', PStr ''success''), (''recording_id'', PStr (str_of_int (rec_id r))),
                         (''start_ts'', PInt (rec_start r)), (''planned_end_ts'', opt_int (rec_planned_end r))], s1)))))"

section \<open>Node execution\<close>

record outcome =
  oc_status :: string
  oc_input :: pyval
  oc_output :: pyval
  oc_error :: pyval
  oc_branches :: "string list"

definition node_type :: "pydict \<Rightarrow> string" where
  "node_type n = (case dget n ''type'' of PStr t \<Rightarrow> t | _ \<Rightarrow> [])"

definition node_id :: "pydict \<Rightarrow> string" where
  "node_id n = (case dget n ''id'' of PStr t \<Rightarrow> t | _ \<Rightarrow> [])"

definition node_data :: "pydict \<Rightarrow> pydict" where
  "node_data n = (case dget n ''data'' of PDict d \<Rightarrow> d | _ \<Rightarrow> [])"

text \<open>\<open>_num\<close>: anything that is not a number is 0.\<close>

definition delay_num :: "'r flow_env \<Rightarrow> pyval \<Rightarrow> rat" where
  "delay_num E v = (case v of
       PStr s \<Rightarrow> (case fe_float E s of None \<Rightarrow> 0 | Some q \<Rightarrow> q)
     | _ \<Rightarrow> (case py_number v of None \<Rightarrow> 0 | Some q \<Rightarrow> q))"

definition delay_secs :: "'r flow_env \<Rightarrow> pydict \<Rightarrow> rat \<Rightarrow> rat" where
  "delay_secs E params budget = max 0 (min (delay_num E (dget params ''seconds'')) (min MAX_DELAY_S budget))"

definition node_params :: "'r flow_env \<Rightarrow> pydict \<Rightarrow> pydict \<Rightarrow> pydict" where
  "node_params E node ctx = filter (\<lambda>kv. fst kv \<noteq> ''label'') (render_dict E ctx (node_data node))"

definition action_outcome :: "pydict \<Rightarrow> pydict \<Rightarrow> outcome" where
  "action_outcome params res =
     (let st = (if py_truthy (dget res ''status'') then (case dget res ''status'' of PStr x \<Rightarrow> x | _ \<Rightarrow> []) else ''failed'')
      in \<lparr>oc_status = st, oc_input = PDict params, oc_output = PDict res, oc_error = dget res ''error'',
          oc_branches = (if st = ''success'' then [''ok''] else [''err''])\<rparr>)"

definition execute :: "'r flow_env \<Rightarrow> ts \<Rightarrow> trigger_event \<Rightarrow> pydict \<Rightarrow> pydict \<Rightarrow> rat \<Rightarrow> 'r flow_state
    \<Rightarrow> (py_error + outcome) \<times> rat \<times> 'r flow_state" where
  "execute E now t node ctx budget s =
     (let ntype = node_type node; params = node_params E node ctx in
      if ntype = NODE_CONDITION then
        (case eval_condition E params t of
           Inl e \<Rightarrow> (Inl e, budget, s)
         | Inr hit \<Rightarrow> (Inr \<lparr>oc_status = ''success'', oc_input = PDict params, oc_output = PDict [(''result'', PBool hit)], oc_error = PNone,
                           oc_branches = [if hit then ''true'' else ''false'']\<rparr>, budget, s))
      else if ntype = NODE_DELAY then
        (let secs = delay_secs E params budget
         in (Inr \<lparr>oc_status = ''success'', oc_input = PDict params, oc_output = PDict [(''slept_s'', PFloat secs)], oc_error = PNone,
                  oc_branches = [''ok'']\<rparr>, budget - secs, s\<lparr>fs_slept := fs_slept s + secs\<rparr>))
      else (case (if ntype = ''record'' then record_node now params t s
                  else if ntype \<in> set ACTION_NODE_TYPES then action_run E now ntype params t s
                  else (Inr (failed ''unknown_node_type''), s)) of
              (Inl e, s1) \<Rightarrow> (Inl e, budget, s1)
            | (Inr res, s1) \<Rightarrow> (Inr (action_outcome params res), budget, s1)))"

section \<open>The walk\<close>

type_synonym 's executor = "pydict \<Rightarrow> pydict \<Rightarrow> rat \<Rightarrow> 's \<Rightarrow> (py_error + outcome) \<times> rat \<times> 's"

type_synonym edges = "(string \<times> string option \<times> string) list"

record 's walk =
  wk_queue :: "string list"
  wk_executed :: "string list"
  wk_results :: "node_result list"
  wk_nodes_ctx :: pydict
  wk_budget :: rat
  wk_state :: 's

definition targets :: "edges \<Rightarrow> string \<Rightarrow> string \<Rightarrow> string \<Rightarrow> string list" where
  "targets out nid handle dflt =
     map (\<lambda>(a, h, b). b) (filter (\<lambda>(a, h, b). a = nid \<and> h = Some handle) out)
   @ (if handle = dflt then map (\<lambda>(a, h, b). b) (filter (\<lambda>(a, h, b). a = nid \<and> h = None) out) else [])"

text \<open>An exception of a node routes to its \<open>err\<close> branch.\<close>

definition outcome_of :: "py_error + outcome \<Rightarrow> outcome" where
  "outcome_of r = (case r of
       Inr oc \<Rightarrow> oc
     | Inl e \<Rightarrow> \<lparr>oc_status = ''failed'', oc_input = PNone, oc_output = PNone, oc_error = PStr (take 200 (error_text e)), oc_branches = [''err'']\<rparr>)"

definition default_handle :: "string \<Rightarrow> string" where
  "default_handle t = (if t = NODE_CONDITION then ''true'' else ''ok'')"

definition visit :: "'s executor \<Rightarrow> pydict \<Rightarrow> edges \<Rightarrow> string \<Rightarrow> pydict \<Rightarrow> 's walk \<Rightarrow> 's walk" where
  "visit exec tvars out nid node w =
     (case exec node [(''trigger'', PDict tvars), (''nodes'', PDict (wk_nodes_ctx w))] (wk_budget w) (wk_state w) of
        (r, b, s) \<Rightarrow>
          (let oc = outcome_of r
           in w\<lparr>wk_queue := wk_queue w @ concat (map (\<lambda>h. targets out nid h (default_handle (node_type node))) (oc_branches oc)),
                wk_executed := wk_executed w @ [nid],
                wk_results := wk_results w @ [\<lparr>nr_node = nid, nr_type = node_type node, nr_status = oc_status oc, nr_input = oc_input oc,
                                               nr_output = oc_output oc, nr_error = oc_error oc\<rparr>],
                wk_nodes_ctx := dset (wk_nodes_ctx w) nid (case oc_output oc of PDict d \<Rightarrow> PDict d | v \<Rightarrow> PDict [(''value'', v)]),
                wk_budget := b, wk_state := s\<rparr>))"

function walk_loop :: "'s executor \<Rightarrow> pydict \<Rightarrow> (string \<Rightarrow> pydict option) \<Rightarrow> edges \<Rightarrow> nat \<Rightarrow> 's walk \<Rightarrow> 's walk" where
  "walk_loop exec tvars nodes out steps w =
     (case wk_queue w of
        [] \<Rightarrow> w
      | nid # q \<Rightarrow>
          if steps \<ge> MAX_STEPS then w
          else (case (if nid \<in> set (wk_executed w) then None else nodes nid) of
                  None \<Rightarrow> walk_loop exec tvars nodes out steps (w\<lparr>wk_queue := q\<rparr>)
                | Some node \<Rightarrow> walk_loop exec tvars nodes out (Suc steps) (visit exec tvars out nid node (w\<lparr>wk_queue := q\<rparr>))))"
  by pat_completeness auto
termination
  by (relation "measures [\<lambda>(exec, tvars, nodes, out, steps, w). MAX_STEPS - steps, \<lambda>(exec, tvars, nodes, out, steps, w). length (wk_queue w)]")
     (auto simp: MAX_STEPS_def)

declare walk_loop.simps [simp del]

text \<open>The trigger nodes the run starts from.\<close>

fun start_walk :: "pydict \<Rightarrow> edges \<Rightarrow> pydict list \<Rightarrow> 's walk \<Rightarrow> 's walk" where
  "start_walk tvars out [] w = w"
| "start_walk tvars out (n # ns) w =
     (if node_id n \<in> set (wk_executed w) then start_walk tvars out ns w
      else start_walk tvars out ns
        (w\<lparr>wk_queue := wk_queue w @ targets out (node_id n) ''out'' ''out'',
           wk_executed := wk_executed w @ [node_id n],
           wk_results := wk_results w @ [\<lparr>nr_node = node_id n, nr_type = NODE_TRIGGER, nr_status = ''success'', nr_input = PNone,
                                          nr_output = PDict tvars, nr_error = PNone\<rparr>]\<rparr>))"

section \<open>Graphs\<close>

text \<open>The members of a stored graph. A graph is stored only after \<open>validate_graph\<close>, so its nodes and edges are
  objects; a member of another shape is skipped here.\<close>

definition dicts_of :: "pyval \<Rightarrow> pydict list" where
  "dicts_of v = (case v of PList xs \<Rightarrow> List.map_filter (\<lambda>x. case x of PDict d \<Rightarrow> Some d | _ \<Rightarrow> None) xs | _ \<Rightarrow> [])"

definition graph_nodes :: "pyval \<Rightarrow> pydict list" where
  "graph_nodes g = (case g of PDict d \<Rightarrow> dicts_of (dget d ''nodes'') | _ \<Rightarrow> [])"

definition graph_edges :: "pyval \<Rightarrow> pydict list" where
  "graph_edges g = (case g of PDict d \<Rightarrow> dicts_of (dget d ''edges'') | _ \<Rightarrow> [])"

definition trigger_nodes :: "pyval \<Rightarrow> pydict list" where
  "trigger_nodes g = filter (\<lambda>n. node_type n = NODE_TRIGGER) (graph_nodes g)"

definition node_table :: "pyval \<Rightarrow> string \<Rightarrow> pydict option" where
  "node_table g = map_of (rev (map (\<lambda>n. (node_id n, n)) (filter (\<lambda>n. node_id n \<noteq> []) (graph_nodes g))))"

definition str_field :: "pydict \<Rightarrow> string \<Rightarrow> string" where
  "str_field e k = (case dget e k of PStr s \<Rightarrow> s | _ \<Rightarrow> [])"

definition out_edges :: "pyval \<Rightarrow> edges" where
  "out_edges g =
     map (\<lambda>e. (str_field e ''source'', if str_field e ''sourceHandle'' = [] then None else Some (str_field e ''sourceHandle''), str_field e ''target''))
       (filter (\<lambda>e. str_field e ''source'' \<noteq> [] \<and> str_field e ''target'' \<noteq> []) (graph_edges g))"

definition walk_graph :: "'s executor \<Rightarrow> pydict \<Rightarrow> pyval \<Rightarrow> pydict list \<Rightarrow> 's \<Rightarrow> 's walk" where
  "walk_graph exec tvars g starts s =
     walk_loop exec tvars (node_table g) (out_edges g) 0
       (start_walk tvars (out_edges g) starts
          \<lparr>wk_queue = [], wk_executed = [], wk_results = [], wk_nodes_ctx = [], wk_budget = MAX_TOTAL_DELAY_S, wk_state = s\<rparr>)"

definition summarize :: "node_result list \<Rightarrow> string" where
  "summarize rs =
     (let st = map nr_status (filter (\<lambda>r. nr_type r \<noteq> NODE_TRIGGER) rs)
      in if list_all (\<lambda>x. x = ''success'') st then ''success''
         else if list_ex (\<lambda>x. x = ''success'') st then ''partial'' else ''failed'')"

definition FlowRun_create :: "ts \<Rightarrow> flow \<Rightarrow> trigger_event \<Rightarrow> string \<Rightarrow> string option \<Rightarrow> ts option \<Rightarrow> 'r flow_state \<Rightarrow> flow_run \<times> 'r flow_state" where
  "FlowRun_create now f t status reason started s =
     (let r = \<lparr>fr_id = n_next_key s, fr_flow = fw_id f, fr_trigger_type = tr_trigger_type t, fr_event = tr_event_id t,
               fr_camera = tr_camera_id t, fr_status = status, fr_skip_reason = reason, fr_results = [], fr_started = started,
               fr_finished = None, fr_created_at = now\<rparr>
      in (r, s\<lparr>fs_runs := fs_runs s @ [r], n_next_key := n_next_key s + 1\<rparr>))"

definition FlowRun_update :: "db_id \<Rightarrow> (flow_run \<Rightarrow> flow_run) \<Rightarrow> 'r flow_state \<Rightarrow> 'r flow_state" where
  "FlowRun_update i f s = s\<lparr>fs_runs := map (\<lambda>r. if fr_id r = i then f r else r) (fs_runs s)\<rparr>"

definition run_flow :: "'r flow_env \<Rightarrow> ts \<Rightarrow> flow \<Rightarrow> trigger_event \<Rightarrow> pydict list option \<Rightarrow> 'r flow_state \<Rightarrow> flow_run \<times> 'r flow_state" where
  "run_flow E now f t start_nodes s =
     (let starts = (case start_nodes of Some ns \<Rightarrow> ns | None \<Rightarrow> trigger_nodes (fw_graph f))
      in case FlowRun_create now f t ''running'' None (Some now) s of
           (run, s1) \<Rightarrow>
             (let s2 = s1\<lparr>fs_flows := map (\<lambda>x. if fw_id x = fw_id f then x\<lparr>fw_last_run_ts := Some now\<rparr> else x) (fs_flows s1)\<rparr>;
                  w = walk_graph (execute E now t) (trigger_vars t s2) (fw_graph f) starts s2;
                  fin = (\<lambda>r. r\<lparr>fr_results := wk_results w, fr_status := summarize (wk_results w), fr_finished := Some now\<rparr>)
              in (fin run, FlowRun_update (fr_id run) fin (wk_state w))))"

section \<open>Dispatch\<close>

definition node_sources :: "pydict \<Rightarrow> pydict list" where
  "node_sources n = dicts_of (dget (node_data n) ''sources'')"

definition int_list :: "pyval \<Rightarrow> int list" where
  "int_list v = (case v of PList xs \<Rightarrow> List.map_filter (\<lambda>x. case py_int x of Inl _ \<Rightarrow> None | Inr i \<Rightarrow> Some i) xs | _ \<Rightarrow> [])"

text \<open>The members of a JSON list, for \<open>in\<close> on a filter the editor stores as a list of strings.\<close>

definition list_items :: "pyval \<Rightarrow> pyval list" where
  "list_items v = (case v of PList xs \<Rightarrow> xs | _ \<Rightarrow> [])"

definition source_matches :: "pydict \<Rightarrow> trigger_event \<Rightarrow> bool" where
  "source_matches src t =
     (let tt = dget src ''trigger_type'' in
      if tt \<notin> set (map PStr [''event'', ''object'', ''system_event'']) then False
      else if py_truthy (dget src ''camera_ids'')
              \<and> (case tr_camera_id t of None \<Rightarrow> True | Some c \<Rightarrow> c \<notin> set (int_list (dget src ''camera_ids''))) then False
      else if tt = PStr ''event'' \<or> tt = PStr ''system_event'' then
        \<not> (py_truthy (dget src ''event_types'') \<and> \<not> py_in (opt_str (tr_type t)) (list_items (dget src ''event_types'')))
      else
        \<not> (py_truthy (dget src ''classes'') \<and> \<not> (\<exists>c \<in> set (tr_classes t). py_in (PStr c) (list_items (dget src ''classes''))))
        \<and> (case dget src ''min_confidence'' of
             PNone \<Rightarrow> True
           | v \<Rightarrow> (case py_number v of None \<Rightarrow> True | Some q \<Rightarrow> q = 0 \<or> q \<le> of_int (case tr_score t of None \<Rightarrow> 0 | Some x \<Rightarrow> x))))"

definition node_matches :: "pydict \<Rightarrow> trigger_event \<Rightarrow> bool" where
  "node_matches n t = list_ex (\<lambda>src. dget src ''trigger_type'' = PStr (tr_trigger_type t) \<and> source_matches src t) (node_sources n)"

definition Flow_active :: "'r flow_state \<Rightarrow> flow list" where
  "Flow_active s = sort_key fw_id (filter (\<lambda>f. fw_deleted f = None \<and> fw_enabled f) (fs_flows s))"

definition flow_cooldown_key :: "'r flow_env \<Rightarrow> flow \<Rightarrow> string" where
  "flow_cooldown_key E f = fe_prefix E @ '':flow:cd:'' @ str_of_int (fw_id f)"

definition flow_within_cooldown :: "'r flow_env \<Rightarrow> flow \<Rightarrow> 'r \<Rightarrow> bool" where
  "flow_within_cooldown E f r =
     (if fw_cooldown_s f = 0 then False
      else case rd_exists (fe_redis E) (flow_cooldown_key E f) r of None \<Rightarrow> False | Some n \<Rightarrow> n = 1)"

definition flow_mark_cooldown :: "'r flow_env \<Rightarrow> flow \<Rightarrow> 'r \<Rightarrow> 'r" where
  "flow_mark_cooldown E f r =
     (if fw_cooldown_s f = 0 then r
      else case rd_setex (fe_redis E) (flow_cooldown_key E f) (fw_cooldown_s f) ''1'' r of None \<Rightarrow> r | Some r' \<Rightarrow> r')"

definition trigger_flow :: "'r flow_env \<Rightarrow> ts \<Rightarrow> trigger_event \<Rightarrow> flow \<Rightarrow> 'r flow_state \<Rightarrow> 'r flow_state" where
  "trigger_flow E now t f s =
     (let starts = filter (\<lambda>n. node_matches n t) (trigger_nodes (fw_graph f))
      in if starts = [] then s
         else if flow_within_cooldown E f (es_redis s)
         then snd (FlowRun_create now f t ''skipped'' (Some ''cooldown'') None s)
         else snd (run_flow E now f t (Some starts) (s\<lparr>es_redis := flow_mark_cooldown E f (es_redis s)\<rparr>)))"

definition on_trigger :: "'r flow_env \<Rightarrow> ts \<Rightarrow> trigger_event \<Rightarrow> 'r flow_state \<Rightarrow> 'r flow_state" where
  "on_trigger E now t s = fold (trigger_flow E now t) (Flow_active s) s"

text \<open>The cron expressions of a trigger node; \<open>if s.get('cron')\<close> keeps the true values, and a value that is not a
  string fails in \<open>cron_match\<close> with \<open>AttributeError\<close>, which it catches.\<close>

definition node_crons :: "pydict \<Rightarrow> string list" where
  "node_crons n = List.map_filter (\<lambda>src. if dget src ''trigger_type'' = PStr ''schedule''
       then (case dget src ''cron'' of PStr c \<Rightarrow> if c = [] then None else Some c | _ \<Rightarrow> None) else None) (node_sources n)"

definition tick_flow :: "'r flow_env \<Rightarrow> ts \<Rightarrow> datetime \<Rightarrow> flow \<Rightarrow> nat \<times> 'r flow_state \<Rightarrow> nat \<times> 'r flow_state" where
  "tick_flow E now dt f ns =
     fold (\<lambda>n (fired, s). if list_ex (\<lambda>c. cron_match c dt) (node_crons n)
             then (fired + 1, snd (run_flow E now f (from_schedule now) (Some [n]) s)) else (fired, s))
       (trigger_nodes (fw_graph f)) ns"

definition tick_schedules :: "'r flow_env \<Rightarrow> ts \<Rightarrow> datetime \<Rightarrow> 'r flow_state \<Rightarrow> nat \<times> 'r flow_state" where
  "tick_schedules E now dt s = fold (tick_flow E now dt) (Flow_active s) (0, s)"

definition incoming_start_nodes :: "flow \<Rightarrow> pydict list" where
  "incoming_start_nodes f =
     filter (\<lambda>n. list_ex (\<lambda>src. dget src ''trigger_type'' = PStr ''incoming_webhook'') (node_sources n)) (trigger_nodes (fw_graph f))"

end
