(* ===== verification/FlowAdmin.thy ===== *)
theory FlowAdmin
  imports FlowRuns
begin

text \<open>
  Saving and driving flows: \<open>flow_engine.validate_graph\<close>, the flow table, \<open>server/controller/flow.py\<close> and the
  outbox consumer \<open>server/task/list/outbox_consumer.py\<close>.
\<close>

section \<open>Graph validation\<close>

definition bad :: "string \<Rightarrow> py_error + 'a" where
  "bad msg = Inl (InvalidParameterException (''graph: '' @ msg))"

text \<open>\<open>v in s\<close> for a set or a dict of strings: an unhashable value raises.\<close>

definition hash_in :: "pyval \<Rightarrow> string list \<Rightarrow> py_error + bool" where
  "hash_in v ss = (if hashable v then Inr (v \<in> set (map PStr ss)) else Inl (TypeError ''unhashable''))"

fun check_clauses :: "pyval list \<Rightarrow> py_error + unit" where
  "check_clauses [] = Inr ()"
| "check_clauses (c # cs) =
     (case c of
        PDict cl \<Rightarrow> (case hash_in (dget cl ''op'') OP_NAMES of
            Inl e \<Rightarrow> Inl e
          | Inr ok \<Rightarrow> if ok then check_clauses cs else bad ''condition clause op must be one of OPS'')
      | _ \<Rightarrow> bad ''condition clause op must be one of OPS'')"

text \<open>\<open>for cl in (n.get('data') or {}).get('clauses') or []\<close>: a string yields characters and a dict keys, which are
  not objects; a number does not iterate.\<close>

definition check_condition :: "pydict \<Rightarrow> py_error + unit" where
  "check_condition n =
     (let v = dget (node_data n) ''clauses''
      in if \<not> py_truthy v then Inr ()
         else case v of
           PList cs \<Rightarrow> check_clauses cs
         | PStr _ \<Rightarrow> bad ''condition clause op must be one of OPS''
         | PDict _ \<Rightarrow> bad ''condition clause op must be one of OPS''
         | _ \<Rightarrow> Inl (TypeError ''not iterable''))"

definition check_node :: "pyval \<Rightarrow> string list \<Rightarrow> py_error + string" where
  "check_node v ids =
     (case v of
        PDict n \<Rightarrow>
          if node_id n = [] then bad ''every node needs a string id''
          else if node_id n \<in> set ids then bad (''duplicate node id '' @ node_id n)
          else if \<not> py_in (dget n ''type'') (map PStr NODE_TYPES) then bad ''unknown node type''
          else if dget n ''data'' \<noteq> PNone \<and> (case dget n ''data'' of PDict _ \<Rightarrow> False | _ \<Rightarrow> True) then bad ''node data must be an object''
          else if node_type n = NODE_CONDITION then (case check_condition n of Inl e \<Rightarrow> Inl e | Inr () \<Rightarrow> Inr (node_id n))
          else Inr (node_id n)
      | _ \<Rightarrow> bad ''every node needs a string id'')"

fun check_nodes :: "pyval list \<Rightarrow> string list \<Rightarrow> py_error + string list" where
  "check_nodes [] ids = Inr ids"
| "check_nodes (v # vs) ids = (case check_node v ids of Inl e \<Rightarrow> Inl e | Inr i \<Rightarrow> check_nodes vs (ids @ [i]))"

text \<open>One edge against the ids and the table of nodes.\<close>

definition check_edge :: "string list \<Rightarrow> (string \<Rightarrow> pydict option) \<Rightarrow> pyval \<Rightarrow> py_error + unit" where
  "check_edge ids by_id v =
     (case v of
        PDict e \<Rightarrow>
          (case hash_in (dget e ''source'') ids of
             Inl err \<Rightarrow> Inl err
           | Inr False \<Rightarrow> bad ''edge references a missing node''
           | Inr True \<Rightarrow> (case hash_in (dget e ''target'') ids of
               Inl err \<Rightarrow> Inl err
             | Inr False \<Rightarrow> bad ''edge references a missing node''
             | Inr True \<Rightarrow>
                 (let typ = (\<lambda>k. case by_id (str_field e k) of None \<Rightarrow> [] | Some n \<Rightarrow> node_type n); h = dget e ''sourceHandle''
                  in if typ ''target'' = NODE_TRIGGER then bad ''a trigger node cannot be an edge target''
                     else if h \<noteq> PNone \<and> \<not> py_in h (map PStr (NODE_HANDLES (typ ''source''))) then bad ''handle not valid for the node''
                     else Inr ())))
      | _ \<Rightarrow> bad ''edge references a missing node'')"

fun check_edges :: "string list \<Rightarrow> (string \<Rightarrow> pydict option) \<Rightarrow> pyval list \<Rightarrow> py_error + unit" where
  "check_edges ids by_id [] = Inr ()"
| "check_edges ids by_id (e # es) = (case check_edge ids by_id e of Inl err \<Rightarrow> Inl err | Inr () \<Rightarrow> check_edges ids by_id es)"

definition validate_graph :: "pyval \<Rightarrow> py_error + unit" where
  "validate_graph g =
     (case g of
        PDict d \<Rightarrow>
          (case (dget d ''nodes'', dget d ''edges'') of
             (PList nodes, PList edges) \<Rightarrow>
               if length nodes > MAX_NODES \<or> length edges > MAX_EDGES then bad ''too large (max 100 nodes / 300 edges)''
               else (case check_nodes nodes [] of
                 Inl e \<Rightarrow> Inl e
               | Inr ids \<Rightarrow>
                   if trigger_nodes g = [] then bad ''needs at least one trigger node''
                   else check_edges ids (node_table g) edges)
           | _ \<Rightarrow> bad ''nodes and edges must be lists'')
      | _ \<Rightarrow> bad ''must be an object with nodes/edges'')"

section \<open>The flow table\<close>

definition Flow_get_by_uuid :: "'r flow_state \<Rightarrow> string \<Rightarrow> flow option" where
  "Flow_get_by_uuid s u = first_row (filter (\<lambda>f. fw_uuid f = u \<and> fw_deleted f = None) (fs_flows s))"

definition Flow_get_by_incoming_token :: "'r flow_state \<Rightarrow> string \<Rightarrow> flow option" where
  "Flow_get_by_incoming_token s tok =
     (if tok = [] then None else first_row (filter (\<lambda>f. fw_incoming_token f = tok \<and> fw_deleted f = None) (fs_flows s)))"

text \<open>The columns a body may set; absent and \<open>None\<close> entries are left alone.\<close>

datatype flow_field = FwName string | FwEnabled bool | FwGraph pyval | FwCooldown int

fun set_flow_field :: "flow_field \<Rightarrow> flow \<Rightarrow> flow" where
  "set_flow_field (FwName n) f = f\<lparr>fw_name := n\<rparr>"
| "set_flow_field (FwEnabled b) f = f\<lparr>fw_enabled := b\<rparr>"
| "set_flow_field (FwGraph g) f = f\<lparr>fw_graph := g\<rparr>"
| "set_flow_field (FwCooldown c) f = f\<lparr>fw_cooldown_s := c\<rparr>"

definition body_name :: "flow_field list \<Rightarrow> string option" where
  "body_name d = first_row (List.map_filter (\<lambda>x. case x of FwName n \<Rightarrow> Some n | _ \<Rightarrow> None) d)"

definition body_graph :: "flow_field list \<Rightarrow> pyval option" where
  "body_graph d = first_row (List.map_filter (\<lambda>x. case x of FwGraph g \<Rightarrow> Some g | _ \<Rightarrow> None) d)"

definition Flow_create :: "string \<Rightarrow> string \<Rightarrow> flow_field list \<Rightarrow> 'r flow_state \<Rightarrow> flow \<times> 'r flow_state" where
  "Flow_create uuid token d s =
     (let f = fold set_flow_field d
            \<lparr>fw_id = n_next_key s, fw_uuid = uuid, fw_name = [], fw_enabled = True, fw_graph = PDict [], fw_cooldown_s = 0,
             fw_incoming_token = token, fw_last_run_ts = None, fw_deleted = None\<rparr>
      in (f, s\<lparr>fs_flows := fs_flows s @ [f], n_next_key := n_next_key s + 1\<rparr>))"

definition update_flow_row :: "db_id \<Rightarrow> (flow \<Rightarrow> flow) \<Rightarrow> 'r flow_state \<Rightarrow> 'r flow_state" where
  "update_flow_row i g s = s\<lparr>fs_flows := map (\<lambda>f. if fw_id f = i then g f else f) (fs_flows s)\<rparr>"

section \<open>The controller\<close>

definition validate_flow :: "string option \<Rightarrow> pyval option \<Rightarrow> py_error + unit" where
  "validate_flow name graph =
     (if \<not> given name then Inl (InvalidParameterException ''name required'')
      else validate_graph (case graph of Some g \<Rightarrow> g | None \<Rightarrow> PDict [(''nodes'', PList []), (''edges'', PList [])]))"

definition create_flow :: "string \<Rightarrow> string \<Rightarrow> flow_field list \<Rightarrow> ('r flow_state, flow) act" where
  "create_flow uuid token d s =
     (case validate_flow (body_name d) (body_graph d) of
        Inl e \<Rightarrow> (Inl e, s)
      | Inr () \<Rightarrow> (case Flow_create uuid token d s of (f, s1) \<Rightarrow> (Inr f, s1)))"

text \<open>\<open>has_graph\<close> says whether the body has the key \<open>graph\<close>, which may then be \<open>None\<close>.\<close>

definition update_flow :: "string \<Rightarrow> bool \<Rightarrow> flow_field list \<Rightarrow> ('r flow_state, unit) act" where
  "update_flow uuid has_graph d s =
     (case Flow_get_by_uuid s uuid of
        None \<Rightarrow> (Inl RowNotFoundException, s)
      | Some f \<Rightarrow>
          (case (if has_graph then validate_flow (case body_name d of None \<Rightarrow> Some (fw_name f) | Some n \<Rightarrow> Some n) (body_graph d) else Inr ()) of
             Inl e \<Rightarrow> (Inl e, s)
           | Inr () \<Rightarrow> (Inr (), update_flow_row (fw_id f) (fold set_flow_field d) s)))"

definition delete_flow :: "ts \<Rightarrow> string \<Rightarrow> ('r flow_state, unit) act" where
  "delete_flow now uuid s =
     (case Flow_get_by_uuid s uuid of
        None \<Rightarrow> (Inl RowNotFoundException, s)
      | Some f \<Rightarrow> (Inr (), update_flow_row (fw_id f) (\<lambda>f. f\<lparr>fw_deleted := Some now\<rparr>) s))"

definition enable_flow :: "string \<Rightarrow> bool \<Rightarrow> ('r flow_state, unit) act" where
  "enable_flow uuid enabled s =
     (case Flow_get_by_uuid s uuid of
        None \<Rightarrow> (Inl RowNotFoundException, s)
      | Some f \<Rightarrow> (Inr (), update_flow_row (fw_id f) (set_flow_field (FwEnabled enabled)) s))"

definition run_manual :: "'r flow_env \<Rightarrow> ts \<Rightarrow> string \<Rightarrow> db_id option \<Rightarrow> pyval \<Rightarrow> ('r flow_state, flow_run) act" where
  "run_manual E now uuid cam context s =
     (case Flow_get_by_uuid s uuid of
        None \<Rightarrow> (Inl RowNotFoundException, s)
      | Some f \<Rightarrow>
          if trigger_nodes (fw_graph f) = [] then (Inl (InvalidParameterException ''flow has no trigger node''), s)
          else (case run_flow E now f (from_manual now cam context) None s of (r, s1) \<Rightarrow> (Inr r, s1)))"

definition fire_incoming :: "'r flow_env \<Rightarrow> ts \<Rightarrow> string \<Rightarrow> pyval \<Rightarrow> pyval \<Rightarrow> ('r flow_state, string) act" where
  "fire_incoming E now token body query s =
     (case Flow_get_by_incoming_token s token of
        None \<Rightarrow> (Inl RowNotFoundException, s)
      | Some f \<Rightarrow>
          if \<not> fw_enabled f then (Inl RowNotFoundException, s)
          else if incoming_start_nodes f = [] then (Inl RowNotFoundException, s)
          else (case run_flow E now f (from_incoming now body query) (Some (incoming_start_nodes f)) s of
                  (r, s1) \<Rightarrow> (Inr (fr_status r), s1)))"

section \<open>The outbox consumer\<close>

text \<open>One row: the flows run, then the external subscriptions are notified; \<open>deliver\<close> says whether that call
  returned. A failing row keeps what the flows did and is retried, at most five times.\<close>

definition consume_one :: "'r flow_env \<Rightarrow> ts \<Rightarrow> (outbox_row \<Rightarrow> bool) \<Rightarrow> outbox_row \<Rightarrow> 'r flow_state \<Rightarrow> 'r flow_state" where
  "consume_one E now deliver row s =
     (let s1 = on_trigger E now (from_outbox row) s
      in s1\<lparr>es_outbox := map (\<lambda>r. if ob_id r = ob_id row then consume_row now (deliver row) r else r) (es_outbox s1)\<rparr>)"

definition consume :: "'r flow_env \<Rightarrow> ts \<Rightarrow> (outbox_row \<Rightarrow> bool) \<Rightarrow> 'r flow_state \<Rightarrow> nat \<times> 'r flow_state" where
  "consume E now deliver s =
     (let rows = get_pending (es_outbox s) 100 in (length rows, fold (consume_one E now deliver) rows s))"

end
