(* ===== verification/FlowProps.thy ===== *)
theory FlowProps
  imports FlowAdmin
begin

text \<open>
  What a flow run guarantees. The walk is verified once against the contract of a node executor (it never
  lets the delay budget grow or fall below zero, it accounts for what it sleeps, and the branch it takes
  can be read off the result row), and the contract is discharged for \<open>execute\<close>.
\<close>

section \<open>What a result row says about the branch taken\<close>

definition taken :: "string \<Rightarrow> string \<Rightarrow> pyval \<Rightarrow> string list" where
  "taken typ status output =
     (if typ = NODE_CONDITION \<and> status = ''success'' then [if output = PDict [(''result'', PBool True)] then ''true'' else ''false'']
      else if status = ''success'' then [''ok''] else [''err''])"

text \<open>The nodes the run must visit after a result.\<close>

definition successors :: "edges \<Rightarrow> node_result \<Rightarrow> string list" where
  "successors out r =
     (if nr_type r = NODE_TRIGGER then targets out (nr_node r) ''out'' ''out''
      else concat (map (\<lambda>h. targets out (nr_node r) h (default_handle (nr_type r))) (taken (nr_type r) (nr_status r) (nr_output r))))"

lemma targets_subset: "x \<in> set (targets out i h d) \<Longrightarrow> \<exists>a k. (a, k, x) \<in> set out"
  by (auto simp: targets_def split: if_splits)

section \<open>An induction rule for the walk\<close>

lemma walk_loop_stop: "wk_queue w = [] \<or> MAX_STEPS \<le> steps \<Longrightarrow> walk_loop exec tv nodes out steps w = w"
  by (subst walk_loop.simps) (auto split: list.split)

lemma walk_loop_skip:
  assumes "wk_queue w = nid # q" and "\<not> MAX_STEPS \<le> steps" and "nid \<in> set (wk_executed w) \<or> nodes nid = None"
  shows "walk_loop exec tv nodes out steps w = walk_loop exec tv nodes out steps (w\<lparr>wk_queue := q\<rparr>)"
proof -
  have "(if nid \<in> set (wk_executed w) then None else nodes nid) = None" using assms(3) by auto
  then show ?thesis by (subst walk_loop.simps) (simp only: assms(1,2) list.case option.case if_False)
qed

lemma walk_loop_visit:
  assumes "wk_queue w = nid # q" and "\<not> MAX_STEPS \<le> steps" and "nid \<notin> set (wk_executed w)" and "nodes nid = Some node"
  shows "walk_loop exec tv nodes out steps w = walk_loop exec tv nodes out (Suc steps) (visit exec tv out nid node (w\<lparr>wk_queue := q\<rparr>))"
  by (subst walk_loop.simps) (simp only: assms list.case option.case if_False)

text \<open>What skipping and visiting keep holds at the end, with the queue empty or the step budget used up.\<close>

lemma walk_loop_invariant:
  assumes "I steps w"
    and skip: "\<And>k v nid q. I k v \<Longrightarrow> wk_queue v = nid # q \<Longrightarrow> nid \<in> set (wk_executed v) \<or> nodes nid = None \<Longrightarrow> I k (v\<lparr>wk_queue := q\<rparr>)"
    and step: "\<And>k v nid q node. I k v \<Longrightarrow> wk_queue v = nid # q \<Longrightarrow> k < MAX_STEPS \<Longrightarrow> nid \<notin> set (wk_executed v) \<Longrightarrow> nodes nid = Some node
           \<Longrightarrow> I (Suc k) (visit exec tv out nid node (v\<lparr>wk_queue := q\<rparr>))"
  shows "\<exists>k. I k (walk_loop exec tv nodes out steps w)
           \<and> (wk_queue (walk_loop exec tv nodes out steps w) = [] \<or> MAX_STEPS \<le> k)"
  using assms(1)
proof (induction "MAX_STEPS - steps" arbitrary: steps w rule: less_induct)
  case (less steps)
  note visited = less.hyps
  show ?case using less.prems
  proof (induction "wk_queue w" arbitrary: w)
    case Nil
    then have "walk_loop exec tv nodes out steps w = w" by (intro walk_loop_stop) simp
    then show ?case using Nil by metis
  next
    case (Cons nid q)
    have q: "wk_queue w = nid # q" using Cons.hyps(2) by simp
    show ?case
    proof (cases "MAX_STEPS \<le> steps")
      case True
      then have "walk_loop exec tv nodes out steps w = w" by (intro walk_loop_stop) simp
      then show ?thesis using Cons.prems True by metis
    next
      case lt: False
      show ?thesis
      proof (cases "nid \<in> set (wk_executed w) \<or> nodes nid = None")
        case True
        have "q = wk_queue (w\<lparr>wk_queue := q\<rparr>)" by simp
        from Cons.hyps(1) [OF this skip [OF Cons.prems q True]] show ?thesis unfolding walk_loop_skip [where nodes = nodes, OF q lt True] .
      next
        case False
        then obtain node where node: "nid \<notin> set (wk_executed w)" "nodes nid = Some node" by auto
        have "MAX_STEPS - Suc steps < MAX_STEPS - steps" "steps < MAX_STEPS" using lt by simp_all
        from visited [OF this(1) step [OF Cons.prems q this(2) node]] show ?thesis unfolding walk_loop_visit [where nodes = nodes, OF q lt node] .
      qed
    qed
  qed
qed

section \<open>The contract of an executor\<close>

locale node_executor =
  fixes exec :: "'s executor"
    and slept :: "'s \<Rightarrow> rat"
  assumes spends: "exec node ctx b s = (r, b', s') \<Longrightarrow> 0 \<le> b \<Longrightarrow> 0 \<le> b' \<and> slept s' + b' = slept s + b"
    and routes: "exec node ctx b s = (Inr oc, b', s') \<Longrightarrow> oc_branches oc = taken (node_type node) (oc_status oc) (oc_output oc)"
begin

lemma outcome_routes:
  assumes "exec node ctx b s = (r, b', s')"
  shows "oc_branches (outcome_of r) = taken (node_type node) (oc_status (outcome_of r)) (oc_output (outcome_of r))"
  using assms routes by (cases r) (simp_all add: outcome_of_def taken_def)

text \<open>Bookkeeping that every walk keeps.\<close>

definition accounted :: "rat \<Rightarrow> nat \<Rightarrow> nat \<Rightarrow> 's walk \<Rightarrow> bool" where
  "accounted allot n0 steps w \<longleftrightarrow>
     map nr_node (wk_results w) = wk_executed w \<and> distinct (wk_executed w) \<and> length (wk_executed w) = n0 + steps
   \<and> 0 \<le> wk_budget w \<and> slept (wk_state w) + wk_budget w = allot"

lemma visit_fields:
  assumes "exec node [(''trigger'', PDict tv), (''nodes'', PDict (wk_nodes_ctx w))] (wk_budget w) (wk_state w) = (r, b, s)"
  shows "wk_executed (visit exec tv out nid node w) = wk_executed w @ [nid]"
    and "wk_queue (visit exec tv out nid node w) = wk_queue w @ successors out
           \<lparr>nr_node = nid, nr_type = node_type node, nr_status = oc_status (outcome_of r), nr_input = oc_input (outcome_of r),
            nr_output = oc_output (outcome_of r), nr_error = oc_error (outcome_of r)\<rparr> \<or> node_type node = NODE_TRIGGER"
    and "wk_results (visit exec tv out nid node w) = wk_results w @
           [\<lparr>nr_node = nid, nr_type = node_type node, nr_status = oc_status (outcome_of r), nr_input = oc_input (outcome_of r),
            nr_output = oc_output (outcome_of r), nr_error = oc_error (outcome_of r)\<rparr>]"
    and "wk_budget (visit exec tv out nid node w) = b" and "wk_state (visit exec tv out nid node w) = s"
  using outcome_routes [OF assms] by (simp_all add: visit_def assms Let_def successors_def)

lemma visit_accounted:
  assumes "accounted allot n0 steps w" and "nid \<notin> set (wk_executed w)"
  shows "accounted allot n0 (Suc steps) (visit exec tv out nid node w)"
proof -
  obtain r b s where e: "exec node [(''trigger'', PDict tv), (''nodes'', PDict (wk_nodes_ctx w))] (wk_budget w) (wk_state w) = (r, b, s)"
    by (metis prod_cases3)
  show ?thesis
    using assms spends [OF e] unfolding accounted_def visit_fields [OF e] by simp
qed

lemma loop_accounted:
  assumes "accounted allot n0 0 w"
  shows "\<exists>k \<le> MAX_STEPS. accounted allot n0 k (walk_loop exec tv nodes out 0 w)"
proof -
  let ?I = "\<lambda>k v. k \<le> MAX_STEPS \<and> accounted allot n0 k v"
  have queue: "accounted allot n0 k (v\<lparr>wk_queue := q\<rparr>) = accounted allot n0 k v" for k v q by (simp add: accounted_def)
  have "\<exists>k. ?I k (walk_loop exec tv nodes out 0 w) \<and> (wk_queue (walk_loop exec tv nodes out 0 w) = [] \<or> MAX_STEPS \<le> k)"
    by (rule walk_loop_invariant) (use assms queue visit_accounted in auto)
  then show ?thesis by blast
qed

lemma start_accounted:
  assumes "accounted allot (length (wk_executed w)) 0 w"
  shows "accounted allot (length (wk_executed (start_walk tv out ns w))) 0 (start_walk tv out ns w)
       \<and> length (wk_executed (start_walk tv out ns w)) \<le> length (wk_executed w) + length ns"
  using assms
proof (induction ns arbitrary: w)
  case (Cons n ns)
  show ?case
  proof (cases "node_id n \<in> set (wk_executed w)")
    case True
    then show ?thesis using Cons.IH [OF Cons.prems] by simp
  next
    case False
    let ?w = "w\<lparr>wk_queue := wk_queue w @ targets out (node_id n) ''out'' ''out'', wk_executed := wk_executed w @ [node_id n],
        wk_results := wk_results w @ [\<lparr>nr_node = node_id n, nr_type = NODE_TRIGGER, nr_status = ''success'', nr_input = PNone,
                                       nr_output = PDict tv, nr_error = PNone\<rparr>]\<rparr>"
    have "accounted allot (length (wk_executed ?w)) 0 ?w" using Cons.prems False by (simp add: accounted_def)
    from Cons.IH [OF this] False show ?thesis by simp
  qed
qed simp

text \<open>The run so far follows the taken branches, and nothing reachable is lost.\<close>

definition traversed :: "(string \<Rightarrow> pydict option) \<Rightarrow> edges \<Rightarrow> 's walk \<Rightarrow> bool" where
  "traversed nodes out w \<longleftrightarrow>
     set (wk_executed w) \<subseteq> dom nodes
   \<and> (\<forall>r \<in> set (wk_results w). set (successors out r) \<subseteq> set (wk_executed w) \<union> set (wk_queue w))
   \<and> (\<forall>q \<in> set (wk_queue w). \<exists>r \<in> set (wk_results w). q \<in> set (successors out r))
   \<and> (\<forall>r \<in> set (wk_results w). nr_type r = NODE_TRIGGER \<or> (\<exists>r' \<in> set (wk_results w). nr_node r \<in> set (successors out r')))"

definition closed_graph :: "(string \<Rightarrow> pydict option) \<Rightarrow> edges \<Rightarrow> bool" where
  "closed_graph nodes out \<longleftrightarrow> (\<forall>a h b. (a, h, b) \<in> set out \<longrightarrow> (\<exists>n. nodes b = Some n \<and> node_type n \<noteq> NODE_TRIGGER))"

lemma successor_node:
  assumes "closed_graph nodes out" and "x \<in> set (successors out r)"
  shows "\<exists>n. nodes x = Some n \<and> node_type n \<noteq> NODE_TRIGGER"
proof -
  from assms(2) obtain h d where "x \<in> set (targets out (nr_node r) h d)"
    by (auto simp: successors_def split: if_splits)
  with assms(1) show ?thesis using targets_subset unfolding closed_graph_def by metis
qed

lemma start_traversed:
  assumes "traversed nodes out w" and "\<And>n. n \<in> set ns \<Longrightarrow> node_id n \<in> dom nodes"
  shows "traversed nodes out (start_walk tv out ns w)"
  using assms
proof (induction ns arbitrary: w)
  case (Cons n ns)
  let ?r = "\<lparr>nr_node = node_id n, nr_type = NODE_TRIGGER, nr_status = ''success'', nr_input = PNone, nr_output = PDict tv, nr_error = PNone\<rparr>"
  let ?w = "w\<lparr>wk_queue := wk_queue w @ targets out (node_id n) ''out'' ''out'', wk_executed := wk_executed w @ [node_id n],
      wk_results := wk_results w @ [?r]\<rparr>"
  have "successors out ?r = targets out (node_id n) ''out'' ''out''" by (simp add: successors_def)
  then have "traversed nodes out ?w" using Cons.prems unfolding traversed_def by (simp, blast)
  then show ?case using Cons by simp
qed simp

lemma visit_traversed:
  assumes "traversed nodes out w" and "closed_graph nodes out" and "wk_queue w = nid # q" and "nodes nid = Some node"
  shows "traversed nodes out (visit exec tv out nid node (w\<lparr>wk_queue := q\<rparr>))"
proof -
  let ?w = "w\<lparr>wk_queue := q\<rparr>"
  obtain res b s where e: "exec node [(''trigger'', PDict tv), (''nodes'', PDict (wk_nodes_ctx ?w))] (wk_budget ?w) (wk_state ?w) = (res, b, s)"
    by (metis prod_cases3)
  define r where "r = \<lparr>nr_node = nid, nr_type = node_type node, nr_status = oc_status (outcome_of res), nr_input = oc_input (outcome_of res),
            nr_output = oc_output (outcome_of res), nr_error = oc_error (outcome_of res)\<rparr>"
  obtain r0 where r0: "r0 \<in> set (wk_results w)" "nid \<in> set (successors out r0)" using assms(1,3) by (auto simp: traversed_def)
  have "node_type node \<noteq> NODE_TRIGGER" using successor_node [OF assms(2) r0(2)] assms(4) by auto
  then have fields: "wk_executed (visit exec tv out nid node ?w) = wk_executed w @ [nid]"
    "wk_queue (visit exec tv out nid node ?w) = q @ successors out r" "wk_results (visit exec tv out nid node ?w) = wk_results w @ [r]"
    using visit_fields(1-3) [OF e, of out nid] by (simp_all add: r_def)
  have nr: "nr_node r = nid" by (simp add: r_def)
  show ?thesis
    unfolding traversed_def fields
  proof (intro conjI)
    show "set (wk_executed w @ [nid]) \<subseteq> dom nodes" using assms(1,4) by (auto simp: traversed_def)
    have "set (successors out r') \<subseteq> set (wk_executed w) \<union> set (nid # q)" if "r' \<in> set (wk_results w)" for r'
      using assms(1) that unfolding traversed_def assms(3) by blast
    then show "\<forall>r' \<in> set (wk_results w @ [r]). set (successors out r') \<subseteq> set (wk_executed w @ [nid]) \<union> set (q @ successors out r)" by fastforce
    have "\<exists>r' \<in> set (wk_results w). x \<in> set (successors out r')" if "x \<in> set q" for x
      using assms(1) that unfolding traversed_def assms(3) by (meson list.set_intros(2))
    then show "\<forall>x \<in> set (q @ successors out r). \<exists>r' \<in> set (wk_results w @ [r]). x \<in> set (successors out r')" by auto
    show "\<forall>r' \<in> set (wk_results w @ [r]). nr_type r' = NODE_TRIGGER \<or> (\<exists>r'' \<in> set (wk_results w @ [r]). nr_node r' \<in> set (successors out r''))"
      using assms(1) r0 nr unfolding traversed_def by auto
  qed
qed

lemma loop_traversed:
  assumes "accounted allot n0 0 w" and "traversed nodes out w" and "closed_graph nodes out"
    and "finite (dom nodes)" and "card (dom nodes) \<le> MAX_STEPS"
  shows "traversed nodes out (walk_loop exec tv nodes out 0 w) \<and> wk_queue (walk_loop exec tv nodes out 0 w) = []"
proof (cases "n0 = 0")
  case True
  then have "wk_results w = []" using assms(1) by (auto simp: accounted_def)
  then have "wk_queue w = []" using assms(2) by (cases "wk_queue w") (auto simp: traversed_def)
  then show ?thesis using assms(2) walk_loop_stop [of w 0] by simp
next
  case False
  let ?I = "\<lambda>k v. accounted allot n0 k v \<and> traversed nodes out v"
  have acc: "accounted allot n0 k (v\<lparr>wk_queue := q\<rparr>) = accounted allot n0 k v" for k v q by (simp add: accounted_def)
  have "\<exists>k. ?I k (walk_loop exec tv nodes out 0 w) \<and> (wk_queue (walk_loop exec tv nodes out 0 w) = [] \<or> MAX_STEPS \<le> k)"
  proof (rule walk_loop_invariant)
    show "?I 0 w" using assms(1,2) by blast
  next
    fix k v nid q assume inv: "?I k v" and q: "wk_queue v = nid # q" and "nid \<in> set (wk_executed v) \<or> nodes nid = None"
    moreover have "nodes nid \<noteq> None"
    proof -
      obtain r where "nid \<in> set (successors out r)" using inv q by (auto simp: traversed_def)
      then show ?thesis using successor_node [OF assms(3)] by blast
    qed
    ultimately have "nid \<in> set (wk_executed v)" by blast
    with inv q show "?I k (v\<lparr>wk_queue := q\<rparr>)" unfolding traversed_def acc by fastforce
  next
    fix k v nid q node assume "?I k v" "wk_queue v = nid # q" "k < MAX_STEPS" "nid \<notin> set (wk_executed v)" "nodes nid = Some node"
    then show "?I (Suc k) (visit exec tv out nid node (v\<lparr>wk_queue := q\<rparr>))"
      using visit_traversed [OF _ assms(3)] visit_accounted [of allot n0 k "v\<lparr>wk_queue := q\<rparr>"] acc by simp
  qed
  then obtain k where k: "accounted allot n0 k (walk_loop exec tv nodes out 0 w)" "traversed nodes out (walk_loop exec tv nodes out 0 w)"
    "wk_queue (walk_loop exec tv nodes out 0 w) = [] \<or> MAX_STEPS \<le> k" by blast
  have "n0 + k = card (set (wk_executed (walk_loop exec tv nodes out 0 w)))"
    using k(1) by (simp add: accounted_def distinct_card)
  also have "\<dots> \<le> card (dom nodes)" using k(2) assms(4) by (intro card_mono) (simp_all add: traversed_def)
  finally have "\<not> MAX_STEPS \<le> k" using assms(5) False by simp
  with k show ?thesis by blast
qed

end

section \<open>\<open>execute\<close> meets the contract\<close>

lemma camera_effects_slept [simp]:
  "fs_slept (publish_reconcile s c m) = fs_slept s"
  "fs_slept (AuditLog_add s a t u d) = fs_slept s"
  by (simp_all add: publish_reconcile_def AuditLog_add_def)

lemma manual_start_slept: "manual_start now cam note actor d s = (r, s') \<Longrightarrow> fs_slept s' = fs_slept s"
  by (auto simp: manual_start_def Recording_create_def Let_def split: if_splits sum.splits)

lemma record_node_slept: "record_node now params t s = (r, s') \<Longrightarrow> fs_slept s' = fs_slept s"
  by (auto simp: record_node_def Let_def dest: manual_start_slept split: if_splits sum.splits prod.splits py_error.splits)

lemma driver_slept: "fs_slept (snd (call_driver E n a s)) = fs_slept s"
  by (simp add: call_driver_def)

lemma set_camera_slept: "fs_slept (snd (set_camera_enabled params t b s)) = fs_slept s"
  by (simp add: set_camera_enabled_def Let_def split: sum.split)

lemma action_run_slept: "fs_slept (snd (action_run E now atype params t s)) = fs_slept s"
proof -
  have [simp]: "fs_slept (snd (if c then x else y)) = (if c then fs_slept (snd x) else fs_slept (snd y))" for c and x y :: "'b \<times> 'a flow_state"
    by simp
  obtain on fl where fl: "is_enabled now ''sms_notifications'' False (fs_flags s) = (on, fl)" by fastforce
  show ?thesis unfolding action_run_def Let_def fl by (simp add: driver_slept set_camera_slept)
qed

lemma delay_bounds: "0 \<le> b \<Longrightarrow> 0 \<le> delay_secs E params b \<and> delay_secs E params b \<le> b"
  by (auto simp: delay_secs_def min_def max_def)

interpretation flow_exec: node_executor "execute E now t" fs_slept for E now t
proof
  fix node ctx b s r b' s' assume e: "execute E now t node ctx b s = (r, b', s')" and b: "0 \<le> b"
  show "0 \<le> b' \<and> fs_slept s' + b' = fs_slept s + b"
    using e b delay_bounds [OF b, of E "node_params E node ctx"]
    using action_run_slept [of E now "node_type node" "node_params E node ctx" t s]
    by (auto simp: execute_def Let_def dest: record_node_slept split: if_splits sum.splits prod.splits)
next
  fix node ctx b s oc b' s' assume e: "execute E now t node ctx b s = (Inr oc, b', s')"
  have tok: "NODE_CONDITION \<noteq> NODE_DELAY" by (simp add: NODE_CONDITION_def NODE_DELAY_def)
  show "oc_branches oc = taken (node_type node) (oc_status oc) (oc_output oc)"
    using e tok by (auto simp: execute_def Let_def taken_def action_outcome_def split: if_splits sum.splits prod.splits)
qed

section \<open>A validated graph is closed\<close>

lemma dicts_of_PDict [simp]: "dicts_of (PList (map PDict ds)) = ds"
  by (simp add: dicts_of_def map_filter_def comp_def)

lemma bad_Inl [simp]: "bad m \<noteq> Inr x"
  by (simp add: bad_def)

lemma check_node_ids:
  assumes "check_node v ids = Inr i"
  shows "\<exists>n. v = PDict n \<and> node_id n = i \<and> i \<noteq> [] \<and> i \<notin> set ids"
proof (cases v)
  case (PDict n)
  then have "node_id n \<noteq> []" "node_id n \<notin> set ids" using assms by (simp_all add: check_node_def split: if_splits)
  moreover have "node_id n = i"
    using assms PDict by (cases "check_condition n") (simp_all add: check_node_def split: if_splits unit.splits)
  ultimately show ?thesis using PDict by blast
qed (use assms in \<open>simp_all add: check_node_def\<close>)

lemma check_nodes_ids:
  assumes "check_nodes vs ids = Inr ids'" and "distinct ids"
  shows "\<exists>ds. vs = map PDict ds \<and> ids' = ids @ map node_id ds \<and> distinct ids' \<and> (\<forall>d \<in> set ds. node_id d \<noteq> [])"
  using assms
proof (induction vs arbitrary: ids)
  case (Cons v vs)
  then obtain i where i: "check_node v ids = Inr i" "check_nodes vs (ids @ [i]) = Inr ids'" by (auto split: sum.splits)
  obtain n where n: "v = PDict n" "node_id n = i" "i \<noteq> []" "i \<notin> set ids" using check_node_ids [OF i(1)] by blast
  have "distinct (ids @ [i])" using Cons.prems(2) n(4) by simp
  from Cons.IH [OF i(2) this] obtain ds where "vs = map PDict ds" "ids' = (ids @ [i]) @ map node_id ds" "distinct ids'" "\<forall>d \<in> set ds. node_id d \<noteq> []"
    by blast
  then show ?case using n by (intro exI [of _ "n # ds"]) auto
qed simp

lemma check_edges_all:
  assumes "check_edges ids tab es = Inr ()" and "e \<in> set es"
  shows "check_edge ids tab e = Inr ()"
  using assms
proof (induction es)
  case (Cons x es)
  obtain u where u: "check_edge ids tab x = Inr u" using Cons.prems(1) by (cases "check_edge ids tab x") simp_all
  then have "check_edges ids tab es = Inr ()" using Cons.prems(1) by (cases u) (simp only: check_edges.simps sum.case old.unit.case)
  with Cons u show ?case by (cases "e = x") simp_all
qed simp

lemma check_edge_target:
  assumes "check_edge ids tab (PDict e) = Inr ()"
  shows "str_field e ''target'' \<in> set ids"
    and "tab (str_field e ''target'') = Some n \<Longrightarrow> node_type n \<noteq> NODE_TRIGGER"
proof -
  have src: "hash_in (dget e ''source'') ids = Inr True"
    using assms by (simp add: check_edge_def split: sum.splits bool.splits)
  then have h: "hash_in (dget e ''target'') ids = Inr True"
    using assms by (simp add: check_edge_def split: sum.splits bool.splits)
  then show "str_field e ''target'' \<in> set ids" by (auto simp: hash_in_def str_field_def split: if_splits)
  show "tab (str_field e ''target'') = Some n \<Longrightarrow> node_type n \<noteq> NODE_TRIGGER"
    using assms src h by (simp add: check_edge_def Let_def split: if_splits)
qed

lemma validated_graph:
  assumes "validate_graph g = Inr ()"
  shows "dom (node_table g) = set (map node_id (graph_nodes g))" and "card (dom (node_table g)) \<le> MAX_STEPS"
    and "flow_exec.closed_graph (node_table g) (out_edges g)"
proof -
  obtain d nodes edges ids where g: "g = PDict d" "dget d ''nodes'' = PList nodes" "dget d ''edges'' = PList edges"
    and small: "length nodes \<le> MAX_NODES" and ids: "check_nodes nodes [] = Inr ids" and es: "check_edges ids (node_table g) edges = Inr ()"
    using assms by (auto simp: validate_graph_def bad_def split: pyval.splits if_splits sum.splits)
  obtain ds where ds: "nodes = map PDict ds" "ids = map node_id ds" "\<forall>d \<in> set ds. node_id d \<noteq> []"
    using check_nodes_ids [OF ids] by auto
  have nodes: "graph_nodes g = ds" by (simp add: graph_nodes_def g ds(1))
  have "filter (\<lambda>n. node_id n \<noteq> []) ds = ds" using ds(3) by simp
  then show dom: "dom (node_table g) = set (map node_id (graph_nodes g))"
    by (simp add: node_table_def nodes dom_map_of_conv_image_fst image_image)
  have "card (dom (node_table g)) \<le> length ds" unfolding dom nodes by (metis card_length length_map)
  also have "\<dots> \<le> MAX_STEPS" using small by (simp add: ds(1) MAX_NODES_def MAX_STEPS_def)
  finally show "card (dom (node_table g)) \<le> MAX_STEPS" .
  show "flow_exec.closed_graph (node_table g) (out_edges g)"
    unfolding flow_exec.closed_graph_def
  proof (intro allI impI)
    fix a h b assume "(a, h, b) \<in> set (out_edges g)"
    then obtain e where e: "e \<in> set (graph_edges g)" and b: "b = str_field e ''target''" by (auto simp: out_edges_def)
    have "PDict e \<in> set edges"
      using e by (auto simp: graph_edges_def g dicts_of_def map_filter_def split: pyval.splits)
    note ok = check_edges_all [OF es this]
    have "b \<in> dom (node_table g)" using check_edge_target(1) [OF ok] b ds(2) dom nodes by simp
    then show "\<exists>n. node_table g b = Some n \<and> node_type n \<noteq> NODE_TRIGGER"
      using check_edge_target(2) [OF ok] b by blast
  qed
qed

section \<open>Runs\<close>

text \<open>The nodes a run starts from.\<close>

definition run_starts :: "flow \<Rightarrow> pydict list option \<Rightarrow> pydict list" where
  "run_starts f starts = (case starts of Some ns \<Rightarrow> ns | None \<Rightarrow> trigger_nodes (fw_graph f))"

definition walk0 :: "'s \<Rightarrow> 's walk" where
  "walk0 s = \<lparr>wk_queue = [], wk_executed = [], wk_results = [], wk_nodes_ctx = [], wk_budget = MAX_TOTAL_DELAY_S, wk_state = s\<rparr>"

lemma run_flow_walk:
  obtains s2 tv where "fs_slept s2 = fs_slept s"
    "fr_results (fst (run_flow E now f t starts s))
       = wk_results (walk_loop (execute E now t) tv (node_table (fw_graph f)) (out_edges (fw_graph f)) 0
           (start_walk tv (out_edges (fw_graph f)) (run_starts f starts) (walk0 s2)))"
    "fs_slept (snd (run_flow E now f t starts s))
       = fs_slept (wk_state (walk_loop (execute E now t) tv (node_table (fw_graph f)) (out_edges (fw_graph f)) 0
           (start_walk tv (out_edges (fw_graph f)) (run_starts f starts) (walk0 s2))))"
proof -
  let ?s1 = "snd (FlowRun_create now f t ''running'' None (Some now) s)"
  let ?s2 = "?s1\<lparr>fs_flows := map (\<lambda>x. if fw_id x = fw_id f then x\<lparr>fw_last_run_ts := Some now\<rparr> else x) (fs_flows ?s1)\<rparr>"
  show ?thesis
    by (rule that [of ?s2 "trigger_vars t ?s2"])
       (simp_all add: run_flow_def FlowRun_create_def FlowRun_update_def walk_graph_def walk0_def run_starts_def Let_def)
qed

lemma walk0_accounted: "flow_exec.accounted (fs_slept s + MAX_TOTAL_DELAY_S) 0 0 (walk0 s)"
  by (simp add: flow_exec.accounted_def walk0_def MAX_TOTAL_DELAY_S_def)

lemma walk0_traversed: "flow_exec.traversed nodes out (walk0 s)"
  by (simp add: flow_exec.traversed_def walk0_def)

text \<open>C19: a flow run always ends and is bounded, whatever the graph, cycles included: no node is executed
  twice, at most a hundred nodes run after the trigger nodes it starts from, all its delays together sleep
  at most 120 seconds, and the run is recorded with a final status.\<close>

theorem flow_run_bounded:
  "distinct (map nr_node (fr_results (fst (run_flow E now f t starts s))))
 \<and> length (fr_results (fst (run_flow E now f t starts s))) \<le> length (run_starts f starts) + 100
 \<and> fs_slept (snd (run_flow E now f t starts s)) \<le> fs_slept s + 120
 \<and> fr_status (fst (run_flow E now f t starts s)) \<in> {''success'', ''partial'', ''failed''}"
proof -
  obtain s2 tv where slept: "fs_slept s2 = fs_slept s"
    and res: "fr_results (fst (run_flow E now f t starts s))
       = wk_results (walk_loop (execute E now t) tv (node_table (fw_graph f)) (out_edges (fw_graph f)) 0
           (start_walk tv (out_edges (fw_graph f)) (run_starts f starts) (walk0 s2)))"
    and state: "fs_slept (snd (run_flow E now f t starts s))
       = fs_slept (wk_state (walk_loop (execute E now t) tv (node_table (fw_graph f)) (out_edges (fw_graph f)) 0
           (start_walk tv (out_edges (fw_graph f)) (run_starts f starts) (walk0 s2))))"
    by (rule run_flow_walk)
  define w where "w = start_walk tv (out_edges (fw_graph f)) (run_starts f starts) (walk0 s2)"
  have "flow_exec.accounted (fs_slept s2 + MAX_TOTAL_DELAY_S) (length (wk_executed (walk0 s2))) 0 (walk0 s2)"
    using walk0_accounted by (simp add: walk0_def)
  note st = flow_exec.start_accounted [OF this, of tv "out_edges (fw_graph f)" "run_starts f starts", folded w_def]
  obtain k where k: "k \<le> MAX_STEPS" and acc: "flow_exec.accounted (fs_slept s2 + MAX_TOTAL_DELAY_S) (length (wk_executed w)) k
      (walk_loop (execute E now t) tv (node_table (fw_graph f)) (out_edges (fw_graph f)) 0 w)"
    using flow_exec.loop_accounted [OF st [THEN conjunct1]] by blast
  let ?w = "walk_loop (execute E now t) tv (node_table (fw_graph f)) (out_edges (fw_graph f)) 0 w"
  from acc have facts: "map nr_node (wk_results ?w) = wk_executed ?w" "distinct (wk_executed ?w)"
    "length (wk_executed ?w) = length (wk_executed w) + k" "0 \<le> wk_budget ?w" "fs_slept (wk_state ?w) + wk_budget ?w = fs_slept s2 + MAX_TOTAL_DELAY_S"
    by (simp_all add: flow_exec.accounted_def)
  have "length (wk_results ?w) = length (wk_executed w) + k" using facts(1,3) by (metis length_map)
  moreover have "length (wk_executed w) \<le> length (run_starts f starts)" using st by (simp add: walk0_def)
  ultimately have len: "length (wk_results ?w) \<le> length (run_starts f starts) + 100" using k by (simp add: MAX_STEPS_def)
  have sl: "fs_slept (wk_state ?w) \<le> fs_slept s + 120" using facts(4,5) slept by (simp add: MAX_TOTAL_DELAY_S_def)
  have "fr_status (fst (run_flow E now f t starts s)) = summarize (fr_results (fst (run_flow E now f t starts s)))"
    by (simp add: run_flow_def FlowRun_create_def Let_def)
  then have "fr_status (fst (run_flow E now f t starts s)) \<in> {''success'', ''partial'', ''failed''}"
    by (simp add: summarize_def Let_def)
  then show ?thesis unfolding res state w_def [symmetric] facts(1) using facts(2) len sl by blast
qed


section \<open>A concrete flow\<close>

definition sample_flow_env :: "mem flow_env" where
  "sample_flow_env = \<lparr>fe_redis = mem_redis, fe_prefix = ''axp'', fe_float = (\<lambda>_. None), fe_repr = (\<lambda>_. ''0.0''), fe_dumps = (\<lambda>_. ''{}''),
     fe_driver = (\<lambda>_ _ _. Inr [(''status'', PStr ''success'')])\<rparr>"

definition sample_graph :: pyval where
  "sample_graph = PDict
     [(''nodes'', PList [PDict [(''id'', PStr ''t''), (''type'', PStr ''trigger'')],
                         PDict [(''id'', PStr ''d''), (''type'', PStr ''delay''), (''data'', PDict [(''seconds'', PInt 2)])],
                         PDict [(''id'', PStr ''p''), (''type'', PStr ''push'')]]),
      (''edges'', PList [PDict [(''source'', PStr ''t''), (''target'', PStr ''d'')],
                         PDict [(''source'', PStr ''d''), (''sourceHandle'', PStr ''ok''), (''target'', PStr ''p'')],
                         PDict [(''source'', PStr ''p''), (''sourceHandle'', PStr ''ok''), (''target'', PStr ''d'')]])]"

definition sample_flow :: flow where
  "sample_flow = \<lparr>fw_id = 1, fw_uuid = ''f'', fw_name = ''Flow'', fw_enabled = True, fw_graph = sample_graph, fw_cooldown_s = 0,
     fw_incoming_token = ''tok'', fw_last_run_ts = None, fw_deleted = None\<rparr>"

definition sample_flow_state :: "mem flow_state" where
  "sample_flow_state =
     \<lparr>n_segments = [], n_recordings = [], n_disks = [], n_policies = [], n_cameras = [], n_files = [], n_locked = [],
      n_next_key = 100, n_signals = [], n_audit = [], es_events = [], es_policies = [], es_outbox = [], es_schedules = [], es_redis = [],
      fs_flows = [sample_flow], fs_runs = [], fs_flags = \<lparr>fl_rows = [], fl_cache = [], fl_cache_at = 0\<rparr>, fs_webhooks = [], fs_targets = [],
      fs_calls = [], fs_slept = 0\<rparr>"

definition sample_results :: "node_result list" where
  "sample_results = fr_results (fst (run_flow sample_flow_env 1000 sample_flow (from_manual 1000 None PNone) None sample_flow_state))"


end
