(* ===== verification/SegmentSweep.thy ===== *)
theory SegmentSweep
  imports Retention
begin

text \<open>
  The maintenance tasks of \<open>server/task/list/segment_sweep.py\<close>: promotion of settled cache segments to
  the record disks, pruning of index rows whose disk is gone, and evacuation of a disk before it is
  removed. The evacuation is an unbounded loop; it is modelled as a partial function and its
  termination is a theorem. The lemmas show that the tasks keep the index and the files together.
\<close>

section \<open>Moving a segment's file\<close>

text \<open>
  \<open>shutil.move\<close>: a rename, and where the rename fails a copy followed by the removal of the source.
  The flag is false when it raises an \<open>OSError\<close>: the source is missing or the destination cannot be
  written (nothing happened), or the source cannot be removed (the copy is left behind).
\<close>

definition move_file :: "'z nvr_scheme \<Rightarrow> string \<Rightarrow> string \<Rightarrow> bool \<times> 'z nvr_scheme" where
  "move_file db src dst =
     (if src \<notin> set (n_files db) \<or> dst \<in> set (n_locked db) then (False, db)
      else if src \<in> set (n_locked db) then (False, db\<lparr>n_files := filter (\<lambda>f. f \<noteq> dst) (n_files db) @ [dst]\<rparr>)
      else (True, db\<lparr>n_files := filter (\<lambda>f. f \<noteq> src \<and> f \<noteq> dst) (n_files db) @ [dst]\<rparr>))"

text \<open>\<open>_move_segment\<close>: the row follows the file only when the move did not raise.\<close>

definition move_segment :: "segment \<Rightarrow> disk \<Rightarrow> disk \<Rightarrow> 'z nvr_scheme \<Rightarrow> bool \<times> 'z nvr_scheme" where
  "move_segment g src dst db =
     (case move_file db (abs_path src (seg_rel_path g)) (abs_path dst (seg_rel_path g)) of
        (False, db1) \<Rightarrow> (False, db1)
      | (True, db1) \<Rightarrow> (True, update_segment db1 (seg_id g) (\<lambda>h. h\<lparr>seg_disk := disk_id dst, seg_tier := TIER_RECORD\<rparr>)))"

section \<open>Promotion and pruning\<close>

definition promote_step :: "disk_map \<Rightarrow> disk list \<Rightarrow> segment \<Rightarrow> int \<times> 'z nvr_scheme \<Rightarrow> int \<times> 'z nvr_scheme" where
  "promote_step dm record_disks g acc =
     (case acc of (promoted, db) \<Rightarrow>
        case dm (seg_disk g) of
          None \<Rightarrow> (promoted, db)
        | Some src \<Rightarrow>
            (case record_disks of
               dst # _ \<Rightarrow>
                 if disk_role src \<noteq> ROLE_RECORD
                 then (case move_segment g src dst db of (ok, db1) \<Rightarrow> (if ok then promoted + 1 else promoted, db1))
                 else (promoted, update_segment db (seg_id g) (\<lambda>h. h\<lparr>seg_tier := TIER_RECORD\<rparr>))
             | [] \<Rightarrow> (promoted, update_segment db (seg_id g) (\<lambda>h. h\<lparr>seg_tier := TIER_RECORD\<rparr>))))"

definition prune_orphans :: "'z nvr_scheme \<Rightarrow> int \<times> 'z nvr_scheme" where
  "prune_orphans db =
     (let known = map disk_id (n_disks db) in
      if known = [] then (0, db)
      else (let rows = take 2000 (filter (\<lambda>g. seg_disk g \<notin> set known) (n_segments db))
            in (int (length rows), fold (\<lambda>g d. Segment_delete_row d (seg_id g)) rows db)))"

definition sweep_cutoff :: "ts \<Rightarrow> 'z nvr_scheme \<Rightarrow> ts" where
  "sweep_cutoff now db =
     (let buffer = (case StoragePolicy_get_global db of None \<Rightarrow> 60 | Some p \<Rightarrow> pol_cache_buffer_seconds p)
      in now - (if buffer = 0 then 60 else buffer) * 1000)"

definition sweep :: "ts \<Rightarrow> 'z nvr_scheme \<Rightarrow> (int \<times> int) \<times> 'z nvr_scheme" where
  "sweep now db =
     (let record_disks = sort_key (\<lambda>d. - usable_free_bytes d) (Disk_get_writable db [ROLE_RECORD]);
          rows = Segment_cache_tier_older_than db (sweep_cutoff now db) 500
      in case fold (promote_step (build_disk_map db) record_disks) rows (0, db) of
           (promoted, db1) \<Rightarrow> (case prune_orphans db1 of (orphans, db2) \<Rightarrow> ((promoted, orphans), db2)))"

section \<open>Evacuation\<close>

text \<open>One segment of a batch: \<open>moved\<close>, \<open>failed_ids\<close> and the state.\<close>

definition evacuate_step ::
  "disk \<Rightarrow> disk list \<Rightarrow> segment \<Rightarrow> int \<times> db_id list \<times> 'z nvr_scheme \<Rightarrow> int \<times> db_id list \<times> 'z nvr_scheme" where
  "evacuate_step src targets g acc =
     (case acc of (moved, failed, db) \<Rightarrow>
        case max_by usable_free_bytes targets of
          None \<Rightarrow> acc
        | Some dst \<Rightarrow>
            (case move_segment g src dst db of
               (True, db1) \<Rightarrow> (moved + 1, failed, db1)
             | (False, db1) \<Rightarrow> (moved, List.insert (seg_id g) failed, db1)))"

definition evacuate_batch :: "db_id \<Rightarrow> db_id list \<Rightarrow> 'z nvr_scheme \<Rightarrow> segment list" where
  "evacuate_batch i failed db =
     filter (\<lambda>g. seg_id g \<notin> set failed) (Segment_oldest_on_disk db i (200 + length failed))"

partial_function (option) evacuate_loop ::
  "disk \<Rightarrow> disk list \<Rightarrow> int \<times> db_id list \<times> 'z nvr_scheme \<Rightarrow> (int \<times> db_id list \<times> 'z nvr_scheme) option" where
  "evacuate_loop src targets acc =
     (case acc of (moved, failed, db) \<Rightarrow>
        if evacuate_batch (disk_id src) failed db = [] then Some acc
        else evacuate_loop src targets (fold (evacuate_step src targets) (evacuate_batch (disk_id src) failed db) acc))"

datatype evacuation = EvacuateError string | Evacuated (evac_moved: int) (evac_failed: nat)

definition evacuate_disk :: "db_id \<Rightarrow> 'z nvr_scheme \<Rightarrow> (evacuation \<times> 'z nvr_scheme) option" where
  "evacuate_disk i db =
     (let targets = filter (\<lambda>d. disk_id d \<noteq> i) (Disk_get_writable db [ROLE_CACHE, ROLE_RECORD]) in
      if targets = [] then Some (EvacuateError ''no_targets'', db)
      else case first_row (filter (\<lambda>d. disk_id d = i) (n_disks db)) of
        None \<Rightarrow> Some (EvacuateError ''not_found'', db)
      | Some src \<Rightarrow>
          (case evacuate_loop src targets (0, [], db) of
             None \<Rightarrow> None
           | Some (moved, failed, db1) \<Rightarrow> Some (Evacuated moved (length failed), db1)))"

section \<open>The index and the files\<close>

text \<open>
  Index and files agree: identifiers are unique, no two rows can ever name the same file (their paths
  differ on whatever disks they are), and the file of every row is where the row says it is.
\<close>

definition paths_apart :: "'z nvr_scheme \<Rightarrow> bool" where
  "paths_apart db \<longleftrightarrow>
     (\<forall>g \<in> set (n_segments db). \<forall>h \<in> set (n_segments db). \<forall>d \<in> set (n_disks db). \<forall>e \<in> set (n_disks db).
        seg_id g \<noteq> seg_id h \<longrightarrow> abs_path d (seg_rel_path g) \<noteq> abs_path e (seg_rel_path h))"

definition located :: "'z nvr_scheme \<Rightarrow> segment \<Rightarrow> bool" where
  "located db g \<longleftrightarrow>
     (\<forall>d \<in> set (n_disks db). disk_id d = seg_disk g \<longrightarrow> abs_path d (seg_rel_path g) \<in> set (n_files db))"

definition index_ok :: "'z nvr_scheme \<Rightarrow> bool" where
  "index_ok db \<longleftrightarrow>
     distinct (map seg_id (n_segments db)) \<and> distinct (map disk_id (n_disks db))
     \<and> paths_apart db \<and> (\<forall>g \<in> set (n_segments db). located db g)"

lemma paths_apartD:
  assumes "paths_apart db" and "g \<in> set (n_segments db)" and "h \<in> set (n_segments db)"
    and "d \<in> set (n_disks db)" and "e \<in> set (n_disks db)" and "seg_id g \<noteq> seg_id h"
  shows "abs_path d (seg_rel_path g) \<noteq> abs_path e (seg_rel_path h)"
  using assms unfolding paths_apart_def by blast

lemma move_file_frame [simp]:
  "n_segments (snd (move_file db a b)) = n_segments db" "n_disks (snd (move_file db a b)) = n_disks db"
  by (simp_all add: move_file_def)

lemma update_segment_frame [simp]:
  "n_files (update_segment db i f) = n_files db" "n_disks (update_segment db i f) = n_disks db"
  "n_segments (update_segment db i f) = map (\<lambda>g. if seg_id g = i then f g else g) (n_segments db)"
  by (simp_all add: update_segment_def)

lemma move_segment_shape:
  assumes "move_segment g src dst db = (ok, db')"
    and m: "m = move_file db (abs_path src (seg_rel_path g)) (abs_path dst (seg_rel_path g))"
  shows "fst m = ok" and "n_files db' = n_files (snd m)" and "n_disks db' = n_disks db"
    and "n_segments db' = map (\<lambda>h. if ok \<and> seg_id h = seg_id g then h\<lparr>seg_disk := disk_id dst, seg_tier := TIER_RECORD\<rparr> else h) (n_segments db)"
proof -
  obtain b db1 where b: "m = (b, db1)" by (cases m)
  have frame: "n_segments db1 = n_segments db" "n_disks db1 = n_disks db"
    using m b move_file_frame by (metis snd_conv)+
  have eq: "ok = b" "db' = (if b then update_segment db1 (seg_id g) (\<lambda>h. h\<lparr>seg_disk := disk_id dst, seg_tier := TIER_RECORD\<rparr>) else db1)"
    using assms(1) unfolding move_segment_def m [symmetric] b by (cases b; simp)+
  show "fst m = ok" by (simp add: b eq(1))
  show "n_files db' = n_files (snd m)" by (simp add: b eq(2))
  show "n_disks db' = n_disks db" by (simp add: eq(2) frame)
  show "n_segments db' = map (\<lambda>h. if ok \<and> seg_id h = seg_id g then h\<lparr>seg_disk := disk_id dst, seg_tier := TIER_RECORD\<rparr> else h) (n_segments db)"
    by (cases b) (simp_all add: eq frame)
qed

lemma move_segment_rows:
  assumes "move_segment g src dst db = (ok, db')"
  shows "n_segments db' = map (\<lambda>h. if ok \<and> seg_id h = seg_id g then h\<lparr>seg_disk := disk_id dst, seg_tier := TIER_RECORD\<rparr> else h) (n_segments db)"
    and "n_disks db' = n_disks db" and "map seg_id (n_segments db') = map seg_id (n_segments db)"
  using move_segment_shape [OF assms refl] by simp_all

lemma move_segment_files:
  assumes "move_segment g src dst db = (ok, db')" and "f \<in> set (n_files db)" and "ok \<Longrightarrow> f \<noteq> abs_path src (seg_rel_path g)"
  shows "f \<in> set (n_files db')"
  using move_segment_shape(1,2) [OF assms(1) refl] assms(2,3) by (auto simp: move_file_def)

lemma move_segment_arrives:
  "move_segment g src dst db = (True, db') \<Longrightarrow> abs_path dst (seg_rel_path g) \<in> set (n_files db')"
  using move_segment_shape(1,2) [OF _ refl, of g src dst db True db'] by (auto simp: move_file_def split: if_splits)

lemma distinct_key_eq: "distinct (map f xs) \<Longrightarrow> x \<in> set xs \<Longrightarrow> y \<in> set xs \<Longrightarrow> f x = f y \<Longrightarrow> x = y"
  by (simp add: distinct_map inj_on_def)

lemma move_segment_old_row:
  assumes "move_segment g src dst db = (ok, db')" and "h \<in> set (n_segments db')"
  obtains h0 where "h0 \<in> set (n_segments db)" "seg_id h0 = seg_id h" "seg_rel_path h0 = seg_rel_path h"
    "if ok \<and> seg_id h = seg_id g then seg_disk h = disk_id dst else h0 = h"
proof -
  obtain h0 where h0: "h0 \<in> set (n_segments db)"
    "h = (if ok \<and> seg_id h0 = seg_id g then h0\<lparr>seg_disk := disk_id dst, seg_tier := TIER_RECORD\<rparr> else h0)"
    using assms(2) unfolding move_segment_rows(1) [OF assms(1)] set_map by (rule imageE)
  show ?thesis by (rule that [OF h0(1)]) (use h0(2) in \<open>simp_all split: if_splits\<close>)
qed

lemma move_segment_apart:
  assumes "paths_apart db" and "move_segment g src dst db = (ok, db')"
  shows "paths_apart db'"
  unfolding paths_apart_def
proof (intro ballI impI)
  fix h k d e assume a: "h \<in> set (n_segments db')" "k \<in> set (n_segments db')"
    "d \<in> set (n_disks db')" "e \<in> set (n_disks db')" "seg_id h \<noteq> seg_id k"
  obtain h0 where "h0 \<in> set (n_segments db)" "seg_id h0 = seg_id h" "seg_rel_path h0 = seg_rel_path h"
    by (rule move_segment_old_row [OF assms(2) a(1)])
  moreover obtain k0 where "k0 \<in> set (n_segments db)" "seg_id k0 = seg_id k" "seg_rel_path k0 = seg_rel_path k"
    by (rule move_segment_old_row [OF assms(2) a(2)])
  ultimately show "abs_path d (seg_rel_path h) \<noteq> abs_path e (seg_rel_path k)"
    using paths_apartD [OF assms(1), of h0 k0 d e] a(3-5) move_segment_rows(2) [OF assms(2)] by simp
qed

lemma move_segment_located:
  assumes ok: "index_ok db" and g: "g \<in> set (n_segments db)" and disks: "src \<in> set (n_disks db)" "dst \<in> set (n_disks db)"
    and move: "move_segment g src dst db = (b, db')" and h: "h \<in> set (n_segments db')"
  shows "located db' h"
  unfolding located_def
proof (intro ballI impI)
  fix d assume d: "d \<in> set (n_disks db')" "disk_id d = seg_disk h"
  then have d': "d \<in> set (n_disks db)" using move_segment_rows(2) [OF move] by simp
  have keys: "distinct (map seg_id (n_segments db))" and dkeys: "distinct (map disk_id (n_disks db))"
    and sep: "paths_apart db" and loc: "\<And>g. g \<in> set (n_segments db) \<Longrightarrow> located db g"
    using ok by (simp_all add: index_ok_def)
  obtain h0 where h0: "h0 \<in> set (n_segments db)" "seg_id h0 = seg_id h" "seg_rel_path h0 = seg_rel_path h"
    "if b \<and> seg_id h = seg_id g then seg_disk h = disk_id dst else h0 = h"
    by (rule move_segment_old_row [OF move h])
  show "abs_path d (seg_rel_path h) \<in> set (n_files db')"
  proof (cases "b \<and> seg_id h = seg_id g")
    case True
    then have "h0 = g" using distinct_key_eq [OF keys h0(1) g] h0(2) by simp
    moreover have "d = dst" using distinct_key_eq [OF dkeys d' disks(2)] d(2) h0(4) True by simp
    ultimately show ?thesis using move_segment_arrives [of g src dst db db'] move True h0(3) by simp
  next
    case False
    then have same: "h0 = h" using h0(4) by (simp split: if_splits)
    then have "abs_path d (seg_rel_path h) \<in> set (n_files db)"
      using loc [OF h0(1)] d(2) d' by (simp add: located_def)
    moreover have "abs_path d (seg_rel_path h) \<noteq> abs_path src (seg_rel_path g)" if b
      using paths_apartD [OF sep, of h g d src] False same h0(1) g d' disks(1) that by simp
    ultimately show ?thesis by (rule move_segment_files [OF move])
  qed
qed

lemma move_segment_index_ok [axp_inv]:
  assumes "index_ok db" and "g \<in> set (n_segments db)" and "src \<in> set (n_disks db)" "dst \<in> set (n_disks db)"
    and "move_segment g src dst db = (b, db')"
  shows "index_ok db'"
  using move_segment_located [OF assms] move_segment_apart [OF _ assms(5)] move_segment_rows(2,3) [OF assms(5)] assms(1)
  by (simp add: index_ok_def)

section \<open>Evacuation returns and loses nothing\<close>

definition on_disk :: "db_id \<Rightarrow> 'z nvr_scheme \<Rightarrow> segment list" where
  "on_disk i db = filter (\<lambda>g. seg_disk g = i) (n_segments db)"

definition pending :: "db_id \<Rightarrow> int \<times> db_id list \<times> 'z nvr_scheme \<Rightarrow> segment set" where
  "pending i acc = (case acc of (moved, failed, db) \<Rightarrow> {g \<in> set (on_disk i db). seg_id g \<notin> set failed})"

text \<open>The invariant of the evacuation of a disk \<open>src\<close> that held \<open>n\<close> segments.\<close>

definition evac_inv :: "disk \<Rightarrow> disk list \<Rightarrow> db_id list \<Rightarrow> int \<Rightarrow> int \<times> db_id list \<times> 'z nvr_scheme \<Rightarrow> bool" where
  "evac_inv src disks ids n acc \<longleftrightarrow>
     (case acc of (moved, failed, db) \<Rightarrow>
        index_ok db \<and> n_disks db = disks \<and> map seg_id (n_segments db) = ids \<and> distinct failed
        \<and> set failed \<subseteq> seg_id ` set (on_disk (disk_id src) db) \<and> moved + int (length (on_disk (disk_id src) db)) = n)"

lemma index_ok_keys: "index_ok db \<Longrightarrow> distinct (map seg_id (n_segments db))"
  by (simp add: index_ok_def)

lemma evac_inv_keys: "evac_inv src disks ids n (moved, failed, db) \<Longrightarrow> distinct (map seg_id (n_segments db))"
  by (rule index_ok_keys) (simp add: evac_inv_def)

lemma evacuate_step_pending:
  assumes inv: "evac_inv src disks ids n acc" and g: "g \<in> pending (disk_id src) acc"
    and targets: "targets \<noteq> []" "\<And>d. d \<in> set targets \<Longrightarrow> d \<in> set disks \<and> disk_id d \<noteq> disk_id src"
    and src: "src \<in> set disks"
  shows "evac_inv src disks ids n (evacuate_step src targets g acc)
       \<and> pending (disk_id src) (evacuate_step src targets g acc) = pending (disk_id src) acc - {g}"
proof -
  let ?i = "disk_id src"
  obtain moved failed db where acc: "acc = (moved, failed, db)" by (rule prod_cases3)
  have ok: "index_ok db" and disks: "n_disks db = disks" and ids: "map seg_id (n_segments db) = ids"
    and f: "distinct failed" "set failed \<subseteq> seg_id ` set (on_disk ?i db)" and n: "moved + int (length (on_disk ?i db)) = n"
    using inv by (simp_all add: evac_inv_def acc)
  have keys: "distinct (map seg_id (n_segments db))" using ok by (simp add: index_ok_def)
  have g': "g \<in> set (n_segments db)" "seg_disk g = ?i" "seg_id g \<notin> set failed"
    using g by (simp_all add: pending_def acc on_disk_def)
  obtain dst where dst: "max_by usable_free_bytes targets = Some dst"
    using max_by_ex [of usable_free_bytes targets] targets(1) by blast
  have dst': "dst \<in> set disks" "disk_id dst \<noteq> ?i" using targets(2) [OF max_by_SomeD(1) [OF dst]] by simp_all
  obtain b db1 where m: "move_segment g src dst db = (b, db1)" by (rule prod.exhaust)
  note rows = move_segment_rows [OF m]
  have ok1: "index_ok db1" using move_segment_index_ok [OF ok g'(1) _ _ m] src dst'(1) disks by simp
  have same: "h = g" if "h \<in> set (n_segments db)" "seg_id h = seg_id g" for h
    using distinct_key_eq [OF keys that(1) g'(1) that(2)] .
  show ?thesis
  proof (cases b)
    case True
    have step: "evacuate_step src targets g acc = (moved + 1, failed, db1)"
      using True by (simp add: evacuate_step_def acc dst m)
    have "on_disk ?i db1 = filter (\<lambda>h. seg_id h \<noteq> seg_id g) (on_disk ?i db)"
    proof -
      have "filter (\<lambda>h. seg_disk h = ?i) (map (\<lambda>h. if seg_id h = seg_id g then h\<lparr>seg_disk := disk_id dst, seg_tier := TIER_RECORD\<rparr> else h) xs)
          = filter (\<lambda>h. seg_id h \<noteq> seg_id g) (filter (\<lambda>h. seg_disk h = ?i) xs)" for xs
        using dst'(2) by (induction xs) simp_all
      then show ?thesis using True by (simp add: on_disk_def rows(1))
    qed
    also have "\<dots> = removeAll g (on_disk ?i db)"
      unfolding removeAll_filter_not_eq by (rule filter_cong) (auto simp: on_disk_def dest: same)
    finally have od: "on_disk ?i db1 = removeAll g (on_disk ?i db)" .
    have gin: "g \<in> set (on_disk ?i db)" using g' by (simp add: on_disk_def)
    have "distinct (on_disk ?i db)" using keys by (simp add: on_disk_def distinct_map)
    then have "length (on_disk ?i db) = Suc (length (on_disk ?i db1))"
      using gin unfolding od by (simp add: distinct_remove1_removeAll [symmetric] length_remove1) (metis length_pos_if_in_set Suc_pred)
    moreover have "set failed \<subseteq> seg_id ` set (on_disk ?i db1)" using f(2) g'(3) unfolding od by auto
    ultimately have "evac_inv src disks ids n (moved + 1, failed, db1)"
      using ok1 rows(2,3) disks ids f(1) n by (simp add: evac_inv_def)
    moreover have "pending ?i (moved + 1, failed, db1) = pending ?i acc - {g}"
      unfolding pending_def acc prod.case od by auto
    ultimately show ?thesis unfolding step by (rule conjI)
  next
    case False
    have step: "evacuate_step src targets g acc = (moved, List.insert (seg_id g) failed, db1)"
      using False by (simp add: evacuate_step_def acc dst m)
    have od: "on_disk ?i db1 = on_disk ?i db" using False by (simp add: on_disk_def rows(1))
    have "g \<in> set (on_disk ?i db)" using g' by (simp add: on_disk_def)
    then have "evac_inv src disks ids n (moved, List.insert (seg_id g) failed, db1)"
      using ok1 rows(2,3) disks ids f n by (simp add: evac_inv_def od)
    moreover have "pending ?i (moved, List.insert (seg_id g) failed, db1) = pending ?i acc - {g}"
      unfolding pending_def acc prod.case od by (auto simp: on_disk_def dest: same)
    ultimately show ?thesis unfolding step by (rule conjI)
  qed
qed

lemma evacuate_batch_pending:
  assumes "evac_inv src disks ids n acc" and "targets \<noteq> []" "\<And>d. d \<in> set targets \<Longrightarrow> d \<in> set disks \<and> disk_id d \<noteq> disk_id src"
    and "src \<in> set disks" and "set gs \<subseteq> pending (disk_id src) acc" and "distinct gs"
  shows "evac_inv src disks ids n (fold (evacuate_step src targets) gs acc)
       \<and> pending (disk_id src) (fold (evacuate_step src targets) gs acc) = pending (disk_id src) acc - set gs"
  using assms(1,5,6)
proof (induction gs arbitrary: acc)
  case Nil
  then show ?case by simp
next
  case (Cons g gs)
  have "g \<in> pending (disk_id src) acc" using Cons.prems(2) by simp
  from evacuate_step_pending [OF Cons.prems(1) this assms(2,3,4)]
  have step: "evac_inv src disks ids n (evacuate_step src targets g acc)"
    "pending (disk_id src) (evacuate_step src targets g acc) = pending (disk_id src) acc - {g}" by blast+
  have "set gs \<subseteq> pending (disk_id src) (evacuate_step src targets g acc)"
    unfolding step(2) using Cons.prems(2,3) by auto
  from Cons.IH [OF step(1) this] Cons.prems(3) step(2) show ?case by auto
qed

text \<open>The query asks for \<open>200 + len(failed_ids)\<close> rows, so failures cannot hide a row that is left to do.\<close>

lemma evacuate_batch_set: "set (evacuate_batch i failed db) \<subseteq> pending i (moved, failed, db)"
  by (auto simp: evacuate_batch_def pending_def on_disk_def Segment_oldest_on_disk_def dest: in_set_takeD)

lemma evacuate_batch_empty:
  assumes "distinct (map seg_id (n_segments db))" and "evacuate_batch i failed db = []"
  shows "pending i (moved, failed, db) = {}"
proof -
  let ?rows = "sort_key seg_start (on_disk i db)" and ?k = "200 + length failed"
  have all: "seg_id g \<in> set failed" if "g \<in> set (take ?k ?rows)" for g
    using assms(2) that by (auto simp: evacuate_batch_def Segment_oldest_on_disk_def on_disk_def filter_empty_conv)
  have inj: "inj_on seg_id (set (on_disk i db))" using assms(1) by (auto simp: on_disk_def distinct_map inj_on_def)
  then have "distinct (map seg_id ?rows)" using assms(1) by (simp add: distinct_map on_disk_def)
  then have "distinct (take ?k (map seg_id ?rows))" by (rule distinct_take)
  then have "length (take ?k ?rows) = card (seg_id ` set (take ?k ?rows))"
    by (metis distinct_card length_map list.set_map take_map)
  also have "\<dots> \<le> card (set failed)" by (rule card_mono) (use all in auto)
  also have "\<dots> \<le> length failed" by (rule card_length)
  finally have "length ?rows \<le> ?k" by simp
  then have "take ?k ?rows = ?rows" by simp
  then show ?thesis using all by (auto simp: pending_def)
qed

lemma evacuate_loop_returns:
  assumes "evac_inv src disks ids n acc" and "targets \<noteq> []" "\<And>d. d \<in> set targets \<Longrightarrow> d \<in> set disks \<and> disk_id d \<noteq> disk_id src"
    and "src \<in> set disks"
  shows "\<exists>acc'. evacuate_loop src targets acc = Some acc' \<and> evac_inv src disks ids n acc' \<and> pending (disk_id src) acc' = {}"
  using assms(1)
proof (induction "card (pending (disk_id src) acc)" arbitrary: acc rule: less_induct)
  case less
  obtain moved failed db where acc: "acc = (moved, failed, db)" by (rule prod_cases3)
  let ?batch = "evacuate_batch (disk_id src) failed db"
  have keys: "distinct (map seg_id (n_segments db))" using less.prems unfolding acc by (rule evac_inv_keys)
  show ?case
  proof (cases "?batch = []")
    case True
    have "evacuate_loop src targets acc = Some acc"
      by (subst evacuate_loop.simps) (simp add: acc True)
    with less.prems evacuate_batch_empty [OF keys True] show ?thesis by (auto simp: acc)
  next
    case False
    let ?acc = "fold (evacuate_step src targets) ?batch acc"
    have sub: "set ?batch \<subseteq> pending (disk_id src) acc" unfolding acc by (rule evacuate_batch_set)
    have "distinct ?batch" using keys by (simp add: evacuate_batch_def Segment_oldest_on_disk_def distinct_map)
    from evacuate_batch_pending [OF less.prems assms(2,3,4) sub this]
    have inv: "evac_inv src disks ids n ?acc" and pend: "pending (disk_id src) ?acc = pending (disk_id src) acc - set ?batch" by blast+
    have "finite (pending (disk_id src) acc)" by (simp add: pending_def acc)
    then have "card (pending (disk_id src) ?acc) < card (pending (disk_id src) acc)"
      unfolding pend using sub False by (intro psubset_card_mono psubsetI; cases ?batch; force)
    from less.hyps [OF this inv] show ?thesis
      by (subst evacuate_loop.simps) (simp add: acc False)
  qed
qed


section \<open>The sweep\<close>

lemma build_disk_map_mem: "build_disk_map db i = Some d \<Longrightarrow> d \<in> set (n_disks db) \<and> disk_deleted d = None \<and> disk_id d = i"
proof -
  have "foldl (\<lambda>m d. m(disk_id d \<mapsto> d)) m ds i = Some d \<Longrightarrow> m i = Some d \<or> d \<in> set ds \<and> disk_id d = i" for m ds
    by (induction ds arbitrary: m) (fastforce split: if_splits)+
  then show "build_disk_map db i = Some d \<Longrightarrow> d \<in> set (n_disks db) \<and> disk_deleted d = None \<and> disk_id d = i"
    by (fastforce simp: build_disk_map_def Disk_get_all_def)
qed

text \<open>What the sweep may change of a row: the tier, and the disk to a registered one.\<close>

definition footage :: "segment \<Rightarrow> segment" where
  "footage g = g\<lparr>seg_disk := 0, seg_tier := []\<rparr>"

definition kept :: "disk list \<Rightarrow> segment \<Rightarrow> segment \<Rightarrow> bool" where
  "kept disks g h \<longleftrightarrow> footage h = footage g \<and> (seg_disk h = seg_disk g \<or> seg_disk h \<in> disk_id ` set disks)"

lemma kept_refl [simp]: "kept disks g g"
  by (simp add: kept_def)

lemma kept_trans: "kept disks f g \<Longrightarrow> kept disks g h \<Longrightarrow> kept disks f h"
  by (auto simp: kept_def)

lemma list_all2_kept_trans:
  assumes "list_all2 (kept disks) xs ys" and "list_all2 (kept disks) ys zs"
  shows "list_all2 (kept disks) xs zs"
  by (rule list_all2_trans [OF _ assms]) (rule kept_trans)

lemma list_all2_map_kept:
  assumes "\<And>g. kept disks g (f g)"
  shows "list_all2 (kept disks) xs (map f xs)"
  by (induction xs) (simp_all add: assms)

lemma move_segment_kept:
  assumes "move_segment g src dst db = (ok, db')" and "dst \<in> set disks"
  shows "list_all2 (kept disks) (n_segments db) (n_segments db')"
  unfolding move_segment_rows(1) [OF assms(1)]
  by (rule list_all2_map_kept) (use assms(2) in \<open>simp add: kept_def footage_def\<close>)

lemma set_tier_index_ok:
  assumes "index_ok db"
  shows "index_ok (update_segment db i (\<lambda>h. h\<lparr>seg_tier := t\<rparr>))"
proof -
  let ?db = "update_segment db i (\<lambda>h. h\<lparr>seg_tier := t\<rparr>)"
  have row: "\<exists>g0 \<in> set (n_segments db). seg_id g0 = seg_id g \<and> seg_rel_path g0 = seg_rel_path g \<and> seg_disk g0 = seg_disk g"
    if "g \<in> set (n_segments ?db)" for g using that by (auto split: if_splits)
  have ids: "map seg_id (n_segments ?db) = map seg_id (n_segments db)" by simp
  have "paths_apart ?db"
    unfolding paths_apart_def
  proof (intro ballI impI)
    fix g h d e assume a: "g \<in> set (n_segments ?db)" "h \<in> set (n_segments ?db)" "d \<in> set (n_disks ?db)" "e \<in> set (n_disks ?db)" "seg_id g \<noteq> seg_id h"
    from row [OF a(1)] row [OF a(2)] obtain g0 h0 where "g0 \<in> set (n_segments db)" "seg_id g0 = seg_id g" "seg_rel_path g0 = seg_rel_path g"
      "h0 \<in> set (n_segments db)" "seg_id h0 = seg_id h" "seg_rel_path h0 = seg_rel_path h" by metis
    then show "abs_path d (seg_rel_path g) \<noteq> abs_path e (seg_rel_path h)"
      using paths_apartD [of db g0 h0 d e] assms a(3-5) by (simp add: index_ok_def)
  qed
  moreover have "located ?db g" if "g \<in> set (n_segments ?db)" for g
    using row [OF that] assms by (auto simp: index_ok_def located_def)
  ultimately show ?thesis using assms unfolding index_ok_def ids by simp
qed

text \<open>One promotion: the invariant, the rows it does not name, and where the segment may go.\<close>

lemma promote_step_inv:
  assumes ok: "index_ok db" and g: "g \<in> set (n_segments db)" and dm: "ran dm \<subseteq> set (n_disks db)"
    and rd: "set rds \<subseteq> set (n_disks db)" and step: "promote_step dm rds g (n, db) = (n', db')"
  shows "index_ok db'" and "n_disks db' = n_disks db" and "list_all2 (kept (n_disks db)) (n_segments db) (n_segments db')"
    and "\<And>h. h \<in> set (n_segments db) \<Longrightarrow> seg_id h \<noteq> seg_id g \<Longrightarrow> h \<in> set (n_segments db')"
proof -
  consider "db' = db" | "db' = update_segment db (seg_id g) (\<lambda>h. h\<lparr>seg_tier := TIER_RECORD\<rparr>)"
    | src dst b where "src \<in> set (n_disks db)" "dst \<in> set (n_disks db)" "move_segment g src dst db = (b, db')"
  proof (cases "dm (seg_disk g)")
    case None
    then show thesis using step that(1) by (simp add: promote_step_def)
  next
    case (Some src)
    show thesis
    proof (cases "rds = [] \<or> disk_role src = ROLE_RECORD")
      case True
      then show thesis using step that(2) Some by (cases rds) (simp_all add: promote_step_def)
    next
      case False
      then obtain dst ds where "rds = dst # ds" by (cases rds) auto
      with False Some step rd dm ranI [of dm "seg_disk g" src] that(3) [of src dst] show thesis
        by (auto simp: promote_step_def split: prod.splits)
    qed
  qed
  note shape = this
  show "index_ok db'" by (cases rule: shape) (simp_all add: ok set_tier_index_ok move_segment_index_ok [OF ok g])
  show "n_disks db' = n_disks db" by (cases rule: shape) (simp_all add: move_segment_rows(2))
  show "list_all2 (kept (n_disks db)) (n_segments db) (n_segments db')"
    by (cases rule: shape) (simp_all add: list_all2_same move_segment_kept list_all2_map_kept kept_def footage_def)
  show "h \<in> set (n_segments db')" if "h \<in> set (n_segments db)" "seg_id h \<noteq> seg_id g" for h
    using that by (cases rule: shape) (force simp: move_segment_rows(1))+
qed

lemma promote_inv:
  assumes "index_ok db" and "set gs \<subseteq> set (n_segments db)" and "distinct (map seg_id gs)"
    and "ran dm \<subseteq> set (n_disks db)" and "set rds \<subseteq> set (n_disks db)"
    and "fold (promote_step dm rds) gs (n, db) = (n', db')"
  shows "index_ok db' \<and> n_disks db' = n_disks db \<and> list_all2 (kept (n_disks db)) (n_segments db) (n_segments db')"
  using assms
proof (induction gs arbitrary: n db)
  case Nil
  then show ?case by (simp add: list_all2_same)
next
  case (Cons g gs)
  obtain n1 db1 where st: "promote_step dm rds g (n, db) = (n1, db1)" by (rule prod.exhaust)
  have "g \<in> set (n_segments db)" using Cons.prems(2) by simp
  note step = promote_step_inv [OF Cons.prems(1) this Cons.prems(4,5) st]
  have "set gs \<subseteq> set (n_segments db1)"
  proof
    fix h assume "h \<in> set gs"
    then show "h \<in> set (n_segments db1)" using Cons.prems(2,3) by (intro step(4)) (auto simp: image_iff)
  qed
  then have "index_ok db' \<and> n_disks db' = n_disks db1 \<and> list_all2 (kept (n_disks db1)) (n_segments db1) (n_segments db')"
    using Cons.prems(3-6) st step(1,2) by (intro Cons.IH [of db1 n1]) simp_all
  with step(2) list_all2_kept_trans [OF step(3)] show ?case by simp
qed

lemma fold_delete_rows:
  "n_segments (fold (\<lambda>g d. Segment_delete_row d (seg_id g)) gs db) = filter (\<lambda>h. seg_id h \<notin> seg_id ` set gs) (n_segments db)"
  "n_disks (fold (\<lambda>g d. Segment_delete_row d (seg_id g)) gs db) = n_disks db"
  "n_files (fold (\<lambda>g d. Segment_delete_row d (seg_id g)) gs db) = n_files db"
  by (induction gs arbitrary: db) (auto simp: Segment_delete_row_def intro!: filter_cong)

lemma prune_orphans_inv:
  assumes "index_ok db" and "prune_orphans db = (k, db')"
  shows "index_ok db'" and "\<And>g. g \<in> set (n_segments db) \<Longrightarrow> seg_disk g \<in> disk_id ` set (n_disks db) \<Longrightarrow> g \<in> set (n_segments db')"
proof -
  define gs where "gs = (if n_disks db = [] then [] else take 2000 (filter (\<lambda>g. seg_disk g \<notin> disk_id ` set (n_disks db)) (n_segments db)))"
  have db': "db' = fold (\<lambda>g d. Segment_delete_row d (seg_id g)) gs db"
    using assms(2) by (auto simp: prune_orphans_def gs_def Let_def split: if_splits)
  note rows = fold_delete_rows [of gs db, folded db']
  have gs: "g \<in> set (n_segments db)" "seg_disk g \<notin> disk_id ` set (n_disks db)" if "g \<in> set gs" for g
    using that by (auto simp: gs_def dest: in_set_takeD split: if_splits)
  show "index_ok db'"
    using assms(1) unfolding index_ok_def paths_apart_def located_def rows
    by (simp add: distinct_map_filter)
  show "g \<in> set (n_segments db')" if g: "g \<in> set (n_segments db)" "seg_disk g \<in> disk_id ` set (n_disks db)" for g
  proof -
    have "seg_id g \<notin> seg_id ` set gs"
      using gs g distinct_key_eq [OF index_ok_keys [OF assms(1)]] by blast
    with g(1) show ?thesis by (simp add: rows)
  qed
qed

text \<open>The sweep never loses footage of a registered disk: afterwards index and files still agree, and every
  segment whose disk has a row (also a soft-deleted one) is still indexed with the same key, camera,
  path and times, on a registered disk; only rows whose disk row is gone are pruned.\<close>

theorem sweep_keeps_footage:
  assumes "index_ok db" and "g \<in> set (n_segments db)" and "seg_disk g \<in> disk_id ` set (n_disks db)"
    and "sweep now db = (counts, db')"
  shows "index_ok db' \<and> (\<exists>h \<in> set (n_segments db'). footage h = footage g \<and> seg_disk h \<in> disk_id ` set (n_disks db))"
proof -
  let ?rds = "sort_key (\<lambda>d. - usable_free_bytes d) (Disk_get_writable db [ROLE_RECORD])"
  let ?gs = "Segment_cache_tier_older_than db (sweep_cutoff now db) 500"
  obtain n db1 where p: "fold (promote_step (build_disk_map db) ?rds) ?gs (0, db) = (n, db1)" by (rule prod.exhaust)
  obtain k db2 where o: "prune_orphans db1 = (k, db2)" by (rule prod.exhaust)
  have db': "db' = db2" using assms(4) by (simp add: sweep_def p o)
  have gs: "set ?gs \<subseteq> set (n_segments db)" by (auto simp: Segment_cache_tier_older_than_def dest: in_set_takeD)
  have "distinct (map seg_id ?gs)"
    unfolding Segment_cache_tier_older_than_def take_map [symmetric]
    using index_ok_keys [OF assms(1)] by (intro distinct_take) (auto simp: distinct_map inj_on_def)
  moreover have "ran (build_disk_map db) \<subseteq> set (n_disks db)" by (auto simp: ran_def dest: build_disk_map_mem)
  moreover have "set ?rds \<subseteq> set (n_disks db)" by (auto simp: Disk_get_writable_def)
  ultimately have inv: "index_ok db1" "n_disks db1 = n_disks db" "list_all2 (kept (n_disks db)) (n_segments db) (n_segments db1)"
    using promote_inv [OF assms(1) gs _ _ _ p] by blast+
  obtain h where h: "h \<in> set (n_segments db1)" "kept (n_disks db) g h"
    using inv(3) assms(2) by (metis in_set_conv_nth list_all2_conv_all_nth)
  then have "seg_disk h \<in> disk_id ` set (n_disks db)" "footage h = footage g" using assms(3) by (auto simp: kept_def)
  with prune_orphans_inv [OF inv(1) o] h(1) inv(2) show ?thesis unfolding db' by auto
qed

section \<open>Witnesses\<close>

text \<open>Two disks and two segments on the cache disk; the file of the second one cannot be removed.\<close>

definition sweep_disk :: "db_id \<Rightarrow> string \<Rightarrow> string \<Rightarrow> disk" where
  "sweep_disk i mount role = (sample_disk i role 500)\<lparr>disk_mount_path := mount\<rparr>"

definition sweep_segment :: "db_id \<Rightarrow> string \<Rightarrow> segment" where
  "sweep_segment i path =
     \<lparr>seg_id = i, seg_camera = 1, seg_disk = 5, seg_rel_path = path, seg_start = i * 1000, seg_end = i * 1000 + 1000,
      seg_duration_ms = 1000, seg_size = 60, seg_container = ''mpegts'', seg_video_codec = None, seg_has_audio = False,
      seg_width = None, seg_height = None, seg_first_keyframe_ms = 0, seg_reason = SEG_REASON_CONTINUOUS,
      seg_tier = TIER_CACHE, seg_role = ''main'', seg_corrupt = False\<rparr>"

definition sweep_site :: nvr where
  "sweep_site =
     sample_db\<lparr>n_disks := [sweep_disk 5 ''/c'' ROLE_CACHE, sweep_disk 6 ''/r'' ROLE_RECORD],
       n_segments := [sweep_segment 1 ''1/a.ts'', sweep_segment 2 ''1/b.ts''],
       n_files := [''/c/1/a.ts'', ''/c/1/b.ts''], n_locked := [''/c/1/b.ts'']\<rparr>"

lemma sweep_site_ok: "index_ok sweep_site"
  by (simp add: index_ok_def paths_apart_def located_def abs_path_def path_join_def
      sweep_site_def sweep_disk_def sweep_segment_def sample_defs)


theorem sweep_keeps_footage_witness:
  "fst (sweep 1000000 sweep_site) = (1, 0)
   \<and> (\<exists>h \<in> set (n_segments (snd (sweep 1000000 sweep_site))). footage h = footage (sweep_segment 1 ''1/a.ts''))"
proof
  show "fst (sweep 1000000 sweep_site) = (1, 0)" by code_simp
  have "sweep_segment 1 ''1/a.ts'' \<in> set (n_segments sweep_site)" by (simp add: sweep_site_def)
  moreover have "seg_disk (sweep_segment 1 ''1/a.ts'') \<in> disk_id ` set (n_disks sweep_site)"
    by (simp add: sweep_site_def sweep_segment_def sweep_disk_def sample_defs)
  ultimately show "\<exists>h \<in> set (n_segments (snd (sweep 1000000 sweep_site))). footage h = footage (sweep_segment 1 ''1/a.ts'')"
    using sweep_keeps_footage [OF sweep_site_ok _ _ prod.collapse [symmetric]] by blast
qed

end
