(* ===== verification/Ffmpeg.thy ===== *)
theory Ffmpeg
  imports PyVal
begin

text \<open>
  The command builders and the probe parser of \<open>server/service/ffmpeg.py\<close>. Commands are argument
  lists. The configuration (\<open>FFMPEG_BIN\<close>, \<open>GO2RTC_RTSP\<close>, the global hardware-acceleration mode) and
  the float operations (\<open>'%.3f' % x\<close>, \<open>int(float(v) * 1000)\<close>) are fields of \<open>ff_env\<close>.

  The lemmas show that a path written into a concat list and a watermark text written into a filter
  graph are read back as they are: the quoting cannot be escaped.
\<close>

record ff_env =
  ff_bin :: string
  ff_rtsp :: string
  ff_hwaccel :: "string option"
  ff_font :: string
  ff_fmt3 :: "rat \<Rightarrow> string"
  ff_ms :: "pyval \<Rightarrow> py_error + int"

section \<open>Paths and names\<close>

text \<open>\<open>s.replace(c, t)\<close> for one character.\<close>

definition replace_char :: "char \<Rightarrow> string \<Rightarrow> string \<Rightarrow> string" where
  "replace_char c t s = concat (map (\<lambda>x. if x = c then t else [x]) s)"

definition quote_char :: char where "quote_char = CHR 0x27"
definition backslash :: char where "backslash = CHR 0x5C"

definition concat_entry :: "string \<Rightarrow> string" where
  "concat_entry path =
     (let p = replace_char quote_char [quote_char, backslash, quote_char, quote_char] (replace_char backslash ''/'' path)
      in ''file '' @ quote_char # p @ [quote_char, CHR 0x0A])"

definition escape_filter_path :: "string \<Rightarrow> string" where
  "escape_filter_path path = replace_char CHR '':'' [backslash, CHR '':''] (replace_char backslash ''/'' path)"

definition restream_url :: "ff_env \<Rightarrow> string \<Rightarrow> string" where
  "restream_url E name = ff_rtsp E @ ''/'' @ name"

definition global_hwaccel :: "ff_env \<Rightarrow> string" where
  "global_hwaccel E = (case ff_hwaccel E of None \<Rightarrow> ''none'' | Some m \<Rightarrow> if m = [] then ''none'' else m)"

definition hwaccel_prefix :: "ff_env \<Rightarrow> string list" where
  "hwaccel_prefix E = (let mode = global_hwaccel E in if mode \<in> {[], ''none''} then [] else [''-hwaccel'', mode])"

definition segment_ext :: "string \<Rightarrow> string" where
  "segment_ext container = (if container = ''mpegts'' then ''ts'' else ''mp4'')"

section \<open>Recording and playback commands\<close>

definition build_segment_cmd :: "ff_env \<Rightarrow> string \<Rightarrow> string \<Rightarrow> int \<Rightarrow> string \<Rightarrow> string option \<Rightarrow> string list" where
  "build_segment_cmd E input_url out_pattern segment_seconds container video_codec =
     [ff_bin E, ''-hide_banner'', ''-loglevel'', ''warning'', ''-rtsp_transport'', ''tcp'', ''-timeout'', ''10000000'',
      ''-i'', input_url, ''-map'', ''0:v:0'', ''-map'', ''0:a?'']
     @ (if container = ''mpegts''
        then [''-c:v'', ''copy'', ''-c:a'', ''aac'', ''-segment_format'', ''mpegts'']
        else [''-c:v'', ''copy''] @ (if video_codec = Some ''h265'' then [''-tag:v'', ''hvc1''] else [])
             @ [''-c:a'', ''aac'', ''-segment_format'', ''mp4'',
                ''-segment_format_options'', ''movflags=+frag_keyframe+empty_moov+default_base_moof''])
     @ [''-f'', ''segment'', ''-segment_time'', str_of_int segment_seconds, ''-reset_timestamps'', ''1'', ''-strftime'', ''1'']
     @ [out_pattern]"

definition build_hls_remux_cmd :: "ff_env \<Rightarrow> string \<Rightarrow> string \<Rightarrow> string list" where
  "build_hls_remux_cmd E src_path out_path =
     [ff_bin E, ''-hide_banner'', ''-loglevel'', ''error'', ''-i'', src_path, ''-map'', ''0:v:0'', ''-map'', ''0:a?'',
      ''-c'', ''copy'', ''-f'', ''mpegts'', ''-y'', out_path]"

definition build_hls_transcode_cmd :: "ff_env \<Rightarrow> string \<Rightarrow> string \<Rightarrow> string list" where
  "build_hls_transcode_cmd E src_path out_path =
     [ff_bin E, ''-hide_banner'', ''-loglevel'', ''error''] @ hwaccel_prefix E
     @ [''-i'', src_path, ''-map'', ''0:v:0'', ''-map'', ''0:a?'',
        ''-c:v'', ''libx264'', ''-preset'', ''veryfast'', ''-crf'', ''23'', ''-pix_fmt'', ''yuv420p'',
        ''-c:a'', ''aac'', ''-f'', ''mpegts'', ''-y'', out_path]"

definition build_keepwarm_cmd :: "ff_env \<Rightarrow> string \<Rightarrow> string list" where
  "build_keepwarm_cmd E input_url =
     [ff_bin E, ''-hide_banner'', ''-loglevel'', ''warning'', ''-rtsp_transport'', ''tcp'', ''-timeout'', ''5000000'',
      ''-i'', input_url, ''-map'', ''0'', ''-c'', ''copy'', ''-f'', ''null'', ''-'']"

section \<open>Export commands\<close>

definition build_concat_copy_cmd :: "ff_env \<Rightarrow> string \<Rightarrow> string \<Rightarrow> rat \<Rightarrow> rat \<Rightarrow> string list" where
  "build_concat_copy_cmd E list_file out_path start_trim end_trim =
     [ff_bin E, ''-hide_banner'', ''-loglevel'', ''error'', ''-f'', ''concat'', ''-safe'', ''0'', ''-i'', list_file,
      ''-ss'', ff_fmt3 E start_trim, ''-to'', ff_fmt3 E end_trim,
      ''-c'', ''copy'', ''-movflags'', ''+faststart'', ''-progress'', ''pipe:1'', ''-y'', out_path]"

definition build_transcode_cmd :: "ff_env \<Rightarrow> string \<Rightarrow> string \<Rightarrow> rat \<Rightarrow> rat \<Rightarrow> int \<Rightarrow> string list" where
  "build_transcode_cmd E list_file out_path start_trim end_trim scale_height =
     [ff_bin E, ''-hide_banner'', ''-loglevel'', ''error''] @ hwaccel_prefix E
     @ [''-f'', ''concat'', ''-safe'', ''0'', ''-i'', list_file,
        ''-ss'', ff_fmt3 E start_trim, ''-to'', ff_fmt3 E end_trim,
        ''-c:v'', ''libx264'', ''-preset'', ''veryfast'', ''-crf'', ''23'', ''-pix_fmt'', ''yuv420p'',
        ''-vf'', ''scale=-2:'' @ str_of_int scale_height,
        ''-c:a'', ''aac'', ''-b:a'', ''128k'', ''-movflags'', ''+faststart'', ''-progress'', ''pipe:1'', ''-y'', out_path]"

text \<open>The watermark is user input, so it is kept as Unicode code points.\<close>

type_synonym utext = "nat list"

definition ucs :: "string \<Rightarrow> utext" where
  "ucs s = map of_char s"

definition watermark_char :: "nat \<Rightarrow> bool" where
  "watermark_char c \<longleftrightarrow>
     65 \<le> c \<and> c \<le> 90 \<or> 97 \<le> c \<and> c \<le> 122 \<or> 48 \<le> c \<and> c \<le> 57 \<or> c \<in> set (ucs '' _.,:-'') \<or> 44032 \<le> c \<and> c \<le> 55203"

definition safe_watermark_text :: "utext option \<Rightarrow> utext" where
  "safe_watermark_text text =
     (let cleaned = take 100 (filter watermark_char (case text of None \<Rightarrow> [] | Some t \<Rightarrow> t))
      in if cleaned = [] then ucs ''AeroX Protect'' else cleaned)"

definition watermark_filter :: "ff_env \<Rightarrow> int \<Rightarrow> utext option \<Rightarrow> utext" where
  "watermark_filter E scale_height text =
     ucs (''scale=-2:'' @ str_of_int scale_height @ '',drawtext=fontfile='' @ escape_filter_path (ff_font E) @ '':text='')
     @ ucs [quote_char] @ safe_watermark_text text @ ucs [quote_char]
     @ ucs '':fontcolor=white@0.92:fontsize=20:box=1:boxcolor=black@0.4:boxborderw=6:x=14:y=14:expansion=none''"

definition build_watermark_transcode_cmd :: "ff_env \<Rightarrow> string \<Rightarrow> string \<Rightarrow> rat \<Rightarrow> rat \<Rightarrow> int \<Rightarrow> utext option \<Rightarrow> utext list" where
  "build_watermark_transcode_cmd E list_file out_path start_trim end_trim scale_height text =
     map ucs ([ff_bin E, ''-hide_banner'', ''-loglevel'', ''error''] @ hwaccel_prefix E
       @ [''-f'', ''concat'', ''-safe'', ''0'', ''-i'', list_file,
          ''-ss'', ff_fmt3 E start_trim, ''-to'', ff_fmt3 E end_trim,
          ''-c:v'', ''libx264'', ''-preset'', ''veryfast'', ''-crf'', ''23'', ''-pix_fmt'', ''yuv420p'', ''-vf''])
     @ [watermark_filter E scale_height text]
     @ map ucs [''-c:a'', ''aac'', ''-b:a'', ''128k'', ''-movflags'', ''+faststart'', ''-progress'', ''pipe:1'', ''-y'', out_path]"

definition build_timelapse_cmd :: "ff_env \<Rightarrow> string \<Rightarrow> string \<Rightarrow> int \<Rightarrow> int \<Rightarrow> string list" where
  "build_timelapse_cmd E list_file out_path speed_factor fps =
     [ff_bin E, ''-hide_banner'', ''-loglevel'', ''error''] @ hwaccel_prefix E
     @ [''-f'', ''concat'', ''-safe'', ''0'', ''-i'', list_file, ''-an'',
        ''-vf'', ''setpts=PTS/'' @ str_of_int (max 1 speed_factor) @ '',fps='' @ str_of_int fps,
        ''-c:v'', ''libx264'', ''-preset'', ''veryfast'', ''-crf'', ''23'', ''-pix_fmt'', ''yuv420p'',
        ''-progress'', ''pipe:1'', ''-y'', out_path]"

definition PRESET_HEIGHTS :: "(string \<times> int) list" where
  "PRESET_HEIGHTS = [(''h264_1080p'', 1080), (''h264_720p'', 720), (''h264_480p'', 480)]"

definition preset_height :: "string option \<Rightarrow> int" where
  "preset_height preset =
     (case map_of PRESET_HEIGHTS (case preset of None \<Rightarrow> [] | Some p \<Rightarrow> p) of None \<Rightarrow> 1080 | Some h \<Rightarrow> h)"

definition build_frame_cmd :: "ff_env \<Rightarrow> string \<Rightarrow> rat \<Rightarrow> string list" where
  "build_frame_cmd E segment_path offset_seconds =
     [ff_bin E, ''-hide_banner'', ''-loglevel'', ''error'', ''-ss'', ff_fmt3 E (max 0 offset_seconds), ''-i'', segment_path,
      ''-frames:v'', ''1'', ''-q:v'', ''3'', ''-f'', ''mjpeg'', ''pipe:1'']"

definition build_thumbnail_cmd :: "ff_env \<Rightarrow> string \<Rightarrow> string \<Rightarrow> int \<Rightarrow> string list" where
  "build_thumbnail_cmd E segment_path out_path width =
     [ff_bin E, ''-hide_banner'', ''-loglevel'', ''error'', ''-i'', segment_path, ''-frames:v'', ''1'', ''-q:v'', ''5'',
      ''-vf'', ''scale='' @ str_of_int width @ '':-2'', ''-y'', out_path]"

section \<open>Probe\<close>

text \<open>The normalised answer. \<open>ffprobe\<close> prints an object with a list of stream objects and a format object.\<close>

record probe_meta =
  pm_duration_ms :: int
  pm_video_codec :: "string option"
  pm_width :: "int option"
  pm_height :: "int option"
  pm_has_audio :: bool

definition opt_int :: "pyval \<Rightarrow> py_error + int option" where
  "opt_int v = (if py_truthy v then (case py_int v of Inl e \<Rightarrow> Inl e | Inr i \<Rightarrow> Inr (Some i)) else Inr None)"

definition parse_probe :: "ff_env \<Rightarrow> pydict list \<Rightarrow> pydict \<Rightarrow> py_error + probe_meta" where
  "parse_probe E streams fmt =
     (let video = find (\<lambda>s. dget s ''codec_type'' = PStr ''video'') streams;
          has_audio = list_ex (\<lambda>s. dget s ''codec_type'' = PStr ''audio'') streams;
          vd = (case video of None \<Rightarrow> [] | Some d \<Rightarrow> d);
          duration = py_or (dget fmt ''duration'') (dget vd ''duration'');
          codec = (case dget vd ''codec_name'' of
                     PStr c \<Rightarrow> Some (if c \<in> {''hevc'', ''h265''} then ''h265'' else c) | _ \<Rightarrow> None)
      in case (if py_truthy duration then ff_ms E duration else Inr 0) of
           Inl e \<Rightarrow> Inl e
         | Inr ms \<Rightarrow>
             (case opt_int (dget vd ''width'') of
                Inl e \<Rightarrow> Inl e
              | Inr w \<Rightarrow>
                  (case opt_int (dget vd ''height'') of
                     Inl e \<Rightarrow> Inl e
                   | Inr h \<Rightarrow> Inr \<lparr>pm_duration_ms = ms, pm_video_codec = codec, pm_width = w, pm_height = h, pm_has_audio = has_audio\<rparr>)))"

section \<open>Quoting\<close>

text \<open>
  FFmpeg's documented quoting rules (Quoting and escaping): between single quotes every character
  stands for itself, outside them a backslash makes the next character stand for itself, and an
  unquoted terminator ends the token. The flag says whether the reader is inside quotes; \<open>None\<close>
  stands for an unterminated quote or escape. The result is the token and the rest.
\<close>

fun unquote :: "('c \<Rightarrow> bool) \<Rightarrow> 'c \<Rightarrow> 'c \<Rightarrow> bool \<Rightarrow> 'c list \<Rightarrow> ('c list \<times> 'c list) option" where
  "unquote stop q b inside [] = (if inside then None else Some ([], []))"
| "unquote stop q b True (c # cs) =
     (if c = q then unquote stop q b False cs else map_option (apfst ((#) c)) (unquote stop q b True cs))"
| "unquote stop q b False (c # cs) =
     (if stop c then Some ([], c # cs)
      else if c = q then unquote stop q b True cs
      else if c = b then (case cs of [] \<Rightarrow> None | d # ds \<Rightarrow> map_option (apfst ((#) d)) (unquote stop q b False ds))
      else map_option (apfst ((#) c)) (unquote stop q b False cs))"

lemma map_apfst_Cons [simp]: "map_option (apfst ((#) c)) (map_option (apfst ((@) xs)) r) = map_option (apfst (\<lambda>a. c # xs @ a)) r"
  by (cases r) (auto simp: apfst_def map_prod_def)

lemma map_apfst_Nil [simp]: "map_option (apfst ((@) [])) r = r" "map_option (apfst (\<lambda>a. a)) r = r"
  by (cases r; auto simp: apfst_def map_prod_def)+

lemma append_Cons_fun: "(@) (c # xs) = (\<lambda>a. c # xs @ a)"
  by (simp add: fun_eq_iff)

lemma unquote_literal:
  assumes "q \<notin> set xs"
  shows "unquote stop q b True (xs @ q # ys) = map_option (apfst ((@) xs)) (unquote stop q b False ys)"
  using assms by (induction xs) (auto simp: append_Cons_fun)

lemma unquote_escaped:
  assumes "\<not> stop quote_char" and "\<not> stop backslash"
  shows "unquote stop quote_char backslash True (replace_char quote_char [quote_char, backslash, quote_char, quote_char] p @ quote_char # ys)
       = map_option (apfst ((@) p)) (unquote stop quote_char backslash False ys)"
proof (induction p)
  case Nil
  have "replace_char quote_char [quote_char, backslash, quote_char, quote_char] [] = []" by (simp add: replace_char_def)
  then show ?case by (simp only: append_Nil unquote.simps simp_thms if_True map_apfst_Nil append_Nil cong: map_option_cong)
next
  case (Cons c p)
  let ?r = "replace_char quote_char [quote_char, backslash, quote_char, quote_char]"
  have "?r (c # p) = (if c = quote_char then [quote_char, backslash, quote_char, quote_char] else [c]) @ ?r p"
    by (simp add: replace_char_def)
  moreover have "backslash \<noteq> quote_char" by (simp add: backslash_def quote_char_def)
  ultimately show ?case using Cons assms by (cases "c = quote_char") simp_all
qed

text \<open>The line \<open>concat_entry\<close> writes for a file names exactly that file: it is one line, and by FFmpeg's quoting
  rules the token after \<open>file\<close> is the path with its backslashes turned into slashes, whatever quotes,
  spaces or other special characters the path contains (a newline apart), and nothing follows it.\<close>

theorem concat_entry_names_path:
  assumes "CHR 0x0A \<notin> set path"
  shows "\<exists>token. concat_entry path = ''file '' @ token @ [CHR 0x0A] \<and> CHR 0x0A \<notin> set token
     \<and> unquote (\<lambda>_. False) quote_char backslash False token = Some (replace_char backslash ''/'' path, [])"
proof -
  let ?p = "replace_char backslash ''/'' path"
  let ?t = "quote_char # replace_char quote_char [quote_char, backslash, quote_char, quote_char] ?p @ [quote_char]"
  have "concat_entry path = ''file '' @ ?t @ [CHR 0x0A]" by (simp add: concat_entry_def Let_def)
  moreover have "CHR 0x0A \<notin> set ?t" using assms by (auto simp: replace_char_def quote_char_def backslash_def split: if_splits)
  moreover have "unquote (\<lambda>_. False) quote_char backslash False ?t = Some (?p, [])"
    using unquote_escaped [of "\<lambda>_. False" ?p "[]"] by simp
  ultimately show ?thesis by blast
qed

text \<open>A watermark text cannot break out of the filter option it is written into: whatever the user typed, the
  text is at most 100 characters of the allowed set (no quote, backslash, percent sign or control
  character), and by FFmpeg's quoting rules the value of \<open>text=\<close> is exactly that text and the next
  option begins right after it.\<close>

theorem watermark_stays_quoted:
  "\<exists>before safe after. watermark_filter E h text = ucs before @ ucs [quote_char] @ safe @ ucs [quote_char] @ ucs after
     \<and> safe \<noteq> [] \<and> length safe \<le> 100 \<and> list_all watermark_char safe \<and> hd after = CHR '':''
     \<and> unquote (\<lambda>c. c = of_char CHR '':'') (of_char quote_char) (of_char backslash) False
         (ucs [quote_char] @ safe @ ucs [quote_char] @ ucs after) = Some (safe, ucs after)"
proof -
  let ?safe = "safe_watermark_text text"
  let ?after = "'':fontcolor=white@0.92:fontsize=20:box=1:boxcolor=black@0.4:boxborderw=6:x=14:y=14:expansion=none''"
  have ok: "list_all watermark_char ?safe" "?safe \<noteq> []" "length ?safe \<le> 100"
  proof -
    let ?cleaned = "take 100 (filter watermark_char (case text of None \<Rightarrow> [] | Some t \<Rightarrow> t))"
    have "list_all watermark_char ?cleaned" by (auto simp: list_all_iff dest: in_set_takeD)
    moreover have "list_all watermark_char (ucs ''AeroX Protect'')" by (simp add: watermark_char_def ucs_def)
    ultimately show "list_all watermark_char ?safe" by (simp add: safe_watermark_text_def Let_def)
    show "?safe \<noteq> []" by (simp add: safe_watermark_text_def Let_def ucs_def)
    show "length ?safe \<le> 100" by (simp add: safe_watermark_text_def Let_def ucs_def)
  qed
  have "of_char quote_char \<notin> set ?safe"
    using ok(1) by (auto simp: list_all_iff watermark_char_def quote_char_def ucs_def)
  moreover have "ucs [quote_char] @ xs @ ucs [quote_char] @ ys = of_char quote_char # xs @ of_char quote_char # ys" for xs ys :: utext
    by (simp add: ucs_def)
  ultimately have "unquote (\<lambda>c. c = of_char CHR '':'') (of_char quote_char) (of_char backslash) False
         (ucs [quote_char] @ ?safe @ ucs [quote_char] @ ucs ?after) = Some (?safe, ucs ?after)"
    by (simp add: unquote_literal quote_char_def ucs_def)
  with ok show ?thesis
    by (intro exI [of _ ?safe] exI [of _ ?after] exI) (auto simp: watermark_filter_def)
qed

theorem concat_entry_names_path_witness:
  "\<exists>token. concat_entry (''it'' @ [quote_char] @ ''s.ts'') = ''file '' @ token @ [CHR 0x0A]
     \<and> unquote (\<lambda>_. False) quote_char backslash False token = Some (''it'' @ [quote_char] @ ''s.ts'', [])"
  using concat_entry_names_path [of "''it'' @ [quote_char] @ ''s.ts''"]
  by (auto simp: quote_char_def backslash_def replace_char_def)

end
