(* ===== verification/SegmentIndexer.thy ===== *)
theory SegmentIndexer
  imports SegmentSweep Ffmpeg
begin

text \<open>
  The scan-based segment indexer, \<open>server/service/segment_indexer.py\<close>: which files of a camera's
  directory are settled, what their names say about their start, and the rows created for them.

  The names are written by FFmpeg from the pattern \<open>seg-%Y%m%d-%H%M%S\<close>. The lemmas show that the
  start is read back from the name, that the sorted order of the names is the order of the starts (so
  that the last name is the file still being written), and that indexing is idempotent and complete.
\<close>

section \<open>Calendar\<close>

text \<open>The proleptic Gregorian calendar of \<open>datetime\<close>: ordinal days with day 1 on 0001-01-01.\<close>

definition is_leap :: "int \<Rightarrow> bool" where
  "is_leap y \<longleftrightarrow> y mod 4 = 0 \<and> (y mod 100 \<noteq> 0 \<or> y mod 400 = 0)"

definition days_in_month :: "int \<Rightarrow> int \<Rightarrow> int" where
  "days_in_month y m = (if m = 2 then (if is_leap y then 29 else 28) else if m \<in> {4, 6, 9, 11} then 30 else 31)"

definition days_before_year :: "int \<Rightarrow> int" where
  "days_before_year y = (let p = y - 1 in p * 365 + p div 4 - p div 100 + p div 400)"

definition days_before_month :: "int \<Rightarrow> int \<Rightarrow> int" where
  "days_before_month y m = sum_list (map (days_in_month y) [1..m - 1])"

definition ymd2ord :: "int \<Rightarrow> int \<Rightarrow> int \<Rightarrow> int" where
  "ymd2ord y m d = days_before_year y + days_before_month y m + d"

record civil =
  cv_year :: int
  cv_month :: int
  cv_day :: int
  cv_hour :: int
  cv_minute :: int
  cv_second :: int

text \<open>What the \<open>datetime\<close> constructor accepts; it raises \<open>ValueError\<close> otherwise.\<close>

definition valid_civil :: "civil \<Rightarrow> bool" where
  "valid_civil c \<longleftrightarrow>
     1 \<le> cv_year c \<and> cv_year c \<le> 9999 \<and> 1 \<le> cv_month c \<and> cv_month c \<le> 12
     \<and> 1 \<le> cv_day c \<and> cv_day c \<le> days_in_month (cv_year c) (cv_month c)
     \<and> 0 \<le> cv_hour c \<and> cv_hour c \<le> 23 \<and> 0 \<le> cv_minute c \<and> cv_minute c \<le> 59 \<and> 0 \<le> cv_second c \<and> cv_second c \<le> 59"

definition civil_ts :: "civil \<Rightarrow> ts" where
  "civil_ts c =
     ((ymd2ord (cv_year c) (cv_month c) (cv_day c) - 719163) * 86400
      + cv_hour c * 3600 + cv_minute c * 60 + cv_second c) * 1000"

section \<open>File names\<close>

text \<open>\<open>_NAME_RE.search\<close>: the groups of \<open>seg-(\d{8})-(\d{6})\.(mp4|ts)$\<close>; the dollar also matches before a final newline.\<close>

definition suffix_groups :: "string \<Rightarrow> string \<Rightarrow> (string \<times> string) option" where
  "suffix_groups ext s =
     (let n = 20 + length ext; t = drop (length s - n) s
      in if length s < n then None
         else if take 4 t = ''seg-'' \<and> list_all is_digit (take 8 (drop 4 t)) \<and> take 1 (drop 12 t) = ''-''
                 \<and> list_all is_digit (take 6 (drop 13 t)) \<and> drop 19 t = ''.'' @ ext
              then Some (take 8 (drop 4 t), take 6 (drop 13 t))
              else None)"

definition name_groups :: "string \<Rightarrow> (string \<times> string) option" where
  "name_groups s =
     (let s = (if s \<noteq> [] \<and> last s = CHR 0x0A then butlast s else s)
      in case suffix_groups ''mp4'' s of Some g \<Rightarrow> Some g | None \<Rightarrow> suffix_groups ''ts'' s)"

definition dec :: "string \<Rightarrow> int" where
  "dec ds = foldl (\<lambda>a c. 10 * a + (of_char c - 48)) 0 ds"

text \<open>\<open>strptime\<close> with \<open>%Y%m%d%H%M%S\<close> on fourteen digits: every field takes its full width, and a value out
  of range is a \<open>ValueError\<close>.\<close>

definition civil_of_digits :: "string \<Rightarrow> civil" where
  "civil_of_digits ds =
     \<lparr>cv_year = dec (take 4 ds), cv_month = dec (take 2 (drop 4 ds)), cv_day = dec (take 2 (drop 6 ds)),
      cv_hour = dec (take 2 (drop 8 ds)), cv_minute = dec (take 2 (drop 10 ds)), cv_second = dec (take 2 (drop 12 ds))\<rparr>"

definition parse_start_ts :: "string \<Rightarrow> ts option" where
  "parse_start_ts filename =
     (case name_groups filename of
        None \<Rightarrow> None
      | Some (d, t) \<Rightarrow> (let c = civil_of_digits (d @ t) in if valid_civil c then Some (civil_ts c) else None))"

section \<open>The scan\<close>

text \<open>
  What the operating system and \<open>ffprobe\<close> answer about a file: modification time and size, and the
  printed streams and format, \<open>None\<close> for a failed call.
\<close>

record index_env =
  ix_ff :: ff_env
  ix_stat :: "string \<Rightarrow> (ts \<times> int) option"
  ix_ffprobe :: "string \<Rightarrow> (pydict list \<times> pydict) option"

definition SETTLE_SECONDS :: int where "SETTLE_SECONDS = 3"

definition output_dir :: "db_id \<Rightarrow> disk \<Rightarrow> string \<Rightarrow> string" where
  "output_dir cam d subdir =
     (if subdir \<noteq> [] then path_join (path_join (disk_mount_path d) (str_of_int cam)) subdir
      else path_join (disk_mount_path d) (str_of_int cam))"

definition rel_path_of :: "db_id \<Rightarrow> string \<Rightarrow> string \<Rightarrow> string" where
  "rel_path_of cam subdir name =
     (if subdir \<noteq> [] then str_of_int cam @ ''/'' @ subdir @ ''/'' @ name else str_of_int cam @ ''/'' @ name)"

text \<open>The names of the files in a directory.\<close>

definition listdir :: "'z nvr_scheme \<Rightarrow> string \<Rightarrow> string list" where
  "listdir db dir =
     List.map_filter (\<lambda>f. if take (length dir + 1) f = dir @ ''/'' \<and> CHR ''/'' \<notin> set (drop (length dir + 1) f)
                          then Some (drop (length dir + 1) f) else None) (n_files db)"

definition candidate_files :: "'z nvr_scheme \<Rightarrow> string \<Rightarrow> string \<Rightarrow> bool \<Rightarrow> string list" where
  "candidate_files db dir container include_newest =
     (let files = sort (filter (\<lambda>f. ends_with f (''.'' @ segment_ext container) \<and> name_groups f \<noteq> None) (listdir db dir))
      in if include_newest then files else if length files \<le> 1 then [] else butlast files)"

definition probe :: "index_env \<Rightarrow> string \<Rightarrow> py_error + probe_meta option" where
  "probe E path =
     (case ix_ffprobe E path of
        None \<Rightarrow> Inr None
      | Some (streams, fmt) \<Rightarrow> (case parse_probe (ix_ff E) streams fmt of Inl e \<Rightarrow> Inl e | Inr m \<Rightarrow> Inr (Some m)))"

definition segment_row :: "db_id \<Rightarrow> disk \<Rightarrow> string \<Rightarrow> string \<Rightarrow> string \<Rightarrow> ts \<Rightarrow> int \<Rightarrow> probe_meta option \<Rightarrow> segment" where
  "segment_row cam d container role rel start bytes meta =
     (let dur = (case meta of None \<Rightarrow> 0 | Some m \<Rightarrow> pm_duration_ms m)
      in \<lparr>seg_id = 0, seg_camera = cam, seg_disk = disk_id d, seg_rel_path = rel, seg_start = start,
          seg_end = (if dur \<noteq> 0 then start + dur else start), seg_duration_ms = dur, seg_size = bytes,
          seg_container = container, seg_video_codec = (case meta of None \<Rightarrow> None | Some m \<Rightarrow> pm_video_codec m),
          seg_has_audio = (case meta of None \<Rightarrow> False | Some m \<Rightarrow> pm_has_audio m),
          seg_width = (case meta of None \<Rightarrow> None | Some m \<Rightarrow> pm_width m),
          seg_height = (case meta of None \<Rightarrow> None | Some m \<Rightarrow> pm_height m),
          seg_first_keyframe_ms = 0, seg_reason = SEG_REASON_CONTINUOUS, seg_tier = TIER_CACHE, seg_role = role,
          seg_corrupt = (bytes = 0 \<or> dur = 0)\<rparr>)"

text \<open>The body of the loop: the count of playable segments and the state, or the exception of the parser.\<close>

definition index_file ::
  "index_env \<Rightarrow> ts \<Rightarrow> db_id \<Rightarrow> disk \<Rightarrow> string \<Rightarrow> string \<Rightarrow> string \<Rightarrow> bool \<Rightarrow> string \<Rightarrow> ('z nvr_scheme, int) act" where
  "index_file E now cam d container subdir role include_newest name db =
     (let rel = rel_path_of cam subdir name; path = path_join (output_dir cam d subdir) name
      in if Segment_exists_rel_path db cam rel then (Inr 0, db)
         else case ix_stat E path of
           None \<Rightarrow> (Inr 0, db)
         | Some (mtime, bytes) \<Rightarrow>
             if \<not> include_newest \<and> mtime > now - SETTLE_SECONDS * 1000 then (Inr 0, db)
             else (case parse_start_ts name of
                     None \<Rightarrow> (Inr 0, db)
                   | Some start \<Rightarrow>
                       (case probe E path of
                          Inl e \<Rightarrow> (Inl e, db)
                        | Inr meta \<Rightarrow>
                            (let g = segment_row cam d container role rel start bytes meta
                             in (Inr (if seg_corrupt g then 0 else 1), Segment_create db g)))))"

fun index_files ::
  "index_env \<Rightarrow> ts \<Rightarrow> db_id \<Rightarrow> disk \<Rightarrow> string \<Rightarrow> string \<Rightarrow> string \<Rightarrow> bool \<Rightarrow> string list \<Rightarrow> ('z nvr_scheme, int) act" where
  "index_files E now cam d container subdir role include_newest [] db = (Inr 0, db)"
| "index_files E now cam d container subdir role include_newest (f # fs) db =
     (case index_file E now cam d container subdir role include_newest f db of
        (Inl e, db1) \<Rightarrow> (Inl e, db1)
      | (Inr n, db1) \<Rightarrow>
          (case index_files E now cam d container subdir role include_newest fs db1 of
             (Inl e, db2) \<Rightarrow> (Inl e, db2) | (Inr k, db2) \<Rightarrow> (Inr (n + k), db2)))"

definition index_camera_dir ::
  "index_env \<Rightarrow> ts \<Rightarrow> db_id \<Rightarrow> disk \<Rightarrow> string \<Rightarrow> string \<Rightarrow> string \<Rightarrow> bool \<Rightarrow> ('z nvr_scheme, int) act" where
  "index_camera_dir E now cam d container subdir role include_newest db =
     (let dir = output_dir cam d subdir
      in if dir \<in> set (n_locked db) then (Inr 0, db)
         else index_files E now cam d container subdir role include_newest (candidate_files db dir container include_newest) db)"

section \<open>Names and starts\<close>

text \<open>The name \<open>strftime\<close> gives a file that starts at \<open>c\<close>.\<close>

fun pad :: "nat \<Rightarrow> int \<Rightarrow> string" where
  "pad 0 x = []"
| "pad (Suc n) x = pad n (x div 10) @ [char_of (48 + nat (x mod 10))]"

definition seg_name :: "civil \<Rightarrow> string \<Rightarrow> string" where
  "seg_name c ext =
     ''seg-'' @ pad 4 (cv_year c) @ pad 2 (cv_month c) @ pad 2 (cv_day c) @ ''-''
     @ pad 2 (cv_hour c) @ pad 2 (cv_minute c) @ pad 2 (cv_second c) @ ''.'' @ ext"

lemma length_pad [simp]: "length (pad n x) = n"
  by (induction n arbitrary: x) simp_all

lemma pad_digits [simp]: "list_all is_digit (pad n x)"
  by (induction n arbitrary: x) (simp_all add: nat_less_iff)

lemma dec_snoc: "dec (ds @ [c]) = 10 * dec ds + (of_char c - 48)"
  by (simp add: dec_def)

lemma dec_pad: "0 \<le> x \<Longrightarrow> x < 10 ^ n \<Longrightarrow> dec (pad n x) = x"
proof (induction n arbitrary: x)
  case 0
  then show ?case by (simp add: dec_def)
next
  case (Suc n)
  then have "dec (pad n (x div 10)) = x div 10" by (intro Suc.IH) auto
  then show ?case by (simp add: dec_snoc nat_less_iff)
qed

lemma name_groups_seg_name:
  assumes "ext = ''mp4'' \<or> ext = ''ts''"
  shows "name_groups (seg_name c ext) =
    Some (pad 4 (cv_year c) @ pad 2 (cv_month c) @ pad 2 (cv_day c), pad 2 (cv_hour c) @ pad 2 (cv_minute c) @ pad 2 (cv_second c))"
proof -
  have "last (seg_name c ext) \<noteq> CHR 0x0A" using assms by (auto simp: seg_name_def)
  moreover have "suffix_groups ''mp4'' (seg_name c ''ts'') = None"
    by (simp add: suffix_groups_def seg_name_def Let_def)
  moreover have "suffix_groups ext (seg_name c ext) =
      Some (pad 4 (cv_year c) @ pad 2 (cv_month c) @ pad 2 (cv_day c), pad 2 (cv_hour c) @ pad 2 (cv_minute c) @ pad 2 (cv_second c))"
    by (simp add: suffix_groups_def seg_name_def Let_def)
  ultimately show ?thesis using assms by (auto simp: name_groups_def Let_def)
qed

lemma civil_of_digits_pad:
  assumes "valid_civil c"
  shows "civil_of_digits ((pad 4 (cv_year c) @ pad 2 (cv_month c) @ pad 2 (cv_day c)) @ pad 2 (cv_hour c) @ pad 2 (cv_minute c) @ pad 2 (cv_second c)) = c"
proof -
  have "cv_day c \<le> 31" using assms by (auto simp: valid_civil_def days_in_month_def split: if_splits)
  then show ?thesis using assms by (simp add: civil_of_digits_def valid_civil_def dec_pad)
qed

text \<open>C5: the start of a segment is read back from its file name: for every instant \<open>datetime\<close> can represent, parsing
  the name FFmpeg writes from the recorder's pattern \<open>seg-%Y%m%d-%H%M%S\<close> gives exactly that instant.\<close>

theorem parse_start_ts_seg_name:
  assumes "valid_civil c"
  shows "parse_start_ts (seg_name c (segment_ext container)) = Some (civil_ts c)"
proof -
  have "segment_ext container = ''mp4'' \<or> segment_ext container = ''ts''" by (simp add: segment_ext_def)
  from name_groups_seg_name [OF this] civil_of_digits_pad [OF assms] show ?thesis
    by (simp add: parse_start_ts_def Let_def assms)
qed

section \<open>The order of names is the order of starts\<close>

definition cv_key :: "civil \<Rightarrow> int \<times> int \<times> int \<times> int \<times> int \<times> int" where
  "cv_key c = (cv_year c, cv_month c, cv_day c, cv_hour c, cv_minute c, cv_second c)"

lemma append_less_same_length:
  fixes xs ys us vs :: string
  assumes "length xs = length ys"
  shows "xs @ us < ys @ vs \<longleftrightarrow> xs < ys \<or> xs = ys \<and> us < vs"
  using assms by (induction xs ys rule: list_induct2) auto

lemma digit_char_less:
  assumes "0 \<le> (a :: int)" "a < 10" "0 \<le> b" "b < 10"
  shows "(char_of (48 + nat a) :: char) < char_of (48 + nat b) \<longleftrightarrow> a < b"
  using assms by (auto simp: less_char_def nat_less_iff)

lemma pad_inj: "0 \<le> x \<Longrightarrow> x < 10 ^ n \<Longrightarrow> 0 \<le> y \<Longrightarrow> y < 10 ^ n \<Longrightarrow> pad n x = pad n y \<longleftrightarrow> x = y"
  by (metis dec_pad)

lemma div_mod_10_less: "(x :: int) div 10 < y div 10 \<or> x div 10 = y div 10 \<and> x mod 10 < y mod 10 \<longleftrightarrow> x < y"
proof -
  have "x = 10 * (x div 10) + x mod 10" "y = 10 * (y div 10) + y mod 10" by simp_all
  moreover have "0 \<le> x mod 10" "x mod 10 < 10" "0 \<le> y mod 10" "y mod 10 < 10" by simp_all
  ultimately show ?thesis by linarith
qed

lemma pad_less:
  assumes "0 \<le> x" "x < 10 ^ n" "0 \<le> y" "y < 10 ^ n"
  shows "pad n x < pad n y \<longleftrightarrow> x < y"
  using assms
proof (induction n arbitrary: x y)
  case 0
  then show ?case by simp
next
  case (Suc n)
  have less: "z div 10 < 10 ^ n" if "z < 10 ^ Suc n" for z :: int using that by simp
  have r: "0 \<le> x div 10" "x div 10 < 10 ^ n" "0 \<le> y div 10" "y div 10 < 10 ^ n"
    using less Suc.prems by (simp_all add: pos_imp_zdiv_nonneg_iff)
  have "pad (Suc n) x < pad (Suc n) y \<longleftrightarrow> x div 10 < y div 10 \<or> x div 10 = y div 10 \<and> x mod 10 < y mod 10"
    by (simp add: append_less_same_length Suc.IH [OF r] pad_inj [OF r] digit_char_less)
  also have "\<dots> \<longleftrightarrow> x < y" by (rule div_mod_10_less)
  finally show ?case .
qed

lemma less_or_le_conj: "(a :: int) < b \<or> a \<le> b \<and> P \<longleftrightarrow> a < b \<or> a = b \<and> P"
  by auto

lemma seg_name_less:
  assumes "valid_civil a" and "valid_civil b"
  shows "seg_name a ext < seg_name b ext \<longleftrightarrow> cv_key a < cv_key b"
proof -
  have d: "cv_day a \<le> 31" "cv_day b \<le> 31"
    using assms by (auto simp: valid_civil_def days_in_month_def split: if_splits)
  have "pad 4 (cv_year a) < pad 4 (cv_year b) \<longleftrightarrow> cv_year a < cv_year b" "pad 4 (cv_year a) = pad 4 (cv_year b) \<longleftrightarrow> cv_year a = cv_year b"
    using assms by (simp_all add: valid_civil_def pad_less pad_inj del: pad.simps)
  moreover have "pad 2 x < pad 2 y \<longleftrightarrow> x < y" "pad 2 x = pad 2 y \<longleftrightarrow> x = y" if "0 \<le> x" "x \<le> 59" "0 \<le> y" "y \<le> 59" for x y
    using that by (simp_all add: pad_less pad_inj)
  ultimately show ?thesis
    using assms d
    by (simp add: seg_name_def cv_key_def append_less_same_length valid_civil_def less_prod_simp less_or_le_conj)
qed

text \<open>The calendar: a year ends where the next one begins, and so does a month.\<close>

lemma div_pred: "(y :: int) div k - (y - 1) div k = (if y mod k = 0 then 1 else 0)" if "k > 0"
proof -
  have y: "y = k * (y div k) + y mod k" "0 \<le> y mod k" "y mod k < k" using that by simp_all
  show ?thesis
  proof (cases "y mod k = 0")
    case True
    then have "y - 1 = k * (y div k - 1) + (k - 1)" using y(1) by (simp add: algebra_simps)
    then have "(y - 1) div k = y div k - 1" by (rule int_div_pos_eq) (use that in simp_all)
    then show ?thesis using True by simp
  next
    case False
    then have "y - 1 = k * (y div k) + (y mod k - 1)" "0 \<le> y mod k - 1" "y mod k - 1 < k" using y by auto
    then have "(y - 1) div k = y div k" by (rule int_div_pos_eq)
    then show ?thesis using False by simp
  qed
qed

lemma days_before_year_Suc: "days_before_year (y + 1) = days_before_year y + (if is_leap y then 366 else 365)"
proof -
  have "y mod 400 mod 100 = y mod 100" "y mod 100 mod 4 = y mod 4" by (simp_all add: mod_mod_cancel)
  then have m: "y mod 400 = 0 \<longrightarrow> y mod 100 = 0" "y mod 100 = 0 \<longrightarrow> y mod 4 = 0" by auto
  have d: "y div k = (y - 1) div k + (if y mod k = 0 then 1 else 0)" if "k > 0" for k using div_pred [OF that, of y] by simp
  have bits: "(if P then 1 else 0) - (if Q then 1 else 0) + (if R then 1 else 0) = (if P \<and> (\<not> Q \<or> R) then 1 else 0 :: int)"
    if "R \<longrightarrow> Q" "Q \<longrightarrow> P" for P Q R
    using that by (cases P; cases Q; cases R; simp)
  have regroup: "y * 365 + (A + a) - (B + b) + (C + c) = ((y - 1) * 365 + A - B + C) + 365 + (a - b + c)" for A B C a b c :: int
    by (simp add: algebra_simps)
  have "days_before_year (y + 1) = y * 365 + y div 4 - y div 100 + y div 400" by (simp add: days_before_year_def Let_def)
  also have "\<dots> = y * 365 + ((y - 1) div 4 + (if y mod 4 = 0 then 1 else 0)) - ((y - 1) div 100 + (if y mod 100 = 0 then 1 else 0))
      + ((y - 1) div 400 + (if y mod 400 = 0 then 1 else 0))"
    using d [of 4] d [of 100] d [of 400] by (simp only: zero_less_numeral simp_thms)
  also have "\<dots> = days_before_year y + 365 + ((if y mod 4 = 0 then 1 else 0) - (if y mod 100 = 0 then 1 else 0) + (if y mod 400 = 0 then 1 else 0))"
    unfolding days_before_year_def Let_def by (rule regroup)
  also have "\<dots> = days_before_year y + 365 + (if is_leap y then 1 else 0)"
    unfolding is_leap_def by (rule arg_cong [OF bits [OF m]])
  also have "\<dots> = days_before_year y + (if is_leap y then 366 else 365)" by simp
  finally show ?thesis .
qed

lemma days_before_year_mono: "a \<le> b \<Longrightarrow> days_before_year a \<le> days_before_year b"
proof (induction b rule: int_ge_induct)
  case base
  then show ?case by simp
next
  case (step b)
  then show ?case using days_before_year_Suc [of b] by (simp split: if_splits)
qed

lemma days_in_month_pos: "0 < days_in_month y m"
  by (simp add: days_in_month_def)

lemma days_before_month_add:
  assumes "1 \<le> a" "a < b"
  shows "days_before_month y a + days_in_month y a \<le> days_before_month y b"
proof -
  have "[1..b - 1] = [1..a - 1] @ [a] @ [a + 1..b - 1]"
    using assms upto_split3 [of 1 a "b - 1"] by simp
  moreover have "0 \<le> sum_list (map (days_in_month y) xs)" for xs
    by (induction xs) (use days_in_month_pos in \<open>auto intro: add_nonneg_nonneg less_imp_le\<close>)
  ultimately show ?thesis by (simp add: days_before_month_def)
qed

lemma days_before_month_year:
  assumes "1 \<le> m" "m \<le> 12" "d \<le> days_in_month y m"
  shows "days_before_month y m + d \<le> (if is_leap y then 366 else 365)"
proof -
  have "days_before_month y m + days_in_month y m \<le> days_before_month y 13"
    using assms(1,2) by (intro days_before_month_add) auto
  also have "days_before_month y 13 = (if is_leap y then 366 else 365)"
    by (simp add: days_before_month_def days_in_month_def upto.simps)
  finally show ?thesis using assms(3) by simp
qed

lemma ymd2ord_less:
  assumes "valid_civil a" and "valid_civil b"
    and "(cv_year a, cv_month a, cv_day a) < (cv_year b, cv_month b, cv_day b)"
  shows "ymd2ord (cv_year a) (cv_month a) (cv_day a) < ymd2ord (cv_year b) (cv_month b) (cv_day b)"
proof -
  have nonneg: "0 \<le> days_before_month y m" for y m
    unfolding days_before_month_def by (intro sum_list_nonneg) (use days_in_month_pos in \<open>auto intro: less_imp_le\<close>)
  consider "cv_year a < cv_year b" | "cv_year a = cv_year b" "cv_month a < cv_month b"
    | "cv_year a = cv_year b" "cv_month a = cv_month b" "cv_day a < cv_day b"
    using assms(3) by (auto simp: less_prod_simp less_or_le_conj)
  then show ?thesis
  proof cases
    case 1
    have "days_before_year (cv_year a) + (days_before_month (cv_year a) (cv_month a) + cv_day a) \<le> days_before_year (cv_year a + 1)"
      using days_before_month_year [of "cv_month a" "cv_day a" "cv_year a"] assms(1)
      by (simp add: valid_civil_def days_before_year_Suc split: if_splits)
    also have "\<dots> \<le> days_before_year (cv_year b)" using 1 by (intro days_before_year_mono) simp
    finally show ?thesis using nonneg [of "cv_year b" "cv_month b"] assms(2) by (simp add: ymd2ord_def valid_civil_def)
  next
    case 2
    then show ?thesis
      using days_before_month_add [of "cv_month a" "cv_month b" "cv_year b"] assms(1,2)
      by (simp add: ymd2ord_def valid_civil_def)
  next
    case 3
    then show ?thesis by (simp add: ymd2ord_def)
  qed
qed

lemma civil_ts_less:
  assumes "valid_civil a" and "valid_civil b" and "cv_key a < cv_key b"
  shows "civil_ts a < civil_ts b"
proof -
  let ?o = "\<lambda>c. ymd2ord (cv_year c) (cv_month c) (cv_day c)" and ?s = "\<lambda>c. cv_hour c * 3600 + cv_minute c * 60 + cv_second c"
  have s: "0 \<le> ?s c \<and> ?s c < 86400" if "valid_civil c" for c using that by (auto simp: valid_civil_def)
  consider "(cv_year a, cv_month a, cv_day a) < (cv_year b, cv_month b, cv_day b)"
    | "?o a = ?o b" "(cv_hour a, cv_minute a, cv_second a) < (cv_hour b, cv_minute b, cv_second b)"
    using assms(3) by (auto simp: cv_key_def less_prod_simp less_or_le_conj)
  then show ?thesis
  proof cases
    case 1
    then have "?o a + 1 \<le> ?o b" using ymd2ord_less [OF assms(1,2)] by simp
    moreover have "?s a < 86400" "0 \<le> ?s b" using s assms(1,2) by simp_all
    ultimately have "(?o a - 719163) * 86400 + ?s a < (?o b - 719163) * 86400 + ?s b" by (simp only: left_diff_distrib)
    then show ?thesis by (simp add: civil_ts_def add.assoc)
  next
    case 2
    then have "?s a < ?s b" using assms(1,2) by (auto simp: less_prod_simp less_or_le_conj valid_civil_def)
    with 2(1) show ?thesis by (simp add: civil_ts_def)
  qed
qed

text \<open>Sorting the names is sorting by the start.\<close>

lemma seg_name_mono:
  assumes "valid_civil a" and "valid_civil b" and "civil_ts a \<le> civil_ts b"
  shows "seg_name a ext \<le> seg_name b ext"
  using seg_name_less [OF assms(2,1), of ext] civil_ts_less [OF assms(2,1)] assms(3) by (meson not_le)

lemma max_not_in_butlast:
  fixes xs :: "string list"
  assumes "sorted xs" and "distinct xs" and "\<And>y. y \<in> set xs \<Longrightarrow> y \<le> x"
  shows "x \<notin> set (butlast xs)"
proof (cases xs rule: rev_cases)
  case (snoc ys y)
  have "y \<le> x" using assms(3) snoc by simp
  moreover have "x \<le> y" if "x \<in> set ys" using assms(1) that unfolding snoc by (simp add: sorted_append)
  ultimately show ?thesis using assms(2) unfolding snoc by (auto dest: order.antisym)
qed simp

section \<open>Indexing\<close>

text \<open>The reasons to pass a file over that do not depend on the index.\<close>

definition passed_over :: "index_env \<Rightarrow> ts \<Rightarrow> db_id \<Rightarrow> disk \<Rightarrow> string \<Rightarrow> bool \<Rightarrow> string \<Rightarrow> bool" where
  "passed_over E now cam d subdir include_newest name \<longleftrightarrow>
     (case ix_stat E (path_join (output_dir cam d subdir) name) of
        None \<Rightarrow> True
      | Some (mtime, bytes) \<Rightarrow> \<not> include_newest \<and> mtime > now - SETTLE_SECONDS * 1000)
     \<or> parse_start_ts name = None"

definition index_keys :: "'z nvr_scheme \<Rightarrow> (db_id \<times> string) list" where
  "index_keys db = map (\<lambda>g. (seg_camera g, seg_rel_path g)) (n_segments db)"

lemma exists_rel_path_keys: "Segment_exists_rel_path db cam p \<longleftrightarrow> (cam, p) \<in> set (index_keys db)"
  by (auto simp: Segment_exists_rel_path_def index_keys_def list_ex_iff)

lemma index_keys_create [simp]: "index_keys (Segment_create db g) = index_keys db @ [(seg_camera g, seg_rel_path g)]"
  by (simp add: index_keys_def Segment_create_def)

lemma Segment_create_frame [simp]:
  "n_files (Segment_create db g) = n_files db" "n_locked (Segment_create db g) = n_locked db"
  by (simp_all add: Segment_create_def)

lemma index_file_skip:
  assumes "(cam, rel_path_of cam subdir name) \<in> set (index_keys db) \<or> passed_over E now cam d subdir b name"
  shows "index_file E now cam d container subdir role b name db = (Inr 0, db)"
  using assms by (auto simp: index_file_def Let_def exists_rel_path_keys passed_over_def split: option.splits prod.splits)

lemma index_file_new:
  assumes "(cam, rel_path_of cam subdir name) \<notin> set (index_keys db)" and "\<not> passed_over E now cam d subdir b name"
  shows "(\<exists>e. index_file E now cam d container subdir role b name db = (Inl e, db))
    \<or> (\<exists>k g. index_file E now cam d container subdir role b name db = (Inr k, Segment_create db g)
         \<and> seg_camera g = cam \<and> seg_rel_path g = rel_path_of cam subdir name)"
proof -
  obtain mtime bytes where st: "ix_stat E (path_join (output_dir cam d subdir) name) = Some (mtime, bytes)"
    and settled: "\<not> (\<not> b \<and> mtime > now - SETTLE_SECONDS * 1000)"
    using assms(2) by (auto simp: passed_over_def split: option.splits)
  obtain start where start: "parse_start_ts name = Some start" using assms(2) by (auto simp: passed_over_def)
  show ?thesis
    using assms(1) settled
    by (cases "probe E (path_join (output_dir cam d subdir) name)")
       (auto simp: index_file_def Let_def exists_rel_path_keys st start segment_row_def)
qed

lemma index_file_effect:
  assumes "index_file E now cam d container subdir role b name db = (r, db')"
  shows "n_files db' = n_files db" and "n_locked db' = n_locked db"
    and "index_keys db' = index_keys db
         \<or> (cam, rel_path_of cam subdir name) \<notin> set (index_keys db) \<and> index_keys db' = index_keys db @ [(cam, rel_path_of cam subdir name)]"
    and "r = Inr k \<Longrightarrow> (cam, rel_path_of cam subdir name) \<in> set (index_keys db') \<or> passed_over E now cam d subdir b name"
proof -
  let ?key = "(cam, rel_path_of cam subdir name)"
  consider "db' = db" "?key \<in> set (index_keys db) \<or> passed_over E now cam d subdir b name" | e where "db' = db" "r = Inl e"
    | g where "db' = Segment_create db g" "seg_camera g = cam" "seg_rel_path g = rel_path_of cam subdir name" "?key \<notin> set (index_keys db)"
    using index_file_skip [of cam subdir name db E now d b container role] index_file_new [of cam subdir name db E now d b container role] assms
    by (metis prod.inject)
  note shape = this
  show "n_files db' = n_files db" "n_locked db' = n_locked db" by (cases rule: shape; simp)+
  show "index_keys db' = index_keys db \<or> ?key \<notin> set (index_keys db) \<and> index_keys db' = index_keys db @ [?key]"
    by (cases rule: shape) simp_all
  show "?key \<in> set (index_keys db') \<or> passed_over E now cam d subdir b name" if "r = Inr k"
    using that by (cases rule: shape) auto
qed

lemma index_files_effect:
  assumes "index_files E now cam d container subdir role b fs db = (r, db')" and "distinct (index_keys db)"
  shows "n_files db' = n_files db \<and> n_locked db' = n_locked db \<and> distinct (index_keys db')
       \<and> set (index_keys db) \<subseteq> set (index_keys db')
       \<and> set (index_keys db') \<subseteq> set (index_keys db) \<union> (\<lambda>f. (cam, rel_path_of cam subdir f)) ` set fs
       \<and> (\<forall>n. r = Inr n \<longrightarrow> (\<forall>f \<in> set fs. (cam, rel_path_of cam subdir f) \<in> set (index_keys db') \<or> passed_over E now cam d subdir b f))"
  using assms
proof (induction fs arbitrary: db r)
  case Nil
  then show ?case by simp
next
  case (Cons f fs)
  obtain r1 db1 where f: "index_file E now cam d container subdir role b f db = (r1, db1)" by (rule prod.exhaust)
  note e = index_file_effect [OF f]
  have d1: "distinct (index_keys db1)" and sub: "set (index_keys db) \<subseteq> set (index_keys db1)"
    "set (index_keys db1) \<subseteq> insert (cam, rel_path_of cam subdir f) (set (index_keys db))"
    using e(3) Cons.prems(2) by auto
  show ?case
  proof (cases r1)
    case (Inl err)
    then have "r = Inl err" "db' = db1" using Cons.prems(1) f by simp_all
    with e(1,2) d1 sub show ?thesis by auto
  next
    case (Inr k)
    obtain r2 db2 where g: "index_files E now cam d container subdir role b fs db1 = (r2, db2)" by (rule prod.exhaust)
    have same: "db' = db2" and r: "r = Inr n \<Longrightarrow> \<exists>m. r2 = Inr m" for n
      using Cons.prems(1) f Inr g by (auto split: sum.splits)
    have IH: "n_files db' = n_files db1" "n_locked db' = n_locked db1" "distinct (index_keys db')"
      "set (index_keys db1) \<subseteq> set (index_keys db')"
      "set (index_keys db') \<subseteq> set (index_keys db1) \<union> (\<lambda>f. (cam, rel_path_of cam subdir f)) ` set fs"
      "\<And>n. r2 = Inr n \<Longrightarrow> \<forall>f \<in> set fs. (cam, rel_path_of cam subdir f) \<in> set (index_keys db') \<or> passed_over E now cam d subdir b f"
      using Cons.IH [OF g [folded same] d1] by blast+
    have "(cam, rel_path_of cam subdir f) \<in> set (index_keys db') \<or> passed_over E now cam d subdir b f"
      using e(4) [OF Inr] IH(4) by blast
    then have "\<forall>n. r = Inr n \<longrightarrow> (\<forall>f \<in> set (f # fs). (cam, rel_path_of cam subdir f) \<in> set (index_keys db') \<or> passed_over E now cam d subdir b f)"
      using IH(6) r by (metis set_ConsD)
    with IH(1-5) e(1,2) sub show ?thesis by auto
  qed
qed

lemma index_files_skip:
  assumes "\<forall>f \<in> set fs. (cam, rel_path_of cam subdir f) \<in> set (index_keys db) \<or> passed_over E now cam d subdir b f"
  shows "index_files E now cam d container subdir role b fs db = (Inr 0, db)"
  using assms by (induction fs) (simp_all add: index_file_skip)

lemma candidate_files_cong:
  "n_files db' = n_files db \<Longrightarrow> candidate_files db' dir container b = candidate_files db dir container b"
  by (simp add: candidate_files_def listdir_def Let_def)


lemma drop_prefix_inj: "inj_on (drop (length p)) {f. take (length p) f = p}"
  by (rule inj_onI) (metis (mono_tags, lifting) append_take_drop_id mem_Collect_eq)

lemma listdir_distinct:
  assumes "distinct (n_files db)"
  shows "distinct (listdir db dir)"
proof -
  let ?p = "dir @ ''/''"
  let ?in = "\<lambda>f. take (length ?p) f = ?p \<and> CHR ''/'' \<notin> set (drop (length ?p) f)"
  have "List.map_filter (\<lambda>f. if ?in f then Some (drop (length ?p) f) else None) fs = map (drop (length ?p)) (filter ?in fs)" for fs
    by (induction fs) (simp_all add: List.map_filter_simps)
  note gen = this
  have "length dir + 1 = length ?p" by simp
  then have eq: "listdir db dir = map (drop (length ?p)) (filter ?in (n_files db))" unfolding listdir_def by (simp only: gen)
  have "inj_on (drop (length ?p)) (set (filter ?in (n_files db)))"
    by (rule inj_on_subset [OF drop_prefix_inj]) (simp only: set_filter, blast)
  with assms show ?thesis unfolding eq distinct_map by (intro conjI distinct_filter)
qed

text \<open>A running scan never indexes the file that is still being written: in a directory of files the recorder named
  by their start, the one with the latest start gets no row, whatever its modification time says; only
  the final flush (\<open>include_newest\<close>) indexes it.\<close>

theorem index_skips_newest:
  assumes "distinct (index_keys db)" and "distinct (n_files db)"
    and names: "\<And>f. f \<in> set (listdir db (output_dir cam d subdir)) \<Longrightarrow> \<exists>c. valid_civil c \<and> f = seg_name c (segment_ext container)"
    and newest: "valid_civil c0" "seg_name c0 (segment_ext container) \<in> set (listdir db (output_dir cam d subdir))"
      "\<And>c. valid_civil c \<Longrightarrow> seg_name c (segment_ext container) \<in> set (listdir db (output_dir cam d subdir)) \<Longrightarrow> civil_ts c \<le> civil_ts c0"
    and "\<not> Segment_exists_rel_path db cam (rel_path_of cam subdir (seg_name c0 (segment_ext container)))"
    and "index_camera_dir E now cam d container subdir role False db = (r, db')"
  shows "\<not> Segment_exists_rel_path db' cam (rel_path_of cam subdir (seg_name c0 (segment_ext container)))"
proof -
  let ?dir = "output_dir cam d subdir" and ?x = "seg_name c0 (segment_ext container)"
  let ?files = "sort (filter (\<lambda>f. ends_with f (''.'' @ segment_ext container) \<and> name_groups f \<noteq> None) (listdir db ?dir))"
  have "y \<le> ?x" if "y \<in> set ?files" for y
    using that names newest(1,3) seg_name_mono by (auto; metis)
  then have "?x \<notin> set (butlast ?files)" using listdir_distinct [OF assms(2)] by (intro max_not_in_butlast) simp_all
  then have x: "?x \<notin> set (candidate_files db ?dir container False)"
    by (simp add: candidate_files_def Let_def)
  show ?thesis
  proof (cases "?dir \<in> set (n_locked db)")
    case True
    then show ?thesis using assms(7,8) by (simp add: index_camera_dir_def Let_def)
  next
    case False
    then have "index_files E now cam d container subdir role False (candidate_files db ?dir container False) db = (r, db')"
      using assms(8) by (simp add: index_camera_dir_def Let_def)
    from index_files_effect [OF this assms(1)]
    have "set (index_keys db') \<subseteq> set (index_keys db) \<union> (\<lambda>f. (cam, rel_path_of cam subdir f)) ` set (candidate_files db ?dir container False)" by blast
    then show ?thesis using assms(7) x by (auto simp: exists_rel_path_keys rel_path_of_def)
  qed
qed

section \<open>Witnesses\<close>

text \<open>Two files of camera 3 on a cache disk; the older one is settled.\<close>

definition sample_civil :: "int \<Rightarrow> civil" where
  "sample_civil sec = \<lparr>cv_year = 2024, cv_month = 2, cv_day = 29, cv_hour = 23, cv_minute = 59, cv_second = sec\<rparr>"

definition sample_index_env :: index_env where
  "sample_index_env =
     \<lparr>ix_ff = \<lparr>ff_bin = ''ffmpeg'', ff_rtsp = ''rtsp://r'', ff_hwaccel = None, ff_font = ''f'', ff_fmt3 = (\<lambda>_. ''0.000''),
        ff_ms = (\<lambda>_. Inr 10000)\<rparr>,
      ix_stat = (\<lambda>_. Some (0, 900)),
      ix_ffprobe = (\<lambda>_. Some ([[(''codec_type'', PStr ''video''), (''codec_name'', PStr ''hevc'')]], [(''duration'', PStr ''10.0'')]))\<rparr>"

definition sample_camera_dir :: nvr where
  "sample_camera_dir =
     sample_db\<lparr>n_files := [''/c/3/seg-20240229-235910.ts'', ''/c/3/seg-20240229-235950.ts'']\<rparr>"

lemma sample_civil_valid: "valid_civil (sample_civil 10)" "valid_civil (sample_civil 50)"
  by (simp_all add: sample_civil_def valid_civil_def days_in_month_def is_leap_def)

theorem parse_start_ts_seg_name_witness:
  "parse_start_ts ''seg-20240229-235950.ts'' = Some 1709251190000"
proof -
  have "seg_name (sample_civil 50) (segment_ext ''mpegts'') = ''seg-20240229-235950.ts''" by code_simp
  moreover have "civil_ts (sample_civil 50) = 1709251190000" by code_simp
  ultimately show ?thesis using parse_start_ts_seg_name [OF sample_civil_valid(2), of "''mpegts''"] by simp
qed


theorem index_skips_newest_witness:
  "\<not> Segment_exists_rel_path (snd (index_camera_dir sample_index_env 1709251200000 3 (sweep_disk 5 ''/c'' ROLE_CACHE) ''mpegts'' [] ''main'' False
       sample_camera_dir)) 3 (rel_path_of 3 [] (seg_name (sample_civil 50) (segment_ext ''mpegts'')))"
proof -
  let ?d = "sweep_disk 5 ''/c'' ROLE_CACHE"
  have names: "seg_name (sample_civil 10) (segment_ext ''mpegts'') = ''seg-20240229-235910.ts''"
    "seg_name (sample_civil 50) (segment_ext ''mpegts'') = ''seg-20240229-235950.ts''" by code_simp+
  have dir: "listdir sample_camera_dir (output_dir 3 ?d []) =
      [seg_name (sample_civil 10) (segment_ext ''mpegts''), seg_name (sample_civil 50) (segment_ext ''mpegts'')]" by code_simp
  have inj: "civil_ts c = t" if "valid_civil c" "seg_name c (segment_ext ''mpegts'') = seg_name b (segment_ext ''mpegts'')" "valid_civil b" "civil_ts b = t" for b c t
    using parse_start_ts_seg_name [OF that(1), of "''mpegts''"] parse_start_ts_seg_name [OF that(3), of "''mpegts''"] that(2,4) by simp
  have ts: "civil_ts (sample_civil 10) = 1709251150000" "civil_ts (sample_civil 50) = 1709251190000" by code_simp+
  show ?thesis
  proof (rule index_skips_newest [OF _ _ _ sample_civil_valid(2) _ _ _ prod.collapse [symmetric]])
    show "distinct (index_keys sample_camera_dir)" "distinct (n_files sample_camera_dir)" by code_simp+
    show "\<exists>c. valid_civil c \<and> f = seg_name c (segment_ext ''mpegts'')" if "f \<in> set (listdir sample_camera_dir (output_dir 3 ?d []))" for f
      using that sample_civil_valid unfolding dir by auto
    show "seg_name (sample_civil 50) (segment_ext ''mpegts'') \<in> set (listdir sample_camera_dir (output_dir 3 ?d []))" unfolding dir by simp
    show "civil_ts c \<le> civil_ts (sample_civil 50)" if "valid_civil c" "seg_name c (segment_ext ''mpegts'') \<in> set (listdir sample_camera_dir (output_dir 3 ?d []))" for c
      using that inj [OF that(1) _ sample_civil_valid(1) ts(1)] inj [OF that(1) _ sample_civil_valid(2) ts(2)] unfolding dir by (auto simp: ts)
    show "\<not> Segment_exists_rel_path sample_camera_dir 3 (rel_path_of 3 [] (seg_name (sample_civil 50) (segment_ext ''mpegts'')))"
      by (simp add: Segment_exists_rel_path_def sample_camera_dir_def sample_db_def)
  qed
qed

end
