(* ===== verification/Recorder.thy ===== *)
theory Recorder
  imports SegmentIndexer EncodeScheduler EventProps
begin

text \<open>
  The recorder supervisor, \<open>worker/recorder/supervisor.py\<close>: the convergence loop that keeps one FFmpeg
  per camera that should be recorded, the isolated loop for the secondary stream, and the loop that
  keeps live transcodes warm. The health rows are those of \<open>server/model/recorder_health.py\<close>.

  Every question the loop asks its surroundings (the monotonic clock, the process table, \<open>spawn\<close>,
  the directory of a disk, the round-robin counter, go2rtc) is answered by the environment and may be
  answered differently each time: an answer is a function of the number of questions asked so far
  (\<open>rs_asked\<close>). The wall clock \<open>now\<close> is read once per tick. \<open>popen.poll()\<close> is such a question too,
  so a process may exit, or survive a kill, at any moment. Floats are rationals: the delays are
  exact powers of two or the cap.
\<close>

section \<open>State\<close>

definition STATE_STOPPED :: string where "STATE_STOPPED = ''stopped''"
definition STATE_STARTING :: string where "STATE_STARTING = ''starting''"
definition STATE_RECORDING :: string where "STATE_RECORDING = ''recording''"
definition STATE_RECONNECTING :: string where "STATE_RECONNECTING = ''reconnecting''"
definition STATE_ERROR :: string where "STATE_ERROR = ''error''"

lemmas recorder_states = STATE_STOPPED_def STATE_STARTING_def STATE_RECORDING_def STATE_RECONNECTING_def STATE_ERROR_def

record recorder_health =
  rh_camera :: db_id
  rh_state :: string
  rh_pid :: "int option"
  rh_last_segment_at :: "ts option"
  rh_restart_count :: int
  rh_last_error :: "string option"
  rh_updated_at :: ts

definition BACKOFF_START :: rat where "BACKOFF_START = 1"
definition BACKOFF_MAX :: rat where "BACKOFF_MAX = 15"
definition STALL_FACTOR :: int where "STALL_FACTOR = 3"

record proc =
  pr_pid :: int
  pr_disk_id :: db_id
  pr_container :: string
  pr_segment_seconds :: int
  pr_last_segment_at :: rat
  pr_restart_count :: int
  pr_backoff :: rat
  pr_next_retry :: rat
  pr_state :: string
  pr_dead_handled :: bool
  pr_last_disk :: "disk option"
  pr_last_db_segment_at :: "ts option"

text \<open>The stream columns the recorder reads beside those of the encoder scheduler, and a camera's
  \<open>dual_recording\<close> (listed cameras have it on) with its \<open>dual_record_stream\<close>.\<close>

record rec_stream = stream +
  rm_id :: db_id
  rm_is_default_full :: bool

type_synonym pool = "(db_id \<times> proc) list"

record 'r rec_state = "'r ev_state" +
  rs_streams :: "rec_stream list"
  rs_dual :: "(db_id \<times> string option) list"
  rs_live_transcode :: "db_id list"
  rs_settings :: "(string \<times> pyval) list"
  rs_flags :: flag_state
  rs_enc_nodes :: "encoding_node list"
  rs_enc_rows :: "encode_assignment list"
  rs_health :: "recorder_health list"
  rs_procs :: pool
  rs_sub_procs :: pool
  rs_warm_procs :: pool
  rs_spawned :: "(int \<times> string list) list"
  rs_stopped :: "int list"
  rs_asked :: nat

record 'r rec_env =
  re_ev :: "'r ev_env"
  re_tok :: "'r token_env"
  re_md5 :: "string \<Rightarrow> int"
  re_headroom :: int
  re_ff :: ff_env
  re_index :: "nat \<Rightarrow> index_env"
  re_mono :: "nat \<Rightarrow> rat"
  re_exited :: "nat \<Rightarrow> int \<Rightarrow> bool"
  re_mkdir :: "nat \<Rightarrow> string \<Rightarrow> bool"
  re_spawn :: "nat \<Rightarrow> string list \<Rightarrow> py_error + int"
  re_rr :: "nat \<Rightarrow> int option"
  re_consumers :: "nat \<Rightarrow> string \<Rightarrow> int option"
  re_flag_clock :: "nat \<Rightarrow> int"

text \<open>Asking: the answer and the state with the question counted.\<close>

definition ask :: "(nat \<Rightarrow> 'a) \<Rightarrow> 'r rec_state \<Rightarrow> 'a \<times> 'r rec_state" where
  "ask f s = (f (rs_asked s), s\<lparr>rs_asked := Suc (rs_asked s)\<rparr>)"

section \<open>Dictionaries of processes\<close>

definition pool_get :: "pool \<Rightarrow> db_id \<Rightarrow> proc option" where
  "pool_get p c = map_of p c"

fun pool_set :: "pool \<Rightarrow> db_id \<Rightarrow> proc \<Rightarrow> pool" where
  "pool_set [] c v = [(c, v)]"
| "pool_set ((c', v') # p) c v = (if c' = c then (c, v) # p else (c', v') # pool_set p c v)"

definition pool_pop :: "pool \<Rightarrow> db_id \<Rightarrow> pool" where
  "pool_pop p c = filter (\<lambda>(c', _). c' \<noteq> c) p"

section \<open>Health\<close>

definition blank_health :: "db_id \<Rightarrow> recorder_health" where
  "blank_health cam =
     \<lparr>rh_camera = cam, rh_state = STATE_STOPPED, rh_pid = None, rh_last_segment_at = None, rh_restart_count = 0,
      rh_last_error = None, rh_updated_at = 0\<rparr>"

definition RecorderHealth_get :: "'r rec_state \<Rightarrow> db_id \<Rightarrow> recorder_health option" where
  "RecorderHealth_get s cam = first_row (filter (\<lambda>h. rh_camera h = cam) (rs_health s))"

definition RecorderHealth_upsert :: "ts \<Rightarrow> db_id \<Rightarrow> (recorder_health \<Rightarrow> recorder_health) \<Rightarrow> 'r rec_state \<Rightarrow> 'r rec_state" where
  "RecorderHealth_upsert now cam f s =
     (case RecorderHealth_get s cam of
        None \<Rightarrow> s\<lparr>rs_health := rs_health s @ [(f (blank_health cam))\<lparr>rh_updated_at := now\<rparr>]\<rparr>
      | Some _ \<Rightarrow> s\<lparr>rs_health := map (\<lambda>h. if rh_camera h = cam then (f h)\<lparr>rh_updated_at := now\<rparr> else h) (rs_health s)\<rparr>)"

definition set_health ::
  "ts \<Rightarrow> db_id \<Rightarrow> string \<Rightarrow> int option \<Rightarrow> ts option \<Rightarrow> int option \<Rightarrow> string option \<Rightarrow> 'r rec_state \<Rightarrow> 'r rec_state" where
  "set_health now cam state pid last_segment_at restart_count err =
     RecorderHealth_upsert now cam (\<lambda>h.
       let h1 = h\<lparr>rh_state := state\<rparr>;
           h2 = (if pid \<noteq> None \<or> state = STATE_STOPPED then h1\<lparr>rh_pid := pid\<rparr> else h1);
           h3 = (if last_segment_at \<noteq> None then h2\<lparr>rh_last_segment_at := last_segment_at\<rparr> else h2);
           h4 = (case restart_count of None \<Rightarrow> h3 | Some n \<Rightarrow> h3\<lparr>rh_restart_count := n\<rparr>)
       in case err of None \<Rightarrow> h4 | Some e \<Rightarrow> h4\<lparr>rh_last_error := Some (take 1000 e)\<rparr>)"

section \<open>Which cameras to record\<close>

definition forced_ids :: "ts \<Rightarrow> 'z nvr_scheme \<Rightarrow> db_id list" where
  "forced_ids now s =
     remdups (map rec_camera (filter (\<lambda>r. rec_deleted r = None
        \<and> (case rec_end r of None \<Rightarrow> True | Some e \<Rightarrow> e > now)) (n_recordings s)))"

definition desired_cameras :: "'r ev_env \<Rightarrow> ts \<Rightarrow> ('r, 'z) ev_state_scheme \<Rightarrow> camera list" where
  "desired_cameras E now s =
     (let forced = forced_ids now s
      in List.map_filter (\<lambda>cid.
           case first_row (filter (\<lambda>c. cam_id c = cid \<and> cam_deleted c = None) (n_cameras s)) of
             None \<Rightarrow> None
           | Some cam \<Rightarrow>
               if \<not> cam_enabled cam then None
               else if cid \<notin> set forced \<and> schedule_mode E s cid now = ''off'' then None
               else Some cam)
         (remdups (map cam_id (Camera_get_all_enabled s) @ forced)))"

definition camera_streams :: "'r rec_state \<Rightarrow> db_id \<Rightarrow> rec_stream list" where
  "camera_streams s cam = sort_key sm_role (filter (\<lambda>x. sm_camera x = cam \<and> sm_deleted x = None) (rs_streams s))"

definition record_stream :: "rec_stream list \<Rightarrow> rec_stream option" where
  "record_stream streams =
     (case streams of
        [] \<Rightarrow> None
      | x # _ \<Rightarrow>
          (case find rm_is_default_full streams of
             Some y \<Rightarrow> Some y
           | None \<Rightarrow> (case find (\<lambda>y. sm_role y = ''main'') streams of Some y \<Rightarrow> Some y | None \<Rightarrow> Some x)))"

definition sub_stream :: "rec_stream list \<Rightarrow> string option \<Rightarrow> rec_stream option" where
  "sub_stream streams chosen =
     (if length streams < 2 then None
      else
        let main_id = map_option rm_id (record_stream streams);
            other = (\<lambda>y. Some (rm_id y) \<noteq> main_id);
            picked = (case chosen of None \<Rightarrow> None
                      | Some role \<Rightarrow> if role = [] then None else find (\<lambda>y. sm_role y = role) streams)
        in case picked of
             Some y \<Rightarrow> Some y
           | None \<Rightarrow>
               (case find (\<lambda>y. sm_role y = ''sub'') streams of
                  Some y \<Rightarrow> Some y
                | None \<Rightarrow>
                    (case find (\<lambda>y. sm_is_default_live y \<and> other y) streams of
                       Some y \<Rightarrow> Some y | None \<Rightarrow> find other streams)))"

section \<open>The main recorder\<close>

text \<open>Spawning a segment writer; shared by the two recorders, which differ in the directory.\<close>

definition segment_cmd :: "ff_env \<Rightarrow> rec_stream \<Rightarrow> string \<Rightarrow> string \<Rightarrow> int \<Rightarrow> string list" where
  "segment_cmd F stream dir container seg_seconds =
     build_segment_cmd F (restream_url F (sm_go2rtc_name stream))
       (path_join dir (''seg-%Y%m%d-%H%M%S.'' @ segment_ext container)) seg_seconds container (sm_codec stream)"

definition spawn :: "'r rec_env \<Rightarrow> string list \<Rightarrow> 'r rec_state \<Rightarrow> (py_error + int) \<times> 'r rec_state" where
  "spawn E cmd s =
     (case ask (\<lambda>n. re_spawn E n cmd) s of
        (Inl e, s1) \<Rightarrow> (Inl e, s1)
      | (Inr pid, s1) \<Rightarrow> (Inr pid, s1\<lparr>rs_spawned := rs_spawned s1 @ [(pid, cmd)]\<rparr>))"

definition new_proc :: "int \<Rightarrow> db_id \<Rightarrow> string \<Rightarrow> int \<Rightarrow> rat \<Rightarrow> proc option \<Rightarrow> disk option \<Rightarrow> proc" where
  "new_proc pid disk container seg_seconds now prior last_disk =
     \<lparr>pr_pid = pid, pr_disk_id = disk, pr_container = container, pr_segment_seconds = seg_seconds, pr_last_segment_at = now,
      pr_restart_count = (case prior of None \<Rightarrow> 0 | Some p \<Rightarrow> pr_restart_count p),
      pr_backoff = (case prior of None \<Rightarrow> BACKOFF_START | Some p \<Rightarrow> pr_backoff p), pr_next_retry = 0,
      pr_state = STATE_STARTING, pr_dead_handled = False, pr_last_disk = last_disk, pr_last_db_segment_at = None\<rparr>"

definition gated :: "rat \<Rightarrow> proc option \<Rightarrow> bool" where
  "gated now prior \<longleftrightarrow> (case prior of None \<Rightarrow> False | Some p \<Rightarrow> now < pr_next_retry p)"

definition pick_disk :: "'r rec_env \<Rightarrow> db_id \<Rightarrow> 'r rec_state \<Rightarrow> disk option \<times> 'r rec_state" where
  "pick_disk E cam s =
     (case ask (re_rr E) s of (rr, s1) \<Rightarrow>
        pick_write_disk (re_md5 E) (re_headroom E) rr s1 cam (StoragePolicy_get_for_camera s1 cam))"

definition policy_container :: "storage_policy option \<Rightarrow> string" where
  "policy_container p = (case p of None \<Rightarrow> ''mpegts'' | Some q \<Rightarrow> pol_container q)"

definition policy_seconds :: "storage_policy option \<Rightarrow> int" where
  "policy_seconds p = (case p of None \<Rightarrow> 10 | Some q \<Rightarrow> pol_segment_seconds q)"

definition error_message :: "py_error \<Rightarrow> string" where
  "error_message e = (case e of OSError m \<Rightarrow> m | _ \<Rightarrow> [])"

definition start :: "'r rec_env \<Rightarrow> ts \<Rightarrow> db_id \<Rightarrow> ('r rec_state, unit) act" where
  "start E now cam s0 =
     (case ask (re_mono E) s0 of (t, s) \<Rightarrow>
      let prior = pool_get (rs_procs s) cam in
      if gated t prior then (Inr (), s)
      else
        let policy = StoragePolicy_get_for_camera s cam in
        case record_stream (camera_streams s cam) of
          None \<Rightarrow> (Inr (), set_health now cam STATE_ERROR None None None (Some ''no_stream'') s)
        | Some stream \<Rightarrow>
            (case pick_disk E cam s of
               (None, s1) \<Rightarrow> (Inr (), set_health now cam STATE_ERROR None None None (Some ''no_writable_disk'') s1)
             | (Some d, s1) \<Rightarrow>
                 let dir = path_join (disk_mount_path d) (str_of_int cam);
                     container = policy_container policy; secs = policy_seconds policy
                 in case ask (\<lambda>n. re_mkdir E n dir) s1 of
                      (False, s2) \<Rightarrow> (Inl (OSError dir), s2)
                    | (True, s2) \<Rightarrow>
                        (case spawn E (segment_cmd (re_ff E) stream dir container secs) s2 of
                           (Inl e, s3) \<Rightarrow>
                             (Inr (), set_health now cam STATE_ERROR None None None (Some (''spawn_failed: '' @ error_message e)) s3)
                         | (Inr pid, s3) \<Rightarrow>
                             let p = new_proc pid (disk_id d) container secs t prior (Some d)
                             in (Inr (), set_health now cam STATE_STARTING (Some pid) None (Some (pr_restart_count p)) None
                                           (s3\<lparr>rs_procs := pool_set (rs_procs s3) cam p\<rparr>)))))"

text \<open>\<open>index_camera_dir\<close> with the handler around it: an exception is logged and counts as nothing.\<close>

definition index_logged :: "'r rec_env \<Rightarrow> ts \<Rightarrow> db_id \<Rightarrow> proc \<Rightarrow> string \<Rightarrow> string \<Rightarrow> bool \<Rightarrow> 'r rec_state \<Rightarrow> int \<times> 'r rec_state" where
  "index_logged E now cam p subdir role include_newest s =
     (case pr_last_disk p of
        None \<Rightarrow> (0, s)
      | Some d \<Rightarrow>
          (case ask (re_index E) s of (I, s1) \<Rightarrow>
             (case index_camera_dir I now cam d (pr_container p) subdir role include_newest s1 of
                (Inl _, s2) \<Rightarrow> (0, s2) | (Inr n, s2) \<Rightarrow> (n, s2))))"

definition graceful_stop :: "int \<Rightarrow> 'r rec_state \<Rightarrow> 'r rec_state" where
  "graceful_stop pid s = s\<lparr>rs_stopped := rs_stopped s @ [pid]\<rparr>"

definition stop :: "'r rec_env \<Rightarrow> ts \<Rightarrow> db_id \<Rightarrow> 'r rec_state \<Rightarrow> 'r rec_state" where
  "stop E now cam s =
     (let s1 = (case pool_get (rs_procs s) cam of
                  None \<Rightarrow> s
                | Some p \<Rightarrow>
                    snd (index_logged E now cam p [] ''main'' True
                      (graceful_stop (pr_pid p) (s\<lparr>rs_procs := pool_pop (rs_procs s) cam\<rparr>))))
      in set_health now cam STATE_STOPPED None None None None s1)"

text \<open>The bookkeeping of a death, done once per process.\<close>

definition bury :: "rat \<Rightarrow> proc \<Rightarrow> proc" where
  "bury t p =
     (let b = min (pr_backoff p * 2) BACKOFF_MAX
      in p\<lparr>pr_restart_count := pr_restart_count p + 1, pr_backoff := b, pr_next_retry := t + b, pr_dead_handled := True\<rparr>)"

definition on_dead :: "'r rec_env \<Rightarrow> ts \<Rightarrow> db_id \<Rightarrow> proc \<Rightarrow> string \<Rightarrow> ('r rec_state, unit) act" where
  "on_dead E now cam p reason s0 =
     (let (p1, s1) =
        (if pr_dead_handled p then (p, s0)
         else case ask (re_mono E) s0 of (t, s) \<Rightarrow>
           let q = bury t p;
               state = (if pr_restart_count q > 10 then STATE_ERROR else STATE_RECONNECTING);
               s' = set_health now cam state None None (Some (pr_restart_count q)) (Some reason)
                      (s\<lparr>rs_procs := pool_set (rs_procs s) cam q\<rparr>)
           in (q, snd (index_logged E now cam q [] ''main'' True s')))
      in case ask (re_mono E) s1 of (t2, s2) \<Rightarrow>
           if t2 \<ge> pr_next_retry p1 then start E now cam s2 else (Inr (), s2))"

definition kill :: "int \<Rightarrow> 'r rec_state \<Rightarrow> 'r rec_state" where
  "kill pid s = s\<lparr>rs_stopped := rs_stopped s @ [pid]\<rparr>"

definition stalled :: "rat \<Rightarrow> proc \<Rightarrow> bool" where
  "stalled t p \<longleftrightarrow> t - pr_last_segment_at p > of_int (STALL_FACTOR * pr_segment_seconds p + 8)"

definition maintain :: "'r rec_env \<Rightarrow> ts \<Rightarrow> db_id \<Rightarrow> proc \<Rightarrow> ('r rec_state, unit) act" where
  "maintain E now cam p s0 =
     (let (p1, s1) =
        (case index_logged E now cam p [] ''main'' False s0 of (n, s) \<Rightarrow>
           if n = 0 then (p, s)
           else case ask (re_mono E) s of (t, s') \<Rightarrow>
             let q = p\<lparr>pr_last_segment_at := t, pr_last_db_segment_at := Some now, pr_backoff := BACKOFF_START\<rparr>
             in (q, s'\<lparr>rs_procs := pool_set (rs_procs s') cam q\<rparr>))
      in case ask (re_mono E) s1 of (t2, s2) \<Rightarrow>
           if stalled t2 p1 then on_dead E now cam p1 ''stalled'' (kill (pr_pid p1) s2)
           else (Inr (), set_health now cam STATE_RECORDING (Some (pr_pid p1)) (pr_last_db_segment_at p1) (Some (pr_restart_count p1)) None
                           (s2\<lparr>rs_procs := pool_set (rs_procs s2) cam (p1\<lparr>pr_state := STATE_RECORDING\<rparr>)\<rparr>)))"

text \<open>What the loop does for one desired camera.\<close>

definition supervise :: "'r rec_env \<Rightarrow> ts \<Rightarrow> db_id \<Rightarrow> ('r rec_state, unit) act" where
  "supervise E now cam s =
     (case pool_get (rs_procs s) cam of
        None \<Rightarrow> start E now cam s
      | Some p \<Rightarrow>
          (case ask (\<lambda>n. re_exited E n (pr_pid p)) s of
             (True, s1) \<Rightarrow> on_dead E now cam p ''process_exited'' s1
           | (False, s1) \<Rightarrow> maintain E now cam p s1))"

section \<open>The secondary stream\<close>

definition start_sub :: "'r rec_env \<Rightarrow> db_id \<Rightarrow> ('r rec_state, unit) act" where
  "start_sub E cam s0 =
     (case ask (re_mono E) s0 of (t, s) \<Rightarrow>
      let prior = pool_get (rs_sub_procs s) cam in
      if gated t prior then (Inr (), s)
      else case sub_stream (camera_streams s cam) (case map_of (rs_dual s) cam of None \<Rightarrow> None | Some role \<Rightarrow> role) of
        None \<Rightarrow> (Inr (), s)
      | Some stream \<Rightarrow>
          let policy = StoragePolicy_get_for_camera s cam
          in case pick_disk E cam s of
               (None, s1) \<Rightarrow> (Inr (), s1)
             | (Some d, s1) \<Rightarrow>
                 let dir = path_join (path_join (disk_mount_path d) (str_of_int cam)) ''sub'';
                     container = policy_container policy; secs = policy_seconds policy
                 in case ask (\<lambda>n. re_mkdir E n dir) s1 of
                      (False, s2) \<Rightarrow> (Inl (OSError dir), s2)
                    | (True, s2) \<Rightarrow>
                        (case spawn E (segment_cmd (re_ff E) stream dir container secs) s2 of
                           (Inl e, s3) \<Rightarrow> (Inr (), s3)
                         | (Inr pid, s3) \<Rightarrow>
                             (Inr (), s3\<lparr>rs_sub_procs := pool_set (rs_sub_procs s3) cam
                                            (new_proc pid (disk_id d) container secs t prior (Some d))\<rparr>)))"

definition stop_sub :: "'r rec_env \<Rightarrow> ts \<Rightarrow> db_id \<Rightarrow> 'r rec_state \<Rightarrow> 'r rec_state" where
  "stop_sub E now cam s =
     (case pool_get (rs_sub_procs s) cam of
        None \<Rightarrow> s
      | Some p \<Rightarrow>
          snd (index_logged E now cam p ''sub'' ''sub'' True
            (graceful_stop (pr_pid p) (s\<lparr>rs_sub_procs := pool_pop (rs_sub_procs s) cam\<rparr>))))"

definition on_dead_sub :: "'r rec_env \<Rightarrow> ts \<Rightarrow> db_id \<Rightarrow> proc \<Rightarrow> ('r rec_state, unit) act" where
  "on_dead_sub E now cam p s0 =
     (let (p1, s1) =
        (if pr_dead_handled p then (p, s0)
         else case ask (re_mono E) s0 of (t, s) \<Rightarrow>
           let q = bury t p
           in (q, snd (index_logged E now cam q ''sub'' ''sub'' True (s\<lparr>rs_sub_procs := pool_set (rs_sub_procs s) cam q\<rparr>))))
      in case ask (re_mono E) s1 of (t2, s2) \<Rightarrow>
           if t2 \<ge> pr_next_retry p1 then start_sub E cam s2 else (Inr (), s2))"

definition maintain_sub :: "'r rec_env \<Rightarrow> ts \<Rightarrow> db_id \<Rightarrow> proc \<Rightarrow> ('r rec_state, unit) act" where
  "maintain_sub E now cam p s0 =
     (let (p1, s1) =
        (case index_logged E now cam p ''sub'' ''sub'' False s0 of (n, s) \<Rightarrow>
           if n = 0 then (p, s)
           else case ask (re_mono E) s of (t, s') \<Rightarrow>
             let q = p\<lparr>pr_last_segment_at := t, pr_backoff := BACKOFF_START\<rparr>
             in (q, s'\<lparr>rs_sub_procs := pool_set (rs_sub_procs s') cam q\<rparr>))
      in case ask (re_mono E) s1 of (t2, s2) \<Rightarrow>
           if stalled t2 p1 then on_dead_sub E now cam p1 (kill (pr_pid p1) s2) else (Inr (), s2))"

definition supervise_sub :: "'r rec_env \<Rightarrow> ts \<Rightarrow> db_id \<Rightarrow> ('r rec_state, unit) act" where
  "supervise_sub E now cam s =
     (case pool_get (rs_sub_procs s) cam of
        None \<Rightarrow> start_sub E cam s
      | Some p \<Rightarrow>
          (case ask (\<lambda>n. re_exited E n (pr_pid p)) s of
             (True, s1) \<Rightarrow> on_dead_sub E now cam p s1
           | (False, s1) \<Rightarrow> maintain_sub E now cam p s1))"

section \<open>Keeping live transcodes warm\<close>

definition warm_stream :: "'r rec_state \<Rightarrow> db_id \<Rightarrow> rec_stream option" where
  "warm_stream s cam =
     (case find (\<lambda>x. sm_is_default_live x \<and> sm_enabled x) (camera_streams s cam) of
        None \<Rightarrow> None
      | Some x \<Rightarrow> if live_transcode_enabled (cam \<in> set (rs_live_transcode s)) (stream.truncate x) then Some x else None)"

text \<open>\<open>encode_offload.assignment_for\<close> and \<open>live_offload_target\<close> (whether there is a target).\<close>

definition assignment_for :: "'r rec_env \<Rightarrow> db_id \<Rightarrow> 'r rec_state \<Rightarrow> encode_assignment option \<times> 'r rec_state" where
  "assignment_for E cam s0 =
     (case ask (re_flag_clock E) s0 of (t, s) \<Rightarrow>
      case is_enabled t FLAG_KEY False (rs_flags s) of (on, fl) \<Rightarrow>
      let s1 = s\<lparr>rs_flags := fl\<rparr> in
      if \<not> on then (None, s1)
      else (case warm_stream s1 cam of None \<Rightarrow> (None, s1) | Some _ \<Rightarrow> (enc_get_for_camera (rs_enc_rows s1) cam, s1)))"

definition live_offload_target :: "'r rec_env \<Rightarrow> db_id \<Rightarrow> 'r rec_state \<Rightarrow> bool \<times> 'r rec_state" where
  "live_offload_target E cam s =
     (case assignment_for E cam s of
        (None, s1) \<Rightarrow> (False, s1)
      | (Some a, s1) \<Rightarrow>
          (ea_state a = STATE_ACTIVE
           \<and> (case first_row (filter (\<lambda>n. en_id n = ea_node a \<and> en_deleted_at n = None) (rs_enc_nodes s1)) of
                None \<Rightarrow> False | Some n \<Rightarrow> en_enabled n \<and> en_status n = STATUS_ONLINE), s1))"

definition refresh_viewer_activity :: "'r rec_env \<Rightarrow> ts \<Rightarrow> db_id \<Rightarrow> rec_stream \<Rightarrow> int \<Rightarrow> 'r rec_state \<Rightarrow> 'r rec_state" where
  "refresh_viewer_activity E now cam x window s =
     (if window \<le> 0 then s
      else case ask (\<lambda>n. re_consumers E n (sm_go2rtc_name x)) s of
        (None, s1) \<Rightarrow> s1
      | (Some k, s1) \<Rightarrow>
          let own = (if pool_get (rs_warm_procs s1) cam \<noteq> None then 1 else 0)
          in if k - own > 0 then s1\<lparr>es_redis := mark_activity (re_tok E) now (sm_go2rtc_name x) window (es_redis s1)\<rparr> else s1)"

text \<open>One camera of the first loop of \<open>_tick_warm\<close>: whether it goes into \<open>warm\<close>.\<close>

definition wants_warm :: "'r rec_env \<Rightarrow> ts \<Rightarrow> int \<Rightarrow> db_id \<Rightarrow> 'r rec_state \<Rightarrow> bool \<times> 'r rec_state" where
  "wants_warm E now window cam s =
     (case warm_stream s cam of
        None \<Rightarrow> (False, s)
      | Some x \<Rightarrow>
          let s1 = refresh_viewer_activity E now cam x window s
          in if \<not> is_active (re_tok E) (sm_go2rtc_name x) window (es_redis s1) then (False, s1)
             else (case live_offload_target E cam s1 of (off, s2) \<Rightarrow> (\<not> off, s2)))"

fun warm_cameras :: "'r rec_env \<Rightarrow> ts \<Rightarrow> int \<Rightarrow> db_id list \<Rightarrow> 'r rec_state \<Rightarrow> db_id list \<times> 'r rec_state" where
  "warm_cameras E now window [] s = ([], s)"
| "warm_cameras E now window (c # cs) s =
     (case wants_warm E now window c s of (b, s1) \<Rightarrow>
        (case warm_cameras E now window cs s1 of (ws, s2) \<Rightarrow> (if b then c # ws else ws, s2)))"

definition start_warm :: "'r rec_env \<Rightarrow> db_id \<Rightarrow> ('r rec_state, unit) act" where
  "start_warm E cam s0 =
     (case ask (re_mono E) s0 of (t, s) \<Rightarrow>
      let prior = pool_get (rs_warm_procs s) cam in
      if gated t prior then (Inr (), s)
      else case warm_stream s cam of
        None \<Rightarrow> (Inr (), s)
      | Some x \<Rightarrow>
          (case spawn E (build_keepwarm_cmd (re_ff E) (restream_url (re_ff E) (sm_go2rtc_name x))) s of
             (Inl e, s1) \<Rightarrow> (Inr (), s1)
           | (Inr pid, s1) \<Rightarrow> (Inr (), s1\<lparr>rs_warm_procs := pool_set (rs_warm_procs s1) cam (new_proc pid 0 [] 10 t prior None)\<rparr>)))"

definition stop_warm :: "db_id \<Rightarrow> 'r rec_state \<Rightarrow> 'r rec_state" where
  "stop_warm cam s =
     (case pool_get (rs_warm_procs s) cam of
        None \<Rightarrow> s
      | Some p \<Rightarrow> graceful_stop (pr_pid p) (s\<lparr>rs_warm_procs := pool_pop (rs_warm_procs s) cam\<rparr>))"

definition on_dead_warm :: "'r rec_env \<Rightarrow> db_id \<Rightarrow> proc \<Rightarrow> ('r rec_state, unit) act" where
  "on_dead_warm E cam p s0 =
     (let (p1, s1) =
        (if pr_dead_handled p then (p, s0)
         else case ask (re_mono E) s0 of (t, s) \<Rightarrow>
           let q = bury t p in (q, s\<lparr>rs_warm_procs := pool_set (rs_warm_procs s) cam q\<rparr>))
      in case ask (re_mono E) s1 of (t2, s2) \<Rightarrow>
           if t2 \<ge> pr_next_retry p1 then start_warm E cam s2 else (Inr (), s2))"

definition supervise_warm :: "'r rec_env \<Rightarrow> db_id \<Rightarrow> ('r rec_state, unit) act" where
  "supervise_warm E cam s =
     (case pool_get (rs_warm_procs s) cam of
        None \<Rightarrow> start_warm E cam s
      | Some p \<Rightarrow>
          (case ask (\<lambda>n. re_exited E n (pr_pid p)) s of
             (True, s1) \<Rightarrow> on_dead_warm E cam p s1
           | (False, s1) \<Rightarrow> (Inr (), s1)))"

section \<open>The tick\<close>

text \<open>The two halves every loop has: stop what is no longer wanted, then attend to each wanted camera; an
  exception ends the second half.\<close>

definition drop_others :: "('s \<Rightarrow> pool) \<Rightarrow> (db_id \<Rightarrow> 's \<Rightarrow> 's) \<Rightarrow> db_id list \<Rightarrow> 's \<Rightarrow> 's" where
  "drop_others procs halt ids s = fold (\<lambda>c s. if c \<in> set ids then s else halt c s) (map fst (procs s)) s"

definition tick_subs :: "'r rec_env \<Rightarrow> ts \<Rightarrow> camera list \<Rightarrow> ('r rec_state, unit) act" where
  "tick_subs E now desired s =
     (let dual = filter (\<lambda>c. map_of (rs_dual s) c \<noteq> None) (map cam_id desired)
      in each (supervise_sub E now) dual (drop_others rs_sub_procs (stop_sub E now) dual s))"

definition tick_warm :: "'r rec_env \<Rightarrow> ts \<Rightarrow> ('r rec_state, unit) act" where
  "tick_warm E now s =
     (case warm_cameras E now (idle_window (rs_settings s)) (map cam_id (Camera_get_all_enabled s)) s of
        (warm, s1) \<Rightarrow> each (supervise_warm E) warm (drop_others rs_warm_procs stop_warm warm s1))"

definition tick :: "'r rec_env \<Rightarrow> ts \<Rightarrow> ('r rec_state, unit) act" where
  "tick E now s =
     (let desired = desired_cameras (re_ev E) now s; ids = map cam_id desired
      in case each (supervise E now) ids (drop_others rs_procs (stop E now) ids s) of
           (Inl e, s1) \<Rightarrow> (Inl e, s1)
         | (Inr _, s1) \<Rightarrow> (Inr (), snd (tick_warm E now (snd (tick_subs E now desired s1)))))"

definition shutdown :: "'r rec_env \<Rightarrow> ts \<Rightarrow> 'r rec_state \<Rightarrow> 'r rec_state" where
  "shutdown E now s =
     (let s1 = fold stop_warm (map fst (rs_warm_procs s)) s;
          s2 = fold (stop_sub E now) (map fst (rs_sub_procs s1)) s1
      in fold (stop E now) (map fst (rs_procs s2)) s2)"

text \<open>\<open>run\<close>: tick after tick, an exception of a tick being logged.\<close>

definition run_ticks :: "'r rec_env \<Rightarrow> ts list \<Rightarrow> 'r rec_state \<Rightarrow> 'r rec_state" where
  "run_ticks E nows s = fold (\<lambda>now s. snd (tick E now s)) nows s"

end
