(* ===== verification/RecorderSteps.thy ===== *)
theory RecorderSteps
  imports Recorder
begin

text \<open>
  The steps of the recorder supervisor. The three loops (main stream, secondary stream, keep-warm) share
  one contract, the locale \<open>process_loop\<close>: stopping removes exactly one entry, attending to a camera
  touches only that camera's entry and keeps the pool well formed, and neither touches what belongs
  to the other loops. The locale \<open>converging_loop\<close> adds that a camera that was attended to is settled.
  Both are interpreted on the operations of the supervisor.
\<close>

section \<open>Pools\<close>

definition proc_ok :: "proc \<Rightarrow> bool" where
  "proc_ok p \<longleftrightarrow> BACKOFF_START \<le> pr_backoff p \<and> pr_backoff p \<le> BACKOFF_MAX \<and> 0 \<le> pr_restart_count p
     \<and> (pr_dead_handled p \<longrightarrow> 0 < pr_restart_count p)"

definition pool_ok :: "pool \<Rightarrow> bool" where
  "pool_ok p \<longleftrightarrow> distinct (map fst p) \<and> (\<forall>(c, q) \<in> set p. proc_ok q)"

definition evolves :: "db_id \<Rightarrow> pool \<Rightarrow> pool \<Rightarrow> bool" where
  "evolves cam P Q \<longleftrightarrow> (pool_ok P \<longrightarrow> pool_ok Q) \<and> (\<forall>c. c \<noteq> cam \<longrightarrow> pool_get Q c = pool_get P c)"

lemma pool_set_keys: "set (map fst (pool_set P c v)) = insert c (set (map fst P))"
  by (induction P c v rule: pool_set.induct) auto

lemma pool_get_set [simp]: "pool_get (pool_set P c v) c' = (if c' = c then Some v else pool_get P c')"
  by (induction P c v rule: pool_set.induct) (auto simp: pool_get_def)

lemma pool_get_pop [simp]: "pool_get (pool_pop P c) c' = (if c' = c then None else pool_get P c')"
  unfolding pool_get_def pool_pop_def by (induction P) auto

lemma pool_set_ok: "pool_ok P \<Longrightarrow> proc_ok v \<Longrightarrow> pool_ok (pool_set P c v)"
proof (induction P c v rule: pool_set.induct)
  case (1 c v)
  then show ?case by (simp add: pool_ok_def)
next
  case (2 c' v' p c v)
  then have ok: "pool_ok p" by (simp add: pool_ok_def)
  show ?case
  proof (cases "c' = c")
    case True
    then show ?thesis using 2(2,3) by (auto simp: pool_ok_def)
  next
    case False
    have "c' \<notin> set (map fst (pool_set p c v))" using 2(2) False unfolding pool_set_keys by (simp add: pool_ok_def)
    then show ?thesis using False 2(1) [OF False ok 2(3)] 2(2) by (simp add: pool_ok_def)
  qed
qed

lemma pool_pop_ok: "pool_ok P \<Longrightarrow> pool_ok (pool_pop P c)"
  by (auto simp: pool_ok_def pool_pop_def distinct_map inj_on_def)

lemma pool_get_ok: "pool_ok P \<Longrightarrow> pool_get P c = Some v \<Longrightarrow> proc_ok v"
  unfolding pool_ok_def pool_get_def by (auto dest: map_of_SomeD)

lemma pool_get_keys: "c \<in> set (map fst P) \<longleftrightarrow> pool_get P c \<noteq> None"
  unfolding pool_get_def by (induction P) auto

lemma evolves_refl [simp]: "evolves c P P"
  by (simp add: evolves_def)

lemma evolves_trans: "evolves c P Q \<Longrightarrow> evolves c Q R \<Longrightarrow> evolves c P R"
  by (simp add: evolves_def)

lemma evolves_set: "(pool_ok P \<Longrightarrow> proc_ok v) \<Longrightarrow> evolves c P (pool_set P c v)"
  by (simp add: evolves_def pool_set_ok)

lemma new_proc_ok:
  assumes "\<And>p. prior = Some p \<Longrightarrow> proc_ok p"
  shows "proc_ok (new_proc pid d container secs t prior disk)"
  using assms by (cases prior) (simp_all add: proc_ok_def new_proc_def BACKOFF_START_def BACKOFF_MAX_def)

lemma bury_ok: "proc_ok p \<Longrightarrow> proc_ok (bury t p)"
  by (auto simp: proc_ok_def bury_def Let_def BACKOFF_START_def BACKOFF_MAX_def min_def)

section \<open>The contract of a loop\<close>

locale process_loop =
  fixes procs :: "'s \<Rightarrow> pool"
    and halt :: "db_id \<Rightarrow> 's \<Rightarrow> 's"
    and attend :: "db_id \<Rightarrow> ('s, unit) act"
    and rest :: "'s \<Rightarrow> 'o"
  assumes halt_procs: "procs (halt c s) = pool_pop (procs s) c"
    and halt_rest: "rest (halt c s) = rest s"
    and attend_procs: "evolves c (procs s) (procs (snd (attend c s)))"
    and attend_rest: "rest (snd (attend c s)) = rest s"
begin

lemma halts_procs:
  "pool_get (procs (fold (\<lambda>c s. if c \<in> set ids then s else halt c s) cs s)) c
     = (if c \<in> set cs \<and> c \<notin> set ids then None else pool_get (procs s) c)"
  by (induction cs arbitrary: s) (auto simp: halt_procs)

lemma halts_ok: "pool_ok (procs s) \<Longrightarrow> pool_ok (procs (fold (\<lambda>c s. if c \<in> set ids then s else halt c s) cs s))"
  by (induction cs arbitrary: s) (auto simp: halt_procs pool_pop_ok)

lemma halts_rest: "rest (fold (\<lambda>c s. if c \<in> set ids then s else halt c s) cs s) = rest s"
  by (induction cs arbitrary: s) (auto simp: halt_rest)

lemma dropped: "pool_get (procs (drop_others procs halt ids s)) c = (if c \<in> set ids then pool_get (procs s) c else None)"
  using pool_get_keys [of c "procs s"] by (auto simp: drop_others_def halts_procs)

lemma each_procs:
  "(c \<notin> set cs \<longrightarrow> pool_get (procs (snd (each attend cs s))) c = pool_get (procs s) c)
   \<and> (pool_ok (procs s) \<longrightarrow> pool_ok (procs (snd (each attend cs s)))) \<and> rest (snd (each attend cs s)) = rest s"
proof (induction cs arbitrary: s)
  case Nil
  then show ?case by simp
next
  case (Cons d cs)
  obtain r s1 where a: "attend d s = (r, s1)" by (rule prod.exhaust)
  have "evolves d (procs s) (procs s1)" "rest s1 = rest s"
    using attend_procs [of d s] attend_rest [of d s] by (simp_all add: a)
  with Cons [of s1] show ?case by (cases r) (simp_all add: a evolves_def)
qed

text \<open>After the loop only wanted cameras have a process.\<close>

lemma loop_keys:
  assumes "pool_get (procs (snd (each attend ids (drop_others procs halt ids s)))) c \<noteq> None"
  shows "c \<in> set ids"
  using assms each_procs [of c ids "drop_others procs halt ids s"] dropped [of ids s c] by (auto split: if_splits)

lemma loop_ok: "pool_ok (procs s) \<Longrightarrow> pool_ok (procs (snd (each attend ids (drop_others procs halt ids s))))"
  using each_procs [of undefined ids "drop_others procs halt ids s"] halts_ok [of s ids] by (simp add: drop_others_def)

lemma loop_rest: "rest (snd (each attend ids (drop_others procs halt ids s))) = rest s"
  using each_procs [of undefined ids "drop_others procs halt ids s"] halts_rest [of ids] by (simp add: drop_others_def)

end

locale converging_loop = process_loop procs halt attend rest
  for procs :: "'s \<Rightarrow> pool" and halt :: "db_id \<Rightarrow> 's \<Rightarrow> 's" and attend :: "db_id \<Rightarrow> ('s, unit) act" and rest :: "'s \<Rightarrow> 'o" +
  fixes settled :: "db_id \<Rightarrow> 's \<Rightarrow> bool"
  assumes attend_settles: "attend c s = (Inr (), s') \<Longrightarrow> settled c s'"
    and attend_keeps: "settled c' s \<Longrightarrow> c' \<noteq> c \<Longrightarrow> settled c' (snd (attend c s))"
begin

lemma each_keeps:
  assumes "settled c s" and "each attend cs s = (Inr (), s')"
  shows "settled c s'"
  using assms
proof (induction cs arbitrary: s)
  case Nil
  then show ?case by simp
next
  case (Cons d cs)
  obtain r s1 where a: "attend d s = (r, s1)" by (rule prod.exhaust)
  then obtain u where r: "r = Inr u" and rest: "each attend cs s1 = (Inr (), s')"
    using Cons.prems(2) by (cases r) auto
  have "settled c s1"
    using attend_settles [of d s s1] attend_keeps [OF Cons.prems(1), of d] a r by (cases "c = d") auto
  then show ?case using rest by (rule Cons.IH)
qed

lemma each_settles:
  assumes "each attend cs s = (Inr (), s')" and "c \<in> set cs"
  shows "settled c s'"
  using assms
proof (induction cs arbitrary: s)
  case Nil
  then show ?case by simp
next
  case (Cons d cs)
  obtain r s1 where a: "attend d s = (r, s1)" by (rule prod.exhaust)
  then obtain u where r: "r = Inr u" and rest: "each attend cs s1 = (Inr (), s')"
    using Cons.prems(1) by (cases r) auto
  show ?case
  proof (cases "c = d")
    case True
    then have "settled c s1" using attend_settles [of d s s1] a r by simp
    then show ?thesis using rest by (rule each_keeps)
  next
    case False
    then show ?thesis using Cons.IH [OF rest] Cons.prems(2) by simp
  qed
qed

end

section \<open>What the helpers leave alone\<close>

definition view :: "'r rec_state \<Rightarrow> pool \<times> pool \<times> pool \<times> recorder_health list" where
  "view s = (rs_procs s, rs_sub_procs s, rs_warm_procs s, rs_health s)"

lemma view_sels:
  assumes "view s' = view s"
  shows "rs_procs s' = rs_procs s" "rs_sub_procs s' = rs_sub_procs s" "rs_warm_procs s' = rs_warm_procs s"
    "rs_health s' = rs_health s" "RecorderHealth_get s' c = RecorderHealth_get s c"
  using assms by (simp_all add: view_def RecorderHealth_get_def)

lemma view_ask: "ask f s = (x, s') \<Longrightarrow> view s' = view s"
  by (auto simp: ask_def view_def)

lemma view_spawn: "spawn E cmd s = (x, s') \<Longrightarrow> view s' = view s"
  by (auto simp: spawn_def ask_def view_def split: sum.splits)

lemma pick_write_disk_invariant:
  assumes "P db" and "\<And>db i f. P db \<Longrightarrow> P (update_policy db i f)"
  shows "P (snd (pick_write_disk md5 h rr db cam pol))"
  using assms unfolding pick_write_disk_def Let_def by (auto split: option.splits)

lemma view_pick_disk:
  assumes "pick_disk E cam s = (x, s')"
  shows "view s' = view s"
proof -
  obtain rr s1 where a: "ask (re_rr E) s = (rr, s1)" by (rule prod.exhaust)
  have "view (snd (pick_write_disk (re_md5 E) (re_headroom E) rr s1 cam (StoragePolicy_get_for_camera s1 cam))) = view s1"
    by (rule pick_write_disk_invariant) (simp_all add: view_def update_policy_def)
  with assms view_ask [OF a] show ?thesis by (simp add: pick_disk_def a)
qed

lemma index_file_invariant:
  assumes "P db" and "\<And>db g. P db \<Longrightarrow> P (Segment_create db g)"
  shows "P (snd (index_file I now cam d container subdir role b name db))"
  using assms unfolding index_file_def Let_def by (auto split: option.splits sum.splits)

lemma index_files_invariant:
  assumes "P db" and "\<And>db g. P db \<Longrightarrow> P (Segment_create db g)"
  shows "P (snd (index_files I now cam d container subdir role b fs db))"
  using assms(1)
proof (induction fs arbitrary: db)
  case Nil
  then show ?case by simp
next
  case (Cons f fs)
  obtain r db1 where a: "index_file I now cam d container subdir role b f db = (r, db1)" by (rule prod.exhaust)
  have P1: "P db1" using index_file_invariant [of P, OF Cons.prems assms(2), of I now cam d container subdir role b f] by (simp add: a)
  show ?case
  proof (cases r)
    case (Inl e)
    then show ?thesis using P1 by (simp add: a)
  next
    case (Inr n)
    then show ?thesis using Cons.IH [OF P1] by (auto simp: a split: prod.splits sum.splits)
  qed
qed

lemma view_index:
  assumes "index_logged E now cam p subdir role b s = (n, s')"
  shows "view s' = view s"
proof (cases "pr_last_disk p")
  case None
  then show ?thesis using assms by (simp add: index_logged_def)
next
  case (Some d)
  obtain I s1 where a: "ask (re_index E) s = (I, s1)" by (rule prod.exhaust)
  obtain r s2 where i: "index_camera_dir I now cam d (pr_container p) subdir role b s1 = (r, s2)" by (rule prod.exhaust)
  have "view (snd (index_files I now cam d (pr_container p) subdir role b fs s1)) = view s1" for fs
    by (rule index_files_invariant) (simp_all add: view_def Segment_create_def)
  then have "view (snd (index_camera_dir I now cam d (pr_container p) subdir role b s1)) = view s1"
    by (simp add: index_camera_dir_def Let_def)
  moreover have "s' = s2" using assms by (cases r) (simp_all add: index_logged_def Some a i)
  ultimately show ?thesis using view_ask [OF a] by (simp add: i)
qed

lemma view_index_snd [simp]: "view (snd (index_logged E now cam p subdir role b s)) = view s"
  by (rule view_index [OF prod.collapse [symmetric]])

lemma set_health_pools [simp]:
  "rs_procs (set_health now cam st pid seg n err s) = rs_procs s"
  "rs_sub_procs (set_health now cam st pid seg n err s) = rs_sub_procs s"
  "rs_warm_procs (set_health now cam st pid seg n err s) = rs_warm_procs s"
  by (simp_all add: set_health_def RecorderHealth_upsert_def split: option.splits)

lemma health_upsert_get:
  assumes "\<And>h. rh_camera (f h) = rh_camera h"
  shows "RecorderHealth_get (RecorderHealth_upsert now cam f s) c =
    (if c = cam then Some ((f (case RecorderHealth_get s cam of None \<Rightarrow> blank_health cam | Some h \<Rightarrow> h))\<lparr>rh_updated_at := now\<rparr>)
     else RecorderHealth_get s c)"
proof -
  have upd: "first_row (filter (\<lambda>h. rh_camera h = c) (map (\<lambda>h. if rh_camera h = cam then (f h)\<lparr>rh_updated_at := now\<rparr> else h) hs))
      = (if c = cam then map_option (\<lambda>h. (f h)\<lparr>rh_updated_at := now\<rparr>) (first_row (filter (\<lambda>h. rh_camera h = cam) hs))
         else first_row (filter (\<lambda>h. rh_camera h = c) hs))" for hs
    by (cases "c = cam"; induction hs) (simp_all add: assms)
  show ?thesis
  proof (cases "RecorderHealth_get s cam")
    case None
    then show ?thesis
      by (auto simp: RecorderHealth_upsert_def RecorderHealth_get_def first_row_append assms blank_health_def)
  next
    case (Some h)
    then show ?thesis using upd [of "rs_health s"] by (simp add: RecorderHealth_upsert_def RecorderHealth_get_def)
  qed
qed

lemma set_health_get:
  shows "c \<noteq> cam \<Longrightarrow> RecorderHealth_get (set_health now cam st pid seg n err s) c = RecorderHealth_get s c"
    and "\<exists>h. RecorderHealth_get (set_health now cam st pid seg n err s) cam = Some h \<and> rh_state h = st
         \<and> (\<forall>e. err = Some e \<longrightarrow> rh_last_error h = Some (take 1000 e))"
proof -
  define f :: "recorder_health \<Rightarrow> recorder_health" where "f = (\<lambda>h. let h1 = h\<lparr>rh_state := st\<rparr>;
           h2 = (if pid \<noteq> None \<or> st = STATE_STOPPED then h1\<lparr>rh_pid := pid\<rparr> else h1);
           h3 = (if seg \<noteq> None then h2\<lparr>rh_last_segment_at := seg\<rparr> else h2);
           h4 = (case n of None \<Rightarrow> h3 | Some n \<Rightarrow> h3\<lparr>rh_restart_count := n\<rparr>)
       in case err of None \<Rightarrow> h4 | Some e \<Rightarrow> h4\<lparr>rh_last_error := Some (take 1000 e)\<rparr>)"
  have eq: "set_health now cam st pid seg n err s = RecorderHealth_upsert now cam f s" by (simp add: set_health_def f_def)
  have cam: "rh_camera (f h) = rh_camera h" for h by (simp add: f_def Let_def split: option.splits)
  have st: "rh_state (f h) = st" for h by (simp add: f_def Let_def split: option.splits)
  have er: "err = Some e \<Longrightarrow> rh_last_error (f h) = Some (take 1000 e)" for h e by (simp add: f_def Let_def)
  show "c \<noteq> cam \<Longrightarrow> RecorderHealth_get (set_health now cam st pid seg n err s) c = RecorderHealth_get s c"
    by (simp add: eq health_upsert_get [OF cam])
  show "\<exists>h. RecorderHealth_get (set_health now cam st pid seg n err s) cam = Some h \<and> rh_state h = st
         \<and> (\<forall>e. err = Some e \<longrightarrow> rh_last_error h = Some (take 1000 e))"
    using st er by (simp add: eq health_upsert_get [OF cam])
qed

section \<open>The steps of the main loop\<close>

text \<open>What any step for camera \<open>cam\<close> may do: change that camera's process and health row, and nothing of
  another camera or another loop; a process is replaced, never dropped.\<close>

definition RECORDER_STATES :: "string list" where
  "RECORDER_STATES = [STATE_STOPPED, STATE_STARTING, STATE_RECORDING, STATE_RECONNECTING, STATE_ERROR]"

definition health_ok :: "recorder_health list \<Rightarrow> bool" where
  "health_ok hs \<longleftrightarrow> distinct (map rh_camera hs) \<and> (\<forall>h \<in> set hs. rh_state h \<in> set RECORDER_STATES)"

lemma recorder_state_mem [simp]:
  "STATE_STOPPED \<in> set RECORDER_STATES" "STATE_STARTING \<in> set RECORDER_STATES" "STATE_RECORDING \<in> set RECORDER_STATES"
  "STATE_RECONNECTING \<in> set RECORDER_STATES" "STATE_ERROR \<in> set RECORDER_STATES"
  by (simp_all add: RECORDER_STATES_def)

lemma set_health_ok:
  assumes "health_ok (rs_health s)" and "st \<in> set RECORDER_STATES"
  shows "health_ok (rs_health (set_health now cam st pid seg n err s))"
proof -
  define f :: "recorder_health \<Rightarrow> recorder_health" where "f = (\<lambda>h. let h1 = h\<lparr>rh_state := st\<rparr>;
           h2 = (if pid \<noteq> None \<or> st = STATE_STOPPED then h1\<lparr>rh_pid := pid\<rparr> else h1);
           h3 = (if seg \<noteq> None then h2\<lparr>rh_last_segment_at := seg\<rparr> else h2);
           h4 = (case n of None \<Rightarrow> h3 | Some n \<Rightarrow> h3\<lparr>rh_restart_count := n\<rparr>)
       in case err of None \<Rightarrow> h4 | Some e \<Rightarrow> h4\<lparr>rh_last_error := Some (take 1000 e)\<rparr>)"
  have eq: "set_health now cam st pid seg n err s = RecorderHealth_upsert now cam f s" by (simp add: set_health_def f_def)
  have cam: "rh_camera (f h) = rh_camera h" for h by (simp add: f_def Let_def split: option.splits)
  have st: "rh_state (f h) = st" for h by (simp add: f_def Let_def split: option.splits)
  show ?thesis
  proof (cases "RecorderHealth_get s cam")
    case None
    then have "\<forall>h \<in> set (rs_health s). rh_camera h \<noteq> cam" by (simp add: RecorderHealth_get_def filter_empty_conv)
    with None assms show ?thesis
      by (auto simp: eq RecorderHealth_upsert_def health_ok_def cam st blank_health_def)
  next
    case (Some h)
    let ?hs = "map (\<lambda>h. if rh_camera h = cam then (f h)\<lparr>rh_updated_at := now\<rparr> else h) (rs_health s)"
    have hs: "rs_health (set_health now cam st pid seg n err s) = ?hs" using Some by (simp add: eq RecorderHealth_upsert_def)
    have ids: "map rh_camera ?hs = map rh_camera (rs_health s)" by (simp add: cam)
    show ?thesis using assms st unfolding health_ok_def hs ids by auto
  qed
qed

definition main_step :: "db_id \<Rightarrow> 'r rec_state \<Rightarrow> 'r rec_state \<Rightarrow> bool" where
  "main_step cam s s' \<longleftrightarrow>
     evolves cam (rs_procs s) (rs_procs s') \<and> rs_sub_procs s' = rs_sub_procs s \<and> rs_warm_procs s' = rs_warm_procs s
     \<and> (\<forall>c. c \<noteq> cam \<longrightarrow> RecorderHealth_get s' c = RecorderHealth_get s c)
     \<and> (pool_get (rs_procs s) cam \<noteq> None \<longrightarrow> pool_get (rs_procs s') cam \<noteq> None)
     \<and> (health_ok (rs_health s) \<longrightarrow> health_ok (rs_health s'))"

lemma main_step_view: "view s' = view s \<Longrightarrow> main_step cam s s'"
  using view_sels [of s' s] by (simp add: main_step_def)

lemma main_step_trans:
  assumes "main_step cam s s1" and "main_step cam s1 s2"
  shows "main_step cam s s2"
proof -
  have "evolves cam (rs_procs s) (rs_procs s2)"
    by (rule evolves_trans [of cam _ "rs_procs s1"]) (use assms in \<open>simp_all add: main_step_def\<close>)
  with assms show ?thesis by (simp add: main_step_def)
qed

lemma main_step_set:
  assumes "rs_procs s' = pool_set (rs_procs s) cam p" "rs_sub_procs s' = rs_sub_procs s" "rs_warm_procs s' = rs_warm_procs s"
    "rs_health s' = rs_health s" and "pool_ok (rs_procs s) \<Longrightarrow> proc_ok p"
  shows "main_step cam s s'"
  using assms evolves_set [of "rs_procs s" p cam] by (simp add: main_step_def RecorderHealth_get_def)

lemma main_step_health: "st \<in> set RECORDER_STATES \<Longrightarrow> main_step cam s (set_health now cam st pid seg n err s)"
  by (simp add: main_step_def set_health_get(1) set_health_ok)

definition settled :: "db_id \<Rightarrow> 'r rec_state \<Rightarrow> bool" where
  "settled cam s \<longleftrightarrow> pool_get (rs_procs s) cam \<noteq> None
     \<or> (\<exists>h. RecorderHealth_get s cam = Some h \<and> rh_state h = STATE_ERROR \<and> rh_last_error h \<noteq> None)"

lemma settled_error: "settled cam (set_health now cam STATE_ERROR pid seg n (Some e) s)"
  using set_health_get(2) [of now cam STATE_ERROR pid seg n "Some e" s] by (auto simp: settled_def)

lemma start_step:
  assumes "start E now cam s = (r, s')"
  shows "main_step cam s s' \<and> (r = Inr () \<longrightarrow> settled cam s')"
proof -
  obtain t s1 where t: "ask (re_mono E) s = (t, s1)" by (rule prod.exhaust)
  note v1 = view_ask [OF t]
  let ?prior = "pool_get (rs_procs s1) cam"
  show ?thesis
  proof (cases "gated t ?prior")
    case True
    then have "s' = s1" "?prior \<noteq> None" using assms by (auto simp: start_def t gated_def split: option.splits)
    then show ?thesis using main_step_view [OF v1] by (simp add: settled_def)
  next
    case False
    show ?thesis
    proof (cases "record_stream (camera_streams s1 cam)")
      case None
      then have "s' = set_health now cam STATE_ERROR None None None (Some ''no_stream'') s1"
        using assms False by (simp add: start_def t)
      then show ?thesis by (simp add: main_step_trans [OF main_step_view [OF v1] main_step_health] settled_error)
    next
      case (Some stream)
      obtain d s2 where d: "pick_disk E cam s1 = (d, s2)" by (rule prod.exhaust)
      have v2: "view s2 = view s" using view_pick_disk [OF d] v1 by simp
      show ?thesis
      proof (cases d)
        case None
        then have "s' = set_health now cam STATE_ERROR None None None (Some ''no_writable_disk'') s2"
          using assms False Some d by (simp add: start_def t Let_def)
        then show ?thesis by (simp add: main_step_trans [OF main_step_view [OF v2] main_step_health] settled_error)
      next
        case (Some disk)
        note stream = \<open>record_stream (camera_streams s1 cam) = Some stream\<close>
        let ?pol = "StoragePolicy_get_for_camera s1 cam" and ?dir = "path_join (disk_mount_path disk) (str_of_int cam)"
        let ?c = "policy_container ?pol" and ?n = "policy_seconds ?pol"
        obtain b s3 where b: "ask (\<lambda>n. re_mkdir E n ?dir) s2 = (b, s3)" by (rule prod.exhaust)
        have v3: "view s3 = view s" using view_ask [OF b] v2 by simp
        obtain q s4 where q: "spawn E (segment_cmd (re_ff E) stream ?dir ?c ?n) s3 = (q, s4)" by (rule prod.exhaust)
        have v4: "view s4 = view s" using view_spawn [OF q] v3 by simp
        consider (mkdir) "\<not> b" "s' = s3" "r = Inl (OSError ?dir)"
          | (failed) e where "q = Inl e" "s' = set_health now cam STATE_ERROR None None None (Some (''spawn_failed: '' @ error_message e)) s4"
          | (ok) pid where "q = Inr pid"
              "s' = set_health now cam STATE_STARTING (Some pid) None (Some (pr_restart_count (new_proc pid (disk_id disk) ?c ?n t ?prior (Some disk)))) None
                      (s4\<lparr>rs_procs := pool_set (rs_procs s4) cam (new_proc pid (disk_id disk) ?c ?n t ?prior (Some disk))\<rparr>)"
          using assms False stream Some d b q by (cases b; cases q) (simp_all add: start_def t Let_def)
        then show ?thesis
        proof cases
          case mkdir
          then show ?thesis using main_step_view [OF v3] by simp
        next
          case failed
          then show ?thesis by (simp add: main_step_trans [OF main_step_view [OF v4] main_step_health] settled_error)
        next
          case ok
          let ?p = "new_proc pid (disk_id disk) ?c ?n t ?prior (Some disk)"
          let ?s5 = "s4\<lparr>rs_procs := pool_set (rs_procs s4) cam ?p\<rparr>"
          have "?prior = pool_get (rs_procs s) cam" using view_sels(1) [OF v1] by simp
          then have "pool_ok (rs_procs s4) \<Longrightarrow> proc_ok ?p"
            using view_sels(1) [OF v4] by (intro new_proc_ok) (auto intro: pool_get_ok)
          then have "main_step cam s4 ?s5" by (intro main_step_set) simp_all
          then have "main_step cam s s'"
            unfolding ok(2) by (rule main_step_trans [OF main_step_trans [OF main_step_view [OF v4]] main_step_health]) simp
          then show ?thesis by (simp add: settled_def ok(2))
        qed
      qed
    qed
  qed
qed

lemma on_dead_step:
  assumes "on_dead E now cam p reason s = (r, s')" and p: "pool_get (rs_procs s) cam = Some p"
  shows "main_step cam s s' \<and> (r = Inr () \<longrightarrow> settled cam s')"
proof -
  obtain p1 s1 where q: "(if pr_dead_handled p then (p, s)
         else case ask (re_mono E) s of (t, s) \<Rightarrow>
           let q = bury t p;
               state = (if pr_restart_count q > 10 then STATE_ERROR else STATE_RECONNECTING);
               s' = set_health now cam state None None (Some (pr_restart_count q)) (Some reason)
                      (s\<lparr>rs_procs := pool_set (rs_procs s) cam q\<rparr>)
           in (q, snd (index_logged E now cam q [] ''main'' True s'))) = (p1, s1)"
    by (rule prod.exhaust)
  have s1: "main_step cam s s1"
  proof (cases "pr_dead_handled p")
    case True
    then show ?thesis using q by (simp add: main_step_view)
  next
    case False
    obtain t s2 where t: "ask (re_mono E) s = (t, s2)" by (rule prod.exhaust)
    let ?q = "bury t p"
    let ?s3 = "s2\<lparr>rs_procs := pool_set (rs_procs s2) cam ?q\<rparr>"
    let ?s4 = "set_health now cam (if pr_restart_count ?q > 10 then STATE_ERROR else STATE_RECONNECTING) None None (Some (pr_restart_count ?q)) (Some reason) ?s3"
    have "(p1, s1) = (?q, snd (index_logged E now cam ?q [] ''main'' True ?s4))"
      using q [symmetric] False by (simp only: t Let_def prod.case if_False)
    then have v: "view s1 = view ?s4" by (simp only: prod.inject view_index_snd)
    have "main_step cam s2 ?s3"
      using view_sels(1) [OF view_ask [OF t]] p by (intro main_step_set) (auto intro: bury_ok pool_get_ok)
    from main_step_trans [OF main_step_view [OF view_ask [OF t]] this]
    show ?thesis by (rule main_step_trans [OF main_step_trans [OF _ main_step_health] main_step_view [OF v]]) simp
  qed
  then have has: "pool_get (rs_procs s1) cam \<noteq> None" using p by (simp add: main_step_def)
  obtain t2 s2 where t2: "ask (re_mono E) s1 = (t2, s2)" by (rule prod.exhaust)
  have s2: "main_step cam s s2" by (rule main_step_trans [OF s1 main_step_view [OF view_ask [OF t2]]])
  show ?thesis
  proof (cases "t2 \<ge> pr_next_retry p1")
    case True
    then have "start E now cam s2 = (r, s')" using assms(1) unfolding on_dead_def q by (simp add: t2)
    from start_step [OF this] show ?thesis using main_step_trans [OF s2] by blast
  next
    case False
    then have "s' = s2" using assms(1) unfolding on_dead_def q by (simp add: t2)
    then show ?thesis using s2 has view_sels(1) [OF view_ask [OF t2]] by (simp add: settled_def)
  qed
qed

lemma kill_view [simp]: "view (kill pid s) = view s" "view (graceful_stop pid s) = view s"
  by (simp_all add: kill_def graceful_stop_def view_def)

lemma maintain_step:
  assumes "maintain E now cam p s = (r, s')" and p: "pool_get (rs_procs s) cam = Some p"
  shows "main_step cam s s' \<and> (r = Inr () \<longrightarrow> settled cam s')"
proof -
  obtain n sa where i: "index_logged E now cam p [] ''main'' False s = (n, sa)" by (rule prod.exhaust)
  obtain t sb where t: "ask (re_mono E) sa = (t, sb)" by (rule prod.exhaust)
  let ?q = "p\<lparr>pr_last_segment_at := t, pr_last_db_segment_at := Some now, pr_backoff := BACKOFF_START\<rparr>"
  define p1 where "p1 = (if n = 0 then p else ?q)"
  define s1 where "s1 = (if n = 0 then sa else sb\<lparr>rs_procs := pool_set (rs_procs sb) cam ?q\<rparr>)"
  have pair: "(case index_logged E now cam p [] ''main'' False s of (n, s) \<Rightarrow>
           if n = 0 then (p, s)
           else case ask (re_mono E) s of (t, s') \<Rightarrow>
             let q = p\<lparr>pr_last_segment_at := t, pr_last_db_segment_at := Some now, pr_backoff := BACKOFF_START\<rparr>
             in (q, s'\<lparr>rs_procs := pool_set (rs_procs s') cam q\<rparr>)) = (p1, s1)"
    by (simp add: i t p1_def s1_def Let_def)
  have va: "view sa = view s" by (rule view_index [OF i])
  then have vb: "view sb = view s" using view_ask [OF t] by simp
  have ok: "proc_ok p1" if "pool_ok (rs_procs s)"
    using pool_get_ok [OF that p] by (auto simp: p1_def proc_ok_def BACKOFF_START_def BACKOFF_MAX_def)
  have s1: "main_step cam s s1 \<and> pool_get (rs_procs s1) cam = Some p1"
  proof (cases "n = 0")
    case True
    then show ?thesis using main_step_view [OF va] view_sels(1) [OF va] p by (simp add: s1_def p1_def)
  next
    case False
    have "main_step cam sb (sb\<lparr>rs_procs := pool_set (rs_procs sb) cam ?q\<rparr>)"
      using ok False view_sels(1) [OF vb] by (intro main_step_set) (simp_all add: p1_def)
    with main_step_trans [OF main_step_view [OF vb]] False show ?thesis by (simp add: s1_def p1_def)
  qed
  obtain t2 s2 where t2: "ask (re_mono E) s1 = (t2, s2)" by (rule prod.exhaust)
  note v2 = view_ask [OF t2]
  have eq: "maintain E now cam p s =
      (if stalled t2 p1 then on_dead E now cam p1 ''stalled'' (kill (pr_pid p1) s2)
       else (Inr (), set_health now cam STATE_RECORDING (Some (pr_pid p1)) (pr_last_db_segment_at p1) (Some (pr_restart_count p1)) None
                       (s2\<lparr>rs_procs := pool_set (rs_procs s2) cam (p1\<lparr>pr_state := STATE_RECORDING\<rparr>)\<rparr>)))"
    unfolding maintain_def pair by (simp add: t2)
  show ?thesis
  proof (cases "stalled t2 p1")
    case True
    let ?s3 = "kill (pr_pid p1) s2"
    have v3: "view ?s3 = view s1" using v2 by simp
    have "pool_get (rs_procs ?s3) cam = Some p1" using s1 view_sels(1) [OF v3] by simp
    moreover have "on_dead E now cam p1 ''stalled'' ?s3 = (r, s')" using assms(1) True by (simp add: eq)
    ultimately show ?thesis
      using on_dead_step main_step_trans [OF main_step_trans [OF conjunct1 [OF s1] main_step_view [OF v3]]] by blast
  next
    case False
    let ?s3 = "s2\<lparr>rs_procs := pool_set (rs_procs s2) cam (p1\<lparr>pr_state := STATE_RECORDING\<rparr>)\<rparr>"
    have s': "s' = set_health now cam STATE_RECORDING (Some (pr_pid p1)) (pr_last_db_segment_at p1) (Some (pr_restart_count p1)) None ?s3"
      using assms(1) False by (simp add: eq)
    have "main_step cam s1 ?s3"
      using view_sels [OF v2] s1 pool_get_ok by (intro main_step_set) (auto simp: proc_ok_def)
    then have "main_step cam s s'"
      unfolding s' by (rule main_step_trans [OF main_step_trans [OF conjunct1 [OF s1]] main_step_health]) simp
    then show ?thesis by (simp add: s' settled_def)
  qed
qed

lemma supervise_step:
  assumes "supervise E now cam s = (r, s')"
  shows "main_step cam s s' \<and> (r = Inr () \<longrightarrow> settled cam s')"
proof (cases "pool_get (rs_procs s) cam")
  case None
  then show ?thesis using assms start_step by (simp add: supervise_def)
next
  case (Some p)
  obtain b s1 where b: "ask (\<lambda>n. re_exited E n (pr_pid p)) s = (b, s1)" by (rule prod.exhaust)
  note v = view_ask [OF b]
  have p1: "pool_get (rs_procs s1) cam = Some p" using Some view_sels(1) [OF v] by simp
  have "(if b then on_dead E now cam p ''process_exited'' s1 else maintain E now cam p s1) = (r, s')"
    using assms Some b by (cases b) (simp_all add: supervise_def)
  then have "main_step cam s1 s' \<and> (r = Inr () \<longrightarrow> settled cam s')"
    using on_dead_step [OF _ p1] maintain_step [OF _ p1] by (cases b) simp_all
  then show ?thesis using main_step_trans [OF main_step_view [OF v]] by blast
qed

lemma stop_effect:
  "rs_procs (stop E now cam s) = pool_pop (rs_procs s) cam" "rs_sub_procs (stop E now cam s) = rs_sub_procs s"
  "rs_warm_procs (stop E now cam s) = rs_warm_procs s"
proof -
  have pop: "pool_pop P cam = P" if "pool_get P cam = None" for P
    using that unfolding pool_get_def pool_pop_def by (induction P) (auto split: if_splits)
  have "rs_procs (stop E now cam s) = pool_pop (rs_procs s) cam \<and> rs_sub_procs (stop E now cam s) = rs_sub_procs s
    \<and> rs_warm_procs (stop E now cam s) = rs_warm_procs s"
  proof (cases "pool_get (rs_procs s) cam")
    case None
    then show ?thesis by (simp add: stop_def pop)
  next
    case (Some p)
    let ?s1 = "graceful_stop (pr_pid p) (s\<lparr>rs_procs := pool_pop (rs_procs s) cam\<rparr>)"
    note sels = view_sels [OF view_index_snd [of E now cam p "[]" "''main''" True ?s1]]
    show ?thesis using Some by (simp add: stop_def sels) (simp add: graceful_stop_def)
  qed
  then show "rs_procs (stop E now cam s) = pool_pop (rs_procs s) cam" "rs_sub_procs (stop E now cam s) = rs_sub_procs s"
    "rs_warm_procs (stop E now cam s) = rs_warm_procs s" by blast+
qed

interpretation recorder_main: converging_loop rs_procs "stop E now" "supervise E now"
    "\<lambda>s. (rs_sub_procs s, rs_warm_procs s)" settled for E :: "'r rec_env" and now
proof unfold_locales
  fix c :: db_id and s s' :: "'r rec_state" and c' :: db_id
  show "rs_procs (stop E now c s) = pool_pop (rs_procs s) c" by (rule stop_effect)
  show "(rs_sub_procs (stop E now c s), rs_warm_procs (stop E now c s)) = (rs_sub_procs s, rs_warm_procs s)"
    by (simp add: stop_effect)
  have step: "main_step c s (snd (supervise E now c s))" using supervise_step [OF prod.collapse [symmetric]] by blast
  then show "evolves c (rs_procs s) (rs_procs (snd (supervise E now c s)))" by (simp add: main_step_def)
  show "(rs_sub_procs (snd (supervise E now c s)), rs_warm_procs (snd (supervise E now c s))) = (rs_sub_procs s, rs_warm_procs s)"
    using step by (simp add: main_step_def)
  show "settled c s'" if "supervise E now c s = (Inr (), s')" using supervise_step [OF that] by simp
  show "settled c' (snd (supervise E now c s))" if "settled c' s" "c' \<noteq> c"
    using step that by (auto simp: main_step_def settled_def evolves_def)
qed

section \<open>The isolated loops\<close>

text \<open>A step of an isolated loop changes one entry of its own pool, and neither the other pools nor a health row.\<close>

definition side_step :: "('r rec_state \<Rightarrow> pool) \<Rightarrow> ('r rec_state \<Rightarrow> 'o) \<Rightarrow> db_id \<Rightarrow> 'r rec_state \<Rightarrow> 'r rec_state \<Rightarrow> bool" where
  "side_step procs rest cam s s' \<longleftrightarrow> evolves cam (procs s) (procs s') \<and> rest s' = rest s"

definition not_sub :: "'r rec_state \<Rightarrow> pool \<times> pool \<times> recorder_health list" where
  "not_sub s = (rs_procs s, rs_warm_procs s, rs_health s)"

definition not_warm :: "'r rec_state \<Rightarrow> pool \<times> pool \<times> recorder_health list" where
  "not_warm s = (rs_procs s, rs_sub_procs s, rs_health s)"

lemma side_step_view:
  assumes "view s' = view s"
  shows "side_step rs_sub_procs not_sub cam s s'" "side_step rs_warm_procs not_warm cam s s'"
  using view_sels [OF assms] by (simp_all add: side_step_def not_sub_def not_warm_def)

lemma side_step_trans: "side_step procs rest cam s s1 \<Longrightarrow> side_step procs rest cam s1 s2 \<Longrightarrow> side_step procs rest cam s s2"
  unfolding side_step_def using evolves_trans by fastforce

lemma sub_step_set:
  assumes "pool_ok (rs_sub_procs s) \<Longrightarrow> proc_ok p"
  shows "side_step rs_sub_procs not_sub cam s (s\<lparr>rs_sub_procs := pool_set (rs_sub_procs s) cam p\<rparr>)"
  using evolves_set [OF assms] by (simp add: side_step_def not_sub_def)

lemma warm_step_set:
  assumes "pool_ok (rs_warm_procs s) \<Longrightarrow> proc_ok p"
  shows "side_step rs_warm_procs not_warm cam s (s\<lparr>rs_warm_procs := pool_set (rs_warm_procs s) cam p\<rparr>)"
  using evolves_set [OF assms] by (simp add: side_step_def not_warm_def)

lemma start_sub_step:
  assumes "start_sub E cam s = (r, s')"
  shows "side_step rs_sub_procs not_sub cam s s'"
proof -
  obtain t s1 where t: "ask (re_mono E) s = (t, s1)" by (rule prod.exhaust)
  note v1 = view_ask [OF t]
  let ?prior = "pool_get (rs_sub_procs s1) cam"
  let ?stream = "sub_stream (camera_streams s1 cam) (case map_of (rs_dual s1) cam of None \<Rightarrow> None | Some role \<Rightarrow> role)"
  show ?thesis
  proof (cases "gated t ?prior \<or> ?stream = None")
    case True
    then have "s' = s1" using assms by (auto simp: start_sub_def t Let_def split: if_splits)
    then show ?thesis using side_step_view(1) [OF v1] by simp
  next
    case False
    then obtain stream where stream: "?stream = Some stream" by blast
    obtain d s2 where d: "pick_disk E cam s1 = (d, s2)" by (rule prod.exhaust)
    have v2: "view s2 = view s" using view_pick_disk [OF d] v1 by simp
    show ?thesis
    proof (cases d)
      case None
      then have "s' = s2" using assms False stream d by (simp add: start_sub_def t Let_def)
      then show ?thesis using side_step_view(1) [OF v2] by simp
    next
      case (Some disk)
      let ?pol = "StoragePolicy_get_for_camera s1 cam" and ?dir = "path_join (path_join (disk_mount_path disk) (str_of_int cam)) ''sub''"
      let ?c = "policy_container ?pol" and ?n = "policy_seconds ?pol"
      obtain b s3 where b: "ask (\<lambda>n. re_mkdir E n ?dir) s2 = (b, s3)" by (rule prod.exhaust)
      obtain q s4 where q: "spawn E (segment_cmd (re_ff E) stream ?dir ?c ?n) s3 = (q, s4)" by (rule prod.exhaust)
      have v3: "view s3 = view s" and v4: "view s4 = view s" using view_ask [OF b] view_spawn [OF q] v2 by simp_all
      let ?p = "\<lambda>pid. new_proc pid (disk_id disk) ?c ?n t ?prior (Some disk)"
      show ?thesis
      proof (cases "b \<and> (\<exists>pid. q = Inr pid)")
        case True
        then obtain pid where pid: "b" "q = Inr pid" by blast
        have s': "s' = s4\<lparr>rs_sub_procs := pool_set (rs_sub_procs s4) cam (?p pid)\<rparr>"
          using assms False stream Some d b q pid by (simp add: start_sub_def t Let_def)
        have prior: "?prior = pool_get (rs_sub_procs s4) cam" using view_sels(2) [OF v1] view_sels(2) [OF v4] by simp
        have "proc_ok (?p pid)" if "pool_ok (rs_sub_procs s4)"
          unfolding prior by (rule new_proc_ok) (rule pool_get_ok [OF that])
        from sub_step_set [OF this] show ?thesis unfolding s' by (rule side_step_trans [OF side_step_view(1) [OF v4]])
      next
        case bad: False
        have "s' = (if b then s4 else s3)"
          using assms False stream Some d b q bad by (cases b; cases q) (simp_all add: start_sub_def t Let_def)
        then show ?thesis using side_step_view(1) [OF v3] side_step_view(1) [OF v4] by simp
      qed
    qed
  qed
qed

lemma on_dead_sub_step:
  assumes "on_dead_sub E now cam p s = (r, s')" and p: "pool_get (rs_sub_procs s) cam = Some p"
  shows "side_step rs_sub_procs not_sub cam s s'"
proof -
  obtain t sa where t: "ask (re_mono E) s = (t, sa)" by (rule prod.exhaust)
  let ?sb = "sa\<lparr>rs_sub_procs := pool_set (rs_sub_procs sa) cam (bury t p)\<rparr>"
  define p1 where "p1 = (if pr_dead_handled p then p else bury t p)"
  define s1 where "s1 = (if pr_dead_handled p then s else snd (index_logged E now cam (bury t p) ''sub'' ''sub'' True ?sb))"
  have "side_step rs_sub_procs not_sub cam sa ?sb"
    using view_sels(2) [OF view_ask [OF t]] p by (intro sub_step_set) (auto intro: bury_ok pool_get_ok)
  then have "side_step rs_sub_procs not_sub cam s (snd (index_logged E now cam (bury t p) ''sub'' ''sub'' True ?sb))"
    by (intro side_step_trans [OF side_step_trans [OF side_step_view(1) [OF view_ask [OF t]]] side_step_view(1)]) simp_all
  then have s1: "side_step rs_sub_procs not_sub cam s s1" by (simp add: s1_def side_step_view)
  obtain t2 s2 where t2: "ask (re_mono E) s1 = (t2, s2)" by (rule prod.exhaust)
  have "(if t2 \<ge> pr_next_retry p1 then start_sub E cam s2 else (Inr (), s2)) = (r, s')"
    using assms(1) t t2 by (simp add: on_dead_sub_def p1_def s1_def Let_def split: if_splits)
  then have "side_step rs_sub_procs not_sub cam s2 s'"
    using start_sub_step by (auto simp: side_step_view split: if_splits)
  then show ?thesis by (rule side_step_trans [OF side_step_trans [OF s1 side_step_view(1) [OF view_ask [OF t2]]]])
qed

lemma maintain_sub_step:
  assumes "maintain_sub E now cam p s = (r, s')" and p: "pool_get (rs_sub_procs s) cam = Some p"
  shows "side_step rs_sub_procs not_sub cam s s'"
proof -
  obtain n sa where i: "index_logged E now cam p ''sub'' ''sub'' False s = (n, sa)" by (rule prod.exhaust)
  obtain t sb where t: "ask (re_mono E) sa = (t, sb)" by (rule prod.exhaust)
  let ?q = "p\<lparr>pr_last_segment_at := t, pr_backoff := BACKOFF_START\<rparr>"
  define p1 where "p1 = (if n = 0 then p else ?q)"
  define s1 where "s1 = (if n = 0 then sa else sb\<lparr>rs_sub_procs := pool_set (rs_sub_procs sb) cam ?q\<rparr>)"
  have pair: "(case index_logged E now cam p ''sub'' ''sub'' False s of (n, s) \<Rightarrow>
           if n = 0 then (p, s)
           else case ask (re_mono E) s of (t, s') \<Rightarrow>
             let q = p\<lparr>pr_last_segment_at := t, pr_backoff := BACKOFF_START\<rparr>
             in (q, s'\<lparr>rs_sub_procs := pool_set (rs_sub_procs s') cam q\<rparr>)) = (p1, s1)"
    by (simp add: i t p1_def s1_def Let_def)
  have va: "view sa = view s" by (rule view_index [OF i])
  then have vb: "view sb = view s" using view_ask [OF t] by simp
  have ok: "proc_ok ?q" if "pool_ok (rs_sub_procs sb)"
    using that pool_get_ok [of "rs_sub_procs s" cam p] p view_sels(2) [OF vb] by (simp add: proc_ok_def BACKOFF_START_def BACKOFF_MAX_def)
  have s1: "side_step rs_sub_procs not_sub cam s s1 \<and> pool_get (rs_sub_procs s1) cam = Some p1"
    using side_step_view(1) [OF va] side_step_trans [OF side_step_view(1) [OF vb] sub_step_set [OF ok]] view_sels(2) [OF va] p
    by (simp add: s1_def p1_def)
  obtain t2 s2 where t2: "ask (re_mono E) s1 = (t2, s2)" by (rule prod.exhaust)
  let ?s3 = "kill (pr_pid p1) s2"
  have v3: "view ?s3 = view s1" using view_ask [OF t2] by simp
  have "(if stalled t2 p1 then on_dead_sub E now cam p1 ?s3 else (Inr (), s2)) = (r, s')"
    using assms(1) unfolding maintain_sub_def pair by (simp add: t2)
  then have "side_step rs_sub_procs not_sub cam s1 s'"
    using on_dead_sub_step [of E now cam p1 ?s3 r s'] s1 view_sels(2) [OF v3] side_step_trans [OF side_step_view(1) [OF v3]]
      side_step_view(1) [OF view_ask [OF t2]]
    by (auto split: if_splits)
  then show ?thesis by (rule side_step_trans [OF conjunct1 [OF s1]])
qed

lemma supervise_sub_step:
  assumes "supervise_sub E now cam s = (r, s')"
  shows "side_step rs_sub_procs not_sub cam s s'"
proof (cases "pool_get (rs_sub_procs s) cam")
  case None
  then show ?thesis using assms start_sub_step by (simp add: supervise_sub_def)
next
  case (Some p)
  obtain b s1 where b: "ask (\<lambda>n. re_exited E n (pr_pid p)) s = (b, s1)" by (rule prod.exhaust)
  note v = view_ask [OF b]
  have p1: "pool_get (rs_sub_procs s1) cam = Some p" using Some view_sels(2) [OF v] by simp
  have "(if b then on_dead_sub E now cam p s1 else maintain_sub E now cam p s1) = (r, s')"
    using assms Some b by (cases b) (simp_all add: supervise_sub_def)
  then have "side_step rs_sub_procs not_sub cam s1 s'"
    using on_dead_sub_step [OF _ p1] maintain_sub_step [OF _ p1] by (cases b) simp_all
  then show ?thesis by (rule side_step_trans [OF side_step_view(1) [OF v]])
qed

lemma pool_pop_absent: "pool_get P c = None \<Longrightarrow> pool_pop P c = P"
  unfolding pool_get_def pool_pop_def by (induction P) (auto split: if_splits)

lemma stop_sub_effect:
  "rs_sub_procs (stop_sub E now cam s) = pool_pop (rs_sub_procs s) cam \<and> not_sub (stop_sub E now cam s) = not_sub s"
proof (cases "pool_get (rs_sub_procs s) cam")
  case None
  then show ?thesis by (simp add: stop_sub_def pool_pop_absent)
next
  case (Some p)
  let ?s1 = "graceful_stop (pr_pid p) (s\<lparr>rs_sub_procs := pool_pop (rs_sub_procs s) cam\<rparr>)"
  note sels = view_sels [OF view_index_snd [of E now cam p "''sub''" "''sub''" True ?s1]]
  show ?thesis using Some by (simp add: stop_sub_def sels not_sub_def) (simp add: graceful_stop_def)
qed

interpretation recorder_sub: process_loop rs_sub_procs "stop_sub E now" "supervise_sub E now" not_sub
  for E :: "'r rec_env" and now
proof unfold_locales
  fix c :: db_id and s :: "'r rec_state"
  show "rs_sub_procs (stop_sub E now c s) = pool_pop (rs_sub_procs s) c" "not_sub (stop_sub E now c s) = not_sub s"
    using stop_sub_effect by blast+
  have "side_step rs_sub_procs not_sub c s (snd (supervise_sub E now c s))"
    by (rule supervise_sub_step [OF prod.collapse [symmetric]])
  then show "evolves c (rs_sub_procs s) (rs_sub_procs (snd (supervise_sub E now c s)))"
    "not_sub (snd (supervise_sub E now c s)) = not_sub s" by (simp_all add: side_step_def)
qed

lemma start_warm_step:
  assumes "start_warm E cam s = (r, s')"
  shows "side_step rs_warm_procs not_warm cam s s'"
proof -
  obtain t s1 where t: "ask (re_mono E) s = (t, s1)" by (rule prod.exhaust)
  note v1 = view_ask [OF t]
  let ?prior = "pool_get (rs_warm_procs s1) cam"
  show ?thesis
  proof (cases "gated t ?prior \<or> warm_stream s1 cam = None")
    case True
    then have "s' = s1" using assms by (auto simp: start_warm_def t Let_def split: if_splits)
    then show ?thesis using side_step_view(2) [OF v1] by simp
  next
    case False
    then obtain x where x: "warm_stream s1 cam = Some x" by blast
    obtain q s2 where q: "spawn E (build_keepwarm_cmd (re_ff E) (restream_url (re_ff E) (sm_go2rtc_name x))) s1 = (q, s2)"
      by (rule prod.exhaust)
    have v2: "view s2 = view s" using view_spawn [OF q] v1 by simp
    let ?p = "\<lambda>pid. new_proc pid 0 [] 10 t ?prior None"
    show ?thesis
    proof (cases q)
      case (Inl e)
      then have "s' = s2" using assms False x q by (simp add: start_warm_def t Let_def)
      then show ?thesis using side_step_view(2) [OF v2] by simp
    next
      case (Inr pid)
      have s': "s' = s2\<lparr>rs_warm_procs := pool_set (rs_warm_procs s2) cam (?p pid)\<rparr>"
        using assms False x q Inr by (simp add: start_warm_def t Let_def)
      have prior: "?prior = pool_get (rs_warm_procs s2) cam" using view_sels(3) [OF v1] view_sels(3) [OF v2] by simp
      have "proc_ok (?p pid)" if "pool_ok (rs_warm_procs s2)"
        unfolding prior by (rule new_proc_ok) (rule pool_get_ok [OF that])
      from warm_step_set [OF this] show ?thesis unfolding s' by (rule side_step_trans [OF side_step_view(2) [OF v2]])
    qed
  qed
qed

lemma on_dead_warm_step:
  assumes "on_dead_warm E cam p s = (r, s')" and p: "pool_get (rs_warm_procs s) cam = Some p"
  shows "side_step rs_warm_procs not_warm cam s s'"
proof -
  obtain t sa where t: "ask (re_mono E) s = (t, sa)" by (rule prod.exhaust)
  let ?sb = "sa\<lparr>rs_warm_procs := pool_set (rs_warm_procs sa) cam (bury t p)\<rparr>"
  define p1 where "p1 = (if pr_dead_handled p then p else bury t p)"
  define s1 where "s1 = (if pr_dead_handled p then s else ?sb)"
  have "side_step rs_warm_procs not_warm cam sa ?sb"
    using view_sels(3) [OF view_ask [OF t]] p by (intro warm_step_set) (auto intro: bury_ok pool_get_ok)
  then have s1: "side_step rs_warm_procs not_warm cam s s1"
    using side_step_trans [OF side_step_view(2) [OF view_ask [OF t]]] by (simp add: s1_def side_step_view)
  obtain t2 s2 where t2: "ask (re_mono E) s1 = (t2, s2)" by (rule prod.exhaust)
  have "(if t2 \<ge> pr_next_retry p1 then start_warm E cam s2 else (Inr (), s2)) = (r, s')"
    using assms(1) t t2 by (simp add: on_dead_warm_def p1_def s1_def Let_def split: if_splits)
  then have "side_step rs_warm_procs not_warm cam s2 s'"
    using start_warm_step by (auto simp: side_step_view split: if_splits)
  then show ?thesis by (rule side_step_trans [OF side_step_trans [OF s1 side_step_view(2) [OF view_ask [OF t2]]]])
qed

lemma supervise_warm_step:
  assumes "supervise_warm E cam s = (r, s')"
  shows "side_step rs_warm_procs not_warm cam s s'"
proof (cases "pool_get (rs_warm_procs s) cam")
  case None
  then show ?thesis using assms start_warm_step by (simp add: supervise_warm_def)
next
  case (Some p)
  obtain b s1 where b: "ask (\<lambda>n. re_exited E n (pr_pid p)) s = (b, s1)" by (rule prod.exhaust)
  note v = view_ask [OF b]
  have p1: "pool_get (rs_warm_procs s1) cam = Some p" using Some view_sels(3) [OF v] by simp
  have "(if b then on_dead_warm E cam p s1 else (Inr (), s1)) = (r, s')"
    using assms Some b by (cases b) (simp_all add: supervise_warm_def)
  then have "side_step rs_warm_procs not_warm cam s1 s'"
    using on_dead_warm_step [OF _ p1] by (cases b) (auto simp: side_step_view)
  then show ?thesis by (rule side_step_trans [OF side_step_view(2) [OF v]])
qed

interpretation recorder_warm: process_loop rs_warm_procs stop_warm "supervise_warm E" not_warm
  for E :: "'r rec_env"
proof unfold_locales
  fix c :: db_id and s :: "'r rec_state"
  show "rs_warm_procs (stop_warm c s) = pool_pop (rs_warm_procs s) c"
    by (simp add: stop_warm_def pool_pop_absent graceful_stop_def split: option.splits)
  show "not_warm (stop_warm c s) = not_warm s"
    by (simp add: stop_warm_def not_warm_def graceful_stop_def split: option.splits)
  have "side_step rs_warm_procs not_warm c s (snd (supervise_warm E c s))"
    by (rule supervise_warm_step [OF prod.collapse [symmetric]])
  then show "evolves c (rs_warm_procs s) (rs_warm_procs (snd (supervise_warm E c s)))"
    "not_warm (snd (supervise_warm E c s)) = not_warm s" by (simp_all add: side_step_def)
qed

lemma view_offload: "view (snd (live_offload_target E cam s)) = view s"
proof -
  have "view (snd (assignment_for E cam s)) = view s"
    by (simp add: assignment_for_def ask_def view_def Let_def split: prod.splits option.splits)
  then show ?thesis by (cases "assignment_for E cam s") (simp add: live_offload_target_def split: option.splits)
qed

lemma view_wants_warm: "view (snd (wants_warm E now window cam s)) = view s"
proof (cases "warm_stream s cam")
  case None
  then show ?thesis by (simp add: wants_warm_def)
next
  case (Some x)
  let ?s1 = "refresh_viewer_activity E now cam x window s"
  have v1: "view ?s1 = view s"
    by (simp add: refresh_viewer_activity_def ask_def view_def Let_def split: option.splits)
  show ?thesis
  proof (cases "is_active (re_tok E) (sm_go2rtc_name x) window (es_redis ?s1)")
    case True
    then show ?thesis using view_offload [of E cam ?s1] v1
      by (cases "live_offload_target E cam ?s1") (simp add: wants_warm_def Some Let_def)
  next
    case False
    then show ?thesis using v1 by (simp add: wants_warm_def Some Let_def)
  qed
qed

lemma view_warm_cameras: "view (snd (warm_cameras E now window cs s)) = view s"
proof (induction cs arbitrary: s)
  case Nil
  then show ?case by simp
next
  case (Cons c cs)
  obtain b s1 where w: "wants_warm E now window c s = (b, s1)" by (rule prod.exhaust)
  obtain ws s2 where r: "warm_cameras E now window cs s1 = (ws, s2)" by (rule prod.exhaust)
  show ?case using view_wants_warm [of E now window c s] Cons [of s1] by (simp add: w r)
qed

end
