(* ===== verification/RecorderProps.thy ===== *)
theory RecorderProps
  imports RecorderSteps TokenProps
begin

text \<open>
  Properties of the recorder supervisor over whole ticks and over every reachable state, and what links it
  to retention and to the event pipeline.
\<close>

section \<open>A whole tick\<close>

lemma tick_subs_rest: "not_sub (snd (tick_subs E now ds s)) = not_sub s"
  unfolding tick_subs_def Let_def by (rule recorder_sub.loop_rest)

lemma tick_warm_rest: "not_warm (snd (tick_warm E now s)) = not_warm s"
proof -
  obtain warm s1 where w: "warm_cameras E now (idle_window (rs_settings s)) (map cam_id (Camera_get_all_enabled s)) s = (warm, s1)"
    by (rule prod.exhaust)
  have "view s1 = view s"
    using view_warm_cameras [of E now "idle_window (rs_settings s)" "map cam_id (Camera_get_all_enabled s)" s] by (simp add: w)
  then have "not_warm s1 = not_warm s" by (simp add: view_def not_warm_def)
  then show ?thesis by (simp add: tick_warm_def w recorder_warm.loop_rest)
qed

text \<open>The main half of a tick.\<close>

definition main_half :: "'r rec_env \<Rightarrow> ts \<Rightarrow> ('r rec_state, unit) act" where
  "main_half E now s =
     (let ids = map cam_id (desired_cameras (re_ev E) now s)
      in each (supervise E now) ids (drop_others rs_procs (stop E now) ids s))"

lemma tick_main:
  "fst (tick E now s) = fst (main_half E now s)" "rs_procs (snd (tick E now s)) = rs_procs (snd (main_half E now s))"
  "rs_health (snd (tick E now s)) = rs_health (snd (main_half E now s))"
proof -
  obtain r s1 where m: "main_half E now s = (r, s1)" by (rule prod.exhaust)
  let ?s2 = "snd (tick_subs E now (desired_cameras (re_ev E) now s) s1)"
  have rest: "rs_procs (snd (tick_warm E now ?s2)) = rs_procs s1" "rs_health (snd (tick_warm E now ?s2)) = rs_health s1"
    using tick_subs_rest [of E now "desired_cameras (re_ev E) now s" s1] tick_warm_rest [of E now ?s2]
    by (simp_all add: not_sub_def not_warm_def)
  have eq: "tick E now s = (case r of Inl e \<Rightarrow> (Inl e, s1) | Inr _ \<Rightarrow> (Inr (), snd (tick_warm E now ?s2)))"
    using m by (cases r) (simp_all add: tick_def main_half_def Let_def)
  show "fst (tick E now s) = fst (main_half E now s)" unfolding eq m by (cases r) simp_all
  show "rs_procs (snd (tick E now s)) = rs_procs (snd (main_half E now s))"
    "rs_health (snd (tick E now s)) = rs_health (snd (main_half E now s))"
    unfolding eq m using rest by (cases r; simp)+
qed

lemma main_half_rest:
  "rs_sub_procs (snd (main_half E now s)) = rs_sub_procs s" "rs_warm_procs (snd (main_half E now s)) = rs_warm_procs s"
  using recorder_main.loop_rest [of E now "map cam_id (desired_cameras (re_ev E) now s)" s] by (simp_all add: main_half_def Let_def)


text \<open>C3: the loops for the secondary stream and for keep-warm cannot disturb recording: whatever they do or raise, the
  recorder processes, their restart and back-off state and every health row after a tick are those the
  main loop left, and the outcome of the tick is that of the main loop.\<close>

theorem side_loops_isolated:
  "rs_procs (snd (tick E now s)) = rs_procs (snd (main_half E now s))
   \<and> rs_health (snd (tick E now s)) = rs_health (snd (main_half E now s))
   \<and> fst (tick E now s) = fst (main_half E now s)
   \<and> rs_procs (snd (tick_subs E now ds s)) = rs_procs s \<and> rs_health (snd (tick_subs E now ds s)) = rs_health s
   \<and> rs_procs (snd (tick_warm E now s)) = rs_procs s \<and> rs_health (snd (tick_warm E now s)) = rs_health s"
  using tick_main [of E now s] tick_subs_rest [of E now ds s] tick_warm_rest [of E now s]
  by (simp add: not_sub_def not_warm_def)

section \<open>Reachable states\<close>

text \<open>The supervisor starts with empty pools, ticks, and shuts down; between ticks the rest of the system may change
  everything that is not the supervisor's own.\<close>

inductive sup_reach :: "'r rec_env \<Rightarrow> 'r rec_state \<Rightarrow> bool" for E where
  init: "rs_procs s = [] \<Longrightarrow> rs_sub_procs s = [] \<Longrightarrow> rs_warm_procs s = [] \<Longrightarrow> rs_health s = [] \<Longrightarrow> sup_reach E s"
| tick: "sup_reach E s \<Longrightarrow> sup_reach E (snd (tick E now s))"
| others: "sup_reach E s \<Longrightarrow> view s' = view s \<Longrightarrow> sup_reach E s'"
| shutdown: "sup_reach E s \<Longrightarrow> sup_reach E (shutdown E now s)"

definition sup_ok :: "'r rec_state \<Rightarrow> bool" where
  "sup_ok s \<longleftrightarrow> pool_ok (rs_procs s) \<and> pool_ok (rs_sub_procs s) \<and> pool_ok (rs_warm_procs s) \<and> health_ok (rs_health s)"

lemma stop_health:
  assumes "health_ok (rs_health s)"
  shows "health_ok (rs_health (stop E now cam s))"
proof (cases "pool_get (rs_procs s) cam")
  case None
  then show ?thesis using assms by (simp add: stop_def set_health_ok)
next
  case (Some p)
  let ?s1 = "graceful_stop (pr_pid p) (s\<lparr>rs_procs := pool_pop (rs_procs s) cam\<rparr>)"
  have "rs_health (snd (index_logged E now cam p [] ''main'' True ?s1)) = rs_health s"
    using view_sels(4) [OF view_index_snd [of E now cam p "[]" "''main''" True ?s1]] by (simp add: graceful_stop_def)
  then show ?thesis using Some assms by (simp add: stop_def set_health_ok)
qed

lemma stops_health: "health_ok (rs_health s) \<Longrightarrow> health_ok (rs_health (fold (\<lambda>c s. if c \<in> set ids then s else stop E now c s) cs s))"
  by (induction cs arbitrary: s) (auto simp: stop_health)

lemma each_supervise_health: "health_ok (rs_health s) \<Longrightarrow> health_ok (rs_health (snd (each (supervise E now) cs s)))"
proof (induction cs arbitrary: s)
  case Nil
  then show ?case by simp
next
  case (Cons c cs)
  obtain r s1 where a: "supervise E now c s = (r, s1)" by (rule prod.exhaust)
  have "health_ok (rs_health s1)" using supervise_step [OF a] Cons.prems by (simp add: main_step_def)
  then show ?case using Cons.IH [of s1] by (cases r) (simp_all add: a)
qed

lemma main_half_ok:
  shows "pool_ok (rs_procs s) \<Longrightarrow> pool_ok (rs_procs (snd (main_half E now s)))"
    and "health_ok (rs_health s) \<Longrightarrow> health_ok (rs_health (snd (main_half E now s)))"
proof -
  show "pool_ok (rs_procs s) \<Longrightarrow> pool_ok (rs_procs (snd (main_half E now s)))"
    unfolding main_half_def Let_def by (rule recorder_main.loop_ok)
  show "health_ok (rs_health s) \<Longrightarrow> health_ok (rs_health (snd (main_half E now s)))"
    unfolding main_half_def Let_def drop_others_def by (intro each_supervise_health stops_health)
qed

lemma tick_side_ok:
  assumes "sup_ok s"
  shows "pool_ok (rs_sub_procs (snd (tick E now s))) \<and> pool_ok (rs_warm_procs (snd (tick E now s)))"
proof -
  obtain r s1 where m: "main_half E now s = (r, s1)" by (rule prod.exhaust)
  have ok1: "pool_ok (rs_sub_procs s1)" "pool_ok (rs_warm_procs s1)"
    using assms main_half_rest [of E now s] by (simp_all add: m sup_ok_def)
  let ?ds = "desired_cameras (re_ev E) now s"
  let ?s2 = "snd (tick_subs E now ?ds s1)"
  have s2: "pool_ok (rs_sub_procs ?s2)" "pool_ok (rs_warm_procs ?s2)"
    using ok1 recorder_sub.loop_ok tick_subs_rest [of E now ?ds s1] by (simp_all add: tick_subs_def Let_def not_sub_def)
  obtain warm s3 where w: "warm_cameras E now (idle_window (rs_settings ?s2)) (map cam_id (Camera_get_all_enabled ?s2)) ?s2 = (warm, s3)"
    by (rule prod.exhaust)
  have v3: "view s3 = view ?s2"
    using view_warm_cameras [of E now "idle_window (rs_settings ?s2)" "map cam_id (Camera_get_all_enabled ?s2)" ?s2] by (simp add: w)
  have "pool_ok (rs_warm_procs (snd (tick_warm E now ?s2)))"
    using s2(2) view_sels(3) [OF v3] by (simp add: tick_warm_def w recorder_warm.loop_ok)
  moreover have "rs_sub_procs (snd (tick_warm E now ?s2)) = rs_sub_procs ?s2"
    using tick_warm_rest [of E now ?s2] by (simp add: not_warm_def)
  ultimately have "pool_ok (rs_sub_procs (snd (tick_warm E now ?s2))) \<and> pool_ok (rs_warm_procs (snd (tick_warm E now ?s2)))"
    using s2(1) by simp
  moreover have "snd (tick E now s) = (case r of Inl _ \<Rightarrow> s1 | Inr _ \<Rightarrow> snd (tick_warm E now ?s2))"
    using m by (cases r) (simp_all add: tick_def main_half_def Let_def)
  ultimately show ?thesis using ok1 by (cases r) simp_all
qed

lemma tick_sup_ok: "sup_ok s \<Longrightarrow> sup_ok (snd (tick E now s))"
  using tick_side_ok [of s E now] main_half_ok [of s E now] tick_main(2,3) [of E now s] by (simp add: sup_ok_def)

lemma shutdown_sup_ok:
  assumes "sup_ok s"
  shows "sup_ok (shutdown E now s)"
proof -
  have warm: "sup_ok (fold stop_warm cs s)" if "sup_ok s" for cs and s :: "'a rec_state"
    using that
  proof (induction cs arbitrary: s)
    case (Cons c cs)
    have "sup_ok (stop_warm c s)"
      using Cons.prems recorder_warm.halt_procs [of c s] recorder_warm.halt_rest [of c s]
      by (simp add: sup_ok_def not_warm_def pool_pop_ok)
    then show ?case using Cons.IH by simp
  qed simp
  have sub: "sup_ok (fold (stop_sub E now) cs s)" if "sup_ok s" for cs s
    using that
  proof (induction cs arbitrary: s)
    case (Cons c cs)
    have "sup_ok (stop_sub E now c s)"
      using Cons.prems stop_sub_effect [of E now c s] by (simp add: sup_ok_def not_sub_def pool_pop_ok)
    then show ?case using Cons.IH by simp
  qed simp
  have main: "sup_ok (fold (stop E now) cs s)" if "sup_ok s" for cs s
    using that
  proof (induction cs arbitrary: s)
    case (Cons c cs)
    have "sup_ok (stop E now c s)"
      using Cons.prems stop_effect [of E now c s] stop_health [of s E now c] by (simp add: sup_ok_def pool_pop_ok)
    then show ?case using Cons.IH by simp
  qed simp
  show ?thesis using assms by (simp add: shutdown_def Let_def warm sub main)
qed

text \<open>C2: the supervisor's state is always well formed: in every reachable state each of the three pools has at most
  one process per camera, every back-off lies between 1 and 15 seconds, restart counts are
  non-negative (positive once a death was recorded), and there is at most one health row per camera,
  in one of the five states.\<close>

theorem supervisor_well_formed:
  assumes "sup_reach E s"
  shows "sup_ok s"
  using assms
proof induction
  case (init s)
  then show ?case by (simp add: sup_ok_def pool_ok_def health_ok_def)
next
  case (tick s now)
  then show ?case by (simp add: tick_sup_ok)
next
  case (others s s')
  then show ?case using view_sels [OF others(2)] by (simp add: sup_ok_def)
next
  case (shutdown s now)
  then show ?case by (simp add: shutdown_sup_ok)
qed

section \<open>Recording and the rest of the system\<close>

text \<open>The \<open>stop_recording\<close> over-capacity strategy does not stop a recorder: it sets the camera's record mode to
  \<open>off\<close>, and the supervisor, which never reads the record mode, wants the same cameras as before.\<close>

theorem stop_recording_keeps_recording:
  "desired_cameras E now (stop_recording s cam pol) = desired_cameras E now s"
proof -
  have "schedule_mode E (stop_recording s cam pol) c now = schedule_mode E s c now" for c
    by (simp add: schedule_mode_def get_for_camera_dow_def stop_recording_def update_policy_def split: option.splits)
  moreover have "forced_ids now (stop_recording s cam pol) = forced_ids now s"
    by (simp add: forced_ids_def stop_recording_def update_policy_def split: option.splits)
  moreover have "n_cameras (stop_recording s cam pol) = n_cameras s"
    by (simp add: stop_recording_def update_policy_def split: option.splits)
  ultimately show ?thesis by (simp add: desired_cameras_def Camera_get_all_enabled_def Let_def cong: option.case_cong if_cong)
qed

text \<open>An open or unfinished recording forces its camera on, whatever the schedule says.\<close>

lemma forced_desired:
  assumes "cam \<in> set (forced_ids now s)" and "first_row (filter (\<lambda>c. cam_id c = cam \<and> cam_deleted c = None) (n_cameras s)) = Some c"
    and "cam_enabled c"
  shows "c \<in> set (desired_cameras E now s)"
  using assms unfolding desired_cameras_def Let_def List.map_filter_def by (force simp: image_iff)

text \<open>An event the pipeline decides to record is recorded: from then until the end of its window (the event's end,
  or the time of the decision, plus the post-buffer) the supervisor wants the camera, whatever the
  weekly schedule says by then, as long as the camera is enabled.\<close>

theorem recorded_event_keeps_recorder_on:
  assumes "event_clips_protected s" and "Event_get_by_id s (ev_id e) = Some e"
    and "resolve s cam (ne_type n) (ne_subtype n) = Some p" and "ep_enabled p"
    and "case ep_min_score p of None \<Rightarrow> True | Some m \<Rightarrow> m \<le> (case ne_score n of None \<Rightarrow> 0 | Some x \<Rightarrow> x)"
    and "\<not> within_cooldown E dedup (es_redis s)"
    and "combine (ep_action p) (schedule_mode E s cam (ev_start e)) (ne_type n) = ''record''"
    and "t < clip_stop now e (ep_post_buffer_s p)"
    and "first_row (filter (\<lambda>c. cam_id c = ev_camera e \<and> cam_deleted c = None) (n_cameras (judge E now cam n dedup e s))) = Some c"
    and "cam_enabled c"
  shows "c \<in> set (desired_cameras E' t (judge E now cam n dedup e s))"
proof -
  obtain r stop where "r \<in> set (n_recordings (judge E now cam n dedup e s))" "rec_camera r = ev_camera e" "rec_deleted r = None"
    "rec_end r = Some stop" "clip_stop now e (ep_post_buffer_s p) \<le> stop"
    using recorded_event_window [OF assms(1-7)] unfolding window_protected_def by blast
  with assms(8) have "ev_camera e \<in> set (forced_ids t (judge E now cam n dedup e s))"
    by (force simp: forced_ids_def)
  then show ?thesis by (rule forced_desired [OF _ assms(9,10)])
qed

text \<open>An event that starts in an \<open>off\<close> window is never recorded: whatever the policy, judging it creates or extends
  no recording, so it cannot force a recorder on.\<close>

theorem off_window_event_not_recorded:
  assumes "schedule_mode E s cam (ev_start e) = MODE_OFF"
  shows "n_recordings (judge E now cam n dedup e s) = n_recordings s"
proof -
  have "combine a MODE_OFF ty \<noteq> ''record''" for a ty
    by (simp add: combine_def)
  then have "n_recordings (apply_policy E now cam n dedup e p s) = n_recordings s" for p
    using assms by (simp add: apply_policy_def Let_def publish_def set_action_def update_event_def split: option.splits)
  then show ?thesis by (simp add: judge_def set_action_def update_event_def split: option.splits)
qed

section \<open>Witnesses\<close>

text \<open>Camera 7 with a main stream, a writable disk, a clock that ticks and a system that spawns process 42; camera 8
  is enabled and has no stream.\<close>

definition sample_camera :: "db_id \<Rightarrow> camera" where
  "sample_camera i = \<lparr>cam_id = i, cam_uuid = ''u'', cam_name = ''c'', cam_enabled = True, cam_deleted = None\<rparr>"

definition sample_rec_stream :: rec_stream where
  "sample_rec_stream = \<lparr>sm_camera = 7, sm_role = ''main'', sm_codec = Some ''h264'', sm_go2rtc_name = ''cam7'', sm_is_default_live = True,
     sm_enabled = True, sm_deleted = None, rm_id = 1, rm_is_default_full = True\<rparr>"

definition sample_rec_env :: "mem rec_env" where
  "sample_rec_env = \<lparr>re_ev = sample_ev_env, re_tok = sample_env, re_md5 = (\<lambda>_. 1), re_headroom = 50,
     re_ff = ix_ff sample_index_env, re_index = (\<lambda>_. sample_index_env), re_mono = of_nat, re_exited = (\<lambda>_ _. False),
     re_mkdir = (\<lambda>_ _. True), re_spawn = (\<lambda>_ _. Inr 42), re_rr = (\<lambda>_. None), re_consumers = (\<lambda>_ _. None), re_flag_clock = (\<lambda>_. 0)\<rparr>"

definition sample_recorder :: "mem rec_state" where
  "sample_recorder = ev_state.extend ((sample_site ''record'')\<lparr>n_cameras := [sample_camera 7, sample_camera 8], n_disks := [sweep_disk 5 ''/c'' ROLE_CACHE]\<rparr>)
     \<lparr>rs_streams = [sample_rec_stream], rs_dual = [], rs_live_transcode = [], rs_settings = [],
      rs_flags = \<lparr>fl_rows = [], fl_cache = [], fl_cache_at = 0\<rparr>, rs_enc_nodes = [], rs_enc_rows = [], rs_health = [],
      rs_procs = [], rs_sub_procs = [], rs_warm_procs = [], rs_spawned = [], rs_stopped = [], rs_asked = 0\<rparr>"


theorem supervisor_well_formed_witness:
  "rs_procs (snd (tick sample_rec_env 1000000 sample_recorder)) \<noteq> [] \<and> sup_ok (snd (tick sample_rec_env 1000000 sample_recorder))"
proof
  show "rs_procs (snd (tick sample_rec_env 1000000 sample_recorder)) \<noteq> []" by code_simp
  have "sup_reach sample_rec_env sample_recorder"
    by (rule sup_reach.init) (simp_all add: sample_recorder_def ev_state.defs)
  then show "sup_ok (snd (tick sample_rec_env 1000000 sample_recorder))"
    by (rule supervisor_well_formed [OF sup_reach.tick])
qed

definition sample_judged :: "mem ev_state" where
  "sample_judged = (snd (sample_fresh ''record''))\<lparr>n_cameras := [sample_camera 7]\<rparr>"

theorem recorded_event_keeps_recorder_on_witness:
  "sample_camera 7 \<in> set (desired_cameras sample_ev_env 1005000
     (judge sample_ev_env 1000000 7 (sample_motion ''pulse'') ''k'' (fst (sample_fresh ''record'')) sample_judged))"
proof (rule recorded_event_keeps_recorder_on [where p = "sample_event_policy ''record''"])
  show "event_clips_protected sample_judged"
    by (simp add: event_clips_protected_def sample_judged_def sample_fresh_def Event_create_def sample_site_def Let_def)
  show "ep_enabled (sample_event_policy ''record'')" by (simp add: sample_event_policy_def)
  show "cam_enabled (sample_camera 7)" by (simp add: sample_camera_def)
qed code_simp+

theorem off_window_event_not_recorded_witness:
  "n_recordings (judge sample_ev_env 1000000 7 (sample_motion ''pulse'') ''k'' (fst (sample_fresh ''record''))
      (sample_judged\<lparr>es_schedules := map (\<lambda>d. \<lparr>sc_camera = 7, sc_day_of_week = d, sc_start_min = 0, sc_end_min = 1440, sc_mode = ''off'',
         sc_priority = 0, sc_enabled = True, sc_deleted = None\<rparr>) [0, 1, 2, 3, 4, 5, 6]\<rparr>)) = []"
proof -
  let ?s = "sample_judged\<lparr>es_schedules := map (\<lambda>d. \<lparr>sc_camera = 7, sc_day_of_week = d, sc_start_min = 0, sc_end_min = 1440, sc_mode = ''off'',
         sc_priority = 0, sc_enabled = True, sc_deleted = None\<rparr>) [0, 1, 2, 3, 4, 5, 6]\<rparr>"
  have "schedule_mode sample_ev_env ?s 7 (ev_start (fst (sample_fresh ''record''))) = MODE_OFF" by code_simp
  from off_window_event_not_recorded [OF this] show ?thesis
    by (simp add: sample_judged_def sample_fresh_def Event_create_def sample_site_def Let_def)
qed

end
