(* ===== verification/Launcher.thy ===== *)
theory Launcher
  imports Ffmpeg "HOL-Library.AList"
begin

text \<open>
  The Windows launcher: install paths, configuration file and child environment
  (\<open>windows/launcher/axp_launcher/env.py\<close>) and the service supervisor (\<open>supervisor.py\<close>) with its
  process table, ordered start with readiness gates, crash restart with back-off, crash-loop mode and
  the stop ladder.

  What the launcher learns from the operating system (did a process exit, does a probe answer, did a
  spawn succeed) are the fields of \<open>launch_env\<close>, functions of the number of questions asked before, so
  that the answers may change from one question to the next. The monotonic clock is part of the state:
  a reading never goes back, and \<open>time.sleep(d)\<close> advances it by at least \<open>d\<close>.
\<close>

section \<open>Paths and configuration\<close>

type_synonym settings = "(string \<times> string) list"

definition cfg_get :: "settings \<Rightarrow> string \<Rightarrow> string \<Rightarrow> string" where
  "cfg_get cfg k d = (case map_of cfg k of None \<Rightarrow> d | Some v \<Rightarrow> v)"

text \<open>\<open>Path / name\<close> on Windows.\<close>

definition subpath :: "string \<Rightarrow> string \<Rightarrow> string" where
  "subpath p q = p @ [backslash] @ q"

definition under :: "string \<Rightarrow> string list \<Rightarrow> string" where
  "under p qs = foldl subpath p qs"

definition CURRENT :: "string \<Rightarrow> string" where "CURRENT home = under home [''current'']"
definition VERSIONS :: "string \<Rightarrow> string" where "VERSIONS home = under home [''versions'']"
definition CONFIG :: "string \<Rightarrow> string" where "CONFIG home = under home [''config'']"
definition DATA :: "string \<Rightarrow> string" where "DATA home = under home [''data'']"
definition STORAGE :: "string \<Rightarrow> string" where "STORAGE home = under home [''storage'']"
definition EXTRAS_AI :: "string \<Rightarrow> string" where "EXTRAS_AI home = under home [''extras'', ''site-packages-ai'']"
definition HF_CACHE :: "string \<Rightarrow> string" where "HF_CACHE home = under home [''extras'', ''hf-cache'']"
definition PYTHON :: "string \<Rightarrow> string" where "PYTHON home = under home [''runtime'', ''python'', ''python.exe'']"
definition FFMPEG_DIR :: "string \<Rightarrow> string" where "FFMPEG_DIR home = under home [''runtime'', ''ffmpeg'', ''bin'']"
definition FFMPEG :: "string \<Rightarrow> string" where "FFMPEG home = subpath (FFMPEG_DIR home) ''ffmpeg.exe''"
definition FFPROBE :: "string \<Rightarrow> string" where "FFPROBE home = subpath (FFMPEG_DIR home) ''ffprobe.exe''"
definition GO2RTC :: "string \<Rightarrow> string" where "GO2RTC home = under home [''runtime'', ''go2rtc'', ''go2rtc.exe'']"
definition CADDY :: "string \<Rightarrow> string" where "CADDY home = under home [''runtime'', ''caddy'', ''caddy.exe'']"
definition REDIS_SERVER :: "string \<Rightarrow> string" where
  "REDIS_SERVER home = under home [''runtime'', ''redis'', ''redis-server.exe'']"
definition MARIADBD :: "string \<Rightarrow> string" where
  "MARIADBD home = under home [''runtime'', ''mariadb'', ''bin'', ''mariadbd.exe'']"
definition WATERMARK_FONT :: "string \<Rightarrow> string" where
  "WATERMARK_FONT home = under home [''runtime'', ''fonts'', ''DejaVuSans.ttf'']"

definition DB_PORT :: int where "DB_PORT = 3307"
definition REDIS_PORT :: int where "REDIS_PORT = 6380"
definition BACKEND_PORT :: int where "BACKEND_PORT = 10000"
definition GO2RTC_API_PORT :: int where "GO2RTC_API_PORT = 1984"
definition GO2RTC_RTSP_PORT :: int where "GO2RTC_RTSP_PORT = 8554"
definition ENCODER_PORT :: int where "ENCODER_PORT = 8098"
definition DETECTOR_PORT :: int where "DETECTOR_PORT = 8099"
definition CONTROL_PORT :: int where "CONTROL_PORT = 10099"

text \<open>\<open>str.splitlines\<close>: a carriage return followed by a line feed is one line end.\<close>

definition line_end :: "char \<Rightarrow> bool" where
  "line_end c \<longleftrightarrow> (of_char c :: nat) \<in> {10, 11, 12, 13, 28, 29, 30, 133}"

fun splitlines_from :: "string \<Rightarrow> string \<Rightarrow> string list" where
  "splitlines_from acc [] = (if acc = [] then [] else [rev acc])"
| "splitlines_from acc [c] = (if line_end c then [rev acc] else [rev (c # acc)])"
| "splitlines_from acc (c # d # cs) =
     (if c = CHR 0x0D \<and> d = CHR 0x0A then rev acc # splitlines_from [] cs
      else if line_end c then rev acc # splitlines_from [] (d # cs)
      else splitlines_from (c # acc) (d # cs))"

definition strip_char :: "char \<Rightarrow> string \<Rightarrow> string" where
  "strip_char q s = rev (dropWhile (\<lambda>c. c = q) (rev (dropWhile (\<lambda>c. c = q) s)))"

text \<open>\<open>s.partition(c)\<close>, without the separator.\<close>

definition partition_at :: "char \<Rightarrow> string \<Rightarrow> string \<times> string" where
  "partition_at c s = (takeWhile (\<lambda>d. d \<noteq> c) s, tl (dropWhile (\<lambda>d. d \<noteq> c) s))"

definition load_line :: "string \<Rightarrow> settings \<Rightarrow> settings" where
  "load_line raw cfg =
     (let line = py_strip raw in
      if line = [] \<or> hd line = CHR ''#'' \<or> CHR ''='' \<notin> set line then cfg
      else case partition_at (CHR ''='') line of (key, v) \<Rightarrow>
        AList.update (py_strip key) (strip_char (CHR 0x22) (py_strip v)) cfg)"

definition load_env :: "string option \<Rightarrow> settings" where
  "load_env text = (case text of None \<Rightarrow> [] | Some t \<Rightarrow> fold load_line (splitlines_from [] t) [])"

section \<open>The installed versions\<close>

text \<open>A version directory, as far as the launcher looks at it, and the install tree: where the
  \<open>current\<close> junction points, and the directories under \<open>versions\<close>.\<close>

record tree =
  tr_version :: "string option"
  tr_site_packages :: bool
  tr_app :: bool

record install =
  in_current :: "string option"
  in_trees :: "(string \<times> tree) list"

definition lstrip_v :: "string \<Rightarrow> string" where
  "lstrip_v v = dropWhile (\<lambda>c. c = CHR ''v'') v"

definition version_dir :: "string \<Rightarrow> string \<Rightarrow> string" where
  "version_dir home v = subpath (VERSIONS home) (CHR ''v'' # lstrip_v v)"

text \<open>The tree at a root, through the junction when the root is \<open>current\<close>.\<close>

definition tree_at :: "string \<Rightarrow> 'z install_scheme \<Rightarrow> string \<Rightarrow> tree option" where
  "tree_at home s rt =
     (if rt = CURRENT home then (case in_current s of None \<Rightarrow> None | Some d \<Rightarrow> map_of (in_trees s) d)
      else map_of (in_trees s) rt)"

definition current_version :: "string \<Rightarrow> 'z install_scheme \<Rightarrow> string" where
  "current_version home s =
     (case tree_at home s (CURRENT home) of
        None \<Rightarrow> ''0.0.0'' | Some t \<Rightarrow> (case tr_version t of None \<Rightarrow> ''0.0.0'' | Some v \<Rightarrow> py_strip v))"

definition version_of_root :: "string \<Rightarrow> 'z install_scheme \<Rightarrow> string \<Rightarrow> string" where
  "version_of_root home s rt =
     (case tree_at home s rt of
        None \<Rightarrow> current_version home s
      | Some t \<Rightarrow> (case tr_version t of None \<Rightarrow> current_version home s | Some v \<Rightarrow> py_strip v))"

definition update_all :: "settings \<Rightarrow> settings \<Rightarrow> settings" where
  "update_all kvs env = fold (\<lambda>(k, v). AList.update k v) kvs env"

definition loopback :: "string \<Rightarrow> int \<Rightarrow> string" where
  "loopback scheme port = scheme @ ''127.0.0.1:'' @ str_of_int port"

text \<open>The base is the launcher's own environment.\<close>

definition app_env :: "string \<Rightarrow> settings \<Rightarrow> 'z install_scheme \<Rightarrow> settings \<Rightarrow> string \<Rightarrow> settings \<Rightarrow> settings" where
  "app_env home environ s cfg rt extra =
     (let env = AList.update ''PATH'' (FFMPEG_DIR home @ '';'' @ cfg_get environ ''PATH'' []) environ
      in update_all extra (update_all
        [(''PROJECT_ENV'', ''production''), (''TZ'', ''UTC''), (''PYTHONUNBUFFERED'', ''1''),
         (''PYTHONDONTWRITEBYTECODE'', ''1''),
         (''PYTHONPATH'', EXTRAS_AI home @ '';'' @ subpath rt ''site-packages'' @ '';'' @ subpath rt ''app''),
         (''AXP_AI_EXTRAS_DIR'', EXTRAS_AI home), (''HF_HOME'', HF_CACHE home), (''AXP_HOME'', home),
         (''AXP_VERSION'', version_of_root home s rt),
         (''DATABASE_URL'', loopback [] DB_PORT), (''DATABASE_ID'', cfg_get cfg ''DATABASE_ID'' ''axp''),
         (''DATABASE_PW'', cfg_get cfg ''DATABASE_PW'' []), (''DATABASE_DB'', cfg_get cfg ''DATABASE_DB'' ''axp''),
         (''REDIS_URL'', loopback [] REDIS_PORT), (''SECRET_KEY'', cfg_get cfg ''SECRET_KEY'' []),
         (''JWT_SECRET'', cfg_get cfg ''JWT_SECRET'' []), (''CREDENTIAL_ENC_KEY'', cfg_get cfg ''CREDENTIAL_ENC_KEY'' []),
         (''GO2RTC_URL'', loopback ''http://'' GO2RTC_API_PORT), (''GO2RTC_RTSP'', loopback ''rtsp://'' GO2RTC_RTSP_PORT),
         (''AXP_DISK_ROOT'', cfg_get cfg ''AXP_DISK_ROOT'' (STORAGE home)),
         (''AXP_THUMB_DIR'', cfg_get cfg ''AXP_THUMB_DIR'' (under (DATA home) [''media'', ''thumbnails''])),
         (''FFMPEG_BIN'', FFMPEG home), (''FFPROBE_BIN'', FFPROBE home), (''AXP_WATERMARK_FONT'', WATERMARK_FONT home),
         (''AXP_LAUNCHER_URL'', loopback ''http://'' CONTROL_PORT),
         (''AXP_LAUNCHER_TOKEN'', cfg_get cfg ''AXP_LAUNCHER_TOKEN'' []), (''AXP_DB_INIT'', ''false'')] env))"

section \<open>Services\<close>

definition BACKOFF_LIMIT :: rat where "BACKOFF_LIMIT = 60"
definition BACKOFF_FIRST :: rat where "BACKOFF_FIRST = 1"
definition CRASHLOOP_WINDOW_S :: rat where "CRASHLOOP_WINDOW_S = 600"
definition CRASHLOOP_LIMIT :: nat where "CRASHLOOP_LIMIT = 10"
definition CRASHLOOP_RETRY_S :: rat where "CRASHLOOP_RETRY_S = 300"
definition HEALTHY_RESET_S :: rat where "HEALTHY_RESET_S = 120"
definition READY_TIMEOUT_S :: rat where "READY_TIMEOUT_S = 90"

text \<open>The optional hooks of a specification are present or absent; what a present hook answers is in
  \<open>launch_env\<close>. The child environment is \<open>app_env\<close> updated by \<open>sp_extra\<close>.\<close>

record service_spec =
  sp_name :: string
  sp_cmd :: "string list"
  sp_extra :: settings
  sp_cwd :: "string option"
  sp_ready :: bool
  sp_pre_start :: bool
  sp_post_ready :: bool
  sp_stop :: bool
  sp_graceful_timeout :: rat
  sp_app_tier :: bool
  sp_optional :: bool
  sp_exists :: bool

definition plain_spec :: "string \<Rightarrow> string list \<Rightarrow> service_spec" where
  "plain_spec name cmd =
     \<lparr>sp_name = name, sp_cmd = cmd, sp_extra = [], sp_cwd = None, sp_ready = False, sp_pre_start = False,
      sp_post_ready = False, sp_stop = False, sp_graceful_timeout = 15, sp_app_tier = False, sp_optional = False,
      sp_exists = False\<rparr>"

definition app_spec :: "string \<Rightarrow> string \<Rightarrow> string list \<Rightarrow> settings \<Rightarrow> rat \<Rightarrow> service_spec" where
  "app_spec home name args extra timeout =
     (plain_spec name ([PYTHON home, ''-u''] @ args))
       \<lparr>sp_extra := extra, sp_cwd := Some (subpath (CURRENT home) ''app''), sp_graceful_timeout := timeout,
        sp_app_tier := True\<rparr>"

definition celery_args :: "string list" where
  "celery_args = [''-m'', ''celery'', ''-A'', ''server.task.celery'']"

definition uvicorn_args :: "string \<Rightarrow> int \<Rightarrow> string list" where
  "uvicorn_args app port = [''-m'', ''uvicorn'', app, ''--host'', ''127.0.0.1'', ''--port'', str_of_int port]"

definition as_posix :: "string \<Rightarrow> string" where
  "as_posix p = replace_char backslash ''/'' p"

definition build_specs :: "string \<Rightarrow> settings \<Rightarrow> py_error + service_spec list" where
  "build_specs home cfg =
     (case int_of_string (cfg_get cfg ''AXP_HTTP_PORT'' ''3000'') of
        None \<Rightarrow> Inl (ValueError (cfg_get cfg ''AXP_HTTP_PORT'' ''3000''))
      | Some http_port \<Rightarrow> Inr
         [(plain_spec ''mariadb'' [MARIADBD home, ''--defaults-file='' @ subpath (CONFIG home) ''my.ini'', ''--console''])
            \<lparr>sp_pre_start := True, sp_ready := True, sp_post_ready := True, sp_stop := True, sp_graceful_timeout := 60\<rparr>,
          (plain_spec ''redis'' [REDIS_SERVER home, as_posix (subpath (CONFIG home) ''redis.conf'')])
            \<lparr>sp_ready := True, sp_stop := True\<rparr>,
          (plain_spec ''go2rtc'' [GO2RTC home, ''-config'', subpath (CONFIG home) ''go2rtc.yaml''])
            \<lparr>sp_extra := [(''TZ'', ''UTC'')], sp_ready := True\<rparr>,
          (plain_spec ''caddy'' [CADDY home, ''run'', ''--config'', subpath (CONFIG home) ''Caddyfile'', ''--adapter'', ''caddyfile''])
            \<lparr>sp_extra := [(''AXP_APP_DIR'', CURRENT home), (''AXP_HTTP_PORT'', str_of_int http_port),
                           (''AXP_LAUNCHER_PORT'', str_of_int CONTROL_PORT)], sp_ready := True\<rparr>,
          (app_spec home ''backend'' [''-m'', ''server.wsgi'']
             [(''SNOWFLAKE_INSTANCE'', ''1''), (''AXP_BIND_HOST'', ''127.0.0.1''), (''AXP_BIND_PORT'', str_of_int BACKEND_PORT)] 20)
            \<lparr>sp_ready := True\<rparr>,
          app_spec home ''worker''
             (celery_args @ [''worker'', ''--pool=threads'', ''-c'', ''8'', ''-n'', ''worker@axp'', ''-l'', ''info''])
             [(''SNOWFLAKE_INSTANCE'', ''2'')] 30,
          app_spec home ''beat''
             (celery_args @ [''beat'', ''-l'', ''info'', ''-s'', subpath (DATA home) ''celerybeat-schedule''])
             [(''SNOWFLAKE_INSTANCE'', ''7'')] 15,
          app_spec home ''subs''
             (celery_args @ [''worker'', ''-Q'', ''subs'', ''--pool=threads'', ''-c'', ''50'', ''-n'', ''subs@axp'', ''-l'', ''info''])
             [(''SNOWFLAKE_INSTANCE'', ''4'')] 30,
          app_spec home ''recorder'' [''-m'', ''worker.recorder''] [(''SNOWFLAKE_INSTANCE'', ''3'')] 20,
          (app_spec home ''encoder'' (uvicorn_args ''worker.encoder.app:app'' ENCODER_PORT)
             [(''SNOWFLAKE_INSTANCE'', ''5''), (''SERVER_API_URL'', loopback ''http://'' BACKEND_PORT @ ''/api/v1''),
              (''ADVERTISE_URL'', loopback ''http://'' ENCODER_PORT), (''ENCODER_BIND'', loopback [] ENCODER_PORT),
              (''NODE_NAME'', cfg_get cfg ''ENCODER_NODE_NAME'' ''encoder-local''),
              (''HWACCEL'', cfg_get cfg ''ENCODER_HWACCEL'' ''none''),
              (''MAX_SESSIONS'', cfg_get cfg ''ENCODER_MAX_SESSIONS'' ''4'')] 15)
            \<lparr>sp_ready := True\<rparr>,
          (app_spec home ''detector'' (uvicorn_args ''worker.detector.app:app'' DETECTOR_PORT)
             [(''SNOWFLAKE_INSTANCE'', ''6''), (''SERVER_API_URL'', loopback ''http://'' BACKEND_PORT @ ''/api/v1''),
              (''DETECTOR_BIND'', loopback [] DETECTOR_PORT), (''GPU_ENABLED'', cfg_get cfg ''GPU_ENABLED'' ''false''),
              (''PYTHONPATH'', EXTRAS_AI home @ '';'' @ subpath (CURRENT home) ''site-packages-ai'' @ '';''
                @ subpath (CURRENT home) ''site-packages'' @ '';'' @ subpath (CURRENT home) ''app'')] 15)
            \<lparr>sp_ready := True, sp_optional := True, sp_exists := True\<rparr>])"

section \<open>The supervisor\<close>

definition SV_STOPPED :: string where "SV_STOPPED = ''stopped''"
definition SV_STARTING :: string where "SV_STARTING = ''starting''"
definition SV_RUNNING :: string where "SV_RUNNING = ''running''"
definition SV_FAILED :: string where "SV_FAILED = ''failed''"
definition SV_CRASHLOOPING :: string where "SV_CRASHLOOPING = ''crashlooping''"
definition SV_DISABLED :: string where "SV_DISABLED = ''disabled''"

record service =
  sv_spec :: service_spec
  sv_popen :: "int option"
  sv_started_at :: rat
  sv_restart_count :: int
  sv_backoff :: rat
  sv_next_retry :: rat
  sv_recent_deaths :: "rat list"
  sv_status :: string
  sv_desired :: bool

text \<open>What the launcher does to the outside: a child with its command line, working directory and
  environment, the stop hook of a service, the console event, the kill.\<close>

datatype launch_event =
    Spawned string int "string list" "string option" settings
  | StopHook string
  | CtrlBreak int
  | Killed int

record launcher = install +
  lc_services :: "(string \<times> service) list"
  lc_stop :: bool
  lc_clock :: rat
  lc_asked :: nat
  lc_events :: "launch_event list"

text \<open>
  The answers: \<open>le_lag\<close> how much time passed before a clock reading or beyond a sleep; \<open>le_exited\<close>
  \<open>poll() is not None\<close>; \<open>le_pre_start\<close>, \<open>le_post_ready\<close> whether the hook returned without raising;
  \<open>le_popen\<close> the pid, or none for an \<open>OSError\<close>; \<open>le_stop_hook\<close> whether the hook returned a true
  value; \<open>le_waited\<close> whether the child ended within the time-out; \<open>le_kill\<close> what \<open>kill\<close> and the wait
  after it raised; \<open>le_stopping\<close> whether another thread set the stop event.
\<close>

record launch_env =
  le_home :: string
  le_environ :: settings
  le_lag :: "nat \<Rightarrow> rat"
  le_exited :: "nat \<Rightarrow> int \<Rightarrow> bool"
  le_pre_start :: "nat \<Rightarrow> string \<Rightarrow> bool"
  le_popen :: "nat \<Rightarrow> string list \<Rightarrow> int option"
  le_ready :: "nat \<Rightarrow> string \<Rightarrow> bool"
  le_post_ready :: "nat \<Rightarrow> string \<Rightarrow> bool"
  le_stop_hook :: "nat \<Rightarrow> string \<Rightarrow> bool"
  le_waited :: "nat \<Rightarrow> int \<Rightarrow> bool"
  le_kill :: "nat \<Rightarrow> int \<Rightarrow> py_error option"
  le_exists :: "nat \<Rightarrow> string \<Rightarrow> bool"
  le_stopping :: "nat \<Rightarrow> bool"

definition inquire :: "(nat \<Rightarrow> 'a) \<Rightarrow> 'z launcher_scheme \<Rightarrow> 'a \<times> 'z launcher_scheme" where
  "inquire f s = (f (lc_asked s), s\<lparr>lc_asked := Suc (lc_asked s)\<rparr>)"

definition elapse :: "launch_env \<Rightarrow> rat \<Rightarrow> 'z launcher_scheme \<Rightarrow> 'z launcher_scheme" where
  "elapse E d s = s\<lparr>lc_clock := lc_clock s + d + max 0 (le_lag E (lc_asked s)), lc_asked := Suc (lc_asked s)\<rparr>"

definition monotonic :: "launch_env \<Rightarrow> 'z launcher_scheme \<Rightarrow> rat \<times> 'z launcher_scheme" where
  "monotonic E s = (let s' = elapse E 0 s in (lc_clock s', s'))"

definition happened :: "launch_event \<Rightarrow> 'z launcher_scheme \<Rightarrow> 'z launcher_scheme" where
  "happened e s = s\<lparr>lc_events := lc_events s @ [e]\<rparr>"

definition stop_set :: "launch_env \<Rightarrow> 'z launcher_scheme \<Rightarrow> bool \<times> 'z launcher_scheme" where
  "stop_set E s = (case inquire (le_stopping E) s of (b, s') \<Rightarrow> (lc_stop s \<or> b, s'))"

definition new_service :: "service_spec \<Rightarrow> service" where
  "new_service sp =
     \<lparr>sv_spec = sp, sv_popen = None, sv_started_at = 0, sv_restart_count = 0, sv_backoff = BACKOFF_FIRST,
      sv_next_retry = 0, sv_recent_deaths = [], sv_status = SV_STOPPED, sv_desired = True\<rparr>"

definition init_services :: "service_spec list \<Rightarrow> (string \<times> service) list" where
  "init_services specs = map (\<lambda>sp. (sp_name sp, new_service sp)) specs"

definition svc_get :: "'z launcher_scheme \<Rightarrow> string \<Rightarrow> service option" where
  "svc_get s n = map_of (lc_services s) n"

definition svc_upd :: "string \<Rightarrow> (service \<Rightarrow> service) \<Rightarrow> 'z launcher_scheme \<Rightarrow> 'z launcher_scheme" where
  "svc_upd n f s = s\<lparr>lc_services := map (\<lambda>(k, st). (k, if k = n then f st else st)) (lc_services s)\<rparr>"

definition child_env :: "launch_env \<Rightarrow> settings \<Rightarrow> service_spec \<Rightarrow> 'z launcher_scheme \<Rightarrow> settings" where
  "child_env E cfg sp s = app_env (le_home E) (le_environ E) s cfg (CURRENT (le_home E)) (sp_extra sp)"

definition svc_spawn :: "launch_env \<Rightarrow> settings \<Rightarrow> string \<Rightarrow> service_spec \<Rightarrow> 'z launcher_scheme \<Rightarrow> 'z launcher_scheme" where
  "svc_spawn E cfg n sp s =
     (let s1 = svc_upd n (\<lambda>st. st\<lparr>sv_status := SV_STARTING\<rparr>) s in
      case (if sp_pre_start sp then inquire (\<lambda>k. le_pre_start E k n) s1 else (True, s1)) of
        (False, s2) \<Rightarrow> svc_upd n (\<lambda>st. st\<lparr>sv_status := SV_FAILED\<rparr>) s2
      | (True, s2) \<Rightarrow>
          (case inquire (\<lambda>k. le_popen E k (sp_cmd sp)) s2 of
             (None, s3) \<Rightarrow> svc_upd n (\<lambda>st. st\<lparr>sv_popen := None, sv_status := SV_FAILED\<rparr>) s3
           | (Some pid, s3) \<Rightarrow>
               (case monotonic E (happened (Spawned n pid (sp_cmd sp) (sp_cwd sp) (child_env E cfg sp s3)) s3) of
                  (t, s4) \<Rightarrow> svc_upd n (\<lambda>st. st\<lparr>sv_popen := Some pid, sv_started_at := t\<rparr>) s4)))"

lemma clock_elapse: "lc_clock s + d \<le> lc_clock (elapse E d s)"
  by (simp add: elapse_def)

lemma clock_inquire: "inquire f s = (a, s') \<Longrightarrow> lc_clock s' = lc_clock s"
  by (auto simp: inquire_def)

lemma clock_monotonic: "monotonic E s = (t, s') \<Longrightarrow> lc_clock s' = t \<and> lc_clock s \<le> t"
  by (auto simp: monotonic_def Let_def elapse_def)

lemma clock_stop_set: "stop_set E s = (b, s') \<Longrightarrow> lc_clock s' = lc_clock s"
  by (auto simp: stop_set_def inquire_def)

text \<open>A pass of a waiting loop that sleeps at least one second makes the rest shorter.\<close>

lemma deadline_shrinks:
  fixes c l m d k :: rat
  assumes "1 \<le> k"
  shows "\<lceil>d - (c + (max 0 l + (k + max 0 m)))\<rceil> < \<lceil>d - c\<rceil>"
proof -
  have "\<lceil>d - (c + (max 0 l + (k + max 0 m)))\<rceil> \<le> \<lceil>d - c - 1\<rceil>"
    by (rule ceiling_mono) (use assms in linarith)
  then show ?thesis by simp
qed

text \<open>The readiness loop; false when it ran out of time or the launcher is stopping.\<close>

function await_ready :: "launch_env \<Rightarrow> string \<Rightarrow> int \<Rightarrow> rat \<Rightarrow> 'z launcher_scheme \<Rightarrow> bool \<times> 'z launcher_scheme" where
  "await_ready E n pid deadline s =
     (case monotonic E s of (t, s1) \<Rightarrow>
      if \<not> t < deadline then (False, s1)
      else case stop_set E s1 of
        (True, s2) \<Rightarrow> (False, s2)
      | (False, s2) \<Rightarrow>
          (case inquire (\<lambda>k. le_exited E k pid) s2 of
             (True, s3) \<Rightarrow> (True, s3)
           | (False, s3) \<Rightarrow>
               (case inquire (\<lambda>k. le_ready E k n) s3 of
                  (True, s4) \<Rightarrow> (True, s4)
                | (False, s4) \<Rightarrow> await_ready E n pid deadline (elapse E 1 s4))))"
  by pat_completeness auto

termination
  by (relation "measure (\<lambda>(E, n, pid, deadline, s). nat \<lceil>deadline - lc_clock s\<rceil>)")
    (auto simp: monotonic_def Let_def inquire_def stop_set_def elapse_def add.assoc
       intro!: deadline_shrinks)

declare await_ready.simps [simp del]

definition set_status :: "string \<Rightarrow> string \<Rightarrow> 'z launcher_scheme \<Rightarrow> 'z launcher_scheme" where
  "set_status n x s = svc_upd n (\<lambda>st. st\<lparr>sv_status := x\<rparr>) s"

text \<open>The gate between a spawn and the state \<open>running\<close>: the probe answered and the child is still there.\<close>

definition pass_gate :: "launch_env \<Rightarrow> string \<Rightarrow> service_spec \<Rightarrow> int \<Rightarrow> 'z launcher_scheme \<Rightarrow> bool \<times> 'z launcher_scheme" where
  "pass_gate E n sp pid s =
     (if sp_ready sp then
        (case monotonic E s of (t, s1) \<Rightarrow>
         case await_ready E n pid (t + READY_TIMEOUT_S) s1 of
           (False, s2) \<Rightarrow> (False, s2)
         | (True, s2) \<Rightarrow> (case inquire (\<lambda>k. le_exited E k pid) s2 of (gone, s3) \<Rightarrow> (\<not> gone, s3)))
      else (True, s))"

definition start_and_wait :: "launch_env \<Rightarrow> settings \<Rightarrow> string \<Rightarrow> service_spec \<Rightarrow> 'z launcher_scheme \<Rightarrow> 'z launcher_scheme" where
  "start_and_wait E cfg n sp s =
     (let s1 = svc_spawn E cfg n sp s in
      case Option.bind (svc_get s1 n) sv_popen of
        None \<Rightarrow> s1
      | Some pid \<Rightarrow>
          (case pass_gate E n sp pid s1 of
             (False, s2) \<Rightarrow> set_status n SV_FAILED s2
           | (True, s2) \<Rightarrow>
               (case (if sp_post_ready sp then inquire (\<lambda>k. le_post_ready E k n) s2 else (True, s2)) of
                  (False, s3) \<Rightarrow> set_status n SV_FAILED s3
                | (True, s3) \<Rightarrow> set_status n SV_RUNNING s3)))"

definition start_infra_service :: "launch_env \<Rightarrow> settings \<Rightarrow> string \<Rightarrow> 'z launcher_scheme \<Rightarrow> 'z launcher_scheme" where
  "start_infra_service E cfg n s =
     (case svc_get s n of
        None \<Rightarrow> s
      | Some st \<Rightarrow>
          if sp_app_tier (sv_spec st) then s
          else (case stop_set E s of (True, s1) \<Rightarrow> s1 | (False, s1) \<Rightarrow> start_and_wait E cfg n (sv_spec st) s1))"

definition start_infra :: "launch_env \<Rightarrow> settings \<Rightarrow> 'z launcher_scheme \<Rightarrow> 'z launcher_scheme" where
  "start_infra E cfg s = fold (start_infra_service E cfg) (map fst (lc_services s)) s"

definition stop_child :: "launch_env \<Rightarrow> string \<Rightarrow> ('z launcher_scheme, unit) act" where
  "stop_child E n s =
     (case svc_get s n of
        None \<Rightarrow> (Inr (), s)
      | Some st \<Rightarrow>
          let s1 = svc_upd n (\<lambda>st. st\<lparr>sv_popen := None, sv_status := SV_STOPPED\<rparr>) s in
          case sv_popen st of
            None \<Rightarrow> (Inr (), s1)
          | Some pid \<Rightarrow>
              (case inquire (\<lambda>k. le_exited E k pid) s1 of
                 (True, s2) \<Rightarrow> (Inr (), s2)
               | (False, s2) \<Rightarrow>
                   (case (if sp_stop (sv_spec st) then inquire (\<lambda>k. le_stop_hook E k n) (happened (StopHook n) s2)
                          else (False, s2)) of
                      (finished, s3) \<Rightarrow>
                        (case inquire (\<lambda>k. le_waited E k pid) (if finished then s3 else happened (CtrlBreak pid) s3) of
                           (True, s4) \<Rightarrow> (Inr (), s4)
                         | (False, s4) \<Rightarrow>
                             (case inquire (\<lambda>k. le_kill E k pid) (happened (Killed pid) s4) of
                                (None, s5) \<Rightarrow> (Inr (), s5)
                              | (Some (OSError m), s5) \<Rightarrow> (Inr (), s5)
                              | (Some e, s5) \<Rightarrow> (Inl e, s5))))))"

definition stop_service :: "launch_env \<Rightarrow> string \<Rightarrow> ('z launcher_scheme, unit) act" where
  "stop_service E n s =
     (if svc_get s n = None then (Inl (KeyError n), s)
      else stop_child E n (svc_upd n (\<lambda>st. st\<lparr>sv_desired := False\<rparr>) s))"

definition stop_one :: "launch_env \<Rightarrow> bool \<Rightarrow> string \<Rightarrow> ('z launcher_scheme, unit) act" where
  "stop_one E app_only n s =
     (case svc_get s n of
        None \<Rightarrow> (Inr (), s)
      | Some st \<Rightarrow>
          if app_only \<and> \<not> sp_app_tier (sv_spec st) then (Inr (), s)
          else stop_child E n (svc_upd n (\<lambda>st. st\<lparr>sv_desired := False\<rparr>) s))"

definition stop_all :: "launch_env \<Rightarrow> bool \<Rightarrow> ('z launcher_scheme, unit) act" where
  "stop_all E app_only s = each (stop_one E app_only) (rev (map fst (lc_services s))) s"

text \<open>What a deliberate start forgets about earlier crashes.\<close>

definition fresh_start :: "service \<Rightarrow> service" where
  "fresh_start st =
     st\<lparr>sv_desired := True, sv_restart_count := 0, sv_backoff := BACKOFF_FIRST, sv_recent_deaths := []\<rparr>"

definition start_app_service :: "launch_env \<Rightarrow> settings \<Rightarrow> string \<Rightarrow> 'z launcher_scheme \<Rightarrow> 'z launcher_scheme" where
  "start_app_service E cfg n s =
     (case svc_get s n of
        None \<Rightarrow> s
      | Some st \<Rightarrow>
          if \<not> sp_app_tier (sv_spec st) then s
          else
            (case (if sp_optional (sv_spec st) \<and> sp_exists (sv_spec st) then inquire (\<lambda>k. le_exists E k n) s
                   else (True, s)) of
               (False, s1) \<Rightarrow> svc_upd n (\<lambda>st. st\<lparr>sv_status := SV_DISABLED, sv_desired := False\<rparr>) s1
             | (True, s1) \<Rightarrow> start_and_wait E cfg n (sv_spec st) (svc_upd n fresh_start s1)))"

definition start_app_tier :: "launch_env \<Rightarrow> settings \<Rightarrow> 'z launcher_scheme \<Rightarrow> 'z launcher_scheme" where
  "start_app_tier E cfg s = fold (start_app_service E cfg) (map fst (lc_services s)) s"

definition restart_service :: "launch_env \<Rightarrow> settings \<Rightarrow> string \<Rightarrow> ('z launcher_scheme, bool) act" where
  "restart_service E cfg n s =
     (case svc_get s n of
        None \<Rightarrow> (Inr False, s)
      | Some st \<Rightarrow>
          (case stop_child E n s of
             (Inl e, s1) \<Rightarrow> (Inl e, s1)
           | (Inr _, s1) \<Rightarrow>
               let s2 = start_and_wait E cfg n (sv_spec st) (svc_upd n fresh_start s1)
               in (Inr (map_option sv_status (svc_get s2 n) = Some SV_RUNNING), s2)))"

section \<open>The monitor\<close>

definition bury_service :: "rat \<Rightarrow> service \<Rightarrow> service" where
  "bury_service now st =
     st\<lparr>sv_restart_count := sv_restart_count st + 1,
        sv_recent_deaths := filter (\<lambda>t. now - t < CRASHLOOP_WINDOW_S) (sv_recent_deaths st) @ [now]\<rparr>"

definition crash_loops :: "service \<Rightarrow> bool" where
  "crash_loops st \<longleftrightarrow> CRASHLOOP_LIMIT < length (sv_recent_deaths st)"

definition slow_retry :: "launch_env \<Rightarrow> string \<Rightarrow> 'z launcher_scheme \<Rightarrow> 'z launcher_scheme" where
  "slow_retry E n s =
     (case monotonic E s of (t, s1) \<Rightarrow>
        svc_upd n (\<lambda>st. st\<lparr>sv_status := SV_CRASHLOOPING, sv_next_retry := t + CRASHLOOP_RETRY_S\<rparr>) s1)"

text \<open>The result says whether the service was put into crash-loop mode.\<close>

definition register_death :: "launch_env \<Rightarrow> string \<Rightarrow> service \<Rightarrow> 'z launcher_scheme \<Rightarrow> bool \<times> 'z launcher_scheme" where
  "register_death E n st s =
     (case monotonic E s of (now, s1) \<Rightarrow>
        let s2 = svc_upd n (bury_service now) s1 in
        if crash_loops (bury_service now st) then (True, slow_retry E n s2) else (False, s2))"

definition retry_crashlooping :: "launch_env \<Rightarrow> settings \<Rightarrow> string \<Rightarrow> service \<Rightarrow> 'z launcher_scheme \<Rightarrow> 'z launcher_scheme" where
  "retry_crashlooping E cfg n st s =
     (if sv_popen st \<noteq> None then s
      else case monotonic E s of (t, s1) \<Rightarrow>
        if t < sv_next_retry st then s1
        else
          let s2 = start_and_wait E cfg n (sv_spec st) (svc_upd n (\<lambda>st. st\<lparr>sv_recent_deaths := []\<rparr>) s1)
          in if map_option sv_status (svc_get s2 n) = Some SV_RUNNING then s2 else slow_retry E n s2)"

definition retry_failed :: "launch_env \<Rightarrow> settings \<Rightarrow> string \<Rightarrow> service \<Rightarrow> 'z launcher_scheme \<Rightarrow> 'z launcher_scheme" where
  "retry_failed E cfg n st s =
     (if sv_status st \<noteq> SV_FAILED then s
      else case monotonic E s of (t, s1) \<Rightarrow>
        if t < sv_next_retry st then s1
        else case register_death E n st s1 of
          (True, s2) \<Rightarrow> s2
        | (False, s2) \<Rightarrow> start_and_wait E cfg n (sv_spec st) s2)"

definition note_alive :: "launch_env \<Rightarrow> string \<Rightarrow> service \<Rightarrow> 'z launcher_scheme \<Rightarrow> 'z launcher_scheme" where
  "note_alive E n st s =
     (if sv_backoff st = BACKOFF_FIRST then s
      else case monotonic E s of (t, s1) \<Rightarrow>
        if t - sv_started_at st > HEALTHY_RESET_S then svc_upd n (\<lambda>st. st\<lparr>sv_backoff := BACKOFF_FIRST\<rparr>) s1 else s1)"

definition note_dead :: "launch_env \<Rightarrow> string \<Rightarrow> service \<Rightarrow> 'z launcher_scheme \<Rightarrow> 'z launcher_scheme" where
  "note_dead E n st s =
     (case register_death E n st (svc_upd n (\<lambda>st. st\<lparr>sv_popen := None\<rparr>) s) of
        (True, s1) \<Rightarrow> s1
      | (False, s1) \<Rightarrow>
          (case monotonic E s1 of (t, s2) \<Rightarrow>
             svc_upd n (\<lambda>st. st\<lparr>sv_status := SV_FAILED, sv_next_retry := t + sv_backoff st,
                                sv_backoff := min (sv_backoff st * 2) BACKOFF_LIMIT\<rparr>) s2))"

definition monitor_one :: "launch_env \<Rightarrow> settings \<Rightarrow> string \<Rightarrow> 'z launcher_scheme \<Rightarrow> 'z launcher_scheme" where
  "monitor_one E cfg n s =
     (case svc_get s n of
        None \<Rightarrow> s
      | Some st \<Rightarrow>
          if \<not> sv_desired st \<or> sv_status st = SV_DISABLED then s
          else if sv_status st = SV_CRASHLOOPING then retry_crashlooping E cfg n st s
          else case sv_popen st of
            None \<Rightarrow> retry_failed E cfg n st s
          | Some pid \<Rightarrow>
              (case inquire (\<lambda>k. le_exited E k pid) s of
                 (False, s1) \<Rightarrow> note_alive E n st s1
               | (True, s1) \<Rightarrow> note_dead E n st s1))"

text \<open>One pass of \<open>monitor_forever\<close>, and any number of them.\<close>

definition monitor_pass :: "launch_env \<Rightarrow> settings \<Rightarrow> 'z launcher_scheme \<Rightarrow> 'z launcher_scheme" where
  "monitor_pass E cfg s =
     (if lc_stop s then s else fold (monitor_one E cfg) (map fst (lc_services s)) (elapse E 2 s))"

definition monitor_passes :: "launch_env \<Rightarrow> settings \<Rightarrow> nat \<Rightarrow> 'z launcher_scheme \<Rightarrow> 'z launcher_scheme" where
  "monitor_passes E cfg k s = (monitor_pass E cfg ^^ k) s"

definition launcher_shutdown :: "launch_env \<Rightarrow> ('z launcher_scheme, unit) act" where
  "launcher_shutdown E s = stop_all E False (s\<lparr>lc_stop := True\<rparr>)"

end
