(* ===== verification/LauncherSteps.thy ===== *)
theory LauncherSteps
  imports Launcher
begin

text \<open>
  The steps of the Windows launcher's supervisor. An operation on one service leaves every other
  service alone (\<open>only_touches\<close>) and keeps its entry well formed (\<open>svc_ok\<close>); the locale \<open>service_loop\<close>
  states this contract of a loop body and is interpreted on the three loops of the supervisor, and once
  more on the monitor with the property of being down on purpose.
\<close>

section \<open>What an operation on one service changes\<close>

definition only_touches :: "string \<Rightarrow> 'z launcher_scheme \<Rightarrow> 'z launcher_scheme \<Rightarrow> bool" where
  "only_touches n s s' \<longleftrightarrow>
     map fst (lc_services s') = map fst (lc_services s)
     \<and> (\<forall>m. m \<noteq> n \<longrightarrow> svc_get s' m = svc_get s m)
     \<and> map_option sv_spec (svc_get s' n) = map_option sv_spec (svc_get s n)
     \<and> lc_clock s \<le> lc_clock s' \<and> lc_stop s' = lc_stop s \<and> in_current s' = in_current s \<and> in_trees s' = in_trees s
     \<and> launcher.more s' = launcher.more s"

lemma only_touches_refl [simp]: "only_touches n s s"
  by (simp add: only_touches_def)

lemma only_touches_trans: "only_touches n s s1 \<Longrightarrow> only_touches n s1 s2 \<Longrightarrow> only_touches n s s2"
  unfolding only_touches_def by (auto intro: order_trans)

lemma svc_get_upd: "svc_get (svc_upd n f s) m = (if m = n then map_option f (svc_get s n) else svc_get s m)"
proof -
  have "map_of (map (\<lambda>(k, st). (k, if k = n then f st else st)) xs) m = (if m = n then map_option f (map_of xs n) else map_of xs m)" for xs
    by (induction xs) auto
  then show ?thesis by (simp add: svc_get_def svc_upd_def)
qed

lemma upd_touches: "(\<And>st. sv_spec (f st) = sv_spec st) \<Longrightarrow> only_touches n s (svc_upd n f s)"
  by (cases "svc_get s n") (auto simp: only_touches_def svc_get_upd, simp_all add: svc_upd_def split_def comp_def)

text \<open>Asking, waiting and acting on the outside change no service.\<close>

definition same_services :: "'z launcher_scheme \<Rightarrow> 'z launcher_scheme \<Rightarrow> bool" where
  "same_services s s' \<longleftrightarrow> lc_services s' = lc_services s \<and> lc_clock s \<le> lc_clock s' \<and> lc_stop s' = lc_stop s
     \<and> in_current s' = in_current s \<and> in_trees s' = in_trees s \<and> launcher.more s' = launcher.more s"

lemma same_services_refl [simp]: "same_services s s"
  by (simp add: same_services_def)

lemma same_services_trans: "same_services s s1 \<Longrightarrow> same_services s1 s2 \<Longrightarrow> same_services s s2"
  unfolding same_services_def by auto

lemma same_touches: "same_services s s' \<Longrightarrow> only_touches n s s'"
  by (simp add: same_services_def only_touches_def svc_get_def)

lemma same_get: "same_services s s' \<Longrightarrow> svc_get s' n = svc_get s n"
  by (simp add: same_services_def svc_get_def)

lemma same_clock: "same_services s s' \<Longrightarrow> lc_clock s \<le> lc_clock s'"
  by (simp add: same_services_def)

lemma same_inquire: "inquire f s = (a, s') \<Longrightarrow> same_services s s'"
  by (auto simp: inquire_def same_services_def)

lemma same_elapse: "0 \<le> d \<Longrightarrow> same_services s (elapse E d s)"
  by (auto simp: elapse_def same_services_def)

lemma same_monotonic: "monotonic E s = (t, s') \<Longrightarrow> same_services s s' \<and> t = lc_clock s'"
  by (auto simp: monotonic_def Let_def same_elapse)

lemma same_happened [simp]: "same_services s (happened e s)"
  by (simp add: happened_def same_services_def)

lemma same_stop_set: "stop_set E s = (b, s') \<Longrightarrow> same_services s s'"
  by (auto simp: stop_set_def split: prod.splits dest: same_inquire)

lemma same_await_ready: "await_ready E n pid d s = (b, s') \<Longrightarrow> same_services s s'"
proof (induction E n pid d s arbitrary: b s' rule: await_ready.induct)
  case (1 E n pid deadline s)
  show ?case
  proof -
    obtain t s1 where m: "monotonic E s = (t, s1)" by (rule prod.exhaust)
    obtain h s2 where h: "stop_set E s1 = (h, s2)" by (rule prod.exhaust)
    obtain x s3 where x: "inquire (\<lambda>k. le_exited E k pid) s2 = (x, s3)" by (rule prod.exhaust)
    obtain r s4 where r: "inquire (\<lambda>k. le_ready E k n) s3 = (r, s4)" by (rule prod.exhaust)
    note s = same_monotonic [OF m] same_stop_set [OF h] same_inquire [OF x] same_inquire [OF r] same_elapse [of 1 s4 E]
    have a1: "same_services s s1" using s(1) by simp
    note a2 = same_services_trans [OF a1 s(2)]
    note a3 = same_services_trans [OF a2 s(3)]
    note a4 = same_services_trans [OF a3 s(4)]
    have a5: "same_services s (elapse E 1 s4)" using a4 s(5) by (simp add: same_services_trans)
    note all = a1 a2 a3 a4 a5
    show ?thesis
    proof (cases "t < deadline \<and> \<not> h \<and> \<not> x \<and> \<not> r")
      case True
      have rec: "await_ready E n pid deadline (elapse E 1 s4) = (b, s')"
        using "1.prems" True by (subst (asm) await_ready.simps) (simp add: m h x r)
      have "same_services (elapse E 1 s4) s'"
        by (rule "1.IH" [OF m [symmetric] _ h [symmetric] _ x [symmetric] _ r [symmetric] _ rec])
          (use True in auto)
      then show ?thesis using all(5) by (rule same_services_trans [rotated])
    next
      case False
      then have "s' \<in> {s1, s2, s3, s4}"
        using "1.prems" by (subst (asm) await_ready.simps) (auto simp: m h x r split: if_splits bool.splits)
      then show ?thesis using all by auto
    qed
  qed
qed

lemma same_pass_gate: "pass_gate E n sp pid s = (b, s') \<Longrightarrow> same_services s s'"
proof -
  assume g: "pass_gate E n sp pid s = (b, s')"
  show ?thesis
  proof (cases "sp_ready sp")
    case True
    obtain t s1 where m: "monotonic E s = (t, s1)" by (rule prod.exhaust)
    obtain w s2 where w: "await_ready E n pid (t + READY_TIMEOUT_S) s1 = (w, s2)" by (rule prod.exhaust)
    obtain x s3 where x: "inquire (\<lambda>k. le_exited E k pid) s2 = (x, s3)" by (rule prod.exhaust)
    have "same_services s s2"
      using same_monotonic [OF m] same_await_ready [OF w] by (auto intro: same_services_trans)
    moreover from this have "same_services s s3" using same_inquire [OF x] by (rule same_services_trans)
    ultimately show ?thesis using g True by (auto simp: pass_gate_def m w x split: bool.splits)
  qed (use g in \<open>simp add: pass_gate_def\<close>)
qed

text \<open>A spawn ends with a live child, or with the entry marked \<open>failed\<close>.\<close>

lemma svc_spawn_effect:
  assumes "svc_get s n = Some st"
  obtains p t x where "only_touches n s (svc_spawn E cfg n sp s)"
    and "svc_get (svc_spawn E cfg n sp s) n = Some (st\<lparr>sv_popen := p, sv_started_at := t, sv_status := x\<rparr>)"
    and "x = SV_FAILED \<and> (p = sv_popen st \<or> p = None) \<or> x = SV_STARTING \<and> p \<noteq> None"
proof -
  define s1 where "s1 = svc_upd n (\<lambda>st. st\<lparr>sv_status := SV_STARTING\<rparr>) s"
  obtain b s2 where b: "(if sp_pre_start sp then inquire (\<lambda>k. le_pre_start E k n) s1 else (True, s1)) = (b, s2)"
    by (rule prod.exhaust)
  obtain r s3 where r: "inquire (\<lambda>k. le_popen E k (sp_cmd sp)) s2 = (r, s3)" by (rule prod.exhaust)
  have t1: "only_touches n s s1" unfolding s1_def by (rule upd_touches) simp
  have g1: "svc_get s1 n = Some (st\<lparr>sv_status := SV_STARTING\<rparr>)" using assms by (simp add: s1_def svc_get_upd)
  have s12: "same_services s1 s2" using b by (auto split: if_splits dest: same_inquire)
  have s23: "same_services s2 s3" by (rule same_inquire [OF r])
  have g2: "svc_get s2 n = Some (st\<lparr>sv_status := SV_STARTING\<rparr>)" and t2: "only_touches n s s2"
    using g1 same_get [OF s12, of n] only_touches_trans [OF t1 same_touches [OF s12]] by simp_all
  have g3: "svc_get s3 n = Some (st\<lparr>sv_status := SV_STARTING\<rparr>)" and t3: "only_touches n s s3"
    using g2 same_get [OF s23, of n] only_touches_trans [OF t2 same_touches [OF s23]] by simp_all
  show thesis
  proof (cases b)
    case False
    have e: "svc_spawn E cfg n sp s = svc_upd n (\<lambda>st. st\<lparr>sv_status := SV_FAILED\<rparr>) s2"
      using False by (simp add: svc_spawn_def Let_def s1_def [symmetric] b)
    show thesis
    proof (rule that [where p = "sv_popen st" and t = "sv_started_at st" and x = SV_FAILED])
      show "only_touches n s (svc_spawn E cfg n sp s)"
        unfolding e by (rule only_touches_trans [OF t2 upd_touches]) simp
    qed (simp_all add: e svc_get_upd g2)
  next
    case True
    show thesis
    proof (cases r)
      case None
      have e: "svc_spawn E cfg n sp s = svc_upd n (\<lambda>st. st\<lparr>sv_popen := None, sv_status := SV_FAILED\<rparr>) s3"
        using True None by (simp add: svc_spawn_def Let_def s1_def [symmetric] b r)
      show thesis
      proof (rule that [where p = None and t = "sv_started_at st" and x = SV_FAILED])
        show "only_touches n s (svc_spawn E cfg n sp s)"
          unfolding e by (rule only_touches_trans [OF t3 upd_touches]) simp
      qed (simp_all add: e svc_get_upd g3)
    next
      case (Some pid)
      define s3' where "s3' = happened (Spawned n pid (sp_cmd sp) (sp_cwd sp) (child_env E cfg sp s3)) s3"
      obtain t s4 where m: "monotonic E s3' = (t, s4)" by (rule prod.exhaust)
      have "same_services s3 s3'" by (simp add: s3'_def)
      then have s34: "same_services s3 s4" using same_monotonic [OF m] by (blast intro: same_services_trans)
      have g4: "svc_get s4 n = Some (st\<lparr>sv_status := SV_STARTING\<rparr>)" and t4: "only_touches n s s4"
        using g3 same_get [OF s34, of n] only_touches_trans [OF t3 same_touches [OF s34]] by simp_all
      have e: "svc_spawn E cfg n sp s = svc_upd n (\<lambda>st. st\<lparr>sv_popen := Some pid, sv_started_at := t\<rparr>) s4"
        using True Some by (simp add: svc_spawn_def Let_def s1_def [symmetric] b r s3'_def [symmetric] m)
      show thesis
      proof (rule that [where p = "Some pid" and t = t and x = SV_STARTING])
        show "only_touches n s (svc_spawn E cfg n sp s)"
          unfolding e by (rule only_touches_trans [OF t4 upd_touches]) simp
      qed (simp_all add: e svc_get_upd g4)
    qed
  qed
qed

lemma status_distinct [simp]:
  "SV_FAILED \<noteq> SV_RUNNING" "SV_RUNNING \<noteq> SV_FAILED" "SV_STARTING \<noteq> SV_RUNNING" "SV_STARTING \<noteq> SV_FAILED"
  "SV_CRASHLOOPING \<noteq> SV_RUNNING" "SV_CRASHLOOPING \<noteq> SV_FAILED" "SV_FAILED \<noteq> SV_CRASHLOOPING" "SV_RUNNING \<noteq> SV_CRASHLOOPING"
  "SV_STOPPED \<noteq> SV_CRASHLOOPING" "SV_STOPPED \<noteq> SV_RUNNING" "SV_STOPPED \<noteq> SV_FAILED" "SV_DISABLED \<noteq> SV_RUNNING"
  "SV_STARTING \<noteq> SV_CRASHLOOPING" "SV_DISABLED \<noteq> SV_CRASHLOOPING" "SV_CRASHLOOPING \<noteq> SV_DISABLED" "SV_FAILED \<noteq> SV_DISABLED"
  "SV_FAILED \<noteq> SV_STOPPED" "SV_RUNNING \<noteq> SV_STOPPED" "SV_CRASHLOOPING \<noteq> SV_STOPPED" "SV_DISABLED \<noteq> SV_STOPPED"
  by (simp_all add: SV_FAILED_def SV_RUNNING_def SV_STARTING_def SV_CRASHLOOPING_def SV_STOPPED_def SV_DISABLED_def)

text \<open>Starting and waiting: the entry ends \<open>running\<close> with a child, or \<open>failed\<close>.\<close>

lemma start_and_wait_effect:
  assumes "svc_get s n = Some st"
  obtains p t x where "only_touches n s (start_and_wait E cfg n sp s)"
    and "svc_get (start_and_wait E cfg n sp s) n = Some (st\<lparr>sv_popen := p, sv_started_at := t, sv_status := x\<rparr>)"
    and "x = SV_FAILED \<or> x = SV_RUNNING \<and> p \<noteq> None"
proof -
  obtain p t x where sp: "only_touches n s (svc_spawn E cfg n sp s)"
    "svc_get (svc_spawn E cfg n sp s) n = Some (st\<lparr>sv_popen := p, sv_started_at := t, sv_status := x\<rparr>)"
    "x = SV_FAILED \<and> (p = sv_popen st \<or> p = None) \<or> x = SV_STARTING \<and> p \<noteq> None"
    by (rule svc_spawn_effect [OF assms])
  define s1 where "s1 = svc_spawn E cfg n sp s"
  show thesis
  proof (cases p)
    case None
    have "start_and_wait E cfg n sp s = s1"
      using sp(2) None by (simp add: start_and_wait_def s1_def)
    then show thesis using that [where p = p and t = t and x = x] sp None by (auto simp: s1_def)
  next
    case (Some pid)
    obtain b s2 where b: "pass_gate E n sp pid s1 = (b, s2)" by (rule prod.exhaust)
    obtain c s3 where c: "(if sp_post_ready sp then inquire (\<lambda>k. le_post_ready E k n) s2 else (True, s2)) = (c, s3)"
      by (rule prod.exhaust)
    have s12: "same_services s1 s2" by (rule same_pass_gate [OF b])
    have s23: "same_services s2 s3" using c by (auto split: if_splits dest: same_inquire)
    have s13: "same_services s1 s3" by (rule same_services_trans [OF s12 s23])
    have e: "start_and_wait E cfg n sp s = (if b then if c then set_status n SV_RUNNING s3 else set_status n SV_FAILED s3
        else set_status n SV_FAILED s2)"
      using sp(2) Some by (simp add: start_and_wait_def s1_def [symmetric] b c split: bool.splits)
    have fin: "only_touches n s (set_status n y s') \<and>
      svc_get (set_status n y s') n = Some (st\<lparr>sv_popen := p, sv_started_at := t, sv_status := y\<rparr>)"
      if "same_services s1 s'" for y s'
      using only_touches_trans [OF only_touches_trans [OF sp(1) same_touches [OF that [unfolded s1_def]]] upd_touches]
        same_get [OF that, of n] sp(2)
      by (simp add: set_status_def svc_get_upd s1_def)
    have "\<exists>y s'. start_and_wait E cfg n sp s = set_status n y s' \<and> same_services s1 s' \<and> (y = SV_FAILED \<or> y = SV_RUNNING)"
      unfolding e using s12 s13 by (cases b; cases c) auto
    then obtain y s' where y: "start_and_wait E cfg n sp s = set_status n y s'" "same_services s1 s'"
      "y = SV_FAILED \<or> y = SV_RUNNING" by blast
    show thesis
    proof (rule that [where p = p and t = t and x = y])
      show "only_touches n s (start_and_wait E cfg n sp s)" unfolding y(1) using fin [OF y(2), of y] by simp
      show "svc_get (start_and_wait E cfg n sp s) n = Some (st\<lparr>sv_popen := p, sv_started_at := t, sv_status := y\<rparr>)"
        unfolding y(1) using fin [OF y(2), of y] by simp
      show "y = SV_FAILED \<or> y = SV_RUNNING \<and> p \<noteq> None" using y(3) Some by auto
    qed
  qed
qed

section \<open>Well-formed service entries\<close>

definition SERVICE_STATES :: "string list" where
  "SERVICE_STATES = [SV_STOPPED, SV_STARTING, SV_RUNNING, SV_FAILED, SV_CRASHLOOPING, SV_DISABLED]"

definition svc_ok :: "rat \<Rightarrow> service \<Rightarrow> bool" where
  "svc_ok c st \<longleftrightarrow>
     BACKOFF_FIRST \<le> sv_backoff st \<and> sv_backoff st \<le> BACKOFF_LIMIT \<and> 0 \<le> sv_restart_count st
     \<and> (\<forall>d \<in> set (sv_recent_deaths st). d \<le> c) \<and> sorted (sv_recent_deaths st)
     \<and> length (sv_recent_deaths st) \<le> CRASHLOOP_LIMIT + 1
     \<and> (sv_desired st \<and> sv_status st \<notin> {SV_CRASHLOOPING, SV_STOPPED} \<longrightarrow> length (sv_recent_deaths st) \<le> CRASHLOOP_LIMIT)
     \<and> sv_status st \<in> set SERVICE_STATES \<and> (sv_status st = SV_RUNNING \<longrightarrow> sv_popen st \<noteq> None)
     \<and> (sv_status st = SV_STOPPED \<longrightarrow> sv_popen st = None)
     \<and> sv_next_retry st \<le> c + CRASHLOOP_RETRY_S"

definition sup_ok :: "'z launcher_scheme \<Rightarrow> bool" where
  "sup_ok s \<longleftrightarrow> distinct (map fst (lc_services s)) \<and> (\<forall>n st. svc_get s n = Some st \<longrightarrow> svc_ok (lc_clock s) st)"

lemma svc_ok_later: "svc_ok c st \<Longrightarrow> c \<le> c' \<Longrightarrow> svc_ok c' st"
  by (auto simp: svc_ok_def intro: order_trans)

lemma states_simps [simp]:
  "SV_STOPPED \<in> set SERVICE_STATES" "SV_STARTING \<in> set SERVICE_STATES" "SV_RUNNING \<in> set SERVICE_STATES"
  "SV_FAILED \<in> set SERVICE_STATES" "SV_CRASHLOOPING \<in> set SERVICE_STATES" "SV_DISABLED \<in> set SERVICE_STATES"
  by (simp_all add: SERVICE_STATES_def)

lemma svc_ok_started:
  assumes "svc_ok c st" and "length (sv_recent_deaths st) \<le> CRASHLOOP_LIMIT" and "c \<le> c'"
    and "x = SV_FAILED \<or> x = SV_RUNNING \<and> p \<noteq> None"
  shows "svc_ok c' (st\<lparr>sv_popen := p, sv_started_at := t, sv_status := x\<rparr>)"
  using svc_ok_later [OF assms(1,3)] assms(2,4) by (auto simp: svc_ok_def)

lemma svc_ok_bury:
  assumes "svc_ok c st" and "length (sv_recent_deaths st) \<le> CRASHLOOP_LIMIT" and "c \<le> now" and "now \<le> c'"
  shows "\<not> crash_loops (bury_service now st) \<Longrightarrow> svc_ok c' (bury_service now st)"
    and "t \<le> c' \<Longrightarrow> svc_ok c' ((bury_service now st)\<lparr>sv_status := SV_CRASHLOOPING, sv_next_retry := t + CRASHLOOP_RETRY_S\<rparr>)"
proof -
  let ?D = "filter (\<lambda>t. now - t < CRASHLOOP_WINDOW_S) (sv_recent_deaths st) @ [now]"
  have before: "d \<le> now" if "d \<in> set (sv_recent_deaths st)" for d
    using assms(1,3) that by (auto simp: svc_ok_def)
  have D: "sorted ?D" "length ?D \<le> CRASHLOOP_LIMIT + 1" "\<forall>d \<in> set ?D. d \<le> c'"
  proof -
    have "sorted (sv_recent_deaths st)" using assms(1) by (simp add: svc_ok_def)
    then show "sorted ?D" using before by (auto simp: sorted_append intro: sorted_filter [where f = id, simplified])
    show "length ?D \<le> CRASHLOOP_LIMIT + 1"
      using le_trans [OF length_filter_le assms(2)] by simp
    show "\<forall>d \<in> set ?D. d \<le> c'" using before assms(4) by (auto intro: order_trans)
  qed
  have st: "svc_ok c' st" using assms by (blast intro: svc_ok_later order_trans)
  show "\<not> crash_loops (bury_service now st) \<Longrightarrow> svc_ok c' (bury_service now st)"
    using st D assms(2) by (auto simp: svc_ok_def bury_service_def crash_loops_def)
  show "t \<le> c' \<Longrightarrow> svc_ok c' ((bury_service now st)\<lparr>sv_status := SV_CRASHLOOPING, sv_next_retry := t + CRASHLOOP_RETRY_S\<rparr>)"
    using st D by (auto simp: svc_ok_def bury_service_def)
qed

section \<open>The monitor step by step\<close>

lemma slow_retry_effect:
  assumes "svc_get s n = Some st"
  shows "only_touches n s (slow_retry E n s)"
    and "svc_get (slow_retry E n s) n
      = Some (st\<lparr>sv_status := SV_CRASHLOOPING, sv_next_retry := lc_clock (slow_retry E n s) + CRASHLOOP_RETRY_S\<rparr>)"
proof -
  obtain t s1 where m: "monotonic E s = (t, s1)" by (rule prod.exhaust)
  note c = same_monotonic [OF m]
  have e: "slow_retry E n s = svc_upd n (\<lambda>st. st\<lparr>sv_status := SV_CRASHLOOPING, sv_next_retry := t + CRASHLOOP_RETRY_S\<rparr>) s1"
    by (simp add: slow_retry_def m)
  show "only_touches n s (slow_retry E n s)"
    unfolding e by (rule only_touches_trans [OF same_touches upd_touches]) (use c in auto)
  have "lc_clock (slow_retry E n s) = t" using c by (simp add: e svc_upd_def)
  then show "svc_get (slow_retry E n s) n
      = Some (st\<lparr>sv_status := SV_CRASHLOOPING, sv_next_retry := lc_clock (slow_retry E n s) + CRASHLOOP_RETRY_S\<rparr>)"
    using c assms same_get [of s s1 n] by (simp add: e svc_get_upd)
qed

text \<open>The entry after a death was registered.\<close>

definition buried :: "bool \<Rightarrow> rat \<Rightarrow> rat \<Rightarrow> service \<Rightarrow> service" where
  "buried b now t st =
     (if b then (bury_service now st)\<lparr>sv_status := SV_CRASHLOOPING, sv_next_retry := t + CRASHLOOP_RETRY_S\<rparr>
      else bury_service now st)"

lemma register_death_effect:
  assumes "svc_get s n = Some st1" and "sv_recent_deaths st1 = sv_recent_deaths st"
  obtains b s' now where "register_death E n st s = (b, s')" and "only_touches n s s'"
    and "lc_clock s \<le> now" and "now \<le> lc_clock s'" and "b = crash_loops (bury_service now st1)"
    and "svc_get s' n = Some (buried b now (lc_clock s') st1)"
proof -
  obtain now s1 where m: "monotonic E s = (now, s1)" by (rule prod.exhaust)
  note c = same_monotonic [OF m]
  define s2 where "s2 = svc_upd n (bury_service now) s1"
  have g2: "svc_get s2 n = Some (bury_service now st1)"
    using c assms(1) same_get [of s s1 n] by (simp add: s2_def svc_get_upd)
  have t2: "only_touches n s s2"
    unfolding s2_def by (rule only_touches_trans [OF same_touches upd_touches]) (use c in \<open>auto simp: bury_service_def\<close>)
  have c2: "lc_clock s2 = now" using c by (simp add: s2_def svc_upd_def)
  have b: "crash_loops (bury_service now st) = crash_loops (bury_service now st1)"
    using assms(2) by (simp add: crash_loops_def bury_service_def)
  show thesis
  proof (cases "crash_loops (bury_service now st1)")
    case True
    show thesis
    proof (rule that [of True "slow_retry E n s2" now])
      show "register_death E n st s = (True, slow_retry E n s2)"
        using True b by (simp add: register_death_def m s2_def Let_def)
      show "only_touches n s (slow_retry E n s2)"
        by (rule only_touches_trans [OF t2 slow_retry_effect(1) [OF g2]])
      show "now \<le> lc_clock (slow_retry E n s2)"
        using slow_retry_effect(1) [OF g2, of E] c2 by (simp add: only_touches_def)
      show "svc_get (slow_retry E n s2) n = Some (buried True now (lc_clock (slow_retry E n s2)) st1)"
        using slow_retry_effect(2) [OF g2, of E] by (simp add: buried_def)
    qed (use c True same_clock [of s s1] in auto)
  next
    case False
    show thesis
      by (rule that [of False s2 now])
        (use False b c same_clock [of s s1] t2 c2 g2 in \<open>auto simp: register_death_def m s2_def Let_def buried_def\<close>)
  qed
qed

definition step_ok :: "string \<Rightarrow> 'z launcher_scheme \<Rightarrow> 'z launcher_scheme \<Rightarrow> bool" where
  "step_ok n s s' \<longleftrightarrow> only_touches n s s' \<and>
     (\<forall>st. svc_get s n = Some st \<longrightarrow> svc_ok (lc_clock s) st \<longrightarrow> (\<exists>st'. svc_get s' n = Some st' \<and> svc_ok (lc_clock s') st'))"

lemma step_okI:
  assumes "only_touches n s s'" and "svc_get s n = Some st" and "svc_get s' n = Some st'"
    and "svc_ok (lc_clock s) st \<Longrightarrow> svc_ok (lc_clock s') st'"
  shows "step_ok n s s'"
  using assms by (simp add: step_ok_def)

lemma same_step_ok: "same_services s s' \<Longrightarrow> step_ok n s s'"
  by (auto simp: step_ok_def same_touches same_get same_services_def intro: svc_ok_later)

lemma touches_clock: "only_touches n s s' \<Longrightarrow> lc_clock s \<le> lc_clock s'"
  by (simp add: only_touches_def)

lemma touches_some:
  "only_touches n s s' \<Longrightarrow> svc_get s' m = Some st' \<Longrightarrow> \<exists>st. svc_get s m = Some st \<and> sv_spec st' = sv_spec st"
  by (cases "m = n"; cases "svc_get s n") (auto simp: only_touches_def)

lemma clock_upd [simp]: "lc_clock (svc_upd n f s) = lc_clock s"
  by (simp add: svc_upd_def)

lemma retry_crashlooping_step:
  assumes "svc_get s n = Some st"
  shows "step_ok n s (retry_crashlooping E cfg n st s)"
proof (cases "sv_popen st")
  case None
  obtain t s1 where m: "monotonic E s = (t, s1)" by (rule prod.exhaust)
  note c = same_monotonic [OF m]
  show ?thesis
  proof (cases "t < sv_next_retry st")
    case True
    then show ?thesis using None c by (simp add: retry_crashlooping_def m same_step_ok)
  next
    case False
    define u where "u = svc_upd n (\<lambda>st. st\<lparr>sv_recent_deaths := []\<rparr>) s1"
    have gu: "svc_get u n = Some (st\<lparr>sv_recent_deaths := []\<rparr>)"
      using assms c same_get [of s s1 n] by (simp add: u_def svc_get_upd)
    have tu: "only_touches n s u"
      unfolding u_def by (rule only_touches_trans [OF same_touches upd_touches]) (use c in auto)
    obtain p w x where g2: "only_touches n u (start_and_wait E cfg n (sv_spec st) u)"
      "svc_get (start_and_wait E cfg n (sv_spec st) u) n
         = Some (st\<lparr>sv_recent_deaths := []\<rparr>\<lparr>sv_popen := p, sv_started_at := w, sv_status := x\<rparr>)"
      "x = SV_FAILED \<or> x = SV_RUNNING \<and> p \<noteq> None"
      by (rule start_and_wait_effect [OF gu])
    define v where "v = start_and_wait E cfg n (sv_spec st) u"
    have tv: "only_touches n s v" unfolding v_def by (rule only_touches_trans [OF tu g2(1)])
    have okv: "svc_ok c' (st\<lparr>sv_recent_deaths := [], sv_popen := p, sv_started_at := w, sv_status := x\<rparr>)"
      if "svc_ok (lc_clock s) st" "lc_clock s \<le> c'" for c'
      by (rule svc_ok_started [OF _ _ that(2) g2(3)]) (use that in \<open>auto simp: svc_ok_def\<close>)
    show ?thesis
    proof (cases "x = SV_RUNNING")
      case True
      then have "retry_crashlooping E cfg n st s = v"
        using None False g2(2) by (simp add: retry_crashlooping_def m u_def [symmetric] v_def [symmetric] Let_def)
      then show ?thesis
        using step_okI [OF tv assms g2(2) [folded v_def]] okv [of "lc_clock v"] touches_clock [OF tv] by auto
    next
      case ne: False
      then have e: "retry_crashlooping E cfg n st s = slow_retry E n v"
        using None False g2(2) by (simp add: retry_crashlooping_def m u_def [symmetric] v_def [symmetric] Let_def)
      note sl = slow_retry_effect [OF g2(2) [folded v_def], of E]
      have tw: "only_touches n s (slow_retry E n v)" by (rule only_touches_trans [OF tv sl(1)])
      show ?thesis
        unfolding e
        by (rule step_okI [OF tw assms sl(2)]) (use okv [OF _ touches_clock [OF tw]] in \<open>auto simp: svc_ok_def\<close>)
    qed
  qed
qed (simp add: retry_crashlooping_def same_step_ok)

text \<open>After a death the entry is well formed when it was, and it was wanted.\<close>

lemma buried_ok:
  assumes "svc_ok c st" and "length (sv_recent_deaths st) \<le> CRASHLOOP_LIMIT" and "c \<le> now" and "now \<le> c'"
    and "b = crash_loops (bury_service now st)"
  shows "svc_ok c' (buried b now c' st)"
  using svc_ok_bury(1) [OF assms(1-4)] svc_ok_bury(2) [OF assms(1-4), of c'] assms(5) by (cases b) (simp_all add: buried_def)

lemma retry_failed_step:
  assumes g: "svc_get s n = Some st" and d: "sv_desired st" "sv_status st \<noteq> SV_CRASHLOOPING"
  shows "step_ok n s (retry_failed E cfg n st s)"
proof (cases "sv_status st = SV_FAILED")
  case f: True
  obtain t s1 where m: "monotonic E s = (t, s1)" by (rule prod.exhaust)
  note c = same_monotonic [OF m]
  have g1: "svc_get s1 n = Some st" using g c same_get [of s s1 n] by simp
  have t1: "only_touches n s s1" using c same_touches by blast
  show ?thesis
  proof (cases "t < sv_next_retry st")
    case True
    then show ?thesis using f c by (simp add: retry_failed_def m same_step_ok)
  next
    case False
    obtain b s2 now where r: "register_death E n st s1 = (b, s2)" "only_touches n s1 s2" "lc_clock s1 \<le> now" "now \<le> lc_clock s2"
      "b = crash_loops (bury_service now st)" "svc_get s2 n = Some (buried b now (lc_clock s2) st)"
      by (rule register_death_effect [OF g1 refl])
    have t2: "only_touches n s s2" by (rule only_touches_trans [OF t1 r(2)])
    have ok2: "svc_ok (lc_clock s2) (buried b now (lc_clock s2) st)" if "svc_ok (lc_clock s) st"
      using buried_ok [OF that _ _ r(4,5)] that d f r(3) touches_clock [OF t1] by (auto simp: svc_ok_def)
    show ?thesis
    proof (cases b)
      case True
      then have e: "retry_failed E cfg n st s = s2" using f False r(1) by (simp add: retry_failed_def m)
      show ?thesis unfolding e by (rule step_okI [OF t2 g r(6) ok2])
    next
      case nb: False
      obtain p w x where st: "only_touches n s2 (start_and_wait E cfg n (sv_spec st) s2)"
        "svc_get (start_and_wait E cfg n (sv_spec st) s2) n
          = Some ((buried b now (lc_clock s2) st)\<lparr>sv_popen := p, sv_started_at := w, sv_status := x\<rparr>)"
        "x = SV_FAILED \<or> x = SV_RUNNING \<and> p \<noteq> None"
        by (rule start_and_wait_effect [OF r(6)])
      have e: "retry_failed E cfg n st s = start_and_wait E cfg n (sv_spec st) s2"
        using f False nb r(1) by (simp add: retry_failed_def m)
      have short: "length (sv_recent_deaths (buried b now (lc_clock s2) st)) \<le> CRASHLOOP_LIMIT"
        using nb r(5) by (simp add: buried_def crash_loops_def)
      show ?thesis
        unfolding e
        by (rule step_okI [OF only_touches_trans [OF t2 st(1)] g st(2)])
          (rule svc_ok_started [OF ok2 short touches_clock [OF st(1)] st(3)])
    qed
  qed
qed (simp add: retry_failed_def same_step_ok)

lemma note_alive_step:
  assumes g: "svc_get s n = Some st"
  shows "step_ok n s (note_alive E n st s)"
proof (cases "sv_backoff st = BACKOFF_FIRST")
  case False
  obtain t s1 where m: "monotonic E s = (t, s1)" by (rule prod.exhaust)
  note c = same_monotonic [OF m]
  let ?u = "svc_upd n (\<lambda>st. st\<lparr>sv_backoff := BACKOFF_FIRST\<rparr>) s1"
  have tu: "only_touches n s ?u" by (rule only_touches_trans [OF same_touches upd_touches]) (use c in auto)
  have gu: "svc_get ?u n = Some (st\<lparr>sv_backoff := BACKOFF_FIRST\<rparr>)" using g c same_get [of s s1 n] by (simp add: svc_get_upd)
  have "step_ok n s ?u"
  proof (rule step_okI [OF tu g gu])
    assume "svc_ok (lc_clock s) st"
    from svc_ok_later [OF this touches_clock [OF tu]]
    show "svc_ok (lc_clock ?u) (st\<lparr>sv_backoff := BACKOFF_FIRST\<rparr>)" by (auto simp: svc_ok_def BACKOFF_FIRST_def BACKOFF_LIMIT_def)
  qed
  moreover have "step_ok n s s1" using c same_step_ok by blast
  ultimately show ?thesis using False by (simp add: note_alive_def m)
qed (simp add: note_alive_def same_step_ok)

lemma note_dead_step:
  assumes g: "svc_get s n = Some st" and d: "sv_desired st" "sv_status st \<noteq> SV_CRASHLOOPING" "sv_popen st \<noteq> None"
  shows "step_ok n s (note_dead E n st s)"
proof -
  let ?u = "svc_upd n (\<lambda>st. st\<lparr>sv_popen := None\<rparr>) s"
  have gu: "svc_get ?u n = Some (st\<lparr>sv_popen := None\<rparr>)" using g by (simp add: svc_get_upd)
  have tu: "only_touches n s ?u" by (rule upd_touches) simp
  obtain b s1 now where r: "register_death E n st ?u = (b, s1)" "only_touches n ?u s1" "lc_clock ?u \<le> now" "now \<le> lc_clock s1"
    "b = crash_loops (bury_service now (st\<lparr>sv_popen := None\<rparr>))" "svc_get s1 n = Some (buried b now (lc_clock s1) (st\<lparr>sv_popen := None\<rparr>))"
    by (rule register_death_effect [OF gu, of st]) simp_all
  have t1: "only_touches n s s1" by (rule only_touches_trans [OF tu r(2)])
  have len: "length (sv_recent_deaths st) \<le> CRASHLOOP_LIMIT" if "svc_ok (lc_clock s) st" using that d by (auto simp: svc_ok_def)
  show ?thesis
  proof (cases b)
    case True
    then have e: "note_dead E n st s = s1" using r(1) by (simp add: note_dead_def)
    show ?thesis
      unfolding e
    proof (rule step_okI [OF t1 g r(6)])
      assume ok: "svc_ok (lc_clock s) st"
      have "svc_ok (lc_clock s1) (buried True now (lc_clock s1) st)"
        using svc_ok_bury(2) [OF ok len [OF ok] _ r(4), of "lc_clock s1"] r(3) by (simp add: buried_def)
      then show "svc_ok (lc_clock s1) (buried b now (lc_clock s1) (st\<lparr>sv_popen := None\<rparr>))"
        using True by (simp add: svc_ok_def buried_def bury_service_def)
    qed
  next
    case False
    obtain t s2 where m: "monotonic E s1 = (t, s2)" by (rule prod.exhaust)
    note c = same_monotonic [OF m]
    define f where "f = (\<lambda>st :: service. st\<lparr>sv_status := SV_FAILED, sv_next_retry := t + sv_backoff st,
      sv_backoff := min (sv_backoff st * 2) BACKOFF_LIMIT\<rparr>)"
    have e: "note_dead E n st s = svc_upd n f s2"
      using False r(1) by (simp add: note_dead_def m f_def)
    have g2: "svc_get s2 n = Some (buried b now (lc_clock s1) (st\<lparr>sv_popen := None\<rparr>))" using r(6) c same_get [of s1 s2 n] by simp
    have gf: "svc_get (svc_upd n f s2) n = Some (f (buried b now (lc_clock s1) (st\<lparr>sv_popen := None\<rparr>)))"
      by (simp add: svc_get_upd g2)
    have tf: "only_touches n s (svc_upd n f s2)"
      by (rule only_touches_trans [OF only_touches_trans [OF t1 same_touches] upd_touches]) (use c in \<open>auto simp: f_def\<close>)
    show ?thesis
      unfolding e
    proof (rule step_okI [OF tf g gf])
      assume ok: "svc_ok (lc_clock s) st"
      have "svc_ok (lc_clock s1) (bury_service now st)"
        by (rule svc_ok_bury(1) [OF ok len [OF ok] _ r(4)])
          (use r(3,5) False in \<open>auto simp: crash_loops_def bury_service_def\<close>)
      from svc_ok_later [OF this, of "lc_clock s2"] c same_clock [of s1 s2]
      have "svc_ok (lc_clock s2) (bury_service now st)" by blast
      moreover have "length (sv_recent_deaths (bury_service now st)) \<le> CRASHLOOP_LIMIT"
        using False r(5) by (simp add: crash_loops_def bury_service_def)
      ultimately show "svc_ok (lc_clock (svc_upd n f s2)) (f (buried b now (lc_clock s1) (st\<lparr>sv_popen := None\<rparr>)))"
        using False c by (auto simp: svc_ok_def buried_def bury_service_def f_def BACKOFF_FIRST_def BACKOFF_LIMIT_def CRASHLOOP_RETRY_S_def)
    qed
  qed
qed

lemma monitor_one_step: "step_ok n s (monitor_one E cfg n s)"
proof (cases "svc_get s n")
  case None
  then show ?thesis by (simp add: monitor_one_def same_step_ok)
next
  case (Some st)
  consider (skip) "\<not> sv_desired st \<or> sv_status st = SV_DISABLED"
    | (loop) "sv_desired st" "sv_status st \<noteq> SV_DISABLED" "sv_status st = SV_CRASHLOOPING"
    | (none) "sv_desired st" "sv_status st \<noteq> SV_DISABLED" "sv_status st \<noteq> SV_CRASHLOOPING" "sv_popen st = None"
    | (live) pid where "sv_desired st" "sv_status st \<noteq> SV_DISABLED" "sv_status st \<noteq> SV_CRASHLOOPING" "sv_popen st = Some pid"
    by blast
  then show ?thesis
  proof cases
    case skip
    then show ?thesis using Some by (auto simp: monitor_one_def same_step_ok)
  next
    case loop
    then show ?thesis using retry_crashlooping_step [OF Some] Some by (simp add: monitor_one_def)
  next
    case none
    then show ?thesis using retry_failed_step [OF Some none(1,3)] Some by (simp add: monitor_one_def)
  next
    case live
    obtain x s1 where x: "inquire (\<lambda>k. le_exited E k pid) s = (x, s1)" by (rule prod.exhaust)
    note c = same_inquire [OF x]
    have g1: "svc_get s1 n = Some st" using Some same_get [OF c, of n] by simp
    have "step_ok n s1 (if x then note_dead E n st s1 else note_alive E n st s1)"
      using note_dead_step [OF g1 live(1,3)] note_alive_step [OF g1] live(4) by simp
    then have "step_ok n s (if x then note_dead E n st s1 else note_alive E n st s1)"
      using same_step_ok [OF c, of n] Some g1 unfolding step_ok_def by (auto intro: only_touches_trans)
    then show ?thesis using live Some by (cases x) (simp_all add: monitor_one_def x)
  qed
qed

lemma svc_start_step:
  assumes g: "svc_get s n = Some st" and f: "only_touches n s u" "svc_get u n = Some v"
    and ok: "svc_ok (lc_clock s) st \<Longrightarrow> svc_ok (lc_clock u) v \<and> length (sv_recent_deaths v) \<le> CRASHLOOP_LIMIT"
  shows "step_ok n s (start_and_wait E cfg n sp u)"
proof -
  obtain p w x where st: "only_touches n u (start_and_wait E cfg n sp u)"
    "svc_get (start_and_wait E cfg n sp u) n = Some (v\<lparr>sv_popen := p, sv_started_at := w, sv_status := x\<rparr>)"
    "x = SV_FAILED \<or> x = SV_RUNNING \<and> p \<noteq> None"
    by (rule start_and_wait_effect [OF f(2)])
  show ?thesis
    by (rule step_okI [OF only_touches_trans [OF f(1) st(1)] g st(2)])
      (rule svc_ok_started [OF conjunct1 [OF ok] conjunct2 [OF ok] touches_clock [OF st(1)] st(3)])
qed

lemma fresh_start_ok: "svc_ok c st \<Longrightarrow> sv_status st \<in> set SERVICE_STATES \<Longrightarrow> svc_ok c (fresh_start st)"
  by (auto simp: svc_ok_def fresh_start_def BACKOFF_FIRST_def BACKOFF_LIMIT_def)

lemma start_app_service_step: "step_ok n s (start_app_service E cfg n s)"
proof (cases "svc_get s n")
  case None
  then show ?thesis by (simp add: start_app_service_def same_step_ok)
next
  case (Some st)
  obtain b s1 where b: "(if sp_optional (sv_spec st) \<and> sp_exists (sv_spec st) then inquire (\<lambda>k. le_exists E k n) s
      else (True, s)) = (b, s1)" by (rule prod.exhaust)
  have c: "same_services s s1" using b by (auto split: if_splits dest: same_inquire)
  have g1: "svc_get s1 n = Some st" using Some same_get [OF c, of n] by simp
  let ?off = "svc_upd n (\<lambda>st. st\<lparr>sv_status := SV_DISABLED, sv_desired := False\<rparr>) s1"
  have off: "step_ok n s ?off"
  proof (rule step_okI [OF only_touches_trans [OF same_touches [OF c] upd_touches] Some])
    show "svc_get ?off n = Some (st\<lparr>sv_status := SV_DISABLED, sv_desired := False\<rparr>)" by (simp add: svc_get_upd g1)
    assume "svc_ok (lc_clock s) st"
    from svc_ok_later [OF this same_clock [OF c]]
    show "svc_ok (lc_clock ?off) (st\<lparr>sv_status := SV_DISABLED, sv_desired := False\<rparr>)" by (auto simp: svc_ok_def)
  qed simp
  have on: "step_ok n s (start_and_wait E cfg n (sv_spec st) (svc_upd n fresh_start s1))"
  proof (rule svc_start_step [OF Some only_touches_trans [OF same_touches [OF c] upd_touches]])
    show "svc_get (svc_upd n fresh_start s1) n = Some (fresh_start st)" by (simp add: svc_get_upd g1)
    assume "svc_ok (lc_clock s) st"
    from svc_ok_later [OF this same_clock [OF c]]
    show "svc_ok (lc_clock (svc_upd n fresh_start s1)) (fresh_start st) \<and> length (sv_recent_deaths (fresh_start st)) \<le> CRASHLOOP_LIMIT"
      using fresh_start_ok [of "lc_clock s1" st] by (auto simp: svc_ok_def fresh_start_def)
  qed (simp add: fresh_start_def)
  show ?thesis
    using off on Some by (auto simp: start_app_service_def b same_step_ok split: bool.splits)
qed

text \<open>At boot no service has died yet.\<close>

lemma start_infra_service_step:
  assumes g: "svc_get s n = Some st" and ok: "svc_ok (lc_clock s) st \<and> sv_recent_deaths st = []"
    and g': "svc_get (start_infra_service E cfg n s) n = Some st'"
  shows "svc_ok (lc_clock (start_infra_service E cfg n s)) st' \<and> sv_recent_deaths st' = []"
proof -
  obtain b s1 where b: "stop_set E s = (b, s1)" by (rule prod.exhaust)
  note c = same_stop_set [OF b]
  have g1: "svc_get s1 n = Some st" using g same_get [OF c, of n] by simp
  obtain p w x where st: "only_touches n s1 (start_and_wait E cfg n (sv_spec st) s1)"
    "svc_get (start_and_wait E cfg n (sv_spec st) s1) n = Some (st\<lparr>sv_popen := p, sv_started_at := w, sv_status := x\<rparr>)"
    "x = SV_FAILED \<or> x = SV_RUNNING \<and> p \<noteq> None"
    by (rule start_and_wait_effect [OF g1])
  have ok1: "svc_ok (lc_clock s1) st" using ok same_clock [OF c] svc_ok_later by blast
  have ok2: "svc_ok (lc_clock (start_and_wait E cfg n (sv_spec st) s1)) (st\<lparr>sv_popen := p, sv_started_at := w, sv_status := x\<rparr>)"
    by (rule svc_ok_started [OF ok1 _ touches_clock [OF st(1)] st(3)]) (use ok in simp)
  show ?thesis
  proof (cases "sp_app_tier (sv_spec st)")
    case True
    then show ?thesis using g g' ok by (simp add: start_infra_service_def)
  next
    case False
    show ?thesis
    proof (cases b)
      case True
      then have "start_infra_service E cfg n s = s1" using g False by (simp add: start_infra_service_def b)
      then show ?thesis using g' g1 ok ok1 by simp
    next
      case nb: False
      then have "start_infra_service E cfg n s = start_and_wait E cfg n (sv_spec st) s1"
        using g False by (simp add: start_infra_service_def b)
      then show ?thesis using g' st(2) ok ok2 by auto
    qed
  qed
qed

lemma start_infra_service_touches: "only_touches n s (start_infra_service E cfg n s)"
proof (cases "svc_get s n")
  case None
  then show ?thesis by (simp add: start_infra_service_def)
next
  case (Some st)
  obtain b s1 where b: "stop_set E s = (b, s1)" by (rule prod.exhaust)
  note c = same_stop_set [OF b]
  have g1: "svc_get s1 n = Some st" using Some same_get [OF c, of n] by simp
  obtain p w x where "only_touches n s1 (start_and_wait E cfg n (sv_spec st) s1)"
    by (rule start_and_wait_effect [OF g1])
  from only_touches_trans [OF same_touches [OF c] this]
  show ?thesis using Some same_touches [OF c] by (simp add: start_infra_service_def b split: bool.splits)
qed

section \<open>Loops over the services\<close>

text \<open>
  The contract of a loop body: it touches one service, and keeps a property of service entries that
  time does not destroy.
\<close>

locale service_loop =
  fixes step :: "string \<Rightarrow> 'z launcher_scheme \<Rightarrow> 'z launcher_scheme" and ok :: "rat \<Rightarrow> service \<Rightarrow> bool"
  assumes later: "ok c st \<Longrightarrow> c \<le> c' \<Longrightarrow> ok c' st"
    and touches: "only_touches n s (step n s)"
    and keeps: "svc_get s n = Some st \<Longrightarrow> ok (lc_clock s) st \<Longrightarrow> svc_get (step n s) n = Some st' \<Longrightarrow> ok (lc_clock (step n s)) st'"
begin

lemma loop_names: "map fst (lc_services (fold step ns s)) = map fst (lc_services s)"
proof (induction ns arbitrary: s)
  case (Cons n ns)
  then show ?case using touches [of n s] by (simp add: only_touches_def)
qed simp

lemma loop_specs: "map_option sv_spec (svc_get (fold step ns s) m) = map_option sv_spec (svc_get s m)"
proof (induction ns arbitrary: s)
  case (Cons n ns)
  then show ?case using touches [of n s] by (cases "m = n") (simp_all add: only_touches_def)
qed simp

lemma loop_clock: "lc_clock s \<le> lc_clock (fold step ns s)"
proof (induction ns arbitrary: s)
  case (Cons n ns)
  then show ?case using touches_clock [OF touches [of n s]] by (auto intro: order_trans)
qed simp

lemma loop_other: "m \<notin> set ns \<Longrightarrow> svc_get (fold step ns s) m = svc_get s m"
proof (induction ns arbitrary: s)
  case (Cons n ns)
  then show ?case using touches [of n s] by (simp add: only_touches_def)
qed simp

lemma loop_all_ok:
  "(\<And>n st. svc_get s n = Some st \<Longrightarrow> ok (lc_clock s) st) \<Longrightarrow> svc_get (fold step ns s) m = Some st
   \<Longrightarrow> ok (lc_clock (fold step ns s)) st"
proof (induction ns arbitrary: s)
  case (Cons n ns)
  have "ok (lc_clock (step n s)) st'" if k: "svc_get (step n s) k = Some st'" for k st'
  proof (cases "k = n")
    case True
    obtain st0 where "svc_get s n = Some st0"
      using touches_some [OF touches [of n s] k] True by blast
    then show ?thesis using keeps [of s n st0 st'] Cons.prems(1) k True by blast
  next
    case False
    then have "svc_get s k = Some st'" using touches [of n s] k by (simp add: only_touches_def)
    then show ?thesis using Cons.prems(1) later touches_clock [OF touches [of n s]] by blast
  qed
  then show ?case using Cons.IH [of "step n s"] Cons.prems(2) by simp
qed (simp)

end

lemma step_ok_keeps:
  assumes "step_ok n s s'" and "svc_get s n = Some st" and "svc_ok (lc_clock s) st" and "svc_get s' n = Some st'"
  shows "svc_ok (lc_clock s') st'"
  using assms by (auto simp: step_ok_def)

lemma step_ok_touches: "step_ok n s s' \<Longrightarrow> only_touches n s s'"
  by (simp add: step_ok_def)

interpretation monitoring: service_loop "monitor_one E cfg" svc_ok
  by unfold_locales (auto intro: svc_ok_later step_ok_touches monitor_one_step step_ok_keeps [OF monitor_one_step])

interpretation app_start: service_loop "start_app_service E cfg" svc_ok
  by unfold_locales (auto intro: svc_ok_later step_ok_touches start_app_service_step step_ok_keeps [OF start_app_service_step])

interpretation infra_start: service_loop "start_infra_service E cfg" "\<lambda>c st. svc_ok c st \<and> sv_recent_deaths st = []"
  by unfold_locales (auto intro: svc_ok_later start_infra_service_touches dest: start_infra_service_step)

text \<open>A service that is down on purpose.\<close>

definition down :: "service \<Rightarrow> bool" where
  "down st \<longleftrightarrow> \<not> sv_desired st \<and> sv_popen st = None \<and> sv_status st = SV_STOPPED"

lemma monitor_one_undesired: "svc_get s n = Some st \<Longrightarrow> \<not> sv_desired st \<Longrightarrow> monitor_one E cfg n s = s"
  by (simp add: monitor_one_def)

lemma monitor_one_keeps_down:
  assumes "svc_get s n = Some st" and "sp_app_tier (sv_spec st) \<longrightarrow> down st" and "svc_get (monitor_one E cfg n s) n = Some st'"
  shows "sp_app_tier (sv_spec st') \<longrightarrow> down st'"
proof (cases "sp_app_tier (sv_spec st)")
  case True
  then have "monitor_one E cfg n s = s" using assms monitor_one_undesired [of s n st] by (simp add: down_def)
  then show ?thesis using assms by simp
next
  case False
  then show ?thesis
    using step_ok_touches [OF monitor_one_step, of n s E cfg] assms(1,3) by (simp add: only_touches_def)
qed

interpretation stopped_tier: service_loop "monitor_one E cfg" "\<lambda>c st. sp_app_tier (sv_spec st) \<longrightarrow> down st"
  by unfold_locales (auto intro: step_ok_touches monitor_one_step dest: monitor_one_keeps_down)

section \<open>Stopping\<close>

lemma stop_child_effect:
  assumes "svc_get s n = Some st" and "stop_child E n s = (r, s')"
  shows "only_touches n s s' \<and> svc_get s' n = Some (st\<lparr>sv_popen := None, sv_status := SV_STOPPED\<rparr>)"
proof -
  define s1 where "s1 = svc_upd n (\<lambda>st. st\<lparr>sv_popen := None, sv_status := SV_STOPPED\<rparr>) s"
  have t1: "only_touches n s s1" unfolding s1_def by (rule upd_touches) simp
  have g1: "svc_get s1 n = Some (st\<lparr>sv_popen := None, sv_status := SV_STOPPED\<rparr>)" using assms(1) by (simp add: s1_def svc_get_upd)
  have "same_services s1 s'"
  proof (cases "sv_popen st")
    case None
    then show ?thesis using assms by (simp add: stop_child_def s1_def Let_def)
  next
    case (Some pid)
    obtain x s2 where x: "inquire (\<lambda>k. le_exited E k pid) s1 = (x, s2)" by (rule prod.exhaust)
    obtain f s3 where f: "(if sp_stop (sv_spec st) then inquire (\<lambda>k. le_stop_hook E k n) (happened (StopHook n) s2)
        else (False, s2)) = (f, s3)" by (rule prod.exhaust)
    define s3' where "s3' = (if f then s3 else happened (CtrlBreak pid) s3)"
    obtain w s4 where w: "inquire (\<lambda>k. le_waited E k pid) s3' = (w, s4)" by (rule prod.exhaust)
    obtain e s5 where e: "inquire (\<lambda>k. le_kill E k pid) (happened (Killed pid) s4) = (e, s5)" by (rule prod.exhaust)
    note a2 = same_inquire [OF x]
    have "same_services s2 s3"
      using f by (auto split: if_splits dest!: same_inquire intro: same_services_trans [OF same_happened])
    then have "same_services s2 s3'" unfolding s3'_def by (auto intro: same_services_trans)
    note a3 = same_services_trans [OF a2 this]
    note a4 = same_services_trans [OF a3 same_inquire [OF w]]
    note a5 = same_services_trans [OF a4 same_services_trans [OF same_happened same_inquire [OF e]]]
    have "stop_child E n s = (if x then (Inr (), s2) else if w then (Inr (), s4)
        else ((case e of None \<Rightarrow> Inr () | Some (OSError m) \<Rightarrow> Inr () | Some err \<Rightarrow> Inl err), s5))"
      using assms(1) Some
      by (simp add: stop_child_def Let_def s1_def [symmetric] x f s3'_def [symmetric] w e split: bool.splits option.splits py_error.splits)
    then show ?thesis using assms(2) a2 a4 a5 by (auto split: if_splits)
  qed
  then show ?thesis using only_touches_trans [OF t1 same_touches] g1 same_get [of s1 s' n] by auto
qed

definition put_down :: "service \<Rightarrow> service" where
  "put_down st = st\<lparr>sv_desired := False, sv_popen := None, sv_status := SV_STOPPED\<rparr>"

lemma put_down_simps [simp]: "put_down (put_down st) = put_down st" "down (put_down st)" "sv_spec (put_down st) = sv_spec st"
  by (simp_all add: put_down_def down_def)

text \<open>From one state to the other some services were put down, of the application tier only if asked so.\<close>

definition wound_down :: "bool \<Rightarrow> 'z launcher_scheme \<Rightarrow> 'z launcher_scheme \<Rightarrow> bool" where
  "wound_down a s s' \<longleftrightarrow>
     map fst (lc_services s') = map fst (lc_services s) \<and> in_current s' = in_current s \<and> in_trees s' = in_trees s
     \<and> lc_stop s' = lc_stop s \<and> lc_clock s \<le> lc_clock s' \<and> launcher.more s' = launcher.more s
     \<and> (\<forall>m. svc_get s' m = svc_get s m
          \<or> (\<exists>st. svc_get s m = Some st \<and> (a \<longrightarrow> sp_app_tier (sv_spec st)) \<and> svc_get s' m = Some (put_down st)))"

lemma wound_down_refl [simp]: "wound_down a s s"
  by (simp add: wound_down_def)

lemma wound_down_trans:
  assumes "wound_down a s s1" and "wound_down a s1 s2"
  shows "wound_down a s s2"
proof -
  have "svc_get s2 m = svc_get s m
      \<or> (\<exists>st. svc_get s m = Some st \<and> (a \<longrightarrow> sp_app_tier (sv_spec st)) \<and> svc_get s2 m = Some (put_down st))" for m
  proof -
    have 1: "svc_get s1 m = svc_get s m
      \<or> (\<exists>st. svc_get s m = Some st \<and> (a \<longrightarrow> sp_app_tier (sv_spec st)) \<and> svc_get s1 m = Some (put_down st))"
      and 2: "svc_get s2 m = svc_get s1 m
      \<or> (\<exists>st. svc_get s1 m = Some st \<and> (a \<longrightarrow> sp_app_tier (sv_spec st)) \<and> svc_get s2 m = Some (put_down st))"
      using assms by (simp_all add: wound_down_def)
    from 1 2 show ?thesis by (elim disjE exE conjE) (auto simp del: put_down_simps(1) simp: put_down_simps(1))
  qed
  then show ?thesis using assms by (auto simp: wound_down_def intro: order_trans)
qed

lemma stop_one_effect:
  assumes "stop_one E a n s = (r, s')"
  shows "wound_down a s s'" and "svc_get s' n = Some st' \<Longrightarrow> (a \<longrightarrow> sp_app_tier (sv_spec st')) \<Longrightarrow> down st'"
proof -
  have "wound_down a s s' \<and> (svc_get s' n = Some st' \<longrightarrow> (a \<longrightarrow> sp_app_tier (sv_spec st')) \<longrightarrow> down st')"
  proof (cases "svc_get s n")
    case None
    then show ?thesis using assms by (simp add: stop_one_def)
  next
    case (Some st0)
    show ?thesis
    proof (cases "a \<and> \<not> sp_app_tier (sv_spec st0)")
      case True
      then show ?thesis using assms Some by (auto simp: stop_one_def)
    next
      case False
      let ?u = "svc_upd n (\<lambda>st. st\<lparr>sv_desired := False\<rparr>) s"
      have gu: "svc_get ?u n = Some (st0\<lparr>sv_desired := False\<rparr>)" using Some by (simp add: svc_get_upd)
      have "stop_child E n ?u = (r, s')" using assms Some False by (simp add: stop_one_def)
      from stop_child_effect [OF gu this] have e: "only_touches n ?u s'" "svc_get s' n = Some (put_down st0)"
        by (simp_all add: put_down_def)
      have "only_touches n s s'" by (rule only_touches_trans [OF upd_touches e(1)]) simp
      then have "wound_down a s s'" using e(2) Some False by (auto simp: wound_down_def only_touches_def)
      then show ?thesis using e(2) by auto
    qed
  qed
  then show "wound_down a s s'" and "svc_get s' n = Some st' \<Longrightarrow> (a \<longrightarrow> sp_app_tier (sv_spec st')) \<Longrightarrow> down st'" by blast+
qed

lemma wound_down_keeps_down:
  assumes "wound_down a s s'" and "svc_get s' m = Some st'" and "\<And>st. svc_get s m = Some st \<Longrightarrow> sv_spec st = sv_spec st' \<Longrightarrow> down st"
  shows "down st'"
proof -
  have "svc_get s' m = svc_get s m
      \<or> (\<exists>st. svc_get s m = Some st \<and> (a \<longrightarrow> sp_app_tier (sv_spec st)) \<and> svc_get s' m = Some (put_down st))"
    using assms(1) by (simp add: wound_down_def)
  then show ?thesis using assms(2,3) by auto
qed

lemma stops_effect:
  assumes "each (stop_one E a) ns s = (r, s')"
  shows "wound_down a s s'"
    and "r = Inr () \<Longrightarrow> svc_get s' m = Some st' \<Longrightarrow> m \<in> set ns \<Longrightarrow> (a \<longrightarrow> sp_app_tier (sv_spec st')) \<Longrightarrow> down st'"
proof -
  have "wound_down a s s' \<and> (r = Inr () \<longrightarrow> svc_get s' m = Some st' \<longrightarrow> m \<in> set ns \<longrightarrow> (a \<longrightarrow> sp_app_tier (sv_spec st')) \<longrightarrow> down st')"
    using assms
  proof (induction ns arbitrary: s)
    case (Cons n ns)
    obtain q s1 where q: "stop_one E a n s = (q, s1)" by (rule prod.exhaust)
    note e1 = stop_one_effect [OF q]
    show ?case
    proof (cases q)
      case (Inl err)
      then show ?thesis using Cons.prems q e1(1) by auto
    next
      case (Inr v)
      then have rest: "each (stop_one E a) ns s1 = (r, s')" using Cons.prems q by simp
      note ih = Cons.IH [OF rest]
      have "down st'" if "r = Inr ()" "svc_get s' m = Some st'" "m \<in> set (n # ns)" "a \<longrightarrow> sp_app_tier (sv_spec st')"
      proof (cases "m = n")
        case True
        show ?thesis
          by (rule wound_down_keeps_down [OF conjunct1 [OF ih] that(2)]) (use e1(2) that(4) True in auto)
      next
        case False
        then show ?thesis using ih that by auto
      qed
      then show ?thesis using wound_down_trans [OF e1(1) conjunct1 [OF ih]] by blast
    qed
  qed simp
  then show "wound_down a s s'"
    and "r = Inr () \<Longrightarrow> svc_get s' m = Some st' \<Longrightarrow> m \<in> set ns \<Longrightarrow> (a \<longrightarrow> sp_app_tier (sv_spec st')) \<Longrightarrow> down st'" by blast+
qed

lemma svc_get_name: "svc_get s n = Some st \<Longrightarrow> n \<in> set (map fst (lc_services s))"
  using map_of_eq_None_iff [of "lc_services s" n] by (simp add: svc_get_def)

end
