(* ===== verification/LauncherProps.thy ===== *)
theory LauncherProps
  imports LauncherSteps Snowflake
begin

text \<open>
  Properties of the Windows launcher's supervisor: the state is well formed after any sequence of
  operations, the application tier stays down once it was stopped for an update, a failed service is
  tried again in bounded time, a retry in crash-loop mode that starts a process but does not get it ready
  is the last one, and no two services that the launcher starts share a Snowflake instance.
\<close>

section \<open>The application tier during an update\<close>

lemma monitor_passes_Suc: "monitor_passes E cfg (Suc k) s = monitor_pass E cfg (monitor_passes E cfg k s)"
  by (simp add: monitor_passes_def)


section \<open>Every reachable state\<close>

text \<open>
  What the launcher's threads do: boot, start and stop of the application tier, the control requests,
  the passes of the monitor and the shutdown; the updater may change the installed versions in between.
\<close>

inductive launched :: "launch_env \<Rightarrow> settings \<Rightarrow> launcher \<Rightarrow> bool" for E cfg where
  boot: "build_specs (le_home E) cfg = Inr specs \<Longrightarrow> lc_services s = init_services specs \<Longrightarrow> 0 \<le> lc_clock s
    \<Longrightarrow> launched E cfg (start_infra E cfg s)"
| start_app: "launched E cfg s \<Longrightarrow> launched E cfg (start_app_tier E cfg s)"
| stop_tier: "launched E cfg s \<Longrightarrow> launched E cfg (snd (stop_all E app_only s))"
| stop_svc: "launched E cfg s \<Longrightarrow> launched E cfg (snd (stop_service E n s))"
| restart_svc: "launched E cfg s \<Longrightarrow> launched E cfg (snd (restart_service E cfg n s))"
| monitored: "launched E cfg s \<Longrightarrow> launched E cfg (monitor_pass E cfg s)"
| shut: "launched E cfg s \<Longrightarrow> launched E cfg (snd (launcher_shutdown E s))"
| installed: "launched E cfg s \<Longrightarrow> launched E cfg (s\<lparr>in_current := c, in_trees := ts\<rparr>)"

lemma sup_okI:
  assumes "sup_ok s" and "map fst (lc_services s') = map fst (lc_services s)"
    and "\<And>n st. svc_get s' n = Some st \<Longrightarrow> svc_ok (lc_clock s') st"
  shows "sup_ok s'"
  using assms by (simp add: sup_ok_def)

lemma sup_ok_later: "sup_ok s \<Longrightarrow> svc_get s n = Some st \<Longrightarrow> lc_clock s \<le> c \<Longrightarrow> svc_ok c st"
  unfolding sup_ok_def by (blast intro: svc_ok_later)

lemma touches_sup_ok:
  assumes "sup_ok s" and "only_touches n s s'" and "\<And>st. svc_get s' n = Some st \<Longrightarrow> svc_ok (lc_clock s') st"
  shows "sup_ok s'"
proof (rule sup_okI [OF assms(1)])
  show "map fst (lc_services s') = map fst (lc_services s)" using assms(2) by (simp add: only_touches_def)
  fix m st assume m: "svc_get s' m = Some st"
  show "svc_ok (lc_clock s') st"
  proof (cases "m = n")
    case False
    then have "svc_get s m = Some st" using m assms(2) by (simp add: only_touches_def)
    then show ?thesis using touches_clock [OF assms(2)] by (rule sup_ok_later [OF assms(1)])
  qed (use assms(3) m in simp)
qed

lemma put_down_ok: "svc_ok c st \<Longrightarrow> svc_ok c (put_down st)"
  by (auto simp: svc_ok_def put_down_def)

lemma wound_down_sup_ok:
  assumes "sup_ok s" and "wound_down a s s'"
  shows "sup_ok s'"
proof (rule sup_okI [OF assms(1)])
  show "map fst (lc_services s') = map fst (lc_services s)" using assms(2) by (simp add: wound_down_def)
  fix m st assume m: "svc_get s' m = Some st"
  have "svc_get s' m = svc_get s m
      \<or> (\<exists>st. svc_get s m = Some st \<and> (a \<longrightarrow> sp_app_tier (sv_spec st)) \<and> svc_get s' m = Some (put_down st))"
    using assms(2) unfolding wound_down_def by blast
  then have "svc_ok (lc_clock s) st" using m assms(1) put_down_ok by (auto simp: sup_ok_def)
  then show "svc_ok (lc_clock s') st" using assms(2) svc_ok_later by (auto simp: wound_down_def)
qed

lemma stop_service_ok: "sup_ok s \<Longrightarrow> sup_ok (snd (stop_service E n s))"
proof -
  assume ok: "sup_ok s"
  show ?thesis
  proof (cases "svc_get s n")
    case None
    then show ?thesis using ok by (simp add: stop_service_def)
  next
    case (Some st)
    let ?u = "svc_upd n (\<lambda>st. st\<lparr>sv_desired := False\<rparr>) s"
    obtain r s' where r: "stop_child E n ?u = (r, s')" by (rule prod.exhaust)
    have gu: "svc_get ?u n = Some (st\<lparr>sv_desired := False\<rparr>)" using Some by (simp add: svc_get_upd)
    note e = stop_child_effect [OF gu r]
    have t: "only_touches n s s'" by (rule only_touches_trans [OF upd_touches conjunct1 [OF e]]) simp
    have "sup_ok s'"
    proof (rule touches_sup_ok [OF ok t])
      fix st' assume "svc_get s' n = Some st'"
      then have "st' = put_down st" using e by (simp add: put_down_def)
      moreover have "svc_ok (lc_clock s') st" by (rule sup_ok_later [OF ok Some touches_clock [OF t]])
      ultimately show "svc_ok (lc_clock s') st'" using put_down_ok by simp
    qed
    then show ?thesis using Some r by (simp add: stop_service_def)
  qed
qed

lemma restart_service_ok: "sup_ok s \<Longrightarrow> sup_ok (snd (restart_service E cfg n s))"
proof -
  assume ok: "sup_ok s"
  show ?thesis
  proof (cases "svc_get s n")
    case None
    then show ?thesis using ok by (simp add: restart_service_def)
  next
    case (Some st)
    obtain r s1 where r: "stop_child E n s = (r, s1)" by (rule prod.exhaust)
    note e = stop_child_effect [OF Some r]
    have ok1: "svc_ok (lc_clock s1) st" by (rule sup_ok_later [OF ok Some touches_clock [OF conjunct1 [OF e]]])
    show ?thesis
    proof (cases r)
      case (Inl err)
      have "sup_ok s1"
        by (rule touches_sup_ok [OF ok conjunct1 [OF e]]) (use e ok1 in \<open>auto simp: svc_ok_def\<close>)
      then show ?thesis using Some r Inl by (simp add: restart_service_def)
    next
      case (Inr v)
      let ?f = "svc_upd n fresh_start s1"
      have gf: "svc_get ?f n = Some (fresh_start (st\<lparr>sv_popen := None, sv_status := SV_STOPPED\<rparr>))" using e by (simp add: svc_get_upd)
      have tf: "only_touches n s ?f" by (rule only_touches_trans [OF conjunct1 [OF e] upd_touches]) (simp add: fresh_start_def)
      have "step_ok n s (start_and_wait E cfg n (sv_spec st) ?f)"
      proof (rule svc_start_step [OF Some tf gf])
        show "svc_ok (lc_clock ?f) (fresh_start (st\<lparr>sv_popen := None, sv_status := SV_STOPPED\<rparr>))
          \<and> length (sv_recent_deaths (fresh_start (st\<lparr>sv_popen := None, sv_status := SV_STOPPED\<rparr>))) \<le> CRASHLOOP_LIMIT"
          using ok1 by (auto simp: svc_ok_def fresh_start_def BACKOFF_FIRST_def BACKOFF_LIMIT_def)
      qed
      then have "sup_ok (start_and_wait E cfg n (sv_spec st) ?f)"
        using touches_sup_ok [OF ok step_ok_touches] step_ok_keeps Some ok by (meson sup_ok_def)
      then show ?thesis using Some r Inr by (simp add: restart_service_def Let_def)
    qed
  qed
qed

lemma init_services_get:
  assumes "lc_services s = init_services specs" and "svc_get s n = Some st"
  shows "\<exists>sp \<in> set specs. st = new_service sp \<and> n = sp_name sp"
proof -
  have "(n, st) \<in> set (init_services specs)" using assms map_of_SomeD unfolding svc_get_def by fastforce
  then show ?thesis by (auto simp: init_services_def)
qed

lemma build_specs_names:
  "build_specs home cfg = Inr specs \<Longrightarrow> map sp_name specs
     = [''mariadb'', ''redis'', ''go2rtc'', ''caddy'', ''backend'', ''worker'', ''beat'', ''subs'', ''recorder'', ''encoder'', ''detector'']"
  by (auto simp: build_specs_def plain_spec_def app_spec_def split: option.splits)

lemma launcher_inv:
  assumes "launched E cfg s"
  shows "sup_ok s"
  using assms
proof induction
  case (boot specs s)
  have names: "map fst (lc_services s) = map sp_name specs" using boot(2) by (simp add: init_services_def comp_def)
  have new: "svc_ok (lc_clock s) st \<and> sv_recent_deaths st = []" if "svc_get s n = Some st" for n st
    using init_services_get [OF boot(2) that] boot(3)
    by (auto simp: svc_ok_def new_service_def BACKOFF_FIRST_def BACKOFF_LIMIT_def CRASHLOOP_RETRY_S_def)
  have "distinct (map fst (lc_services s))" unfolding names build_specs_names [OF boot(1)] by simp
  then show ?case
    using infra_start.loop_all_ok [OF new] by (auto simp: sup_ok_def start_infra_def infra_start.loop_names)
next
  case (start_app s)
  then show ?case
    using app_start.loop_all_ok [of s] by (auto simp: sup_ok_def start_app_tier_def app_start.loop_names)
next
  case (stop_tier s app_only)
  obtain r s' where r: "stop_all E app_only s = (r, s')" by (rule prod.exhaust)
  then show ?case using wound_down_sup_ok [OF stop_tier.IH stops_effect(1) [OF r [unfolded stop_all_def]]] by simp
next
  case (monitored s)
  have "sup_ok (elapse E 2 s)"
    by (rule sup_okI [OF monitored.IH])
      (use same_elapse [of 2 s E] sup_ok_later [OF monitored.IH] in \<open>auto simp: same_services_def svc_get_def\<close>)
  then have "sup_ok (fold (monitor_one E cfg) ns (elapse E 2 s))" for ns
    using monitoring.loop_all_ok [of "elapse E 2 s"] by (auto simp: sup_ok_def monitoring.loop_names)
  then show ?case using monitored.IH by (simp add: monitor_pass_def)
next
  case (shut s)
  obtain r s' where r: "launcher_shutdown E s = (r, s')" by (rule prod.exhaust)
  have "sup_ok (s\<lparr>lc_stop := True\<rparr>)" using shut.IH by (simp add: sup_ok_def svc_get_def)
  from wound_down_sup_ok [OF this stops_effect(1) [OF r [unfolded launcher_shutdown_def stop_all_def]]]
  show ?case using r by simp
next
  case (installed s c ts)
  then show ?case by (simp add: sup_ok_def svc_get_def)
qed (simp_all add: stop_service_ok restart_service_ok)

text \<open>C25: whatever the threads of the launcher do, the table of services stays well formed: one entry per service; a
  back-off between 1 and 60 seconds; at most eleven recorded deaths, in order and none in the future, and at
  most ten unless the service is in crash-loop mode or stopped; a known state; a process wherever the state is
  \<open>running\<close> and none where it is \<open>stopped\<close>; and no retry later than five minutes from now.\<close>

theorem launcher_well_formed:
  assumes "launched E cfg s"
  shows "distinct (map fst (lc_services s)) \<and> (\<forall>n st. svc_get s n = Some st \<longrightarrow> svc_ok (lc_clock s) st)"
  using launcher_inv [OF assms] by (simp add: sup_ok_def)

section \<open>Retries\<close>

text \<open>A property of one service's entry that the monitor step on that service keeps survives a pass.\<close>

lemma passes_keep_entry:
  fixes s :: "'z launcher_scheme"
  assumes keep: "\<And>u :: 'z launcher_scheme. svc_get u n = Some st \<Longrightarrow> svc_get (monitor_one E cfg n u) n = Some st" and "svc_get s n = Some st"
  shows "svc_get (monitor_passes E cfg k s) n = Some st"
proof -
  have loop: "svc_get (fold (monitor_one E cfg) ns u) n = Some st" if "svc_get u n = Some st" for ns and u :: "'z launcher_scheme"
    using that
  proof (induction ns arbitrary: u)
    case (Cons m ns)
    have "svc_get (monitor_one E cfg m u) n = Some st"
    proof (cases "m = n")
      case True
      then show ?thesis using keep [OF Cons.prems] by simp
    next
      case False
      then show ?thesis using Cons.prems step_ok_touches [OF monitor_one_step, of m u E cfg] by (simp add: only_touches_def)
    qed
    then show ?case using Cons.IH by simp
  qed simp
  show ?thesis
  proof (induction k)
    case 0
    then show ?case using assms(2) by (simp add: monitor_passes_def)
  next
    case (Suc k)
    then show ?case using loop [of "elapse E 2 (monitor_passes E cfg k s)"] same_get [OF same_elapse [of 2 "monitor_passes E cfg k s" E], of n]
      by (simp add: monitor_passes_Suc monitor_pass_def)
  qed
qed

lemma crashlooping_with_process:
  "svc_get s n = Some st \<Longrightarrow> sv_status st = SV_CRASHLOOPING \<Longrightarrow> sv_popen st = Some pid \<Longrightarrow> monitor_one E cfg n s = s"
  by (simp add: monitor_one_def retry_crashlooping_def)

text \<open>Crash-loop mode promises a retry every five minutes, but a retry that starts a process without getting the
  service ready is the last one: the entry keeps the process, and in crash-loop mode the monitor retries only
  entries without one. However often the monitor passes afterwards, nothing changes, whether the process is
  still there or not.\<close>

theorem crashloop_retry_is_last:
  assumes g: "svc_get s n = Some st" and st: "sv_desired st" "sv_status st = SV_CRASHLOOPING" "sv_popen st = None"
    and due: "sv_next_retry st \<le> lc_clock s"
    and started: "svc_get (start_and_wait E cfg n (sv_spec st)
        (svc_upd n (\<lambda>st. st\<lparr>sv_recent_deaths := []\<rparr>) (snd (monotonic E s)))) n = Some st1"
      "sv_popen st1 = Some pid" "sv_status st1 \<noteq> SV_RUNNING"
  shows "\<exists>st2. sv_status st2 = SV_CRASHLOOPING \<and> sv_popen st2 = Some pid
    \<and> (\<forall>k. svc_get (monitor_passes E cfg k (monitor_one E cfg n s)) n = Some st2)"
proof -
  obtain t s1 where m: "monotonic E s = (t, s1)" by (rule prod.exhaust)
  define v where "v = start_and_wait E cfg n (sv_spec st) (svc_upd n (\<lambda>st. st\<lparr>sv_recent_deaths := []\<rparr>) s1)"
  have gv: "svc_get v n = Some st1" using started(1) by (simp add: v_def m)
  have "\<not> t < sv_next_retry st" using due same_monotonic [OF m] same_clock [of s s1] by auto
  then have e: "monitor_one E cfg n s = slow_retry E n v"
    using g st started(3) gv
    by (simp add: monitor_one_def retry_crashlooping_def m v_def [symmetric] Let_def)
  note sl = slow_retry_effect(2) [OF gv, of E]
  define st2 where "st2 = st1\<lparr>sv_status := SV_CRASHLOOPING, sv_next_retry := lc_clock (slow_retry E n v) + CRASHLOOP_RETRY_S\<rparr>"
  have "svc_get (monitor_passes E cfg k (monitor_one E cfg n s)) n = Some st2" for k
  proof (rule passes_keep_entry)
    show "svc_get (monitor_one E cfg n s) n = Some st2" unfolding e st2_def by (rule sl)
    show "svc_get (monitor_one E cfg n u) n = Some st2" if "svc_get u n = Some st2" for u
      using crashlooping_with_process [OF that, of pid E cfg] that started(2) by (simp add: st2_def)
  qed
  then show ?thesis using started(2) by (intro exI [of _ st2]) (simp add: st2_def)
qed

lemma failed_step:
  assumes g: "svc_get s n = Some st" and st: "sv_desired st" "sv_status st = SV_FAILED" "sv_popen st = None"
  shows "svc_get (monitor_one E cfg n s) n = Some st \<and> lc_clock s < sv_next_retry st \<or>
    (\<exists>st'. svc_get (monitor_one E cfg n s) n = Some st' \<and> sv_restart_count st' = sv_restart_count st + 1)"
proof -
  obtain t s1 where m: "monotonic E s = (t, s1)" by (rule prod.exhaust)
  note c = same_monotonic [OF m]
  have g1: "svc_get s1 n = Some st" using g c same_get [of s s1 n] by simp
  show ?thesis
  proof (cases "t < sv_next_retry st")
    case True
    then have "monitor_one E cfg n s = s1" using g st by (simp add: monitor_one_def retry_failed_def m)
    moreover have "lc_clock s < sv_next_retry st" using True c same_clock [of s s1] by auto
    ultimately show ?thesis using g1 by simp
  next
    case False
    obtain b s2 now where r: "register_death E n st s1 = (b, s2)" "svc_get s2 n = Some (buried b now (lc_clock s2) st)"
      by (rule register_death_effect [OF g1 refl])
    have e: "monitor_one E cfg n s = (if b then s2 else start_and_wait E cfg n (sv_spec st) s2)"
      using g st False r(1) by (simp add: monitor_one_def retry_failed_def m split: bool.splits)
    have cnt: "sv_restart_count (buried b now x st) = sv_restart_count st + 1" for x by (simp add: buried_def bury_service_def)
    obtain p w x where "svc_get (start_and_wait E cfg n (sv_spec st) s2) n
        = Some ((buried b now (lc_clock s2) st)\<lparr>sv_popen := p, sv_started_at := w, sv_status := x\<rparr>)"
      by (rule start_and_wait_effect [OF r(2)])
    then show ?thesis using r(2) cnt unfolding e by (cases b) auto
  qed
qed

lemma pass_names: "map fst (lc_services (monitor_pass E cfg s)) = map fst (lc_services s)"
  using same_elapse [of 2 s E] by (simp add: monitor_pass_def monitoring.loop_names same_services_def)

lemma pass_clock: "\<not> lc_stop s \<Longrightarrow> lc_clock s + 2 \<le> lc_clock (monitor_pass E cfg s)"
  using monitoring.loop_clock [of "elapse E 2 s" E cfg] clock_elapse [of s 2 E] by (auto simp: monitor_pass_def intro: order_trans)

lemma loop_stop: "lc_stop (fold (monitor_one E cfg) ns s) = lc_stop s"
proof (induction ns arbitrary: s)
  case (Cons n ns)
  then show ?case using step_ok_touches [OF monitor_one_step, of n s E cfg] by (simp add: only_touches_def)
qed simp

text \<open>A pass comes to a service in a state in which its entry is still the one before the pass, and
  leaves the entry as the step on that service leaves it.\<close>

lemma pass_at:
  fixes s :: "'z launcher_scheme"
  assumes "\<not> lc_stop s" and "distinct (map fst (lc_services s))" and "n \<in> set (map fst (lc_services s))"
  obtains u :: "'z launcher_scheme" where "svc_get u n = svc_get s n" and "lc_clock s + 2 \<le> lc_clock u"
    and "svc_get (monitor_pass E cfg s) n = svc_get (monitor_one E cfg n u) n"
proof -
  obtain xs ys where split: "map fst (lc_services s) = xs @ n # ys" using assms(3) by (metis split_list)
  have out: "n \<notin> set xs" "n \<notin> set ys" using assms(2) unfolding split by auto
  let ?u = "fold (monitor_one E cfg) xs (elapse E 2 s)"
  show thesis
  proof (rule that [of ?u])
    show "svc_get ?u n = svc_get s n"
      using monitoring.loop_other [OF out(1), of E cfg "elapse E 2 s"] same_get [OF same_elapse [of 2 s E], of n] by simp
    show "lc_clock s + 2 \<le> lc_clock ?u"
      using monitoring.loop_clock [of "elapse E 2 s" E cfg xs] clock_elapse [of s 2 E] by linarith
    show "svc_get (monitor_pass E cfg s) n = svc_get (monitor_one E cfg n ?u) n"
      using assms(1) monitoring.loop_other [OF out(2)] unfolding monitor_pass_def split by simp
  qed
qed

text \<open>A service that is wanted, has failed and has no process is attended to again within five minutes of
  monitoring: in one of the next 150 passes its death is registered, and by that either it is started again
  or it is put into crash-loop mode.\<close>

theorem failed_service_retried:
  assumes "launched E cfg s" and "\<not> lc_stop s" and "svc_get s n = Some st"
    and "sv_desired st" and "sv_status st = SV_FAILED" and "sv_popen st = None"
  shows "\<exists>k \<le> 150. \<exists>st'. svc_get (monitor_passes E cfg k s) n = Some st' \<and> sv_restart_count st' = sv_restart_count st + 1"
proof (rule ccontr)
  assume never: "\<not> ?thesis"
  have reach: "launched E cfg (monitor_passes E cfg k s)" for k
    by (induction k) (simp_all add: monitor_passes_Suc launched.monitored, simp add: monitor_passes_def assms(1))
  have run: "k \<le> 150 \<longrightarrow> \<not> lc_stop (monitor_passes E cfg k s) \<and> svc_get (monitor_passes E cfg k s) n = Some st
      \<and> lc_clock s + 2 * of_nat k \<le> lc_clock (monitor_passes E cfg k s)
      \<and> (0 < k \<longrightarrow> lc_clock s + 2 * of_nat k < sv_next_retry st)" for k
  proof (induction k)
    case 0
    show ?case using assms by (simp add: monitor_passes_def)
  next
    case (Suc k)
    show ?case
    proof
      assume le: "Suc k \<le> 150"
      let ?t = "monitor_passes E cfg k s"
      have ih: "\<not> lc_stop ?t" "svc_get ?t n = Some st" "lc_clock s + 2 * of_nat k \<le> lc_clock ?t" using Suc le by auto
      have "distinct (map fst (lc_services ?t))" using launcher_inv [OF reach] by (simp add: sup_ok_def)
      then obtain u :: launcher where u: "svc_get u n = svc_get ?t n" "lc_clock ?t + 2 \<le> lc_clock u"
        "svc_get (monitor_pass E cfg ?t) n = svc_get (monitor_one E cfg n u) n"
        by (rule pass_at [where E = E and cfg = cfg, OF ih(1) _ svc_get_name [OF ih(2)]])
      have gu: "svc_get u n = Some st" using u(1) ih(2) by simp
      have no: "\<not> (\<exists>st'. svc_get (monitor_passes E cfg (Suc k) s) n = Some st' \<and> sv_restart_count st' = sv_restart_count st + 1)"
        using never le by blast
      have "svc_get (monitor_one E cfg n u) n = Some st \<and> lc_clock u < sv_next_retry st"
        using failed_step [OF gu assms(4-6), of E cfg] no [unfolded monitor_passes_Suc u(3)] by blast
      moreover have "lc_clock ?t + 2 \<le> lc_clock (monitor_pass E cfg ?t)" by (rule pass_clock [OF ih(1)])
      moreover have "\<not> lc_stop (monitor_pass E cfg ?t)"
        using ih(1) same_elapse [of 2 ?t E] by (simp add: monitor_pass_def loop_stop same_services_def)
      ultimately show "\<not> lc_stop (monitor_passes E cfg (Suc k) s) \<and> svc_get (monitor_passes E cfg (Suc k) s) n = Some st
        \<and> lc_clock s + 2 * of_nat (Suc k) \<le> lc_clock (monitor_passes E cfg (Suc k) s)
        \<and> (0 < Suc k \<longrightarrow> lc_clock s + 2 * of_nat (Suc k) < sv_next_retry st)"
        using u ih(3) by (auto simp: monitor_passes_Suc)
    qed
  qed
  have "sv_next_retry st \<le> lc_clock s + 300"
    using launcher_inv [OF assms(1)] assms(3) by (auto simp: sup_ok_def svc_ok_def CRASHLOOP_RETRY_S_def)
  then show False using run [of 150] by simp
qed

section \<open>Identifiers of the services the launcher starts\<close>

text \<open>\<open>config.SNOWFLAKE_INSTANCE\<close> as a child reads it from its environment.\<close>

definition snowflake_instance :: "settings \<Rightarrow> py_error + int" where
  "snowflake_instance env =
     (case int_of_string (cfg_get env ''SNOWFLAKE_INSTANCE'' ''1'') of
        None \<Rightarrow> Inl (ValueError ''SNOWFLAKE_INSTANCE'') | Some i \<Rightarrow> Inr i)"

lemma cfg_get_update_all:
  "cfg_get (update_all kvs env) k d = (case map_of (rev kvs) k of None \<Rightarrow> cfg_get env k d | Some v \<Rightarrow> v)"
proof -
  have "map_of (update_all kvs env) k = (case map_of (rev kvs) k of None \<Rightarrow> map_of env k | Some v \<Rightarrow> Some v)"
    unfolding update_all_def
    by (induction kvs arbitrary: env) (auto simp: map_add_def AList.update_conv split: option.splits)
  then show ?thesis by (simp add: cfg_get_def split: option.splits)
qed

lemma app_instances:
  assumes "build_specs home cfg = Inr specs"
  shows "map (\<lambda>sp. map_of (rev (sp_extra sp)) ''SNOWFLAKE_INSTANCE'') (filter sp_app_tier specs)
     = map Some [''1'', ''2'', ''7'', ''4'', ''3'', ''5'', ''6'']"
  using assms by (auto simp: build_specs_def plain_spec_def app_spec_def split: option.splits)

lemma instance_numbers:
  "map (\<lambda>v. int_of_string v) [''1'', ''2'', ''7'', ''4'', ''3'', ''5'', ''6''] = map Some [1, 2, 7, 4, 3, 5, 6]"
  by code_simp

lemma app_instance_numbers:
  assumes "build_specs home cfg = Inr specs"
  shows "map (\<lambda>sp. snowflake_instance (child_env E cfg sp s)) (filter sp_app_tier specs)
     = map Inr [1, 2, 7, 4, 3, 5, 6]"
proof -
  define f :: "string option \<Rightarrow> py_error + int" where
    "f = (\<lambda>v. case int_of_string (the v) of None \<Rightarrow> Inl (ValueError ''SNOWFLAKE_INSTANCE'') | Some i \<Rightarrow> Inr i)"
  have "snowflake_instance (child_env E cfg sp s) = f (map_of (rev (sp_extra sp)) ''SNOWFLAKE_INSTANCE'')"
    if "sp \<in> set (filter sp_app_tier specs)" for sp
  proof -
    have "map_of (rev (sp_extra sp)) ''SNOWFLAKE_INSTANCE'' \<in> set (map Some [''1'', ''2'', ''7'', ''4'', ''3'', ''5'', ''6''])"
      using that unfolding app_instances [OF assms, symmetric] by simp
    then obtain v where "map_of (rev (sp_extra sp)) ''SNOWFLAKE_INSTANCE'' = Some v" by auto
    then show ?thesis by (simp add: f_def snowflake_instance_def child_env_def app_env_def Let_def cfg_get_update_all)
  qed
  then have "map (\<lambda>sp. snowflake_instance (child_env E cfg sp s)) (filter sp_app_tier specs)
      = map f (map (\<lambda>sp. map_of (rev (sp_extra sp)) ''SNOWFLAKE_INSTANCE'') (filter sp_app_tier specs))" by simp
  also have "\<dots> = map Inr [1, 2, 7, 4, 3, 5, 6]"
    unfolding app_instances [OF assms] using instance_numbers by (simp add: f_def)
  finally show ?thesis .
qed

text \<open>Every application service the launcher starts gets a Snowflake instance the generator accepts, and two
  different services never produce the same identifier, whatever their clocks say.\<close>

theorem launched_services_never_collide:
  assumes "build_specs (le_home E) cfg = Inr specs" and "sp \<in> set specs" and "sp_app_tier sp"
    and "sq \<in> set specs" and "sp_app_tier sq" and "sp_name sp \<noteq> sp_name sq"
  shows "\<exists>i j g h. snowflake_instance (child_env E cfg sp s) = Inr i \<and> snowflake_instance (child_env E cfg sq s') = Inr j
    \<and> init_gen i = Inr g \<and> init_gen j = Inr h
    \<and> (\<forall>n m clk clk' is js g' h' r r'. generate_ids n g clk = Some (is, g', r) \<and> generate_ids m h clk' = Some (js, h', r')
         \<longrightarrow> set is \<inter> set js = {})"
proof -
  let ?A = "filter sp_app_tier specs"
  let ?N = "[1, 2, 7, 4, 3, 5, 6] :: int list"
  have sp: "sp \<in> set ?A" "sq \<in> set ?A" using assms by simp_all
  have "map (\<lambda>sp. snowflake_instance (child_env E cfg sp s')) ?A = map (\<lambda>sp. snowflake_instance (child_env E cfg sp s)) ?A"
    unfolding app_instance_numbers [OF assms(1)] ..
  then have eq: "snowflake_instance (child_env E cfg x s') = snowflake_instance (child_env E cfg x s)" if "x \<in> set ?A" for x
    using that by simp
  have in_N: "\<exists>i \<in> set ?N. snowflake_instance (child_env E cfg x s) = Inr i" if "x \<in> set ?A" for x
  proof -
    have "snowflake_instance (child_env E cfg x s) \<in> set (map Inr ?N)"
      unfolding app_instance_numbers [OF assms(1), of E s, symmetric] using that by simp
    then show ?thesis by auto
  qed
  obtain i j where i: "i \<in> set ?N" "snowflake_instance (child_env E cfg sp s) = Inr i"
    and j: "j \<in> set ?N" "snowflake_instance (child_env E cfg sq s) = Inr j"
    using in_N sp by blast
  have "distinct (map (\<lambda>sp. snowflake_instance (child_env E cfg sp s)) ?A)"
    unfolding app_instance_numbers [OF assms(1)] by simp
  then have inj: "inj_on (\<lambda>sp. snowflake_instance (child_env E cfg sp s)) (set ?A)" by (simp only: distinct_map)
  have "i \<noteq> j"
  proof
    assume "i = j"
    then have "sp = sq" using inj_onD [OF inj _ sp] i(2) j(2) by simp
    then show False using assms(6) by simp
  qed
  have gen: "\<exists>g. init_gen x = Inr g" if "x \<in> set ?N" for x
    using that by (auto simp: init_gen_def snowflake_consts)
  obtain g h where g: "init_gen i = Inr g" and h: "init_gen j = Inr h" using gen i(1) j(1) by blast
  have apart: "\<forall>n m clk clk' is js g' h' r r'. generate_ids n g clk = Some (is, g', r) \<and> generate_ids m h clk' = Some (js, h', r')
      \<longrightarrow> set is \<inter> set js = {}"
    using instances_never_collide [OF g h \<open>i \<noteq> j\<close>] by blast
  have "snowflake_instance (child_env E cfg sq s') = Inr j" using eq [OF sp(2)] j(2) by simp
  then show ?thesis using i(2) g h apart by blast
qed

section \<open>Witnesses\<close>

definition sample_launch_env :: launch_env where
  "sample_launch_env =
     \<lparr>le_home = ''C:'', le_environ = [], le_lag = (\<lambda>_. 100), le_exited = (\<lambda>_ _. False), le_pre_start = (\<lambda>_ _. True),
      le_popen = (\<lambda>k _. Some (int k)), le_ready = (\<lambda>_ _. False), le_post_ready = (\<lambda>_ _. True), le_stop_hook = (\<lambda>_ _. True),
      le_waited = (\<lambda>_ _. True), le_kill = (\<lambda>_ _. None), le_exists = (\<lambda>_ _. False), le_stopping = (\<lambda>_. False)\<rparr>"

definition sample_services :: "(string \<times> service) list" where
  "sample_services =
     [(''redis'', (new_service (plain_spec ''redis'' [])) \<lparr>sv_popen := Some 1, sv_status := SV_RUNNING\<rparr>),
      (''backend'', (new_service ((app_spec [] ''backend'' [] [] 20) \<lparr>sp_ready := True\<rparr>))
         \<lparr>sv_status := SV_CRASHLOOPING\<rparr>),
      (''worker'', (new_service (app_spec [] ''worker'' [] [] 20)) \<lparr>sv_popen := Some 2, sv_status := SV_RUNNING\<rparr>)]"

definition sample_launcher :: launcher where
  "sample_launcher =
     \<lparr>in_current = None, in_trees = [], lc_services = sample_services, lc_stop = False, lc_clock = 0, lc_asked = 0, lc_events = []\<rparr>"


lemma sample_specs: "\<exists>specs. build_specs home [] = Inr specs"
proof -
  have "int_of_string ''3000'' = Some 3000" by code_simp
  then show ?thesis by (simp add: build_specs_def cfg_get_def)
qed

definition sample_boot :: launcher where
  "sample_boot = sample_launcher\<lparr>lc_services := init_services (projr (build_specs ''C:'' []))\<rparr>"

definition deaf_env :: launch_env where
  "deaf_env = sample_launch_env\<lparr>le_popen := (\<lambda>_ _. None)\<rparr>"

lemma sample_launched: "launched deaf_env [] (start_infra deaf_env [] sample_boot)"
proof -
  obtain specs where b: "build_specs ''C:'' [] = Inr specs" using sample_specs by blast
  show ?thesis
    by (rule launched.boot [of _ _ specs]) (use b in \<open>simp_all add: deaf_env_def sample_launch_env_def sample_boot_def sample_launcher_def\<close>)
qed

theorem launcher_well_formed_witness:
  "launched deaf_env [] (start_infra deaf_env [] sample_boot)
   \<and> distinct (map fst (lc_services (start_infra deaf_env [] sample_boot)))"
  using launcher_well_formed [OF sample_launched] sample_launched by simp

theorem failed_service_retried_witness:
  "\<exists>k \<le> 150. \<exists>st'. svc_get (monitor_passes deaf_env [] k (start_infra deaf_env [] sample_boot)) ''redis'' = Some st'
     \<and> sv_restart_count st' = 1"
proof -
  let ?s = "start_infra deaf_env [] sample_boot"
  have port: "int_of_string ''3000'' = Some 3000" by code_simp
  have "map_option (\<lambda>st. (sv_desired st, sv_status st, sv_popen st, sv_restart_count st)) (svc_get ?s ''redis'') = Some (True, SV_FAILED, None, 0)
    \<and> \<not> lc_stop ?s"
    using port
    by (simp add: start_infra_def start_infra_service_def sample_boot_def sample_launcher_def build_specs_def cfg_get_def
      init_services_def new_service_def plain_spec_def app_spec_def svc_get_def stop_set_def inquire_def start_and_wait_def
      svc_spawn_def svc_upd_def deaf_env_def sample_launch_env_def)
  then obtain st where st: "svc_get ?s ''redis'' = Some st" "sv_desired st" "sv_status st = SV_FAILED" "sv_popen st = None"
    "sv_restart_count st = 0" "\<not> lc_stop ?s" by auto
  from failed_service_retried [OF sample_launched st(6) st(1-4)] st(5) show ?thesis by simp
qed

theorem crashloop_retry_is_last_witness:
  "\<exists>st2. sv_status st2 = SV_CRASHLOOPING \<and> sv_popen st2 \<noteq> None
    \<and> (\<forall>k. svc_get (monitor_passes sample_launch_env [] k (monitor_one sample_launch_env [] ''backend'' sample_launcher)) ''backend'' = Some st2)"
proof -
  obtain st where st: "svc_get sample_launcher ''backend'' = Some st" "sv_desired st" "sv_status st = SV_CRASHLOOPING" "sv_popen st = None"
    "sv_next_retry st \<le> lc_clock sample_launcher" "sv_spec st = (app_spec [] ''backend'' [] [] 20) \<lparr>sp_ready := True\<rparr>"
    by (simp add: sample_launcher_def sample_services_def svc_get_def new_service_def)
  let ?w = "start_and_wait sample_launch_env [] ''backend'' ((app_spec [] ''backend'' [] [] 20) \<lparr>sp_ready := True\<rparr>)
    (svc_upd ''backend'' (\<lambda>st. st\<lparr>sv_recent_deaths := []\<rparr>) (snd (monotonic sample_launch_env sample_launcher)))"
  have "map_option (\<lambda>st. (sv_popen st = None, sv_status st)) (svc_get ?w ''backend'') = Some (False, SV_FAILED)"
    by (simp add: start_and_wait_def svc_spawn_def svc_upd_def svc_get_def sample_launcher_def sample_services_def monotonic_def
      elapse_def inquire_def happened_def pass_gate_def await_ready.simps READY_TIMEOUT_S_def set_status_def app_spec_def
      plain_spec_def new_service_def sample_launch_env_def Let_def)
  then obtain st1 pid where w: "svc_get ?w ''backend'' = Some st1" "sv_popen st1 = Some pid" "sv_status st1 \<noteq> SV_RUNNING" by auto
  from crashloop_retry_is_last [OF st(1-5) w(1) [folded st(6)] w(2,3)] show ?thesis by auto
qed

theorem launched_services_never_collide_witness:
  "\<exists>specs sp sq. build_specs ''C:'' [] = Inr specs \<and> sp \<in> set specs \<and> sq \<in> set specs \<and> sp_name sp = ''backend'' \<and> sp_name sq = ''recorder''
    \<and> (\<exists>i j g h. snowflake_instance (child_env sample_launch_env [] sp sample_launcher) = Inr i \<and> snowflake_instance (child_env sample_launch_env [] sq sample_launcher) = Inr j
        \<and> init_gen i = Inr g \<and> init_gen j = Inr h
        \<and> (\<forall>n m clk clk' is js g' h' r r'. generate_ids n g clk = Some (is, g', r) \<and> generate_ids m h clk' = Some (js, h', r')
             \<longrightarrow> set is \<inter> set js = {}))"
proof -
  obtain specs where b: "build_specs ''C:'' [] = Inr specs" using sample_specs by blast
  have "map (\<lambda>sp. (sp_name sp, sp_app_tier sp)) specs
     = [(''mariadb'', False), (''redis'', False), (''go2rtc'', False), (''caddy'', False), (''backend'', True), (''worker'', True), (''beat'', True),
        (''subs'', True), (''recorder'', True), (''encoder'', True), (''detector'', True)]"
    using b by (auto simp: build_specs_def plain_spec_def app_spec_def split: option.splits)
  then have "(''backend'', True) \<in> set (map (\<lambda>sp. (sp_name sp, sp_app_tier sp)) specs)"
    "(''recorder'', True) \<in> set (map (\<lambda>sp. (sp_name sp, sp_app_tier sp)) specs)" by simp_all
  then obtain sp sq where sp: "sp \<in> set specs" "sp_app_tier sp" "sp_name sp = ''backend''"
    and sq: "sq \<in> set specs" "sp_app_tier sq" "sp_name sq = ''recorder''" by fastforce
  have b': "build_specs (le_home sample_launch_env) [] = Inr specs" using b by (simp add: sample_launch_env_def)
  have "sp_name sp \<noteq> sp_name sq" using sp(3) sq(3) by simp
  from launched_services_never_collide [OF b' sp(1,2) sq(1,2) this, of sample_launcher sample_launcher] b sp sq show ?thesis by blast
qed

end
