(* ===== verification/Updater.thy ===== *)
theory Updater
  imports Launcher "HOL-Library.Product_Lexorder"
begin

text \<open>
  The self-updater of the Windows launcher (\<open>windows/launcher/axp_launcher/update.py\<close>): the version
  order, the choice of a release on a channel, the update check with its cache, and the update run with
  its phases and rollback. The run works on the state of the supervisor, whose application tier it stops
  and starts.

  The release documents of GitHub are records; what the network, the file system, the database tools and
  the health endpoint answer are the fields of \<open>upd_env\<close>. The content of the database is a type
  parameter: the migration may change it in any way, also when it fails. Directories are identified by
  their spelling.
\<close>

section \<open>Versions\<close>

text \<open>\<open>re.findall(r'\d+', s)\<close>.\<close>

function digit_runs :: "string \<Rightarrow> string list" where
  "digit_runs [] = []"
| "digit_runs (c # cs) =
     (if is_digit c then (c # takeWhile is_digit cs) # digit_runs (dropWhile is_digit cs) else digit_runs cs)"
  by pat_completeness auto

termination
  by (relation "measure length") (auto simp: length_dropWhile_le le_imp_less_Suc)

definition num_of :: "string \<Rightarrow> int" where
  "num_of ds = (case int_of_string ds of None \<Rightarrow> 0 | Some i \<Rightarrow> i)"

definition PRE_RANK :: "(string \<times> int) list" where
  "PRE_RANK = [(''alpha'', 0), (''beta'', 1), (''rc'', 2)]"

definition CHANNEL_MIN_RANK :: "(string \<times> int) list" where
  "CHANNEL_MIN_RANK = [(''stable'', 3), (''beta'', 1), (''alpha'', 0)]"

definition get_int :: "(string \<times> int) list \<Rightarrow> string \<Rightarrow> int \<Rightarrow> int" where
  "get_int d k v = (case map_of d k of None \<Rightarrow> v | Some i \<Rightarrow> i)"

text \<open>The rank and the number of a prerelease suffix, by \<open>([A-Za-z]+)\.?(\d+)?\<close> matched at its start.\<close>

definition pre_rank :: "string \<Rightarrow> int" where
  "pre_rank pre = get_int PRE_RANK (map to_lower (takeWhile is_alpha pre)) 0"

definition pre_num :: "string \<Rightarrow> int" where
  "pre_num pre =
     (let rest = dropWhile is_alpha pre;
          ds = takeWhile is_digit (if rest \<noteq> [] \<and> hd rest = CHR ''.'' then tl rest else rest)
      in if takeWhile is_alpha pre = [] \<or> ds = [] then 0 else num_of ds)"

definition vtuple :: "string \<Rightarrow> int \<times> int \<times> int \<times> int \<times> int" where
  "vtuple v =
     (case partition_at (CHR ''-'') (lstrip_v (if v = [] then ''0'' else v)) of (main, pre) \<Rightarrow>
        let nums = take 3 (map num_of (take 3 (digit_runs main)) @ [0, 0, 0])
        in if pre = [] then (nums ! 0, nums ! 1, nums ! 2, 3, 0)
           else (nums ! 0, nums ! 1, nums ! 2, pre_rank pre, pre_num pre))"

definition prerelease_rank :: "string \<Rightarrow> int" where
  "prerelease_rank tag = (case partition_at (CHR ''-'') (lstrip_v tag) of (_, pre) \<Rightarrow> if pre = [] then 3 else pre_rank pre)"

section \<open>Releases\<close>

record asset =
  as_name :: string
  as_url :: string
  as_size :: "int option"

record release =
  rl_draft :: bool
  rl_tag :: "string option"
  rl_assets :: "asset list"
  rl_html_url :: "string option"

record manifest =
  mf_min_launcher :: "string option"
  mf_min_from :: "string option"
  mf_sha256 :: "string option"

definition LAUNCHER_VERSION :: string where "LAUNCHER_VERSION = ''1.0.0''"
definition CHECK_CACHE_TTL_S :: rat where "CHECK_CACHE_TTL_S = 3600"
definition HEALTH_GATE_S :: rat where "HEALTH_GATE_S = 120"

definition or_empty :: "string option \<Rightarrow> string" where
  "or_empty v = (case v of None \<Rightarrow> [] | Some x \<Rightarrow> x)"

definition with_default :: "'a \<Rightarrow> 'a option \<Rightarrow> 'a" where
  "with_default d v = (case v of None \<Rightarrow> d | Some x \<Rightarrow> x)"

definition acceptable :: "string \<Rightarrow> release \<Rightarrow> bool" where
  "acceptable channel r \<longleftrightarrow> \<not> rl_draft r \<and> prerelease_rank (or_empty (rl_tag r)) \<ge> get_int CHANNEL_MIN_RANK channel 3"

definition release_key :: "release \<Rightarrow> int \<times> int \<times> int \<times> int \<times> int" where
  "release_key r = vtuple (if or_empty (rl_tag r) = [] then ''0'' else or_empty (rl_tag r))"

definition pick_release :: "string \<Rightarrow> release list \<Rightarrow> release option" where
  "pick_release channel releases = max_by release_key (filter (acceptable channel) releases)"

text \<open>\<open>{a['name']: a for a in assets}\<close>.\<close>

definition assets_of :: "release \<Rightarrow> (string \<times> asset) list" where
  "assets_of r = fold (\<lambda>a. AList.update (as_name a) a) (rl_assets r) []"

definition manifest_char :: "char \<Rightarrow> bool" where
  "manifest_char c \<longleftrightarrow> is_digit c \<or> is_alpha c \<or> c = CHR ''.'' \<or> c = CHR ''-''"

text \<open>\<open>MANIFEST_ASSET_RE\<close>; its \<open>$\<close> also matches before a final line feed.\<close>

definition is_manifest :: "string \<Rightarrow> bool" where
  "is_manifest name =
     (let n = (if name \<noteq> [] \<and> last name = CHR 0x0A then butlast name else name);
          k = length n - 5; mid = drop 10 (take k n)
      in take 10 n = ''manifest-v'' \<and> 16 \<le> length n \<and> drop k n = ''.json'' \<and> mid \<noteq> [] \<and> list_all manifest_char mid)"

definition manifest_asset :: "(string \<times> asset) list \<Rightarrow> asset option" where
  "manifest_asset assets = map_option snd (first_row (filter (\<lambda>(n, _). is_manifest n) assets))"

section \<open>The updater\<close>

record check_result =
  ck_channel :: string
  ck_latest :: "string option"
  ck_available :: bool
  ck_needs_installer :: bool
  ck_notes_url :: "string option"
  ck_installer_url :: "string option"
  ck_checked_at :: string

text \<open>The fields after \<open>up_check_cache\<close> are the world the run changes: the database, the dumps in the
  backup directory (oldest first, none for a file a failed dump left) and \<open>installed.json\<close>. The last two
  are local variables of the run.\<close>

record 'd updater = launcher +
  up_locked :: bool
  up_phase :: string
  up_percent :: int
  up_message :: "string option"
  up_error :: "string option"
  up_from :: "string option"
  up_to :: "string option"
  up_check_cache :: "(string \<times> rat \<times> check_result) list"
  up_db :: 'd
  up_dumps :: "(string \<times> 'd option) list"
  up_installed :: "(string \<times> string) option"
  up_db_changed :: bool
  up_dump_path :: "string option"

text \<open>
  The answers: \<open>ue_ok\<close> whether a file operation, named by a label, succeeds; \<open>ue_left\<close> what a removal or
  an extraction that failed left of a tree; \<open>ue_release\<close> and \<open>ue_releases\<close> the release documents, none
  for an error; \<open>ue_download\<close> the sizes of the chunks that arrived and the SHA-256 of the file, none for an error;
  \<open>ue_part\<close> \<open>int(done / total * 35)\<close>; \<open>ue_migrate\<close>, \<open>ue_seed\<close> the database afterwards and whether the
  command succeeded; \<open>ue_dump\<close>, \<open>ue_restore\<close> whether the tool succeeded; \<open>ue_broken\<close> the database after
  a restore that failed; \<open>ue_health\<close> the fields \<open>db\<close>, \<open>redis\<close> and \<open>version\<close> of the health document.
\<close>

record 'd upd_env =
  ue_launch :: launch_env
  ue_time :: "nat \<Rightarrow> rat"
  ue_stamp :: "nat \<Rightarrow> string"
  ue_ok :: "nat \<Rightarrow> string \<Rightarrow> bool"
  ue_left :: "nat \<Rightarrow> tree"
  ue_releases :: "nat \<Rightarrow> release list option"
  ue_release :: "nat \<Rightarrow> string \<Rightarrow> release option"
  ue_manifest :: "nat \<Rightarrow> string \<Rightarrow> manifest option"
  ue_free :: "nat \<Rightarrow> int"
  ue_download :: "nat \<Rightarrow> string \<Rightarrow> int list \<times> string option"
  ue_part :: "int \<Rightarrow> int \<Rightarrow> int"
  ue_extracted :: "nat \<Rightarrow> tree"
  ue_migrate :: "nat \<Rightarrow> 'd \<Rightarrow> 'd \<times> bool"
  ue_seed :: "nat \<Rightarrow> 'd \<Rightarrow> 'd \<times> bool"
  ue_dump :: "nat \<Rightarrow> bool"
  ue_restore :: "nat \<Rightarrow> bool"
  ue_broken :: "nat \<Rightarrow> 'd"
  ue_health :: "nat \<Rightarrow> (bool \<times> bool \<times> string) option"

abbreviation (input) home_of :: "'d upd_env \<Rightarrow> string" where
  "home_of E \<equiv> le_home (ue_launch E)"

definition set_phase :: "string \<Rightarrow> int \<Rightarrow> string option \<Rightarrow> string option \<Rightarrow> 'd updater \<Rightarrow> 'd updater" where
  "set_phase phase percent message error s =
     s\<lparr>up_phase := phase, up_percent := percent, up_message := message, up_error := error\<rparr>"

definition phase :: "string \<Rightarrow> int \<Rightarrow> ('d updater, unit) act" where
  "phase p n s = (Inr (), set_phase p n None None s)"

definition learn :: "(nat \<Rightarrow> 'a) \<Rightarrow> ('d updater, 'a) act" where
  "learn f s = (case inquire f s of (a, s') \<Rightarrow> (Inr a, s'))"

definition require :: "bool \<Rightarrow> string \<Rightarrow> ('d updater, unit) act" where
  "require b msg s = (if b then (Inr (), s) else (Inl (RuntimeError msg), s))"

text \<open>A file operation that raises \<open>OSError\<close> when it does not succeed.\<close>

definition file_op :: "'d upd_env \<Rightarrow> string \<Rightarrow> ('d updater, unit) act" where
  "file_op E label = bindE (learn (\<lambda>k. ue_ok E k label)) (\<lambda>b s. if b then (Inr (), s) else (Inl (OSError label), s))"

definition fetched :: "'a option \<Rightarrow> ('d updater, 'a) act" where
  "fetched r s = (case r of None \<Rightarrow> (Inl (OSError ''github''), s) | Some x \<Rightarrow> (Inr x, s))"

subsection \<open>Check\<close>

definition load_manifest :: "'d upd_env \<Rightarrow> (string \<times> asset) list \<Rightarrow> ('d updater, manifest option) act" where
  "load_manifest E assets =
     (case manifest_asset assets of None \<Rightarrow> returnE None | Some a \<Rightarrow> learn (\<lambda>k. ue_manifest E k (as_url a)))"

definition needs_installer :: "manifest option \<Rightarrow> bool" where
  "needs_installer m = (case m of None \<Rightarrow> False
     | Some x \<Rightarrow> vtuple LAUNCHER_VERSION < vtuple (with_default ''0'' (mf_min_launcher x)))"

definition check_release :: "'d upd_env \<Rightarrow> string \<Rightarrow> rat \<Rightarrow> release option \<Rightarrow> ('d updater, check_result) act" where
  "check_release E channel now rel =
     (let latest = lstrip_v (case rel of None \<Rightarrow> [] | Some r \<Rightarrow> or_empty (rl_tag r));
          assets = (case rel of None \<Rightarrow> [] | Some r \<Rightarrow> assets_of r)
      in bindE (if assets = [] then returnE None else load_manifest E assets) (\<lambda>m.
         bindE (learn (ue_stamp E)) (\<lambda>stamp s.
           let result = \<lparr>ck_channel = channel, ck_latest = (if latest = [] then None else Some latest),
                 ck_available = (latest \<noteq> [] \<and> vtuple (current_version (home_of E) s) < vtuple latest),
                 ck_needs_installer = needs_installer m, ck_notes_url = Option.bind rel rl_html_url,
                 ck_installer_url = map_option (\<lambda>(_, a). as_url a) (first_row (filter (\<lambda>(n, _). ends_with n ''.exe'') assets)),
                 ck_checked_at = stamp\<rparr>
           in (Inr result, s\<lparr>up_check_cache := AList.update channel (now, result) (up_check_cache s)\<rparr>))))"

definition check :: "'d upd_env \<Rightarrow> bool \<Rightarrow> string \<Rightarrow> ('d updater, check_result) act" where
  "check E force channel =
     bindE (learn (ue_time E)) (\<lambda>now s.
       case (if force then None else map_of (up_check_cache s) channel) of
         Some (since, result) \<Rightarrow>
           if now - since < CHECK_CACHE_TTL_S then (Inr result, s)
           else bindE (bindE (learn (ue_releases E)) fetched) (\<lambda>rs. check_release E channel now (pick_release channel rs)) s
       | None \<Rightarrow> bindE (bindE (learn (ue_releases E)) fetched) (\<lambda>rs. check_release E channel now (pick_release channel rs)) s)"

subsection \<open>The steps of a run\<close>

definition select_release :: "'d upd_env \<Rightarrow> string option \<Rightarrow> string \<Rightarrow> ('d updater, release) act" where
  "select_release E version channel =
     (if version = None \<or> version = Some [] then
        bindE (bindE (learn (ue_releases E)) fetched) (\<lambda>rs.
          case pick_release channel rs of
            None \<Rightarrow> raiseE (RuntimeError (''no release available on channel '' @ channel))
          | Some r \<Rightarrow> returnE r)
      else bindE (learn (\<lambda>k. ue_release E k (CHR ''v'' # the version))) fetched)"

definition no_manifest :: manifest where
  "no_manifest = \<lparr>mf_min_launcher = None, mf_min_from = None, mf_sha256 = None\<rparr>"

definition app_asset_name :: "string \<Rightarrow> string" where
  "app_asset_name target = ''aeroxprotect-windows-x64-app-v'' @ target @ ''.zip''"

definition precheck :: "'d upd_env \<Rightarrow> string \<Rightarrow> string \<Rightarrow> manifest \<Rightarrow> (string \<times> asset) list \<Rightarrow> ('d updater, asset) act" where
  "precheck E target prev m assets =
     bindE (require (target \<noteq> prev) (''already on v'' @ target)) (\<lambda>_.
     bindE (require (\<not> needs_installer (Some m)) ''needs_installer'') (\<lambda>_.
     bindE (require (\<not> vtuple prev < vtuple (with_default ''0'' (mf_min_from m)))
              (''min_from_version '' @ str_of_opt id (mf_min_from m) @ '' not met'')) (\<lambda>_.
     case map_of assets (app_asset_name target) of
       None \<Rightarrow> raiseE (RuntimeError ''release has no app asset'')
     | Some a \<Rightarrow>
         bindE (learn (ue_free E)) (\<lambda>free.
         bindE (require (\<not> free < with_default 0 (as_size a) * 3) ''not enough free disk space'') (\<lambda>_. returnE a)))))"

definition show_progress :: "'d upd_env \<Rightarrow> int \<Rightarrow> int list \<Rightarrow> 'd updater \<Rightarrow> 'd updater" where
  "show_progress E total_size chunks s = snd (fold (\<lambda>c (d, s).
     let d' = d + c; pct = (if total_size \<noteq> 0 then 5 + ue_part E d' total_size else 20)
     in (d', set_phase ''downloading'' (min pct 40)
               (Some (str_of_int (d' div 1048576) @ '' / '' @ str_of_int (total_size div 1048576) @ '' MB'')) None s))
     chunks (0, s))"

definition download :: "'d upd_env \<Rightarrow> asset \<Rightarrow> ('d updater, string) act" where
  "download E a =
     bindE (file_op E ''mkdir staging'') (\<lambda>_.
     bindE (learn (\<lambda>k. ue_download E k (as_url a))) (\<lambda>(chunks, sha) s.
       let s' = show_progress E (with_default 0 (as_size a)) chunks s
       in case sha of None \<Rightarrow> (Inl (OSError ''download''), s') | Some h \<Rightarrow> (Inr h, s')))"

definition verified :: "manifest \<Rightarrow> string \<Rightarrow> bool" where
  "verified m sha = (case mf_sha256 m of None \<Rightarrow> True | Some want \<Rightarrow> want = [] \<or> sha = map to_lower want)"

definition remove_tree :: "'d upd_env \<Rightarrow> string \<Rightarrow> ('d updater, unit) act" where
  "remove_tree E path s =
     (if map_of (in_trees s) path = None then (Inr (), s)
      else case inquire (\<lambda>k. (ue_ok E k ''rmtree'', ue_left E k)) s of
        ((True, _), s1) \<Rightarrow> (Inr (), s1\<lparr>in_trees := AList.delete path (in_trees s1)\<rparr>)
      | ((False, left), s1) \<Rightarrow> (Inl (OSError ''rmtree''), s1\<lparr>in_trees := AList.update path left (in_trees s1)\<rparr>))"

definition tmp_of :: "string \<Rightarrow> string" where
  "tmp_of vdir = vdir @ ''.tmp''"

definition extract_zip :: "'d upd_env \<Rightarrow> string \<Rightarrow> ('d updater, unit) act" where
  "extract_zip E vdir =
     bindE (remove_tree E (tmp_of vdir)) (\<lambda>_.
     bindE (\<lambda>s. case inquire (\<lambda>k. (ue_ok E k ''extractall'', ue_extracted E k)) s of
        ((b, t), s1) \<Rightarrow> (if b then Inr () else Inl (OSError ''extractall''),
                        s1\<lparr>in_trees := AList.update (tmp_of vdir) t (in_trees s1)\<rparr>)) (\<lambda>_.
     file_op E ''unlink zip''))"

definition BACKUPS :: "string \<Rightarrow> string" where "BACKUPS home = subpath (DATA home) ''backups''"

definition dump_name :: "string \<Rightarrow> string \<Rightarrow> string" where
  "dump_name home target = subpath (BACKUPS home) (''pre-v'' @ target @ ''.sql'')"

text \<open>Three dumps stay; an error while removing the others ends the pruning.\<close>

definition unlink_dump :: "'d upd_env \<Rightarrow> string \<Rightarrow> ('d updater, unit) act" where
  "unlink_dump E p =
     bindE (file_op E ''unlink dump'') (\<lambda>_ s. (Inr (), s\<lparr>up_dumps := AList.delete p (up_dumps s)\<rparr>))"

definition prune_backups :: "'d upd_env \<Rightarrow> 'd updater \<Rightarrow> 'd updater" where
  "prune_backups E s =
     snd (each (unlink_dump E) (drop 3 (rev (map fst (up_dumps s)))) s)"

definition backup_db :: "'d upd_env \<Rightarrow> settings \<Rightarrow> string \<Rightarrow> ('d updater, unit) act" where
  "backup_db E cfg target =
     (if map to_lower (cfg_get cfg ''AXP_UPDATE_DB_BACKUP'' ''true'') = ''false'' then returnE ()
      else
        bindE (file_op E ''mkdir backups'') (\<lambda>_ s.
          case inquire (ue_dump E) s of (b, s1) \<Rightarrow>
            let p = dump_name (home_of E) target;
                s2 = s1\<lparr>up_dumps := AList.delete p (up_dumps s1) @ [(p, if b then Some (up_db s1) else None)],
                        up_dump_path := (if b then Some p else None)\<rparr>
            in (Inr (), prune_backups E s2)))"

definition promote :: "'d upd_env \<Rightarrow> string \<Rightarrow> ('d updater, unit) act" where
  "promote E vdir =
     bindE (remove_tree E vdir) (\<lambda>_.
     bindE (file_op E ''rename'') (\<lambda>_ s.
       (Inr (), case map_of (in_trees s) (tmp_of vdir) of
          None \<Rightarrow> s
        | Some t \<Rightarrow> s\<lparr>in_trees := AList.update vdir t (AList.delete (tmp_of vdir) (in_trees s))\<rparr>)))"

definition run_app_cmd :: "string \<Rightarrow> (nat \<Rightarrow> 'd \<Rightarrow> 'd \<times> bool) \<Rightarrow> ('d updater, unit) act" where
  "run_app_cmd name f s =
     (case inquire f s of (g, s1) \<Rightarrow>
        case g (up_db s1) of (db, b) \<Rightarrow>
          (if b then Inr () else Inl (RuntimeError (name @ '' failed'')), s1\<lparr>up_db := db\<rparr>))"

text \<open>The old link is removed first, so a failing \<open>mklink\<close> leaves no link at all.\<close>

definition swap_junction :: "'d upd_env \<Rightarrow> string \<Rightarrow> ('d updater, unit) act" where
  "swap_junction E vdir =
     bindE (\<lambda>s. case tree_at (home_of E) s (CURRENT (home_of E)) of
              None \<Rightarrow> (Inr (), s)
            | Some _ \<Rightarrow>
                (case inquire (\<lambda>k. ue_ok E k ''rmdir current'') s of
                   (True, s1) \<Rightarrow> (Inr (), s1\<lparr>in_current := None\<rparr>)
                 | (False, s1) \<Rightarrow>
                     bindE (file_op E ''unlink current'') (\<lambda>_ s. (Inr (), s\<lparr>in_current := None\<rparr>)) s1)) (\<lambda>_ s.
     case inquire (\<lambda>k. ue_ok E k ''mklink'') s of
       (True, s1) \<Rightarrow> (Inr (), s1\<lparr>in_current := Some vdir\<rparr>)
     | (False, s1) \<Rightarrow> (Inl (RuntimeError ''junction swap failed''), s1))"

text \<open>The health gate.\<close>

function await_health :: "'d upd_env \<Rightarrow> string \<Rightarrow> rat \<Rightarrow> 'd updater \<Rightarrow> bool \<times> 'd updater" where
  "await_health E target deadline s =
     (case monotonic (ue_launch E) s of (t, s1) \<Rightarrow>
      if \<not> t < deadline then (False, s1)
      else case inquire (ue_health E) s1 of
        (h, s2) \<Rightarrow>
          if h = Some (True, True, target) then (True, s2)
          else await_health E target deadline (elapse (ue_launch E) 2 s2))"
  by pat_completeness auto

termination
  by (relation "measure (\<lambda>(E, target, deadline, s). nat \<lceil>deadline - lc_clock s\<rceil>)")
    (auto simp: monotonic_def Let_def inquire_def elapse_def add.assoc intro!: deadline_shrinks)

declare await_health.simps [simp del]

definition health_gate :: "'d upd_env \<Rightarrow> string \<Rightarrow> ('d updater, unit) act" where
  "health_gate E target s =
     (case monotonic (ue_launch E) s of (t, s1) \<Rightarrow>
      case await_health E target (t + HEALTH_GATE_S) s1 of
        (True, s2) \<Rightarrow> (Inr (), s2)
      | (False, s2) \<Rightarrow> (Inl (RuntimeError (''health gate failed (backend not healthy on v'' @ target @ '')'')), s2))"

definition version_of_dir :: "string \<Rightarrow> string \<Rightarrow> string" where
  "version_of_dir home path = drop (length (VERSIONS home) + 1) path"

definition keep_dir :: "string \<Rightarrow> string list \<Rightarrow> string \<Rightarrow> bool" where
  "keep_dir home keep path =
     (let name = version_of_dir home path in \<not> ends_with name ''.tmp'' \<and> lstrip_v name \<in> set keep)"

text \<open>\<open>rmtree(d, ignore_errors=True)\<close> of every other directory.\<close>

definition prune_versions :: "'d upd_env \<Rightarrow> string list \<Rightarrow> 'd updater \<Rightarrow> 'd updater" where
  "prune_versions E keep s =
     fold (\<lambda>p s. case inquire (\<lambda>k. (ue_ok E k ''rmtree'', ue_left E k)) s of
             ((b, left), s1) \<Rightarrow> s1\<lparr>in_trees := (if b then AList.delete p (in_trees s1) else AList.update p left (in_trees s1))\<rparr>)
       (filter (\<lambda>p. \<not> keep_dir (home_of E) keep p) (map fst (in_trees s))) s"

subsection \<open>The run\<close>

definition install_steps :: "'d upd_env \<Rightarrow> settings \<Rightarrow> string \<Rightarrow> ('d updater, unit) act" where
  "install_steps E cfg target =
     (let vdir = version_dir (home_of E) target in
      bindE (phase ''stopping_app'' 75) (\<lambda>_.
      bindE (stop_all (ue_launch E) True) (\<lambda>_.
      bindE (promote E vdir) (\<lambda>_.
      bindE (phase ''migrating'' 80) (\<lambda>_.
      bindE (\<lambda>s. (Inr (), s\<lparr>up_db_changed := True\<rparr>)) (\<lambda>_.
      bindE (run_app_cmd ''db-upgrade'' (ue_migrate E)) (\<lambda>_.
      bindE (phase ''swapping'' 85) (\<lambda>_.
      bindE (swap_junction E vdir) (\<lambda>_.
      bindE (run_app_cmd ''seed'' (ue_seed E)) (\<lambda>_.
      bindE (phase ''starting'' 90) (\<lambda>_.
      bindE (\<lambda>s. (Inr (), start_app_tier (ue_launch E) cfg s)) (\<lambda>_.
      bindE (phase ''health'' 95) (\<lambda>_. health_gate E target)))))))))))))"

definition finish_steps :: "'d upd_env \<Rightarrow> string \<Rightarrow> string \<Rightarrow> ('d updater, unit) act" where
  "finish_steps E target prev =
     bindE (file_op E ''write installed.json'') (\<lambda>_ s.
       let s1 = prune_versions E [target, prev] (s\<lparr>up_installed := Some (target, prev)\<rparr>)
       in (Inr (), (set_phase ''done'' 100 (Some (''updated to v'' @ target)) None s1)\<lparr>up_check_cache := []\<rparr>))"

definition prepare_steps :: "'d upd_env \<Rightarrow> settings \<Rightarrow> string \<Rightarrow> manifest \<Rightarrow> asset \<Rightarrow> ('d updater, unit) act" where
  "prepare_steps E cfg target m a =
     bindE (download E a) (\<lambda>sha.
     bindE (phase ''verifying'' 45) (\<lambda>_.
     bindE (require (verified m sha) ''sha256 mismatch'') (\<lambda>_.
     bindE (phase ''extracting'' 50) (\<lambda>_.
     bindE (extract_zip E (version_dir (home_of E) target)) (\<lambda>_.
     bindE (phase ''backup_db'' 72) (\<lambda>_.
     backup_db E cfg target))))))"

definition run_steps :: "'d upd_env \<Rightarrow> settings \<Rightarrow> string option \<Rightarrow> string \<Rightarrow> string \<Rightarrow> ('d updater, unit) act" where
  "run_steps E cfg version channel prev =
     bindE (phase ''checking'' 2) (\<lambda>_.
     bindE (select_release E version channel) (\<lambda>rel.
     bindE (load_manifest E (assets_of rel)) (\<lambda>m0.
     let target = lstrip_v (or_empty (rl_tag rel)); m = with_default no_manifest m0 in
     bindE (\<lambda>s. (Inr (), s\<lparr>up_from := Some prev, up_to := Some target\<rparr>)) (\<lambda>_.
     bindE (phase ''precheck'' 5) (\<lambda>_.
     bindE (precheck E target prev m (assets_of rel)) (\<lambda>a.
     bindE (prepare_steps E cfg target m a) (\<lambda>_.
     bindE (install_steps E cfg target) (\<lambda>_.
     finish_steps E target prev))))))))"

definition version_dir_usable :: "'d updater \<Rightarrow> string \<Rightarrow> bool" where
  "version_dir_usable s d =
     (case map_of (in_trees s) d of None \<Rightarrow> False | Some t \<Rightarrow> tr_version t \<noteq> None \<and> tr_site_packages t \<and> tr_app t)"

definition restore_dump :: "'d upd_env \<Rightarrow> string option \<Rightarrow> string \<Rightarrow> 'd updater \<Rightarrow> 'd updater" where
  "restore_dump E dump err s =
     (case Option.bind dump (map_of (up_dumps s)) of
        None \<Rightarrow> s
      | Some content \<Rightarrow>
          (case inquire (\<lambda>k. (ue_restore E k, ue_broken E k)) (set_phase ''restoring'' 97 None (Some err) s) of
             ((b, broken), s1) \<Rightarrow> s1\<lparr>up_db := (case content of Some db \<Rightarrow> if b then db else broken | None \<Rightarrow> broken)\<rparr>))"

definition failed_phase :: "string \<Rightarrow> string \<Rightarrow> bool \<Rightarrow> 'd updater \<Rightarrow> 'd updater" where
  "failed_phase prev err rolled s =
     set_phase ''failed'' 100
       (Some (if rolled then ''rolled back to v'' @ prev
              else ''rollback unavailable - manual recovery needed (see launcher log)'')) (Some err) s"

definition rollback :: "'d upd_env \<Rightarrow> settings \<Rightarrow> string \<Rightarrow> string option \<Rightarrow> string \<Rightarrow> 'd updater \<Rightarrow> 'd updater" where
  "rollback E cfg prev dump err s =
     (case stop_all (ue_launch E) True (set_phase ''rollback'' 96 None (Some err) s) of
        (Inl _, s1) \<Rightarrow> failed_phase prev err False s1
      | (Inr _, s1) \<Rightarrow>
          let prev_dir = version_dir (home_of E) prev; target_dir = version_dir (home_of E) (or_empty (up_to s1)) in
          case (if prev_dir \<noteq> target_dir \<and> version_dir_usable s1 prev_dir
                then bindE (swap_junction E prev_dir) (\<lambda>_. returnE True) s1 else (Inr False, s1)) of
            (Inl _, s2) \<Rightarrow> failed_phase prev err False s2
          | (Inr rolled, s2) \<Rightarrow>
              failed_phase prev err rolled (start_app_tier (ue_launch E) cfg (restore_dump E dump err s2)))"

definition update_error :: "py_error \<Rightarrow> string" where
  "update_error e = (case e of RuntimeError m \<Rightarrow> m | OSError m \<Rightarrow> m | _ \<Rightarrow> ''timed out'')"

definition run_update :: "'d upd_env \<Rightarrow> settings \<Rightarrow> string option \<Rightarrow> string \<Rightarrow> 'd updater \<Rightarrow> 'd updater" where
  "run_update E cfg version channel s =
     (let prev = current_version (home_of E) s in
      (case run_steps E cfg version channel prev (s\<lparr>up_db_changed := False, up_dump_path := None\<rparr>) of
         (Inr _, s1) \<Rightarrow> s1
       | (Inl e, s1) \<Rightarrow>
           rollback E cfg prev (if up_db_changed s1 then up_dump_path s1 else None) (update_error e) s1)\<lparr>up_locked := False\<rparr>)"

definition apply_update :: "'d updater \<Rightarrow> bool \<times> 'd updater" where
  "apply_update s = (if up_locked s then (False, s) else (True, s\<lparr>up_locked := True\<rparr>))"

end
