(* ===== verification/UpdaterProps.thy ===== *)
theory UpdaterProps
  imports Updater LauncherSteps
begin

text \<open>
  Properties of the self-updater. The steps of a run are composed by triples over what they may change:
  the \<open>world\<close> of a state is the part of it that outlives the run, and most steps are \<open>quiet\<close>, they leave
  it as it is. The properties: a run ends in \<open>done\<close> or \<open>failed\<close> with the lock released; the tree of the
  version that was running is never touched; \<open>done\<close> means that the junction points at the new version and
  the health gate saw it; a run that reports a rollback left the junction and the database as they were.
\<close>

section \<open>Quiet steps\<close>

definition world :: "'d updater \<Rightarrow> string option \<times> (string \<times> tree) list \<times> 'd \<times> bool \<times> string option \<times> (string \<times> 'd option) list
    \<times> string option \<times> (string \<times> string) option" where
  "world s = (in_current s, in_trees s, up_db s, up_db_changed s, up_dump_path s, up_dumps s, up_to s, up_installed s)"

definition quiet :: "('d updater, 'a) act \<Rightarrow> bool" where
  "quiet m \<longleftrightarrow> (\<forall>s. world (snd (m s)) = world s)"

lemma quietD: "quiet m \<Longrightarrow> m s = (r, s') \<Longrightarrow> world s' = world s"
  unfolding quiet_def by (metis snd_conv)

lemma quiet_bind: "quiet m \<Longrightarrow> (\<And>x. quiet (f x)) \<Longrightarrow> quiet (bindE m f)"
  unfolding quiet_def by (simp add: bindE_def split: prod.split sum.split) (metis snd_conv)

lemma quiet_triple:
  assumes "quiet m" and "\<And>s s'. world s = world s' \<Longrightarrow> P s = P s'"
  shows "triple P m (\<lambda>_. P) P"
  by (rule tripleI) (use assms quietD [OF assms(1)] in metis)+

lemma world_same: "same_services s s' \<Longrightarrow> world s' = world s"
  by (cases s; cases s') (simp add: same_services_def world_def)

lemma quiet_return [intro]: "quiet (returnE x)"
  by (simp add: quiet_def)

lemma quiet_raise [intro]: "quiet (raiseE e)"
  by (simp add: quiet_def)

lemma quiet_phase [intro]: "quiet (phase p n)"
  by (simp add: quiet_def phase_def set_phase_def world_def)

lemma quiet_learn [intro]: "quiet (learn f)"
  by (simp add: quiet_def learn_def inquire_def world_def)

lemma quiet_require [intro]: "quiet (require b msg)"
  by (simp add: quiet_def require_def)

lemma quiet_fetched [intro]: "quiet (fetched r)"
  by (simp add: quiet_def fetched_def split: option.split)

lemma quiet_file_op [intro]: "quiet (file_op E label)"
  unfolding file_op_def by (rule quiet_bind, rule quiet_learn) (simp add: quiet_def)

lemma quiet_load_manifest [intro]: "quiet (load_manifest E assets)"
  unfolding load_manifest_def by (auto split: option.split)

lemma quiet_select_release [intro]: "quiet (select_release E version channel)"
  unfolding select_release_def by (auto intro!: quiet_bind split: option.split)

lemma quiet_precheck [intro]: "quiet (precheck E target prev m assets)"
  unfolding precheck_def by (auto intro!: quiet_bind split: option.split)

lemma world_show_progress: "world (show_progress E n chunks s) = world s"
proof -
  have "world (snd (fold (\<lambda>c (d, s). let d' = d + c; pct = (if n \<noteq> 0 then 5 + ue_part E d' n else 20)
     in (d', set_phase ''downloading'' (min pct 40)
               (Some (str_of_int (d' div 1048576) @ '' / '' @ str_of_int (n div 1048576) @ '' MB'')) None s)) chunks (d, s))) = world s" for d
    by (induction chunks arbitrary: d s) (simp_all add: Let_def set_phase_def world_def)
  then show ?thesis by (simp only: show_progress_def)
qed

lemma quiet_download [intro]: "quiet (download E a)"
  unfolding download_def
  by (rule quiet_bind, rule quiet_file_op, rule quiet_bind, rule quiet_learn)
    (auto simp: quiet_def Let_def world_show_progress split: option.split prod.split)

lemma quiet_stop_all [intro]: "quiet (stop_all E a :: ('d updater, unit) act)"
proof -
  have "world (snd (stop_all E a s)) = world s" for s :: "'d updater"
  proof -
    obtain r s' where r: "stop_all E a s = (r, s')" by (rule prod.exhaust)
    have "wound_down a s s'" by (rule stops_effect(1) [OF r [unfolded stop_all_def]])
    then show ?thesis using r by (cases s; cases s') (simp add: wound_down_def world_def)
  qed
  then show ?thesis by (simp add: quiet_def)
qed

lemma world_touches: "only_touches n s s' \<Longrightarrow> world s' = world s"
  by (cases s; cases s') (simp add: only_touches_def world_def)

lemma world_start_app_tier: "world (start_app_tier E cfg s) = world s"
proof -
  have "world (fold (start_app_service E cfg) ns s) = world s" for ns and s :: "'d updater"
  proof (induction ns arbitrary: s)
    case (Cons n ns)
    then show ?case using world_touches [OF step_ok_touches [OF start_app_service_step, of n s E cfg]] by simp
  qed simp
  then show ?thesis by (simp add: start_app_tier_def)
qed

lemma world_await_health: "await_health E target d s = (b, s') \<Longrightarrow> world s' = world s"
proof (induction E target d s arbitrary: b s' rule: await_health.induct)
  case (1 E target deadline s)
  obtain t s1 where m: "monotonic (ue_launch E) s = (t, s1)" by (rule prod.exhaust)
  obtain h s2 where h: "inquire (ue_health E) s1 = (h, s2)" by (rule prod.exhaust)
  have w1: "world s1 = world s" using same_monotonic [OF m] world_same by blast
  have w2: "world s2 = world s" using world_same [OF same_inquire [OF h]] w1 by simp
  have w3: "world (elapse (ue_launch E) 2 s2) = world s" using world_same [OF same_elapse [of 2 s2 "ue_launch E"]] w2 by simp
  show ?case
  proof (cases "t < deadline \<and> h \<noteq> Some (True, True, target)")
    case True
    have rec: "await_health E target deadline (elapse (ue_launch E) 2 s2) = (b, s')"
      using "1.prems" True by (subst (asm) await_health.simps) (simp add: m h)
    have "world s' = world (elapse (ue_launch E) 2 s2)"
      by (rule "1.IH" [OF m [symmetric] _ h [symmetric] _ rec]) (use True in auto)
    then show ?thesis using w3 by simp
  next
    case False
    then have "s' \<in> {s1, s2}"
      using "1.prems" by (subst (asm) await_health.simps) (auto simp: m h split: if_splits)
    then show ?thesis using w1 w2 by auto
  qed
qed

lemma quiet_health_gate [intro]: "quiet (health_gate E target)"
proof -
  have "world (snd (health_gate E target s)) = world s" for s
  proof -
    obtain t s1 where m: "monotonic (ue_launch E) s = (t, s1)" by (rule prod.exhaust)
    obtain b s2 where b: "await_health E target (t + HEALTH_GATE_S) s1 = (b, s2)" by (rule prod.exhaust)
    have "world s2 = world s"
      using world_await_health [OF b] same_monotonic [OF m] world_same [of s s1] by simp
    then show ?thesis by (simp add: health_gate_def m b split: bool.split)
  qed
  then show ?thesis by (simp add: quiet_def)
qed

section \<open>Directories\<close>

lemma lstrip_v_idem [simp]: "lstrip_v (lstrip_v v) = lstrip_v v"
  by (induction v) (simp_all add: lstrip_v_def)

lemma version_dir_inj: "version_dir home v = version_dir home w \<longleftrightarrow> lstrip_v v = lstrip_v w"
  by (simp add: version_dir_def subpath_def)

lemma tmp_not_dir:
  assumes "\<not> ends_with prev ''.tmp''" and "lstrip_v prev = prev"
  shows "tmp_of (version_dir home v) \<noteq> version_dir home prev"
proof
  assume "tmp_of (version_dir home v) = version_dir home prev"
  then have "prev = lstrip_v v @ ''.tmp''" using assms(2) by (simp add: tmp_of_def version_dir_def subpath_def)
  then show False using assms(1) by (simp add: ends_with_def)
qed

lemma keep_prev:
  assumes "\<not> ends_with prev ''.tmp''" and "lstrip_v prev = prev" and "prev \<in> set keep"
  shows "keep_dir home keep (version_dir home prev)"
proof -
  have name: "version_of_dir home (version_dir home prev) = CHR ''v'' # prev"
    using assms(2) by (simp add: version_of_dir_def version_dir_def subpath_def)
  have "\<not> ends_with (CHR ''v'' # prev) ''.tmp''"
  proof (cases "4 \<le> length prev")
    case True
    then obtain k where "length prev = k + 4" using le_Suc_ex by (metis add.commute)
    then show ?thesis using assms(1) by (simp add: ends_with_def)
  next
    case False
    then have "length prev = 3 \<or> length prev < 3" by auto
    then show ?thesis by (auto simp: ends_with_def)
  qed
  moreover have "lstrip_v (CHR ''v'' # prev) = prev" using assms(2) by (simp add: lstrip_v_def)
  ultimately show ?thesis using assms(3) by (simp add: keep_dir_def name Let_def)
qed

section \<open>What a run keeps\<close>

text \<open>
  The tree of a directory, the database until the migration begins, that a dump taken by the run holds the
  database it began with, and, when dumps are on and succeed (\<open>H\<close>), that there is one once it begins.
\<close>

definition intact :: "bool \<Rightarrow> string \<Rightarrow> tree option \<Rightarrow> 'd \<Rightarrow> 'd updater \<Rightarrow> bool" where
  "intact H dir T D s \<longleftrightarrow> map_of (in_trees s) dir = T \<and> (up_db_changed s \<or> up_db s = D)
     \<and> (\<forall>p. up_dump_path s = Some p \<longrightarrow> map_of (up_dumps s) p = Some (Some D))
     \<and> (H \<longrightarrow> up_db_changed s \<longrightarrow> up_dump_path s \<noteq> None)"

lemma intact_world: "world s = world s' \<Longrightarrow> intact H dir T D s = intact H dir T D s'"
  by (simp add: world_def intact_def)

text \<open>The same, and with \<open>B\<close> the migration has not begun, with \<open>C\<close> the dump is there.\<close>

definition held :: "bool \<Rightarrow> bool \<Rightarrow> bool \<Rightarrow> string \<Rightarrow> tree option \<Rightarrow> 'd \<Rightarrow> 'd updater \<Rightarrow> bool" where
  "held B C H dir T D s \<longleftrightarrow> intact H dir T D s \<and> (B \<longrightarrow> \<not> up_db_changed s) \<and> (C \<longrightarrow> H \<longrightarrow> up_dump_path s \<noteq> None)"

lemma held_world: "world s = world s' \<Longrightarrow> held B C H dir T D s = held B C H dir T D s'"
  by (simp add: world_def held_def intact_def)

lemma quiet_held: "quiet m \<Longrightarrow> triple (held B C H dir T D) m (\<lambda>_. held B C H dir T D) (held B C H dir T D)"
  by (rule quiet_triple [OF _ held_world])

lemma remove_tree_keeps:
  assumes "path \<noteq> dir"
  shows "triple (held B C H dir T D) (remove_tree E path) (\<lambda>_. held B C H dir T D) (held B C H dir T D)"
  by (rule tripleI)
    (use assms in \<open>auto simp: remove_tree_def inquire_def held_def intact_def AList.update_conv' AList.delete_conv' split: if_splits bool.splits prod.splits\<close>)

lemma extract_zip_keeps:
  assumes "tmp_of vdir \<noteq> dir"
  shows "triple (held B C H dir T D) (extract_zip E vdir) (\<lambda>_. held B C H dir T D) (held B C H dir T D)"
  unfolding extract_zip_def
proof (rule triple_bind [OF remove_tree_keeps [OF assms]], rule triple_bind)
  show "triple (held B C H dir T D) (\<lambda>s. case inquire (\<lambda>k. (ue_ok E k ''extractall'', ue_extracted E k)) s of
      ((b, t), s1) \<Rightarrow> (if b then Inr () else Inl (OSError ''extractall''),
        s1\<lparr>in_trees := AList.update (tmp_of vdir) t (in_trees s1)\<rparr>)) (\<lambda>_. held B C H dir T D) (held B C H dir T D)"
    by (rule tripleI) (use assms in \<open>auto simp: inquire_def held_def intact_def AList.update_conv' split: if_splits prod.splits\<close>)
  show "triple (held B C H dir T D) (file_op E ''unlink zip'') (\<lambda>_. held B C H dir T D) (held B C H dir T D)" for x
    by (rule quiet_held [OF quiet_file_op])
qed

lemma promote_keeps:
  assumes "tmp_of vdir \<noteq> dir" and "vdir \<noteq> dir"
  shows "triple (held B C H dir T D) (promote E vdir) (\<lambda>_. held B C H dir T D) (held B C H dir T D)"
  unfolding promote_def
proof (rule triple_bind [OF remove_tree_keeps [OF assms(2)]], rule triple_bind [OF quiet_held [OF quiet_file_op]])
  show "triple (held B C H dir T D) (\<lambda>s. (Inr (), case map_of (in_trees s) (tmp_of vdir) of None \<Rightarrow> s
      | Some t \<Rightarrow> s\<lparr>in_trees := AList.update vdir t (AList.delete (tmp_of vdir) (in_trees s))\<rparr>)) (\<lambda>_. held B C H dir T D) (held B C H dir T D)" for x
    by (rule tripleI) (use assms in \<open>auto simp: held_def intact_def AList.update_conv' AList.delete_conv' split: option.splits\<close>)
qed

lemma swap_junction_world:
  assumes "swap_junction E vdir s = (r, s')"
  shows "(\<exists>c. world s' = (c, snd (world s))) \<and> (r = Inr () \<longrightarrow> in_current s' = Some vdir)"
proof -
  define unlink where "unlink = (\<lambda>s :: 'a updater. case tree_at (le_home (ue_launch E)) s (CURRENT (le_home (ue_launch E))) of
              None \<Rightarrow> (Inr (), s)
            | Some _ \<Rightarrow>
                (case inquire (\<lambda>k. ue_ok E k ''rmdir current'') s of
                   (True, s1) \<Rightarrow> (Inr (), s1\<lparr>in_current := None\<rparr>)
                 | (False, s1) \<Rightarrow>
                     bindE (file_op E ''unlink current'') (\<lambda>_ s. (Inr (), s\<lparr>in_current := None\<rparr>)) s1))"
  obtain q s1 where q: "unlink s = (q, s1)" by (rule prod.exhaust)
  have w1: "\<exists>c. world s1 = (c, snd (world s))"
    using q unfolding unlink_def file_op_def
    by (auto simp: inquire_def learn_def world_def split: option.splits if_splits prod.splits bool.splits)
  show ?thesis
  proof (cases q)
    case (Inl e)
    then have "(r, s') = (Inl e, s1)" using assms q unfolding swap_junction_def unlink_def [symmetric] by simp
    then show ?thesis using w1 by simp
  next
    case (Inr v)
    then have "(r, s') = (case inquire (\<lambda>k. ue_ok E k ''mklink'') s1 of (True, s1) \<Rightarrow> (Inr (), s1\<lparr>in_current := Some vdir\<rparr>)
        | (False, s1) \<Rightarrow> (Inl (RuntimeError ''junction swap failed''), s1))"
      using assms q unfolding swap_junction_def unlink_def [symmetric] by simp
    then show ?thesis using w1 by (auto simp: inquire_def world_def split: bool.splits)
  qed
qed

lemma swap_junction_keeps:
  "triple (held B C H dir T D) (swap_junction E vdir) (\<lambda>_ s. held B C H dir T D s \<and> in_current s = Some vdir) (held B C H dir T D)"
  by (rule tripleI) (auto dest!: swap_junction_world simp: world_def held_def intact_def)

lemma run_app_cmd_keeps:
  "triple (\<lambda>s. held False C H dir T D s \<and> up_db_changed s \<and> X (in_current s)) (run_app_cmd name f)
     (\<lambda>_ s. held False C H dir T D s \<and> up_db_changed s \<and> X (in_current s)) (held False C H dir T D)"
  by (rule tripleI) (auto simp: run_app_cmd_def inquire_def held_def intact_def split: prod.splits if_splits)

section \<open>The dump\<close>

lemma prune_effect:
  assumes "each (unlink_dump E) ps s = (r, s')"
  shows "in_trees s' = in_trees s \<and> up_db s' = up_db s \<and> up_db_changed s' = up_db_changed s \<and> up_dump_path s' = up_dump_path s
    \<and> (\<forall>q. q \<notin> set ps \<longrightarrow> map_of (up_dumps s') q = map_of (up_dumps s) q)"
  using assms
proof (induction ps arbitrary: s)
  case (Cons p ps)
  obtain b s1 where b: "inquire (\<lambda>k. ue_ok E k ''unlink dump'') s = (b, s1)" by (rule prod.exhaust)
  have w: "world s1 = world s" by (rule world_same [OF same_inquire [OF b]])
  have u: "unlink_dump E p s = (if b then (Inr (), s1\<lparr>up_dumps := AList.delete p (up_dumps s1)\<rparr>) else (Inl (OSError ''unlink dump''), s1))"
    by (simp add: unlink_dump_def file_op_def learn_def b)
  show ?case
  proof (cases b)
    case True
    let ?u = "s1\<lparr>up_dumps := AList.delete p (up_dumps s1)\<rparr>"
    have "each (unlink_dump E) ps ?u = (r, s')"
      using Cons.prems True by (simp add: u)
    from Cons.IH [OF this] show ?thesis using w by (auto simp: world_def AList.delete_conv')
  next
    case False
    then have "s' = s1" using Cons.prems by (simp add: u)
    then show ?thesis using w by (simp add: world_def)
  qed
qed simp

lemma prune_backups_newest:
  assumes "up_dumps s = ds @ [(p, c)]" and "p \<notin> fst ` set ds"
  shows "map_of (up_dumps (prune_backups E s)) p = Some c \<and> in_trees (prune_backups E s) = in_trees s
    \<and> up_db (prune_backups E s) = up_db s \<and> up_db_changed (prune_backups E s) = up_db_changed s
    \<and> up_dump_path (prune_backups E s) = up_dump_path s"
proof -
  let ?ps = "drop 3 (rev (map fst (up_dumps s)))"
  obtain r s' where r: "each (unlink_dump E) ?ps s = (r, s')"
    by (rule prod.exhaust)
  have e: "prune_backups E s = s'" unfolding prune_backups_def r by simp
  have "p \<notin> set ?ps"
    using assms set_drop_subset [of 2 "rev (map fst ds)"] by (auto simp: numeral_3_eq_3 numeral_2_eq_2)
  moreover have "map_of (up_dumps s) p = Some c"
    using assms by (simp add: map_of_eq_None_iff [THEN iffD2] map_add_Some_iff)
  ultimately show ?thesis using prune_effect [OF r] e by simp
qed

definition backups_on :: "settings \<Rightarrow> bool" where
  "backups_on cfg \<longleftrightarrow> map to_lower (cfg_get cfg ''AXP_UPDATE_DB_BACKUP'' ''true'') \<noteq> ''false''"

lemma dump_keeps:
  "triple (held True False H dir T D) (\<lambda>s. case inquire (ue_dump E) s of (b, s1) \<Rightarrow>
        let p = dump_name home target;
            s2 = s1\<lparr>up_dumps := AList.delete p (up_dumps s1) @ [(p, if b then Some (up_db s1) else None)],
                    up_dump_path := (if b then Some p else None)\<rparr>
        in (Inr (), prune_backups E s2))
     (\<lambda>_ s. held True False H dir T D s \<and> ((\<forall>k. ue_dump E k) \<longrightarrow> up_dump_path s \<noteq> None)) (held False False H dir T D)"
proof (rule tripleI, goal_cases)
  case (2 s x s')
  obtain b s1 where b: "inquire (ue_dump E) s = (b, s1)" by (rule prod.exhaust)
  have w: "world s1 = world s" by (rule world_same [OF same_inquire [OF b]])
  let ?p = "dump_name home target"
  let ?s2 = "s1\<lparr>up_dumps := AList.delete ?p (up_dumps s1) @ [(?p, if b then Some (up_db s1) else None)],
                 up_dump_path := (if b then Some ?p else None)\<rparr>"
  have s': "s' = prune_backups E ?s2" using 2(2) by (simp add: b Let_def)
  have "?p \<notin> fst ` set (AList.delete ?p (up_dumps s1))" by (rule AList.delete_notin_dom)
  from prune_backups_newest [of ?s2 "AList.delete ?p (up_dumps s1)" ?p, OF _ this]
  have pr: "map_of (up_dumps s') ?p = Some (if b then Some (up_db s1) else None)" "in_trees s' = in_trees s1"
    "up_db s' = up_db s1" "up_db_changed s' = up_db_changed s1" "up_dump_path s' = (if b then Some ?p else None)"
    unfolding s' by simp_all
  have "(\<forall>k. ue_dump E k) \<longrightarrow> b" using b by (auto simp: inquire_def)
  then show ?case using pr w 2(1) by (auto simp: world_def held_def intact_def)
qed (auto simp: Let_def split: prod.splits)

abbreviation (input) dumping :: "'d upd_env \<Rightarrow> settings \<Rightarrow> bool" where
  "dumping E cfg \<equiv> backups_on cfg \<and> (\<forall>k. ue_dump E k)"

lemma backup_db_keeps:
  "triple (held True False H dir T D) (backup_db E cfg target)
     (\<lambda>_ s. held True False H dir T D s \<and> (dumping E cfg \<longrightarrow> up_dump_path s \<noteq> None)) (held False False H dir T D)"
proof (cases "backups_on cfg")
  case False
  then show ?thesis by (simp add: backup_db_def backups_on_def triple_def)
next
  case True
  have e: "backup_db E cfg target = bindE (file_op E ''mkdir backups'') (\<lambda>_ s. case inquire (ue_dump E) s of (b, s1) \<Rightarrow>
        let p = dump_name (le_home (ue_launch E)) target;
            s2 = s1\<lparr>up_dumps := AList.delete p (up_dumps s1) @ [(p, if b then Some (up_db s1) else None)],
                    up_dump_path := (if b then Some p else None)\<rparr>
        in (Inr (), prune_backups E s2))"
    using True unfolding backup_db_def backups_on_def by (rule if_not_P)
  show ?thesis
    unfolding e
  proof (rule triple_bind)
    show "triple (held True False H dir T D) (file_op E ''mkdir backups'') (\<lambda>_. held True False H dir T D) (held False False H dir T D)"
      by (rule triple_conseq [OF quiet_held [OF quiet_file_op, of True False]]) (auto simp: held_def)
  qed (rule triple_conseq [OF dump_keeps], use True in auto)
qed

section \<open>The run\<close>

lemma quiet_before: "quiet m \<Longrightarrow> triple (held True False H dir T D) m (\<lambda>_. held True False H dir T D) (held False False H dir T D)"
  by (rule triple_conseq [OF quiet_held [of m True False]]) (auto simp: held_def)

lemma extract_zip_before:
  assumes "tmp_of vdir \<noteq> dir"
  shows "triple (held True False H dir T D) (extract_zip E vdir) (\<lambda>_. held True False H dir T D) (held False False H dir T D)"
  by (rule triple_conseq [OF extract_zip_keeps [OF assms, of True False]]) (auto simp: held_def)

lemma prepare_steps_keeps:
  assumes "tmp_of (version_dir (le_home (ue_launch E)) target) \<noteq> dir" and "H = dumping E cfg"
  shows "triple (held True False H dir T D) (prepare_steps E cfg target m a) (\<lambda>_. held True True H dir T D) (held False False H dir T D)"
  unfolding prepare_steps_def
  by (intro triple_bind [OF quiet_before [OF quiet_download]] triple_bind [OF quiet_before [OF quiet_phase]]
      triple_bind [OF quiet_before [OF quiet_require]] triple_bind [OF extract_zip_before [OF assms(1)]]
      triple_conseq [OF backup_db_keeps])
    (use assms(2) in \<open>auto simp: held_def\<close>)

lemma quiet_ready: "quiet m \<Longrightarrow> triple (held True True H dir T D) m (\<lambda>_. held True True H dir T D) (held False False H dir T D)"
  by (rule triple_conseq [OF quiet_held [of m True True]]) (auto simp: held_def)

text \<open>Once the migration has begun.\<close>

definition changed_at :: "bool \<Rightarrow> string \<Rightarrow> tree option \<Rightarrow> 'd \<Rightarrow> string option option \<Rightarrow> 'd updater \<Rightarrow> bool" where
  "changed_at H dir T D link s \<longleftrightarrow> held False False H dir T D s \<and> up_db_changed s \<and> (\<forall>l. link = Some l \<longrightarrow> in_current s = l)"

lemma quiet_changed: "quiet m \<Longrightarrow> triple (changed_at H dir T D l) m (\<lambda>_. changed_at H dir T D l) (held False False H dir T D)"
  by (rule triple_conseq [OF quiet_triple [of m "changed_at H dir T D l"]]) (auto simp: changed_at_def world_def held_def intact_def)

lemma run_app_cmd_changed:
  "triple (changed_at H dir T D l) (run_app_cmd name f) (\<lambda>_. changed_at H dir T D l) (held False False H dir T D)"
  by (rule tripleI) (auto simp: run_app_cmd_def inquire_def changed_at_def held_def intact_def split: prod.splits if_splits)

lemma swap_junction_changed:
  "triple (changed_at H dir T D l) (swap_junction E vdir) (\<lambda>_. changed_at H dir T D (Some (Some vdir))) (held False False H dir T D)"
  by (rule tripleI) (auto dest!: swap_junction_world simp: world_def changed_at_def held_def intact_def)

lemma promote_ready:
  assumes "tmp_of vdir \<noteq> dir" and "vdir \<noteq> dir"
  shows "triple (held True True H dir T D) (promote E vdir) (\<lambda>_. held True True H dir T D) (held False False H dir T D)"
  by (rule triple_conseq [OF promote_keeps [OF assms, of True True]]) (auto simp: held_def)

lemma begin_migration:
  "triple (held True True H dir T D) (\<lambda>s. (Inr (), s\<lparr>up_db_changed := True\<rparr>)) (\<lambda>_. changed_at H dir T D None) R"
  by (rule tripleI) (auto simp: changed_at_def held_def intact_def)

lemma quiet_start_app_tier: "quiet (\<lambda>s. (Inr (), start_app_tier E cfg s))"
  by (simp add: quiet_def world_start_app_tier)

lemma install_steps_keeps:
  assumes "tmp_of (version_dir (le_home (ue_launch E)) target) \<noteq> dir" and "version_dir (le_home (ue_launch E)) target \<noteq> dir"
  shows "triple (held True True H dir T D) (install_steps E cfg target)
     (\<lambda>_. changed_at H dir T D (Some (Some (version_dir (le_home (ue_launch E)) target)))) (held False False H dir T D)"
  unfolding install_steps_def Let_def
  by (intro triple_bind [OF quiet_ready [OF quiet_phase]] triple_bind [OF quiet_ready [OF quiet_stop_all]]
      triple_bind [OF promote_ready [OF assms]] triple_bind [OF begin_migration] triple_bind [OF run_app_cmd_changed]
      triple_bind [OF quiet_changed [OF quiet_phase]] triple_bind [OF swap_junction_changed]
      triple_bind [OF quiet_changed [OF quiet_start_app_tier]] quiet_changed [OF quiet_health_gate])

lemma prune_versions_keeps:
  assumes "keep_dir (le_home (ue_launch E)) keep dir"
  shows "map_of (in_trees (prune_versions E keep s)) dir = map_of (in_trees s) dir \<and> in_current (prune_versions E keep s) = in_current s
    \<and> up_installed (prune_versions E keep s) = up_installed s \<and> up_db (prune_versions E keep s) = up_db s"
proof -
  define rm where "rm = (\<lambda>p (s :: 'a updater). case inquire (\<lambda>k. (ue_ok E k ''rmtree'', ue_left E k)) s of
    ((b, left), s1) \<Rightarrow> s1\<lparr>in_trees := (if b then AList.delete p (in_trees s1) else AList.update p left (in_trees s1))\<rparr>)"
  have one: "dir \<noteq> p \<Longrightarrow> map_of (in_trees (rm p s)) dir = map_of (in_trees s) dir" "in_current (rm p s) = in_current s"
    "up_installed (rm p s) = up_installed s" "up_db (rm p s) = up_db s" for p s
    by (auto simp: rm_def inquire_def AList.update_conv' AList.delete_conv' split: prod.split)
  have "dir \<notin> set ps \<Longrightarrow> map_of (in_trees (fold rm ps s)) dir = map_of (in_trees s) dir \<and> in_current (fold rm ps s) = in_current s
    \<and> up_installed (fold rm ps s) = up_installed s \<and> up_db (fold rm ps s) = up_db s" for ps s
    by (induction ps arbitrary: s) (simp_all add: one)
  then show ?thesis using assms unfolding prune_versions_def rm_def [symmetric] by simp
qed

definition finished :: "string \<Rightarrow> string \<Rightarrow> tree option \<Rightarrow> 'd updater \<Rightarrow> bool" where
  "finished home prev T s \<longleftrightarrow> up_phase s = ''done'' \<and> map_of (in_trees s) (version_dir home prev) = T
     \<and> (\<exists>target. target \<noteq> prev \<and> in_current s = Some (version_dir home target) \<and> up_installed s = Some (target, prev))"

lemma finish_steps_done:
  assumes "\<not> ends_with prev ''.tmp''" and "lstrip_v prev = prev" and "target \<noteq> prev"
  shows "triple (changed_at H (version_dir (le_home (ue_launch E)) prev) T D (Some (Some (version_dir (le_home (ue_launch E)) target))))
     (finish_steps E target prev) (\<lambda>_. finished (le_home (ue_launch E)) prev T)
     (held False False H (version_dir (le_home (ue_launch E)) prev) T D)"
  unfolding finish_steps_def
proof (rule triple_bind [OF quiet_changed [OF quiet_file_op]], rule tripleI, goal_cases)
  case (2 _ s _ s')
  let ?dir = "version_dir (le_home (ue_launch E)) prev"
  have keep: "keep_dir (le_home (ue_launch E)) [target, prev] ?dir" by (rule keep_prev [OF assms(1,2)]) simp
  note pr = prune_versions_keeps [OF keep, of "s\<lparr>up_installed := Some (target, prev)\<rparr>"]
  have "s' = (set_phase ''done'' 100 (Some (''updated to v'' @ target)) None
      (prune_versions E [target, prev] (s\<lparr>up_installed := Some (target, prev)\<rparr>)))\<lparr>up_check_cache := []\<rparr>"
    using 2(2) by (simp add: Let_def)
  then show ?case
    using pr 2(1) assms(3) by (auto simp: finished_def set_phase_def changed_at_def held_def intact_def)
qed (simp add: Let_def)

lemma precheck_other_version:
  "triple (held True False H dir T D) (precheck E target prev m assets) (\<lambda>_ s. held True False H dir T D s \<and> target \<noteq> prev) (held False False H dir T D)"
proof (cases "target = prev")
  case True
  then show ?thesis by (simp add: precheck_def require_def triple_def held_def)
next
  case False
  then show ?thesis
    by (intro triple_conseq [OF quiet_before [OF quiet_precheck]]) auto
qed

lemma run_steps_keeps:
  fixes E :: "'d upd_env"
  assumes prev: "\<not> ends_with prev ''.tmp''" "lstrip_v prev = prev" and H: "H = dumping E cfg"
    and dir: "dir = version_dir (le_home (ue_launch E)) prev"
  shows "triple (held True False H dir T D) (run_steps E cfg version channel prev) (\<lambda>_. finished (le_home (ue_launch E)) prev T)
     (held False False H dir T D)"
proof -
  let ?home = "le_home (ue_launch E)"
  have note_target: "triple (held True False H dir T D) (\<lambda>s. (Inr (), s\<lparr>up_from := Some prev, up_to := Some t\<rparr>))
      (\<lambda>_. held True False H dir T D) (held False False H dir T D)" for t
    by (rule tripleI) (auto simp: held_def intact_def)
  have rest: "triple (\<lambda>s. held True False H dir T D s \<and> target \<noteq> prev)
      (bindE (prepare_steps E cfg target m a) (\<lambda>_. bindE (install_steps E cfg target) (\<lambda>_. finish_steps E target prev)))
      (\<lambda>_. finished ?home prev T) (held False False H dir T D)" if "lstrip_v target = target" for target m a
  proof (cases "target = prev")
    case False
    have tmp: "tmp_of (version_dir ?home target) \<noteq> dir" unfolding dir by (rule tmp_not_dir [OF prev])
    have vd: "version_dir ?home target \<noteq> dir" using False that prev(2) by (simp add: dir version_dir_inj)
    show ?thesis
      by (rule triple_bind [OF triple_conseq [OF prepare_steps_keeps [OF tmp H]] triple_bind [OF install_steps_keeps [OF tmp vd]]])
        (use finish_steps_done [OF prev False] dir in auto)
  qed (simp add: triple_def)
  show ?thesis
    unfolding run_steps_def Let_def
    by (intro triple_bind [OF quiet_before [OF quiet_phase]] triple_bind [OF quiet_before [OF quiet_select_release]]
        triple_bind [OF quiet_before [OF quiet_load_manifest]] triple_bind [OF note_target] triple_bind [OF precheck_other_version] rest) simp
qed

section \<open>Rollback\<close>

lemma world_set_phase [simp]: "world (set_phase p n m e s) = world s"
  by (simp add: set_phase_def world_def)

lemma restore_dump_effect:
  "in_current (restore_dump E dump err s) = in_current s \<and> in_trees (restore_dump E dump err s) = in_trees s
   \<and> (dump = None \<longrightarrow> up_db (restore_dump E dump err s) = up_db s)
   \<and> (\<forall>p D. dump = Some p \<longrightarrow> map_of (up_dumps s) p = Some (Some D) \<longrightarrow> (\<forall>k. ue_restore E k) \<longrightarrow> up_db (restore_dump E dump err s) = D)"
  by (auto simp: restore_dump_def inquire_def set_phase_def split: option.split Option.bind_splits)

text \<open>What a rollback leaves: the tree of the previous version, the failure with its error, and, if it says that it
  rolled back, the junction on that version and the database from the dump.\<close>

lemma rollback_effect:
  fixes E :: "'d upd_env"
  assumes home_def: "home = le_home (ue_launch E)" and held: "held False False H (version_dir home prev) T D s"
    and s'_def: "s' = rollback E cfg prev (if up_db_changed s then up_dump_path s else None) err s"
  shows "map_of (in_trees s') (version_dir home prev) = T \<and> up_phase s' = ''failed'' \<and> up_error s' = Some err
    \<and> (up_message s' = Some (''rolled back to v'' @ prev) \<longrightarrow>
         in_current s' = Some (version_dir home prev) \<and> (H \<longrightarrow> (\<forall>k. ue_restore E k) \<longrightarrow> up_db s' = D))"
proof -
  let ?dump = "if up_db_changed s then up_dump_path s else None"
  let ?P = "version_dir home prev"
  obtain r s1 where r: "stop_all (ue_launch E) True (set_phase ''rollback'' 96 None (Some err) s) = (r, s1)" by (rule prod.exhaust)
  have w1: "world s1 = world s" using quietD [OF quiet_stop_all r] by simp
  have sep: "''rollback unavailable - manual recovery needed (see launcher log)'' \<noteq> ''rolled back to v'' @ prev" by simp
  have fail: "map_of (in_trees (failed_phase prev err b u)) ?P = map_of (in_trees u) ?P \<and> up_phase (failed_phase prev err b u) = ''failed''
    \<and> up_error (failed_phase prev err b u) = Some err \<and> in_current (failed_phase prev err b u) = in_current u
    \<and> up_db (failed_phase prev err b u) = up_db u \<and> (up_message (failed_phase prev err b u) = Some (''rolled back to v'' @ prev) \<longrightarrow> b)" for b u
    using sep by (simp add: failed_phase_def set_phase_def)
  show ?thesis
  proof (cases r)
    case (Inl e)
    then have "s' = failed_phase prev err False s1" unfolding s'_def rollback_def by (simp add: r)
    then show ?thesis using fail [of False s1] w1 held by (simp add: world_def held_def intact_def)
  next
    case (Inr v)
    define go where "go = (?P \<noteq> version_dir home (or_empty (up_to s1)) \<and> version_dir_usable s1 ?P)"
    obtain q s2 where q: "(if go then bindE (swap_junction E ?P) (\<lambda>_. returnE True) s1 else (Inr False, s1)) = (q, s2)" by (rule prod.exhaust)
    have e: "s' = (case q of Inl _ \<Rightarrow> failed_phase prev err False s2
        | Inr rolled \<Rightarrow> failed_phase prev err rolled (start_app_tier (ue_launch E) cfg (restore_dump E ?dump err s2)))"
      using q unfolding s'_def rollback_def go_def home_def by (simp add: r Inr Let_def split: sum.split prod.split)
    have w2: "(\<exists>c. world s2 = (c, snd (world s1))) \<and> (q = Inr True \<longrightarrow> in_current s2 = Some ?P)"
    proof (cases go)
      case True
      obtain u s3 where u: "swap_junction E ?P s1 = (u, s3)" by (rule prod.exhaust)
      have "q = map_sum id (\<lambda>_. True) u \<and> s2 = s3" using q True u by (cases u) auto
      then show ?thesis using swap_junction_world [OF u] by (cases u) auto
    qed (use q in \<open>auto simp: world_def\<close>)
    have same: "in_trees s2 = in_trees s" "up_db s2 = up_db s" "up_dumps s2 = up_dumps s" using w1 w2 by (auto simp: world_def)
    show ?thesis
    proof (cases q)
      case (Inl x)
      then show ?thesis using e fail [of False s2] same held by (simp add: held_def intact_def)
    next
      case ok: (Inr rolled)
      let ?u = "start_app_tier (ue_launch E) cfg (restore_dump E ?dump err s2)"
      have wu: "in_trees ?u = in_trees s" "in_current ?u = in_current s2" "up_db ?u = up_db (restore_dump E ?dump err s2)"
        using world_start_app_tier [of "ue_launch E" cfg "restore_dump E ?dump err s2"] restore_dump_effect [of E ?dump err s2] same
        by (simp_all add: world_def)
      have db: "up_db ?u = D" if "H" "\<forall>k. ue_restore E k"
      proof (cases "up_db_changed s")
        case True
        then obtain p where "up_dump_path s = Some p" "map_of (up_dumps s2) p = Some (Some D)"
          using held \<open>H\<close> same by (auto simp: held_def intact_def)
        then show ?thesis using restore_dump_effect [of E ?dump err s2] True that wu(3) by auto
      next
        case False
        then show ?thesis using restore_dump_effect [of E ?dump err s2] wu(3) same held by (simp add: held_def intact_def)
      qed
      show ?thesis using e ok fail [of rolled ?u] wu db w2 held by (auto simp: held_def intact_def)
    qed
  qed
qed

lemma run_update_effect:
  fixes E :: "'d upd_env"
  assumes prev: "prev = current_version (le_home (ue_launch E)) s" "\<not> ends_with prev ''.tmp''" "lstrip_v prev = prev"
    and s': "s' = run_update E cfg version channel s" and H: "H = dumping E cfg" and home: "home = le_home (ue_launch E)"
  shows "\<not> up_locked s' \<and> map_of (in_trees s') (version_dir home prev) = map_of (in_trees s) (version_dir home prev)
    \<and> (finished home prev (map_of (in_trees s) (version_dir home prev)) s'
       \<or> up_phase s' = ''failed'' \<and> up_error s' \<noteq> None
         \<and> (up_message s' = Some (''rolled back to v'' @ prev) \<longrightarrow>
              in_current s' = Some (version_dir home prev) \<and> (H \<longrightarrow> (\<forall>k. ue_restore E k) \<longrightarrow> up_db s' = up_db s)))"
proof -
  let ?P = "version_dir home prev" and ?s0 = "s\<lparr>up_db_changed := False, up_dump_path := None\<rparr>"
  let ?T = "map_of (in_trees s) (version_dir home prev)"
  have h0: "held True False H ?P ?T (up_db s) ?s0" by (simp add: held_def intact_def)
  obtain r s1 where r: "run_steps E cfg version channel prev ?s0 = (r, s1)" by (rule prod.exhaust)
  note tr = run_steps_keeps [OF prev(2,3) H, of ?P ?T "up_db s" version channel]
  show ?thesis
  proof (cases r)
    case (Inl e)
    have "held False False H ?P ?T (up_db s) s1"
      by (rule triple_Inl [OF tr h0 r [unfolded Inl]]) (simp add: home)
    from rollback_effect [OF home this refl, of cfg "update_error e"]
    show ?thesis using r Inl unfolding s' run_update_def by (simp add: prev(1) [symmetric] Let_def)
  next
    case (Inr v)
    have "finished home prev ?T s1"
      using triple_Inr [OF tr h0 r [unfolded Inr]] home by simp
    then show ?thesis using r Inr unfolding s' run_update_def by (auto simp: prev(1) [symmetric] Let_def finished_def)
  qed
qed

text \<open>C26: every run of the updater ends, with the lock released and in phase \<open>done\<close> or \<open>failed\<close>, and never touches the
  tree of the version it started from. Done means: the junction points at another version, which
  \<open>installed.json\<close> names together with the previous one; failed carries an error.\<close>

theorem update_outcome:
  fixes E :: "'d upd_env"
  assumes "prev = current_version (le_home (ue_launch E)) s" and "\<not> ends_with prev ''.tmp''" and "lstrip_v prev = prev"
    and "s' = run_update E cfg version channel s" and "home = le_home (ue_launch E)"
  shows "\<not> up_locked s' \<and> map_of (in_trees s') (version_dir home prev) = map_of (in_trees s) (version_dir home prev)
    \<and> (up_phase s' = ''done'' \<and> (\<exists>target. target \<noteq> prev \<and> in_current s' = Some (version_dir home target)
                                   \<and> up_installed s' = Some (target, prev))
       \<or> up_phase s' = ''failed'' \<and> up_error s' \<noteq> None)"
  using run_update_effect [OF assms(1-4) refl assms(5)] by (auto simp: finished_def)


text \<open>Asked for the version that is already running, the updater changes nothing, neither the junction nor a tree nor
  the database, and still ends with the report that the rollback is unavailable and manual recovery is needed.\<close>

theorem update_to_running_version:
  fixes E :: "'d upd_env"
  assumes prev: "prev = current_version (le_home (ue_launch E)) s"
    and sel: "select_release E version channel (set_phase ''checking'' 2 None None (s\<lparr>up_db_changed := False, up_dump_path := None\<rparr>)) = (Inr rel, s1)"
    and same: "lstrip_v (or_empty (rl_tag rel)) = prev"
  shows "up_phase (run_update E cfg version channel s) = ''failed''
    \<and> up_error (run_update E cfg version channel s) = Some (''already on v'' @ prev)
    \<and> up_message (run_update E cfg version channel s) = Some ''rollback unavailable - manual recovery needed (see launcher log)''
    \<and> in_current (run_update E cfg version channel s) = in_current s \<and> in_trees (run_update E cfg version channel s) = in_trees s
    \<and> up_db (run_update E cfg version channel s) = up_db s"
proof -
  define err where "err = ''already on v'' @ prev"
  have "\<exists>m s2. load_manifest E (assets_of rel) s1 = (Inr m, s2)"
    by (cases "manifest_asset (assets_of rel)") (simp_all add: load_manifest_def learn_def inquire_def)
  then obtain m s2 where m: "load_manifest E (assets_of rel) s1 = (Inr m, s2)" by blast
  let ?s3 = "set_phase ''precheck'' 5 None None (s2\<lparr>up_from := Some prev, up_to := Some prev\<rparr>)"
  have run: "run_steps E cfg version channel prev (s\<lparr>up_db_changed := False, up_dump_path := None\<rparr>)
      = (Inl (RuntimeError err), ?s3)"
    using sel m same by (simp add: run_steps_def phase_def precheck_def require_def Let_def err_def)
  define s4 where "s4 = rollback E cfg prev (if up_db_changed ?s3 then up_dump_path ?s3 else None) err ?s3"
  obtain r s5 where r: "stop_all (ue_launch E) True (set_phase ''rollback'' 96 None (Some err) ?s3) = (r, s5)"
    by (rule prod.exhaust)
  have w: "in_current ?s3 = in_current s" "in_trees ?s3 = in_trees s" "up_db ?s3 = up_db s" "\<not> up_db_changed ?s3"
    using quietD [OF quiet_select_release sel] quietD [OF quiet_load_manifest m] by (simp_all add: world_def set_phase_def)
  have w5: "world s5 = world ?s3" using quietD [OF quiet_stop_all r] by simp
  have to5: "up_to s5 = Some prev" using w5 by (simp add: world_def set_phase_def)
  define u where "u = (case r of Inl _ \<Rightarrow> s5 | Inr _ \<Rightarrow> start_app_tier (ue_launch E) cfg s5)"
  have wu: "world u = world s5" by (cases r) (simp_all add: u_def world_start_app_tier)
  have "s4 = failed_phase prev err False u"
    using to5 w(4) unfolding s4_def rollback_def u_def by (cases r) (auto simp: r or_empty_def Let_def restore_dump_def)
  then have "up_phase s4 = ''failed'' \<and> up_error s4 = Some err
      \<and> up_message s4 = Some ''rollback unavailable - manual recovery needed (see launcher log)''
      \<and> in_current s4 = in_current s \<and> in_trees s4 = in_trees s \<and> up_db s4 = up_db s"
    using wu w5 w(1-3) by (simp add: failed_phase_def set_phase_def world_def)
  moreover have "run_update E cfg version channel s = s4\<lparr>up_locked := False\<rparr>"
    unfolding run_update_def Let_def prev [symmetric] by (simp add: run s4_def update_error_def)
  ultimately show ?thesis unfolding err_def [symmetric] by simp
qed

section \<open>Versions\<close>

definition version_text :: "nat \<Rightarrow> nat \<Rightarrow> nat \<Rightarrow> (string \<times> nat) option \<Rightarrow> string" where
  "version_text a b c pre =
     str_of_nat a @ CHR ''.'' # str_of_nat b @ CHR ''.'' # str_of_nat c
     @ (case pre of None \<Rightarrow> [] | Some (label, n) \<Rightarrow> CHR ''-'' # label @ CHR ''.'' # str_of_nat n)"

lemma num_of_str [simp]: "num_of (str_of_nat n) = int n"
  using int_of_str_of_int [of "int n"] by (simp add: num_of_def str_of_int_def)

lemma digit_runs_str:
  assumes "cs = [] \<or> \<not> is_digit (hd cs)"
  shows "digit_runs (str_of_nat n @ cs) = str_of_nat n # digit_runs cs"
proof -
  obtain d ds where ds: "str_of_nat n = d # ds" by (cases "str_of_nat n") auto
  have dig: "is_digit d" "\<forall>x \<in> set ds. is_digit x" using str_of_nat_digits [of _ n] by (simp_all add: ds)
  have tw: "takeWhile is_digit (ds @ cs) = ds" "dropWhile is_digit (ds @ cs) = cs"
    using dig(2) assms by (cases cs; simp add: takeWhile_append dropWhile_append)+
  show ?thesis by (simp add: ds dig(1) tw)
qed

lemma version_numbers:
  "digit_runs (str_of_nat a @ CHR ''.'' # str_of_nat b @ CHR ''.'' # str_of_nat c) = [str_of_nat a, str_of_nat b, str_of_nat c]"
proof -
  have dot: "\<not> is_digit (CHR ''.'')" by (simp add: is_digit_def)
  show ?thesis using digit_runs_str [of "[]" c] by (simp add: digit_runs_str dot)
qed

lemma partition_version:
  shows "partition_at (CHR ''-'') (version_text a b c None @ CHR ''-'' # pre) = (version_text a b c None, pre)"
    and "partition_at (CHR ''-'') (version_text a b c None) = (version_text a b c None, [])"
proof -
  have no: "\<forall>x \<in> set (version_text a b c None). x \<noteq> CHR ''-''"
    using str_of_nat_digits digit_not_space by (auto simp: version_text_def)
  show "partition_at (CHR ''-'') (version_text a b c None @ CHR ''-'' # pre) = (version_text a b c None, pre)"
    using no by (simp add: partition_at_def takeWhile_append2 dropWhile_append2)
  show "partition_at (CHR ''-'') (version_text a b c None) = (version_text a b c None, [])"
    using no by (simp add: partition_at_def takeWhile_eq_all_conv [THEN iffD2] dropWhile_eq_Nil_conv [THEN iffD2])
qed

lemma lstrip_version: "lstrip_v (version_text a b c pre) = version_text a b c pre" "lstrip_v (CHR ''v'' # version_text a b c pre) = version_text a b c pre"
proof -
  obtain d ds where ds: "str_of_nat a = d # ds" by (cases "str_of_nat a") auto
  have "d \<noteq> CHR ''v''" using str_of_nat_digits [of d a] by (auto simp: ds is_digit_def)
  then show "lstrip_v (version_text a b c pre) = version_text a b c pre" "lstrip_v (CHR ''v'' # version_text a b c pre) = version_text a b c pre"
    by (simp_all add: version_text_def lstrip_v_def ds)
qed

lemma pre_parts:
  assumes "label \<in> {''alpha'', ''beta'', ''rc''}"
  shows "pre_rank (label @ CHR ''.'' # str_of_nat n) = get_int PRE_RANK label 0" and "pre_num (label @ CHR ''.'' # str_of_nat n) = int n"
proof -
  have al: "\<forall>x \<in> set label. is_alpha x" and low: "map to_lower label = label" and ne: "label \<noteq> []"
    using assms by (auto simp: is_alpha_def to_lower_def Let_def)
  have dot: "\<not> is_alpha (CHR ''.'')" by (simp add: is_alpha_def)
  have tw: "takeWhile is_alpha (label @ CHR ''.'' # cs) = label" "dropWhile is_alpha (label @ CHR ''.'' # cs) = CHR ''.'' # cs" for cs
    using al dot by (simp_all add: takeWhile_append2 dropWhile_append2)
  show "pre_rank (label @ CHR ''.'' # str_of_nat n) = get_int PRE_RANK label 0" by (simp add: pre_rank_def tw low)
  have tk: "takeWhile is_digit (str_of_nat n) = str_of_nat n" using str_of_nat_digits by (simp add: takeWhile_eq_all_conv)
  show "pre_num (label @ CHR ''.'' # str_of_nat n) = int n" by (simp add: pre_num_def tw Let_def ne tk)
qed

text \<open>The key by which versions are compared is read back from a version text exactly: three numbers, then the rank
  of the prerelease label (alpha, beta, rc, none, in this order) and its number, with or without the leading \<open>v\<close>.
  So the order of the keys is the order of semantic versions.\<close>

theorem vtuple_version_text:
  assumes "pre = None \<or> (\<exists>label n. pre = Some (label, n) \<and> label \<in> {''alpha'', ''beta'', ''rc''})"
  shows "vtuple (version_text a b c pre)
      = (int a, int b, int c, (case pre of None \<Rightarrow> 3 | Some (label, n) \<Rightarrow> get_int PRE_RANK label 0), (case pre of None \<Rightarrow> 0 | Some (label, n) \<Rightarrow> int n))
    \<and> vtuple (CHR ''v'' # version_text a b c pre) = vtuple (version_text a b c pre)"
proof -
  have ne: "version_text a b c pre \<noteq> []" by (simp add: version_text_def)
  have nums: "digit_runs (version_text a b c None) = [str_of_nat a, str_of_nat b, str_of_nat c]"
    using version_numbers by (simp add: version_text_def)
  have v: "vtuple (CHR ''v'' # version_text a b c pre) = vtuple (version_text a b c pre)"
    using ne by (simp add: vtuple_def lstrip_version)
  show ?thesis
  proof (cases pre)
    case None
    then show ?thesis using v ne by (simp add: vtuple_def lstrip_version partition_version nums)
  next
    case (Some p)
    then obtain label n where p: "pre = Some (label, n)" "label \<in> {''alpha'', ''beta'', ''rc''}" using assms by auto
    have tx: "version_text a b c pre = version_text a b c None @ CHR ''-'' # label @ CHR ''.'' # str_of_nat n"
      by (simp add: p(1) version_text_def)
    have "vtuple (version_text a b c pre) = (int a, int b, int c, get_int PRE_RANK label 0, int n)"
      using ne lstrip_version(1) [of a b c pre]
      by (simp add: vtuple_def tx partition_version nums pre_parts [OF p(2)] Let_def)
    then show ?thesis using v p(1) by simp
  qed
qed

section \<open>Witnesses\<close>

definition sample_tree :: "string \<Rightarrow> tree" where
  "sample_tree v = \<lparr>tr_version = Some v, tr_site_packages = True, tr_app = True\<rparr>"

text \<open>A machine on version 1; the release is version \<open>v\<close>, whose migration fails unless \<open>good\<close>.\<close>

definition sample_release :: "string \<Rightarrow> release" where
  "sample_release v = \<lparr>rl_draft = False, rl_tag = Some v,
     rl_assets = [\<lparr>as_name = app_asset_name v, as_url = ''u'', as_size = Some 1\<rparr>], rl_html_url = None\<rparr>"

definition sample_upd_env :: "string \<Rightarrow> bool \<Rightarrow> int upd_env" where
  "sample_upd_env v good =
     \<lparr>ue_launch = \<lparr>le_home = ''C'', le_environ = [], le_lag = (\<lambda>_. 1), le_exited = (\<lambda>_ _. False), le_pre_start = (\<lambda>_ _. True),
        le_popen = (\<lambda>k _. Some (int k)), le_ready = (\<lambda>_ _. True), le_post_ready = (\<lambda>_ _. True), le_stop_hook = (\<lambda>_ _. True),
        le_waited = (\<lambda>_ _. True), le_kill = (\<lambda>_ _. None), le_exists = (\<lambda>_ _. False), le_stopping = (\<lambda>_. False)\<rparr>,
      ue_time = (\<lambda>_. 0), ue_stamp = (\<lambda>_. []), ue_ok = (\<lambda>_ _. True), ue_left = (\<lambda>_. sample_tree []),
      ue_releases = (\<lambda>_. Some [sample_release v]), ue_release = (\<lambda>_ _. None), ue_manifest = (\<lambda>_ _. None), ue_free = (\<lambda>_. 9),
      ue_download = (\<lambda>_ _. ([1], Some ''h'')), ue_part = (\<lambda>_ _. 35), ue_extracted = (\<lambda>_. sample_tree v),
      ue_migrate = (\<lambda>_ d. (d + 1, good)), ue_seed = (\<lambda>_ d. (d, True)), ue_dump = (\<lambda>_. True), ue_restore = (\<lambda>_. True),
      ue_broken = (\<lambda>_. 0), ue_health = (\<lambda>_. Some (True, True, v))\<rparr>"

definition sample_machine :: "int updater" where
  "sample_machine =
     \<lparr>in_current = Some (version_dir ''C'' ''1''), in_trees = [(version_dir ''C'' ''1'', sample_tree ''1'')], lc_services = [], lc_stop = False,
      lc_clock = 0, lc_asked = 0, lc_events = [], up_locked = True, up_phase = ''idle'', up_percent = 0, up_message = None, up_error = None,
      up_from = None, up_to = None, up_check_cache = [], up_db = 7, up_dumps = [], up_installed = None, up_db_changed = False, up_dump_path = None\<rparr>"

lemma sample_version: "current_version (le_home (ue_launch (sample_upd_env v good))) sample_machine = ''1''"
  by (simp add: sample_upd_env_def) code_simp

theorem update_outcome_witness:
  "up_phase (run_update (sample_upd_env ''2'' True) [] None ''stable'' sample_machine) = ''done''
   \<and> in_current (run_update (sample_upd_env ''2'' True) [] None ''stable'' sample_machine) \<noteq> Some (version_dir ''C'' ''1'')"
proof -
  let ?s = "run_update (sample_upd_env ''2'' True) [] None ''stable'' sample_machine"
  have ph: "up_phase ?s = ''done''" by code_simp
  have tmp: "\<not> ends_with ''1'' ''.tmp''" and v: "lstrip_v ''1'' = ''1''" by code_simp+
  have "le_home (ue_launch (sample_upd_env ''2'' True)) = ''C''" by (simp add: sample_upd_env_def)
  from update_outcome [OF sample_version [symmetric] tmp v refl this [symmetric], of "[]" None "''stable''"] ph
  obtain target where t: "target \<noteq> ''1''" "in_current ?s = Some (version_dir ''C'' target)" "up_installed ?s = Some (target, ''1'')" by auto
  have "up_installed ?s = Some (''2'', ''1'')" by code_simp
  then have "target = ''2''" using t(3) by simp
  then show ?thesis using ph t(2) by (simp add: version_dir_inj lstrip_v_def)
qed


theorem update_to_running_version_witness:
  "up_message (run_update (sample_upd_env ''1'' True) [] None ''stable'' sample_machine)
     = Some ''rollback unavailable - manual recovery needed (see launcher log)''
   \<and> up_db (run_update (sample_upd_env ''1'' True) [] None ''stable'' sample_machine) = 7"
proof -
  let ?E = "sample_upd_env ''1'' True"
  let ?s0 = "set_phase ''checking'' 2 None None (sample_machine\<lparr>up_db_changed := False, up_dump_path := None\<rparr>)"
  obtain r s1 where r: "select_release ?E None ''stable'' ?s0 = (r, s1)" by (rule prod.exhaust)
  have "fst (select_release ?E None ''stable'' ?s0) = Inr (sample_release ''1'')" by code_simp
  then have sel: "select_release ?E None ''stable'' ?s0 = (Inr (sample_release ''1''), s1)" using r by simp
  have "lstrip_v (or_empty (rl_tag (sample_release ''1''))) = ''1''" by code_simp
  from update_to_running_version [OF sample_version [symmetric] sel this] show ?thesis by (simp add: sample_machine_def)
qed

theorem vtuple_version_text_witness:
  "vtuple (CHR ''v'' # version_text 0 1 2 (Some (''beta'', 3))) = (0, 1, 2, 1, 3)
   \<and> vtuple (version_text 0 1 2 (Some (''beta'', 3))) < vtuple (version_text 0 1 2 None)"
proof -
  have b: "Some (''beta'', 3 :: nat) = None \<or> (\<exists>label n. Some (''beta'', 3) = Some (label, n) \<and> label \<in> {''alpha'', ''beta'', ''rc''})" by simp
  from vtuple_version_text [OF b, of 0 1 2] vtuple_version_text [of None 0 1 2] show ?thesis
    by (simp add: get_int_def PRE_RANK_def)
qed

end
