(* ===== verification/EncodeRegistry.thy ===== *)
theory EncodeRegistry
  imports EncodeProps AiRegistry
begin

text \<open>
  The server side of an encoder node: \<open>encode_node_registry.join\<close>, the node administration of
  \<open>server/controller/encode_node.py\<close>, the guard \<open>encode_node_token_required\<close>, the work orders of
  \<open>encode_config_resolver.py\<close> and the assignment endpoint of \<open>server/view/api/encode_ingest.py\<close> with its
  entity tag.
\<close>

section \<open>Join\<close>

definition enc_with_tok :: "('r token_db, 'a) act \<Rightarrow> ('r enc_state, 'a) act" where
  "enc_with_tok m s = (case m (ec_tok s) of (res, t) \<Rightarrow> (res, s\<lparr>ec_tok := t\<rparr>))"

definition enc_revoke_token :: "'r token_env \<Rightarrow> string option \<Rightarrow> ('r enc_state, unit) act" where
  "enc_revoke_token E jti =
     (case jti of None \<Rightarrow> returnE () | Some j \<Rightarrow> if j = [] then returnE () else enc_with_tok (revoke E j 60))"

definition max_sessions_of :: "pydict \<Rightarrow> py_error + int" where
  "max_sessions_of payload =
     (if py_truthy (dget payload ''max_sessions'') then py_int (dget payload ''max_sessions'')
      else case bench_get payload ''max_sessions'' of
             Inl e \<Rightarrow> Inl e
           | Inr v \<Rightarrow> if py_truthy v then py_int v else Inr DEFAULT_MAX_SESSIONS)"

text \<open>\<open>_endpoint\<close>: what the node advertises (a string), else the stored value, else derived from the address
  the request came from.\<close>

definition endpoint_of :: "pydict \<Rightarrow> encoding_node \<Rightarrow> string option \<Rightarrow> string option" where
  "endpoint_of payload n ip =
     (case dget payload ''endpoint'' of
        PStr (c # cs) \<Rightarrow> Some (c # cs)
      | _ \<Rightarrow>
          (case en_endpoint n of
             Some (c # cs) \<Rightarrow> Some (c # cs)
           | _ \<Rightarrow> (case ip of Some (c # cs) \<Rightarrow> Some (''http://'' @ (c # cs) @ '':8098'') | _ \<Rightarrow> None)))"

definition enc_joined :: "ts \<Rightarrow> pydict \<Rightarrow> string option \<Rightarrow> int \<Rightarrow> string \<Rightarrow> encoding_node \<Rightarrow> encoding_node" where
  "enc_joined now payload ip sessions jti n =
     n\<lparr>en_name := py_or (dget payload ''name'') (en_name n), en_hwaccel := dget payload ''hwaccel'',
       en_capabilities := dget payload ''capabilities'', en_bench := dget payload ''bench'',
       en_version := dget payload ''version'', en_max_sessions := sessions,
       en_endpoint := endpoint_of payload n ip, en_status := STATUS_ONLINE, en_last_heartbeat_ts := Some now,
       en_last_seen_ip := ip, en_last_error := None, en_token_jti := Some jti\<rparr>"

text \<open>The answer of \<open>join\<close>: the node's identifier, its token and the entity tag of the assignments.\<close>

record join_answer =
  ja_node_id :: string
  ja_node_token :: string
  ja_etag :: string

definition enc_join ::
  "'r token_env \<Rightarrow> ts \<Rightarrow> int \<Rightarrow> db_id \<Rightarrow> pydict \<Rightarrow> string option \<Rightarrow> ('r enc_state, join_answer option) act" where
  "enc_join E now mclk node_id payload ip s =
     (case EncodingNode_get_by_id s node_id of
        None \<Rightarrow> (Inr None, s)
      | Some n \<Rightarrow>
          (case enc_with_tok (issue_node_token E now (en_uuid n) None) (snd (enc_revoke_token E (en_token_jti n) s)) of
             (Inl e, s1) \<Rightarrow> (Inl e, s1)
           | (Inr (token, jti), s1) \<Rightarrow>
               (case max_sessions_of payload of
                  Inl e \<Rightarrow> (Inl e, s1)
                | Inr sessions \<Rightarrow>
                    let s2 = EncodingNode_update node_id (enc_joined now payload ip sessions jti) s1;
                        s3 = snd (enc_rebalance E mclk s2)
                    in (Inr (Some \<lparr>ja_node_id = str_of_int node_id, ja_node_token = token,
                                   ja_etag = enc_current_etag E s3\<rparr>), s3))))"

section \<open>Administration\<close>

definition enc_create_node :: "'r token_env \<Rightarrow> ts \<Rightarrow> db_id \<Rightarrow> pydict \<Rightarrow> ('r enc_state, encoding_node \<times> string) act" where
  "enc_create_node E now new_id data s =
     (if \<not> py_truthy (dget data ''name'') then (Inl (InvalidParameterException ''name required''), s)
      else case enc_with_tok (uuid4 E) s of
             (Inl e, s1) \<Rightarrow> (Inl e, s1)
           | (Inr uuid, s1) \<Rightarrow>
               let n = \<lparr>en_id = new_id, en_uuid = uuid, en_name = dget data ''name'', en_kind = ''remote'',
                        en_endpoint = None, en_status = STATUS_OFFLINE, en_enabled = True, en_hwaccel = PNone,
                        en_max_sessions = 0, en_capabilities = PNone, en_bench = PNone, en_version = PNone,
                        en_assigned_count = 0, en_last_heartbeat_ts = None, en_token_jti = None,
                        en_last_seen_ip = None, en_last_error = None, en_created_at = now, en_deleted_at = None\<rparr>
               in bindE (enc_with_tok (issue_join_token E now new_id None)) (\<lambda>tok. returnE (n, tok))
                    (s1\<lparr>ec_nodes := ec_nodes s1 @ [n]\<rparr>))"

text \<open>\<open>ttl_days\<close> and \<open>sessions\<close> are the values \<open>safe_int\<close> makes of the request's fields.\<close>

definition enc_issue_token :: "'r token_env \<Rightarrow> ts \<Rightarrow> db_id \<Rightarrow> int option \<Rightarrow> ('r enc_state, string) act" where
  "enc_issue_token E now node_id ttl_days s =
     (case EncodingNode_get_by_id s node_id of
        None \<Rightarrow> (Inl RowNotFoundException, s)
      | Some n \<Rightarrow>
          bindE (enc_revoke_token E (en_token_jti n)) (\<lambda>_.
          bindE (enc_with_tok (issue_node_token E now (en_uuid n) ttl_days)) (\<lambda>(token, jti) s2.
            (Inr token, EncodingNode_update node_id (\<lambda>m. m\<lparr>en_token_jti := Some jti\<rparr>) s2))) s)"

definition enc_update_fields :: "int \<Rightarrow> pydict \<Rightarrow> encoding_node \<Rightarrow> encoding_node" where
  "enc_update_fields sessions data n =
     (let n1 = (if dhas data ''name'' then n\<lparr>en_name := dget data ''name''\<rparr> else n);
          n2 = (if dhas data ''endpoint'' then
                  n1\<lparr>en_endpoint := (case dget data ''endpoint'' of PStr (c # cs) \<Rightarrow> Some (c # cs) | _ \<Rightarrow> None)\<rparr> else n1);
          n3 = (if dhas data ''max_sessions'' then n2\<lparr>en_max_sessions := max 0 sessions\<rparr> else n2)
      in if dhas data ''enabled'' then
           (if py_truthy (dget data ''enabled'') then n3\<lparr>en_enabled := True\<rparr>
            else n3\<lparr>en_enabled := False, en_status := STATUS_DRAINING\<rparr>)
         else n3)"

definition enc_update_node :: "'r token_env \<Rightarrow> int \<Rightarrow> db_id \<Rightarrow> int \<Rightarrow> pydict \<Rightarrow> ('r enc_state, unit) act" where
  "enc_update_node E mclk node_id sessions data s =
     (case EncodingNode_get_by_id s node_id of
        None \<Rightarrow> (Inl RowNotFoundException, s)
      | Some n \<Rightarrow>
          let s1 = EncodingNode_update node_id (enc_update_fields sessions data) s
          in (Inr (), if dhas data ''enabled'' \<and> \<not> py_truthy (dget data ''enabled'')
                      then snd (enc_reassign E mclk node_id s1) else s1))"

definition enc_drain :: "'r token_env \<Rightarrow> int \<Rightarrow> db_id \<Rightarrow> ('r enc_state, unit) act" where
  "enc_drain E mclk node_id s =
     (case EncodingNode_get_by_id s node_id of
        None \<Rightarrow> (Inl RowNotFoundException, s)
      | Some n \<Rightarrow>
          (Inr (), snd (enc_reassign E mclk node_id
             (EncodingNode_update node_id (\<lambda>m. m\<lparr>en_status := STATUS_DRAINING\<rparr>) s))))"

definition enc_delete_node :: "'r token_env \<Rightarrow> ts \<Rightarrow> int \<Rightarrow> db_id \<Rightarrow> ('r enc_state, unit) act" where
  "enc_delete_node E now mclk node_id s =
     (case EncodingNode_get_by_id s node_id of
        None \<Rightarrow> (Inl RowNotFoundException, s)
      | Some n \<Rightarrow>
          bindE (enc_revoke_token E (en_token_jti n))
            (\<lambda>_ s1. (Inr (), snd (enc_reassign E mclk node_id (EncodingNode_soft_delete now node_id s1)))) s)"

section \<open>The node guard\<close>

definition encode_node_token_required :: "'r token_env \<Rightarrow> ts \<Rightarrow> string \<Rightarrow> 'r enc_state \<Rightarrow> encoding_node guard" where
  "encode_node_token_required E now header s =
     (case bearer header of
        None \<Rightarrow> NoPermission ''node_auth_required''
      | Some token \<Rightarrow>
          (case verify_node_token E now token (ec_tok s) of
             Inl _ \<Rightarrow> NoPermission ''invalid_node_token''
           | Inr c \<Rightarrow>
               (case EncodingNode_get_by_uuid s (c_sub c) of
                  None \<Rightarrow> Forbidden ''node_disabled''
                | Some n \<Rightarrow>
                    if \<not> en_enabled n \<or> en_deleted_at n \<noteq> None then Forbidden ''node_disabled''
                    else case en_token_jti n of
                           Some j \<Rightarrow> if j \<noteq> [] \<and> c_jti c \<noteq> j then Forbidden ''node_token_superseded'' else Pass n
                         | None \<Rightarrow> Pass n)))"

section \<open>Work orders\<close>

definition ENCODE_PROFILE :: pydict where
  "ENCODE_PROFILE = [(''v_codec'', PStr ''libx264''), (''preset'', PStr ''veryfast''), (''crf'', PInt 23), (''a_codec'', PStr ''aac'')]"

definition raw_name :: "stream \<Rightarrow> string" where "raw_name st = sm_go2rtc_name st @ ''_raw''"
definition enc_name :: "stream \<Rightarrow> string" where "enc_name st = sm_go2rtc_name st @ ''_enc''"

text \<open>\<open>live_job_spec\<close>; \<open>rtsp\<close> is \<open>config.GO2RTC_RTSP\<close>. An unknown camera raises before the \<open>if not cam\<close>.\<close>

definition live_job_spec :: "string \<Rightarrow> db_id \<Rightarrow> 'r enc_state \<Rightarrow> py_error + pydict option" where
  "live_job_spec rtsp c s =
     (case Camera_get_by_id s c of
        Inl e \<Rightarrow> Inl e
      | Inr _ \<Rightarrow>
          (case default_live_stream (ec_streams s) c of
             None \<Rightarrow> Inr None
           | Some st \<Rightarrow>
               if \<not> live_transcode_enabled (c \<in> set (ec_live_transcode s)) st then Inr None
               else Inr (Some ([(''camera_id'', PInt c),
                      (''epoch'', PInt (case enc_get_for_camera (ec_rows s) c of None \<Rightarrow> 0 | Some a \<Rightarrow> ea_epoch a)),
                      (''pull_url'', PStr (rtsp @ ''/'' @ raw_name st)),
                      (''publish_url'', PStr (rtsp @ ''/'' @ enc_name st))] @ ENCODE_PROFILE))))"

definition assignments_for_node :: "string \<Rightarrow> db_id \<Rightarrow> 'r enc_state \<Rightarrow> py_error + pydict list" where
  "assignments_for_node rtsp node s =
     (case mapE (\<lambda>a. live_job_spec rtsp (ea_camera a) s) (enc_for_node (ec_rows s) node) of
        Inl e \<Rightarrow> Inl e
      | Inr specs \<Rightarrow> Inr (List.map_filter id specs))"

text \<open>What a poll of the assignments brings: no answer or one that is not JSON, \<open>304\<close>, an error body (which has no
  \<open>data\<close>), or the entity tag with the work orders.\<close>

datatype poll_reply = NoAnswer | NotModified | ErrorBody | Items string "pydict list"

definition enc_assignments ::
  "'r token_env \<Rightarrow> ts \<Rightarrow> string \<Rightarrow> string \<Rightarrow> string option \<Rightarrow> 'r enc_state \<Rightarrow> poll_reply" where
  "enc_assignments E now rtsp header if_none_match s =
     (case encode_node_token_required E now header s of
        Pass n \<Rightarrow>
          (let etag = enc_current_etag E s in
           if if_none_match = Some etag then NotModified
           else case assignments_for_node rtsp (en_id n) s of
                  Inl _ \<Rightarrow> ErrorBody
                | Inr items \<Rightarrow> Items etag items)
      | _ \<Rightarrow> ErrorBody)"

end
