(* ===== verification/NodeAgents.thy ===== *)
theory NodeAgents
  imports EncodeRegistry "HOL-Library.AList"
begin

text \<open>
  The node agents (\<open>worker/encoder/node_agent.py\<close>, \<open>worker/detector/node_agent.py\<close>). Both poll their work orders and
  reconcile a table of jobs with them; the reconciliation is written once, over the constructor of a job
  and what starting and stopping one does. The encoder's jobs are supervised FFmpeg processes.

  An agent sees the server only through the answers of its requests, which are arguments of a pass of its
  loop, as are the clock, the liveness of processes and the outcome of spawning one. Process operations are kept as a trace.
\<close>

section \<open>Work orders\<close>

definition has_camera :: "pydict \<Rightarrow> bool" where
  "has_camera d = (case dget d ''camera_id'' of PInt _ \<Rightarrow> True | _ \<Rightarrow> False)"

definition job_camera :: "pydict \<Rightarrow> db_id" where
  "job_camera d = (case dget d ''camera_id'' of PInt c \<Rightarrow> c | _ \<Rightarrow> 0)"

text \<open>\<open>{s['camera_id']: s for s in specs}\<close>.\<close>

definition want_of :: "pydict list \<Rightarrow> (db_id \<times> pydict) list" where
  "want_of specs = fold (\<lambda>d. AList.update (job_camera d) d) specs []"

definition reconcile :: "pydict list \<Rightarrow> (db_id \<times> pydict) list \<Rightarrow> pydict list \<times> db_id list \<times> pydict list" where
  "reconcile specs current =
     (let want = want_of specs in
      (map snd (filter (\<lambda>(c, _). map_of current c = None) want),
       filter (\<lambda>c. map_of want c = None) (map fst current),
       map snd (filter (\<lambda>(c, d). case map_of current c of None \<Rightarrow> False | Some d' \<Rightarrow> \<not> py_eq (PDict d') (PDict d)) want)))"

section \<open>The agent\<close>

text \<open>\<open>ag_calls\<close> is the trace of what starting and stopping jobs did; \<open>ag_last_hb\<close> is a local variable of \<open>run\<close>.\<close>

record ('x, 'e) agent =
  ag_token :: "string option"
  ag_node_id :: "string option"
  ag_etag :: "string option"
  ag_jobs :: "(db_id \<times> 'x) list"
  ag_running :: bool
  ag_last_hb :: rat
  ag_calls :: "'e list"

definition new_agent :: "string option \<Rightarrow> ('x, 'e) agent" where
  "new_agent token = \<lparr>ag_token = token, ag_node_id = None, ag_etag = None, ag_jobs = [], ag_running = False,
     ag_last_hb = 0, ag_calls = []\<rparr>"

text \<open>A Python string or \<open>None\<close> is true when it is there and not empty.\<close>

definition given :: "string option \<Rightarrow> string option" where
  "given v = (case v of Some (c # cs) \<Rightarrow> Some (c # cs) | _ \<Rightarrow> None)"

text \<open>\<open>join\<close>: a pre-shared token is enough; without a join token the agent stays idle; \<open>answer\<close> is what the
  server returned for the join token, none for an error or a request that failed.\<close>

definition agent_join :: "string option \<Rightarrow> join_answer option \<Rightarrow> ('x, 'e) agent \<Rightarrow> bool \<times> ('x, 'e) agent" where
  "agent_join join_token answer a =
     (if given (ag_token a) \<noteq> None then (True, a)
      else if given join_token = None then (False, a)
      else case answer of
             None \<Rightarrow> (False, a\<lparr>ag_token := None, ag_node_id := None, ag_etag := None\<rparr>)
           | Some j \<Rightarrow> (ja_node_token j \<noteq> [],
               a\<lparr>ag_token := Some (ja_node_token j), ag_node_id := Some (ja_node_id j), ag_etag := Some (ja_etag j)\<rparr>))"

text \<open>The entity tag that came with a heartbeat: another one than the agent's forces the next poll to fetch.\<close>

definition note_etag :: "string option \<Rightarrow> ('x, 'e) agent \<Rightarrow> ('x, 'e) agent" where
  "note_etag hb a = (case given hb of None \<Rightarrow> a | Some e \<Rightarrow> if ag_etag a = Some e then a else a\<lparr>ag_etag := None\<rparr>)"

text \<open>\<open>poll_assignments\<close>: a body without \<open>data\<close> counts as an empty list of work orders.\<close>

definition poll_assignments :: "(string option \<Rightarrow> poll_reply) \<Rightarrow> ('x, 'e) agent \<Rightarrow> pydict list option \<times> ('x, 'e) agent" where
  "poll_assignments reply a =
     (case reply (given (ag_etag a)) of
        NoAnswer \<Rightarrow> (None, a)
      | NotModified \<Rightarrow> (None, a)
      | ErrorBody \<Rightarrow> (Some [], a)
      | Items e specs \<Rightarrow> (Some specs, a\<lparr>ag_etag := Some e\<rparr>))"

definition stop_job :: "('x \<Rightarrow> 'e list) \<Rightarrow> db_id \<Rightarrow> ('x, 'e) agent \<Rightarrow> ('x, 'e) agent" where
  "stop_job on_stop c a =
     (case map_of (ag_jobs a) c of
        None \<Rightarrow> a
      | Some x \<Rightarrow> a\<lparr>ag_jobs := AList.delete c (ag_jobs a), ag_calls := ag_calls a @ on_stop x\<rparr>)"

definition start_job ::
  "(pydict \<Rightarrow> py_error + 'x) \<Rightarrow> ('x \<Rightarrow> 'e list) \<Rightarrow> pydict \<Rightarrow> (('x, 'e) agent, unit) act" where
  "start_job mk on_start d a =
     (case mk d of
        Inl e \<Rightarrow> (Inl e, a)
      | Inr x \<Rightarrow> (Inr (), a\<lparr>ag_jobs := AList.update (job_camera d) x (ag_jobs a), ag_calls := ag_calls a @ on_start x\<rparr>))"

definition restart_job ::
  "(pydict \<Rightarrow> py_error + 'x) \<Rightarrow> ('x \<Rightarrow> 'e list) \<Rightarrow> ('x \<Rightarrow> 'e list) \<Rightarrow> pydict \<Rightarrow> (('x, 'e) agent, unit) act" where
  "restart_job mk on_start on_stop d a = start_job mk on_start d (stop_job on_stop (job_camera d) a)"

definition apply_jobs ::
  "(pydict \<Rightarrow> py_error + 'x) \<Rightarrow> ('x \<Rightarrow> pydict) \<Rightarrow> ('x \<Rightarrow> 'e list) \<Rightarrow> ('x \<Rightarrow> 'e list) \<Rightarrow> pydict list \<Rightarrow> (('x, 'e) agent, unit) act" where
  "apply_jobs mk spec_of on_start on_stop specs a =
     (if \<not> list_all has_camera specs then (Inl (KeyError ''camera_id''), a)
      else case reconcile specs (map (\<lambda>(c, x). (c, spec_of x)) (ag_jobs a)) of
        (to_start, to_stop, to_update) \<Rightarrow>
          bindE (each (restart_job mk on_start on_stop) to_update) (\<lambda>_. each (start_job mk on_start) to_start)
            (fold (stop_job on_stop) to_stop a))"

section \<open>Reconciliation\<close>

lemma want_of_keys: "distinct (map fst (want_of specs))"
proof -
  have "distinct (map fst (fold (\<lambda>d. AList.update (job_camera d) d) specs al))" if "distinct (map fst al)" for al
    using that by (induction specs arbitrary: al) (simp_all add: distinct_update)
  then show ?thesis by (simp add: want_of_def)
qed

lemma want_of_mem: "(c, d) \<in> set (want_of specs) \<Longrightarrow> job_camera d = c \<and> d \<in> set specs"
proof -
  have "(\<forall>(c, d) \<in> set (fold (\<lambda>d. AList.update (job_camera d) d) ds al). job_camera d = c \<and> d \<in> S)"
    if "\<forall>(c, d) \<in> set al. job_camera d = c \<and> d \<in> S" "set ds \<subseteq> S" for al ds S
    using that
  proof (induction ds arbitrary: al)
    case Nil
    then show ?case by simp
  next
    case (Cons d ds)
    have "set (AList.update (job_camera d) d al) \<subseteq> insert (job_camera d, d) (set al)"
      by (induction al) auto
    then have "\<forall>(c, e) \<in> set (AList.update (job_camera d) d al). job_camera e = c \<and> e \<in> S"
      using Cons.prems by fastforce
    then show ?case using Cons.IH Cons.prems(2) by simp
  qed
  from this [of "[]" "set specs" specs] show "(c, d) \<in> set (want_of specs) \<Longrightarrow> job_camera d = c \<and> d \<in> set specs"
    by (auto simp: want_of_def)
qed

lemma want_of_get: "map_of (want_of specs) c = Some d \<Longrightarrow> job_camera d = c \<and> d \<in> set specs"
  using want_of_mem map_of_SomeD by fastforce

lemma want_of_dom: "map_of (want_of specs) c \<noteq> None \<longleftrightarrow> c \<in> job_camera ` set specs"
proof -
  have "c \<in> dom (map_of (fold (\<lambda>d. AList.update (job_camera d) d) ds al)) \<longleftrightarrow> c \<in> dom (map_of al) \<union> job_camera ` set ds" for ds al
    by (induction ds arbitrary: al) (auto simp: update_conv')
  from this [of specs "[]"] show ?thesis by (auto simp: want_of_def)
qed

lemma want_filter_cams:
  "map job_camera (map snd (filter P (want_of specs))) = map fst (filter P (want_of specs))"
  using want_of_mem by (auto simp: map_eq_conv)

lemma want_filter_distinct: "distinct (map job_camera (map snd (filter P (want_of specs))))"
  unfolding want_filter_cams using want_of_keys by (rule distinct_map_filter)

lemma want_filter_mem:
  "d \<in> set (map snd (filter P (want_of specs))) \<longleftrightarrow> map_of (want_of specs) (job_camera d) = Some d \<and> P (job_camera d, d)"
proof
  assume "d \<in> set (map snd (filter P (want_of specs)))"
  then obtain c where cd: "(c, d) \<in> set (want_of specs)" "P (c, d)" by auto
  then show "map_of (want_of specs) (job_camera d) = Some d \<and> P (job_camera d, d)"
    using want_of_mem [OF cd(1)] map_of_is_SomeI [OF want_of_keys cd(1)] by simp
next
  assume "map_of (want_of specs) (job_camera d) = Some d \<and> P (job_camera d, d)"
  then show "d \<in> set (map snd (filter P (want_of specs)))" by (force dest: map_of_SomeD)
qed

lemma want_filter_cam:
  "c \<in> job_camera ` set (map snd (filter P (want_of specs))) \<longleftrightarrow> (\<exists>d. map_of (want_of specs) c = Some d \<and> P (c, d))"
  unfolding image_iff Bex_def want_filter_mem using want_of_get by metis

text \<open>The loops of \<open>apply_specs\<close>.\<close>

lemma stop_job_get: "map_of (ag_jobs (stop_job f c a)) = (map_of (ag_jobs a))(c := None)"
  by (auto simp: stop_job_def delete_conv' split: option.splits)

lemma stop_jobs_get: "map_of (ag_jobs (fold (stop_job f) cs a)) c = (if c \<in> set cs then None else map_of (ag_jobs a) c)"
  by (induction cs arbitrary: a) (auto simp: stop_job_get)

lemma start_jobs_get:
  assumes "each step ds a = (Inr (), a')" and "distinct (map job_camera ds)"
    and step: "\<And>d a1 a2. step d a1 = (Inr (), a2) \<Longrightarrow> \<exists>x. mk d = Inr x \<and> map_of (ag_jobs a2) = (map_of (ag_jobs a1))(job_camera d \<mapsto> x)"
  shows "(\<forall>d \<in> set ds. \<exists>x. mk d = Inr x \<and> map_of (ag_jobs a') (job_camera d) = Some x)
    \<and> (\<forall>c. c \<notin> job_camera ` set ds \<longrightarrow> map_of (ag_jobs a') c = map_of (ag_jobs a) c)"
  using assms(1,2)
proof (induction ds arbitrary: a)
  case Nil
  then show ?case by simp
next
  case (Cons d ds)
  obtain a1 where a1: "step d a = (Inr (), a1)" "each step ds a1 = (Inr (), a')"
    using Cons.prems(1) by (auto split: prod.splits sum.splits)
  obtain x where x: "mk d = Inr x" "map_of (ag_jobs a1) = (map_of (ag_jobs a))(job_camera d \<mapsto> x)"
    using step [OF a1(1)] by blast
  have IH: "\<forall>d \<in> set ds. \<exists>x. mk d = Inr x \<and> map_of (ag_jobs a') (job_camera d) = Some x"
    "\<And>c. c \<notin> job_camera ` set ds \<Longrightarrow> map_of (ag_jobs a') c = map_of (ag_jobs a1) c"
    using Cons.IH [OF a1(2)] Cons.prems(2) by auto
  have "job_camera d \<notin> job_camera ` set ds" using Cons.prems(2) by simp
  then have "map_of (ag_jobs a') (job_camera d) = Some x" using IH(2) x(2) by simp
  then show ?case using IH x by auto
qed

text \<open>What a successful \<open>apply_specs\<close> leaves for one camera: nothing for one without a work order, the very same job
  where its order is equal to the wanted one, a new job otherwise.\<close>

definition settled ::
  "(pydict \<Rightarrow> py_error + 'x) \<Rightarrow> ('x \<Rightarrow> pydict) \<Rightarrow> pydict list \<Rightarrow> ('x, 'e) agent \<Rightarrow> ('x, 'e) agent \<Rightarrow> db_id \<Rightarrow> bool" where
  "settled mk spec_of specs a a' c =
     (case map_of (want_of specs) c of
        None \<Rightarrow> map_of (ag_jobs a') c = None
      | Some d \<Rightarrow>
          (case map_of (ag_jobs a) c of
             Some x \<Rightarrow> if py_eq (PDict (spec_of x)) (PDict d) then map_of (ag_jobs a') c = Some x
                       else \<exists>y. mk d = Inr y \<and> map_of (ag_jobs a') c = Some y
           | None \<Rightarrow> \<exists>y. mk d = Inr y \<and> map_of (ag_jobs a') c = Some y))"

text \<open>
  The contract of an agent's job type: a job remembers the work order it was made from. It is what
  makes the reconciliation converge.
\<close>

locale job_type =
  fixes mk :: "pydict \<Rightarrow> py_error + 'x" and spec_of :: "'x \<Rightarrow> pydict"
    and on_start :: "'x \<Rightarrow> 'e list" and on_stop :: "'x \<Rightarrow> 'e list"
  assumes spec_of_mk: "mk d = Inr x \<Longrightarrow> spec_of x = d"
begin

lemma start_job_step: "start_job mk on_start d a1 = (Inr (), a2) \<Longrightarrow> \<exists>x. mk d = Inr x \<and> map_of (ag_jobs a2) = (map_of (ag_jobs a1))(job_camera d \<mapsto> x)"
  by (auto simp: start_job_def update_conv' split: sum.splits)

lemma restart_job_step: "restart_job mk on_start on_stop d a1 = (Inr (), a2) \<Longrightarrow> \<exists>x. mk d = Inr x \<and> map_of (ag_jobs a2) = (map_of (ag_jobs a1))(job_camera d \<mapsto> x)"
  unfolding restart_job_def by (drule start_job_step) (simp add: stop_job_get)

lemma current_specs: "map_of (map (\<lambda>(c, x). (c, spec_of x)) xs) c = map_option spec_of (map_of xs c)"
  by (induction xs) auto

lemma apply_jobs_settles:
  assumes "apply_jobs mk spec_of on_start on_stop specs a = (Inr (), a')"
  shows "settled mk spec_of specs a a' c"
proof -
  let ?cur = "map (\<lambda>(c, x). (c, spec_of x)) (ag_jobs a)"
  let ?up = "map snd (filter (\<lambda>(c, d). case map_of ?cur c of None \<Rightarrow> False | Some d' \<Rightarrow> \<not> py_eq (PDict d') (PDict d)) (want_of specs))"
  let ?new = "map snd (filter (\<lambda>(c, _). map_of ?cur c = None) (want_of specs))"
  let ?gone = "filter (\<lambda>c. map_of (want_of specs) c = None) (map fst ?cur)"
  let ?a0 = "fold (stop_job on_stop) ?gone a"
  obtain a1 where up: "each (restart_job mk on_start on_stop) ?up ?a0 = (Inr (), a1)"
    and new: "each (start_job mk on_start) ?new a1 = (Inr (), a')"
    using assms by (auto simp: apply_jobs_def reconcile_def Let_def split: if_splits prod.splits sum.splits)
  have gone: "map_of (ag_jobs ?a0) c = (if map_of (want_of specs) c = None then None else map_of (ag_jobs a) c)"
    by (auto simp: stop_jobs_get current_specs map_of_eq_None_iff image_iff)
  note u = start_jobs_get [OF up want_filter_distinct restart_job_step]
  note n = start_jobs_get [OF new want_filter_distinct start_job_step]
  have c_up: "c \<in> job_camera ` set ?up \<longleftrightarrow>
      (\<exists>d x. map_of (want_of specs) c = Some d \<and> map_of (ag_jobs a) c = Some x \<and> \<not> py_eq (PDict (spec_of x)) (PDict d))"
    unfolding want_filter_cam by (cases "map_of (ag_jobs a) c") (simp_all add: current_specs del: py_eq.simps)
  have c_new: "c \<in> job_camera ` set ?new \<longleftrightarrow> map_of (want_of specs) c \<noteq> None \<and> map_of (ag_jobs a) c = None"
    unfolding want_filter_cam by (auto simp: current_specs)
  show ?thesis
  proof (cases "map_of (want_of specs) c")
    case None
    then have "c \<notin> job_camera ` set ?up" "c \<notin> job_camera ` set ?new" using c_up c_new by simp_all
    then have "map_of (ag_jobs a') c = map_of (ag_jobs ?a0) c" using u n by metis
    then show ?thesis using None gone by (simp add: settled_def)
  next
    case (Some d)
    have cam: "job_camera d = c" using want_of_get [OF Some] by simp
    show ?thesis
    proof (cases "map_of (ag_jobs a) c")
      case None
      then have "d \<in> set ?new" using Some cam want_filter_mem [of d _ specs] by (simp add: current_specs)
      then obtain y where "mk d = Inr y" "map_of (ag_jobs a') c = Some y" using n cam by blast
      then show ?thesis using Some None by (simp add: settled_def)
    next
      case (Some x)
      have not_new: "c \<notin> job_camera ` set ?new" using c_new Some by simp
      show ?thesis
      proof (cases "py_eq (PDict (spec_of x)) (PDict d)")
        case True
        then have "c \<notin> job_camera ` set ?up" using c_up Some \<open>map_of (want_of specs) c = Some d\<close> by simp
        then have "map_of (ag_jobs a') c = map_of (ag_jobs ?a0) c" using u n not_new by metis
        then show ?thesis using True Some gone \<open>map_of (want_of specs) c = Some d\<close> by (simp add: settled_def)
      next
        case False
        then have "d \<in> set ?up" using Some cam \<open>map_of (want_of specs) c = Some d\<close> want_filter_mem [of d _ specs]
          by (simp add: current_specs)
        then obtain y where "mk d = Inr y" "map_of (ag_jobs a1) c = Some y" using u cam by blast
        moreover have "map_of (ag_jobs a') c = map_of (ag_jobs a1) c" using n not_new by blast
        ultimately show ?thesis using False Some \<open>map_of (want_of specs) c = Some d\<close>
          by (simp add: settled_def del: py_eq.simps)
      qed
    qed
  qed
qed

text \<open>So the jobs are those of the work orders, each made from an order equal to the wanted one.\<close>

lemma py_eq_kept:
  assumes "settled mk spec_of specs a a' c" and "map_of (want_of specs) c = Some d"
  shows "\<exists>x. map_of (ag_jobs a') c = Some x \<and> (spec_of x = d \<or> py_eq (PDict (spec_of x)) (PDict d))"
  using assms spec_of_mk by (auto simp: settled_def split: option.splits if_splits)

lemma settled_dom:
  assumes "\<And>c. settled mk spec_of specs a a' c"
  shows "dom (map_of (ag_jobs a')) = job_camera ` set specs"
proof -
  have "map_of (ag_jobs a') c \<noteq> None \<longleftrightarrow> map_of (want_of specs) c \<noteq> None" for c
  proof (cases "map_of (want_of specs) c")
    case None
    then show ?thesis using assms [of c] by (simp add: settled_def)
  next
    case (Some d)
    then show ?thesis using py_eq_kept [OF assms Some] by auto
  qed
  then show ?thesis using want_of_dom [of specs] by (auto simp: dom_def)
qed

end

section \<open>Encode sessions\<close>

definition SESSION_BACKOFF_START :: rat where "SESSION_BACKOFF_START = 1"
definition SESSION_BACKOFF_MAX :: rat where "SESSION_BACKOFF_MAX = 15"
definition MIN_HEALTHY_S :: rat where "MIN_HEALTHY_S = 3"
definition STABLE_RESET_S :: rat where "STABLE_RESET_S = 30"

definition ALLOWED_PRESETS :: "string list" where
  "ALLOWED_PRESETS = [''ultrafast'', ''superfast'', ''veryfast'', ''faster'', ''fast'', ''medium'']"

definition HW_ENCODERS :: "(string \<times> string) list" where
  "HW_ENCODERS = [(''none'', ''libx264''), (''nvenc'', ''h264_nvenc''), (''qsv'', ''h264_qsv''),
     (''vaapi'', ''h264_vaapi''), (''videotoolbox'', ''h264_videotoolbox'')]"

record encoder_cfg =
  ef_hwaccel :: string
  ef_ffmpeg_bin :: string
  ef_advertise_url :: "string option"
  ef_heartbeat_interval :: rat

definition hw_encoder :: "encoder_cfg \<Rightarrow> string" where
  "hw_encoder cfg = (case map_of HW_ENCODERS (ef_hwaccel cfg) of None \<Rightarrow> ''libx264'' | Some e \<Rightarrow> e)"

text \<open>\<open>(v or '').startswith('rtsp://')\<close>.\<close>

definition rtsp_url :: "pyval \<Rightarrow> py_error + string option" where
  "rtsp_url v =
     (case py_or v (PStr []) of
        PStr u \<Rightarrow> Inr (if take 7 u = ''rtsp://'' then Some u else None)
      | _ \<Rightarrow> Inl (AttributeError ''startswith''))"

definition live_argv :: "encoder_cfg \<Rightarrow> string \<Rightarrow> string \<Rightarrow> string \<Rightarrow> int \<Rightarrow> string list" where
  "live_argv cfg pull publish preset crf =
     [ef_ffmpeg_bin cfg, ''-hide_banner'', ''-loglevel'', ''warning'', ''-rtsp_transport'', ''tcp'', ''-i'', pull,
      ''-map'', ''0:v:0'', ''-map'', ''0:a?'']
     @ (if hw_encoder cfg = ''libx264''
        then [''-c:v'', ''libx264'', ''-preset'', preset, ''-crf'', str_of_int crf, ''-pix_fmt'', ''yuv420p'']
        else [''-c:v'', hw_encoder cfg, ''-b:v'', ''4M''])
     @ [''-c:a'', ''aac'', ''-f'', ''rtsp'', ''-rtsp_transport'', ''tcp'', publish]"

definition build_live_cmd :: "encoder_cfg \<Rightarrow> pydict \<Rightarrow> py_error + string list option" where
  "build_live_cmd cfg spec =
     (case rtsp_url (dget spec ''pull_url'') of
        Inl e \<Rightarrow> Inl e
      | Inr None \<Rightarrow> Inr None
      | Inr (Some pull) \<Rightarrow>
          (case rtsp_url (dget spec ''publish_url'') of
             Inl e \<Rightarrow> Inl e
           | Inr None \<Rightarrow> Inr None
           | Inr (Some publish) \<Rightarrow>
               if dget spec ''v_codec'' \<noteq> PStr ''libx264'' \<and> dget spec ''v_codec'' \<noteq> PStr ''h264'' then Inr None
               else (case py_or (dget spec ''preset'') (PStr ''veryfast'') of
                       PStr preset \<Rightarrow>
                         if preset \<notin> set ALLOWED_PRESETS then Inr None
                         else (case py_int (dget_or spec ''crf'' (PInt 23)) of
                                 Inl _ \<Rightarrow> Inr None
                               | Inr n \<Rightarrow> Inr (Some (live_argv cfg pull publish preset (min 51 (max 0 n)))))
                     | PList _ \<Rightarrow> Inl (TypeError ''unhashable'')
                     | PDict _ \<Rightarrow> Inl (TypeError ''unhashable'')
                     | _ \<Rightarrow> Inr None)))"

datatype proc_call = Spawned nat | StopProc nat | Reaped nat

record encode_session =
  es_spec :: pydict
  es_popen :: "nat option"
  es_started_at :: rat
  es_backoff :: rat
  es_next_retry :: rat
  es_restart_count :: nat

definition EncodeSession :: "pydict \<Rightarrow> encode_session" where
  "EncodeSession spec = \<lparr>es_spec = spec, es_popen = None, es_started_at = 0, es_backoff = SESSION_BACKOFF_START,
     es_next_retry = 0, es_restart_count = 0\<rparr>"

text \<open>The answers of one supervision round: the clock at each session's turn, which processes live, and for a
  command the process and the time it started, or none when spawning raises.\<close>

record tick_env =
  te_now :: "db_id \<Rightarrow> rat"
  te_alive :: "nat \<Rightarrow> bool"
  te_spawn :: "string list \<Rightarrow> (nat \<times> rat) option"

definition es_alive :: "(nat \<Rightarrow> bool) \<Rightarrow> encode_session \<Rightarrow> bool" where
  "es_alive alive x = (case es_popen x of None \<Rightarrow> False | Some p \<Rightarrow> alive p)"

text \<open>\<open>_start\<close>, with the exception it raises, if any, and the process operations.\<close>

definition es_start ::
  "encoder_cfg \<Rightarrow> (string list \<Rightarrow> (nat \<times> rat) option) \<Rightarrow> encode_session \<Rightarrow> py_error option \<times> proc_call list \<times> encode_session" where
  "es_start cfg spawn x =
     (case build_live_cmd cfg (es_spec x) of
        Inl e \<Rightarrow> (Some e, [], x)
      | Inr None \<Rightarrow> (None, [], x)
      | Inr (Some argv) \<Rightarrow>
          (case spawn argv of
             None \<Rightarrow> (None, [], x\<lparr>es_popen := None\<rparr>)
           | Some (pid, t) \<Rightarrow> (None, [Spawned pid], x\<lparr>es_popen := Some pid, es_started_at := t\<rparr>)))"

definition es_retry ::
  "encoder_cfg \<Rightarrow> rat \<Rightarrow> (string list \<Rightarrow> (nat \<times> rat) option) \<Rightarrow> encode_session \<Rightarrow> py_error option \<times> proc_call list \<times> encode_session" where
  "es_retry cfg now spawn x = (if es_next_retry x \<le> now then es_start cfg spawn x else (None, [], x))"

definition es_died :: "rat \<Rightarrow> encode_session \<Rightarrow> encode_session" where
  "es_died now x = x\<lparr>es_restart_count := es_restart_count x + 1, es_next_retry := now + es_backoff x,
     es_backoff := min (es_backoff x * 2) SESSION_BACKOFF_MAX, es_popen := None\<rparr>"

definition es_tick :: "encoder_cfg \<Rightarrow> tick_env \<Rightarrow> db_id \<Rightarrow> encode_session \<Rightarrow> py_error option \<times> proc_call list \<times> encode_session" where
  "es_tick cfg E c x =
     (let now = te_now E c in
      if es_alive (te_alive E) x then
        (None, [], if es_backoff x \<noteq> SESSION_BACKOFF_START \<and> now - es_started_at x > STABLE_RESET_S
                   then x\<lparr>es_backoff := SESSION_BACKOFF_START\<rparr> else x)
      else case es_popen x of
             None \<Rightarrow> es_retry cfg now (te_spawn E) x
           | Some p \<Rightarrow> (case es_retry cfg now (te_spawn E) (es_died now x) of (err, calls, y) \<Rightarrow> (err, Reaped p # calls, y)))"

definition es_healthy :: "rat \<Rightarrow> (nat \<Rightarrow> bool) \<Rightarrow> encode_session \<Rightarrow> bool" where
  "es_healthy now alive x \<longleftrightarrow> es_alive alive x \<and> now - es_started_at x \<ge> MIN_HEALTHY_S"

definition es_stop :: "encode_session \<Rightarrow> proc_call list" where
  "es_stop x = (case es_popen x of None \<Rightarrow> [] | Some p \<Rightarrow> [StopProc p])"

section \<open>The encoder agent\<close>

type_synonym encoder = "(encode_session, proc_call) agent"

definition enc_apply_specs :: "pydict list \<Rightarrow> (encoder, unit) act" where
  "enc_apply_specs = apply_jobs (\<lambda>d. Inr (EncodeSession d)) es_spec (\<lambda>_. []) es_stop"

definition tick_session :: "encoder_cfg \<Rightarrow> tick_env \<Rightarrow> db_id \<Rightarrow> (encoder, unit) act" where
  "tick_session cfg E c a =
     (case map_of (ag_jobs a) c of
        None \<Rightarrow> (Inr (), a)
      | Some x \<Rightarrow>
          (case es_tick cfg E c x of
             (err, calls, y) \<Rightarrow>
               (case err of None \<Rightarrow> Inr () | Some e \<Rightarrow> Inl e,
                a\<lparr>ag_jobs := AList.update c y (ag_jobs a), ag_calls := ag_calls a @ calls\<rparr>)))"

text \<open>The payload of a heartbeat: only sessions that have been up for a while count as active.\<close>

definition heartbeat_payload :: "encoder_cfg \<Rightarrow> rat \<Rightarrow> (nat \<Rightarrow> bool) \<Rightarrow> encoder \<Rightarrow> pydict" where
  "heartbeat_payload cfg now alive a =
     [(''status'', PStr ''online''),
      (''active_sessions'', PList (map (\<lambda>(c, _). PInt c) (filter (\<lambda>(_, x). es_healthy now alive x) (ag_jobs a))))]
     @ (case given (ef_advertise_url cfg) of None \<Rightarrow> [] | Some u \<Rightarrow> [(''endpoint'', PStr u)])"

text \<open>One round of \<open>run\<close>: \<open>pe_hb\<close> is the entity tag in the heartbeat's answer, none when the request failed.\<close>

record pass_env =
  pe_now :: rat
  pe_hb :: "string option"
  pe_reply :: "string option \<Rightarrow> poll_reply"
  pe_tick :: tick_env

definition pass_heartbeat :: "encoder_cfg \<Rightarrow> pass_env \<Rightarrow> encoder \<Rightarrow> encoder" where
  "pass_heartbeat cfg P a =
     (if pe_now P - ag_last_hb a \<ge> ef_heartbeat_interval cfg then (note_etag (pe_hb P) a)\<lparr>ag_last_hb := pe_now P\<rparr> else a)"

definition enc_pass :: "encoder_cfg \<Rightarrow> pass_env \<Rightarrow> (encoder, unit) act" where
  "enc_pass cfg P a =
     (case poll_assignments (pe_reply P) (pass_heartbeat cfg P a) of
        (specs, a1) \<Rightarrow>
          bindE (case specs of None \<Rightarrow> returnE () | Some ds \<Rightarrow> enc_apply_specs ds)
            (\<lambda>_ a2. each (tick_session cfg (pe_tick P)) (map fst (ag_jobs a2)) a2) a1)"

text \<open>The agent's thread: rounds until one raises.\<close>

fun enc_run :: "encoder_cfg \<Rightarrow> pass_env list \<Rightarrow> (encoder, unit) act" where
  "enc_run cfg [] a = (Inr (), a)"
| "enc_run cfg (P # Ps) a = (case enc_pass cfg P a of (Inl e, a1) \<Rightarrow> (Inl e, a1) | (Inr _, a1) \<Rightarrow> enc_run cfg Ps a1)"

text \<open>\<open>stop\<close> stops every session and keeps the table.\<close>

definition enc_stop :: "encoder \<Rightarrow> encoder" where
  "enc_stop a = a\<lparr>ag_running := False, ag_jobs := map (\<lambda>(c, x). (c, x\<lparr>es_popen := None\<rparr>)) (ag_jobs a),
     ag_calls := ag_calls a @ concat (map (\<lambda>(_, x). es_stop x) (ag_jobs a))\<rparr>"

interpretation encoder_jobs: job_type "\<lambda>d. Inr (EncodeSession d)" es_spec "\<lambda>_. []" es_stop
  by unfold_locales (auto simp: EncodeSession_def)

end
