(* ===== verification/NodeAgentProps.thy ===== *)
theory NodeAgentProps
  imports NodeAgents
begin

text \<open>
  Properties of the node agents: jobs and what they hold are accounted for, the table converges to the
  server's work orders, the encoder's thread never dies of an answer of the server, only a session that has been up for a
  while is confirmed, and two ways in which an agent ends up idle although it has work.
\<close>

section \<open>What jobs hold\<close>

text \<open>
  A job holds handles (a process, a thread). Making a job opens what it holds and stopping it closes
  that; the trace of an agent then accounts for everything its table holds.
\<close>

definition held :: "('x \<Rightarrow> 'h multiset) \<Rightarrow> (db_id \<times> 'x) list \<Rightarrow> 'h multiset" where
  "held handles jobs = sum_list (map (\<lambda>(_, x). handles x) jobs)"

lemma held_simps [simp]: "held f [] = {#}" "held f ((c, x) # jobs) = f x + held f jobs"
  by (simp_all add: held_def)

lemma held_delete:
  assumes "distinct (map fst jobs)" and "map_of jobs c = Some x"
  shows "held f jobs = f x + held f (AList.delete c jobs)"
  using assms
proof (induction jobs)
  case Nil
  then show ?case by simp
next
  case (Cons p jobs)
  obtain d y where p: "p = (d, y)" by (rule prod.exhaust)
  show ?case
  proof (cases "d = c")
    case True
    then have "AList.delete c jobs = jobs" using Cons.prems(1) p by (simp add: delete_id)
    then show ?thesis using Cons.prems(2) p True by simp
  next
    case False
    then show ?thesis using Cons p by (simp add: ac_simps)
  qed
qed

lemma held_update_new: "map_of jobs c = None \<Longrightarrow> held f (AList.update c x jobs) = held f jobs + f x"
  by (induction jobs) (auto simp: ac_simps split: if_splits)

lemma held_update: "map_of jobs c = Some x \<Longrightarrow> held f (AList.update c y jobs) + f x = held f jobs + f y"
  by (induction jobs) (auto simp: ac_simps split: if_splits)

locale accounted_jobs = job_type mk spec_of on_start on_stop
  for mk :: "pydict \<Rightarrow> py_error + 'x" and spec_of and on_start :: "'x \<Rightarrow> 'e list" and on_stop +
  fixes handles :: "'x \<Rightarrow> 'h multiset" and opened closed :: "'e list \<Rightarrow> 'h multiset"
  assumes opened_append: "opened (xs @ ys) = opened xs + opened ys"
    and closed_append: "closed (xs @ ys) = closed xs + closed ys"
    and start_opens: "mk d = Inr x \<Longrightarrow> opened (on_start x) = handles x + closed (on_start x)"
    and stop_closes: "closed (on_stop x) = handles x + opened (on_stop x)"
begin

lemma stop_job_balanced:
  assumes "distinct (map fst (ag_jobs a))" and "opened (ag_calls a) = held handles (ag_jobs a) + closed (ag_calls a)"
  shows "distinct (map fst (ag_jobs (stop_job on_stop c a)))
    \<and> opened (ag_calls (stop_job on_stop c a)) = held handles (ag_jobs (stop_job on_stop c a)) + closed (ag_calls (stop_job on_stop c a))"
proof (cases "map_of (ag_jobs a) c")
  case None
  then show ?thesis using assms by (simp add: stop_job_def)
next
  case (Some x)
  then show ?thesis using assms held_delete [OF assms(1) Some, of handles]
    by (simp add: stop_job_def distinct_delete opened_append closed_append stop_closes ac_simps)
qed

lemma start_job_balanced:
  assumes "distinct (map fst (ag_jobs a))" and "opened (ag_calls a) = held handles (ag_jobs a) + closed (ag_calls a)"
    and "map_of (ag_jobs a) (job_camera d) = None" and "start_job mk on_start d a = (r, a')"
  shows "distinct (map fst (ag_jobs a')) \<and> opened (ag_calls a') = held handles (ag_jobs a') + closed (ag_calls a')"
  using assms
  by (auto simp: start_job_def distinct_update opened_append closed_append start_opens held_update_new ac_simps split: sum.splits)

lemma restart_job_balanced:
  assumes "distinct (map fst (ag_jobs a))" and "opened (ag_calls a) = held handles (ag_jobs a) + closed (ag_calls a)"
    and "restart_job mk on_start on_stop d a = (r, a')"
  shows "distinct (map fst (ag_jobs a')) \<and> opened (ag_calls a') = held handles (ag_jobs a') + closed (ag_calls a')"
  using stop_job_balanced [OF assms(1,2), of "job_camera d"] assms(3) unfolding restart_job_def
  by (elim conjE) (rule start_job_balanced, simp_all add: stop_job_get)

lemma stop_jobs_balanced:
  assumes "distinct (map fst (ag_jobs a))" and "opened (ag_calls a) = held handles (ag_jobs a) + closed (ag_calls a)"
    and "a' = fold (stop_job on_stop) cs a"
  shows "distinct (map fst (ag_jobs a')) \<and> opened (ag_calls a') = held handles (ag_jobs a') + closed (ag_calls a')"
  using assms
proof (induction cs arbitrary: a)
  case Nil
  then show ?case by simp
next
  case (Cons c cs)
  note b = stop_job_balanced [OF Cons.prems(1,2), of c]
  show ?case using Cons.IH [OF conjunct1 [OF b] conjunct2 [OF b]] Cons.prems(3) by simp
qed

lemma restart_jobs_balanced:
  assumes "distinct (map fst (ag_jobs a))" and "opened (ag_calls a) = held handles (ag_jobs a) + closed (ag_calls a)"
    and "each (restart_job mk on_start on_stop) ds a = (r, a')"
  shows "distinct (map fst (ag_jobs a')) \<and> opened (ag_calls a') = held handles (ag_jobs a') + closed (ag_calls a')"
  using assms
proof (induction ds arbitrary: a)
  case Nil
  then show ?case by simp
next
  case (Cons d ds)
  obtain q a1 where s: "restart_job mk on_start on_stop d a = (q, a1)" by (rule prod.exhaust)
  note b = restart_job_balanced [OF Cons.prems(1,2) s]
  show ?case
  proof (cases q)
    case (Inl e)
    then show ?thesis using Cons.prems(3) s b by simp
  next
    case (Inr u)
    then show ?thesis using Cons.IH [OF conjunct1 [OF b] conjunct2 [OF b]] Cons.prems(3) s by simp
  qed
qed

lemma start_jobs_balanced:
  assumes "distinct (map fst (ag_jobs a))" and "opened (ag_calls a) = held handles (ag_jobs a) + closed (ag_calls a)"
    and "each (start_job mk on_start) ds a = (r, a')" and "distinct (map job_camera ds)"
    and "\<And>d. d \<in> set ds \<Longrightarrow> map_of (ag_jobs a) (job_camera d) = None"
  shows "distinct (map fst (ag_jobs a')) \<and> opened (ag_calls a') = held handles (ag_jobs a') + closed (ag_calls a')"
  using assms
proof (induction ds arbitrary: a)
  case Nil
  then show ?case by simp
next
  case (Cons d ds)
  obtain q a1 where s: "start_job mk on_start d a = (q, a1)" by (rule prod.exhaust)
  note b = start_job_balanced [OF Cons.prems(1,2) Cons.prems(5) s, OF list.set_intros(1)]
  show ?case
  proof (cases q)
    case (Inl e)
    then show ?thesis using Cons.prems(3) s b by simp
  next
    case (Inr u)
    have fresh: "map_of (ag_jobs a1) (job_camera e) = None" if "e \<in> set ds" for e
    proof -
      have "job_camera d \<notin> job_camera ` set ds" using Cons.prems(4) by simp
      then have "job_camera e \<noteq> job_camera d" using that by (metis imageI)
      moreover have "map_of (ag_jobs a) (job_camera e) = None" using Cons.prems(5) that by simp
      moreover obtain x where "map_of (ag_jobs a1) = (map_of (ag_jobs a))(job_camera d \<mapsto> x)"
        using start_job_step [of d a a1] s Inr by auto
      ultimately show ?thesis by simp
    qed
    show ?thesis using Cons.IH [OF conjunct1 [OF b] conjunct2 [OF b]] Cons.prems(3,4) s Inr fresh by simp
  qed
qed

lemma apply_jobs_balanced:
  assumes "distinct (map fst (ag_jobs a))" and "opened (ag_calls a) = held handles (ag_jobs a) + closed (ag_calls a)"
    and "apply_jobs mk spec_of on_start on_stop specs a = (r, a')"
  shows "distinct (map fst (ag_jobs a')) \<and> opened (ag_calls a') = held handles (ag_jobs a') + closed (ag_calls a')"
proof (cases "list_all has_camera specs")
  case False
  then show ?thesis using assms by (simp add: apply_jobs_def)
next
  case True
  let ?cur = "map (\<lambda>(c, x). (c, spec_of x)) (ag_jobs a)"
  let ?up = "map snd (filter (\<lambda>(c, d). case map_of ?cur c of None \<Rightarrow> False | Some d' \<Rightarrow> \<not> py_eq (PDict d') (PDict d)) (want_of specs))"
  let ?new = "map snd (filter (\<lambda>(c, _). map_of ?cur c = None) (want_of specs))"
  let ?gone = "filter (\<lambda>c. map_of (want_of specs) c = None) (map fst ?cur)"
  let ?a0 = "fold (stop_job on_stop) ?gone a"
  note b0 = stop_jobs_balanced [OF assms(1,2) refl, of ?gone]
  obtain q a1 where up: "each (restart_job mk on_start on_stop) ?up ?a0 = (q, a1)" by (rule prod.exhaust)
  note b1 = restart_jobs_balanced [OF conjunct1 [OF b0] conjunct2 [OF b0] up]
  show ?thesis
  proof (cases q)
    case (Inl e)
    then show ?thesis using assms(3) True up b1 by (simp add: apply_jobs_def reconcile_def Let_def)
  next
    case (Inr u)
    then have up': "each (restart_job mk on_start on_stop) ?up ?a0 = (Inr (), a1)" using up by simp
    have new: "each (start_job mk on_start) ?new a1 = (r, a')"
      using assms(3) True up Inr by (simp add: apply_jobs_def reconcile_def Let_def)
    have fresh: "map_of (ag_jobs a1) (job_camera d) = None" if "d \<in> set ?new" for d
    proof -
      have none: "map_of ?cur (job_camera d) = None" using that want_filter_mem [of d _ specs] by simp
      then have "job_camera d \<notin> job_camera ` set ?up" unfolding want_filter_cam by simp
      then have "map_of (ag_jobs a1) (job_camera d) = map_of (ag_jobs ?a0) (job_camera d)"
        using start_jobs_get [OF up' want_filter_distinct restart_job_step] by blast
      then show ?thesis using none by (simp add: stop_jobs_get current_specs)
    qed
    show ?thesis by (rule start_jobs_balanced [OF conjunct1 [OF b1] conjunct2 [OF b1] new want_filter_distinct fresh])
  qed
qed

end

section \<open>The encoder's processes\<close>

definition spawned_of :: "proc_call list \<Rightarrow> nat multiset" where
  "spawned_of calls = mset (List.map_filter (\<lambda>k. case k of Spawned p \<Rightarrow> Some p | _ \<Rightarrow> None) calls)"

definition ended_of :: "proc_call list \<Rightarrow> nat multiset" where
  "ended_of calls = mset (List.map_filter (\<lambda>k. case k of StopProc p \<Rightarrow> Some p | Reaped p \<Rightarrow> Some p | _ \<Rightarrow> None) calls)"

definition es_handles :: "encode_session \<Rightarrow> nat multiset" where
  "es_handles x = (case es_popen x of None \<Rightarrow> {#} | Some p \<Rightarrow> {#p#})"

lemma spawned_of_simps [simp]:
  "spawned_of [] = {#}" "spawned_of (xs @ ys) = spawned_of xs + spawned_of ys"
  "spawned_of (Spawned p # xs) = add_mset p (spawned_of xs)"
  "spawned_of (StopProc p # xs) = spawned_of xs" "spawned_of (Reaped p # xs) = spawned_of xs"
  by (simp_all add: spawned_of_def List.map_filter_def)

lemma ended_of_simps [simp]:
  "ended_of [] = {#}" "ended_of (xs @ ys) = ended_of xs + ended_of ys"
  "ended_of (Spawned p # xs) = ended_of xs"
  "ended_of (StopProc p # xs) = add_mset p (ended_of xs)" "ended_of (Reaped p # xs) = add_mset p (ended_of xs)"
  by (simp_all add: ended_of_def List.map_filter_def)

interpretation encoder_processes: accounted_jobs
  "\<lambda>d. Inr (EncodeSession d)" es_spec "\<lambda>_. []" es_stop es_handles spawned_of ended_of
  by unfold_locales (auto simp: EncodeSession_def es_handles_def es_stop_def split: option.splits)

definition session_ok :: "encode_session \<Rightarrow> bool" where
  "session_ok x \<longleftrightarrow> SESSION_BACKOFF_START \<le> es_backoff x \<and> es_backoff x \<le> SESSION_BACKOFF_MAX"

definition encoder_ok :: "encoder \<Rightarrow> bool" where
  "encoder_ok a \<longleftrightarrow> distinct (map fst (ag_jobs a))
     \<and> spawned_of (ag_calls a) = held es_handles (ag_jobs a) + ended_of (ag_calls a)
     \<and> (\<forall>c x. map_of (ag_jobs a) c = Some x \<longrightarrow> session_ok x)"

lemma each_total:
  assumes "\<And>x s. \<exists>s'. f x s = (Inr (), s')"
  shows "\<exists>s'. each f xs s = (Inr (), s')"
proof (induction xs arbitrary: s)
  case Nil
  then show ?case by simp
next
  case (Cons x xs)
  obtain s1 where "f x s = (Inr (), s1)" using assms by blast
  then show ?case using Cons.IH [of s1] by simp
qed

lemma enc_apply_specs_total:
  assumes "list_all has_camera specs"
  shows "\<exists>a'. enc_apply_specs specs a = (Inr (), a')"
proof -
  let ?mk = "\<lambda>d. Inr (EncodeSession d) :: py_error + encode_session"
  have s: "\<exists>a'. start_job ?mk (\<lambda>_. []) d a = (Inr (), a')" for d and a :: encoder by (simp add: start_job_def)
  have r: "\<exists>a'. restart_job ?mk (\<lambda>_. []) es_stop d a = (Inr (), a')" for d and a :: encoder by (simp add: restart_job_def s)
  obtain st sp up where rec: "reconcile specs (map (\<lambda>(c, x). (c, es_spec x)) (ag_jobs a)) = (st, sp, up)" by (metis prod.exhaust)
  obtain a1 where a1: "each (restart_job ?mk (\<lambda>_. []) es_stop) up (fold (stop_job es_stop) sp a) = (Inr (), a1)"
    using each_total [of "restart_job ?mk (\<lambda>_. []) es_stop", OF r] by blast
  obtain a2 where "each (start_job ?mk (\<lambda>_. [])) st a1 = (Inr (), a2)"
    using each_total [of "start_job ?mk (\<lambda>_. [])", OF s] by blast
  then have "enc_apply_specs specs a = (Inr (), a2)"
    using assms a1 rec by (simp add: enc_apply_specs_def apply_jobs_def)
  then show ?thesis by blast
qed

lemma enc_apply_specs_settles:
  assumes "enc_apply_specs specs a = (Inr (), a')"
  shows "settled (\<lambda>d. Inr (EncodeSession d)) es_spec specs a a' c"
  using encoder_jobs.apply_jobs_settles [of specs a a' c] assms by (simp add: enc_apply_specs_def)

lemma enc_apply_specs_ok:
  assumes "encoder_ok a" and "enc_apply_specs specs a = (r, a')"
  shows "encoder_ok a'"
proof -
  have b: "distinct (map fst (ag_jobs a')) \<and> spawned_of (ag_calls a') = held es_handles (ag_jobs a') + ended_of (ag_calls a')"
    using assms encoder_processes.apply_jobs_balanced [of a specs r a'] by (simp add: encoder_ok_def enc_apply_specs_def)
  have "session_ok x" if x: "map_of (ag_jobs a') c = Some x" for c x
  proof (cases r)
    case (Inl e)
    then have "a' = a" using assms(2) enc_apply_specs_total [of specs a]
      by (cases "list_all has_camera specs") (auto simp: enc_apply_specs_def apply_jobs_def)
    then show ?thesis using x assms(1) by (simp add: encoder_ok_def)
  next
    case (Inr u)
    then have s: "settled (\<lambda>d. Inr (EncodeSession d)) es_spec specs a a' c"
      using assms(2) by (intro enc_apply_specs_settles) simp
    have new: "session_ok (EncodeSession d)" for d
      by (simp add: session_ok_def EncodeSession_def SESSION_BACKOFF_START_def SESSION_BACKOFF_MAX_def)
    from s x assms(1) show ?thesis
      by (auto simp: settled_def new encoder_ok_def simp del: py_eq.simps split: option.splits if_splits)
  qed
  then show ?thesis using b by (simp add: encoder_ok_def)
qed

lemma es_start_effect:
  assumes "es_start cfg spawn x = (err, calls, y)" and "es_popen x = None"
  shows "es_spec y = es_spec x \<and> es_backoff y = es_backoff x \<and> spawned_of calls = es_handles y + ended_of calls"
  using assms by (auto simp: es_start_def es_handles_def split: sum.splits option.splits)

lemma es_retry_effect:
  assumes "es_retry cfg now spawn x = (err, calls, y)" and "es_popen x = None"
  shows "es_spec y = es_spec x \<and> es_backoff y = es_backoff x \<and> spawned_of calls = es_handles y + ended_of calls"
proof (cases "es_next_retry x \<le> now")
  case True
  then show ?thesis using assms es_start_effect by (simp add: es_retry_def)
next
  case False
  then show ?thesis using assms by (auto simp: es_retry_def es_handles_def)
qed

lemma es_tick_effect:
  assumes "es_tick cfg E c x = (err, calls, y)" and "session_ok x"
  shows "es_spec y = es_spec x \<and> session_ok y \<and> es_handles x + spawned_of calls = es_handles y + ended_of calls"
proof (cases "es_alive (te_alive E) x")
  case True
  have one: "SESSION_BACKOFF_START \<le> SESSION_BACKOFF_MAX" by (simp add: SESSION_BACKOFF_START_def SESSION_BACKOFF_MAX_def)
  have y: "calls = []" "y = x \<or> y = x\<lparr>es_backoff := SESSION_BACKOFF_START\<rparr>"
    using assms(1) True by (auto simp: es_tick_def Let_def split: if_splits)
  then show ?thesis using assms(2) one by (auto simp: es_handles_def session_ok_def)
next
  case False
  show ?thesis
  proof (cases "es_popen x")
    case None
    then have "es_retry cfg (te_now E c) (te_spawn E) x = (err, calls, y)" using assms(1) False by (simp add: es_tick_def)
    from es_retry_effect [OF this None] show ?thesis using None assms(2) by (simp add: es_handles_def session_ok_def)
  next
    case (Some p)
    obtain e cs z where z: "es_retry cfg (te_now E c) (te_spawn E) (es_died (te_now E c) x) = (e, cs, z)" by (metis prod.exhaust)
    then have y: "calls = Reaped p # cs" "y = z" using assms(1) False Some by (simp_all add: es_tick_def)
    have "session_ok (es_died (te_now E c) x)"
      using assms(2) by (simp add: session_ok_def es_died_def SESSION_BACKOFF_START_def SESSION_BACKOFF_MAX_def)
    then show ?thesis using es_retry_effect [OF z] y Some by (simp add: es_handles_def session_ok_def es_died_def)
  qed
qed

lemma tick_session_ok:
  assumes "encoder_ok a" and "tick_session cfg E c a = (r, a')"
  shows "encoder_ok a' \<and> map_option es_spec \<circ> map_of (ag_jobs a') = map_option es_spec \<circ> map_of (ag_jobs a)
    \<and> ag_etag a' = ag_etag a"
proof (cases "map_of (ag_jobs a) c")
  case None
  then show ?thesis using assms by (simp add: tick_session_def)
next
  case (Some x)
  obtain err calls y where t: "es_tick cfg E c x = (err, calls, y)" by (metis prod.exhaust)
  have a': "a' = a\<lparr>ag_jobs := AList.update c y (ag_jobs a), ag_calls := ag_calls a @ calls\<rparr>"
    using assms(2) Some t by (simp add: tick_session_def)
  have x: "session_ok x" using assms(1) Some by (simp add: encoder_ok_def)
  note e = es_tick_effect [OF t x]
  have h: "held es_handles (AList.update c y (ag_jobs a)) + es_handles x = held es_handles (ag_jobs a) + es_handles y"
    by (rule held_update [OF Some])
  have "spawned_of (ag_calls a) + spawned_of calls + es_handles x
      = held es_handles (ag_jobs a) + ended_of (ag_calls a) + (es_handles x + spawned_of calls)"
    using assms(1) by (simp add: encoder_ok_def ac_simps)
  also have "\<dots> = (held es_handles (ag_jobs a) + es_handles y) + ended_of (ag_calls a) + ended_of calls"
    using e by (simp add: ac_simps)
  also have "\<dots> = held es_handles (AList.update c y (ag_jobs a)) + (ended_of (ag_calls a) + ended_of calls) + es_handles x"
    unfolding h [symmetric] by (simp add: ac_simps)
  finally have "spawned_of (ag_calls a') = held es_handles (ag_jobs a') + ended_of (ag_calls a')"
    by (simp add: a' ac_simps)
  moreover have "distinct (map fst (ag_jobs a'))" using assms(1) by (simp add: a' encoder_ok_def distinct_update)
  moreover have "map_of (ag_jobs a') = (map_of (ag_jobs a))(c \<mapsto> y)" by (simp add: a' update_conv')
  ultimately show ?thesis using assms(1) e Some a' by (auto simp: encoder_ok_def fun_eq_iff)
qed

lemma tick_sessions_ok:
  assumes "encoder_ok a" and "each (tick_session cfg E) cs a = (r, a')"
  shows "encoder_ok a' \<and> map_option es_spec \<circ> map_of (ag_jobs a') = map_option es_spec \<circ> map_of (ag_jobs a)
    \<and> ag_etag a' = ag_etag a"
  using assms
proof (induction cs arbitrary: a)
  case Nil
  then show ?case by simp
next
  case (Cons c cs)
  obtain q a1 where q: "tick_session cfg E c a = (q, a1)" by (rule prod.exhaust)
  note s = tick_session_ok [OF Cons.prems(1) q]
  show ?case
  proof (cases q)
    case (Inl e)
    then show ?thesis using Cons.prems(2) q s by simp
  next
    case (Inr u)
    then show ?thesis using Cons.IH [of a1] Cons.prems(2) q s by simp
  qed
qed

section \<open>The work orders of the server\<close>

lemma rtsp_prefix: "take 7 rtsp = ''rtsp://'' \<Longrightarrow> take 7 (rtsp @ u) = ''rtsp://''"
proof -
  assume r: "take 7 rtsp = ''rtsp://''"
  then have "length (take 7 rtsp) = 7" by simp
  then have "7 \<le> length rtsp" by (simp add: min_def split: if_splits)
  then show ?thesis using r by simp
qed

lemma live_job_spec_accepted:
  assumes "live_job_spec rtsp c s = Inr (Some d)" and "take 7 rtsp = ''rtsp://''"
  shows "has_camera d \<and> job_camera d = c
    \<and> (\<exists>name. build_live_cmd cfg d = Inr (Some (live_argv cfg (rtsp @ ''/'' @ name @ ''_raw'') (rtsp @ ''/'' @ name @ ''_enc'') ''veryfast'' 23)))"
proof -
  obtain st where d: "d = [(''camera_id'', PInt c),
      (''epoch'', PInt (case enc_get_for_camera (ec_rows s) c of None \<Rightarrow> 0 | Some a \<Rightarrow> ea_epoch a)),
      (''pull_url'', PStr (rtsp @ ''/'' @ raw_name st)), (''publish_url'', PStr (rtsp @ ''/'' @ enc_name st))] @ ENCODE_PROFILE"
    using assms(1) by (auto simp: live_job_spec_def split: sum.splits option.splits if_splits)
  have g: "dget d ''camera_id'' = PInt c" "dget d ''pull_url'' = PStr (rtsp @ ''/'' @ raw_name st)"
    "dget d ''publish_url'' = PStr (rtsp @ ''/'' @ enc_name st)" "dget d ''v_codec'' = PStr ''libx264''"
    "dget d ''preset'' = PStr ''veryfast''" "dget_or d ''crf'' (PInt 23) = PInt 23"
    by (simp_all add: d ENCODE_PROFILE_def dget_def dget_or_def)
  have u: "rtsp_url (PStr (rtsp @ ''/'' @ w)) = Inr (Some (rtsp @ ''/'' @ w))" for w
    using rtsp_prefix [OF assms(2), of "''/'' @ w"] by (simp add: rtsp_url_def py_or_def)
  have p: "''veryfast'' \<in> set ALLOWED_PRESETS" by (simp add: ALLOWED_PRESETS_def)
  have "build_live_cmd cfg d = Inr (Some (live_argv cfg (rtsp @ ''/'' @ raw_name st) (rtsp @ ''/'' @ enc_name st) ''veryfast'' 23))"
    unfolding build_live_cmd_def g u using p by (simp add: py_or_def py_int_def)
  then show ?thesis using g(1) by (auto simp: has_camera_def job_camera_def raw_name_def enc_name_def)
qed

definition good_spec :: "encoder_cfg \<Rightarrow> pydict \<Rightarrow> bool" where
  "good_spec cfg d \<longleftrightarrow> has_camera d \<and> (\<exists>r. build_live_cmd cfg d = Inr r)"

lemma mapE_mem: "mapE f xs = Inr ys \<Longrightarrow> y \<in> set ys \<Longrightarrow> \<exists>x \<in> set xs. f x = Inr y"
  by (induction xs arbitrary: ys) (auto split: sum.splits)

lemma assignments_good:
  assumes "assignments_for_node rtsp n s = Inr specs" and "take 7 rtsp = ''rtsp://''" and "d \<in> set specs"
  shows "good_spec cfg d \<and> (\<exists>a \<in> set (enc_for_node (ec_rows s) n). live_job_spec rtsp (ea_camera a) s = Inr (Some d))"
proof -
  obtain os where os: "mapE (\<lambda>a. live_job_spec rtsp (ea_camera a) s) (enc_for_node (ec_rows s) n) = Inr os"
    "specs = List.map_filter id os"
    using assms(1) by (auto simp: assignments_for_node_def split: sum.splits)
  have "Some d \<in> set os" using assms(3) os(2) by (auto simp: List.map_filter_def)
  then obtain a where a: "a \<in> set (enc_for_node (ec_rows s) n)" "live_job_spec rtsp (ea_camera a) s = Inr (Some d)"
    using mapE_mem [OF os(1)] by blast
  then show ?thesis using live_job_spec_accepted [OF a(2) assms(2), of cfg] by (auto simp: good_spec_def)
qed

section \<open>A round of the agent\<close>

lemma note_etag_fields [simp]:
  "ag_jobs (note_etag h a) = ag_jobs a" "ag_calls (note_etag h a) = ag_calls a"
  by (auto simp: note_etag_def split: option.splits)

lemma pass_heartbeat_fields [simp]:
  "ag_jobs (pass_heartbeat cfg P a) = ag_jobs a" "ag_calls (pass_heartbeat cfg P a) = ag_calls a"
  by (simp_all add: pass_heartbeat_def)

lemma poll_fields:
  assumes "poll_assignments reply a = (specs, a1)"
  shows "ag_jobs a1 = ag_jobs a" "ag_calls a1 = ag_calls a"
  using assms by (auto simp: poll_assignments_def split: poll_reply.splits)

lemma encoder_ok_cong: "ag_jobs a = ag_jobs b \<Longrightarrow> ag_calls a = ag_calls b \<Longrightarrow> encoder_ok a = encoder_ok b"
  by (simp add: encoder_ok_def)

text \<open>A round is the reconciliation, when there are work orders, followed by a turn for every session.\<close>

lemma enc_pass_cases:
  assumes "enc_pass cfg P a = (r, a')"
  obtains specs a1 q a2 where "poll_assignments (pe_reply P) (pass_heartbeat cfg P a) = (specs, a1)"
    and "(case specs of None \<Rightarrow> (Inr (), a1) | Some ds \<Rightarrow> enc_apply_specs ds a1) = (q, a2)"
    and "(\<exists>e. q = Inl e \<and> r = Inl e \<and> a' = a2)
      \<or> (q = Inr () \<and> each (tick_session cfg (pe_tick P)) (map fst (ag_jobs a2)) a2 = (r, a'))"
proof -
  obtain specs a1 where p: "poll_assignments (pe_reply P) (pass_heartbeat cfg P a) = (specs, a1)" by (rule prod.exhaust)
  obtain q a2 where q: "(case specs of None \<Rightarrow> (Inr (), a1) | Some ds \<Rightarrow> enc_apply_specs ds a1) = (q, a2)" by (rule prod.exhaust)
  then have "(case specs of None \<Rightarrow> returnE () | Some ds \<Rightarrow> enc_apply_specs ds) a1 = (q, a2)" by (cases specs) simp_all
  then have "(\<exists>e. q = Inl e \<and> r = Inl e \<and> a' = a2)
      \<or> (q = Inr () \<and> each (tick_session cfg (pe_tick P)) (map fst (ag_jobs a2)) a2 = (r, a'))"
    using assms p by (cases q) (auto simp: enc_pass_def)
  then show ?thesis using p q that by blast
qed

lemma enc_pass_ok:
  assumes "encoder_ok a" and "enc_pass cfg P a = (r, a')"
  shows "encoder_ok a'"
  using assms(2)
proof (rule enc_pass_cases)
  fix specs a1 q a2
  assume p: "poll_assignments (pe_reply P) (pass_heartbeat cfg P a) = (specs, a1)"
    and q: "(case specs of None \<Rightarrow> (Inr (), a1) | Some ds \<Rightarrow> enc_apply_specs ds a1) = (q, a2)"
    and r: "(\<exists>e. q = Inl e \<and> r = Inl e \<and> a' = a2)
      \<or> (q = Inr () \<and> each (tick_session cfg (pe_tick P)) (map fst (ag_jobs a2)) a2 = (r, a'))"
  have a1: "encoder_ok a1" using assms(1) poll_fields [OF p] encoder_ok_cong [of a1 a] by simp
  have a2: "encoder_ok a2"
  proof (cases specs)
    case None
    then show ?thesis using q a1 by simp
  next
    case (Some ds)
    then show ?thesis using q enc_apply_specs_ok [OF a1] by simp
  qed
  then show ?thesis using r tick_sessions_ok [OF a2] by blast
qed

text \<open>The states an encoder agent reaches.\<close>

inductive encoder_reachable :: "encoder_cfg \<Rightarrow> encoder \<Rightarrow> bool" for cfg where
  boot: "encoder_reachable cfg (new_agent token)"
| joined: "encoder_reachable cfg a \<Longrightarrow> encoder_reachable cfg (snd (agent_join join_token answer a))"
| round: "encoder_reachable cfg a \<Longrightarrow> enc_pass cfg P a = (r, a') \<Longrightarrow> encoder_reachable cfg a'"
| stopped: "encoder_reachable cfg a \<Longrightarrow> encoder_reachable cfg (enc_stop a)"

lemma agent_join_fields [simp]:
  "ag_jobs (snd (agent_join jt ans a)) = ag_jobs a" "ag_calls (snd (agent_join jt ans a)) = ag_calls a"
  by (auto simp: agent_join_def split: option.splits)

lemma enc_stop_effect:
  "held es_handles (ag_jobs (enc_stop a)) = {#}"
  "spawned_of (ag_calls (enc_stop a)) = spawned_of (ag_calls a)"
  "ended_of (ag_calls (enc_stop a)) = ended_of (ag_calls a) + held es_handles (ag_jobs a)"
proof -
  have 1: "held es_handles (map (\<lambda>(c, x). (c, x\<lparr>es_popen := None\<rparr>)) xs) = {#}" for xs :: "(db_id \<times> encode_session) list"
    by (induction xs) (auto simp: es_handles_def)
  have 2: "spawned_of (concat (map (\<lambda>(_, x). es_stop x) xs)) = {#}" for xs :: "(db_id \<times> encode_session) list"
    by (induction xs) (auto simp: es_stop_def split: option.splits)
  have 3: "ended_of (concat (map (\<lambda>(_, x). es_stop x) xs)) = held es_handles xs" for xs :: "(db_id \<times> encode_session) list"
    by (induction xs) (auto simp: es_stop_def es_handles_def split: option.splits)
  show "held es_handles (ag_jobs (enc_stop a)) = {#}"
    "spawned_of (ag_calls (enc_stop a)) = spawned_of (ag_calls a)"
    "ended_of (ag_calls (enc_stop a)) = ended_of (ag_calls a) + held es_handles (ag_jobs a)"
    by (simp_all add: enc_stop_def 1 2 3)
qed

lemma enc_stop_ok:
  assumes "encoder_ok a"
  shows "encoder_ok (enc_stop a)"
proof -
  have m: "map_of (map (\<lambda>(c, x). (c, f x)) xs) c = map_option f (map_of xs c)" for f c and xs :: "(db_id \<times> encode_session) list"
    by (induction xs) auto
  have "map_of (ag_jobs (enc_stop a)) c = map_option (\<lambda>x. x\<lparr>es_popen := None\<rparr>) (map_of (ag_jobs a) c)" for c
    unfolding enc_stop_def by (simp add: m)
  moreover have "map fst (ag_jobs (enc_stop a)) = map fst (ag_jobs a)"
    unfolding enc_stop_def by (simp add: comp_def case_prod_beta)
  ultimately show ?thesis
    using assms enc_stop_effect [of a] unfolding encoder_ok_def by (auto simp: session_ok_def ac_simps)
qed

text \<open>C29: no FFmpeg process of an encoder node is lost. In every state the agent reaches, through joining, rounds with
  any answers of the server and of the operating system, rounds that raise and shutdown, each camera has at
  most one session, each session's restart delay lies between one and fifteen seconds, and every process ever
  spawned is held by exactly one session, or was handed to \<open>graceful_stop\<close>, or was found dead; after \<open>stop\<close> none is
  held.\<close>

theorem encoder_processes_accounted:
  assumes "encoder_reachable cfg a"
  shows "distinct (map fst (ag_jobs a))
    \<and> (\<forall>c x. map_of (ag_jobs a) c = Some x \<longrightarrow> 1 \<le> es_backoff x \<and> es_backoff x \<le> 15)
    \<and> spawned_of (ag_calls a) = held es_handles (ag_jobs a) + ended_of (ag_calls a)
    \<and> spawned_of (ag_calls (enc_stop a)) = ended_of (ag_calls (enc_stop a))"
proof -
  have "encoder_ok a"
    using assms
  proof induction
    case (boot token)
    then show ?case by (simp add: new_agent_def encoder_ok_def)
  next
    case (joined a join_token answer)
    then show ?case using encoder_ok_cong [of "snd (agent_join join_token answer a)" a] by simp
  next
    case (round a P r a')
    then show ?case using enc_pass_ok by blast
  next
    case (stopped a)
    then show ?case by (simp add: enc_stop_ok)
  qed
  then show ?thesis
    by (simp add: encoder_ok_def session_ok_def SESSION_BACKOFF_START_def SESSION_BACKOFF_MAX_def enc_stop_effect ac_simps)
qed

section \<open>Convergence\<close>

definition good_agent :: "encoder_cfg \<Rightarrow> encoder \<Rightarrow> bool" where
  "good_agent cfg a \<longleftrightarrow> encoder_ok a \<and> (\<forall>c x. map_of (ag_jobs a) c = Some x \<longrightarrow> (\<exists>r. build_live_cmd cfg (es_spec x) = Inr r))"

text \<open>A round whose poll was answered by the server, in any state, or not at all.\<close>

definition served :: "'r token_env \<Rightarrow> string \<Rightarrow> string \<Rightarrow> pass_env \<Rightarrow> bool" where
  "served E rtsp header P \<longleftrightarrow>
     (\<forall>tag. pe_reply P tag = NoAnswer \<or> (\<exists>now s. pe_reply P tag = enc_assignments E now rtsp header tag s))"

lemma served_good:
  assumes "served E rtsp header P" and "take 7 rtsp = ''rtsp://''" and "pe_reply P tag = Items e specs" and "d \<in> set specs"
  shows "good_spec cfg d"
proof -
  obtain now s where "enc_assignments E now rtsp header tag s = Items e specs"
    using assms(1,3) unfolding served_def by (metis poll_reply.distinct(5))
  then obtain n where "assignments_for_node rtsp n s = Inr specs"
    by (auto simp: enc_assignments_def Let_def split: guard.splits if_splits sum.splits)
  then show ?thesis using assignments_good assms(2,4) by blast
qed

lemma es_tick_good:
  assumes "build_live_cmd cfg (es_spec x) = Inr r"
  shows "fst (es_tick cfg E c x) = None"
proof -
  have "fst (es_start cfg f y) = None" if "es_spec y = es_spec x" for f y
    using assms that by (auto simp: es_start_def split: option.splits)
  then have "fst (es_retry cfg t f y) = None" if "es_spec y = es_spec x" for t f y
    using that by (simp add: es_retry_def)
  moreover have "es_spec (es_died t x) = es_spec x" for t by (simp add: es_died_def)
  ultimately show ?thesis by (auto simp: es_tick_def Let_def case_prod_beta split: option.splits)
qed

lemma good_agent_specs:
  assumes "good_agent cfg a" and "encoder_ok b" and "map_option es_spec \<circ> map_of (ag_jobs b) = map_option es_spec \<circ> map_of (ag_jobs a)"
  shows "good_agent cfg b"
proof -
  have "\<exists>r. build_live_cmd cfg (es_spec y) = Inr r" if "map_of (ag_jobs b) c = Some y" for c y
  proof -
    have "map_option es_spec (map_of (ag_jobs a) c) = Some (es_spec y)" using fun_cong [OF assms(3), of c] that by simp
    then obtain z where z: "map_of (ag_jobs a) c = Some z" "es_spec z = es_spec y" by auto
    then have "\<exists>r. build_live_cmd cfg (es_spec z) = Inr r" using assms(1) unfolding good_agent_def by blast
    then show ?thesis using z(2) by simp
  qed
  then show ?thesis using assms(2) by (simp add: good_agent_def)
qed

lemma tick_sessions_good:
  assumes "good_agent cfg a"
  shows "\<exists>a'. each (tick_session cfg E) cs a = (Inr (), a') \<and> good_agent cfg a' \<and> ag_etag a' = ag_etag a
    \<and> map_option es_spec \<circ> map_of (ag_jobs a') = map_option es_spec \<circ> map_of (ag_jobs a)"
proof -
  have "\<exists>a'. each (tick_session cfg E) cs a = (Inr (), a')"
    using assms
  proof (induction cs arbitrary: a)
    case Nil
    then show ?case by simp
  next
    case (Cons c cs)
    obtain q a1 where q: "tick_session cfg E c a = (q, a1)" by (rule prod.exhaust)
    have "q = Inr ()"
    proof (cases "map_of (ag_jobs a) c")
      case None
      then show ?thesis using q by (simp add: tick_session_def)
    next
      case (Some x)
      then obtain r where "build_live_cmd cfg (es_spec x) = Inr r" using Cons.prems unfolding good_agent_def by blast
      then have "fst (es_tick cfg E c x) = None" by (rule es_tick_good)
      then show ?thesis using q Some by (simp add: tick_session_def case_prod_beta)
    qed
    moreover have ok: "encoder_ok a" using Cons.prems by (simp add: good_agent_def)
    moreover have "good_agent cfg a1" using good_agent_specs [OF Cons.prems] tick_session_ok [OF ok q] by blast
    ultimately show ?case using Cons.IH [of a1] q by simp
  qed
  then obtain a' where a': "each (tick_session cfg E) cs a = (Inr (), a')" by blast
  have "encoder_ok a" using assms by (simp add: good_agent_def)
  note s = tick_sessions_ok [OF this a']
  show ?thesis using a' s good_agent_specs [OF assms] by blast
qed

lemma apply_jobs_etag: "apply_jobs mk spec_of f g specs a = (r, a') \<Longrightarrow> ag_etag a' = ag_etag a"
proof -
  have st: "ag_etag (snd (start_job mk f d a)) = ag_etag a" for d a by (simp add: start_job_def split: sum.splits)
  have sp: "ag_etag (stop_job g c a) = ag_etag a" for c a by (simp add: stop_job_def split: option.splits)
  have ev: "ag_etag (snd (each h ds a)) = ag_etag a" if "\<And>d a. ag_etag (snd (h d a)) = ag_etag a" for h ds a
  proof (induction ds arbitrary: a)
    case Nil
    then show ?case by simp
  next
    case (Cons d ds)
    obtain q b where q: "h d a = (q, b)" by (rule prod.exhaust)
    then show ?case using that [of d a] Cons.IH [of b] by (cases q) simp_all
  qed
  have fo: "ag_etag (fold (stop_job g) cs a) = ag_etag a" for cs a by (induction cs arbitrary: a) (simp_all add: sp)
  have rs: "ag_etag (snd (restart_job mk f g d a)) = ag_etag a" for d a by (simp add: restart_job_def st sp)
  assume ap: "apply_jobs mk spec_of f g specs a = (r, a')"
  show ?thesis
  proof (cases "list_all has_camera specs")
    case False
    then show ?thesis using ap by (simp add: apply_jobs_def)
  next
    case True
    obtain s1 s2 s3 where rec: "reconcile specs (map (\<lambda>(c, x). (c, spec_of x)) (ag_jobs a)) = (s1, s2, s3)" by (metis prod.exhaust)
    obtain q b where q: "each (restart_job mk f g) s3 (fold (stop_job g) s2 a) = (q, b)" by (rule prod.exhaust)
    have "ag_etag b = ag_etag a" using ev [of "restart_job mk f g" s3 "fold (stop_job g) s2 a", OF rs] q fo by simp
    moreover have "ag_etag (snd (each (start_job mk f) s1 b)) = ag_etag b" by (rule ev) (rule st)
    ultimately show ?thesis using ap True rec q by (cases q) (simp_all add: apply_jobs_def)
  qed
qed

lemma enc_apply_good:
  assumes "good_agent cfg a" and "\<And>d. d \<in> set specs \<Longrightarrow> good_spec cfg d"
  shows "\<exists>a'. enc_apply_specs specs a = (Inr (), a') \<and> good_agent cfg a' \<and> ag_etag a' = ag_etag a"
proof -
  have "list_all has_camera specs" using assms(2) by (auto simp: list_all_iff good_spec_def)
  then obtain a' where a': "enc_apply_specs specs a = (Inr (), a')" using enc_apply_specs_total by blast
  have s: "settled (\<lambda>d. Inr (EncodeSession d)) es_spec specs a a' c" for c by (rule enc_apply_specs_settles [OF a'])
  have "\<exists>r. build_live_cmd cfg (es_spec x) = Inr r" if x: "map_of (ag_jobs a') c = Some x" for c x
  proof (cases "map_of (want_of specs) c")
    case None
    then show ?thesis using s [of c] x by (simp add: settled_def)
  next
    case (Some d)
    then have "good_spec cfg d" using want_of_get assms(2) by blast
    moreover have "x = EncodeSession d \<or> map_of (ag_jobs a) c = Some x"
      using s [of c] Some x by (auto simp: settled_def simp del: py_eq.simps split: option.splits if_splits)
    ultimately show ?thesis using assms(1) by (auto simp: good_agent_def good_spec_def EncodeSession_def)
  qed
  moreover have "encoder_ok a'" using enc_apply_specs_ok [OF _ a'] assms(1) by (simp add: good_agent_def)
  moreover have "ag_etag a' = ag_etag a" using a' unfolding enc_apply_specs_def by (rule apply_jobs_etag)
  ultimately show ?thesis using a' by (simp add: good_agent_def)
qed

lemma etag_nonempty: "enc_current_etag E s \<noteq> []"
  by (simp add: enc_current_etag_def split: option.splits)

lemma pass_heartbeat_etag:
  "ag_etag (pass_heartbeat cfg P a) = ag_etag a \<or> ag_etag (pass_heartbeat cfg P a) = None"
  by (auto simp: pass_heartbeat_def note_etag_def split: option.splits)

lemma good_agent_cong:
  assumes "good_agent cfg a" and "ag_jobs b = ag_jobs a" and "ag_calls b = ag_calls a"
  shows "good_agent cfg b"
  using assms encoder_ok_cong [OF assms(2,3)] by (simp add: good_agent_def)

lemma enc_pass_served:
  assumes "good_agent cfg a" and "served E rtsp header P" and "take 7 rtsp = ''rtsp://''"
  shows "\<exists>a'. enc_pass cfg P a = (Inr (), a') \<and> good_agent cfg a'"
proof -
  obtain specs a1 where p: "poll_assignments (pe_reply P) (pass_heartbeat cfg P a) = (specs, a1)" by (rule prod.exhaust)
  have a1: "good_agent cfg a1" using good_agent_cong [OF assms(1)] poll_fields [OF p] by simp
  obtain a2 where a2: "(case specs of None \<Rightarrow> returnE () | Some ds \<Rightarrow> enc_apply_specs ds) a1 = (Inr (), a2)" "good_agent cfg a2"
  proof (cases specs)
    case None
    then show ?thesis using that [of a1] a1 by simp
  next
    case (Some ds)
    have "good_spec cfg d" if "d \<in> set ds" for d
      using p Some that served_good [OF assms(2,3)] by (auto simp: poll_assignments_def split: poll_reply.splits)
    then show ?thesis using enc_apply_good [OF a1] Some that by auto
  qed
  obtain a3 where "each (tick_session cfg (pe_tick P)) (map fst (ag_jobs a2)) a2 = (Inr (), a3)" "good_agent cfg a3"
    using tick_sessions_good [OF a2(2)] by blast
  then show ?thesis using p a2(1) by (auto simp: enc_pass_def)
qed

lemma enc_run_served:
  assumes "good_agent cfg a" and "list_all (served E rtsp header) Ps" and "take 7 rtsp = ''rtsp://''"
  shows "\<exists>a'. enc_run cfg Ps a = (Inr (), a') \<and> good_agent cfg a'"
  using assms(1,2)
proof (induction Ps arbitrary: a)
  case Nil
  then show ?case by simp
next
  case (Cons P Ps)
  have "served E rtsp header P" using Cons.prems(2) by simp
  then obtain a1 where "enc_pass cfg P a = (Inr (), a1)" "good_agent cfg a1"
    using enc_pass_served [OF Cons.prems(1) _ assms(3)] by blast
  then show ?case using Cons.IH [of a1] Cons.prems(2) by simp
qed

lemma new_agent_good: "good_agent cfg (snd (agent_join join_token answer (new_agent token)))"
proof -
  have "encoder_ok (new_agent token)" by (simp add: new_agent_def encoder_ok_def)
  then have "good_agent cfg (new_agent token)" by (simp add: good_agent_def new_agent_def)
  then show ?thesis by (rule good_agent_cong) simp_all
qed

text \<open>C28: an encoder node follows the server. Whatever the server answered before, from any states and with any
  failures, the agent's thread is still running; and a round that reaches the server while the agent's entity
  tag is not the current one leaves exactly one session per work order of the node, made from an order equal
  to the server's.\<close>

theorem encoder_converges:
  fixes E :: "'r token_env"
  assumes rtsp: "take 7 rtsp = ''rtsp://''" and before: "list_all (served E rtsp header) Ps"
    and a0: "a0 = snd (agent_join join_token answer (new_agent token))"
    and reply: "pe_reply P = (\<lambda>tag. enc_assignments E now rtsp header tag s)"
    and guard: "encode_node_token_required E now header s = Pass n"
    and work: "assignments_for_node rtsp (en_id n) s = Inr specs"
  shows "\<exists>a a'. enc_run cfg Ps a0 = (Inr (), a) \<and> enc_pass cfg P a = (Inr (), a')
    \<and> (ag_etag a \<noteq> Some (enc_current_etag E s) \<longrightarrow>
         dom (map_of (ag_jobs a')) = job_camera ` set specs \<and> ag_etag a' = Some (enc_current_etag E s)
       \<and> (\<forall>c x. map_of (ag_jobs a') c = Some x \<longrightarrow>
            (\<exists>d \<in> set specs. job_camera d = c \<and> (es_spec x = d \<or> py_eq (PDict (es_spec x)) (PDict d)))))"
proof -
  obtain a where a: "enc_run cfg Ps a0 = (Inr (), a)" "good_agent cfg a"
    using enc_run_served [OF _ before rtsp] new_agent_good a0 by blast
  have sv: "served E rtsp header P" by (auto simp: served_def reply)
  obtain a' where a': "enc_pass cfg P a = (Inr (), a')" using enc_pass_served [OF a(2) sv rtsp] by blast
  have "dom (map_of (ag_jobs a')) = job_camera ` set specs \<and> ag_etag a' = Some (enc_current_etag E s)
      \<and> (\<forall>c x. map_of (ag_jobs a') c = Some x \<longrightarrow>
            (\<exists>d \<in> set specs. job_camera d = c \<and> (es_spec x = d \<or> py_eq (PDict (es_spec x)) (PDict d))))"
    if tag: "ag_etag a \<noteq> Some (enc_current_etag E s)"
  proof -
    let ?b = "pass_heartbeat cfg P a"
    have "given (ag_etag ?b) \<noteq> Some (enc_current_etag E s)"
      using pass_heartbeat_etag [of cfg P a] tag by (auto simp: given_def split: option.splits list.splits)
    then have "pe_reply P (given (ag_etag ?b)) = Items (enc_current_etag E s) specs"
      by (simp add: reply enc_assignments_def guard work)
    then have p: "poll_assignments (pe_reply P) ?b = (Some specs, ?b\<lparr>ag_etag := Some (enc_current_etag E s)\<rparr>)"
      by (simp add: poll_assignments_def)
    have b1: "good_agent cfg (?b\<lparr>ag_etag := Some (enc_current_etag E s)\<rparr>)" by (rule good_agent_cong [OF a(2)]) simp_all
    have gs: "good_spec cfg d" if "d \<in> set specs" for d using assignments_good [OF work rtsp that] by blast
    obtain a2 where a2: "enc_apply_specs specs (?b\<lparr>ag_etag := Some (enc_current_etag E s)\<rparr>) = (Inr (), a2)" "good_agent cfg a2"
        "ag_etag a2 = Some (enc_current_etag E s)"
      using enc_apply_good [OF b1 gs] by auto
    obtain a3 where a3: "each (tick_session cfg (pe_tick P)) (map fst (ag_jobs a2)) a2 = (Inr (), a3)" "ag_etag a3 = ag_etag a2"
        "map_option es_spec \<circ> map_of (ag_jobs a3) = map_option es_spec \<circ> map_of (ag_jobs a2)"
      using tick_sessions_good [OF a2(2)] by blast
    have eq: "a' = a3" using a' p a2(1) a3(1) by (simp add: enc_pass_def)
    have st: "settled (\<lambda>d. Inr (EncodeSession d)) es_spec specs (?b\<lparr>ag_etag := Some (enc_current_etag E s)\<rparr>) a2 c" for c
      by (rule enc_apply_specs_settles [OF a2(1)])
    have m: "map_option es_spec (map_of (ag_jobs a') c) = map_option es_spec (map_of (ag_jobs a2) c)" for c
      using fun_cong [OF a3(3), of c] eq by simp
    have "dom (map_of (ag_jobs a')) = dom (map_of (ag_jobs a2))"
      using m by (metis (no_types, lifting) domIff map_option_is_None subsetI subset_antisym)
    then have "dom (map_of (ag_jobs a')) = job_camera ` set specs" using encoder_jobs.settled_dom [OF st] by simp
    moreover have "\<exists>d \<in> set specs. job_camera d = c \<and> (es_spec x = d \<or> py_eq (PDict (es_spec x)) (PDict d))"
      if x: "map_of (ag_jobs a') c = Some x" for c x
    proof -
      have "c \<in> job_camera ` set specs" using calculation x by blast
      then obtain d where d: "map_of (want_of specs) c = Some d" using want_of_dom [of specs c] by auto
      obtain y where "map_of (ag_jobs a2) c = Some y" "es_spec y = d \<or> py_eq (PDict (es_spec y)) (PDict d)"
        using encoder_jobs.py_eq_kept [OF st d] by blast
      moreover have "es_spec x = es_spec y" using m [of c] x calculation(1) by simp
      ultimately show ?thesis using want_of_get [OF d] by (intro bexI [of _ d]) simp_all
    qed
    ultimately show ?thesis using a3(2) a2(3) eq by simp
  qed
  then show ?thesis using a(1) a' by blast
qed

section \<open>Idle although there is work\<close>

text \<open>A round in which the server's entity tag is still \<open>e\<close>.\<close>

definition unchanged :: "'r token_env \<Rightarrow> string \<Rightarrow> string \<Rightarrow> string \<Rightarrow> pass_env \<Rightarrow> bool" where
  "unchanged E rtsp header e P \<longleftrightarrow> (pe_hb P = None \<or> pe_hb P = Some e)
     \<and> (\<forall>tag. pe_reply P tag = NoAnswer
          \<or> (\<exists>now s. enc_current_etag E s = e \<and> pe_reply P tag = enc_assignments E now rtsp header tag s))"

lemma apply_nothing: "ag_jobs a = [] \<Longrightarrow> enc_apply_specs [] a = (Inr (), a)"
  by (simp add: enc_apply_specs_def apply_jobs_def reconcile_def want_of_def)

lemma pass_heartbeat_same:
  "ag_etag a = Some e \<Longrightarrow> pe_hb P = None \<or> pe_hb P = Some e \<Longrightarrow> ag_etag (pass_heartbeat cfg P a) = Some e"
  by (auto simp: pass_heartbeat_def note_etag_def given_def split: option.splits list.splits)

lemma idle_round:
  assumes "unchanged E rtsp header e P" and "ag_jobs a = []" and "ag_etag a = Some e" and "e \<noteq> []"
  shows "\<exists>a'. enc_pass cfg P a = (Inr (), a') \<and> ag_jobs a' = [] \<and> ag_etag a' = Some e"
proof -
  let ?b = "pass_heartbeat cfg P a"
  have tag: "ag_etag ?b = Some e" using pass_heartbeat_same [OF assms(3)] assms(1) by (simp add: unchanged_def)
  have g: "given (ag_etag ?b) = Some e" using assms(4) tag by (cases e) (simp_all add: given_def)
  have "pe_reply P (Some e) \<in> {NoAnswer, NotModified, ErrorBody}"
  proof -
    have "enc_assignments E now rtsp header (Some (enc_current_etag E s)) s \<in> {NotModified, ErrorBody}" for now s
      by (cases "encode_node_token_required E now header s") (simp_all add: enc_assignments_def)
    then show ?thesis using assms(1) unfolding unchanged_def by (metis insert_iff singletonD)
  qed
  then obtain specs where p: "poll_assignments (pe_reply P) ?b = (specs, ?b)" "specs = None \<or> specs = Some []"
    unfolding poll_assignments_def g by auto
  have "(case specs of None \<Rightarrow> returnE () | Some ds \<Rightarrow> enc_apply_specs ds) ?b = (Inr (), ?b)"
    using p(2) apply_nothing [of ?b] assms(2) by auto
  then have "enc_pass cfg P a = (Inr (), ?b)" using p(1) assms(2) by (simp add: enc_pass_def)
  then show ?thesis using assms(2) tag by simp
qed

lemma idle_rounds:
  assumes "list_all (unchanged E rtsp header e) Ps" and "ag_jobs a = []" and "ag_etag a = Some e" and "e \<noteq> []"
  shows "\<exists>a'. enc_run cfg Ps a = (Inr (), a') \<and> ag_jobs a' = []"
  using assms(1-3)
proof (induction Ps arbitrary: a)
  case Nil
  then show ?case by simp
next
  case (Cons P Ps)
  obtain a1 where "enc_pass cfg P a = (Inr (), a1)" "ag_jobs a1 = []" "ag_etag a1 = Some e"
    using idle_round [OF _ Cons.prems(2,3) assms(4), of E rtsp header P cfg] Cons.prems(1) by auto
  then show ?case using Cons.IH [of a1] Cons.prems(1) by simp
qed

lemma enc_join_etag: "enc_join E now mclk node payload ip s = (Inr (Some j), s1) \<Longrightarrow> ja_etag j = enc_current_etag E s1"
  by (auto simp: enc_join_def Let_def split: option.splits sum.splits prod.splits)

text \<open>C31: a node that joins with a join token does not fetch the work it was just given. The join hands it the
  current entity tag, which the agent then sends with every poll, so as long as the assignments do not change again
  every round is answered with \<open>304\<close> and the node runs no session, however many work orders it has.\<close>

theorem joined_encoder_stays_idle:
  fixes E :: "'r token_env"
  assumes join: "enc_join E now mclk node payload ip s0 = (Inr (Some j), s1)"
    and tok: "given token = None" and jt: "given join_token \<noteq> None"
    and rounds: "list_all (unchanged E rtsp header (enc_current_etag E s1)) Ps"
  shows "\<exists>a. enc_run cfg Ps (snd (agent_join join_token (Some j) (new_agent token))) = (Inr (), a) \<and> ag_jobs a = []"
proof -
  let ?a = "snd (agent_join join_token (Some j) (new_agent token)) :: encoder"
  have "ag_etag ?a = Some (enc_current_etag E s1)" using tok jt enc_join_etag [OF join] by (simp add: agent_join_def new_agent_def)
  then show ?thesis using idle_rounds [OF rounds _ _ etag_nonempty, of ?a cfg] by (simp add: new_agent_def)
qed

text \<open>An answer that refuses a poll (an expired or superseded token, Redis down while the token is checked) stops every
  session of the node, because a body without data is read as an empty list of work orders; the agent keeps its entity tag, so
  after the server recovers every poll is answered with \<open>304\<close> and the node stays without sessions until the
  assignments change.\<close>

theorem refused_poll_idles_encoder:
  fixes E :: "'r token_env"
  assumes ok: "encoder_reachable cfg a" and tag: "ag_etag a = Some e" "e \<noteq> []"
    and refused: "pe_reply P (Some e) = ErrorBody" and hb: "pe_hb P = None \<or> pe_hb P = Some e"
    and rounds: "list_all (unchanged E rtsp header e) Ps"
  shows "\<exists>a'. enc_run cfg (P # Ps) a = (Inr (), a') \<and> ag_jobs a' = []"
proof -
  let ?b = "pass_heartbeat cfg P a"
  have bt: "ag_etag ?b = Some e" using pass_heartbeat_same [OF tag(1) hb] .
  then have "given (ag_etag ?b) = Some e" using tag(2) by (cases e) (simp_all add: given_def)
  then have p: "poll_assignments (pe_reply P) ?b = (Some [], ?b)" using refused by (simp add: poll_assignments_def)
  obtain a2 where a2: "enc_apply_specs [] ?b = (Inr (), a2)" using enc_apply_specs_total [of "[]" ?b] by auto
  have "map_of (ag_jobs a2) c = None" for c
    using enc_apply_specs_settles [OF a2, of c] by (simp add: settled_def want_of_def)
  then have none: "ag_jobs a2 = []" by (metis list.exhaust map_of_Cons_code(2) option.distinct(1) prod.exhaust)
  have "ag_etag a2 = Some e" using a2 bt unfolding enc_apply_specs_def by (metis apply_jobs_etag)
  moreover have "enc_pass cfg P a = (Inr (), a2)" using p a2 none by (simp add: enc_pass_def)
  ultimately show ?thesis using idle_rounds [OF rounds none _ tag(2), of cfg] by simp
qed

section \<open>Only healthy sessions are confirmed\<close>

text \<open>C30: the viewers of a camera are switched to a node's stream only when it is up. A heartbeat built by the agent changes
  the assignment of a camera, in particular from pending to active, only if the row belongs to the node and the agent
  has a session for that camera whose process is alive and was started at least three seconds ago.\<close>

theorem confirmed_session_is_healthy:
  assumes "enc_heartbeat E now n (heartbeat_payload cfg t alive a) ip s = (r, s')"
    and "enc_get_for_camera (ec_rows s) c = Some row" and "enc_get_for_camera (ec_rows s') c \<noteq> Some row"
  shows "ea_node row = en_id n
    \<and> (\<exists>x p. (c, x) \<in> set (ag_jobs a) \<and> es_popen x = Some p \<and> alive p \<and> t - es_started_at x \<ge> 3)"
proof -
  let ?vs = "map (\<lambda>(c, _). PInt c) (filter (\<lambda>(_, x). es_healthy t alive x) (ag_jobs a))"
  have vs: "dget (heartbeat_payload cfg t alive a) ''active_sessions'' = PList ?vs"
    by (simp add: heartbeat_payload_def dget_def)
  obtain row' ws where row': "enc_get_for_camera (ec_rows s') c = Some row'" "ea_node row = en_id n"
    "dget (heartbeat_payload cfg t alive a) ''active_sessions'' = PList ws" "Inr c \<in> py_int ` set ws"
    using heartbeat_confirms_own_sessions [OF assms(1,2)] assms(3) by auto
  then have "Inr c \<in> py_int ` set ?vs" using vs by simp
  then obtain x where x: "(c, x) \<in> set (ag_jobs a)" "es_healthy t alive x" by (auto simp: py_int_def)
  then obtain p where "es_popen x = Some p" "alive p" "t - es_started_at x \<ge> 3"
    by (auto simp: es_healthy_def es_alive_def MIN_HEALTHY_S_def split: option.splits)
  then show ?thesis using row'(2) x(1) by blast
qed

text \<open>A command line is built from the agent's own template: of the order only two \<open>rtsp://\<close> addresses, a preset of the
  list and a bounded quality number enter it.\<close>

lemma build_live_cmd_template:
  assumes "build_live_cmd cfg d = Inr (Some argv)"
  shows "\<exists>pull publish preset crf. take 7 pull = ''rtsp://'' \<and> take 7 publish = ''rtsp://'' \<and> preset \<in> set ALLOWED_PRESETS
    \<and> 0 \<le> crf \<and> crf \<le> 51 \<and> argv = live_argv cfg pull publish preset crf"
proof -
  obtain pull where pull: "rtsp_url (dget d ''pull_url'') = Inr (Some pull)"
    using assms by (auto simp: build_live_cmd_def split: sum.splits option.splits)
  obtain publish where publish: "rtsp_url (dget d ''publish_url'') = Inr (Some publish)"
    using assms by (auto simp: build_live_cmd_def split: sum.splits option.splits)
  have u: "take 7 v = ''rtsp://''" if "rtsp_url w = Inr (Some v)" for v w
    using that by (auto simp: rtsp_url_def split: pyval.splits if_splits)
  obtain preset n where "preset \<in> set ALLOWED_PRESETS" "argv = live_argv cfg pull publish preset (min 51 (max 0 n))"
    using assms pull publish by (auto simp: build_live_cmd_def split: if_splits pyval.splits sum.splits)
  then show ?thesis using u [OF pull] u [OF publish] by (intro exI [of _ pull] exI [of _ publish] exI [of _ preset] exI [of _ "min 51 (max 0 n)"]) simp
qed

section \<open>A concrete encoder\<close>

definition sample_encoder_cfg :: encoder_cfg where
  "sample_encoder_cfg = \<lparr>ef_hwaccel = ''none'', ef_ffmpeg_bin = ''ffmpeg'', ef_advertise_url = None, ef_heartbeat_interval = 5\<rparr>"

definition sample_tick :: tick_env where
  "sample_tick = \<lparr>te_now = (\<lambda>_. 10), te_alive = (\<lambda>_. True), te_spawn = (\<lambda>_. Some (77, 10))\<rparr>"

text \<open>Tokens are their identifiers here, and decode to claims for the node.\<close>

definition sample_node_env :: "mem token_env" where
  "sample_node_env = sample_env\<lparr>env_decode := (\<lambda>_ tok. JwtOk ((sample_claims ''node'')\<lparr>c_sub := ''e'', c_aud := Some ''node'', c_jti := tok\<rparr>))\<rparr>"

definition sample_joined :: "(py_error + join_answer option) \<times> mem enc_state" where
  "sample_joined = enc_join sample_node_env 0 2000 10 [(''max_sessions'', PInt 2)] None (sample_encoders True)"

definition sample_answer :: join_answer where
  "sample_answer = (case fst sample_joined of Inr (Some j) \<Rightarrow> j | _ \<Rightarrow> \<lparr>ja_node_id = [], ja_node_token = [], ja_etag = []\<rparr>)"

definition sample_header :: string where
  "sample_header = ''Bearer '' @ ja_node_token sample_answer"

definition sample_round :: pass_env where
  "sample_round = \<lparr>pe_now = 10, pe_hb = None,
     pe_reply = (\<lambda>tag. enc_assignments sample_node_env 0 ''rtsp://g'' sample_header tag (snd sample_joined)), pe_tick = sample_tick\<rparr>"

lemma sample_join: "sample_joined = (Inr (Some sample_answer), snd sample_joined)"
proof -
  have "(case fst sample_joined of Inr (Some _) \<Rightarrow> True | _ \<Rightarrow> False)" by code_simp
  then show ?thesis by (auto simp: sample_answer_def prod_eq_iff split: sum.splits option.splits)
qed

lemma sample_guard: "encode_node_token_required sample_node_env 0 sample_header (snd sample_joined)
    = Pass (hd (ec_nodes (snd sample_joined)))"
  by code_simp

lemma sample_work: "\<exists>d e. assignments_for_node ''rtsp://g'' 10 (snd sample_joined) = Inr [d, e] \<and> job_camera d = 2 \<and> job_camera e = 1"
proof -
  have "map_sum id (map job_camera) (assignments_for_node ''rtsp://g'' 10 (snd sample_joined)) = Inr [2, 1]" by code_simp
  then show ?thesis by (cases "assignments_for_node ''rtsp://g'' 10 (snd sample_joined)") (auto simp: map_eq_Cons_conv)
qed

theorem joined_encoder_stays_idle_witness:
  "\<exists>a. enc_run sample_encoder_cfg [sample_round, sample_round] (snd (agent_join (Some ''j'') (Some sample_answer) (new_agent None))) = (Inr (), a)
     \<and> ag_jobs a = []"
proof -
  have "unchanged sample_node_env ''rtsp://g'' sample_header (enc_current_etag sample_node_env (snd sample_joined)) sample_round"
    unfolding unchanged_def sample_round_def by auto
  then have "list_all (unchanged sample_node_env ''rtsp://g'' sample_header (enc_current_etag sample_node_env (snd sample_joined))) [sample_round, sample_round]"
    by simp
  from joined_encoder_stays_idle [OF sample_join [unfolded sample_joined_def] _ _ this [unfolded sample_joined_def], of None "Some ''j''" sample_encoder_cfg]
  show ?thesis by (simp add: given_def)
qed

theorem encoder_converges_witness:
  "\<exists>a'. enc_pass sample_encoder_cfg sample_round (new_agent (Some ''t'')) = (Inr (), a') \<and> dom (map_of (ag_jobs a')) = {1, 2}"
proof -
  obtain d e where w: "assignments_for_node ''rtsp://g'' 10 (snd sample_joined) = Inr [d, e]" "job_camera d = 2" "job_camera e = 1"
    using sample_work by blast
  have id: "en_id (hd (ec_nodes (snd sample_joined))) = 10" by code_simp
  have r: "take 7 ''rtsp://g'' = ''rtsp://''" by simp
  have j: "snd (agent_join None None (new_agent (Some ''t''))) = (new_agent (Some ''t'') :: encoder)"
    by (simp add: agent_join_def new_agent_def given_def)
  have p: "pe_reply sample_round = (\<lambda>tag. enc_assignments sample_node_env 0 ''rtsp://g'' sample_header tag (snd sample_joined))"
    by (simp add: sample_round_def)
  have "\<exists>a a'. enc_run sample_encoder_cfg [] (new_agent (Some ''t'')) = (Inr (), a) \<and> enc_pass sample_encoder_cfg sample_round a = (Inr (), a')
      \<and> (ag_etag a \<noteq> Some (enc_current_etag sample_node_env (snd sample_joined)) \<longrightarrow> dom (map_of (ag_jobs a')) = job_camera ` set [d, e])"
    using encoder_converges [OF r _ j [symmetric] p sample_guard, of "[]" "[d, e]" sample_encoder_cfg] w(1) id by (simp add: j) blast
  then show ?thesis using w by (auto simp: new_agent_def)
qed

theorem refused_poll_idles_encoder_witness:
  "\<exists>a'. enc_run sample_encoder_cfg [sample_round\<lparr>pe_reply := (\<lambda>_. ErrorBody)\<rparr>, sample_round]
          (snd (agent_join (Some ''j'') (Some sample_answer) (new_agent None))) = (Inr (), a') \<and> ag_jobs a' = []"
proof -
  let ?a = "snd (agent_join (Some ''j'') (Some sample_answer) (new_agent None)) :: encoder"
  have e: "ja_etag sample_answer = enc_current_etag sample_node_env (snd sample_joined)"
    using enc_join_etag [OF sample_join [unfolded sample_joined_def]] by (simp add: sample_joined_def)
  have r: "encoder_reachable sample_encoder_cfg ?a" by (rule joined) (rule boot)
  have t: "ag_etag ?a = Some (ja_etag sample_answer)" by (simp add: agent_join_def new_agent_def given_def)
  have ne: "ja_etag sample_answer \<noteq> []" unfolding e by (rule etag_nonempty)
  have u: "list_all (unchanged sample_node_env ''rtsp://g'' sample_header (ja_etag sample_answer)) [sample_round]"
    unfolding e by (auto simp: unchanged_def sample_round_def)
  show ?thesis
    using refused_poll_idles_encoder [OF r t ne _ _ u, of "sample_round\<lparr>pe_reply := (\<lambda>_. ErrorBody)\<rparr>"] by (simp add: sample_round_def)
qed

definition sample_session :: encode_session where
  "sample_session = (EncodeSession [])\<lparr>es_popen := Some 77, es_started_at := 6\<rparr>"

theorem encoder_processes_accounted_witness:
  "\<exists>a. Spawned 77 \<in> set (ag_calls a) \<and> spawned_of (ag_calls (enc_stop a)) = ended_of (ag_calls (enc_stop a))"
proof -
  let ?p = "enc_pass sample_encoder_cfg sample_round (new_agent (Some ''t''))"
  have r: "encoder_reachable sample_encoder_cfg (snd ?p)" by (rule round [OF boot]) (rule prod.collapse [symmetric])
  have "Spawned 77 \<in> set (ag_calls (snd ?p))" by code_simp
  then show ?thesis using encoder_processes_accounted [OF r] by blast
qed

theorem confirmed_session_is_healthy_witness:
  "\<exists>x p. (2, x) \<in> set [(2, sample_session)] \<and> es_popen x = Some p \<and> (10::rat) - es_started_at x \<ge> 3"
proof -
  let ?a = "(new_agent None)\<lparr>ag_jobs := [(2, sample_session)]\<rparr> :: encoder"
  let ?h = "enc_heartbeat sample_env 7 sample_encoder (heartbeat_payload sample_encoder_cfg 10 (\<lambda>_. True) ?a) None (sample_encoders True)"
  let ?row = "\<lparr>ea_camera = 2, ea_node = 10, ea_state = STATE_PENDING, ea_claimed_at = None, ea_last_report_ts = None, ea_epoch = 1\<rparr>"
  have row: "enc_get_for_camera (ec_rows (sample_encoders True)) 2 = Some ?row" by code_simp
  have "map_option ea_state (enc_get_for_camera (ec_rows (snd ?h)) 2) = Some STATE_ACTIVE" by code_simp
  then have "enc_get_for_camera (ec_rows (snd ?h)) 2 \<noteq> Some ?row" by (auto simp: STATE_ACTIVE_def STATE_PENDING_def)
  from confirmed_session_is_healthy [of sample_env 7 sample_encoder sample_encoder_cfg 10 "\<lambda>_. True" ?a None "sample_encoders True" "fst ?h" "snd ?h", OF _ row this]
  show ?thesis by (auto simp: new_agent_def)
qed

end
