(* ===== verification/Tracker.thy ===== *)
theory Tracker
  imports PyVal "HOL-Library.AList" "HOL-Library.Product_Lexorder"
begin

text \<open>
  The computations of the detector worker that need no server: polygon geometry and zone filter
  (\<open>worker/detector/zones.py\<close>, the same functions as \<open>server/service/geometry.py\<close>), the greedy tracker (\<open>tracker.py\<close>) and the
  sampler (\<open>sampler.py\<close>). Coordinates and confidences are exact rationals where the code has doubles. MD5 is
  a parameter.
\<close>

section \<open>Geometry\<close>

type_synonym bbox = "rat \<times> rat \<times> rat \<times> rat"
type_synonym point = "rat \<times> rat"

definition bottom_center :: "bbox \<Rightarrow> point" where
  "bottom_center b = (case b of (x1, y1, x2, y2) \<Rightarrow> ((x1 + x2) / 2, max y1 y2))"

text \<open>The edge from \<open>j\<close> to \<open>i\<close> crosses the ray to the right of the point.\<close>

definition crosses :: "rat \<Rightarrow> rat \<Rightarrow> point \<Rightarrow> point \<Rightarrow> bool" where
  "crosses x y i j =
     (case (i, j) of ((xi, yi), (xj, yj)) \<Rightarrow>
        (yi > y) \<noteq> (yj > y)
        \<and> x < (xj - xi) * (y - yi) / (if yj - yi = 0 then 1 / 10 ^ 12 else yj - yi) + xi)"

fun ray_loop :: "rat \<Rightarrow> rat \<Rightarrow> point \<Rightarrow> point list \<Rightarrow> bool \<Rightarrow> bool" where
  "ray_loop x y j [] inside = inside"
| "ray_loop x y j (i # is) inside = ray_loop x y i is (if crosses x y i j then \<not> inside else inside)"

definition point_in_polygon :: "rat \<Rightarrow> rat \<Rightarrow> point list \<Rightarrow> bool" where
  "point_in_polygon x y poly = (if length poly < 3 then False else ray_loop x y (last poly) poly False)"

fun shoelace :: "point \<Rightarrow> point list \<Rightarrow> rat" where
  "shoelace p0 [] = 0"
| "shoelace p0 [(x1, y1)] = x1 * snd p0 - fst p0 * y1"
| "shoelace p0 ((x1, y1) # (x2, y2) # ps) = (x1 * y2 - x2 * y1) + shoelace p0 ((x2, y2) # ps)"

definition polygon_area :: "point list \<Rightarrow> rat" where
  "polygon_area poly = (if length poly < 3 then 0 else \<bar>shoelace (hd poly) poly\<bar> / 2)"

section \<open>Zones\<close>

text \<open>The points of a polygon as it comes in a work order; indexing anything else raises.\<close>

definition point_of :: "pyval \<Rightarrow> py_error + point" where
  "point_of v =
     (case v of
        PList (a # b # _) \<Rightarrow>
          (case (py_number a, py_number b) of (Some x, Some y) \<Rightarrow> Inr (x, y) | _ \<Rightarrow> Inl (TypeError ''coordinate''))
      | _ \<Rightarrow> Inl (TypeError ''point''))"

definition in_polygon :: "rat \<Rightarrow> rat \<Rightarrow> pyval \<Rightarrow> py_error + bool" where
  "in_polygon x y v =
     (case v of
        PList ps \<Rightarrow> if length ps < 3 then Inr False else map_sum id (point_in_polygon x y) (mapE point_of ps)
      | _ \<Rightarrow> if py_truthy v then Inl (TypeError ''polygon'') else Inr False)"

text \<open>\<open>any(point_in_polygon(nx, ny, p) for p in polygons)\<close>.\<close>

fun in_any :: "rat \<Rightarrow> rat \<Rightarrow> pyval list \<Rightarrow> py_error + bool" where
  "in_any x y [] = Inr False"
| "in_any x y (p # ps) = (case in_polygon x y p of Inl e \<Rightarrow> Inl e | Inr b \<Rightarrow> if b then Inr True else in_any x y ps)"

record detection =
  dt_bbox :: bbox
  dt_confidence :: rat
  dt_class_id :: int
  dt_label :: string

record zone_filter =
  zf_include :: "pyval list"
  zf_ignore :: "pyval list"

definition zone_list :: "pydict \<Rightarrow> string \<Rightarrow> pyval list" where
  "zone_list zones k = (case dget zones k of PList ps \<Rightarrow> ps | _ \<Rightarrow> [])"

definition keep :: "zone_filter \<Rightarrow> int \<Rightarrow> int \<Rightarrow> detection \<Rightarrow> py_error + bool" where
  "keep z w h d =
     (case bottom_center (dt_bbox d) of (bx, by') \<Rightarrow>
      let nx = bx / of_int (max 1 w); ny = by' / of_int (max 1 h) in
      case (if zf_include z = [] then Inr True else in_any nx ny (zf_include z)) of
        Inl e \<Rightarrow> Inl e
      | Inr False \<Rightarrow> Inr False
      | Inr True \<Rightarrow> map_sum id Not (in_any nx ny (zf_ignore z)))"

definition zone_filter_dets :: "zone_filter \<Rightarrow> int \<Rightarrow> int \<Rightarrow> detection list \<Rightarrow> py_error + detection list" where
  "zone_filter_dets z w h ds =
     map_sum id (\<lambda>bs. map fst (filter snd (zip ds bs))) (mapE (keep z w h) ds)"

section \<open>The tracker\<close>

definition iou :: "bbox \<Rightarrow> bbox \<Rightarrow> rat" where
  "iou a b =
     (case (a, b) of ((ax1, ay1, ax2, ay2), (bx1, by1, bx2, by2)) \<Rightarrow>
      let iw = max 0 (min ax2 bx2 - max ax1 bx1); ih = max 0 (min ay2 by2 - max ay1 by1); inter = iw * ih
      in if inter \<le> 0 then 0
         else let union = max 0 (ax2 - ax1) * max 0 (ay2 - ay1) + max 0 (bx2 - bx1) * max 0 (by2 - by1) - inter
              in if union > 0 then inter / union else 0)"

record tracked_object =
  to_local_id :: int
  to_track_key :: string
  to_bbox :: bbox
  to_label :: string
  to_class_id :: int
  to_confidence :: rat
  to_first_ts :: int
  to_last_ts :: int
  to_is_new :: bool
  to_is_lost :: bool
  to_force :: bool

definition TrackedObject :: "int \<Rightarrow> detection \<Rightarrow> int \<Rightarrow> string \<Rightarrow> tracked_object" where
  "TrackedObject local_id d ts key =
     \<lparr>to_local_id = local_id, to_track_key = key, to_bbox = dt_bbox d, to_label = dt_label d, to_class_id = dt_class_id d,
      to_confidence = dt_confidence d, to_first_ts = ts, to_last_ts = ts, to_is_new = True, to_is_lost = False, to_force = False\<rparr>"

definition dwell_ms :: "tracked_object \<Rightarrow> int" where
  "dwell_ms t = to_last_ts t - to_first_ts t"

definition to_update :: "detection \<Rightarrow> int \<Rightarrow> tracked_object \<Rightarrow> tracked_object" where
  "to_update d ts t = t\<lparr>to_bbox := dt_bbox d, to_label := dt_label d, to_class_id := dt_class_id d,
     to_confidence := dt_confidence d, to_last_ts := ts, to_is_new := False\<rparr>"

record simple_tracker =
  sk_session :: string
  sk_camera :: db_id
  sk_iou_thresh :: rat
  sk_max_age_ms :: int
  sk_tracks :: "(int \<times> tracked_object) list"
  sk_next_id :: int

definition SimpleTracker :: "string \<Rightarrow> db_id \<Rightarrow> simple_tracker" where
  "SimpleTracker session camera = \<lparr>sk_session = session, sk_camera = camera, sk_iou_thresh = 3 / 10, sk_max_age_ms = 2000,
     sk_tracks = [], sk_next_id = 1\<rparr>"

text \<open>\<open>md5(session:camera:local_id)\<close>; the first 32 characters of the digest.\<close>

definition track_key_of :: "(string \<Rightarrow> string) \<Rightarrow> simple_tracker \<Rightarrow> int \<Rightarrow> string" where
  "track_key_of md5 k local_id =
     take 32 (md5 (sk_session k @ '':'' @ str_of_int (sk_camera k) @ '':'' @ str_of_int local_id))"

text \<open>The pairs of a live track and a detection that overlap enough, best first.\<close>

definition candidate_pairs :: "rat \<Rightarrow> tracked_object list \<Rightarrow> detection list \<Rightarrow> (rat \<times> nat \<times> nat) list" where
  "candidate_pairs thresh live ds =
     rev (sort (filter (\<lambda>(v, _, _). thresh \<le> v)
       (concat (map (\<lambda>ti. map (\<lambda>di. (iou (to_bbox (live ! ti)) (dt_bbox (ds ! di)), ti, di)) [0..<length ds]) [0..<length live]))))"

text \<open>The greedy loop: a pair is taken when neither side is used.\<close>

fun match_loop :: "(rat \<times> nat \<times> nat) list \<Rightarrow> (nat \<times> nat) list \<Rightarrow> (nat \<times> nat) list" where
  "match_loop [] m = m"
| "match_loop ((v, ti, di) # ps) m =
     (if ti \<in> fst ` set m \<or> di \<in> snd ` set m then match_loop ps m else match_loop ps (m @ [(ti, di)]))"

definition matched_track :: "(nat \<times> nat) list \<Rightarrow> detection list \<Rightarrow> int \<Rightarrow> nat \<Rightarrow> tracked_object \<Rightarrow> tracked_object" where
  "matched_track m ds ts ti t =
     (case map_of m ti of None \<Rightarrow> t\<lparr>to_is_new := False\<rparr> | Some di \<Rightarrow> to_update (ds ! di) ts (t\<lparr>to_is_new := False\<rparr>))"

fun number_tracks :: "(int \<Rightarrow> string) \<Rightarrow> int \<Rightarrow> int \<Rightarrow> detection list \<Rightarrow> (int \<times> tracked_object) list" where
  "number_tracks key ts i [] = []"
| "number_tracks key ts i (d # ds) = (i, TrackedObject i d ts (key i)) # number_tracks key ts (i + 1) ds"

definition too_old :: "simple_tracker \<Rightarrow> int \<Rightarrow> tracked_object \<Rightarrow> bool" where
  "too_old k ts t \<longleftrightarrow> ts - to_last_ts t > sk_max_age_ms k"

text \<open>\<open>SimpleTracker.update\<close>: the active and the just lost tracks.\<close>

definition sk_update :: "(string \<Rightarrow> string) \<Rightarrow> detection list \<Rightarrow> int \<Rightarrow> simple_tracker \<Rightarrow> tracked_object list \<times> simple_tracker" where
  "sk_update md5 ds ts k =
     (let live = map snd (sk_tracks k);
          m = match_loop (candidate_pairs (sk_iou_thresh k) live ds) [];
          old = map (\<lambda>(ti, (i, t)). (i, matched_track m ds ts ti t)) (enumerate 0 (sk_tracks k));
          fresh = map ((!) ds) (filter (\<lambda>di. di \<notin> snd ` set m) [0..<length ds]);
          all_tracks = old @ number_tracks (track_key_of md5 k) ts (sk_next_id k) fresh;
          active = filter (\<lambda>(_, t). \<not> too_old k ts t) all_tracks;
          lost = map (\<lambda>(_, t). t\<lparr>to_is_lost := True\<rparr>) (filter (\<lambda>(_, t). too_old k ts t) all_tracks)
      in (map snd active @ lost,
          k\<lparr>sk_tracks := active, sk_next_id := sk_next_id k + int (length fresh)\<rparr>))"

section \<open>The sampler\<close>

text \<open>The last report time per track key.\<close>

type_synonym sampler = "(string \<times> int) list"

definition must_report :: "tracked_object \<Rightarrow> bool" where
  "must_report t \<longleftrightarrow> to_is_new t \<or> to_is_lost t \<or> to_force t"

definition due :: "rat \<Rightarrow> int \<Rightarrow> sampler \<Rightarrow> tracked_object \<Rightarrow> bool" where
  "due interval ts last_at t \<longleftrightarrow>
     must_report t
     \<or> of_int (ts - (case map_of last_at (to_track_key t) of None \<Rightarrow> - (10 ^ 15) | Some v \<Rightarrow> v)) \<ge> interval"

fun sample_loop :: "rat \<Rightarrow> int \<Rightarrow> tracked_object list \<Rightarrow> sampler \<Rightarrow> tracked_object list \<times> sampler" where
  "sample_loop interval ts [] last_at = ([], last_at)"
| "sample_loop interval ts (t # tr) last_at =
     (if due interval ts last_at t
      then (case sample_loop interval ts tr (AList.update (to_track_key t) ts last_at) of (out, l) \<Rightarrow> (t # out, l))
      else sample_loop interval ts tr last_at)"

definition sample :: "rat \<Rightarrow> tracked_object list \<Rightarrow> int \<Rightarrow> sampler \<Rightarrow> tracked_object list \<times> sampler" where
  "sample interval tracks ts last_at =
     (case sample_loop interval ts tracks last_at of (out, l) \<Rightarrow>
        (out, fold (\<lambda>t. AList.delete (to_track_key t)) (filter to_is_lost tracks) l))"

end
