(* ===== verification/TrackerProps.thy ===== *)
theory TrackerProps
  imports Tracker
begin

text \<open>
  Properties of the tracker (a frame is matched stably, no detection is lost or counted twice, a track is
  lost once and its identifier is never used again), of the sampler (its rate) and of the
  polygon test (rectangles are half-open).
\<close>

section \<open>Matching\<close>

text \<open>The greedy loop over pairs in descending order is injective on both sides and leaves no pair that could improve.\<close>

definition injective :: "(nat \<times> nat) list \<Rightarrow> bool" where
  "injective m \<longleftrightarrow> distinct (map fst m) \<and> distinct (map snd m)"

lemma match_loop_injective: "injective m \<Longrightarrow> injective (match_loop ps m)"
  by (induction ps m rule: match_loop.induct) (auto simp: injective_def)

lemma match_loop_mem: "p \<in> set (match_loop ps m) \<Longrightarrow> p \<in> set m \<or> (\<exists>v. (v, p) \<in> set ps)"
  by (induction ps m rule: match_loop.induct) (auto split: if_splits)

lemma match_loop_mono: "p \<in> set m \<Longrightarrow> p \<in> set (match_loop ps m)"
  by (induction ps m rule: match_loop.induct) auto

lemma match_loop_stable:
  assumes "sorted_wrt (\<lambda>p q. fst q \<le> fst p) ps" and "\<And>v ti di. (v, ti, di) \<in> set ps \<Longrightarrow> v = f ti di"
    and "\<And>a b v ti di. (a, b) \<in> set m \<Longrightarrow> (v, ti, di) \<in> set ps \<Longrightarrow> v \<le> f a b"
    and "(v, ti, di) \<in> set ps"
  shows "\<exists>a b. (a, b) \<in> set (match_loop ps m) \<and> (a = ti \<or> b = di) \<and> f ti di \<le> f a b"
  using assms
proof (induction ps m rule: match_loop.induct)
  case (1 m)
  then show ?case by simp
next
  case (2 w tj dj ps m)
  have sorted: "sorted_wrt (\<lambda>p q. fst q \<le> fst p) ps" and below: "\<And>q. q \<in> set ps \<Longrightarrow> fst q \<le> w"
    using "2.prems"(1) by auto
  have val: "\<And>v ti di. (v, ti, di) \<in> set ps \<Longrightarrow> v = f ti di" and w: "w = f tj dj" using "2.prems"(2) by auto
  show ?case
  proof (cases "tj \<in> fst ` set m \<or> dj \<in> snd ` set m")
    case True
    have loop: "match_loop ((w, tj, dj) # ps) m = match_loop ps m" using True by simp
    show ?thesis
    proof (cases "(v, ti, di) \<in> set ps")
      case in_ps: True
      have "v' \<le> f a b" if "(a, b) \<in> set m" "(v', t', d') \<in> set ps" for a b v' t' d'
        using "2.prems"(3) [OF that(1), of v' t' d'] that(2) by simp
      then show ?thesis unfolding loop by (intro "2.IH"(1) [OF True sorted val _ in_ps]) auto
    next
      case False
      then have eq: "ti = tj" "di = dj" using "2.prems"(4) by auto
      obtain a b where ab: "(a, b) \<in> set m" "a = tj \<or> b = dj" using True by auto
      then have "f tj dj \<le> f a b" using "2.prems"(3) [OF ab(1), of w tj dj] w by simp
      then show ?thesis unfolding loop using ab eq match_loop_mono [OF ab(1), of ps] by blast
    qed
  next
    case False
    have loop: "match_loop ((w, tj, dj) # ps) m = match_loop ps (m @ [(tj, dj)])" using False by simp
    show ?thesis
    proof (cases "(v, ti, di) \<in> set ps")
      case in_ps: True
      have "v' \<le> f a b" if "(a, b) \<in> set (m @ [(tj, dj)])" "(v', t', d') \<in> set ps" for a b v' t' d'
        using that "2.prems"(3) [of a b v' t' d'] below [of "(v', t', d')"] w by auto
      then show ?thesis unfolding loop by (intro "2.IH"(2) [OF False sorted val _ in_ps]) auto
    next
      case False
      then have eq: "ti = tj" "di = dj" using "2.prems"(4) by auto
      have "(tj, dj) \<in> set (match_loop ps (m @ [(tj, dj)]))" by (rule match_loop_mono) simp
      then show ?thesis unfolding loop using eq by blast
    qed
  qed
qed

lemma sorted_desc_fst:
  fixes xs :: "(rat \<times> nat \<times> nat) list"
  shows "sorted_wrt (\<lambda>p q. fst q \<le> fst p) (rev (sort xs))"
proof -
  have "sorted_wrt (\<lambda>p q. fst p \<le> fst q) (sort xs)"
    by (rule sorted_wrt_mono_rel [OF _ sorted_sort]) (auto simp: less_eq_prod_def)
  then show ?thesis by (simp add: sorted_wrt_rev)
qed

definition overlap :: "tracked_object list \<Rightarrow> detection list \<Rightarrow> nat \<Rightarrow> nat \<Rightarrow> rat" where
  "overlap live ds ti di = iou (to_bbox (live ! ti)) (dt_bbox (ds ! di))"

lemma candidate_pairs_mem:
  "(v, ti, di) \<in> set (candidate_pairs thresh live ds) \<longleftrightarrow>
     ti < length live \<and> di < length ds \<and> v = overlap live ds ti di \<and> thresh \<le> v"
proof -
  have "(v, ti, di) \<in> set (concat (map (\<lambda>ti. map (\<lambda>di. (iou (to_bbox (live ! ti)) (dt_bbox (ds ! di)), ti, di)) [0..<length ds]) [0..<length live]))
      \<longleftrightarrow> ti < length live \<and> di < length ds \<and> v = overlap live ds ti di"
    by (auto simp: overlap_def image_iff)
  then show ?thesis by (auto simp: candidate_pairs_def)
qed

lemma candidate_pairs_sorted: "sorted_wrt (\<lambda>p q. fst q \<le> fst p) (candidate_pairs thresh live ds)"
  unfolding candidate_pairs_def by (rule sorted_desc_fst)

definition frame_match :: "simple_tracker \<Rightarrow> detection list \<Rightarrow> (nat \<times> nat) list" where
  "frame_match k ds = match_loop (candidate_pairs (sk_iou_thresh k) (map snd (sk_tracks k)) ds) []"

lemma frame_match_injective: "injective (frame_match k ds)"
  unfolding frame_match_def by (rule match_loop_injective) (simp add: injective_def)

lemma frame_match_mem:
  assumes "(ti, di) \<in> set (frame_match k ds)"
  shows "ti < length (sk_tracks k)" "di < length ds" "sk_iou_thresh k \<le> overlap (map snd (sk_tracks k)) ds ti di"
proof -
  obtain v where "(v, ti, di) \<in> set (candidate_pairs (sk_iou_thresh k) (map snd (sk_tracks k)) ds)"
    using match_loop_mem [OF assms [unfolded frame_match_def]] by auto
  then show "ti < length (sk_tracks k)" "di < length ds" "sk_iou_thresh k \<le> overlap (map snd (sk_tracks k)) ds ti di"
    by (auto simp: candidate_pairs_mem)
qed

lemma frame_match_stable:
  assumes "ti < length (sk_tracks k)" and "di < length ds" and "sk_iou_thresh k \<le> overlap (map snd (sk_tracks k)) ds ti di"
  shows "\<exists>a b. (a, b) \<in> set (frame_match k ds) \<and> (a = ti \<or> b = di)
    \<and> overlap (map snd (sk_tracks k)) ds ti di \<le> overlap (map snd (sk_tracks k)) ds a b"
  unfolding frame_match_def
  by (rule match_loop_stable [where v = "overlap (map snd (sk_tracks k)) ds ti di"])
     (use assms in \<open>auto simp: candidate_pairs_mem candidate_pairs_sorted\<close>)

section \<open>A frame\<close>

lemma number_tracks_nth:
  "length (number_tracks key ts i ds) = length ds"
  "n < length ds \<Longrightarrow> number_tracks key ts i ds ! n = (i + int n, TrackedObject (i + int n) (ds ! n) ts (key (i + int n)))"
proof (induction ds arbitrary: i n)
  case Nil
  {
    case 1
    then show ?case by simp
  next
    case 2
    then show ?case by simp
  }
next
  case (Cons d ds)
  {
    case 1
    then show ?case by (simp add: Cons.IH(1))
  next
    case 2
    then show ?case by (cases n) (simp_all add: Cons.IH(2) algebra_simps)
  }
qed

lemma number_tracks_ids: "map fst (number_tracks key ts i ds) = map (\<lambda>n. i + int n) [0..<length ds]"
  by (rule nth_equalityI) (simp_all add: number_tracks_nth)

definition old_tracks :: "detection list \<Rightarrow> int \<Rightarrow> simple_tracker \<Rightarrow> (int \<times> tracked_object) list" where
  "old_tracks ds ts k = map (\<lambda>(ti, (i, t)). (i, matched_track (frame_match k ds) ds ts ti t)) (enumerate 0 (sk_tracks k))"

definition fresh_dets :: "simple_tracker \<Rightarrow> detection list \<Rightarrow> nat list" where
  "fresh_dets k ds = filter (\<lambda>di. di \<notin> snd ` set (frame_match k ds)) [0..<length ds]"

definition new_tracks :: "(string \<Rightarrow> string) \<Rightarrow> detection list \<Rightarrow> int \<Rightarrow> simple_tracker \<Rightarrow> (int \<times> tracked_object) list" where
  "new_tracks md5 ds ts k = number_tracks (track_key_of md5 k) ts (sk_next_id k) (map ((!) ds) (fresh_dets k ds))"

lemma sk_update_eq:
  "sk_update md5 ds ts k =
     (let all_tracks = old_tracks ds ts k @ new_tracks md5 ds ts k;
          active = filter (\<lambda>(_, t). \<not> too_old k ts t) all_tracks
      in (map snd active @ map (\<lambda>(_, t). t\<lparr>to_is_lost := True\<rparr>) (filter (\<lambda>(_, t). too_old k ts t) all_tracks),
          k\<lparr>sk_tracks := active, sk_next_id := sk_next_id k + int (length (fresh_dets k ds))\<rparr>))"
  by (simp add: sk_update_def Let_def old_tracks_def new_tracks_def fresh_dets_def frame_match_def)

text \<open>The tracks of a tracker: distinct identifiers below the counter, keys derived from them, none marked lost.\<close>

definition tracker_ok :: "(string \<Rightarrow> string) \<Rightarrow> simple_tracker \<Rightarrow> bool" where
  "tracker_ok md5 k \<longleftrightarrow> 0 \<le> sk_max_age_ms k \<and> distinct (map fst (sk_tracks k))
     \<and> (\<forall>(i, t) \<in> set (sk_tracks k). i < sk_next_id k \<and> to_local_id t = i \<and> to_track_key t = track_key_of md5 k i \<and> \<not> to_is_lost t)"

lemma old_tracks_nth:
  assumes "ti < length (sk_tracks k)"
  shows "old_tracks ds ts k ! ti
    = (fst (sk_tracks k ! ti), matched_track (frame_match k ds) ds ts ti (snd (sk_tracks k ! ti)))"
  using assms by (simp add: old_tracks_def nth_enumerate_eq case_prod_beta)

lemma old_tracks_ids: "map fst (old_tracks ds ts k) = map fst (sk_tracks k)"
  by (rule nth_equalityI) (simp_all add: old_tracks_def nth_enumerate_eq case_prod_beta)

lemma matched_track_fields:
  "to_local_id (matched_track m ds ts ti t) = to_local_id t" "to_track_key (matched_track m ds ts ti t) = to_track_key t"
  "to_is_lost (matched_track m ds ts ti t) = to_is_lost t" "to_first_ts (matched_track m ds ts ti t) = to_first_ts t"
  "\<not> to_is_new (matched_track m ds ts ti t)"
  by (simp_all add: matched_track_def to_update_def split: option.splits)

lemma all_ids_distinct:
  assumes "tracker_ok md5 k"
  shows "distinct (map fst (old_tracks ds ts k @ new_tracks md5 ds ts k))"
proof -
  have "i < sk_next_id k" if "i \<in> set (map fst (sk_tracks k))" for i using assms that by (fastforce simp: tracker_ok_def)
  then have "set (map fst (sk_tracks k)) \<inter> set (map (\<lambda>n. sk_next_id k + int n) [0..<length (fresh_dets k ds)]) = {}" by force
  then show ?thesis using assms
    by (simp add: tracker_ok_def old_tracks_ids new_tracks_def number_tracks_ids distinct_map inj_on_def)
qed

lemma track_key_of_cong [simp]: "track_key_of md5 (k\<lparr>sk_tracks := x, sk_next_id := n\<rparr>) = track_key_of md5 k"
  by (simp add: track_key_of_def fun_eq_iff)

lemma old_tracks_ok:
  assumes "tracker_ok md5 k" and "(i, t) \<in> set (old_tracks ds ts k)"
  shows "i < sk_next_id k \<and> to_local_id t = i \<and> to_track_key t = track_key_of md5 k i \<and> \<not> to_is_lost t \<and> \<not> to_is_new t"
proof -
  obtain ti where ti: "ti < length (old_tracks ds ts k)" "old_tracks ds ts k ! ti = (i, t)"
    using assms(2) by (auto simp: in_set_conv_nth)
  then have "ti < length (sk_tracks k)" by (simp add: old_tracks_def)
  moreover obtain j u where u: "sk_tracks k ! ti = (j, u)" by (rule prod.exhaust)
  ultimately have "(j, u) \<in> set (sk_tracks k)" "i = j" "t = matched_track (frame_match k ds) ds ts ti u"
    using ti(2) old_tracks_nth [of ti k ds ts] nth_mem [of ti "sk_tracks k"] by auto
  then show ?thesis using assms(1) by (auto simp: tracker_ok_def matched_track_fields)
qed

lemma new_tracks_ok:
  assumes "(i, t) \<in> set (new_tracks md5 ds ts k)"
  shows "sk_next_id k \<le> i \<and> i < sk_next_id k + int (length (fresh_dets k ds)) \<and> to_local_id t = i
    \<and> to_track_key t = track_key_of md5 k i \<and> \<not> to_is_lost t \<and> to_is_new t \<and> to_last_ts t = ts"
proof -
  obtain n where "n < length (new_tracks md5 ds ts k)" "new_tracks md5 ds ts k ! n = (i, t)" using assms by (auto simp: in_set_conv_nth)
  then show ?thesis by (auto simp: new_tracks_def number_tracks_nth TrackedObject_def)
qed

lemma sk_update_ok:
  assumes "tracker_ok md5 k" and "sk_update md5 ds ts k = (out, k')"
  shows "tracker_ok md5 k' \<and> sk_next_id k \<le> sk_next_id k'"
proof -
  let ?all = "old_tracks ds ts k @ new_tracks md5 ds ts k"
  let ?active = "filter (\<lambda>(_, t). \<not> too_old k ts t) ?all"
  have k': "k' = k\<lparr>sk_tracks := ?active, sk_next_id := sk_next_id k + int (length (fresh_dets k ds))\<rparr>"
    using assms(2) by (auto simp: sk_update_eq Let_def)
  have "distinct (map fst ?active)" using all_ids_distinct [OF assms(1)] by (rule distinct_map_filter)
  moreover have "i < sk_next_id k' \<and> to_local_id t = i \<and> to_track_key t = track_key_of md5 k i \<and> \<not> to_is_lost t" if "(i, t) \<in> set ?active" for i t
  proof -
    have "(i, t) \<in> set (old_tracks ds ts k) \<or> (i, t) \<in> set (new_tracks md5 ds ts k)" using that by auto
    then show ?thesis using old_tracks_ok [OF assms(1), of i t ds ts] new_tracks_ok [of i t md5 ds ts k] by (auto simp: k')
  qed
  ultimately show ?thesis using assms(1) by (fastforce simp: k' tracker_ok_def)
qed

text \<open>The identifier a detection's track has after the frame.\<close>

definition track_of :: "simple_tracker \<Rightarrow> detection list \<Rightarrow> nat \<Rightarrow> int" where
  "track_of k ds di =
     (case map_of (map prod.swap (frame_match k ds)) di of
        Some ti \<Rightarrow> fst (sk_tracks k ! ti)
      | None \<Rightarrow> sk_next_id k + int (length (takeWhile (\<lambda>d. d \<noteq> di) (fresh_dets k ds))))"

lemma swap_get: "map_of (map prod.swap (frame_match k ds)) di = Some ti \<longleftrightarrow> (ti, di) \<in> set (frame_match k ds)"
proof -
  have "distinct (map fst (map prod.swap (frame_match k ds)))"
    using frame_match_injective [of k ds] by (simp add: injective_def comp_def)
  from map_of_eq_Some_iff [OF this] show ?thesis by force
qed

lemma match_get: "map_of (frame_match k ds) ti = Some di \<longleftrightarrow> (ti, di) \<in> set (frame_match k ds)"
  using frame_match_injective [of k ds] by (simp add: injective_def)

lemma first_index: "x \<in> set xs \<Longrightarrow> length (takeWhile (\<lambda>y. y \<noteq> x) xs) < length xs"
  by (induction xs) auto

lemma fresh_index:
  assumes "di < length ds" and "map_of (map prod.swap (frame_match k ds)) di = None"
  shows "length (takeWhile (\<lambda>d. d \<noteq> di) (fresh_dets k ds)) < length (fresh_dets k ds)"
    and "fresh_dets k ds ! length (takeWhile (\<lambda>d. d \<noteq> di) (fresh_dets k ds)) = di"
proof -
  have "di \<notin> snd ` set (frame_match k ds)" using assms(2) swap_get [of k ds di] by fastforce
  then have "di \<in> set (fresh_dets k ds)" using assms(1) by (simp add: fresh_dets_def)
  then show l: "length (takeWhile (\<lambda>d. d \<noteq> di) (fresh_dets k ds)) < length (fresh_dets k ds)"
    by (rule first_index)
  show "fresh_dets k ds ! length (takeWhile (\<lambda>d. d \<noteq> di) (fresh_dets k ds)) = di" using nth_length_takeWhile [OF l] by simp
qed

lemma known_id_below:
  assumes "tracker_ok md5 k" and "ti < length (sk_tracks k)"
  shows "fst (sk_tracks k ! ti) < sk_next_id k"
  using assms nth_mem [OF assms(2)] by (cases "sk_tracks k ! ti") (fastforce simp: tracker_ok_def)

lemma track_of_inj:
  assumes "tracker_ok md5 k"
  shows "inj_on (track_of k ds) {..<length ds}"
proof (rule inj_onI)
  fix di dj assume d: "di \<in> {..<length ds}" "dj \<in> {..<length ds}" and eq: "track_of k ds di = track_of k ds dj"
  let ?m = "frame_match k ds"
  show "di = dj"
  proof (cases "map_of (map prod.swap ?m) di"; cases "map_of (map prod.swap ?m) dj")
    fix ti tj assume t: "map_of (map prod.swap ?m) di = Some ti" "map_of (map prod.swap ?m) dj = Some tj"
    then have m: "(ti, di) \<in> set ?m" "(tj, dj) \<in> set ?m" by (simp_all add: swap_get)
    have l: "ti < length (sk_tracks k)" "tj < length (sk_tracks k)" using frame_match_mem m by blast+
    have "map fst (sk_tracks k) ! ti = map fst (sk_tracks k) ! tj" using eq t l by (simp add: track_of_def)
    then have "ti = tj" using assms l nth_eq_iff_index_eq [of "map fst (sk_tracks k)" ti tj] by (simp add: tracker_ok_def)
    then show "di = dj" using m match_get by (metis option.inject)
  next
    fix ti assume t: "map_of (map prod.swap ?m) di = Some ti" "map_of (map prod.swap ?m) dj = None"
    then have "ti < length (sk_tracks k)" using frame_match_mem(1) swap_get by blast
    then show "di = dj" using eq t known_id_below [OF assms, of ti] by (simp add: track_of_def)
  next
    fix tj assume t: "map_of (map prod.swap ?m) di = None" "map_of (map prod.swap ?m) dj = Some tj"
    then have "tj < length (sk_tracks k)" using frame_match_mem(1) swap_get by blast
    then show "di = dj" using eq t known_id_below [OF assms, of tj] by (simp add: track_of_def)
  next
    assume t: "map_of (map prod.swap ?m) di = None" "map_of (map prod.swap ?m) dj = None"
    then have "length (takeWhile (\<lambda>d. d \<noteq> di) (fresh_dets k ds)) = length (takeWhile (\<lambda>d. d \<noteq> dj) (fresh_dets k ds))"
      using eq by (simp add: track_of_def)
    then show "di = dj" using fresh_index(2) [of di ds k] fresh_index(2) [of dj ds k] t d by (metis lessThan_iff)
  qed
qed

text \<open>The track of one detection.\<close>

lemma track_of_detection:
  assumes "tracker_ok md5 k" and "sk_update md5 ds ts k = (out, k')" and "di < length ds"
  shows "\<exists>t. map_of (sk_tracks k') (track_of k ds di) = Some t \<and> t \<in> set out \<and> to_bbox t = dt_bbox (ds ! di)
    \<and> to_label t = dt_label (ds ! di) \<and> to_confidence t = dt_confidence (ds ! di) \<and> to_last_ts t = ts
    \<and> (case map_of (sk_tracks k) (track_of k ds di) of
         None \<Rightarrow> to_is_new t \<and> sk_next_id k \<le> track_of k ds di
       | Some u \<Rightarrow> \<not> to_is_new t \<and> to_track_key t = to_track_key u \<and> to_first_ts t = to_first_ts u
           \<and> sk_iou_thresh k \<le> iou (to_bbox u) (dt_bbox (ds ! di)))"
proof -
  let ?all = "old_tracks ds ts k @ new_tracks md5 ds ts k"
  let ?active = "filter (\<lambda>(_, t). \<not> too_old k ts t) ?all"
  have k': "sk_tracks k' = ?active"
    and "out = map snd ?active @ map (\<lambda>(_, t). t\<lparr>to_is_lost := True\<rparr>) (filter (\<lambda>(_, t). too_old k ts t) ?all)"
    using assms(2) unfolding sk_update_eq Let_def by auto
  then have out: "snd ` set ?active \<subseteq> set out" by (simp only: set_append set_map) blast
  have keep: "map_of (sk_tracks k') i = Some t \<and> t \<in> set out" if "(i, t) \<in> set ?all" "to_last_ts t = ts" for i t
  proof -
    have "(i, t) \<in> set ?active" using that assms(1) by (auto simp: too_old_def tracker_ok_def)
    moreover have "distinct (map fst ?active)" using all_ids_distinct [OF assms(1)] by (rule distinct_map_filter)
    ultimately have "map_of ?active i = Some t" by (simp only: map_of_is_SomeI)
    moreover have "t \<in> set out" using out \<open>(i, t) \<in> set ?active\<close> by force
    ultimately show ?thesis using k' by (simp only: simp_thms)
  qed
  show ?thesis
  proof (cases "map_of (map prod.swap (frame_match k ds)) di")
    case (Some ti)
    then have m: "(ti, di) \<in> set (frame_match k ds)" by (simp add: swap_get)
    note lt = frame_match_mem [OF m]
    obtain j u where u: "sk_tracks k ! ti = (j, u)" by (rule prod.exhaust)
    let ?t = "matched_track (frame_match k ds) ds ts ti u"
    have id: "track_of k ds di = j" using Some u by (simp add: track_of_def)
    have mt: "?t = to_update (ds ! di) ts (u\<lparr>to_is_new := False\<rparr>)" using m by (simp add: matched_track_def match_get [symmetric])
    have "ti < length (old_tracks ds ts k)" using lt(1) by (simp add: old_tracks_def)
    from nth_mem [OF this] have "(j, ?t) \<in> set ?all" using old_tracks_nth [OF lt(1), of ds ts] u by simp
    then have g: "map_of (sk_tracks k') j = Some ?t \<and> ?t \<in> set out" by (rule keep) (simp add: mt to_update_def)
    have "(j, u) \<in> set (sk_tracks k)" using nth_mem [OF lt(1)] u by simp
    then have old: "map_of (sk_tracks k) j = Some u" using assms(1) by (simp add: tracker_ok_def)
    have "sk_iou_thresh k \<le> iou (to_bbox u) (dt_bbox (ds ! di))" using lt(3) u lt(1) by (simp add: overlap_def)
    then show ?thesis using g old id by (simp add: mt to_update_def)
  next
    case None
    let ?n = "length (takeWhile (\<lambda>d. d \<noteq> di) (fresh_dets k ds))"
    note fi = fresh_index [OF assms(3) None]
    let ?i = "sk_next_id k + int ?n"
    let ?t = "TrackedObject ?i (ds ! di) ts (track_key_of md5 k ?i)"
    have id: "track_of k ds di = ?i" using None by (simp add: track_of_def)
    have "new_tracks md5 ds ts k ! ?n = (?i, ?t)" "?n < length (new_tracks md5 ds ts k)"
      using fi by (simp_all add: new_tracks_def number_tracks_nth)
    then have "(?i, ?t) \<in> set ?all" using nth_mem [of ?n "new_tracks md5 ds ts k"] by simp
    then have g: "map_of (sk_tracks k') ?i = Some ?t \<and> ?t \<in> set out" by (rule keep) (simp add: TrackedObject_def)
    have "map_of (sk_tracks k) ?i = None" using assms(1) by (fastforce simp: tracker_ok_def map_of_eq_None_iff)
    then show ?thesis using g id by (simp add: TrackedObject_def)
  qed
qed


text \<open>A track that leaves the table is returned as lost, exactly once, and its identifier is not given out again.\<close>

lemma filter_none: "i \<notin> fst ` set xs \<Longrightarrow> filter (\<lambda>(j, _). j = i) xs = []"
  by (induction xs) auto

lemma key_filter: "i \<in> fst ` set xs \<longleftrightarrow> filter (\<lambda>(j, _). j = i) xs \<noteq> []"
  by (induction xs) auto

lemma filter_one:
  assumes "distinct (map fst xs)" and "(i, t) \<in> set xs"
  shows "filter (\<lambda>(j, _). j = i) xs = [(i, t)]"
  using assms
proof (induction xs)
  case Nil
  then show ?case by simp
next
  case (Cons p xs)
  show ?case
  proof (cases "fst p = i")
    case True
    then have "(i, t) \<notin> set xs" using Cons.prems(1) by (auto simp: image_iff)
    then have "p = (i, t)" using Cons.prems(2) by simp
    moreover have "filter (\<lambda>(j, _). j = i) xs = []" by (rule filter_none) (use Cons.prems(1) True in simp)
    ultimately show ?thesis by simp
  next
    case False
    then show ?thesis using Cons by (cases p) auto
  qed
qed

theorem lost_once:
  assumes ok: "tracker_ok md5 k" and upd: "sk_update md5 ds ts k = (out, k')" and i: "i \<in> fst ` set (sk_tracks k)"
  shows "length (filter (\<lambda>t. to_local_id t = i) out) = 1
    \<and> (i \<in> fst ` set (sk_tracks k') \<longleftrightarrow> (\<forall>t \<in> set out. to_local_id t = i \<longrightarrow> \<not> to_is_lost t)) \<and> i < sk_next_id k'"
proof -
  let ?all = "old_tracks ds ts k @ new_tracks md5 ds ts k"
  let ?active = "filter (\<lambda>(_, t). \<not> too_old k ts t) ?all"
  let ?gone = "filter (\<lambda>(_, t). too_old k ts t) ?all"
  have k': "sk_tracks k' = ?active" and out: "out = map snd ?active @ map (\<lambda>(_, t). t\<lparr>to_is_lost := True\<rparr>) ?gone"
    using upd unfolding sk_update_eq Let_def by auto
  have lid: "to_local_id t = j \<and> \<not> to_is_lost t" if "(j, t) \<in> set ?all" for j t
    using that old_tracks_ok [OF ok, of j t ds ts] new_tracks_ok [of j t md5 ds ts k] by auto
  have "i \<in> set (map fst (old_tracks ds ts k))" unfolding old_tracks_ids using i by simp
  then obtain t where t0: "(i, t) \<in> set (old_tracks ds ts k)" by auto
  then have t: "(i, t) \<in> set ?all" by simp
  have one: "filter (\<lambda>(j, _). j = i) ?all = [(i, t)]" by (rule filter_one [OF all_ids_distinct [OF ok] t])
  have loc: "filter (\<lambda>p. to_local_id (snd p) = i) (filter P ?all) = filter P [(i, t)]" for P
  proof -
    have "filter (\<lambda>p. to_local_id (snd p) = i) (filter P ?all) = filter P (filter (\<lambda>(j, _). j = i) ?all)"
      unfolding filter_filter by (rule filter_cong [OF refl]) (use lid in fastforce)
    then show ?thesis unfolding one .
  qed
  have f1: "filter (\<lambda>t. to_local_id t = i) (map snd ?active) = map snd (filter (\<lambda>(_, t). \<not> too_old k ts t) [(i, t)])"
    unfolding filter_map comp_def loc ..
  have f2: "filter (\<lambda>t. to_local_id t = i) (map (\<lambda>(_, t). t\<lparr>to_is_lost := True\<rparr>) ?gone)
      = map (\<lambda>(_, t). t\<lparr>to_is_lost := True\<rparr>) (filter (\<lambda>(_, t). too_old k ts t) [(i, t)])"
  proof -
    have "filter (\<lambda>p. to_local_id (case p of (_, t) \<Rightarrow> t\<lparr>to_is_lost := True\<rparr>) = i) ?gone = filter (\<lambda>p. to_local_id (snd p) = i) ?gone"
      by (rule filter_cong) auto
    then show ?thesis unfolding filter_map comp_def loc by simp
  qed
  have fo: "filter (\<lambda>t. to_local_id t = i) out = (if too_old k ts t then [t\<lparr>to_is_lost := True\<rparr>] else [t])"
  proof -
    have "filter (\<lambda>t. to_local_id t = i) out = filter (\<lambda>t. to_local_id t = i) (map snd ?active)
        @ filter (\<lambda>t. to_local_id t = i) (map (\<lambda>(_, t). t\<lparr>to_is_lost := True\<rparr>) ?gone)"
      unfolding out by (rule filter_append)
    then show ?thesis unfolding f1 f2 by simp
  qed
  have mem: "i \<in> fst ` set (sk_tracks k') \<longleftrightarrow> \<not> too_old k ts t"
  proof -
    have "i \<in> fst ` set (sk_tracks k') \<longleftrightarrow> filter (\<lambda>(j, _). j = i) ?active \<noteq> []"
      unfolding k' by (rule key_filter)
    also have "filter (\<lambda>(j, _). j = i) ?active = filter (\<lambda>(_, t). \<not> too_old k ts t) [(i, t)]"
      unfolding one [symmetric] filter_filter by (rule filter_cong) auto
    finally show ?thesis by simp
  qed
  have "{u \<in> set out. to_local_id u = i} = set (filter (\<lambda>t. to_local_id t = i) out)" by auto
  then have "(\<forall>u \<in> set out. to_local_id u = i \<longrightarrow> \<not> to_is_lost u) \<longleftrightarrow> \<not> too_old k ts t"
    using fo lid [OF t] by (auto split: if_splits)
  moreover have "i < sk_next_id k" using ok i by (auto simp: tracker_ok_def)
  ultimately show ?thesis using fo mem sk_update_ok [OF ok upd] by auto
qed

section \<open>The sampler\<close>

lemma due_cong: "map_of l (to_track_key t) = map_of l' (to_track_key t) \<Longrightarrow> due interval ts l t = due interval ts l' t"
  by (simp add: due_def)

lemma sample_loop_effect:
  assumes "distinct (map to_track_key tr)" and "sample_loop interval ts tr l = (out, l')"
  shows "out = filter (due interval ts l) tr
    \<and> (\<forall>c. map_of l' c = (if \<exists>t \<in> set tr. to_track_key t = c \<and> due interval ts l t then Some ts else map_of l c))"
  using assms
proof (induction tr arbitrary: l out)
  case Nil
  then show ?case by simp
next
  case (Cons t tr)
  have new: "to_track_key u \<noteq> to_track_key t" if "u \<in> set tr" for u using Cons.prems(1) that by (auto simp: image_iff)
  show ?case
  proof (cases "due interval ts l t")
    case True
    let ?l = "AList.update (to_track_key t) ts l"
    obtain o1 where o1: "sample_loop interval ts tr ?l = (o1, l')" "out = t # o1"
      using Cons.prems(2) True by (auto split: prod.splits)
    have same: "due interval ts ?l u = due interval ts l u" if "u \<in> set tr" for u
      by (rule due_cong) (use new [OF that] in \<open>simp add: update_conv'\<close>)
    have "filter (due interval ts ?l) tr = filter (due interval ts l) tr" by (rule filter_cong [OF refl same])
    then show ?thesis using Cons.IH [OF _ o1(1)] Cons.prems(1) o1(2) True same by (auto simp: update_conv')
  next
    case False
    then show ?thesis using Cons.IH [of l out] Cons.prems by auto
  qed
qed

lemma forget_keys: "map_of (fold (\<lambda>t. AList.delete (to_track_key t)) ts l) c = (if c \<in> to_track_key ` set ts then None else map_of l c)"
  by (induction ts arbitrary: l) (auto simp: delete_conv')

text \<open>C37: the rate of the reports. Of the tracks of a frame exactly those are reported that are new, lost or forced, or whose last
  report lies at least one interval back; a reported track is stamped with the frame's time, an unreported one
  keeps its stamp, and a lost one is forgotten. So a sustained track is reported once per interval and never
  more often.\<close>

theorem sample_rate:
  assumes "distinct (map to_track_key tracks)" and "sample interval tracks ts l = (out, l')" and "t \<in> set tracks"
  shows "(t \<in> set out \<longleftrightarrow> to_is_new t \<or> to_is_lost t \<or> to_force t
            \<or> (case map_of l (to_track_key t) of None \<Rightarrow> interval \<le> of_int (ts + 10 ^ 15) | Some v \<Rightarrow> interval \<le> of_int (ts - v)))
    \<and> map_of l' (to_track_key t) = (if to_is_lost t then None else if t \<in> set out then Some ts else map_of l (to_track_key t))"
proof -
  obtain l1 where l1: "sample_loop interval ts tracks l = (out, l1)" "l' = fold (\<lambda>t. AList.delete (to_track_key t)) (filter to_is_lost tracks) l1"
    using assms(2) by (auto simp: sample_def split: prod.splits)
  note e = sample_loop_effect [OF assms(1) l1(1)]
  have uniq: "u = t" if "u \<in> set tracks" "to_track_key u = to_track_key t" for u
    using assms(1,3) that by (auto simp: distinct_map dest: inj_onD)
  have mem: "t \<in> set out \<longleftrightarrow> due interval ts l t" using e assms(3) by auto
  have "map_of l1 (to_track_key t) = (if due interval ts l t then Some ts else map_of l (to_track_key t))"
    using e uniq assms(3) by auto
  moreover have "to_track_key t \<in> to_track_key ` set (filter to_is_lost tracks) \<longleftrightarrow> to_is_lost t" using uniq assms(3) by auto
  moreover have "due interval ts l t \<longleftrightarrow> to_is_new t \<or> to_is_lost t \<or> to_force t
            \<or> (case map_of l (to_track_key t) of None \<Rightarrow> interval \<le> of_int (ts + 10 ^ 15) | Some v \<Rightarrow> interval \<le> of_int (ts - v))"
    by (auto simp: due_def must_report_def split: option.splits)
  ultimately show ?thesis unfolding l1(2) forget_keys mem by auto
qed

section \<open>Polygons\<close>

text \<open>A rectangular zone contains its left and upper edge and not the other two, so adjacent rectangles share no point and leave
  no gap.\<close>

lemma rectangle_zone:
  assumes "x1 < x2" and "y1 < y2"
  shows "point_in_polygon x y [(x1, y1), (x2, y1), (x2, y2), (x1, y2)] \<longleftrightarrow> x1 \<le> x \<and> x < x2 \<and> y1 \<le> y \<and> y < y2"
  using assms by (auto simp: point_in_polygon_def crosses_def)

text \<open>The loop computes the parity of the number of edges to the right of the point.\<close>

lemma ray_loop_parity: "ray_loop x y j ps b = (b \<noteq> odd (length (filter (\<lambda>(i, j). crosses x y i j) (zip ps (j # ps)))))"
  by (induction ps arbitrary: j b) auto

lemma point_in_polygon_parity:
  assumes "3 \<le> length poly"
  shows "point_in_polygon x y poly = odd (length (filter (\<lambda>(i, j). crosses x y i j) (zip poly (last poly # poly))))"
  using assms by (simp add: point_in_polygon_def ray_loop_parity)

section \<open>A concrete tracker\<close>

definition box_at :: "rat \<Rightarrow> detection" where
  "box_at x = \<lparr>dt_bbox = (x, 0, x + 10, 10), dt_confidence = 9 / 10, dt_class_id = 0, dt_label = ''person''\<rparr>"

definition sample_tracker :: simple_tracker where
  "sample_tracker = snd (sk_update id [box_at 0, box_at 100] 1000 (SimpleTracker ''s'' 1))"

lemma sample_tracker_ok: "tracker_ok id sample_tracker"
proof -
  have "tracker_ok id (SimpleTracker ''s'' 1)" by (simp add: tracker_ok_def SimpleTracker_def)
  from sk_update_ok [OF this prod.collapse [symmetric]] show ?thesis by (simp add: sample_tracker_def)
qed


theorem sample_rate_witness:
  "fst (sample 1000 (map snd (sk_tracks sample_tracker)) 1400 []) \<noteq> []
   \<and> map_of (snd (sample 1000 (map snd (sk_tracks sample_tracker)) 1400 [])) (to_track_key (snd (hd (sk_tracks sample_tracker)))) = Some 1400"
proof -
  let ?ts = "map snd (sk_tracks sample_tracker)"
  let ?s = "sample 1000 ?ts 1400 []"
  have d: "distinct (map to_track_key ?ts)" and m: "snd (hd (sk_tracks sample_tracker)) \<in> set ?ts"
    and n: "to_is_new (snd (hd (sk_tracks sample_tracker)))" "\<not> to_is_lost (snd (hd (sk_tracks sample_tracker)))" by code_simp+
  from sample_rate [OF d prod.collapse [symmetric] m, of 1000 1400 "[]"] n
  have "snd (hd (sk_tracks sample_tracker)) \<in> set (fst ?s)"
    "map_of (snd ?s) (to_track_key (snd (hd (sk_tracks sample_tracker)))) = Some 1400" by simp_all
  then show ?thesis by auto
qed

end
