(* ===== verification/Detector.thy ===== *)
theory Detector
  imports NodeAgentProps Tracker
begin

text \<open>
  The detector worker: the frame step of a camera pipeline (\<open>worker/detector/camera_pipeline.py\<close>) over the zone
  filter, the tracker and the sampler, and the agent that runs the pipelines and posts their reports
  (\<open>worker/detector/node_agent.py\<close>). What the model finds in a frame is an argument of the frame step. The work
  orders' lists are lists and their numbers are numbers, as the server writes them; other values raise.
\<close>

section \<open>The pipeline\<close>

record pipeline =
  pl_spec :: pydict
  pl_camera :: db_id
  pl_epoch :: pyval
  pl_conf :: rat
  pl_target_fps :: rat
  pl_labels :: "pyval list"
  pl_zones :: zone_filter
  pl_interval :: pyval
  pl_tracker :: simple_tracker
  pl_sampler :: sampler
  pl_last_frame :: int
  pl_running :: bool

text \<open>\<open>CameraPipeline(spec, ...)\<close> with the exceptions of its constructor.\<close>

definition CameraPipeline :: "string \<Rightarrow> pydict \<Rightarrow> py_error + pipeline" where
  "CameraPipeline session spec =
     (case (py_number (py_or (dget_or spec ''min_confidence'' (PInt 35)) (PInt 35)), py_number (dget_or spec ''target_fps'' (PInt 5))) of
        (Some conf, Some fps) \<Rightarrow>
          (case (py_or (dget spec ''labels'') (PList []), py_or (dget spec ''zones'') (PDict []), dhas spec ''rtsp_url'') of
             (PList labels, PDict zones, True) \<Rightarrow>
               Inr \<lparr>pl_spec = spec, pl_camera = job_camera spec, pl_epoch = dget_or spec ''epoch'' (PInt 0), pl_conf = conf / 100,
                    pl_target_fps = max 1 fps, pl_labels = labels,
                    pl_zones = \<lparr>zf_include = zone_list zones ''include'', zf_ignore = zone_list zones ''ignore''\<rparr>,
                    pl_interval = dget_or spec ''sample_interval_ms'' (PInt 1000),
                    pl_tracker = SimpleTracker session (job_camera spec), pl_sampler = [], pl_last_frame = -1, pl_running = False\<rparr>
           | (PList _, PDict _, False) \<Rightarrow> Inl (KeyError ''rtsp_url'')
           | _ \<Rightarrow> Inl (TypeError ''spec''))
      | _ \<Rightarrow> Inl (TypeError ''spec''))"

definition report_of :: "pipeline \<Rightarrow> int \<Rightarrow> int \<Rightarrow> int \<Rightarrow> tracked_object \<Rightarrow> py_error + pydict" where
  "report_of p ms w h t =
     (if w = 0 \<or> h = 0 then Inl ZeroDivisionError
      else case to_bbox t of (x1, y1, x2, y2) \<Rightarrow>
        Inr [(''camera_id'', PInt (pl_camera p)), (''ts'', PInt ms), (''epoch'', pl_epoch p), (''label'', PStr (to_label t)),
             (''class_id'', PInt (to_class_id t)), (''confidence'', PFloat (to_confidence t)),
             (''bbox'', PList [PFloat (x1 / of_int w), PFloat (y1 / of_int h), PFloat (x2 / of_int w), PFloat (y2 / of_int h)]),
             (''frame_w'', PInt w), (''frame_h'', PInt h), (''track_key'', PStr (to_track_key t)),
             (''bytetrack_id'', PInt (to_local_id t)), (''attrs'', PDict [(''dwell_ms'', PInt (dwell_ms t))])])"

text \<open>
  The body of the loop for a frame that was read: \<open>ds\<close> is what the backend found. An exception is logged and
  keeps what was already changed.
\<close>

definition process_frame ::
  "(string \<Rightarrow> string) \<Rightarrow> int \<Rightarrow> int \<Rightarrow> int \<Rightarrow> int \<Rightarrow> detection list \<Rightarrow> (pipeline, pydict list) act" where
  "process_frame md5 frame_id ms w h ds p =
     (if frame_id = pl_last_frame p then (Inr [], p)
      else
        let p0 = p\<lparr>pl_last_frame := frame_id\<rparr>;
            ds1 = (if pl_labels p \<noteq> [] then filter (\<lambda>d. PStr (dt_label d) \<in> set (pl_labels p)) ds else ds)
        in case zone_filter_dets (pl_zones p) w h ds1 of
             Inl e \<Rightarrow> (Inl e, p0)
           | Inr ds2 \<Rightarrow>
               (case sk_update md5 ds2 ms (pl_tracker p) of (tracks, k) \<Rightarrow>
                let p1 = p0\<lparr>pl_tracker := k\<rparr> in
                case py_number (pl_interval p) of
                  None \<Rightarrow> (Inl (TypeError ''interval''), p1)
                | Some interval \<Rightarrow>
                    (case sample interval tracks ms (pl_sampler p) of (out, l) \<Rightarrow>
                      (mapE (report_of p ms w h) out, p1\<lparr>pl_sampler := l\<rparr>))))"

section \<open>The detector agent\<close>

datatype pipeline_call = PipelineStarted db_id | PipelineStopped db_id

record detector_agent =
  da_agent :: "(pipeline, pipeline_call) agent"
  da_session :: string
  da_queue :: "pydict list list"
  da_posted :: "pydict list list"
  da_last_report :: rat

definition det_make :: "string \<Rightarrow> pydict \<Rightarrow> py_error + pipeline" where
  "det_make session spec = map_sum id (\<lambda>p. p\<lparr>pl_running := True\<rparr>) (CameraPipeline session spec)"

definition det_apply_specs :: "string \<Rightarrow> pydict list \<Rightarrow> ((pipeline, pipeline_call) agent, unit) act" where
  "det_apply_specs session =
     apply_jobs (det_make session) pl_spec (\<lambda>p. [PipelineStarted (pl_camera p)]) (\<lambda>p. [PipelineStopped (pl_camera p)])"

text \<open>\<open>flush_reports\<close> takes whole entries of the queue while the batch is shorter than a thousand.\<close>

fun take_batch :: "pydict list \<Rightarrow> pydict list list \<Rightarrow> pydict list \<times> pydict list list" where
  "take_batch batch [] = (batch, [])"
| "take_batch batch (rs # q) = (if length batch < 1000 then take_batch (batch @ rs) q else (batch, rs # q))"

text \<open>\<open>delivered\<close>: the request reached the server; a batch whose request fails is dropped.\<close>

definition flush_reports :: "bool \<Rightarrow> detector_agent \<Rightarrow> detector_agent" where
  "flush_reports delivered a =
     (case take_batch [] (da_queue a) of (batch, q) \<Rightarrow>
        if batch = [] then a\<lparr>da_queue := q\<rparr>
        else a\<lparr>da_queue := q, da_posted := (if delivered then da_posted a @ [batch] else da_posted a)\<rparr>)"

definition REPORT_INTERVAL_S :: rat where "REPORT_INTERVAL_S = 1"

definition det_pass :: "rat \<Rightarrow> rat \<Rightarrow> string option \<Rightarrow> (string option \<Rightarrow> poll_reply) \<Rightarrow> bool \<Rightarrow> (detector_agent, unit) act" where
  "det_pass interval now hb reply delivered d =
     (let a = da_agent d;
          a0 = (if now - ag_last_hb a \<ge> interval then (note_etag hb a)\<lparr>ag_last_hb := now\<rparr> else a)
      in case poll_assignments reply a0 of (specs, a1) \<Rightarrow>
         case (case specs of None \<Rightarrow> (Inr (), a1) | Some ds \<Rightarrow> det_apply_specs (da_session d) ds a1) of
           (Inl e, a2) \<Rightarrow> (Inl e, d\<lparr>da_agent := a2\<rparr>)
         | (Inr _, a2) \<Rightarrow>
             let d2 = d\<lparr>da_agent := a2\<rparr>
             in (Inr (), if now - da_last_report d \<ge> REPORT_INTERVAL_S
                         then (flush_reports delivered d2)\<lparr>da_last_report := now\<rparr> else d2))"

end
