(* ===== verification/Detections.thy ===== *)
theory Detections
  imports Events AiScheduler FeatureFlags Tracker
begin

text \<open>
  Ingestion of the detector nodes' reports: \<open>server/service/detection_ingest.py\<close> with \<open>label_map.py\<close> and
  \<open>geometry.py\<close>, the object triggers (\<open>object_trigger_engine.py\<close>, \<open>model/object_trigger.py\<close>), the counting lines
  and regions (\<open>counting.py\<close>, \<open>model/counting.py\<close>) and the smoke alert (\<open>smoke_alert.py\<close>), on top of the event pipeline.

  Reports are JSON objects and numbers are exact rationals; infinities and NaN do not occur. MD5, \<open>str()\<close> of a
  value and \<open>float()\<close> of a string are parameters.
\<close>

section \<open>State\<close>

record detection_zone =
  dz_id :: db_id
  dz_camera :: db_id
  dz_kind :: string
  dz_polygon :: pyval
  dz_priority :: int
  dz_enabled :: bool
  dz_deleted :: "ts option"

record object_trigger =
  tg_id :: db_id
  tg_camera :: "db_id option"
  tg_labels :: "string list"
  tg_zone :: "db_id option"
  tg_min_confidence :: int
  tg_min_dwell_ms :: int
  tg_require_zone_entry :: bool
  tg_min_count :: int
  tg_cooldown_s :: int
  tg_debounce_per_track :: bool
  tg_event_subtype :: "string option"
  tg_action_hint :: "string option"
  tg_notify :: bool
  tg_enabled :: bool
  tg_deleted :: "ts option"

record counting_line =
  cl_id :: db_id
  cl_camera :: db_id
  cl_kind :: string
  cl_geometry :: pyval
  cl_class_filter :: "string list option"
  cl_loiter_threshold_s :: "int option"
  cl_occupancy_threshold :: "int option"
  cl_enabled :: bool
  cl_deleted :: "ts option"

record counting_stat =
  cs_camera :: db_id
  cs_line :: db_id
  cs_bucket :: ts
  cs_in :: int
  cs_out :: int
  cs_occupancy :: int
  cs_label :: "string option"

record det_row =
  dr_id :: db_id
  dr_camera :: db_id
  dr_ts :: ts
  dr_class_id :: pyval
  dr_label :: string
  dr_confidence :: int
  dr_track_id :: int
  dr_track_key :: string
  dr_bbox :: bbox
  dr_frame_w :: pyval
  dr_frame_h :: pyval
  dr_zone :: "db_id option"
  dr_segment :: "db_id option"
  dr_event :: "db_id option"
  dr_attrs :: pyval
  dr_node :: db_id

text \<open>\<open>dn_smoke_on\<close>: the cameras whose \<open>ai_features\<close> have smoke on; \<open>dn_min_confidence\<close>: that column of the global
  AI settings.\<close>

record 'r det_state =
  dn_ev :: "'r ev_state"
  dn_rows :: "detection_assignment list"
  dn_zones :: "detection_zone list"
  dn_triggers :: "object_trigger list"
  dn_lines :: "counting_line list"
  dn_stats :: "counting_stat list"
  dn_detections :: "det_row list"
  dn_flags :: flag_state
  dn_smoke_on :: "db_id list"
  dn_min_confidence :: "int option"

record 'r det_env =
  de_ev :: "'r ev_env"
  de_md5 :: "string \<Rightarrow> string"
  de_str :: "pyval \<Rightarrow> string"
  de_float :: "string \<Rightarrow> rat option"
  de_mclk :: int

abbreviation (input) det_redis :: "'r det_env \<Rightarrow> 'r redis" where
  "det_redis E \<equiv> ee_redis (de_ev E)"

section \<open>Labels\<close>

definition COCO_LABELS :: "(int \<times> string) list" where
  "COCO_LABELS = [(0, ''person''), (1, ''bicycle''), (2, ''car''), (3, ''motorcycle''), (4, ''airplane''), (5, ''bus''),
     (6, ''train''), (7, ''truck''), (8, ''boat''), (14, ''bird''), (15, ''cat''), (16, ''dog''), (17, ''horse''),
     (18, ''sheep''), (19, ''cow''), (20, ''elephant''), (21, ''bear''), (22, ''zebra''), (23, ''giraffe'')]"

definition CUSTOM_LABELS :: "(int \<times> string) list" where
  "CUSTOM_LABELS = [(1000, ''smoke''), (1001, ''fire'')]"

definition ALL_LABELS :: "(int \<times> string) list" where
  "ALL_LABELS = COCO_LABELS @ CUSTOM_LABELS"

definition LABEL_TO_ID :: "(string \<times> int) list" where
  "LABEL_TO_ID = map prod.swap ALL_LABELS"

text \<open>The integer a value equals as a dictionary key.\<close>

definition class_key :: "pyval \<Rightarrow> int option" where
  "class_key v = (case py_number v of None \<Rightarrow> None | Some q \<Rightarrow> if of_int \<lfloor>q\<rfloor> = q then Some \<lfloor>q\<rfloor> else None)"

definition unhashable :: "pyval \<Rightarrow> bool" where
  "unhashable v = (case v of PList _ \<Rightarrow> True | PDict _ \<Rightarrow> True | _ \<Rightarrow> False)"

definition normalize_label :: "pyval \<Rightarrow> pyval \<Rightarrow> py_error + (pyval \<times> string) option" where
  "normalize_label class_id label =
     (if unhashable class_id then Inl (TypeError ''unhashable'')
      else case Option.bind (class_key class_id) (map_of ALL_LABELS) of
        Some lab \<Rightarrow> Inr (Some (class_id, lab))
      | None \<Rightarrow>
          if \<not> py_truthy label then Inr None
          else (case label of
                  PStr l \<Rightarrow>
                    (let lab = map to_lower (py_strip l) in
                     case map_of LABEL_TO_ID lab of
                       Some i \<Rightarrow> Inr (Some (PInt i, lab))
                     | None \<Rightarrow> Inr (if class_id \<noteq> PNone then Some (class_id, lab) else None))
                | _ \<Rightarrow> Inl (AttributeError ''strip'')))"

section \<open>Small helpers\<close>

definition float_of :: "'r det_env \<Rightarrow> pyval \<Rightarrow> rat option" where
  "float_of E v = (case v of PStr s \<Rightarrow> de_float E s | _ \<Rightarrow> py_number v)"

definition clamp01 :: "'r det_env \<Rightarrow> pyval \<Rightarrow> rat" where
  "clamp01 E v = (case float_of E v of None \<Rightarrow> 0 | Some q \<Rightarrow> max 0 (min 1 q))"

text \<open>Python's \<open>round\<close>: half to even.\<close>

definition round_even :: "rat \<Rightarrow> int" where
  "round_even q =
     (let f = \<lfloor>q\<rfloor>; r = q - of_int f
      in if r < 1 / 2 then f else if r > 1 / 2 then f + 1 else if even f then f else f + 1)"

definition round5 :: "rat \<Rightarrow> rat" where
  "round5 q = of_int (round_even (q * 10 ^ 5)) / 10 ^ 5"

definition conf_int :: "'r det_env \<Rightarrow> pyval \<Rightarrow> int" where
  "conf_int E v =
     (case float_of E v of None \<Rightarrow> 0 | Some c \<Rightarrow> max 0 (min 100 (round_even (if c \<le> 1 then c * 100 else c))))"

definition CLAMP_SECONDS :: int where "CLAMP_SECONDS = 60"
definition MAX_BATCH :: nat where "MAX_BATCH = 2000"

text \<open>\<open>_report_ts\<close>: a value that \<open>int()\<close> cannot convert for its type raises; a time out of range is more than a
  minute away from now.\<close>

definition report_ts :: "ts \<Rightarrow> pyval \<Rightarrow> py_error + ts" where
  "report_ts now v =
     (if \<not> py_truthy v then Inr now
      else case py_int v of
             Inl (ValueError _) \<Rightarrow> Inr now
           | Inl e \<Rightarrow> Inl e
           | Inr t \<Rightarrow> Inr (if \<bar>t - now\<bar> > CLAMP_SECONDS * 1000 then now else t))"

text \<open>\<open>int(s, 16)\<close>.\<close>

definition hex_digit :: "char \<Rightarrow> int option" where
  "hex_digit c =
     (let n = (of_char c :: int) in
      if 48 \<le> n \<and> n \<le> 57 then Some (n - 48)
      else if 97 \<le> n \<and> n \<le> 102 then Some (n - 87)
      else if 65 \<le> n \<and> n \<le> 70 then Some (n - 55) else None)"

fun hex_value :: "string \<Rightarrow> bool \<Rightarrow> int \<Rightarrow> int option" where
  "hex_value [] prev acc = (if prev then Some acc else None)"
| "hex_value (c # cs) prev acc =
     (case hex_digit c of
        Some d \<Rightarrow> hex_value cs True (16 * acc + d)
      | None \<Rightarrow> if c = CHR ''_'' \<and> prev then hex_value cs False acc else None)"

definition hex_body :: "string \<Rightarrow> int option" where
  "hex_body s =
     (if take 2 s = ''0x'' \<or> take 2 s = ''0X''
      then (let r = drop 2 s in hex_value (if take 1 r = ''_'' then drop 1 r else r) False 0)
      else hex_value s False 0)"

definition int16 :: "string \<Rightarrow> int option" where
  "int16 s = (case py_strip s of
       CHR ''-'' # ds \<Rightarrow> map_option uminus (hex_body ds)
     | CHR ''+'' # ds \<Rightarrow> hex_body ds
     | ds \<Rightarrow> hex_body ds)"

definition track_ids :: "'r det_env \<Rightarrow> pydict \<Rightarrow> db_id \<Rightarrow> db_id \<Rightarrow> py_error + string \<times> int" where
  "track_ids E rep node cam =
     (let tk = (if py_truthy (dget rep ''track_key'') then de_str E (dget rep ''track_key'')
                else de_md5 E (str_of_int node @ '':'' @ str_of_int cam @ '':'' @ de_str E (dget rep ''bytetrack_id'')));
          key = take 32 tk
      in case int16 (take 15 key) of
           Some i \<Rightarrow> Inr (key, i)
         | None \<Rightarrow> (case int16 (take 15 (de_md5 E key)) of None \<Rightarrow> Inl (ValueError key) | Some i \<Rightarrow> Inr (key, i)))"

section \<open>Validation\<close>

definition validate_report ::
  "detection_assignment list \<Rightarrow> db_id \<Rightarrow> pydict \<Rightarrow> pydict \<Rightarrow> py_error + string option" where
  "validate_report rows node epoch_map rep =
     (if \<not> py_truthy (dget rep ''camera_id'') then Inr (Some ''missing_camera'')
      else case py_int (dget rep ''camera_id'') of
        Inl _ \<Rightarrow> Inr (Some ''bad_camera_id'')
      | Inr cam \<Rightarrow>
          (case get_for_camera rows cam of
             None \<Rightarrow> Inr (Some ''not_assigned'')
           | Some a \<Rightarrow>
               if da_node a \<noteq> node then Inr (Some ''not_assigned'')
               else
                 let ep = (if dget rep ''epoch'' = PNone then dget epoch_map (str_of_int cam) else dget rep ''epoch'')
                 in case (if ep = PNone then Inr (da_epoch a) else py_int ep) of
                      Inl e \<Rightarrow> Inl e
                    | Inr n \<Rightarrow>
                        if n \<noteq> da_epoch a then Inr (Some ''stale_epoch'')
                        else (case dget rep ''bbox'' of
                                PList [_, _, _, _] \<Rightarrow> Inr None
                              | _ \<Rightarrow> Inr (Some ''bad_bbox''))))"

section \<open>Zones\<close>

definition zones_for_camera :: "detection_zone list \<Rightarrow> db_id \<Rightarrow> detection_zone list" where
  "zones_for_camera zs cam =
     sort_key (\<lambda>z. - dz_priority z) (sort_key dz_id (filter (\<lambda>z. dz_camera z = cam \<and> dz_deleted z = None \<and> dz_enabled z) zs))"

text \<open>A point that unpacks into exactly two numbers.\<close>

definition pair_of :: "pyval \<Rightarrow> py_error + point" where
  "pair_of v =
     (case v of
        PList [a, b] \<Rightarrow>
          (case (py_number a, py_number b) of (Some x, Some y) \<Rightarrow> Inr (x, y) | _ \<Rightarrow> Inl (TypeError ''coordinate''))
      | _ \<Rightarrow> Inl (ValueError ''unpack''))"

definition poly_area :: "pyval \<Rightarrow> py_error + rat" where
  "poly_area v =
     (case v of
        PList ps \<Rightarrow> if length ps < 3 then Inr 0 else map_sum id polygon_area (mapE pair_of ps)
      | _ \<Rightarrow> if py_truthy v then Inl (TypeError ''polygon'') else Inr 0)"

text \<open>\<open>sort(key=(-priority, area))\<close> and the first.\<close>

definition zone_hits :: "rat \<Rightarrow> rat \<Rightarrow> detection_zone list \<Rightarrow> py_error + detection_zone list" where
  "zone_hits x y zs = map_sum id (\<lambda>bs. map fst (filter snd (zip zs bs))) (mapE (\<lambda>z. in_polygon x y (dz_polygon z)) zs)"

definition best_zone :: "detection_zone list \<Rightarrow> py_error + db_id option" where
  "best_zone hits =
     map_sum id (\<lambda>areas. map_option (dz_id \<circ> fst) (first_row (sort_key (\<lambda>(z, a). (- dz_priority z, a)) (zip hits areas))))
       (mapE (\<lambda>z. poly_area (dz_polygon z)) hits)"

definition attribute_zone :: "detection_zone list \<Rightarrow> db_id \<Rightarrow> bbox \<Rightarrow> py_error + db_id option" where
  "attribute_zone zs cam b =
     (case bottom_center b of (bx, by') \<Rightarrow>
      case zone_hits bx by' (filter (\<lambda>z. dz_kind z = ''include'') (zones_for_camera zs cam)) of
        Inl e \<Rightarrow> Inl e
      | Inr hits \<Rightarrow> best_zone hits)"

section \<open>Rows\<close>

definition bbox_of :: "'r det_env \<Rightarrow> pyval \<Rightarrow> bbox" where
  "bbox_of E v =
     (case v of
        PList [a, b, c, d] \<Rightarrow> (round5 (clamp01 E a), round5 (clamp01 E b), round5 (clamp01 E c), round5 (clamp01 E d))
      | _ \<Rightarrow> (0, 0, 0, 0))"

text \<open>\<open>_build_row\<close>, without the row's identifier, which \<open>bulk_create\<close> sets.\<close>

definition build_row :: "'r det_env \<Rightarrow> ts \<Rightarrow> 'r det_state \<Rightarrow> db_id \<Rightarrow> pydict \<Rightarrow> py_error + det_row option" where
  "build_row E now s node rep =
     (case normalize_label (dget rep ''class_id'') (dget rep ''label'') of
        Inl e \<Rightarrow> Inl e
      | Inr None \<Rightarrow> Inr None
      | Inr (Some (cid, lab)) \<Rightarrow>
          (case py_int (dget rep ''camera_id'') of
             Inl e \<Rightarrow> Inl e
           | Inr cam \<Rightarrow>
               let b = bbox_of E (dget rep ''bbox'') in
               case report_ts now (dget rep ''ts'') of
                 Inl e \<Rightarrow> Inl e
               | Inr t \<Rightarrow>
                   (case track_ids E rep node cam of
                      Inl e \<Rightarrow> Inl e
                    | Inr (key, tid) \<Rightarrow>
                        (case attribute_zone (dn_zones s) cam b of
                           Inl e \<Rightarrow> Inl e
                         | Inr z \<Rightarrow>
                             Inr (Some \<lparr>dr_id = 0, dr_camera = cam, dr_ts = t, dr_class_id = cid, dr_label = lab,
                               dr_confidence = conf_int E (dget_or rep ''confidence'' (PInt 0)), dr_track_id = tid,
                               dr_track_key = key, dr_bbox = b, dr_frame_w = dget rep ''frame_w'', dr_frame_h = dget rep ''frame_h'',
                               dr_zone = z, dr_segment = map_option seg_id (Segment_get_at (dn_ev s) cam t), dr_event = None,
                               dr_attrs = dget rep ''attrs'', dr_node = node\<rparr>)))))"

text \<open>The loop over the batch: rejected indices with their reasons, accepted rows.\<close>

fun ingest_loop :: "'r det_env \<Rightarrow> ts \<Rightarrow> 'r det_state \<Rightarrow> db_id \<Rightarrow> pydict \<Rightarrow> nat \<Rightarrow> pydict list
    \<Rightarrow> py_error + (nat \<times> string) list \<times> det_row list" where
  "ingest_loop E now s node em i [] = Inr ([], [])"
| "ingest_loop E now s node em i (rep # reps) =
     (case validate_report (dn_rows s) node em rep of
        Inl e \<Rightarrow> Inl e
      | Inr (Some reason) \<Rightarrow> map_sum id (\<lambda>(rj, acc). ((i, reason) # rj, acc)) (ingest_loop E now s node em (i + 1) reps)
      | Inr None \<Rightarrow>
          (case build_row E now s node rep of
             Inl e \<Rightarrow> Inl e
           | Inr None \<Rightarrow> map_sum id (\<lambda>(rj, acc). ((i, ''unknown_label'') # rj, acc)) (ingest_loop E now s node em (i + 1) reps)
           | Inr (Some row) \<Rightarrow> map_sum id (\<lambda>(rj, acc). (rj, row # acc)) (ingest_loop E now s node em (i + 1) reps)))"

end
