(* ===== verification/DetectionRules.thy ===== *)
theory DetectionRules
  imports Detections
begin

text \<open>
  What the server does with the accepted rows of a detection batch: the object triggers
  (\<open>object_trigger_engine.py\<close>), counting lines and regions (\<open>counting.py\<close>, \<open>model/counting.py\<close>), the smoke alert
  (\<open>smoke_alert.py\<close>) and \<open>detection_ingest.ingest_batch\<close>, which runs them in this order. The clock is read once per
  batch; the process runs in UTC. Rows of a query without an order come in the order of the table.
\<close>

section \<open>Shared\<close>

text \<open>\<open>event_pipeline.ingest_object\<close> on the part of the state it works on.\<close>

definition raise_object :: "'r det_env \<Rightarrow> ts \<Rightarrow> db_id \<Rightarrow> normalized \<Rightarrow> string \<Rightarrow> pyval \<Rightarrow> ('r det_state, db_id option) act" where
  "raise_object E now cam n source raw s =
     (case ingest_object (de_ev E) now cam n source raw (dn_ev s) of (r, ev) \<Rightarrow> (r, s\<lparr>dn_ev := ev\<rparr>))"

definition on_redis :: "('r \<Rightarrow> 'r) \<Rightarrow> 'r det_state \<Rightarrow> 'r det_state" where
  "on_redis f s = s\<lparr>dn_ev := (dn_ev s)\<lparr>es_redis := f (es_redis (dn_ev s))\<rparr>\<rparr>"

abbreviation (input) dn_redis :: "'r det_state \<Rightarrow> 'r" where
  "dn_redis s \<equiv> es_redis (dn_ev s)"

definition pulse :: "string \<Rightarrow> string option \<Rightarrow> int \<Rightarrow> pyval \<Rightarrow> string option \<Rightarrow> normalized" where
  "pulse typ subtype score region extra =
     \<lparr>ne_type = typ, ne_state = ''pulse'', ne_subtype = subtype, ne_score = Some score, ne_channel = None, ne_region = region,
      ne_vendor_event_id = None, ne_dedup_extra = extra\<rparr>"

definition bbox_val :: "bbox \<Rightarrow> pyval" where
  "bbox_val b = (case b of (x1, y1, x2, y2) \<Rightarrow> PList [PFloat x1, PFloat y1, PFloat x2, PFloat y2])"

section \<open>Object triggers\<close>

definition trig_candidates :: "object_trigger list \<Rightarrow> db_id \<Rightarrow> object_trigger list" where
  "trig_candidates ts cam =
     (let c = filter (\<lambda>t. tg_deleted t = None \<and> tg_enabled t \<and> (tg_camera t = Some cam \<or> tg_camera t = None)) ts
      in filter (\<lambda>t. tg_camera t \<noteq> None) c @ filter (\<lambda>t. tg_camera t = None) c)"

definition cd_key :: "'r det_env \<Rightarrow> db_id \<Rightarrow> db_id \<Rightarrow> string" where
  "cd_key E trigger cam = ee_prefix (de_ev E) @ '':trig:'' @ str_of_int trigger @ '':'' @ str_of_int cam @ '':last''"

definition trig_track_key :: "'r det_env \<Rightarrow> string \<Rightarrow> db_id \<Rightarrow> string" where
  "trig_track_key E key trigger = ee_prefix (de_ev E) @ '':trig:track:'' @ key @ '':'' @ str_of_int trigger"

text \<open>A Redis failure counts as no key, and a failed write as written.\<close>

definition key_there :: "'r det_env \<Rightarrow> string \<Rightarrow> 'r \<Rightarrow> bool" where
  "key_there E k r = (case rd_exists (det_redis E) k r of None \<Rightarrow> False | Some n \<Rightarrow> n = 1)"

definition put_key :: "'r det_env \<Rightarrow> string \<Rightarrow> int \<Rightarrow> 'r \<Rightarrow> 'r" where
  "put_key E k ttl r = (case rd_setex (det_redis E) k ttl ''1'' r of None \<Rightarrow> r | Some r' \<Rightarrow> r')"

definition trig_within_cooldown :: "'r det_env \<Rightarrow> db_id \<Rightarrow> db_id \<Rightarrow> 'r \<Rightarrow> bool" where
  "trig_within_cooldown E trigger cam = key_there E (cd_key E trigger cam)"

definition seen_track :: "'r det_env \<Rightarrow> string \<Rightarrow> db_id \<Rightarrow> 'r \<Rightarrow> bool" where
  "seen_track E key trigger = key_there E (trig_track_key E key trigger)"

definition mark_cooldown :: "'r det_env \<Rightarrow> db_id \<Rightarrow> db_id \<Rightarrow> int \<Rightarrow> 'r \<Rightarrow> 'r" where
  "mark_cooldown E trigger cam cooldown_s = put_key E (cd_key E trigger cam) (max 1 cooldown_s)"

definition mark_track :: "'r det_env \<Rightarrow> string \<Rightarrow> db_id \<Rightarrow> int \<Rightarrow> 'r \<Rightarrow> 'r" where
  "mark_track E key trigger cooldown_s = put_key E (trig_track_key E key trigger) (max 60 (cooldown_s * 4))"

text \<open>The tracks of the label seen by the camera since two seconds before the row.\<close>

definition concurrent_count :: "det_row list \<Rightarrow> db_id \<Rightarrow> string \<Rightarrow> ts \<Rightarrow> int" where
  "concurrent_count rows cam label anchor =
     int (length (remdups (map dr_track_id
       (filter (\<lambda>d. dr_camera d = cam \<and> dr_label d = label \<and> dr_ts d \<ge> anchor - 2000) rows))))"

definition attr_get :: "det_row \<Rightarrow> string \<Rightarrow> pyval \<Rightarrow> py_error + pyval" where
  "attr_get row k v0 = (case py_or (dr_attrs row) (PDict []) of PDict d \<Rightarrow> Inr (dget_or d k v0) | _ \<Rightarrow> Inl (AttributeError ''get''))"

text \<open>\<open>t.require_zone_entry and not attrs.get('zone_entry')\<close> and \<open>t.min_dwell_ms and int(attrs.get('dwell_ms', 0)) < t.min_dwell_ms\<close>.\<close>

definition no_entry :: "det_row \<Rightarrow> object_trigger \<Rightarrow> py_error + bool" where
  "no_entry row t = (if tg_require_zone_entry t then map_sum id (\<lambda>v. \<not> py_truthy v) (attr_get row ''zone_entry'' PNone) else Inr False)"

definition short_dwell :: "det_row \<Rightarrow> object_trigger \<Rightarrow> py_error + bool" where
  "short_dwell row t =
     (if tg_min_dwell_ms t = 0 then Inr False
      else case attr_get row ''dwell_ms'' (PInt 0) of
             Inl e \<Rightarrow> Inl e
           | Inr v \<Rightarrow> map_sum id (\<lambda>d. d < tg_min_dwell_ms t) (py_int v))"

definition row_matches :: "det_row \<Rightarrow> object_trigger \<Rightarrow> bool" where
  "row_matches row t \<longleftrightarrow>
     dr_label row \<in> set (tg_labels t) \<and> tg_min_confidence t \<le> dr_confidence row \<and> (tg_zone t = None \<or> dr_zone row = tg_zone t)"

definition held_back :: "'r det_env \<Rightarrow> 'r det_state \<Rightarrow> det_row \<Rightarrow> object_trigger \<Rightarrow> bool" where
  "held_back E s row t \<longleftrightarrow>
     tg_min_count t > 1 \<and> concurrent_count (dn_detections s) (dr_camera row) (dr_label row) (dr_ts row) < tg_min_count t
   \<or> tg_debounce_per_track t \<and> dr_track_key row \<noteq> [] \<and> seen_track E (dr_track_key row) (tg_id t) (dn_redis s)
   \<or> trig_within_cooldown E (tg_id t) (dr_camera row) (dn_redis s)"

definition trigger_matches :: "'r det_env \<Rightarrow> 'r det_state \<Rightarrow> det_row \<Rightarrow> object_trigger \<Rightarrow> py_error + bool" where
  "trigger_matches E s row t =
     (if \<not> row_matches row t then Inr False
      else case no_entry row t of
        Inl e \<Rightarrow> Inl e
      | Inr True \<Rightarrow> Inr False
      | Inr False \<Rightarrow>
          (case short_dwell row t of
             Inl e \<Rightarrow> Inl e
           | Inr True \<Rightarrow> Inr False
           | Inr False \<Rightarrow> Inr (\<not> held_back E s row t)))"

definition opt_str :: "string option \<Rightarrow> pyval" where
  "opt_str v = (case v of None \<Rightarrow> PNone | Some t \<Rightarrow> PStr t)"

definition id_str :: "db_id \<Rightarrow> pyval" where
  "id_str i = (if i \<noteq> 0 then PStr (str_of_int i) else PNone)"

definition trigger_event :: "object_trigger \<Rightarrow> det_row \<Rightarrow> normalized" where
  "trigger_event t row =
     pulse ''object'' (if given (tg_event_subtype t) then tg_event_subtype t else Some (dr_label row)) (dr_confidence row)
       (PDict [(''w'', PInt 1), (''h'', PInt 1),
               (''shapes'', PList [PDict [(''kind'', PStr ''box''), (''bbox'', bbox_val (dr_bbox row))]])]) None"

definition trigger_raw :: "object_trigger \<Rightarrow> det_row \<Rightarrow> db_id \<Rightarrow> pyval" where
  "trigger_raw t row det =
     PDict [(''trigger_id'', PStr (str_of_int (tg_id t))), (''track_key'', PStr (dr_track_key row)), (''label'', PStr (dr_label row)),
            (''node_id'', id_str (dr_node row)), (''detection_id'', id_str det), (''notify'', PBool (tg_notify t)),
            (''action_hint'', opt_str (tg_action_hint t))]"

definition promote :: "'r det_env \<Rightarrow> ts \<Rightarrow> object_trigger \<Rightarrow> det_row \<Rightarrow> db_id \<Rightarrow> ('r det_state, db_id option) act" where
  "promote E now t row det = raise_object E now (dr_camera row) (trigger_event t row) ''server'' (trigger_raw t row det)"

definition mark_fired :: "'r det_env \<Rightarrow> object_trigger \<Rightarrow> det_row \<Rightarrow> 'r \<Rightarrow> 'r" where
  "mark_fired E t row r =
     (let r1 = mark_cooldown E (tg_id t) (dr_camera row) (tg_cooldown_s t) r
      in if tg_debounce_per_track t \<and> dr_track_key row \<noteq> [] then mark_track E (dr_track_key row) (tg_id t) (tg_cooldown_s t) r1 else r1)"

fun evaluate_loop :: "'r det_env \<Rightarrow> ts \<Rightarrow> det_row \<Rightarrow> db_id \<Rightarrow> object_trigger list \<Rightarrow> ('r det_state, db_id option) act" where
  "evaluate_loop E now row det [] s = (Inr None, s)"
| "evaluate_loop E now row det (t # ts) s =
     (case trigger_matches E s row t of
        Inl e \<Rightarrow> (Inl e, s)
      | Inr False \<Rightarrow> evaluate_loop E now row det ts s
      | Inr True \<Rightarrow>
          (case promote E now t row det s of
             (Inr (Some ev), s1) \<Rightarrow> (Inr (Some ev), on_redis (mark_fired E t row) s1)
           | (r, s1) \<Rightarrow> (r, s1)))"

definition evaluate :: "'r det_env \<Rightarrow> ts \<Rightarrow> det_row \<Rightarrow> db_id \<Rightarrow> ('r det_state, db_id option) act" where
  "evaluate E now row det s = evaluate_loop E now row det (trig_candidates (dn_triggers s) (dr_camera row)) s"

definition link_event :: "db_id list \<Rightarrow> db_id \<Rightarrow> 'r det_state \<Rightarrow> 'r det_state" where
  "link_event ids ev s =
     s\<lparr>dn_detections := map (\<lambda>d. if dr_id d \<in> set ids then d\<lparr>dr_event := Some ev\<rparr> else d) (dn_detections s)\<rparr>"

text \<open>\<open>_run_triggers\<close>: an exception is logged; everything written before it was committed.\<close>

fun run_triggers :: "'r det_env \<Rightarrow> ts \<Rightarrow> det_row list \<Rightarrow> 'r det_state \<Rightarrow> 'r det_state" where
  "run_triggers E now [] s = s"
| "run_triggers E now (row # rows) s =
     run_triggers E now rows
       (case evaluate E now row (dr_id row) s of
          (Inr (Some ev), s1) \<Rightarrow> link_event [dr_id row] ev s1
        | (_, s1) \<Rightarrow> s1)"

text \<open>\<open>ObjectTriggerController.test\<close>: the trigger a row would match, without the conditions on time and attributes.\<close>

definition preview_camera :: "'r det_state \<Rightarrow> pydict \<Rightarrow> py_error + db_id option" where
  "preview_camera s data =
     (case (if py_truthy (dget data ''camera_uuid'')
            then (case dget data ''camera_uuid'' of PStr u \<Rightarrow> map_sum id (Some \<circ> cam_id) (Camera_get_by_uuid (dn_ev s) u) | _ \<Rightarrow> Inl RowNotFoundException)
            else Inr None) of
        Inl e \<Rightarrow> Inl e
      | Inr c \<Rightarrow>
          if c \<noteq> None \<and> c \<noteq> Some 0 then Inr c
          else if py_truthy (dget data ''camera_id'') then map_sum id Some (py_int (dget data ''camera_id''))
          else Inr None)"

definition preview_confidence :: "pydict \<Rightarrow> py_error + int" where
  "preview_confidence data =
     map_sum id (\<lambda>c. case dget data ''confidence'' of PFloat _ \<Rightarrow> if c \<le> 1 then c * 100 else c | _ \<Rightarrow> c)
       (py_int (py_or (dget data ''confidence'') (PInt 0)))"

definition preview_zone :: "pydict \<Rightarrow> py_error + db_id option" where
  "preview_zone data = (if py_truthy (dget data ''zone_id'') then map_sum id Some (py_int (dget data ''zone_id'')) else Inr None)"

definition trigger_test :: "'r det_state \<Rightarrow> pydict \<Rightarrow> py_error + object_trigger option" where
  "trigger_test s data =
     (case preview_camera s data of
        Inl e \<Rightarrow> Inl e
      | Inr None \<Rightarrow> Inl (InvalidParameterException ''camera required'')
      | Inr (Some cam) \<Rightarrow>
          (case preview_confidence data of
             Inl e \<Rightarrow> Inl e
           | Inr conf \<Rightarrow>
               map_sum id (\<lambda>zone.
                 find (\<lambda>t. (case dget data ''label'' of PStr l \<Rightarrow> l \<in> set (tg_labels t) | _ \<Rightarrow> False) \<and> tg_min_confidence t \<le> conf
                           \<and> (tg_zone t = None \<or> zone = tg_zone t)) (trig_candidates (dn_triggers s) cam))
               (preview_zone data)))"

section \<open>Counting\<close>

definition KIND_LINE :: string where "KIND_LINE = ''line''"
definition KIND_REGION :: string where "KIND_REGION = ''region''"
definition COUNT_TTL :: int where "COUNT_TTL = 120"

definition bucket :: "ts \<Rightarrow> ts" where
  "bucket t = t div 60000 * 60000"

definition is_stat :: "db_id \<Rightarrow> db_id \<Rightarrow> ts \<Rightarrow> string option \<Rightarrow> counting_stat \<Rightarrow> bool" where
  "is_stat cam line b label c \<longleftrightarrow> cs_camera c = cam \<and> cs_line c = line \<and> cs_bucket c = b \<and> cs_label c = label"

definition add_stat :: "int \<Rightarrow> int \<Rightarrow> int option \<Rightarrow> counting_stat \<Rightarrow> counting_stat" where
  "add_stat din dout occ c =
     c\<lparr>cs_in := cs_in c + din, cs_out := cs_out c + dout,
       cs_occupancy := (case occ of None \<Rightarrow> cs_occupancy c | Some n \<Rightarrow> max (cs_occupancy c) n)\<rparr>"

text \<open>\<open>CountingStat.record\<close>: the first row of the bucket is updated, or a row is added.\<close>

fun record_stat :: "db_id \<Rightarrow> db_id \<Rightarrow> ts \<Rightarrow> string option \<Rightarrow> (counting_stat \<Rightarrow> counting_stat) \<Rightarrow> counting_stat list \<Rightarrow> counting_stat list" where
  "record_stat cam line b label f [] =
     [f \<lparr>cs_camera = cam, cs_line = line, cs_bucket = b, cs_in = 0, cs_out = 0, cs_occupancy = 0, cs_label = label\<rparr>]"
| "record_stat cam line b label f (c # cs) =
     (if is_stat cam line b label c then f c # cs else c # record_stat cam line b label f cs)"

definition CountingStat_record ::
  "db_id \<Rightarrow> db_id \<Rightarrow> ts \<Rightarrow> int \<Rightarrow> int \<Rightarrow> int option \<Rightarrow> string option \<Rightarrow> 'r det_state \<Rightarrow> 'r det_state" where
  "CountingStat_record cam line t din dout occ label s =
     s\<lparr>dn_stats := record_stat cam line (bucket t) label (add_stat din dout occ) (dn_stats s)\<rparr>"

definition lines_for_camera :: "counting_line list \<Rightarrow> db_id \<Rightarrow> counting_line list" where
  "lines_for_camera ls cam = sort_key cl_id (filter (\<lambda>l. cl_camera l = cam \<and> cl_deleted l = None \<and> cl_enabled l) ls)"

definition count_key :: "'r det_env \<Rightarrow> string \<Rightarrow> db_id \<Rightarrow> int \<Rightarrow> string" where
  "count_key E what line track = ee_prefix (de_ev E) @ '':count:'' @ what @ '':'' @ str_of_int line @ '':'' @ str_of_int track"

definition side_key :: "'r det_env \<Rightarrow> db_id \<Rightarrow> int \<Rightarrow> string" where
  "side_key E = count_key E ''side''"

definition enter_key :: "'r det_env \<Rightarrow> db_id \<Rightarrow> int \<Rightarrow> string" where
  "enter_key E = count_key E ''enter''"

definition loiter_key :: "'r det_env \<Rightarrow> db_id \<Rightarrow> int \<Rightarrow> string" where
  "loiter_key E = count_key E ''loiter''"

definition line_side :: "rat \<Rightarrow> rat \<Rightarrow> pyval \<Rightarrow> py_error + int" where
  "line_side px py' line =
     (case line of
        PList (a # b # _) \<Rightarrow>
          (case (pair_of a, pair_of b) of
             (Inr (x1, y1), Inr (x2, y2)) \<Rightarrow>
               Inr (if (x2 - x1) * (py' - y1) - (y2 - y1) * (px - x1) \<ge> 0 then 1 else - 1)
           | (Inl e, _) \<Rightarrow> Inl e
           | (_, Inl e) \<Rightarrow> Inl e)
      | _ \<Rightarrow> Inl (TypeError ''line''))"

text \<open>Commands that are not guarded raise.\<close>

definition get_key :: "'r det_env \<Rightarrow> string \<Rightarrow> ('r det_state, string option) act" where
  "get_key E k s = (case rd_get (det_redis E) k (dn_redis s) of None \<Rightarrow> (Inl RedisError, s) | Some v \<Rightarrow> (Inr v, s))"

definition exists_key :: "'r det_env \<Rightarrow> string \<Rightarrow> ('r det_state, bool) act" where
  "exists_key E k s = (case rd_exists (det_redis E) k (dn_redis s) of None \<Rightarrow> (Inl RedisError, s) | Some n \<Rightarrow> (Inr (n \<noteq> 0), s))"

definition set_key :: "'r det_env \<Rightarrow> string \<Rightarrow> string \<Rightarrow> ('r det_state, unit) act" where
  "set_key E k v s =
     (case rd_setex (det_redis E) k COUNT_TTL v (dn_redis s) of None \<Rightarrow> (Inl RedisError, s) | Some r \<Rightarrow> (Inr (), on_redis (\<lambda>_. r) s))"

definition del_key :: "'r det_env \<Rightarrow> string \<Rightarrow> ('r det_state, unit) act" where
  "del_key E k s = (case rd_delete (det_redis E) k (dn_redis s) of None \<Rightarrow> (Inl RedisError, s) | Some r \<Rightarrow> (Inr (), on_redis (\<lambda>_. r) s))"

definition crossed :: "counting_line \<Rightarrow> det_row \<Rightarrow> int \<Rightarrow> string option \<Rightarrow> ('r det_state, unit) act" where
  "crossed line row side prev s =
     (case prev of
        None \<Rightarrow> (Inr (), s)
      | Some v \<Rightarrow>
          (case int_of_string v of
             None \<Rightarrow> (Inl (ValueError v), s)
           | Some p \<Rightarrow>
               (Inr (),
                if p = side then s
                else if side > 0 then CountingStat_record (dr_camera row) (cl_id line) (dr_ts row) 1 0 None (Some (dr_label row)) s
                else CountingStat_record (dr_camera row) (cl_id line) (dr_ts row) 0 1 None (Some (dr_label row)) s)))"

definition cross :: "'r det_env \<Rightarrow> counting_line \<Rightarrow> det_row \<Rightarrow> ('r det_state, unit) act" where
  "cross E line row =
     (case bottom_center (dr_bbox row) of (bx, by') \<Rightarrow>
      case line_side bx by' (cl_geometry line) of
        Inl e \<Rightarrow> raiseE e
      | Inr side \<Rightarrow>
          (let key = side_key E (cl_id line) (dr_track_id row)
           in bindE (get_key E key) (\<lambda>prev. bindE (set_key E key (str_of_int side)) (\<lambda>_. crossed line row side prev))))"

text \<open>\<open>_emit\<close>: an exception is logged.\<close>

definition count_emit ::
  "'r det_env \<Rightarrow> ts \<Rightarrow> db_id \<Rightarrow> string \<Rightarrow> int \<Rightarrow> string option \<Rightarrow> counting_line \<Rightarrow> string \<Rightarrow> 'r det_state \<Rightarrow> 'r det_state" where
  "count_emit E now cam typ value label line extra s =
     snd (raise_object E now cam (pulse typ label (min 100 value) (PDict [(''polygon'', cl_geometry line)]) (Some extra)) ''server'' (PDict []) s)"

definition dwell :: "'r det_env \<Rightarrow> ts \<Rightarrow> counting_line \<Rightarrow> det_row \<Rightarrow> ('r det_state, unit) act" where
  "dwell E now line row =
     (case cl_loiter_threshold_s line of
        None \<Rightarrow> returnE ()
      | Some threshold \<Rightarrow>
          if threshold = 0 then returnE ()
          else
            let ekey = enter_key E (cl_id line) (dr_track_id row); lkey = loiter_key E (cl_id line) (dr_track_id row)
            in bindE (get_key E ekey) (\<lambda>enter.
                 case enter of
                   None \<Rightarrow> set_key E ekey (str_of_int (dr_ts row))
                 | Some v \<Rightarrow>
                     (case int_of_string v of
                        None \<Rightarrow> raiseE (ValueError v)
                      | Some t0 \<Rightarrow>
                          let d = (of_int (dr_ts row - t0) :: rat) / 1000
                          in if d < of_int threshold then returnE ()
                             else bindE (exists_key E lkey) (\<lambda>seen.
                                    if seen then returnE ()
                                    else bindE (set_key E lkey ''1'') (\<lambda>_ s.
                                           (Inr (), count_emit E now (dr_camera row) ''loitering'' (trunc_rat d) (Some (dr_label row)) line
                                              (str_of_int (cl_id line) @ '':'' @ str_of_int (dr_track_id row)) s))))))"

text \<open>The loop over the rows of \<open>_process_line\<close>; the set of the tracks inside a region is threaded through.\<close>

definition wants :: "counting_line \<Rightarrow> det_row \<Rightarrow> bool" where
  "wants line row = (case cl_class_filter line of None \<Rightarrow> True | Some ls \<Rightarrow> ls = [] \<or> dr_label row \<in> set ls)"

definition count_row :: "'r det_env \<Rightarrow> ts \<Rightarrow> bool \<Rightarrow> bool \<Rightarrow> counting_line \<Rightarrow> det_row \<Rightarrow> int list \<Rightarrow> ('r det_state, int list) act" where
  "count_row E now counting_on loiter_on line row members =
     (if \<not> wants line row then returnE members
      else if cl_kind line = KIND_LINE then
        (if counting_on then bindE (cross E line row) (\<lambda>_. returnE members) else returnE members)
      else case bottom_center (dr_bbox row) of (bx, by') \<Rightarrow>
        (case in_polygon bx by' (cl_geometry line) of
           Inl e \<Rightarrow> raiseE e
         | Inr True \<Rightarrow>
             (let m = List.insert (dr_track_id row) members
              in if loiter_on then bindE (dwell E now line row) (\<lambda>_. returnE m) else returnE m)
         | Inr False \<Rightarrow>
             bindE (del_key E (enter_key E (cl_id line) (dr_track_id row))) (\<lambda>_.
             bindE (del_key E (loiter_key E (cl_id line) (dr_track_id row))) (\<lambda>_. returnE members))))"

fun count_rows :: "'r det_env \<Rightarrow> ts \<Rightarrow> bool \<Rightarrow> bool \<Rightarrow> counting_line \<Rightarrow> det_row list \<Rightarrow> int list \<Rightarrow> ('r det_state, int list) act" where
  "count_rows E now con lon line [] members s = (Inr members, s)"
| "count_rows E now con lon line (row # rows) members s =
     (case count_row E now con lon line row members s of
        (Inl e, s1) \<Rightarrow> (Inl e, s1)
      | (Inr m, s1) \<Rightarrow> count_rows E now con lon line rows m s1)"

definition region_done :: "'r det_env \<Rightarrow> ts \<Rightarrow> db_id \<Rightarrow> bool \<Rightarrow> counting_line \<Rightarrow> ts \<Rightarrow> int list \<Rightarrow> 'r det_state \<Rightarrow> 'r det_state" where
  "region_done E now cam counting_on line bucket_ts members s =
     (let occ = int (length members);
          s1 = (if counting_on then CountingStat_record cam (cl_id line) bucket_ts 0 0 (Some occ) None s else s)
      in case cl_occupancy_threshold line of
           Some n \<Rightarrow> if n \<noteq> 0 \<and> occ > n then count_emit E now cam ''occupancy'' occ None line (str_of_int (cl_id line)) s1 else s1
         | None \<Rightarrow> s1)"

definition process_line :: "'r det_env \<Rightarrow> ts \<Rightarrow> db_id \<Rightarrow> bool \<Rightarrow> bool \<Rightarrow> counting_line \<Rightarrow> det_row list \<Rightarrow> ('r det_state, unit) act" where
  "process_line E now cam counting_on loiter_on line rows s =
     (case count_rows E now counting_on loiter_on line rows [] s of
        (Inl e, s1) \<Rightarrow> (Inl e, s1)
      | (Inr members, s1) \<Rightarrow>
          (case rows of
             row # _ \<Rightarrow>
               (Inr (), if cl_kind line = KIND_REGION \<and> members \<noteq> []
                        then region_done E now cam counting_on line (dr_ts row) members s1 else s1)
           | [] \<Rightarrow> (Inr (), s1)))"

definition flag_on :: "'r det_env \<Rightarrow> string \<Rightarrow> 'r det_state \<Rightarrow> bool \<times> 'r det_state" where
  "flag_on E key s = (case is_enabled (de_mclk E) key False (dn_flags s) of (b, f) \<Rightarrow> (b, s\<lparr>dn_flags := f\<rparr>))"

definition counting_batch :: "'r det_env \<Rightarrow> ts \<Rightarrow> db_id \<Rightarrow> det_row list \<Rightarrow> 'r det_state \<Rightarrow> 'r det_state" where
  "counting_batch E now cam rows s =
     (case flag_on E ''object_counting'' s of (counting_on, s1) \<Rightarrow>
      case flag_on E ''loitering'' s1 of (loiter_on, s2) \<Rightarrow>
        if \<not> (counting_on \<or> loiter_on) then s2
        else fold (\<lambda>line st. snd (process_line E now cam counting_on loiter_on line rows st)) (lines_for_camera (dn_lines s2) cam) s2)"

section \<open>Smoke\<close>

definition DEFAULT_THRESHOLD :: int where "DEFAULT_THRESHOLD = 50"
definition COOLDOWN_SECONDS :: int where "COOLDOWN_SECONDS = 30"

definition smoke_threshold :: "'r det_state \<Rightarrow> int" where
  "smoke_threshold s = (case dn_min_confidence s of None \<Rightarrow> DEFAULT_THRESHOLD | Some c \<Rightarrow> max DEFAULT_THRESHOLD c)"

definition cooldown_ok :: "'r det_env \<Rightarrow> db_id \<Rightarrow> 'r det_state \<Rightarrow> bool \<times> 'r det_state" where
  "cooldown_ok E cam s =
     (case rd_set_nx (det_redis E) (''axp:smoke:cooldown:'' @ str_of_int cam) ''1'' COOLDOWN_SECONDS (dn_redis s) of
        None \<Rightarrow> (True, s)
      | Some (b, r) \<Rightarrow> (b, on_redis (\<lambda>_. r) s))"

definition smoke_candidates :: "'r det_state \<Rightarrow> det_row list \<Rightarrow> det_row list" where
  "smoke_candidates s rows =
     filter (\<lambda>r. dr_label r \<in> set (map snd CUSTOM_LABELS) \<and> smoke_threshold s \<le> dr_confidence r) rows"

definition smoke_batch :: "'r det_env \<Rightarrow> ts \<Rightarrow> db_id \<Rightarrow> det_row list \<Rightarrow> 'r det_state \<Rightarrow> 'r det_state" where
  "smoke_batch E now cam rows s =
     (if cam \<notin> set (dn_smoke_on s) then s
      else case max_by dr_confidence (smoke_candidates s rows) of
        None \<Rightarrow> s
      | Some best \<Rightarrow>
          (case cooldown_ok E cam s of (ok, s1) \<Rightarrow>
             if \<not> ok then s1
             else snd (raise_object E now cam (pulse ''smoke'' (Some (dr_label best)) (dr_confidence best) (bbox_val (dr_bbox best)) None)
                        ''smoke'' (PDict []) s1)))"

section \<open>The batch\<close>

text \<open>\<open>Detection.bulk_create\<close> gives each row a fresh identifier.\<close>

definition numbered :: "db_id \<Rightarrow> det_row list \<Rightarrow> det_row list" where
  "numbered k rows = map (\<lambda>(i, r). r\<lparr>dr_id := k + int i\<rparr>) (enumerate 0 rows)"

definition bulk_create :: "det_row list \<Rightarrow> 'r det_state \<Rightarrow> det_row list \<times> 'r det_state" where
  "bulk_create rows s =
     (let ev = dn_ev s; out = numbered (n_next_key ev) rows
      in (out, s\<lparr>dn_detections := dn_detections s @ out, dn_ev := ev\<lparr>n_next_key := n_next_key ev + int (length rows)\<rparr>\<rparr>))"

definition cameras_of :: "det_row list \<Rightarrow> db_id list" where
  "cameras_of rows = rev (remdups (rev (map dr_camera rows)))"

text \<open>The rows per camera, cameras in the order of their first row.\<close>

definition analyse :: "'r det_env \<Rightarrow> ts \<Rightarrow> det_row list \<Rightarrow> 'r det_state \<Rightarrow> 'r det_state" where
  "analyse E now rows s =
     fold (\<lambda>cam st. let mine = filter (\<lambda>r. dr_camera r = cam) rows
                    in smoke_batch E now cam mine (counting_batch E now cam mine st)) (cameras_of rows) s"

definition ingest_batch :: "'r det_env \<Rightarrow> ts \<Rightarrow> db_id \<Rightarrow> pydict list \<Rightarrow> pydict \<Rightarrow> ('r det_state, nat \<times> (nat \<times> string) list) act" where
  "ingest_batch E now node batch epoch_map s =
     (case ingest_loop E now s node epoch_map 0 (take MAX_BATCH batch) of
        Inl e \<Rightarrow> (Inl e, s)
      | Inr (rejected, accepted) \<Rightarrow>
          (case bulk_create accepted s of (rows, s1) \<Rightarrow>
           let s2 = s1\<lparr>dn_rows := fold (mark_report now) (cameras_of rows) (dn_rows s1)\<rparr>
           in (Inr (length rows, rejected), analyse E now rows (run_triggers E now rows s2))))"

end
