(* ===== verification/DetectionProps.thy ===== *)
theory DetectionProps
  imports DetectionRules EventProps
begin

text \<open>
  Properties of the detection ingestion: which rows a batch stores, what one bad report does, how often a trigger
  fires, and that the crossings a line counts are the side changes of its tracks.
\<close>

section \<open>Rounding\<close>

lemma round_even_le: "q \<le> of_int n \<Longrightarrow> round_even q \<le> n"
  unfolding round_even_def Let_def by (auto split: if_splits) linarith+

lemma round_even_ge: "of_int n \<le> q \<Longrightarrow> n \<le> round_even q"
  unfolding round_even_def Let_def by (auto split: if_splits) linarith+

lemma round5_unit: "0 \<le> q \<Longrightarrow> q \<le> 1 \<Longrightarrow> 0 \<le> round5 q \<and> round5 q \<le> 1"
proof -
  assume q: "0 \<le> q" "q \<le> 1"
  have "0 \<le> round_even (q * 10 ^ 5)" using q by (intro round_even_ge) simp
  moreover have "round_even (q * 10 ^ 5) \<le> 10 ^ 5" using q by (intro round_even_le) simp
  ultimately show ?thesis by (simp add: round5_def)
qed

lemma clamp01_unit: "0 \<le> clamp01 E v \<and> clamp01 E v \<le> 1"
  by (simp add: clamp01_def split: option.split)

lemma conf_int_range: "0 \<le> conf_int E v \<and> conf_int E v \<le> 100"
  by (simp add: conf_int_def split: option.split)

section \<open>The rows a batch stores\<close>

definition unit_box :: "bbox \<Rightarrow> bool" where
  "unit_box b = (case b of (x1, y1, x2, y2) \<Rightarrow> list_all (\<lambda>v. 0 \<le> v \<and> v \<le> 1) [x1, y1, x2, y2])"

definition zone_of_row :: "detection_zone list \<Rightarrow> det_row \<Rightarrow> detection_zone \<Rightarrow> bool" where
  "zone_of_row zs r z \<longleftrightarrow>
     z \<in> set zs \<and> dz_camera z = dr_camera r \<and> dz_kind z = ''include'' \<and> dz_enabled z \<and> dz_deleted z = None
   \<and> in_polygon (fst (bottom_center (dr_bbox r))) (snd (bottom_center (dr_bbox r))) (dz_polygon z) = Inr True"

text \<open>The epoch a report carries, itself or through the map of the request.\<close>

definition reported_epoch :: "pydict \<Rightarrow> db_id \<Rightarrow> pydict \<Rightarrow> pyval" where
  "reported_epoch em cam rep = (if dget rep ''epoch'' = PNone then dget em (str_of_int cam) else dget rep ''epoch'')"

definition sound_row :: "ts \<Rightarrow> 'r det_state \<Rightarrow> db_id \<Rightarrow> pydict \<Rightarrow> pydict \<Rightarrow> det_row \<Rightarrow> bool" where
  "sound_row now s node em rep r \<longleftrightarrow>
     py_int (dget rep ''camera_id'') = Inr (dr_camera r)
   \<and> (\<exists>a. get_for_camera (dn_rows s) (dr_camera r) = Some a \<and> da_node a = node
         \<and> (reported_epoch em (dr_camera r) rep = PNone \<or> py_int (reported_epoch em (dr_camera r) rep) = Inr (da_epoch a)))
   \<and> unit_box (dr_bbox r) \<and> 0 \<le> dr_confidence r \<and> dr_confidence r \<le> 100 \<and> \<bar>dr_ts r - now\<bar> \<le> 60000
   \<and> length (dr_track_key r) \<le> 32 \<and> dr_node r = node
   \<and> (case dr_zone r of None \<Rightarrow> True | Some i \<Rightarrow> \<exists>z. zone_of_row (dn_zones s) r z \<and> dz_id z = i)"

lemma bbox_of_unit: "unit_box (bbox_of E v)"
proof -
  have "unit_box (round5 (clamp01 E a), round5 (clamp01 E b), round5 (clamp01 E c), round5 (clamp01 E d))" for a b c d
    using clamp01_unit [of E] round5_unit by (simp add: unit_box_def)
  moreover have "unit_box (0, 0, 0, 0)" by (simp add: unit_box_def)
  ultimately show ?thesis unfolding bbox_of_def by (simp split: pyval.split list.split)
qed

lemma report_ts_near: "report_ts now v = Inr t \<Longrightarrow> \<bar>t - now\<bar> \<le> 60000"
  by (auto simp: report_ts_def CLAMP_SECONDS_def split: if_splits sum.splits py_error.splits)

lemma track_ids_short: "track_ids E rep node cam = Inr (key, i) \<Longrightarrow> length key \<le> 32"
  by (auto simp: track_ids_def Let_def split: option.splits)

lemma zone_hits_set:
  assumes "zone_hits x y zs = Inr hits" and "z \<in> set hits"
  shows "z \<in> set zs \<and> in_polygon x y (dz_polygon z) = Inr True"
proof -
  obtain bs where bs: "mapE (\<lambda>z. in_polygon x y (dz_polygon z)) zs = Inr bs" and hits: "hits = map fst (filter snd (zip zs bs))"
    using assms(1) by (cases "mapE (\<lambda>z. in_polygon x y (dz_polygon z)) zs") (simp_all add: zone_hits_def)
  from assms(2) hits obtain b where zb: "(z, b) \<in> set (zip zs bs)" and "b" by auto
  have "list_all2 (\<lambda>z b. in_polygon x y (dz_polygon z) = Inr b) zs bs" by (rule mapE_InrD [OF bs])
  with zb \<open>b\<close> show ?thesis by (auto simp: list_all2_iff dest: set_zip_leftD)
qed

lemma attribute_zone_sound:
  assumes "attribute_zone zs cam b = Inr (Some i)"
  shows "\<exists>z \<in> set zs. dz_id z = i \<and> dz_camera z = cam \<and> dz_kind z = ''include'' \<and> dz_enabled z \<and> dz_deleted z = None
    \<and> in_polygon (fst (bottom_center b)) (snd (bottom_center b)) (dz_polygon z) = Inr True"
proof -
  obtain x y where xy: "bottom_center b = (x, y)" by (rule prod.exhaust)
  define inc where "inc = filter (\<lambda>z. dz_kind z = ''include'') (zones_for_camera zs cam)"
  obtain hits where hits: "zone_hits x y inc = Inr hits" and b: "best_zone hits = Inr (Some i)"
    using assms unfolding attribute_zone_def xy inc_def [symmetric] by (cases "zone_hits x y inc") simp_all
  have "\<exists>areas :: rat list. map_option (dz_id \<circ> fst) (first_row (sort_key (\<lambda>(z, a). (- dz_priority z, a)) (zip hits areas))) = Some i"
  proof (cases "mapE (\<lambda>z. poly_area (dz_polygon z)) hits")
    case (Inr areas)
    then show ?thesis using b unfolding best_zone_def by (intro exI [of _ areas]) simp
  qed (use b in \<open>simp add: best_zone_def\<close>)
  then obtain areas :: "rat list" where "map_option (dz_id \<circ> fst) (first_row (sort_key (\<lambda>(z, a). (- dz_priority z, a)) (zip hits areas))) = Some i" by blast
  then obtain z a where za: "first_row (sort_key (\<lambda>(z, a). (- dz_priority z, a)) (zip hits areas)) = Some (z, a)" "dz_id z = i" by auto
  from first_row_SomeD [OF za(1)] have z: "z \<in> set hits" "dz_id z = i" using za(2) by (simp_all add: set_zip_leftD)
  from zone_hits_set [OF hits z(1)] have "z \<in> set inc" "in_polygon x y (dz_polygon z) = Inr True" by simp_all
  then show ?thesis using z(2) by (intro bexI [of _ z]) (simp_all add: inc_def zones_for_camera_def xy)
qed

lemma validate_report_ok:
  assumes "validate_report rows node em rep = Inr None"
  shows "\<exists>cam a. py_int (dget rep ''camera_id'') = Inr cam \<and> get_for_camera rows cam = Some a \<and> da_node a = node
    \<and> (reported_epoch em cam rep = PNone \<or> py_int (reported_epoch em cam rep) = Inr (da_epoch a))"
proof -
  obtain cam where cam: "py_int (dget rep ''camera_id'') = Inr cam"
    using assms by (cases "py_int (dget rep ''camera_id'')") (simp_all add: validate_report_def split: if_splits)
  obtain a where a: "get_for_camera rows cam = Some a" "da_node a = node"
    using assms cam by (cases "get_for_camera rows cam") (simp_all add: validate_report_def split: if_splits)
  have "(case (if reported_epoch em cam rep = PNone then Inr (da_epoch a) else py_int (reported_epoch em cam rep)) of
          Inl e \<Rightarrow> False | Inr n \<Rightarrow> n = da_epoch a)"
    using assms cam a unfolding validate_report_def reported_epoch_def Let_def
    by (simp split: if_splits sum.splits)
  with cam a show ?thesis by (auto split: if_splits sum.splits)
qed

lemma build_row_fields:
  assumes "build_row E now s node rep = Inr (Some r)" and "py_int (dget rep ''camera_id'') = Inr cam"
  shows "dr_camera r = cam \<and> unit_box (dr_bbox r) \<and> 0 \<le> dr_confidence r \<and> dr_confidence r \<le> 100 \<and> \<bar>dr_ts r - now\<bar> \<le> 60000
    \<and> length (dr_track_key r) \<le> 32 \<and> dr_node r = node \<and> attribute_zone (dn_zones s) cam (dr_bbox r) = Inr (dr_zone r)"
proof -
  define b where "b = bbox_of E (dget rep ''bbox'')"
  obtain cl where n: "normalize_label (dget rep ''class_id'') (dget rep ''label'') = Inr (Some cl)"
    using assms(1) by (cases "normalize_label (dget rep ''class_id'') (dget rep ''label'')")
      (simp_all add: build_row_def split: option.splits)
  obtain t where t: "report_ts now (dget rep ''ts'') = Inr t"
    using assms n by (cases "report_ts now (dget rep ''ts'')") (simp_all add: build_row_def Let_def split: prod.splits)
  obtain key tid where k: "track_ids E rep node cam = Inr (key, tid)"
    using assms n t by (cases "track_ids E rep node cam") (simp_all add: build_row_def Let_def split: prod.splits)
  obtain z where z: "attribute_zone (dn_zones s) cam b = Inr z"
    using assms n t k by (cases "attribute_zone (dn_zones s) cam b") (simp_all add: build_row_def Let_def b_def split: prod.splits)
  have r: "dr_camera r = cam" "dr_bbox r = b" "dr_confidence r = conf_int E (dget_or rep ''confidence'' (PInt 0))" "dr_ts r = t"
      "dr_track_key r = key" "dr_node r = node" "dr_zone r = z"
    using assms n t k z by (auto simp: build_row_def Let_def b_def [symmetric] split: prod.splits)
  show ?thesis unfolding r using conf_int_range [of E] report_ts_near [OF t] track_ids_short [OF k] z bbox_of_unit by (simp add: b_def)
qed

lemma taken_sound:
  assumes "validate_report (dn_rows s) node em rep = Inr None" and "build_row E now s node rep = Inr (Some r)"
  shows "sound_row now s node em rep r"
proof -
  from validate_report_ok [OF assms(1)] obtain cam a where c: "py_int (dget rep ''camera_id'') = Inr cam"
    and a: "get_for_camera (dn_rows s) cam = Some a" "da_node a = node"
      "reported_epoch em cam rep = PNone \<or> py_int (reported_epoch em cam rep) = Inr (da_epoch a)" by blast
  note f = build_row_fields [OF assms(2) c]
  have "\<exists>z. zone_of_row (dn_zones s) r z \<and> dz_id z = i" if "dr_zone r = Some i" for i
    using attribute_zone_sound [of "dn_zones s" cam "dr_bbox r" i] f that unfolding zone_of_row_def by auto
  then show ?thesis unfolding sound_row_def using c a f by (simp split: option.split)
qed

lemma list_all2_mem:
  "list_all2 P xs ys \<Longrightarrow> (\<And>x y. x \<in> set xs \<Longrightarrow> P x y \<Longrightarrow> Q x y) \<Longrightarrow> list_all2 Q xs ys"
  by (induction xs ys rule: list_all2_induct) auto

text \<open>The indices that were not rejected, in order, are the rows.\<close>

lemma ingest_loop_rows:
  assumes "ingest_loop E now s node em i reps = Inr (rj, acc)"
  shows "(\<forall>p \<in> set rj. i \<le> fst p \<and> fst p < i + length reps) \<and> length acc + length rj = length reps
    \<and> list_all2 (\<lambda>j r. sound_row now s node em (reps ! (j - i)) r) (filter (\<lambda>j. j \<notin> fst ` set rj) [i..<i + length reps]) acc"
  using assms
proof (induction reps arbitrary: i rj acc)
  case Nil
  then show ?case by simp
next
  case (Cons rep reps)
  let ?ok = "\<lambda>j r. sound_row now s node em (reps ! (j - Suc i)) r"
  let ?ok' = "\<lambda>j r. sound_row now s node em ((rep # reps) ! (j - i)) r"
  have up: "[i..<i + length (rep # reps)] = i # [Suc i..<Suc i + length reps]" using upt_conv_Cons [of i "i + length (rep # reps)"] by simp
  have shift: "list_all2 ?ok' (filter P [Suc i..<Suc i + length reps]) acc'"
    if "list_all2 ?ok (filter P [Suc i..<Suc i + length reps]) acc'" for P acc'
  proof (rule list_all2_mem [OF that])
    fix j r assume j: "j \<in> set (filter P [Suc i..<Suc i + length reps])" and ok: "?ok j r"
    from j have "j - i = Suc (j - Suc i)" by simp linarith
    with ok show "?ok' j r" by simp
  qed
  consider (bad) reason rj' where "ingest_loop E now s node em (i + 1) reps = Inr (rj', acc)" "rj = (i, reason) # rj'"
    | (ok) r acc' where "ingest_loop E now s node em (i + 1) reps = Inr (rj, acc')" "acc = r # acc'"
        "validate_report (dn_rows s) node em rep = Inr None" "build_row E now s node rep = Inr (Some r)"
    using Cons.prems by (cases "ingest_loop E now s node em (i + 1) reps") (auto split: sum.splits option.splits)
  then show ?case
  proof cases
    case bad
    from Cons.IH [OF bad(1)] have ih: "\<forall>p \<in> set rj'. Suc i \<le> fst p \<and> fst p < Suc i + length reps" "length acc + length rj' = length reps"
      "list_all2 ?ok (filter (\<lambda>j. j \<notin> fst ` set rj') [Suc i..<Suc i + length reps]) acc" by simp_all
    have "filter (\<lambda>j. j \<notin> fst ` set rj) [i..<i + length (rep # reps)] = filter (\<lambda>j. j \<notin> fst ` set rj') [Suc i..<Suc i + length reps]"
      unfolding up bad(2) by (auto intro: filter_cong)
    with ih shift bad(2) show ?thesis by auto
  next
    case ok
    from Cons.IH [OF ok(1)] have ih: "\<forall>p \<in> set rj. Suc i \<le> fst p \<and> fst p < Suc i + length reps" "length acc' + length rj = length reps"
      "list_all2 ?ok (filter (\<lambda>j. j \<notin> fst ` set rj) [Suc i..<Suc i + length reps]) acc'" by simp_all
    have "i \<notin> fst ` set rj" using ih(1) by auto
    then have "filter (\<lambda>j. j \<notin> fst ` set rj) [i..<i + length (rep # reps)] = i # filter (\<lambda>j. j \<notin> fst ` set rj) [Suc i..<Suc i + length reps]"
      unfolding up by simp
    with ih shift [OF ih(3)] taken_sound [OF ok(3,4)] ok(2) show ?thesis by auto
  qed
qed

section \<open>What raising an event changes\<close>

definition origin :: "event \<Rightarrow> db_id \<times> pyval" where
  "origin e = (ev_camera e, ev_raw e)"

lemma update_event_origins:
  assumes "\<And>e. origin (f e) = origin e"
  shows "map origin (es_events (update_event i f s)) = map origin (es_events s)"
  using assms by (simp add: update_event_def)

lemma set_action_origins: "map origin (es_events (set_action i a s)) = map origin (es_events s)"
  unfolding set_action_def by (rule update_event_origins) (simp add: origin_def)

lemma materialize_origins: "map origin (es_events (snd (materialize now i pre post s))) = map origin (es_events s)"
proof -
  obtain r s' where m: "materialize now i pre post s = (r, s')" by (rule prod.exhaust)
  from materialize_frame(4) [OF m] obtain rid
    where "es_events s' = map (\<lambda>e. if ev_id e = i then e\<lparr>ev_recording_id := rid e\<rparr> else e) (es_events s)" by blast
  then show ?thesis by (simp add: m origin_def)
qed

lemma publish_frame: "es_events (publish now e s) = es_events s" "es_redis (publish now e s) = es_redis s"
  by (simp_all add: publish_def)

lemma apply_policy_effect:
  "map origin (es_events (apply_policy E now cam n dedup e p s)) = map origin (es_events s)
   \<and> es_redis (apply_policy E now cam n dedup e p s) \<in> {es_redis s, mark_trigger E dedup (ep_cooldown_s p) (es_redis s)}"
proof -
  define a where "a = combine (ep_action p) (schedule_mode E s cam (ev_start e)) (ne_type n)"
  define s1 where "s1 = set_action (ev_id e) a s"
  define s2 where "s2 = (if a = ''record''
      then (let s' = snd (materialize now (ev_id e) (ep_pre_buffer_s p) (ep_post_buffer_s p) s1)
            in s'\<lparr>es_redis := mark_trigger E dedup (ep_cooldown_s p) (es_redis s')\<rparr>) else s1)"
  have r1: "es_redis s1 = es_redis s" by (simp add: s1_def set_action_def update_event_def)
  have rm: "es_redis (snd (materialize now (ev_id e) (ep_pre_buffer_s p) (ep_post_buffer_s p) s1)) = es_redis s1"
    using materialize_frame(2) [OF prod.collapse [symmetric]] .
  have 2: "map origin (es_events s2) = map origin (es_events s)"
    by (simp add: s2_def s1_def Let_def materialize_origins set_action_origins)
  have 3: "es_redis s2 \<in> {es_redis s, mark_trigger E dedup (ep_cooldown_s p) (es_redis s)}"
    using r1 rm by (simp add: s2_def Let_def)
  have "apply_policy E now cam n dedup e p s \<in> {s2} \<union> range (\<lambda>row. publish now row s2)"
    unfolding apply_policy_def Let_def a_def [symmetric] s1_def [symmetric] s2_def [unfolded Let_def, symmetric]
    by (simp split: option.split)
  then show ?thesis using 2 3 by (auto simp: publish_frame)
qed

lemma judge_effect:
  "map origin (es_events (judge E now cam n dedup e s)) = map origin (es_events s)
   \<and> (es_redis (judge E now cam n dedup e s) = es_redis s \<or> (\<exists>c. es_redis (judge E now cam n dedup e s) = mark_trigger E dedup c (es_redis s)))"
proof -
  have a: "es_redis (set_action i x s) = es_redis s" for i x by (simp add: set_action_def update_event_def)
  show ?thesis
  proof (cases "resolve s cam (ne_type n) (ne_subtype n)")
    case None
    then show ?thesis by (simp add: judge_def)
  next
    case (Some p)
    show ?thesis unfolding judge_def Some option.case
      using apply_policy_effect [of E now cam n dedup e p s] a set_action_origins by auto
  qed
qed

lemma pulse_ingested:
  assumes "ingest_object E now cam n source raw s = (r, s')" and "ne_state n = ''pulse''" and "ne_vendor_event_id n = None"
  shows "(\<exists>x. r = Inl x) \<and> s' = s
    \<or> (\<exists>i. r = Inr (Some i)) \<and> map origin (es_events s') = map origin (es_events s) @ [(cam, raw)]
      \<and> (es_redis s' = es_redis s \<or> (\<exists>c. es_redis s' = mark_trigger E (dedup_key cam n) c (es_redis s)))"
proof (cases "Camera_get_by_id s cam")
  case (Inl e)
  then show ?thesis using assms(1) by (auto simp: ingest_object_def)
next
  case (Inr c)
  have c: "cam_id c = cam" using Inr by (auto simp: Camera_get_by_id_def dest: first_row_SomeD split: option.splits)
  obtain e s1 where e: "Event_create cam n source (dedup_key cam n) now EV_PULSE raw s = (e, s1)" by (rule prod.exhaust)
  have "r = Inr (Some (ev_id e))" "s' = judge E now cam n (dedup_key cam n) e s1"
    using assms Inr c e by (simp_all add: ingest_object_def process_def event_of_def)
  moreover have "map origin (es_events s1) = map origin (es_events s) @ [(cam, raw)]" "es_redis s1 = es_redis s"
    using e by (auto simp: Event_create_def Let_def origin_def)
  ultimately show ?thesis using judge_effect [of E now cam n "dedup_key cam n" e s1] by auto
qed

section \<open>Triggers and their cooldown\<close>

text \<open>The events a trigger raised for a camera.\<close>

definition raised_by :: "db_id \<Rightarrow> db_id \<Rightarrow> db_id \<times> pyval \<Rightarrow> bool" where
  "raised_by t cam o' = (fst o' = cam \<and> (case snd o' of PDict d \<Rightarrow> dget d ''trigger_id'' = PStr (str_of_int t) | _ \<Rightarrow> False))"

definition fired :: "db_id \<Rightarrow> db_id \<Rightarrow> 'r det_state \<Rightarrow> nat" where
  "fired t cam s = length (filter (raised_by t cam) (map origin (es_events (dn_ev s))))"

text \<open>The commands the triggers use succeed, and obey the laws.\<close>

definition triggers_up :: "'r det_env \<Rightarrow> ('r \<Rightarrow> string \<Rightarrow> string option) \<Rightarrow> bool" where
  "triggers_up E view \<longleftrightarrow> redis_laws (det_redis E) view \<and> (\<forall>k r. rd_exists (det_redis E) k r \<noteq> None)
     \<and> (\<forall>k ttl r. 0 < ttl \<longrightarrow> rd_setex (det_redis E) k ttl ''1'' r \<noteq> None)"

definition holds_key :: "('r \<Rightarrow> string \<Rightarrow> string option) \<Rightarrow> string \<Rightarrow> 'r det_state \<Rightarrow> bool" where
  "holds_key view k s \<longleftrightarrow> view (dn_redis s) k \<noteq> None"

lemma key_there_view: "triggers_up E view \<Longrightarrow> key_there E k r \<longleftrightarrow> view r k \<noteq> None"
proof -
  assume up: "triggers_up E view"
  then obtain n where n: "rd_exists (det_redis E) k r = Some n" unfolding triggers_up_def by blast
  with redis_lawsD(2) [of "det_redis E" view k r n] up show ?thesis by (simp add: key_there_def triggers_up_def)
qed

lemma put_key_view: "triggers_up E view \<Longrightarrow> 0 < ttl \<Longrightarrow> view (put_key E k ttl r) = (view r)(k \<mapsto> ''1'')"
proof -
  assume up: "triggers_up E view" and "0 < ttl"
  then obtain r' where r: "rd_setex (det_redis E) k ttl ''1'' r = Some r'" unfolding triggers_up_def by blast
  with redis_lawsD(3) [of "det_redis E" view k ttl "''1''" r r'] up show ?thesis by (simp add: put_key_def triggers_up_def)
qed

lemma mark_trigger_put: "mark_trigger (de_ev E) dedup c = put_key E (cooldown_key (de_ev E) dedup) (max 1 c)"
  by (rule ext) (simp add: mark_trigger_def put_key_def)

lemma mark_fired_view:
  assumes "triggers_up E view"
  shows "view (mark_fired E t row r) k \<noteq> None \<longleftrightarrow>
    view r k \<noteq> None \<or> k = cd_key E (tg_id t) (dr_camera row)
    \<or> tg_debounce_per_track t \<and> dr_track_key row \<noteq> [] \<and> k = trig_track_key E (dr_track_key row) (tg_id t)"
  by (auto simp: mark_fired_def mark_cooldown_def mark_track_def Let_def put_key_view [OF assms] split: if_splits)

text \<open>What a step leaves: the detections, the keys that were there, and no more events of the trigger.\<close>

definition calm :: "('r \<Rightarrow> string \<Rightarrow> string option) \<Rightarrow> db_id \<Rightarrow> db_id \<Rightarrow> string \<Rightarrow> 'r det_state \<Rightarrow> 'r det_state \<Rightarrow> bool" where
  "calm view t cam key s s' \<longleftrightarrow> map (\<lambda>d. d\<lparr>dr_event := None\<rparr>) (dn_detections s') = map (\<lambda>d. d\<lparr>dr_event := None\<rparr>) (dn_detections s)
     \<and> fired t cam s' + (if holds_key view key s' then 0 else 1) \<le> fired t cam s + (if holds_key view key s then 0 else 1)"

lemma calm_refl: "calm view t cam key s s"
  by (simp add: calm_def)

lemma calm_trans: "calm view t cam key s s1 \<Longrightarrow> calm view t cam key s1 s2 \<Longrightarrow> calm view t cam key s s2"
  by (simp add: calm_def)

lemma str_of_int_eq: "str_of_int a = str_of_int b \<longleftrightarrow> a = b"
  by (metis int_of_str_of_int option.inject)

lemma dget_trigger_raw: "(case trigger_raw t row det of PDict d \<Rightarrow> dget d ''trigger_id'' = v | _ \<Rightarrow> False) \<longleftrightarrow> v = PStr (str_of_int (tg_id t))"
  by (auto simp: trigger_raw_def dget_def)

lemma promote_effect:
  assumes "triggers_up E view" and "promote E now t row det s = (r, s1)"
  shows "dn_detections s1 = dn_detections s
    \<and> ((\<exists>e. r = Inl e) \<and> s1 = s
       \<or> (\<exists>i. r = Inr (Some i)) \<and> (\<forall>k. holds_key view k s \<longrightarrow> holds_key view k s1)
         \<and> fired u cam s1 = fired u cam s + (if tg_id t = u \<and> dr_camera row = cam then 1 else 0))"
proof -
  obtain q ev where q: "ingest_object (de_ev E) now (dr_camera row) (trigger_event t row) ''server'' (trigger_raw t row det) (dn_ev s) = (q, ev)"
    by (rule prod.exhaust)
  have r: "r = q" "s1 = s\<lparr>dn_ev := ev\<rparr>" using assms(2) q by (auto simp: promote_def raise_object_def)
  have "(\<exists>x. q = Inl x) \<and> ev = dn_ev s
    \<or> (\<exists>i. q = Inr (Some i)) \<and> map origin (es_events ev) = map origin (es_events (dn_ev s)) @ [(dr_camera row, trigger_raw t row det)]
      \<and> (es_redis ev = es_redis (dn_ev s)
         \<or> (\<exists>c. es_redis ev = mark_trigger (de_ev E) (dedup_key (dr_camera row) (trigger_event t row)) c (es_redis (dn_ev s))))"
    by (rule pulse_ingested [OF q]) (simp_all add: trigger_event_def pulse_def)
  then show ?thesis
  proof
    assume "(\<exists>x. q = Inl x) \<and> ev = dn_ev s"
    then show ?thesis using r by simp
  next
    assume ok: "(\<exists>i. q = Inr (Some i)) \<and> map origin (es_events ev) = map origin (es_events (dn_ev s)) @ [(dr_camera row, trigger_raw t row det)]
      \<and> (es_redis ev = es_redis (dn_ev s)
         \<or> (\<exists>c. es_redis ev = mark_trigger (de_ev E) (dedup_key (dr_camera row) (trigger_event t row)) c (es_redis (dn_ev s))))"
    then have "holds_key view k s \<longrightarrow> holds_key view k s1" for k
      using put_key_view [OF assms(1)] by (auto simp: holds_key_def r mark_trigger_put)
    moreover have "fired u cam s1 = fired u cam s + (if tg_id t = u \<and> dr_camera row = cam then 1 else 0)"
      using ok by (auto simp: fired_def r raised_by_def dget_trigger_raw str_of_int_eq)
    ultimately show ?thesis using ok r by simp
  qed
qed

lemma evaluate_loop_calm:
  assumes "triggers_up E view"
  shows "calm view u cam (cd_key E u cam) s (snd (evaluate_loop E now row det ts s))"
proof (induction ts)
  case Nil
  then show ?case by (simp add: calm_refl)
next
  case (Cons t ts)
  show ?case
  proof (cases "trigger_matches E s row t = Inr True")
    case False
    then show ?thesis using Cons by (auto simp: calm_refl split: sum.split bool.split)
  next
    case True
    obtain r s1 where p: "promote E now t row det s = (r, s1)" by (rule prod.exhaust)
    have fresh: "\<not> holds_key view (cd_key E (tg_id t) (dr_camera row)) s"
      using True by (auto simp: trigger_matches_def held_back_def trig_within_cooldown_def key_there_view [OF assms] holds_key_def
          split: if_splits sum.splits bool.splits)
    from promote_effect [OF assms p, of u cam] show ?thesis
    proof (elim conjE disjE)
      assume "\<exists>e. r = Inl e" "s1 = s"
      then show ?thesis using True p by (auto simp: calm_refl)
    next
      assume d: "dn_detections s1 = dn_detections s" and i: "\<exists>i. r = Inr (Some i)"
        and h: "\<forall>k. holds_key view k s \<longrightarrow> holds_key view k s1"
        and f: "fired u cam s1 = fired u cam s + (if tg_id t = u \<and> dr_camera row = cam then 1 else 0)"
      let ?s2 = "on_redis (mark_fired E t row) s1"
      have e: "snd (evaluate_loop E now row det (t # ts) s) = ?s2" using True p i by auto
      have k: "holds_key view (cd_key E u cam) s1 \<or> tg_id t = u \<and> dr_camera row = cam \<Longrightarrow> holds_key view (cd_key E u cam) ?s2"
        using mark_fired_view [OF assms] by (auto simp: holds_key_def on_redis_def)
      have "fired u cam ?s2 = fired u cam s1" "dn_detections ?s2 = dn_detections s1" by (simp_all add: fired_def on_redis_def)
      then show ?thesis unfolding e calm_def using d f h k fresh by auto
    qed
  qed
qed

lemma run_triggers_calm:
  assumes "triggers_up E view"
  shows "calm view u cam (cd_key E u cam) s (run_triggers E now rows s)"
proof (induction rows arbitrary: s)
  case Nil
  then show ?case by (simp add: calm_refl)
next
  case (Cons row rows)
  obtain r s1 where e: "evaluate E now row (dr_id row) s = (r, s1)" by (rule prod.exhaust)
  have 1: "calm view u cam (cd_key E u cam) s s1"
    using evaluate_loop_calm [OF assms, of u cam s now row "dr_id row" "trig_candidates (dn_triggers s) (dr_camera row)"] e
    by (simp add: evaluate_def)
  have link: "calm view u cam (cd_key E u cam) s1 (link_event [dr_id row] ev s1)" for ev
    by (simp add: calm_def link_event_def fired_def holds_key_def)
  define s2 where "s2 = (case r of Inr (Some ev) \<Rightarrow> link_event [dr_id row] ev s1 | _ \<Rightarrow> s1)"
  have "calm view u cam (cd_key E u cam) s s2"
    unfolding s2_def using 1 calm_trans [OF 1 link] by (simp split: sum.split option.split)
  moreover have "run_triggers E now (row # rows) s = run_triggers E now rows s2"
    by (simp add: e s2_def split: sum.split option.split)
  ultimately show ?case using Cons.IH calm_trans by metis
qed

section \<open>Counting and smoke leave the detections and the trigger events alone\<close>

definition still :: "det_row list \<Rightarrow> db_id \<Rightarrow> db_id \<Rightarrow> nat \<Rightarrow> 'r det_state \<Rightarrow> bool" where
  "still D u cam n s \<longleftrightarrow> dn_detections s = D \<and> fired u cam s = n"

abbreviation (input) stays :: "det_row list \<Rightarrow> db_id \<Rightarrow> db_id \<Rightarrow> nat \<Rightarrow> ('r det_state, 'a) act \<Rightarrow> bool" where
  "stays D u cam n m \<equiv> triple (still D u cam n) m (\<lambda>_. still D u cam n) (still D u cam n)"

lemma stays_snd: "stays D u cam n m \<Longrightarrow> still D u cam n s \<Longrightarrow> still D u cam n (snd (m s))"
  by (cases "m s"; cases "fst (m s)") (auto simp: triple_def dest!: spec [of _ s])

lemma stays_pure: "(\<And>s. still D u cam n s \<Longrightarrow> still D u cam n (f s)) \<Longrightarrow> stays D u cam n (\<lambda>s. (Inr (), f s))"
  by (simp add: triple_def)

lemma stays_return [intro]: "stays D u cam n (returnE x)" "stays D u cam n (raiseE e)"
  by (simp_all add: triple_def)

lemma still_frame [simp]:
  "still D u cam n (on_redis f s) = still D u cam n s"
  "still D u cam n (s\<lparr>dn_stats := x\<rparr>) = still D u cam n s"
  "still D u cam n (s\<lparr>dn_flags := y\<rparr>) = still D u cam n s"
  "still D u cam n (s\<lparr>dn_rows := z\<rparr>) = still D u cam n s"
  by (simp_all add: still_def fired_def on_redis_def)

lemma stays_keys [intro]:
  "stays D u cam n (get_key E k)" "stays D u cam n (exists_key E k)" "stays D u cam n (set_key E k v)" "stays D u cam n (del_key E k)"
  by (simp_all add: triple_def get_key_def exists_key_def set_key_def del_key_def split: option.split)

lemma still_raise:
  assumes "still D u cam n s"
  shows "still D u cam n (snd (raise_object E now c (pulse typ sub score region extra) source (PDict []) s))"
proof -
  obtain q ev where q: "ingest_object (de_ev E) now c (pulse typ sub score region extra) source (PDict []) (dn_ev s) = (q, ev)"
    by (rule prod.exhaust)
  have "(\<exists>x. q = Inl x) \<and> ev = dn_ev s
    \<or> (\<exists>i. q = Inr (Some i)) \<and> map origin (es_events ev) = map origin (es_events (dn_ev s)) @ [(c, PDict [])]
      \<and> (es_redis ev = es_redis (dn_ev s)
         \<or> (\<exists>k. es_redis ev = mark_trigger (de_ev E) (dedup_key c (pulse typ sub score region extra)) k (es_redis (dn_ev s))))"
    by (rule pulse_ingested [OF q]) (simp_all add: pulse_def)
  moreover have "\<not> raised_by u cam (c, PDict [])" by (simp add: raised_by_def dget_def)
  ultimately have "filter (raised_by u cam) (map origin (es_events ev)) = filter (raised_by u cam) (map origin (es_events (dn_ev s)))"
    by (elim disjE conjE) (simp_all only: filter_append filter.simps if_False append_Nil2)
  then have "fired u cam (s\<lparr>dn_ev := ev\<rparr>) = fired u cam s" unfolding fired_def by simp
  then show ?thesis using assms q by (simp add: raise_object_def still_def)
qed

lemma still_emit: "still D u cam n s \<Longrightarrow> still D u cam n (count_emit E now c etype v lab line extra s)"
  unfolding count_emit_def by (rule still_raise)

lemma stays_crossed: "stays D u cam n (crossed line row side prev)"
  by (simp add: triple_def crossed_def CountingStat_record_def split: option.split)

lemma stays_cross: "stays D u cam n (cross E line row)"
  unfolding cross_def Let_def
  by (auto intro!: triple_bind [OF stays_keys(1)] triple_bind [OF stays_keys(3)] stays_crossed split: prod.split sum.split)

lemma stays_dwell: "stays D u cam n (dwell E now line row)"
proof -
  have emit: "stays D u cam n (\<lambda>s. (Inr (), count_emit E now c etype v lab line extra s))" for c etype v lab extra
    by (rule stays_pure) (rule still_emit)
  show ?thesis
    unfolding dwell_def Let_def
    by (auto intro!: triple_bind [OF stays_keys(1)] triple_bind [OF stays_keys(2)] triple_bind [OF stays_keys(3)] emit stays_return stays_keys
        simp del: act_simps split: option.split)
qed

lemma stays_count_row: "stays D u cam n (count_row E now con lon line row members)"
  unfolding count_row_def Let_def
  by (auto intro!: triple_bind [OF stays_cross] triple_bind [OF stays_dwell] triple_bind [OF stays_keys(4)] stays_return
      simp del: act_simps split: prod.split sum.split bool.split)

lemma stays_count_rows: "stays D u cam n (count_rows E now con lon line rows members)"
proof (induction rows arbitrary: members)
  case Nil
  then show ?case by (simp add: triple_def)
next
  case (Cons row rows)
  have "count_rows E now con lon line (row # rows) members
      = bindE (count_row E now con lon line row members) (\<lambda>m. count_rows E now con lon line rows m)"
    by (rule ext) simp
  then show ?case by (simp only:) (rule triple_bind [OF stays_count_row Cons.IH])
qed

lemma stays_process_line: "stays D u cam n (process_line E now c con lon line rows)"
proof -
  have region: "still D u cam n (region_done E now c con line b members s)" if "still D u cam n s" for b members s
    using that by (auto simp: region_done_def CountingStat_record_def Let_def intro!: still_emit split: option.split)
  have "process_line E now c con lon line rows = bindE (count_rows E now con lon line rows []) (\<lambda>members s1.
      (Inr (), if rows \<noteq> [] \<and> cl_kind line = KIND_REGION \<and> members \<noteq> []
               then region_done E now c con line (dr_ts (hd rows)) members s1 else s1))"
    by (rule ext) (auto simp: process_line_def split: list.split prod.split sum.split)
  moreover have "stays D u cam n (\<lambda>s1. (Inr (), if rows \<noteq> [] \<and> cl_kind line = KIND_REGION \<and> members \<noteq> []
               then region_done E now c con line (dr_ts (hd rows)) members s1 else s1))" for members
    by (rule stays_pure) (simp add: region)
  ultimately show ?thesis by (simp only:) (rule triple_bind [OF stays_count_rows])
qed

lemma fold_still: "(\<And>x s. still D u cam n s \<Longrightarrow> still D u cam n (f x s)) \<Longrightarrow> still D u cam n s \<Longrightarrow> still D u cam n (fold f xs s)"
  by (induction xs arbitrary: s) auto

lemma still_counting: "still D u cam n s \<Longrightarrow> still D u cam n (counting_batch E now c rows s)"
  unfolding counting_batch_def flag_on_def
  by (auto intro!: fold_still stays_snd [OF stays_process_line] split: prod.split)

lemma still_smoke: "still D u cam n s \<Longrightarrow> still D u cam n (smoke_batch E now c rows s)"
  unfolding smoke_batch_def cooldown_ok_def by (auto intro!: still_raise split: option.split prod.split)

lemma still_analyse: "still D u cam n s \<Longrightarrow> still D u cam n (analyse E now rows s)"
  unfolding analyse_def Let_def by (rule fold_still) (simp_all add: still_smoke still_counting)

end
