(* ===== verification/DetectionBatch.thy ===== *)
theory DetectionBatch
  imports DetectionProps
begin

text \<open>The properties of a whole detection batch, with the site their witnesses use.\<close>

section \<open>Stored rows\<close>

abbreviation (input) unlinked :: "det_row \<Rightarrow> det_row" where
  "unlinked d \<equiv> d\<lparr>dr_event := None\<rparr>"

lemma evaluate_loop_rows: "dn_detections (snd (evaluate_loop E now row det ts s)) = dn_detections s"
proof (induction ts)
  case Nil
  then show ?case by simp
next
  case (Cons t ts)
  have p: "dn_detections (snd (promote E now t row det s)) = dn_detections s"
    by (simp add: promote_def raise_object_def split: prod.split)
  have r: "dn_detections (on_redis f x) = dn_detections x" for f and x :: "'a det_state" by (simp add: on_redis_def)
  obtain q s1 where "promote E now t row det s = (q, s1)" by (rule prod.exhaust)
  with p r Cons show ?case by (auto split: sum.split bool.split option.split)
qed

lemma run_triggers_rows: "map unlinked (dn_detections (run_triggers E now rows s)) = map unlinked (dn_detections s)"
proof (induction rows arbitrary: s)
  case Nil
  then show ?case by simp
next
  case (Cons row rows)
  obtain r s1 where e: "evaluate E now row (dr_id row) s = (r, s1)" by (rule prod.exhaust)
  then have "dn_detections s1 = dn_detections s"
    using evaluate_loop_rows [of E now row "dr_id row" "trig_candidates (dn_triggers s) (dr_camera row)" s] by (simp add: evaluate_def)
  then show ?case using e Cons by (simp add: link_event_def split: sum.split option.split)
qed

lemma numbered_sound:
  assumes "list_all2 (\<lambda>j r. sound_row now s node em (g j) r) js rows"
  shows "list_all2 (\<lambda>j r. sound_row now s node em (g j) r) js (numbered k rows)"
proof -
  have id: "sound_row now s node em rep (r\<lparr>dr_id := i\<rparr>) = sound_row now s node em rep r" for rep r i
    by (cases "dr_zone r") (simp_all add: sound_row_def zone_of_row_def)
  have "numbered k rows ! n = (rows ! n)\<lparr>dr_id := k + int n\<rparr>" if "n < length rows" for n
    using that by (simp add: numbered_def nth_enumerate_eq)
  moreover have "length (numbered k rows) = length rows" by (simp add: numbered_def)
  ultimately show ?thesis using assms by (simp add: list_all2_conv_all_nth id)
qed

lemma ingest_batch_steps:
  assumes "ingest_batch E now node batch em s = (Inr (k, rejected), s')"
  obtains acc s2 where "ingest_loop E now s node em 0 (take MAX_BATCH batch) = Inr (rejected, acc)"
    and "dn_detections s2 = dn_detections s @ numbered (n_next_key (dn_ev s)) acc" and "k = length acc"
    and "\<And>u cam. fired u cam s2 = fired u cam s" and "dn_redis s2 = dn_redis s"
    and "s' = analyse E now (numbered (n_next_key (dn_ev s)) acc) (run_triggers E now (numbered (n_next_key (dn_ev s)) acc) s2)"
proof -
  obtain rj acc where l: "ingest_loop E now s node em 0 (take MAX_BATCH batch) = Inr (rj, acc)"
    using assms by (cases "ingest_loop E now s node em 0 (take MAX_BATCH batch)") (auto simp: ingest_batch_def)
  define rows where "rows = numbered (n_next_key (dn_ev s)) acc"
  define s1 where "s1 = s\<lparr>dn_detections := dn_detections s @ rows, dn_ev := (dn_ev s)\<lparr>n_next_key := n_next_key (dn_ev s) + int (length acc)\<rparr>\<rparr>"
  define s2 where "s2 = s1\<lparr>dn_rows := fold (mark_report now) (cameras_of rows) (dn_rows s1)\<rparr>"
  have "length rows = length acc" by (simp add: rows_def numbered_def)
  then have "ingest_batch E now node batch em s = (Inr (length acc, rj), analyse E now rows (run_triggers E now rows s2))"
    using l unfolding ingest_batch_def bulk_create_def Let_def rows_def [symmetric] by (simp add: rows_def [symmetric] s1_def s2_def)
  then have r: "k = length acc" "rejected = rj" "s' = analyse E now rows (run_triggers E now rows s2)" using assms by simp_all
  show thesis
    by (rule that [of acc s2])
       (use l r in \<open>simp_all add: rows_def s2_def s1_def fired_def\<close>)
qed



section \<open>One bad report\<close>

lemma ingest_loop_bad:
  assumes "rep \<in> set reps" and "\<exists>e. validate_report (dn_rows s) node em rep = Inl e"
  shows "\<exists>e. ingest_loop E now s node em i reps = Inl e"
  using assms
proof (induction reps arbitrary: i)
  case Nil
  then show ?case by simp
next
  case (Cons r reps)
  show ?case
  proof (cases "rep = r")
    case True
    then show ?thesis using Cons.prems(2) by auto
  next
    case False
    then obtain e where "ingest_loop E now s node em (i + 1) reps = Inl e" using Cons.IH [of "i + 1"] Cons.prems by auto
    then show ?thesis by (auto split: sum.split option.split)
  qed
qed

text \<open>C39: One report whose epoch is not a number, for a camera of the reporting node, makes the whole batch fail: nothing of it is stored and
  no report time is written, whatever the other reports are. (The comment in the validation promises that one bad row does not
  abort the batch; it holds for the camera identifier only.)\<close>

theorem bad_epoch_drops_batch:
  assumes "rep \<in> set (take 2000 batch)" and "py_truthy (dget rep ''camera_id'')" and "py_int (dget rep ''camera_id'') = Inr cam"
    and "get_for_camera (dn_rows s) cam = Some a" and "da_node a = node"
    and "reported_epoch em cam rep \<noteq> PNone" and "py_int (reported_epoch em cam rep) = Inl e"
  shows "\<exists>e'. ingest_batch E now node batch em s = (Inl e', s)"
proof -
  have "validate_report (dn_rows s) node em rep = Inl e"
    using assms unfolding validate_report_def reported_epoch_def Let_def by simp
  with ingest_loop_bad [of rep "take MAX_BATCH batch" s node em E now 0] assms(1)
  obtain e' where "ingest_loop E now s node em 0 (take MAX_BATCH batch) = Inl e'" by (auto simp: MAX_BATCH_def)
  then show ?thesis by (simp add: ingest_batch_def)
qed

section \<open>The preview\<close>

text \<open>The preview truncates a fractional confidence before it scales it: triggers with a threshold above zero never match.\<close>

lemma preview_loses_fraction:
  assumes "dget data ''confidence'' = PFloat q" and "0 < q" and "q < 1" and "trigger_test s data = Inr (Some t)"
  shows "tg_min_confidence t \<le> 0"
proof -
  have "\<lfloor>q\<rfloor> = 0" using assms(2,3) by linarith
  then have c: "preview_confidence data = Inr 0" using assms(1-3) by (simp add: preview_confidence_def py_or_def py_int_def trunc_rat_def)
  then obtain cam zone where "find (\<lambda>t. (case dget data ''label'' of PStr l \<Rightarrow> l \<in> set (tg_labels t) | _ \<Rightarrow> False) \<and> tg_min_confidence t \<le> 0
      \<and> (tg_zone t = None \<or> zone = tg_zone t)) (trig_candidates (dn_triggers s) cam) = Some t"
    using assms(4) unfolding trigger_test_def by (cases "preview_zone data") (auto split: sum.splits option.splits)
  then show ?thesis by (auto simp: find_Some_iff)
qed

section \<open>A concrete site\<close>

definition sample_det_camera :: camera where
  "sample_det_camera = \<lparr>cam_id = 7, cam_uuid = ''u'', cam_name = ''door'', cam_enabled = True, cam_deleted = None\<rparr>"

definition sample_det_env :: "mem det_env" where
  "sample_det_env = \<lparr>de_ev = sample_ev_env, de_md5 = (\<lambda>_. ''0123456789abcdef0123456789abcdef''), de_str = (\<lambda>v. case v of PStr t \<Rightarrow> t | _ \<Rightarrow> ''None''),
     de_float = (\<lambda>_. None), de_mclk = 0\<rparr>"

definition sample_object_trigger :: object_trigger where
  "sample_object_trigger = \<lparr>tg_id = 3, tg_camera = None, tg_labels = [''person''], tg_zone = None, tg_min_confidence = 50, tg_min_dwell_ms = 0,
     tg_require_zone_entry = False, tg_min_count = 1, tg_cooldown_s = 30, tg_debounce_per_track = True, tg_event_subtype = None,
     tg_action_hint = None, tg_notify = True, tg_enabled = True, tg_deleted = None\<rparr>"

definition sample_det_zone :: detection_zone where
  "sample_det_zone = \<lparr>dz_id = 5, dz_camera = 7, dz_kind = ''include'', dz_polygon = PList [PList [PInt 0, PInt 0], PList [PInt 1, PInt 0],
     PList [PInt 1, PInt 1]], dz_priority = 0, dz_enabled = True, dz_deleted = None\<rparr>"

text \<open>Camera 7 is assigned to node 9 with epoch 2.\<close>

definition sample_det_state :: "mem det_state" where
  "sample_det_state = \<lparr>dn_ev = (sample_site ''record'')\<lparr>n_cameras := [sample_det_camera]\<rparr>,
     dn_rows = [\<lparr>da_camera = 7, da_node = 9, da_state = STATE_PENDING, da_model = None, da_target_fps = None, da_claimed_at = None,
                 da_last_report_ts = None, da_epoch = 2\<rparr>],
     dn_zones = [sample_det_zone], dn_triggers = [sample_object_trigger], dn_lines = [], dn_stats = [], dn_detections = [],
     dn_flags = \<lparr>fl_rows = [], fl_cache = [], fl_cache_at = 0\<rparr>, dn_smoke_on = [], dn_min_confidence = None\<rparr>"

definition sample_report :: "string \<Rightarrow> pyval \<Rightarrow> pydict" where
  "sample_report key ep = [(''camera_id'', PInt 7), (''ts'', PInt 1000100), (''epoch'', ep), (''label'', PStr ''person''),
     (''class_id'', PInt 0), (''confidence'', PFloat (9 / 10)), (''track_key'', PStr key),
     (''bbox'', PList [PFloat (4 / 10), PFloat (1 / 10), PFloat (8 / 10), PFloat (1 / 2)])]"

text \<open>Two persons, and a report of an old epoch.\<close>

definition sample_batch :: "pydict list" where
  "sample_batch = [sample_report ''aa'' (PInt 2), sample_report ''bb'' (PInt 1), sample_report ''cc'' (PStr ''2'')]"


lemma sample_triggers_up: "triggers_up sample_det_env map_of"
  unfolding triggers_up_def using mem_redis_laws by (simp add: sample_det_env_def sample_ev_env_def mem_redis_def)


theorem bad_epoch_drops_batch_witness:
  "\<exists>e'. ingest_batch sample_det_env 1000000 9 (sample_batch @ [sample_report ''dd'' (PStr ''two'')]) [] sample_det_state = (Inl e', sample_det_state)"
proof (rule bad_epoch_drops_batch [where rep = "sample_report ''dd'' (PStr ''two'')" and cam = 7 and a = "hd (dn_rows sample_det_state)"])
  show "py_int (reported_epoch [] 7 (sample_report ''dd'' (PStr ''two''))) = Inl (ValueError ''two'')" by code_simp
  show "sample_report ''dd'' (PStr ''two'') \<in> set (take 2000 (sample_batch @ [sample_report ''dd'' (PStr ''two'')]))" by (simp add: sample_batch_def)
  show "reported_epoch [] 7 (sample_report ''dd'' (PStr ''two'')) \<noteq> PNone" by (simp add: reported_epoch_def sample_report_def dget_def)
  show "py_truthy (dget (sample_report ''dd'' (PStr ''two'')) ''camera_id'')" by (simp add: sample_report_def dget_def)
  show "py_int (dget (sample_report ''dd'' (PStr ''two'')) ''camera_id'') = Inr 7" by (simp add: sample_report_def dget_def py_int_def)
  show "get_for_camera (dn_rows sample_det_state) 7 = Some (hd (dn_rows sample_det_state))" by (simp add: sample_det_state_def get_for_camera_def)
  show "da_node (hd (dn_rows sample_det_state)) = 9" by (simp add: sample_det_state_def)
qed

end
