(* ===== verification/CountingProps.thy ===== *)
theory CountingProps
  imports DetectionBatch
begin

text \<open>
  A counting line against its specification: the tracks' last sides and two counters. The rows of the statistics and the keys in
  Redis implement it, and its counters say how many tracks changed side.
\<close>

section \<open>The specification\<close>

type_synonym crossing_state = "(int \<Rightarrow> int option) \<times> int \<times> int"

text \<open>A track is seen on a side: a change of side counts in or out.\<close>

definition seen_on :: "int \<times> int \<Rightarrow> crossing_state \<Rightarrow> crossing_state" where
  "seen_on mv c =
     (case (mv, c) of ((track, side), (m, i, n)) \<Rightarrow>
        (case m track of
           None \<Rightarrow> (m(track \<mapsto> side), i, n)
         | Some p \<Rightarrow> if p = side then (m(track \<mapsto> side), i, n)
                     else if side > 0 then (m(track \<mapsto> side), i + 1, n) else (m(track \<mapsto> side), i, n + 1)))"

definition start_side :: "(int \<Rightarrow> int option) \<Rightarrow> (int \<times> int) list \<Rightarrow> int \<Rightarrow> int" where
  "start_side m mvs track = (case m track of Some p \<Rightarrow> p | None \<Rightarrow> (case map_of mvs track of Some sd \<Rightarrow> sd | None \<Rightarrow> 0))"

definition end_side :: "(int \<Rightarrow> int option) \<Rightarrow> int \<Rightarrow> int" where
  "end_side m track = (case m track of Some p \<Rightarrow> p | None \<Rightarrow> 0)"

lemma seen_on_balance:
  assumes "finite T" and "fst ` set mvs \<subseteq> T" and "snd ` set mvs \<subseteq> {1, -1}" and "ran m \<subseteq> {1, -1}"
    and "fold seen_on mvs (m, i, n) = (m', i', n')"
  shows "2 * ((i' - n') - (i - n)) = (\<Sum>track\<in>T. end_side m' track - start_side m mvs track)"
  using assms
proof (induction mvs arbitrary: m i n)
  case Nil
  have "end_side m track - start_side m [] track = 0" for track by (simp add: end_side_def start_side_def split: option.split)
  with Nil show ?case by simp
next
  case (Cons mv mvs)
  obtain track side where mv: "mv = (track, side)" by (rule prod.exhaust)
  define m1 where "m1 = m(track \<mapsto> side)"
  have "fst (seen_on mv (m, i, n)) = m1" by (simp add: seen_on_def mv m1_def split: option.split)
  then obtain i1 n1 where step: "seen_on mv (m, i, n) = (m1, i1, n1)" by (metis prod.collapse)
  have side: "side = 1 \<or> side = - 1" and T: "track \<in> T" using Cons.prems(2,3) by (auto simp: mv)
  have prev: "m track = Some p \<Longrightarrow> p = 1 \<or> p = - 1" for p using Cons.prems(4) ranI [of m track p] by auto
  have delta: "2 * ((i1 - n1) - (i - n)) = side - start_side m (mv # mvs) track"
    using step side prev by (auto simp: seen_on_def mv start_side_def m1_def split: option.splits if_splits)
  have "ran m1 \<subseteq> {1, -1}" using Cons.prems(4) side by (auto simp: m1_def ran_def)
  then have "2 * ((i' - n') - (i1 - n1)) = (\<Sum>u\<in>T. end_side m' u - start_side m1 mvs u)"
    using Cons.IH [of m1 i1 n1] Cons.prems step by auto
  moreover have "start_side m1 mvs u = (if u = track then side else start_side m (mv # mvs) u)" for u
    by (simp add: start_side_def m1_def mv split: option.split)
  then have "(\<Sum>u\<in>T. end_side m' u - start_side m1 mvs u)
      = (\<Sum>u\<in>T. (end_side m' u - start_side m (mv # mvs) u) - (if u = track then side - start_side m (mv # mvs) track else 0))"
    by (intro sum.cong) auto
  also have "\<dots> = (\<Sum>u\<in>T. end_side m' u - start_side m (mv # mvs) u) - (side - start_side m (mv # mvs) track)"
    using Cons.prems(1) T by (simp add: sum_subtractf)
  finally show ?case using delta by simp
qed

section \<open>The implementation\<close>

definition line_total :: "(counting_stat \<Rightarrow> int) \<Rightarrow> db_id \<Rightarrow> 'r det_state \<Rightarrow> int" where
  "line_total f line s = sum_list (map f (filter (\<lambda>c. cs_line c = line) (dn_stats s)))"

definition crossings :: "'r det_env \<Rightarrow> ('r \<Rightarrow> string \<Rightarrow> string option) \<Rightarrow> db_id \<Rightarrow> 'r det_state \<Rightarrow> crossing_state" where
  "crossings E view line s =
     (\<lambda>track. Option.bind (view (dn_redis s) (side_key E line track)) int_of_string, line_total cs_in line s, line_total cs_out line s)"

text \<open>The commands of the counter succeed, and the keys of the line hold numbers.\<close>

definition counter_up :: "'r det_env \<Rightarrow> ('r \<Rightarrow> string \<Rightarrow> string option) \<Rightarrow> bool" where
  "counter_up E view \<longleftrightarrow> redis_laws (det_redis E) view \<and> (\<forall>k r. rd_get (det_redis E) k r \<noteq> None)
     \<and> (\<forall>k v r. rd_setex (det_redis E) k COUNT_TTL v r \<noteq> None)"

definition sides_stored :: "'r det_env \<Rightarrow> ('r \<Rightarrow> string \<Rightarrow> string option) \<Rightarrow> db_id \<Rightarrow> 'r det_state \<Rightarrow> bool" where
  "sides_stored E view line s \<longleftrightarrow>
     (\<forall>track v. view (dn_redis s) (side_key E line track) = Some v \<longrightarrow> int_of_string v = Some 1 \<or> int_of_string v = Some (- 1))"

definition side_of :: "counting_line \<Rightarrow> det_row \<Rightarrow> py_error + int" where
  "side_of line row = line_side (fst (bottom_center (dr_bbox row))) (snd (bottom_center (dr_bbox row))) (cl_geometry line)"

definition move_of :: "counting_line \<Rightarrow> det_row \<Rightarrow> int \<times> int" where
  "move_of line row = (dr_track_id row, case side_of line row of Inr sd \<Rightarrow> sd | Inl _ \<Rightarrow> 0)"

lemma side_of_range: "side_of line row = Inr sd \<Longrightarrow> sd = 1 \<or> sd = - 1"
  by (auto simp: side_of_def line_side_def split: pyval.splits list.splits sum.splits prod.splits if_splits)

lemma record_stat_total:
  assumes "\<And>c. cs_line (f c) = cs_line c" and "\<And>c. g (f c) = g c + d"
    and "g \<lparr>cs_camera = cam, cs_line = line, cs_bucket = b, cs_in = 0, cs_out = 0, cs_occupancy = 0, cs_label = lab\<rparr> = 0"
  shows "sum_list (map g (filter (\<lambda>c. cs_line c = line) (record_stat cam line b lab f cs)))
    = sum_list (map g (filter (\<lambda>c. cs_line c = line) cs)) + (d :: int)"
  by (induction cs) (auto simp: assms is_stat_def)

lemma record_totals:
  "line_total cs_in line (CountingStat_record cam line t din dout None lab s) = line_total cs_in line s + din"
  "line_total cs_out line (CountingStat_record cam line t din dout None lab s) = line_total cs_out line s + dout"
  unfolding line_total_def CountingStat_record_def
  by (simp_all add: record_stat_total [where d = din] record_stat_total [where d = dout] add_stat_def)

lemma side_key_inj: "side_key E line a = side_key E line b \<longleftrightarrow> a = b"
  by (simp add: side_key_def count_key_def str_of_int_eq)

lemma cross_refines:
  assumes "counter_up E view" and "sides_stored E view (cl_id line) s" and "side_of line row = Inr sd"
  shows "\<exists>s'. cross E line row s = (Inr (), s') \<and> sides_stored E view (cl_id line) s'
    \<and> crossings E view (cl_id line) s' = seen_on (dr_track_id row, sd) (crossings E view (cl_id line) s)"
proof -
  let ?k = "side_key E (cl_id line) (dr_track_id row)"
  have laws: "redis_laws (det_redis E) view" using assms(1) by (simp add: counter_up_def)
  obtain x where g: "rd_get (det_redis E) ?k (dn_redis s) = Some x" using assms(1) unfolding counter_up_def by blast
  have x: "x = view (dn_redis s) ?k" by (rule redis_lawsD(1) [OF laws g])
  obtain r where st: "rd_setex (det_redis E) ?k COUNT_TTL (str_of_int sd) (dn_redis s) = Some r" using assms(1) unfolding counter_up_def by blast
  have r: "view r = (view (dn_redis s))(?k \<mapsto> str_of_int sd)" by (rule redis_lawsD(3) [OF laws st])
  define s2 where "s2 = on_redis (\<lambda>_. r) s"
  have red: "dn_redis s2 = r" and tot: "line_total f (cl_id line) s2 = line_total f (cl_id line) s" for f
    by (simp_all add: s2_def on_redis_def line_total_def)
  obtain bx y where bc: "bottom_center (dr_bbox row) = (bx, y)" by (rule prod.exhaust)
  have "line_side bx y (cl_geometry line) = Inr sd" using assms(3) bc by (simp add: side_of_def)
  then have c: "cross E line row s = crossed line row sd x s2"
    using g st bc by (simp add: cross_def Let_def get_key_def set_key_def s2_def)
  have fin: "sides_stored E view (cl_id line) s' \<and>
      fst (crossings E view (cl_id line) s') = (fst (crossings E view (cl_id line) s))(dr_track_id row \<mapsto> sd)"
    if "dn_redis s' = r" for s'
    using that assms(2) side_of_range [OF assms(3)] by (auto simp: sides_stored_def crossings_def r side_key_inj)
  have recd: "dn_redis (CountingStat_record a b t p q n l s2) = r" for a b t p q n l by (simp add: CountingStat_record_def red)
  show ?thesis
  proof (cases x)
    case None
    then have "cross E line row s = (Inr (), s2)" by (simp add: c crossed_def)
    then show ?thesis using fin [OF red] None x by (intro exI [of _ s2]) (simp add: crossings_def seen_on_def tot)
  next
    case (Some v)
    then obtain p where p: "int_of_string v = Some p" using assms(2) x unfolding sides_stored_def by metis
    define s' where "s' = (if p = sd then s2
       else if sd > 0 then CountingStat_record (dr_camera row) (cl_id line) (dr_ts row) 1 0 None (Some (dr_label row)) s2
       else CountingStat_record (dr_camera row) (cl_id line) (dr_ts row) 0 1 None (Some (dr_label row)) s2)"
    have "cross E line row s = (Inr (), s')" by (simp add: c crossed_def Some p s'_def)
    moreover have "dn_redis s' = r" by (simp add: s'_def red recd)
    then have "sides_stored E view (cl_id line) s'"
      "fst (crossings E view (cl_id line) s') = (fst (crossings E view (cl_id line) s))(dr_track_id row \<mapsto> sd)" using fin by blast+
    moreover have "snd (crossings E view (cl_id line) s')
        = snd (seen_on (dr_track_id row, sd) (crossings E view (cl_id line) s))"
      using x [symmetric] Some p by (simp add: crossings_def seen_on_def s'_def record_totals tot)
    moreover have "fst (seen_on (dr_track_id row, sd) (crossings E view (cl_id line) s))
        = (fst (crossings E view (cl_id line) s))(dr_track_id row \<mapsto> sd)"
      by (simp add: crossings_def seen_on_def split: option.split)
    ultimately show ?thesis by (intro exI [of _ s']) (simp add: prod_eq_iff)
  qed
qed

lemma count_rows_refine:
  assumes "counter_up E view" and "sides_stored E view (cl_id line) s" and "cl_kind line = KIND_LINE"
    and "\<And>row. row \<in> set rows \<Longrightarrow> wants line row \<Longrightarrow> \<exists>sd. side_of line row = Inr sd"
  shows "\<exists>s'. count_rows E now True lon line rows members s = (Inr members, s') \<and> sides_stored E view (cl_id line) s'
    \<and> crossings E view (cl_id line) s' = fold seen_on (map (move_of line) (filter (wants line) rows)) (crossings E view (cl_id line) s)"
  using assms
proof (induction rows arbitrary: s)
  case Nil
  then show ?case by simp
next
  case (Cons row rows)
  show ?case
  proof (cases "wants line row")
    case False
    then show ?thesis using Cons.IH [OF Cons.prems(1-3)] Cons.prems by (simp add: count_row_def)
  next
    case True
    then obtain sd where sd: "side_of line row = Inr sd" using Cons.prems by auto
    from cross_refines [OF Cons.prems(1,2) sd] obtain s1 where s1: "cross E line row s = (Inr (), s1)"
      "sides_stored E view (cl_id line) s1"
      "crossings E view (cl_id line) s1 = seen_on (dr_track_id row, sd) (crossings E view (cl_id line) s)" by blast
    have "count_row E now True lon line row members s = (Inr members, s1)"
      using True Cons.prems(3) s1(1) by (simp add: count_row_def)
    moreover have "move_of line row = (dr_track_id row, sd)" by (simp add: move_of_def sd)
    ultimately show ?thesis using Cons.IH [OF Cons.prems(1) s1(2) Cons.prems(3)] Cons.prems(4) True s1(3) by simp
  qed
qed

text \<open>C35: A counting line implements its specification: with Redis up and a well-formed line, processing the rows of a camera succeeds, and
  the last sides in Redis and the totals of the line's statistics (over all minutes and labels) change as the specification's counters
  do for the rows' tracks in order, those of filtered classes left out.\<close>

theorem line_counts_refine:
  assumes "counter_up E view" and "sides_stored E view (cl_id line) s" and "cl_kind line = KIND_LINE"
    and "\<And>row. row \<in> set rows \<Longrightarrow> wants line row \<Longrightarrow> \<exists>sd. side_of line row = Inr sd"
  shows "\<exists>s'. process_line E now cam True lon line rows s = (Inr (), s') \<and> sides_stored E view (cl_id line) s'
    \<and> crossings E view (cl_id line) s' = fold seen_on (map (move_of line) (filter (wants line) rows)) (crossings E view (cl_id line) s)"
proof -
  from count_rows_refine [OF assms, where now = now and lon = lon and members = "[]"] obtain s' where
    c: "count_rows E now True lon line rows [] s = (Inr [], s')" and ok: "sides_stored E view (cl_id line) s'"
      "crossings E view (cl_id line) s' = fold seen_on (map (move_of line) (filter (wants line) rows)) (crossings E view (cl_id line) s)"
    by blast
  have "process_line E now cam True lon line rows s = (Inr (), s')" by (simp add: process_line_def c split: list.split)
  with ok show ?thesis by blast
qed

text \<open>The counts of a line balance: twice the growth of entries minus exits is the sum, over the tracks of the batch, of the side a track
  ends on minus the side it was first known on. So tracks that end where they started leave entries and exits growing alike.\<close>

theorem line_counts_balance:
  assumes "counter_up E view" and "sides_stored E view (cl_id line) s" and "cl_kind line = KIND_LINE"
    and "\<And>row. row \<in> set rows \<Longrightarrow> wants line row \<Longrightarrow> \<exists>sd. side_of line row = Inr sd"
    and "process_line E now cam True lon line rows s = (r, s')"
  shows "2 * ((line_total cs_in (cl_id line) s' - line_total cs_out (cl_id line) s')
            - (line_total cs_in (cl_id line) s - line_total cs_out (cl_id line) s))
    = (\<Sum>track \<in> dr_track_id ` set (filter (wants line) rows).
         end_side (fst (crossings E view (cl_id line) s')) track
         - start_side (fst (crossings E view (cl_id line) s)) (map (move_of line) (filter (wants line) rows)) track)"
proof -
  let ?mvs = "map (move_of line) (filter (wants line) rows)"
  from count_rows_refine [OF assms(1-4), where now = now and lon = lon and members = "[]"] obtain s1 where
    c: "count_rows E now True lon line rows [] s = (Inr [], s1)"
    and ok: "crossings E view (cl_id line) s1 = fold seen_on ?mvs (crossings E view (cl_id line) s)" by blast
  have s': "s' = s1" using assms(5) by (simp add: process_line_def c split: list.splits)
  have "snd ` set ?mvs \<subseteq> {1, - 1}" using assms(4) side_of_range by (fastforce simp: move_of_def split: sum.splits)
  moreover have "ran (fst (crossings E view (cl_id line) s)) \<subseteq> {1, - 1}"
    using assms(2) by (fastforce simp: crossings_def ran_def sides_stored_def bind_eq_Some_conv)
  moreover have "fst ` set ?mvs \<subseteq> dr_track_id ` set (filter (wants line) rows)" by (auto simp: move_of_def)
  moreover have "crossings E view (cl_id line) x
      = (fst (crossings E view (cl_id line) x), line_total cs_in (cl_id line) x, line_total cs_out (cl_id line) x)" for x
    by (simp add: crossings_def)
  then have "fold seen_on ?mvs (fst (crossings E view (cl_id line) s), line_total cs_in (cl_id line) s, line_total cs_out (cl_id line) s)
      = (fst (crossings E view (cl_id line) s'), line_total cs_in (cl_id line) s', line_total cs_out (cl_id line) s')"
    using ok s' by metis
  ultimately show ?thesis by (intro seen_on_balance) simp_all
qed

section \<open>A concrete line\<close>

definition sample_line :: counting_line where
  "sample_line = \<lparr>cl_id = 4, cl_camera = 7, cl_kind = ''line'', cl_geometry = PList [PList [PInt 0, PFloat (1 / 2)], PList [PInt 1, PFloat (1 / 2)]],
     cl_class_filter = None, cl_loiter_threshold_s = None, cl_occupancy_threshold = None, cl_enabled = True, cl_deleted = None\<rparr>"

definition sample_seen :: "int \<Rightarrow> rat \<Rightarrow> det_row" where
  "sample_seen track y = \<lparr>dr_id = 0, dr_camera = 7, dr_ts = 1000000, dr_class_id = PInt 0, dr_label = ''person'', dr_confidence = 90, dr_track_id = track,
     dr_track_key = ''aa'', dr_bbox = (0, 0, 1, y), dr_frame_w = PNone, dr_frame_h = PNone, dr_zone = None, dr_segment = None, dr_event = None,
     dr_attrs = PNone, dr_node = 9\<rparr>"

text \<open>Track 1 crosses and comes back, track 2 crosses.\<close>

definition sample_walk :: "det_row list" where
  "sample_walk = [sample_seen 1 (1 / 4), sample_seen 2 (1 / 4), sample_seen 1 (3 / 4), sample_seen 2 (3 / 4), sample_seen 1 (1 / 4)]"

lemma sample_counter_up: "counter_up sample_det_env map_of"
  unfolding counter_up_def using mem_redis_laws by (simp add: sample_det_env_def sample_ev_env_def mem_redis_def COUNT_TTL_def)

lemma sample_sides: "sides_stored sample_det_env map_of (cl_id sample_line) sample_det_state"
  by (simp add: sides_stored_def sample_det_state_def sample_site_def)

lemma sample_walk_sides:
  assumes "row \<in> set sample_walk"
  shows "\<exists>sd. side_of sample_line row = Inr sd"
  by (simp add: side_of_def line_side_def pair_of_def sample_line_def py_number_def)

theorem line_counts_refine_witness:
  "\<exists>s'. process_line sample_det_env 1000000 7 True False sample_line sample_walk sample_det_state = (Inr (), s')
     \<and> crossings sample_det_env map_of 4 s' = ([1 \<mapsto> - 1, 2 \<mapsto> 1], 2, 1)"
proof -
  have k: "cl_kind sample_line = KIND_LINE" "cl_id sample_line = 4" by (simp_all add: sample_line_def KIND_LINE_def)
  have m: "map (move_of sample_line) (filter (wants sample_line) sample_walk) = [(1, - 1), (2, - 1), (1, 1), (2, 1), (1, - 1)]" by code_simp
  have z: "crossings sample_det_env map_of 4 sample_det_state = (Map.empty, 0, 0)"
    by (simp add: crossings_def line_total_def sample_det_state_def sample_site_def fun_eq_iff)
  from line_counts_refine [OF sample_counter_up sample_sides k(1) sample_walk_sides, of sample_walk 1000000 7 False]
  obtain s' where "process_line sample_det_env 1000000 7 True False sample_line sample_walk sample_det_state = (Inr (), s')"
    "crossings sample_det_env map_of 4 s' = fold seen_on [(1, - 1), (2, - 1), (1, 1), (2, 1), (1, - 1)] (Map.empty, 0, 0)"
    unfolding k(2) m z by blast
  moreover have "fold seen_on [(1, - 1), (2, - 1), (1, 1), (2, 1), (1, - 1)] (Map.empty, 0, 0) = ([1 \<mapsto> - 1, 2 \<mapsto> 1], 2, 1)"
    by (simp add: seen_on_def fun_eq_iff)
  ultimately show ?thesis by auto
qed

theorem line_counts_balance_witness:
  "let s' = snd (process_line sample_det_env 1000000 7 True False sample_line sample_walk sample_det_state)
   in line_total cs_in 4 s' - line_total cs_out 4 s' = 1"
proof -
  define s' where "s' = snd (process_line sample_det_env 1000000 7 True False sample_line sample_walk sample_det_state)"
  have k: "cl_kind sample_line = KIND_LINE" "cl_id sample_line = 4" by (simp_all add: sample_line_def KIND_LINE_def)
  have p: "process_line sample_det_env 1000000 7 True False sample_line sample_walk sample_det_state
      = (fst (process_line sample_det_env 1000000 7 True False sample_line sample_walk sample_det_state), s')" by (simp add: s'_def)
  have z: "line_total f 4 sample_det_state = 0" for f by (simp add: line_total_def sample_det_state_def)
  have sum: "(\<Sum>track \<in> dr_track_id ` set (filter (wants sample_line) sample_walk).
         end_side (fst (crossings sample_det_env map_of 4 s')) track
         - start_side (fst (crossings sample_det_env map_of 4 sample_det_state)) (map (move_of sample_line) (filter (wants sample_line) sample_walk)) track) = 2"
    unfolding s'_def by code_simp
  from line_counts_balance [OF sample_counter_up sample_sides k(1) sample_walk_sides p, unfolded k(2) z sum]
  show ?thesis unfolding Let_def s'_def [symmetric] by simp
qed

end
