(* ===== verification/DetectorProps.thy ===== *)
theory DetectorProps
  imports Detector CountingProps
begin

text \<open>
  The detector worker and the server together: what the worker reports is what the server stores, a batch of the agent
  fits the server's limit, and the agent accounts for its pipelines.
\<close>

section \<open>Reports of the worker\<close>

text \<open>The identifiers' digest is hexadecimal; \<open>str()\<close> of a string is the string.\<close>

definition hex_text :: "string \<Rightarrow> bool" where
  "hex_text v \<longleftrightarrow> v \<noteq> [] \<and> (\<forall>c \<in> set v. hex_digit c \<noteq> None)"

definition in_frame :: "int \<Rightarrow> int \<Rightarrow> bbox \<Rightarrow> bool" where
  "in_frame w h b = (case b of (x1, y1, x2, y2) \<Rightarrow>
     0 < w \<and> 0 < h \<and> list_all (\<lambda>x. 0 \<le> x \<and> x \<le> of_int w) [x1, x2] \<and> list_all (\<lambda>y. 0 \<le> y \<and> y \<le> of_int h) [y1, y2])"

type_synonym observation = "pipeline \<times> int \<times> int \<times> int \<times> tracked_object"

text \<open>An observation of a camera of the node, with a class of the table, inside the frame and at most a minute old.\<close>

definition deliverable :: "ts \<Rightarrow> 'r det_state \<Rightarrow> db_id \<Rightarrow> observation \<Rightarrow> bool" where
  "deliverable now s node ob =
     (case ob of (p, ms, w, h, t) \<Rightarrow>
        pl_camera p \<noteq> 0 \<and> (\<exists>a. get_for_camera (dn_rows s) (pl_camera p) = Some a \<and> da_node a = node \<and> pl_epoch p = PInt (da_epoch a))
      \<and> map_of ALL_LABELS (to_class_id t) = Some (to_label t) \<and> 0 \<le> to_confidence t \<and> to_confidence t \<le> 1
      \<and> ms \<noteq> 0 \<and> \<bar>ms - now\<bar> \<le> 60000 \<and> in_frame w h (to_bbox t) \<and> hex_text (to_track_key t) \<and> length (to_track_key t) \<le> 32)"

definition zones_readable :: "detection_zone list \<Rightarrow> bool" where
  "zones_readable zs \<longleftrightarrow> (\<forall>z \<in> set zs. (\<forall>x y. \<exists>b. in_polygon x y (dz_polygon z) = Inr b) \<and> (\<exists>a. poly_area (dz_polygon z) = Inr a))"

definition close_to :: "rat \<Rightarrow> rat \<Rightarrow> bool" where
  "close_to x y \<longleftrightarrow> \<bar>x - y\<bar> \<le> 1 / 200000"

text \<open>The row says what was observed: the box up to the rounding to five digits.\<close>

definition row_of :: "observation \<Rightarrow> det_row \<Rightarrow> bool" where
  "row_of ob r =
     (case ob of (p, ms, w, h, t) \<Rightarrow>
      case (to_bbox t, dr_bbox r) of ((x1, y1, x2, y2), (a, b, c, d)) \<Rightarrow>
        dr_camera r = pl_camera p \<and> dr_ts r = ms \<and> dr_label r = to_label t \<and> dr_track_key r = to_track_key t
      \<and> dr_confidence r = round_even (to_confidence t * 100)
      \<and> close_to a (x1 / of_int w) \<and> close_to b (y1 / of_int h) \<and> close_to c (x2 / of_int w) \<and> close_to d (y2 / of_int h))"

lemma round_even_near: "\<bar>of_int (round_even q) - q\<bar> \<le> 1 / 2"
proof -
  have "of_int \<lfloor>q\<rfloor> \<le> q" "q < of_int \<lfloor>q\<rfloor> + 1" by linarith+
  then show ?thesis unfolding round_even_def Let_def by (auto simp: abs_le_iff split: if_splits)
qed

lemma round5_close: "close_to (round5 q) q"
proof -
  have "of_int (round_even (q * 10 ^ 5)) - q * 10 ^ 5 = (round5 q - q) * 10 ^ 5" by (simp add: round5_def left_diff_distrib)
  then have "\<bar>(round5 q - q) * 10 ^ 5\<bar> \<le> 1 / 2" using round_even_near [of "q * 10 ^ 5"] by (simp only:)
  then have "\<bar>round5 q - q\<bar> * 10 ^ 5 \<le> 1 / 2" unfolding abs_mult by simp
  then show ?thesis by (simp add: close_to_def)
qed

lemma hex_value_ok: "\<forall>c \<in> set v. hex_digit c \<noteq> None \<Longrightarrow> prev \<or> v \<noteq> [] \<Longrightarrow> \<exists>i. hex_value v prev acc = Some i"
proof (induction v arbitrary: prev acc)
  case Nil
  then show ?case by simp
next
  case (Cons c v)
  then obtain d where "hex_digit c = Some d" by auto
  then show ?case using Cons.IH [of True "16 * acc + d"] Cons.prems by simp
qed

lemma hex_char: "hex_digit c \<noteq> None \<Longrightarrow> \<not> is_space c \<and> c \<noteq> CHR ''-'' \<and> c \<noteq> CHR ''+'' \<and> c \<noteq> CHR ''x'' \<and> c \<noteq> CHR ''X''"
  by (auto simp: hex_digit_def is_space_def Let_def)

lemma int16_hex:
  assumes "hex_text v"
  shows "\<exists>i. int16 v = Some i"
proof -
  obtain c cs where v: "v = c # cs" using assms by (cases v) (auto simp: hex_text_def)
  have all: "\<forall>c \<in> set v. hex_digit c \<noteq> None" using assms by (simp add: hex_text_def)
  have strip: "py_strip v = v" using hex_char all by (intro py_strip_id) blast
  have c: "c \<noteq> CHR ''-''" "c \<noteq> CHR ''+''" using hex_char [of c] all v by auto
  have "take 2 v \<noteq> ''0x'' \<and> take 2 v \<noteq> ''0X''"
  proof (cases cs)
    case (Cons d ds)
    then show ?thesis using hex_char [of d] all v by auto
  qed (simp add: v)
  then have b: "hex_body v = hex_value v False 0" by (simp add: hex_body_def)
  have "(case c # cs of CHR ''-'' # ds \<Rightarrow> f ds | CHR ''+'' # ds \<Rightarrow> g ds | ds \<Rightarrow> k ds) = k (c # cs)" for f g k :: "string \<Rightarrow> int option"
    using c by (simp split: char.split bool.split)
  then have "int16 v = hex_body v" unfolding int16_def strip unfolding v .
  then show ?thesis using b hex_value_ok [OF all, of False 0] v by simp
qed

lemma mapE_total: "(\<And>x. x \<in> set xs \<Longrightarrow> \<exists>y. f x = Inr y) \<Longrightarrow> \<exists>ys. mapE f xs = Inr ys"
proof (induction xs)
  case Nil
  then show ?case by simp
next
  case (Cons x xs)
  then obtain y ys where "f x = Inr y" "mapE f xs = Inr ys" by (meson list.set_intros)
  then show ?case by simp
qed

lemma attribute_zone_total:
  assumes "zones_readable zs"
  shows "\<exists>z. attribute_zone zs cam b = Inr z"
proof -
  obtain x y where xy: "bottom_center b = (x, y)" by (rule prod.exhaust)
  define inc where "inc = filter (\<lambda>z. dz_kind z = ''include'') (zones_for_camera zs cam)"
  have "set inc \<subseteq> set zs" by (auto simp: inc_def zones_for_camera_def)
  then have "\<exists>bs. mapE (\<lambda>z. in_polygon x y (dz_polygon z)) inc = Inr bs"
    using assms unfolding zones_readable_def by (intro mapE_total) blast
  then obtain hits where hits: "zone_hits x y inc = Inr hits" by (auto simp: zone_hits_def)
  have "set hits \<subseteq> set zs" using zone_hits_set [OF hits] \<open>set inc \<subseteq> set zs\<close> by blast
  then have "\<exists>as. mapE (\<lambda>z. poly_area (dz_polygon z)) hits = Inr as"
    using assms unfolding zones_readable_def by (intro mapE_total) blast
  then show ?thesis using hits unfolding attribute_zone_def xy inc_def [symmetric] best_zone_def by auto
qed

lemma report_delivered:
  assumes "deliverable now s node (p, ms, w, h, t)" and "report_of p ms w h t = Inr rep"
    and "zones_readable (dn_zones s)" and "\<And>v. de_str E (PStr v) = v"
  shows "validate_report (dn_rows s) node em rep = Inr None
    \<and> (\<exists>r. build_row E now s node rep = Inr (Some r) \<and> row_of (p, ms, w, h, t) r)"
proof -
  obtain x1 y1 x2 y2 where bb: "to_bbox t = (x1, y1, x2, y2)" by (metis prod.exhaust)
  obtain a where a: "get_for_camera (dn_rows s) (pl_camera p) = Some a" "da_node a = node" "pl_epoch p = PInt (da_epoch a)"
    using assms(1) by (auto simp: deliverable_def)
  have d: "pl_camera p \<noteq> 0" "map_of ALL_LABELS (to_class_id t) = Some (to_label t)" "0 \<le> to_confidence t" "to_confidence t \<le> 1"
    "ms \<noteq> 0" "\<bar>ms - now\<bar> \<le> 60000" "0 < w" "0 < h" "hex_text (to_track_key t)" "length (to_track_key t) \<le> 32"
    using assms(1) bb by (auto simp: deliverable_def in_frame_def)
  have unit: "0 \<le> x1 / of_int w" "x1 / of_int w \<le> 1" "0 \<le> y1 / of_int h" "y1 / of_int h \<le> 1"
    "0 \<le> x2 / of_int w" "x2 / of_int w \<le> 1" "0 \<le> y2 / of_int h" "y2 / of_int h \<le> 1"
    using assms(1) bb by (auto simp: deliverable_def in_frame_def)
  have rep: "dget rep ''camera_id'' = PInt (pl_camera p)" "dget rep ''ts'' = PInt ms" "dget rep ''epoch'' = PInt (da_epoch a)"
    "dget rep ''label'' = PStr (to_label t)" "dget rep ''class_id'' = PInt (to_class_id t)"
    "dget_or rep ''confidence'' (PInt 0) = PFloat (to_confidence t)" "dget rep ''track_key'' = PStr (to_track_key t)"
    "dget rep ''bbox'' = PList [PFloat (x1 / of_int w), PFloat (y1 / of_int h), PFloat (x2 / of_int w), PFloat (y2 / of_int h)]"
    using assms(2) d(7,8) bb a(3) by (auto simp: report_of_def dget_def dget_or_def)
  have v: "validate_report (dn_rows s) node em rep = Inr None"
    using a d(1) by (simp add: validate_report_def rep py_int_def)
  have n: "normalize_label (dget rep ''class_id'') (dget rep ''label'') = Inr (Some (PInt (to_class_id t), to_label t))"
    using d(2) by (simp add: normalize_label_def rep unhashable_def class_key_def py_number_def)
  have ts: "report_ts now (dget rep ''ts'') = Inr ms"
    using d(5,6) by (simp add: report_ts_def rep py_int_def CLAMP_SECONDS_def)
  have "hex_text (take 15 (to_track_key t))" using d(9) by (auto simp: hex_text_def dest: in_set_takeD)
  then obtain i where "int16 (take 15 (to_track_key t)) = Some i" using int16_hex by blast
  then have k: "track_ids E rep node (pl_camera p) = Inr (to_track_key t, i)"
    using d(9,10) by (simp add: track_ids_def rep hex_text_def assms(4) Let_def)
  define b where "b = bbox_of E (dget rep ''bbox'')"
  have cl: "clamp01 E (PFloat q) = q" if "0 \<le> q" "q \<le> 1" for q
    using that by (simp add: clamp01_def float_of_def py_number_def)
  have b: "b = (round5 (x1 / of_int w), round5 (y1 / of_int h), round5 (x2 / of_int w), round5 (y2 / of_int h))"
    unfolding b_def bbox_of_def rep by (simp add: cl unit)
  have cf: "conf_int E (PFloat (to_confidence t)) = round_even (to_confidence t * 100)"
    using d(3,4) round_even_ge [of 0 "to_confidence t * 100"] round_even_le [of "to_confidence t * 100" 100]
    by (simp add: conf_int_def float_of_def py_number_def)
  obtain z where z: "attribute_zone (dn_zones s) (pl_camera p) b = Inr z" using attribute_zone_total [OF assms(3)] by blast
  obtain r where r: "build_row E now s node rep = Inr (Some r)" "dr_camera r = pl_camera p" "dr_ts r = ms" "dr_label r = to_label t"
    "dr_track_key r = to_track_key t" "dr_confidence r = round_even (to_confidence t * 100)" "dr_bbox r = b"
    using n ts k z unfolding build_row_def by (simp add: rep(1) py_int_def b_def [symmetric] rep(6) cf)
  have "row_of (p, ms, w, h, t) r" unfolding row_of_def using r b bb round5_close by simp
  with v r(1) show ?thesis by blast
qed

section \<open>A batch of the worker\<close>

lemma ingest_loop_delivered:
  assumes "list_all2 (\<lambda>ob rep. deliverable now s node ob \<and> (case ob of (p, ms, w, h, t) \<Rightarrow> report_of p ms w h t = Inr rep)) obs reps"
    and "zones_readable (dn_zones s)" and "\<And>v. de_str E (PStr v) = v"
  shows "\<exists>rows. ingest_loop E now s node em i reps = Inr ([], rows) \<and> list_all2 row_of obs rows"
  using assms(1)
proof (induction obs reps arbitrary: i rule: list_all2_induct)
  case Nil
  then show ?case by simp
next
  case (Cons ob obs rep reps)
  obtain p ms w h t where ob: "ob = (p, ms, w, h, t)" by (metis prod.exhaust)
  have "deliverable now s node (p, ms, w, h, t)" "report_of p ms w h t = Inr rep" using Cons.hyps(1) by (simp_all add: ob)
  from report_delivered [OF this assms(2,3), where em = em] obtain r where "validate_report (dn_rows s) node em rep = Inr None"
    "build_row E now s node rep = Inr (Some r)" "row_of ob r" by (auto simp: ob)
  moreover obtain rows where "ingest_loop E now s node em (i + 1) reps = Inr ([], rows)" "list_all2 row_of obs rows"
    using Cons.IH [of "i + 1"] by blast
  ultimately show ?case by simp
qed


section \<open>The agent's batches\<close>

lemma take_batch_spec:
  assumes "take_batch batch q = (out, rest)"
  shows "batch @ concat q = out @ concat rest
    \<and> (\<forall>k. (\<forall>rs \<in> set q. length rs \<le> k) \<longrightarrow> length out < max (length batch + 1) (1000 + k))
    \<and> (rest \<noteq> [] \<longrightarrow> 1000 \<le> length out)"
  using assms
proof (induction batch q rule: take_batch.induct)
  case (1 batch)
  then show ?case by auto
next
  case (2 batch rs q)
  show ?case
  proof (cases "length batch < 1000")
    case True
    then have "take_batch (batch @ rs) q = (out, rest)" using 2(2) by simp
    from 2(1) [OF True this] have ih: "(batch @ rs) @ concat q = out @ concat rest"
      "\<And>k. (\<forall>rs \<in> set q. length rs \<le> k) \<Longrightarrow> length out < max (length (batch @ rs) + 1) (1000 + k)"
      "rest \<noteq> [] \<longrightarrow> 1000 \<le> length out" by simp_all
    have "length out < max (length batch + 1) (1000 + k)" if "\<forall>x \<in> set (rs # q). length x \<le> k" for k
      using ih(2) [of k] that True by auto
    then show ?thesis using ih by auto
  next
    case False
    then show ?thesis using 2(2) by auto
  qed
qed

text \<open>A flush of the detector agent takes the reports in the order they were queued and neither drops nor repeats one; with frames of at
  most a thousand reports its batch stays below the 2000 reports the server reads of a batch, and what it leaves in the queue is left only when the
  batch holds a thousand.\<close>

theorem flush_fits_server:
  assumes "\<And>rs. rs \<in> set (da_queue a) \<Longrightarrow> length rs \<le> 1000"
  shows "\<exists>batch. concat (da_queue a) = batch @ concat (da_queue (flush_reports True a))
    \<and> concat (da_posted (flush_reports True a)) = concat (da_posted a) @ batch
    \<and> length batch < MAX_BATCH \<and> (da_queue (flush_reports True a) \<noteq> [] \<longrightarrow> 1000 \<le> length batch)"
proof -
  obtain out rest where t: "take_batch [] (da_queue a) = (out, rest)" by (rule prod.exhaust)
  note sp = take_batch_spec [OF t]
  have "length out < 2000" using sp assms by (auto dest!: spec [of _ 1000])
  then show ?thesis using sp t by (intro exI [of _ out]) (auto simp: flush_reports_def MAX_BATCH_def)
qed

section \<open>Entry triggers\<close>

text \<open>C40: A trigger that requires the entry into a zone never fires on what the worker reports: a report carries only the dwell time, and the row
  built from it never matches. (The worker has no notion of zone entry, which the engine looks up in the attributes.)\<close>

theorem entry_trigger_never_fires:
  assumes "report_of p ms w h t = Inr rep" and "build_row E now s node rep = Inr (Some r)" and "tg_require_zone_entry tg"
  shows "trigger_matches E' s' r tg = Inr False"
proof -
  have attrs: "dget rep ''attrs'' = PDict [(''dwell_ms'', PInt (dwell_ms t))]"
    using assms(1) by (auto simp: report_of_def dget_def split: if_splits prod.splits)
  have "dr_attrs r = dget rep ''attrs''"
    using assms(2) by (auto simp: build_row_def Let_def split: sum.splits option.splits prod.splits)
  then have "no_entry r tg = Inr True" using assms(3) attrs by (simp add: no_entry_def attr_get_def py_or_def dget_or_def)
  then show ?thesis by (simp add: trigger_matches_def)
qed

section \<open>The agent's pipelines\<close>

definition started_of :: "pipeline_call list \<Rightarrow> db_id multiset" where
  "started_of calls = mset (List.map_filter (\<lambda>k. case k of PipelineStarted c \<Rightarrow> Some c | _ \<Rightarrow> None) calls)"

definition stopped_of :: "pipeline_call list \<Rightarrow> db_id multiset" where
  "stopped_of calls = mset (List.map_filter (\<lambda>k. case k of PipelineStopped c \<Rightarrow> Some c | _ \<Rightarrow> None) calls)"

lemma pipeline_call_simps [simp]:
  "started_of [] = {#}" "started_of (xs @ ys) = started_of xs + started_of ys"
  "started_of (PipelineStarted c # xs) = add_mset c (started_of xs)" "started_of (PipelineStopped c # xs) = started_of xs"
  "stopped_of [] = {#}" "stopped_of (xs @ ys) = stopped_of xs + stopped_of ys"
  "stopped_of (PipelineStopped c # xs) = add_mset c (stopped_of xs)" "stopped_of (PipelineStarted c # xs) = stopped_of xs"
  by (simp_all add: started_of_def stopped_of_def List.map_filter_def)

lemma CameraPipeline_fields: "CameraPipeline session d = Inr p \<Longrightarrow> pl_spec p = d \<and> pl_camera p = job_camera d"
  by (auto simp: CameraPipeline_def split: option.splits pyval.splits prod.splits bool.splits)

lemma det_make_fields: "det_make session d = Inr p \<Longrightarrow> pl_spec p = d \<and> pl_camera p = job_camera d \<and> pl_running p"
  using CameraPipeline_fields by (cases "CameraPipeline session d") (auto simp: det_make_def)

interpretation detector_pipelines: accounted_jobs
  "det_make session" pl_spec "\<lambda>p. [PipelineStarted (pl_camera p)]" "\<lambda>p. [PipelineStopped (pl_camera p)]"
  "\<lambda>p. {#pl_camera p#}" started_of stopped_of for session
  by unfold_locales (simp_all add: det_make_fields)

text \<open>The states of the agent: joining, rounds with any answers, reports of the pipelines, and their frames.\<close>

inductive detector_reachable :: "string \<Rightarrow> detector_agent \<Rightarrow> bool" for session where
  d_boot: "detector_reachable session \<lparr>da_agent = new_agent token, da_session = session, da_queue = [], da_posted = [], da_last_report = 0\<rparr>"
| d_joined: "detector_reachable session d
    \<Longrightarrow> detector_reachable session (d\<lparr>da_agent := snd (agent_join join_token answer (da_agent d))\<rparr>)"
| d_round: "detector_reachable session d \<Longrightarrow> det_pass interval now hb reply delivered d = (r, d') \<Longrightarrow> detector_reachable session d'"
| d_frame: "detector_reachable session d \<Longrightarrow> map_of (ag_jobs (da_agent d)) c = Some p
    \<Longrightarrow> process_frame md5 frame_id ms w h ds p = (r, p')
    \<Longrightarrow> detector_reachable session
          (d\<lparr>da_agent := (da_agent d)\<lparr>ag_jobs := AList.update c p' (ag_jobs (da_agent d))\<rparr>,
             da_queue := (case r of Inr (rep # reps) \<Rightarrow> da_queue d @ [rep # reps] | _ \<Rightarrow> da_queue d)\<rparr>)"

definition detector_ok :: "detector_agent \<Rightarrow> bool" where
  "detector_ok d \<longleftrightarrow> distinct (map fst (ag_jobs (da_agent d)))
     \<and> started_of (ag_calls (da_agent d)) = held (\<lambda>p. {#pl_camera p#}) (ag_jobs (da_agent d)) + stopped_of (ag_calls (da_agent d))"

lemma process_frame_camera: "process_frame md5 frame_id ms w h ds p = (r, p') \<Longrightarrow> pl_camera p' = pl_camera p"
  by (auto simp: process_frame_def Let_def split: if_splits sum.splits prod.splits option.splits)

lemma det_apply_specs_ok:
  assumes "detector_ok d" and "det_apply_specs session specs (da_agent d) = (r, a)"
  shows "detector_ok (d\<lparr>da_agent := a\<rparr>)"
  using detector_pipelines.apply_jobs_balanced [of "da_agent d" session specs r a] assms
  by (simp add: detector_ok_def det_apply_specs_def)

lemma detector_ok_cong:
  "ag_jobs (da_agent d) = ag_jobs (da_agent d') \<Longrightarrow> ag_calls (da_agent d) = ag_calls (da_agent d') \<Longrightarrow> detector_ok d = detector_ok d'"
  by (simp add: detector_ok_def)

lemma flush_agent [simp]: "da_agent (flush_reports delivered d) = da_agent d"
  by (simp add: flush_reports_def split: prod.split)

lemma det_pass_ok:
  assumes "detector_ok d" and "det_pass interval now hb reply delivered d = (r, d')"
  shows "detector_ok d'"
proof -
  define a0 where "a0 = (if now - ag_last_hb (da_agent d) \<ge> interval then (note_etag hb (da_agent d))\<lparr>ag_last_hb := now\<rparr> else da_agent d)"
  obtain specs a1 where poll: "poll_assignments reply a0 = (specs, a1)" by (rule prod.exhaust)
  have same: "ag_jobs a1 = ag_jobs (da_agent d)" "ag_calls a1 = ag_calls (da_agent d)"
    using poll_fields [OF poll] by (simp_all add: a0_def)
  then have ok1: "detector_ok (d\<lparr>da_agent := a1\<rparr>)" using assms(1) detector_ok_cong [of d "d\<lparr>da_agent := a1\<rparr>"] by simp
  obtain q a2 where app: "(case specs of None \<Rightarrow> (Inr (), a1) | Some ds \<Rightarrow> det_apply_specs (da_session d) ds a1) = (q, a2)" by (rule prod.exhaust)
  have ok2: "detector_ok (d\<lparr>da_agent := a2\<rparr>)"
  proof (cases specs)
    case None
    then show ?thesis using app ok1 by simp
  next
    case (Some ds)
    then show ?thesis using det_apply_specs_ok [OF ok1, of "da_session d" ds q a2] app by simp
  qed
  have "da_agent d' = a2"
    using assms(2) app unfolding det_pass_def Let_def a0_def [symmetric] poll by (auto split: sum.splits if_splits)
  then show ?thesis using ok2 detector_ok_cong [of d' "d\<lparr>da_agent := a2\<rparr>"] by simp
qed

lemma held_same:
  assumes "map_of jobs c = Some x" and "f y = f x"
  shows "held f (AList.update c y jobs) = held f jobs"
  using held_update [OF assms(1), of f y] assms(2) by simp

text \<open>C38: The detector agent runs at most one pipeline per camera and loses none: in every state it reaches, through joining, rounds with any
  answers of the server (rounds that raise included) and frames of its pipelines, each pipeline ever started is in its table
  or was stopped.\<close>

theorem detector_pipelines_accounted:
  assumes "detector_reachable session d"
  shows "distinct (map fst (ag_jobs (da_agent d)))
    \<and> started_of (ag_calls (da_agent d))
      = held (\<lambda>p. {#pl_camera p#}) (ag_jobs (da_agent d)) + stopped_of (ag_calls (da_agent d))"
proof -
  have "detector_ok d"
    using assms
  proof induction
    case (d_boot token)
    then show ?case by (simp add: detector_ok_def new_agent_def)
  next
    case (d_joined d join_token answer)
    then show ?case using detector_ok_cong [of "d\<lparr>da_agent := snd (agent_join join_token answer (da_agent d))\<rparr>" d] by simp
  next
    case (d_round d interval now hb reply delivered r d')
    then show ?case using det_pass_ok by blast
  next
    case (d_frame d c p md5 frame_id ms w h ds r p')
    then show ?case using held_same [OF d_frame(2), of "\<lambda>p. {#pl_camera p#}" p'] process_frame_camera [OF d_frame(3)]
      by (simp add: detector_ok_def distinct_update)
  qed
  then show ?thesis by (simp add: detector_ok_def)
qed

section \<open>A concrete worker\<close>

definition sample_work_order :: pydict where
  "sample_work_order = [(''camera_id'', PInt 7), (''epoch'', PInt 2), (''rtsp_url'', PStr ''rtsp://g/7'')]"

definition sample_pipeline :: pipeline where
  "sample_pipeline = (case det_make ''s'' sample_work_order of Inr p \<Rightarrow> p | Inl _ \<Rightarrow>
     \<lparr>pl_spec = [], pl_camera = 0, pl_epoch = PNone, pl_conf = 0, pl_target_fps = 0, pl_labels = [], pl_zones = \<lparr>zf_include = [], zf_ignore = []\<rparr>,
      pl_interval = PNone, pl_tracker = SimpleTracker [] 0, pl_sampler = [], pl_last_frame = 0, pl_running = False\<rparr>)"

definition sample_person :: tracked_object where
  "sample_person = TrackedObject 1 \<lparr>dt_bbox = (320, 100, 640, 470), dt_confidence = 87 / 100, dt_class_id = 0, dt_label = ''person''\<rparr> 1000100
     ''0123456789abcdef0123456789abcdef''"

lemma sample_order: "det_make ''s'' sample_work_order = Inr sample_pipeline"
proof -
  have "\<exists>p. det_make ''s'' sample_work_order = Inr p"
    by (simp add: det_make_def CameraPipeline_def sample_work_order_def dget_def dget_or_def dhas_def py_or_def py_number_def)
  then show ?thesis by (auto simp: sample_pipeline_def)
qed

lemma sample_worker_report: "\<exists>rep. report_of sample_pipeline 1000100 640 480 sample_person = Inr rep"
  by (simp add: report_of_def sample_person_def TrackedObject_def)

lemma sample_deliverable: "deliverable 1000000 sample_det_state 9 (sample_pipeline, 1000100, 640, 480, sample_person)"
proof -
  have p: "pl_camera sample_pipeline = 7" "pl_epoch sample_pipeline = PInt 2" by code_simp+
  have "hex_text (to_track_key sample_person)" "length (to_track_key sample_person) \<le> 32" by code_simp+
  then show ?thesis unfolding deliverable_def prod.case p
    by (simp add: sample_det_state_def get_for_camera_def sample_person_def TrackedObject_def in_frame_def
        ALL_LABELS_def COCO_LABELS_def)
qed

lemma sample_zones: "zones_readable (dn_zones sample_det_state)"
  by (simp add: zones_readable_def sample_det_state_def sample_det_zone_def in_polygon_def point_of_def poly_area_def pair_of_def py_number_def)


definition sample_detector :: detector_agent where
  "sample_detector = \<lparr>da_agent = new_agent (Some ''t''), da_session = ''s'', da_queue = [], da_posted = [], da_last_report = 0\<rparr>"

theorem flush_fits_server_witness:
  "\<exists>batch. [sample_report ''aa'' (PInt 2), sample_report ''bb'' (PInt 2)] = batch
     @ concat (da_queue (flush_reports True (sample_detector\<lparr>da_queue := [[sample_report ''aa'' (PInt 2)], [sample_report ''bb'' (PInt 2)]]\<rparr>)))
     \<and> length batch < MAX_BATCH"
proof -
  let ?a = "sample_detector\<lparr>da_queue := [[sample_report ''aa'' (PInt 2)], [sample_report ''bb'' (PInt 2)]]\<rparr>"
  have "\<exists>batch. concat (da_queue ?a) = batch @ concat (da_queue (flush_reports True ?a))
    \<and> concat (da_posted (flush_reports True ?a)) = concat (da_posted ?a) @ batch
    \<and> length batch < MAX_BATCH \<and> (da_queue (flush_reports True ?a) \<noteq> [] \<longrightarrow> 1000 \<le> length batch)"
    by (rule flush_fits_server) auto
  then show ?thesis by auto
qed

theorem entry_trigger_never_fires_witness:
  "\<exists>rep r. report_of sample_pipeline 1000100 640 480 sample_person = Inr rep
     \<and> build_row sample_det_env 1000000 sample_det_state 9 rep = Inr (Some r)
     \<and> trigger_matches sample_det_env sample_det_state r (sample_object_trigger\<lparr>tg_require_zone_entry := True\<rparr>) = Inr False
     \<and> trigger_matches sample_det_env sample_det_state r sample_object_trigger = Inr True"
proof -
  obtain rep where rep: "report_of sample_pipeline 1000100 640 480 sample_person = Inr rep" using sample_worker_report by blast
  have st: "de_str sample_det_env (PStr v) = v" for v by (simp add: sample_det_env_def)
  from report_delivered [OF sample_deliverable rep sample_zones st] obtain r where
    r: "build_row sample_det_env 1000000 sample_det_state 9 rep = Inr (Some r)" "row_of (sample_pipeline, 1000100, 640, 480, sample_person) r" by blast
  have "trigger_matches sample_det_env sample_det_state r (sample_object_trigger\<lparr>tg_require_zone_entry := True\<rparr>) = Inr False"
    by (rule entry_trigger_never_fires [OF rep r(1)]) simp
  moreover have c: "round_even (to_confidence sample_person * 100) = 87" by code_simp
  have "dr_confidence r = 87" "dr_label r = ''person''"
    using r(2) c by (auto simp: row_of_def sample_person_def TrackedObject_def split: prod.splits)
  then have "trigger_matches sample_det_env sample_det_state r sample_object_trigger = Inr True"
    by (simp add: trigger_matches_def row_matches_def no_entry_def short_dwell_def held_back_def sample_object_trigger_def seen_track_def
        trig_within_cooldown_def key_there_def sample_det_env_def sample_ev_env_def mem_redis_def sample_det_state_def sample_site_def)
  ultimately show ?thesis using rep r(1) by blast
qed

theorem detector_pipelines_accounted_witness:
  "let d = snd (det_pass 10 1 None (\<lambda>_. Items ''e'' [sample_work_order]) True sample_detector)
   in started_of (ag_calls (da_agent d)) = {#7#}
      \<and> started_of (ag_calls (da_agent d)) = held (\<lambda>p. {#pl_camera p#}) (ag_jobs (da_agent d)) + stopped_of (ag_calls (da_agent d))"
proof -
  define d where "d = snd (det_pass 10 1 None (\<lambda>_. Items ''e'' [sample_work_order]) True sample_detector)"
  have "detector_reachable ''s'' sample_detector" unfolding sample_detector_def by (rule d_boot)
  then have "detector_reachable ''s'' d" unfolding d_def by (rule d_round [OF _ prod.collapse [symmetric]])
  from detector_pipelines_accounted [OF this]
  have "started_of (ag_calls (da_agent d)) = held (\<lambda>p. {#pl_camera p#}) (ag_jobs (da_agent d)) + stopped_of (ag_calls (da_agent d))" by blast
  moreover have "ag_calls (da_agent d) = [PipelineStarted 7]" unfolding d_def by code_simp
  ultimately show ?thesis unfolding Let_def d_def [symmetric] by simp
qed

end
