(* ===== verification/Spec2Isabelle.thy ===== *)
theory Spec2Isabelle
  imports Prelude Snowflake Storage Retention RetentionProps PyVal Redis Users Tokens TokenProps Auth
    FeatureFlags NodePlan AiScheduler AiProps AiRegistry EncodeScheduler EncodeProps
    Events EventProps Playback ShareLink ShareProps
    Recordings EventAdmin EventAdminProps Cron FlowEngine FlowRuns FlowAdmin FlowProps
    SegmentSweep Ffmpeg SegmentIndexer Recorder RecorderSteps RecorderProps
    Launcher LauncherSteps LauncherProps Updater UpdaterProps
    EncodeRegistry NodeAgents NodeAgentProps Tracker TrackerProps Detector Detections DetectionRules DetectionProps DetectionBatch CountingProps DetectorProps
begin

text \<open>
  AeroXProtect is a network video recorder: a Flask and Celery server (\<open>server/\<close>) over a relational
  database and Redis, worker processes (\<open>worker/\<close>) that record, encode and detect, and on Windows a launcher
  (\<open>windows/launcher/\<close>) that starts, watches and updates all of them. This library models the decisions
  these parts take and proves what makes them correct. Paths below are relative to \<open>src/\<close>.

  \<^bold>\<open>How the parts interact.\<close> The recorder supervisor keeps one FFmpeg process per camera writing segment files
  to the disk that the storage manager picks; the segment indexer turns finished files into rows; retention,
  the segment sweep and disk evacuation delete and move rows and files. Cameras and detector nodes send
  events into the event pipeline, which opens and closes events under the policies and schedules of the
  administration, protects footage as recordings, and publishes outbox rows that trigger automation flows.
  Schedulers distribute cameras over detector and encoder nodes, which authenticate with tokens of the token
  service, as users do. Playback and share links read segments. Every row gets a Snowflake identifier, and
  the launcher's table of services is what keeps the instances of that generator apart.

  \<^bold>\<open>Conventions.\<close> Tables are lists of records in row order and a database is a record of tables. An operation
  takes the state and returns the new one; an exception is a value of \<open>py_error\<close> (\<open>Prelude\<close>), and code that may
  raise after it changed state has the type \<open>('s, 'a) act\<close>, which returns the state in both cases.
  Python integers are \<open>int\<close>, identifiers are 63-bit values handled as \<open>nat\<close> or \<open>int\<close> with the bounds written out,
  times are integers or rationals, and JSON values that reach a decision are \<open>pyval\<close> (\<open>PyVal\<close>), with
  truth value, equality, \<open>int()\<close> and membership as Python has them. What the program does not compute itself
  is a parameter: hashes and token draws, the Redis server (\<open>Redis\<close>, a record of commands whose laws are
  named hypotheses), clock readings, number formatting, drivers, disk usage, \<open>stat\<close> and \<open>ffprobe\<close> answers,
  process spawning, network and file-system answers. A parameter is used only where the code asks for it, in the order the
  code asks.

  \<^bold>\<open>The theories.\<close>

  \<^item> \<open>Prelude\<close>, \<open>PyVal\<close>, \<open>Redis\<close>: errors and effects, selection loops, decimal printing, Python values, the
    Redis interface and the locale \<open>fixed_window_limiter\<close> of a counter with expiry.
  \<^item> \<open>Snowflake\<close> (\<open>server/util/snowflake.py\<close>): the generator with its wait for the next millisecond.
    Identifiers increase strictly, and instances never collide.
  \<^item> \<open>Storage\<close> (\<open>server/model/{segment,recording,disk,storage_policy,camera}.py\<close>,
    \<open>server/service/storage_manager.py\<close>): tables, pool and write-disk strategies. The picked disk is
    writable and in the pool.
  \<^item> \<open>Retention\<close>, \<open>RetentionProps\<close> (\<open>retention_engine.py\<close>, \<open>reconcile.py\<close>): the age, camera-quota and disk passes. The locale
    \<open>row_store\<close> is the contract between deleting a row and the passes. Protected footage survives a run,
    the byte cap is reached, unprotected footage goes first, aged footage goes.
  \<^item> \<open>SegmentSweep\<close> (\<open>task/list/segment_sweep.py\<close>): promotion, orphan pruning, evacuation. The batching loop of the evacuation is a
    partial function; that it returns, with every segment moved or reported, is a theorem.
  \<^item> \<open>SegmentIndexer\<close>, \<open>Ffmpeg\<close> (\<open>segment_indexer.py\<close>, \<open>ffmpeg.py\<close>): file names, calendar, directory scan,
    command lines and filter quoting. Every finished file is indexed exactly once, names read back.
  \<^item> \<open>Recorder\<close>, \<open>RecorderSteps\<close>, \<open>RecorderProps\<close> (\<open>worker/recorder/supervisor.py\<close>): a tick over the main,
    secondary and keep-warm processes. The locales \<open>process_loop\<close> and \<open>converging_loop\<close> are the contract of
    the three loops. A tick converges, every reachable state is well formed, the side loops
    never touch the main recorder.
  \<^item> \<open>Tokens\<close>, \<open>TokenProps\<close>, \<open>Users\<close>, \<open>Auth\<close>, \<open>FeatureFlags\<close> (\<open>token.py\<close>, \<open>permission.py\<close>, \<open>controller/auth.py\<close>,
    \<open>feature_flag.py\<close>): token issue, rotation, revocation, RBAC, lockout. Replay burns the family,
    revocation invalidates, a locked account rejects the right password, \<open>has\<close> is the granted set.
  \<^item> \<open>NodePlan\<close>, \<open>AiScheduler\<close>, \<open>AiProps\<close>, \<open>AiRegistry\<close>, \<open>EncodeScheduler\<close>, \<open>EncodeProps\<close> (\<open>ai_scheduler.py\<close>,
    \<open>ai_node_registry.py\<close>, \<open>encode_scheduler.py\<close> and their controllers): the greedy plan, shared by both clusters, and
    the locale \<open>assignment_table\<close> interpreted for both tables. Capacity and eligibility hold, counters are
    honest, a second rebalance changes nothing, stale nodes lose their cameras.
  \<^item> \<open>Events\<close>, \<open>EventProps\<close>, \<open>EventAdmin\<close>, \<open>EventAdminProps\<close>, \<open>Recordings\<close> (\<open>event_pipeline.py\<close>, \<open>event_clip.py\<close>, the schedule, policy,
    event and recording controllers): at most one active event per key, a recorded event protects its
    window, stored schedule rows refine the windows entered, manual recordings are exclusive.
  \<^item> \<open>Cron\<close>, \<open>FlowEngine\<close>, \<open>FlowRuns\<close>, \<open>FlowAdmin\<close>, \<open>FlowProps\<close> (\<open>cron.py\<close>, \<open>flow_engine.py\<close>, \<open>action_runner.py\<close>): matching, the graph walk,
    validation. The walk is proved against the locale \<open>node_executor\<close>. A validated flow runs to
    completion within the step and delay budgets.
  \<^item> \<open>Playback\<close>, \<open>ShareLink\<close>, \<open>ShareProps\<close> (\<open>playback_planner.py\<close>, \<open>share_link.py\<close>): the timeline partitions the
    window; what a share token reaches; the bound on password guesses.
  \<^item> \<open>Launcher\<close>, \<open>LauncherSteps\<close>, \<open>LauncherProps\<close> (\<open>axp_launcher/env.py\<close>, \<open>supervisor.py\<close>): the service table, readiness gates, stop
    ladder, restarts and crash-loop mode. The locale \<open>service_loop\<close> is the contract of a loop over the services,
    interpreted for monitoring, both starts and the stopped tier.
  \<^item> \<open>Updater\<close>, \<open>UpdaterProps\<close> (\<open>axp_launcher/update.py\<close>): version order, release choice, the update run and its
    rollback, composed by the triples of \<open>Prelude\<close>.

  \<^bold>\<open>Bounds and fuel.\<close> No definition takes fuel. The flow walk ends because every step shortens the list of
  unvisited nodes or the step counter (\<open>MAX_STEPS\<close> is the code's own bound); waiting loops of the launcher
  (\<open>await_ready\<close>, \<open>await_health\<close>) end because sleeping advances the clock towards the deadline; the wait of the
  generator consumes clock readings and is \<open>None\<close> when they run out; the evacuation loop is a \<open>partial_function\<close>
  with a termination theorem.

  \<^bold>\<open>Limits.\<close> One operation runs at a time: the interleavings that matter are stated as sequences of operations (the
  join-token race, the updater between monitor passes), and threads inside one launcher operation are not
  interleaved. Directories are identified by their spelling. Messages keep the text of the source, except that
  a dash outside ASCII is written as a hyphen. Logging, response serialisation and metrics are left out.

  \<^bold>\<open>Not modelled.\<close> Camera drivers and discovery (vendor HTTP, ONVIF), the Flask views (request parsing around
  the controllers), the machine-learning backends, media pipes of go2rtc, schema migrations, export and timelapse rendering, face,
  plate and audio recognition, federation, notification transports, the launcher's process
  containment, probes and log files, and the TypeScript front end: I/O or third-party computation whose outcomes are the
  parameters above.
\<close>

end
